(* ===== verification/Prelude.thy ===== *)
theory Prelude
  imports Main "HOL-Library.AList" "HOL-Library.Word"
begin

text \<open>
  Shared vocabulary of the development: Go's time values, results that carry both a value
  and an error, decimal printing, and the lemmas on association lists that every component
  with a keyed table uses.

  A \<open>time.Time\<close> is an integer number of nanoseconds since Go's zero time, so that
  \<open>t.IsZero()\<close> is \<open>t = 0\<close>; a \<open>time.Duration\<close> is an integer number of
  nanoseconds.  A Go string is a \<open>string\<close>, one \<open>char\<close> per byte.
  A Go map that is iterated is an association list with distinct keys; its list order is one of
  the orders the runtime may choose.
\<close>

named_theorems field_simps_go \<open>what an operation does to each field of its state\<close>
named_theorems keeps \<open>preservation of a component's invariant by an operation\<close>

type_synonym gotime = int
type_synonym duration = int
type_synonym tenant_id = string

section \<open>Time\<close>

definition unix_epoch :: gotime where
  "unix_epoch = 62135596800 * 1000000000"

definition unix_nano :: "gotime \<Rightarrow> int" where
  "unix_nano t = t - unix_epoch"

definition second :: duration where
  "second = 1000000000"

definition minute :: duration where
  "minute = 60 * second"

definition millisecond :: duration where
  "millisecond = 1000000"

definition max_duration :: duration where
  "max_duration = 9223372036854775807"

text \<open>\<open>t.Sub(u)\<close> saturates at the largest and smallest \<open>Duration\<close>.\<close>

definition time_sub :: "gotime \<Rightarrow> gotime \<Rightarrow> duration" where
  "time_sub t u = max (- max_duration - 1) (min max_duration (t - u))"

lemma time_sub_exact:
  "\<bar>t - u\<bar> \<le> max_duration \<Longrightarrow> time_sub t u = t - u"
  by (auto simp: time_sub_def)

lemma time_sub_le: "0 \<le> t - u \<Longrightarrow> time_sub t u \<le> t - u"
  by (auto simp: time_sub_def max_duration_def)

lemma time_sub_ge_iff:
  "d \<le> max_duration \<Longrightarrow> - max_duration - 1 < d \<Longrightarrow> d \<le> time_sub t u \<longleftrightarrow> d \<le> t - u"
  by (auto simp: time_sub_def)

section \<open>Results\<close>

text \<open>
  A Go function returning \<open>(T, error)\<close> has three outcomes the callers can tell apart:
  the value and a nil error, the zero value and an error, and a meaningful value together with
  an error.
\<close>

datatype ('a, 'e) res = Ret 'a | Fail 'e | FailWith 'a 'e

fun res_err :: "('a, 'e) res \<Rightarrow> 'e option" where
  "res_err (Ret a) = None"
| "res_err (Fail e) = Some e"
| "res_err (FailWith a e) = Some e"

section \<open>Decimal printing\<close>

fun show_nat :: "nat \<Rightarrow> string" where
  "show_nat n =
     (if n < 10 then [char_of (48 + n)]
      else show_nat (n div 10) @ [char_of (48 + n mod 10)])"

declare show_nat.simps [simp del]

definition show_int :: "int \<Rightarrow> string" where
  "show_int i = (if i < 0 then CHR ''-'' # show_nat (nat (- i)) else show_nat (nat i))"

text \<open>Reading the decimal back, used to show that printing loses nothing.\<close>

definition digit_val :: "char \<Rightarrow> nat" where
  "digit_val c = of_char c - 48"

definition read_nat :: "string \<Rightarrow> nat" where
  "read_nat s = foldl (\<lambda>n c. 10 * n + digit_val c) 0 s"

lemma digit_val_char_of: "d < 10 \<Longrightarrow> digit_val (char_of (48 + d)) = d"
  by (simp add: digit_val_def)

lemma read_show_nat: "read_nat (show_nat n) = n"
proof (induction n rule: show_nat.induct)
  case (1 n)
  show ?case
  proof (cases "n < 10")
    case True
    then show ?thesis
      by (subst show_nat.simps) (simp add: read_nat_def digit_val_char_of)
  next
    case False
    then have "read_nat (show_nat n) = 10 * read_nat (show_nat (n div 10)) + n mod 10"
      by (subst show_nat.simps) (simp add: read_nat_def digit_val_char_of)
    with False "1.IH" show ?thesis by simp
  qed
qed

lemma show_nat_inj: "show_nat m = show_nat n \<Longrightarrow> m = n"
  by (metis read_show_nat)

section \<open>Association lists\<close>

abbreviation keys :: "('k \<times> 'v) list \<Rightarrow> 'k list" where
  "keys xs \<equiv> map fst xs"

lemma distinct_keys_update [simp]:
  "distinct (keys xs) \<Longrightarrow> distinct (keys (AList.update k v xs))"
  by (simp add: distinct_update)

lemma map_of_update [simp]: "map_of (AList.update k v xs) = (map_of xs)(k \<mapsto> v)"
  by (rule update_conv')

lemma keys_update_present [simp]:
  "map_of xs k = Some v0 \<Longrightarrow> keys (AList.update k v xs) = keys xs"
  by (auto simp: AList.update_keys dest!: map_of_SomeD) (force simp: image_iff)

lemma length_update_le: "length (AList.update k v xs) \<le> Suc (length xs)"
  by (induction xs) auto

lemma length_update_present [simp]:
  "map_of xs k = Some v0 \<Longrightarrow> length (AList.update k v xs) = length xs"
  by (metis keys_update_present length_map)

lemma set_update_keys: "\<forall>(k, e) \<in> set xs. P k e \<Longrightarrow> P k0 e0 \<Longrightarrow> \<forall>(k, e) \<in> set (AList.update k0 e0 xs). P k e"
  by (induction xs) auto

lemma update_absent: "map_of xs k = None \<Longrightarrow> AList.update k v xs = xs @ [(k, v)]"
  by (induction xs) (auto split: if_splits)

lemma distinct_keys_delete [simp]:
  "distinct (keys xs) \<Longrightarrow> distinct (keys (AList.delete k xs))"
  by (simp add: distinct_delete)

lemma map_of_delete [simp]: "map_of (AList.delete k xs) = (map_of xs)(k := None)"
  by (rule delete_conv')

lemma in_set_map_of:
  "distinct (keys xs) \<Longrightarrow> (k, v) \<in> set xs \<longleftrightarrow> map_of xs k = Some v"
  by (simp add: map_of_eq_Some_iff)

text \<open>How updating one row changes a count over the rows.\<close>

definition count_rows :: "('v \<Rightarrow> bool) \<Rightarrow> ('k \<times> 'v) list \<Rightarrow> nat" where
  "count_rows P xs = length (filter P (map snd xs))"

lemma count_rows_Nil [simp]: "count_rows P [] = 0"
  by (simp add: count_rows_def)

lemma count_rows_Cons [simp]:
  "count_rows P ((k, v) # xs) = (if P v then Suc (count_rows P xs) else count_rows P xs)"
  by (simp add: count_rows_def)

lemma count_rows_append [simp]:
  "count_rows P (xs @ ys) = count_rows P xs + count_rows P ys"
  by (simp add: count_rows_def)

lemma count_rows_update:
  assumes "map_of xs k = Some v0"
  shows "count_rows P (AList.update k v xs) + (if P v0 then 1 else 0)
           = count_rows P xs + (if P v then 1 else 0)"
  using assms by (induction xs) (auto split: if_splits)

lemma count_rows_update_le:
  assumes "map_of xs k = Some v0" and "P v \<Longrightarrow> P v0"
  shows "count_rows P (AList.update k v xs) \<le> count_rows P xs"
  using count_rows_update [OF assms(1), of P v] assms(2) by (auto split: if_splits)

lemma count_rows_update_same:
  assumes "map_of xs k = Some v0" and "P v = P v0"
  shows "count_rows P (AList.update k v xs) = count_rows P xs"
  using count_rows_update [OF assms(1), of P v] assms(2) by (auto split: if_splits)

lemma count_rows_mono:
  "(\<And>k v. (k, v) \<in> set xs \<Longrightarrow> P v \<Longrightarrow> Q v) \<Longrightarrow> count_rows P xs \<le> count_rows Q xs"
proof (induction xs)
  case (Cons x xs)
  then have "count_rows P xs \<le> count_rows Q xs" by auto
  with Cons.prems show ?case by (cases x) auto
qed simp

end
