(* ===== verification/Glob.thy ===== *)
theory Glob
  imports Prelude
begin

text \<open>
  The two text matchers the remediation validator relies on: the DNS-1123 regular expression of
  internal/remediate/validate.go and the glob language of Go's \<open>path.Match\<close>.

  \<open>path.Match\<close> is modelled by its documented grammar: a pattern is parsed into a list of
  tokens (\<open>None\<close> for \<open>ErrBadPattern\<close>, which the standard library reports whatever
  the name is) and the tokens are matched against the name with backtracking.  Characters are
  bytes, so the model is exact for ASCII patterns.
\<close>

section \<open>DNS-1123 names\<close>

definition lower_alnum :: "char \<Rightarrow> bool" where
  "lower_alnum c =
     (let n = of_char c :: nat in (97 \<le> n \<and> n \<le> 122) \<or> (48 \<le> n \<and> n \<le> 57))"

definition dns_inner :: "char \<Rightarrow> bool" where
  "dns_inner c = (lower_alnum c \<or> c = CHR ''-'' \<or> c = CHR ''.'')"

text \<open>The regular expression: one alphanumeric, or alphanumerics around at most 251 inner bytes.\<close>

definition dns1123 :: "string \<Rightarrow> bool" where
  "dns1123 s =
     (case s of
        [] \<Rightarrow> False
      | c # t \<Rightarrow> lower_alnum c \<and>
          (t = [] \<or> (length t \<le> 252 \<and> list_all dns_inner (butlast t) \<and> lower_alnum (last t))))"

lemma lower_alnum_inner: "lower_alnum c \<Longrightarrow> dns_inner c"
  by (simp add: dns_inner_def)

lemma dns_inner_not_slash: "dns_inner c \<Longrightarrow> c \<noteq> CHR ''/''"
  by (auto simp: dns_inner_def lower_alnum_def)

lemma dns1123_chars: "dns1123 s \<Longrightarrow> c \<in> set s \<Longrightarrow> dns_inner c"
proof (cases s)
  case (Cons x t)
  assume "dns1123 s" and "c \<in> set s"
  with Cons show ?thesis
    by (cases t rule: rev_cases)
      (auto simp: dns1123_def list_all_iff lower_alnum_inner)
qed (simp add: dns1123_def)

lemma dns1123_no_slash: "dns1123 s \<Longrightarrow> CHR ''/'' \<notin> set s"
  using dns1123_chars dns_inner_not_slash by blast

lemma dns1123_not_flag: "dns1123 s \<Longrightarrow> s \<noteq> [] \<and> hd s \<noteq> CHR ''-''"
  by (auto simp: dns1123_def lower_alnum_def split: list.splits)

lemma dns1123_length: "dns1123 s \<Longrightarrow> 1 \<le> length s \<and> length s \<le> 253"
  by (auto simp: dns1123_def split: list.splits)

section \<open>Glob patterns\<close>

datatype gtok = Star | AnyByte | Lit char | Cls bool "(char \<times> char) list"

text \<open>One class character (\<open>getEsc\<close>): not \<open>-\<close> or \<open>]\<close>, possibly escaped, and not the last byte.\<close>

definition get_esc :: "string \<Rightarrow> (char \<times> string) option" where
  "get_esc s =
     (case s of
        [] \<Rightarrow> None
      | c # t \<Rightarrow>
          if c = CHR ''-'' \<or> c = CHR '']'' then None
          else if c = CHR 0x5C then
            (case t of [] \<Rightarrow> None | d # u \<Rightarrow> if u = [] then None else Some (d, u))
          else if t = [] then None else Some (c, t))"

lemma get_esc_length: "get_esc s = Some (c, t) \<Longrightarrow> length t < length s"
  by (auto simp: get_esc_def split: list.splits if_splits)

function parse_ranges :: "(char \<times> char) list \<Rightarrow> string \<Rightarrow> ((char \<times> char) list \<times> string) option"
where
  "parse_ranges acc s =
     (if acc \<noteq> [] \<and> s \<noteq> [] \<and> hd s = CHR '']'' then Some (rev acc, tl s)
      else case get_esc s of
        None \<Rightarrow> None
      | Some (lo, t) \<Rightarrow>
          if t \<noteq> [] \<and> hd t = CHR ''-'' then
            (case get_esc (tl t) of
               None \<Rightarrow> None
             | Some (hi, u) \<Rightarrow> parse_ranges ((lo, hi) # acc) u)
          else parse_ranges ((lo, lo) # acc) t)"
  by pat_completeness auto
termination
proof (relation "measure (\<lambda>(acc, s). length s)", goal_cases)
  case (2 acc s p lo t q hi u)
  then show ?case
    using get_esc_length [of s lo t] get_esc_length [of "tl t" hi u] by auto
next
  case (3 acc s p lo t)
  then show ?case using get_esc_length [of s lo t] by auto
qed simp

declare parse_ranges.simps [simp del]

lemma parse_ranges_length:
  "parse_ranges acc s = Some (rs, t) \<Longrightarrow> length t < length s"
proof (induction acc s rule: parse_ranges.induct)
  case (1 acc s)
  show ?case
  proof (cases "acc \<noteq> [] \<and> s \<noteq> [] \<and> hd s = CHR '']''")
    case True
    with "1.prems" show ?thesis by (auto simp: parse_ranges.simps [of acc s])
  next
    case closed: False
    with "1.prems" obtain lo u where e: "get_esc s = Some (lo, u)"
      by (auto simp: parse_ranges.simps [of acc s] split: option.splits)
    note len = get_esc_length [OF e]
    show ?thesis
    proof (cases "u \<noteq> [] \<and> hd u = CHR ''-''")
      case True
      with "1.prems" closed e obtain hi v where f: "get_esc (tl u) = Some (hi, v)"
        by (auto simp: parse_ranges.simps [of acc s] split: option.splits)
      with True "1.prems" closed e have "parse_ranges ((lo, hi) # acc) v = Some (rs, t)"
        by (simp add: parse_ranges.simps [of acc s])
      from "1.IH"(1) [OF closed e refl True f refl this] get_esc_length [OF f] len True
      show ?thesis by auto
    next
      case False
      with "1.prems" closed e have "parse_ranges ((lo, lo) # acc) u = Some (rs, t)"
        by (auto simp: parse_ranges.simps [of acc s])
      from "1.IH"(2) [OF closed e refl False this] len show ?thesis by simp
    qed
  qed
qed

function parse_glob :: "string \<Rightarrow> gtok list option" where
  "parse_glob [] = Some []"
| "parse_glob (c # p) =
     (if c = CHR ''*'' then map_option ((#) Star) (parse_glob p)
      else if c = CHR ''?'' then map_option ((#) AnyByte) (parse_glob p)
      else if c = CHR 0x5C then
        (case p of [] \<Rightarrow> None | d # q \<Rightarrow> map_option ((#) (Lit d)) (parse_glob q))
      else if c = CHR ''['' then
        (let neg = (p \<noteq> [] \<and> hd p = CHR ''^''); p' = (if neg then tl p else p)
         in case parse_ranges [] p' of
              None \<Rightarrow> None
            | Some (rs, q) \<Rightarrow> map_option ((#) (Cls neg rs)) (parse_glob q))
      else map_option ((#) (Lit c)) (parse_glob p))"
  by pat_completeness auto
termination
proof (relation "measure length", goal_cases)
  case (5 c p neg p' pr rs q)
  from parse_ranges_length [of "[]" p' rs q] 5 have "length q < length p'" by simp
  moreover have "length p' \<le> length p" using 5 by auto
  ultimately show ?case by simp
qed auto

fun in_ranges :: "(char \<times> char) list \<Rightarrow> char \<Rightarrow> bool" where
  "in_ranges [] c = False"
| "in_ranges ((lo, hi) # rs) c =
     (((of_char lo :: nat) \<le> of_char c \<and> (of_char c :: nat) \<le> of_char hi) \<or> in_ranges rs c)"

fun glob :: "gtok list \<Rightarrow> string \<Rightarrow> bool" where
  "glob [] s = (s = [])"
| "glob (Lit c # p) s = (case s of [] \<Rightarrow> False | x # xs \<Rightarrow> x = c \<and> glob p xs)"
| "glob (AnyByte # p) s = (case s of [] \<Rightarrow> False | x # xs \<Rightarrow> x \<noteq> CHR ''/'' \<and> glob p xs)"
| "glob (Cls neg rs # p) s =
     (case s of [] \<Rightarrow> False | x # xs \<Rightarrow> in_ranges rs x \<noteq> neg \<and> glob p xs)"
| "glob (Star # p) s =
     (glob p s \<or> (case s of [] \<Rightarrow> False | x # xs \<Rightarrow> x \<noteq> CHR ''/'' \<and> glob (Star # p) xs))"

text \<open>\<open>path.Match\<close> used as its callers use it: true only when it matched with a nil error.\<close>

definition path_match :: "string \<Rightarrow> string \<Rightarrow> bool" where
  "path_match pattern name =
     (case parse_glob pattern of None \<Rightarrow> False | Some p \<Rightarrow> glob p name)"

subsection \<open>Reference facts\<close>

text \<open>A trailing star matches exactly the slash-free suffixes.\<close>

lemma glob_star_end: "glob [Star] s \<longleftrightarrow> CHR ''/'' \<notin> set s"
  by (induction s) auto

lemma glob_lits: "glob (map Lit l @ p) s \<longleftrightarrow> (\<exists>t. s = l @ t \<and> glob p t)"
  by (induction l arbitrary: s) (auto split: list.splits)

definition plain_byte :: "char \<Rightarrow> bool" where
  "plain_byte c = (c \<noteq> CHR ''*'' \<and> c \<noteq> CHR ''?'' \<and> c \<noteq> CHR 0x5C \<and> c \<noteq> CHR ''['')"

lemma parse_glob_plain:
  "list_all plain_byte l \<Longrightarrow> parse_glob (l @ p) = map_option ((@) (map Lit l)) (parse_glob p)"
  by (cases "parse_glob p"; induction l) (auto simp: plain_byte_def)

text \<open>A pattern without metacharacters matches itself only.\<close>

lemma path_match_plain:
  assumes "list_all plain_byte l"
  shows "path_match l s \<longleftrightarrow> s = l"
  using parse_glob_plain [OF assms, of "[]"] glob_lits [of l "[]" s]
  by (simp add: path_match_def)

text \<open>A plain prefix and a star match the names with that prefix and no further slash.\<close>

lemma path_match_prefix:
  assumes "list_all plain_byte l"
  shows "path_match (l @ ''*'') s \<longleftrightarrow> (\<exists>t. s = l @ t \<and> CHR ''/'' \<notin> set t)"
proof -
  have "parse_glob (l @ ''*'') = Some (map Lit l @ [Star])"
    using parse_glob_plain [OF assms, of "''*''"] by simp
  then show ?thesis
    by (simp only: path_match_def option.case glob_lits glob_star_end)
qed

end
