(* ===== verification/GoText.thy ===== *)
theory GoText
  imports Prelude
begin

text \<open>
  How Go's \<open>fmt\<close> prints the values the program prints: quoted strings, hexadecimal bytes and
  durations; and the wrap-around of its integers.
\<close>

section \<open>Strings and bytes\<close>

definition hex_digit :: "nat \<Rightarrow> char" where
  "hex_digit n = (if n < 10 then char_of (48 + n) else char_of (87 + n))"

definition hex_byte :: "char \<Rightarrow> string" where
  "hex_byte c = (let n = of_char c in [hex_digit (n div 16), hex_digit (n mod 16)])"

text \<open>\<open>hex.EncodeToString\<close>.\<close>

definition hex_string :: "string \<Rightarrow> string" where
  "hex_string s = concat (map hex_byte s)"

text \<open>\<open>strconv.Quote\<close> (the verb \<open>%q\<close>) on ASCII text.\<close>

definition quote_byte :: "char \<Rightarrow> string" where
  "quote_byte c =
     (let n = of_char c :: nat in
      if n = 34 then [CHR 0x5C, c]
      else if n = 92 then [CHR 0x5C, c]
      else if n = 7 then [CHR 0x5C, CHR ''a'']
      else if n = 8 then [CHR 0x5C, CHR ''b'']
      else if n = 12 then [CHR 0x5C, CHR ''f'']
      else if n = 10 then [CHR 0x5C, CHR ''n'']
      else if n = 13 then [CHR 0x5C, CHR ''r'']
      else if n = 9 then [CHR 0x5C, CHR ''t'']
      else if n = 11 then [CHR 0x5C, CHR ''v'']
      else if n < 32 \<or> n = 127 then [CHR 0x5C, CHR ''x''] @ hex_byte c
      else [c])"

definition go_quote :: "string \<Rightarrow> string" where
  "go_quote s = CHR 0x22 # concat (map quote_byte s) @ [CHR 0x22]"

section \<open>Numbers\<close>

text \<open>Go's \<open>int64\<close> arithmetic wraps around; \<open>a / b\<close> on integers truncates toward zero.\<close>

definition wrap64 :: "int \<Rightarrow> int" where
  "wrap64 i = signed_take_bit 63 i"

definition go_div :: "int \<Rightarrow> int \<Rightarrow> int" where
  "go_div a b = (if 0 \<le> a then a div b else - ((- a) div b))"

text \<open>The decimal form of \<open>n\<close> padded with zeros to \<open>k\<close> digits.\<close>

definition pad_nat :: "nat \<Rightarrow> nat \<Rightarrow> string" where
  "pad_nat k n = (let s = show_nat n in replicate (k - length s) (CHR ''0'') @ s)"

section \<open>Durations\<close>

text \<open>The fraction \<open>v / 10 ^ prec\<close> without its trailing zeros (\<open>fmtFrac\<close> of package time).\<close>

definition frac_text :: "nat \<Rightarrow> nat \<Rightarrow> string" where
  "frac_text prec v =
     (let f = v mod 10 ^ prec in
      if f = 0 then []
      else CHR ''.'' # rev (dropWhile (\<lambda>c. c = CHR ''0'') (rev (pad_nat prec f))))"

definition scaled_text :: "nat \<Rightarrow> nat \<Rightarrow> string" where
  "scaled_text prec v = show_nat (v div 10 ^ prec) @ frac_text prec v"

text \<open>\<open>Duration.String\<close>; the micro sign is the two bytes of its UTF-8 form.\<close>

definition show_duration :: "duration \<Rightarrow> string" where
  "show_duration d =
     (let u = nat \<bar>d\<bar>;
          sec = u div 10 ^ 9;
          body =
            (if u = 0 then ''0s''
             else if u < 10 ^ 3 then scaled_text 0 u @ ''ns''
             else if u < 10 ^ 6 then scaled_text 3 u @ [CHR 0xC2, CHR 0xB5] @ ''s''
             else if u < 10 ^ 9 then scaled_text 6 u @ ''ms''
             else (if sec div 3600 > 0 then show_nat (sec div 3600) @ ''h'' else [])
                @ (if sec div 60 > 0 then show_nat (sec div 60 mod 60) @ ''m'' else [])
                @ show_nat (sec mod 60) @ frac_text 9 u @ ''s'')
      in (if d < 0 then CHR ''-'' # body else body))"

lemma show_duration_examples:
  "show_duration 90000000000 = ''1m30s''"
  "show_duration 1500000000 = ''1.5s''"
  "show_duration 3600000000000 = ''1h0m0s''"
  "show_duration 1200000 = ''1.2ms''"
  by (simp_all add: show_duration_def Let_def scaled_text_def frac_text_def pad_nat_def show_nat.simps char_of_def bit_Suc bit_0)

lemma wrap64_id: "- (2 ^ 63) \<le> i \<Longrightarrow> i < 2 ^ 63 \<Longrightarrow> wrap64 i = i"
  by (simp add: wrap64_def signed_take_bit_int_eq_self_iff)

end
