(* ===== verification/RemediateModel.thy ===== *)
theory RemediateModel
  imports Glob GoText
begin

text \<open>
  The data of guarded remediation: internal/model/remediate.go, the fields of
  internal/tenant/tenant.go that the Guard reads, internal/k8s/k8s.go and the sentinels of
  internal/remediate/errors.go.

  The Go enums are \<open>uint8\<close>: each datatype has the declared constants and one constructor for
  the values outside the declared range.  A nil pointer is \<open>None\<close>.  Three fields that no
  code of the package reads or writes are left out: \<open>Action.AuditSeqs\<close>,
  \<open>Action.Error\<close> and \<open>VerifyResult.Details\<close>.
\<close>

section \<open>internal/model/remediate.go\<close>

datatype action_type =
    ActionRollbackDeployment | ActionScaleReplicas | ActionRestartPod
  | ActionToggleFeatureFlag | ActionRemoveIstioFault | ActionUndeclared "8 word"

fun action_code :: "action_type \<Rightarrow> 8 word" where
  "action_code ActionRollbackDeployment = 1"
| "action_code ActionScaleReplicas = 2"
| "action_code ActionRestartPod = 3"
| "action_code ActionToggleFeatureFlag = 4"
| "action_code ActionRemoveIstioFault = 5"
| "action_code (ActionUndeclared w) = w"

datatype target_kind =
    KindDeployment | KindStatefulSet | KindPod | KindConfigMap | KindVirtualService
  | KindUndeclared "8 word"

fun kind_code :: "target_kind \<Rightarrow> 8 word" where
  "kind_code KindDeployment = 1"
| "kind_code KindStatefulSet = 2"
| "kind_code KindPod = 3"
| "kind_code KindConfigMap = 4"
| "kind_code KindVirtualService = 5"
| "kind_code (KindUndeclared w) = w"

record action_target =
  tg_Cluster :: string
  tg_Namespace :: string
  tg_Kind :: target_kind
  tg_Name :: string
  tg_ResolvedUID :: string
  tg_ResolvedVersion :: string

record toggle_spec =
  ff_Key :: string
  ff_Value :: bool

text \<open>
  The one-field specs are their field: \<open>RollbackDeploymentSpec.ToRevision\<close> (int64),
  \<open>ScaleReplicasSpec.Replicas\<close> and \<open>RestartPodSpec.GracePeriodSeconds\<close> (int32);
  \<open>RemoveIstioFaultSpec\<close> has none.
\<close>

record action_proposal =
  p_ID :: string
  p_Tenant :: tenant_id
  p_IncidentID :: string
  p_InvestigationID :: string
  p_Type :: action_type
  p_Target :: action_target
  p_RiskTier :: nat
  p_Rationale :: string
  p_ProposedBy :: string
  p_ProposedAt :: gotime
  p_Rollback :: "int option"
  p_Scale :: "int option"
  p_Restart :: "int option"
  p_FeatureFlag :: "toggle_spec option"
  p_IstioFault :: "unit option"

datatype action_state =
    ActionProposed | ActionApproved | ActionRejected | ActionExecuting | ActionVerifying
  | ActionSucceeded | ActionFailed | ActionRolledBack | ActionExpired

record snapshot =
  sn_ResourceVersion :: string
  sn_Generation :: int
  sn_UID :: string
  sn_TakenAt :: gotime
  sn_SHA256 :: string
  sn_RawJSON :: string

definition no_snapshot :: snapshot where
  "no_snapshot = \<lparr>sn_ResourceVersion = [], sn_Generation = 0, sn_UID = [], sn_TakenAt = 0,
                  sn_SHA256 = [], sn_RawJSON = []\<rparr>"

record verify_result =
  vr_Verified :: bool
  vr_Message :: string
  vr_VerifiedAt :: gotime

definition no_verify :: verify_result where
  "no_verify = \<lparr>vr_Verified = False, vr_Message = [], vr_VerifiedAt = 0\<rparr>"

record action =
  a_ID :: string
  a_Tenant :: tenant_id
  a_IncidentID :: string
  a_InvestigationID :: string
  a_Proposal :: action_proposal
  a_State :: action_state
  a_StateReason :: string
  a_ProposedBy :: string
  a_ApprovedBy :: string
  a_ApprovedAt :: gotime
  a_ExpiresAt :: gotime
  a_ExecutorKind :: string
  a_PreSnapshot :: snapshot
  a_DryRunOutput :: string
  a_ExecutedAt :: gotime
  a_VerifyDeadline :: gotime
  a_PostVerify :: verify_result
  a_Verified :: bool
  a_AutoExecute :: bool
  a_BudgetIndex :: int
  a_OverrideUsed :: bool
  a_OverrideJustification :: string
  a_OverriddenBy :: string
  a_OverriddenAt :: gotime
  a_CreatedAt :: gotime
  a_UpdatedAt :: gotime

section \<open>tenant.Policy: the remediation fields\<close>

record policy =
  pol_RemediationAllowlist :: "action_type list"
  pol_NamespaceAllowlist :: "string list"
  pol_TargetAllowlist :: "string list"
  pol_ActionBudgetPerIncident :: int
  pol_AutoExecuteAllowed :: bool
  pol_FeatureFlags :: "(string \<times> string list) list"
  pol_MaxReplicas :: int

section \<open>internal/k8s/k8s.go\<close>

datatype verb = VerbGet | VerbScale | VerbRolloutUndo | VerbDeletePod | VerbPatch

fun verb_code :: "verb \<Rightarrow> int" where
  "verb_code VerbGet = 1"
| "verb_code VerbScale = 2"
| "verb_code VerbRolloutUndo = 3"
| "verb_code VerbDeletePod = 4"
| "verb_code VerbPatch = 5"

text \<open>JSON documents as \<open>encoding/json\<close> reads and writes them (the numbers used are integers).\<close>

datatype json =
    JNull | JBool bool | JInt int | JStr string
  | JArr "json list" | JObj "(string \<times> json) list"

record k8s_request =
  rq_Verb :: verb
  rq_Namespace :: string
  rq_Kind :: target_kind
  rq_Name :: string
  rq_Argv :: "string list"
  rq_StdinJSON :: "json option"
  rq_DryRun :: bool
  rq_Timeout :: duration

record k8s_result =
  rs_ExitCode :: int
  rs_Stdout :: string
  rs_Stderr :: string
  rs_Duration :: duration

text \<open>
  \<open>BuildArgv\<close> and \<open>MinimalEnv\<close> panic in this commit; a panicking call is \<open>None\<close>.
  A returning \<open>BuildArgv\<close> would give an error text or the argv.
\<close>

definition BuildArgv :: "k8s_request \<Rightarrow> (string + string list) option" where
  "BuildArgv r = None"

definition MinimalEnv :: "(string list) option" where
  "MinimalEnv = None"

section \<open>internal/remediate/errors.go\<close>

datatype sentinel =
    ErrInvalidProposal | ErrTargetNotResolvable | ErrTargetReplaced | ErrApproverMustDiffer
  | ErrActionExpired | ErrBudgetExceeded | ErrOverrideLimit | ErrOverrideJustTooShort
  | ErrIllegalTransition | ErrNotFound | ErrPayloadOutOfScope | ErrNothingToRemove
  | ErrForbiddenFlag | ErrIdempotencyReused | ErrIdempotencyRequired
  | ErrAutoExecuteForbidden | ErrUnknownExecutor

fun sentinel_text :: "sentinel \<Rightarrow> string" where
  "sentinel_text ErrInvalidProposal = ''remediate: invalid_proposal''"
| "sentinel_text ErrTargetNotResolvable = ''remediate: target_not_resolvable''"
| "sentinel_text ErrTargetReplaced = ''remediate: target_replaced''"
| "sentinel_text ErrApproverMustDiffer = ''remediate: approver_must_differ''"
| "sentinel_text ErrActionExpired = ''remediate: action_expired''"
| "sentinel_text ErrBudgetExceeded = ''remediate: budget_exceeded''"
| "sentinel_text ErrOverrideLimit = ''remediate: override_limit''"
| "sentinel_text ErrOverrideJustTooShort = ''remediate: override_justification_too_short''"
| "sentinel_text ErrIllegalTransition = ''remediate: illegal_transition''"
| "sentinel_text ErrNotFound = ''remediate: not_found''"
| "sentinel_text ErrPayloadOutOfScope = ''remediate: payload_out_of_scope''"
| "sentinel_text ErrNothingToRemove = ''remediate: nothing_to_remove''"
| "sentinel_text ErrForbiddenFlag = ''remediate: forbidden_flag''"
| "sentinel_text ErrIdempotencyReused = ''remediate: idempotency_key_reused''"
| "sentinel_text ErrIdempotencyRequired = ''remediate: idempotency_key_required''"
| "sentinel_text ErrAutoExecuteForbidden = ''remediate: auto_execute_forbidden_risk_tier_3''"
| "sentinel_text ErrUnknownExecutor = ''remediate: unknown_executor''"

declare sentinel_text.simps [simp del]

text \<open>
  An error value: a sentinel (possibly wrapped with \<open>%w\<close> and a detail) or the text of an error
  that wraps no sentinel.  \<open>errors.Is(e, s)\<close> is \<open>sentinel_of e = Some s\<close>.
\<close>

datatype rerr = Plain sentinel | Wrapped sentinel string | Other string

fun sentinel_of :: "rerr \<Rightarrow> sentinel option" where
  "sentinel_of (Plain s) = Some s"
| "sentinel_of (Wrapped s d) = Some s"
| "sentinel_of (Other t) = None"

fun err_text :: "rerr \<Rightarrow> string" where
  "err_text (Plain s) = sentinel_text s"
| "err_text (Wrapped s d) = sentinel_text s @ '': '' @ d"
| "err_text (Other t) = t"

lemma sentinel_text_inj: "sentinel_text s = sentinel_text t \<longleftrightarrow> s = t"
  by (cases s; cases t) (simp_all add: sentinel_text.simps)

definition show_code :: "8 word \<Rightarrow> string" where
  "show_code w = show_nat (unat w)"

end
