(* ===== verification/Validate.thy ===== *)
theory Validate
  imports RemediateModel
begin

text \<open>
  internal/remediate/validate.go: the fixed risk table, the type-level and range checks of a
  proposal, and the three fail-closed allowlists.
\<close>

definition riskTier :: "action_type \<Rightarrow> nat \<times> bool" where
  "riskTier t =
     (case t of
        ActionRestartPod \<Rightarrow> (1, True)
      | ActionScaleReplicas \<Rightarrow> (1, True)
      | ActionRollbackDeployment \<Rightarrow> (2, True)
      | ActionToggleFeatureFlag \<Rightarrow> (2, True)
      | ActionRemoveIstioFault \<Rightarrow> (3, True)
      | ActionUndeclared w \<Rightarrow> (0, False))"

definition kindName :: "target_kind \<Rightarrow> string" where
  "kindName k =
     (case k of
        KindDeployment \<Rightarrow> ''Deployment''
      | KindStatefulSet \<Rightarrow> ''StatefulSet''
      | KindPod \<Rightarrow> ''Pod''
      | KindConfigMap \<Rightarrow> ''ConfigMap''
      | KindVirtualService \<Rightarrow> ''VirtualService''
      | KindUndeclared w \<Rightarrow> ''Unknown'')"

section \<open>Refusal texts\<close>

definition txt_one_spec :: "nat \<Rightarrow> string" where
  "txt_one_spec n = ''exactly one typed spec must be set, got '' @ show_nat n"

definition txt_type_mismatch :: "action_type \<Rightarrow> string" where
  "txt_type_mismatch t =
     ''Type '' @ show_code (action_code t) @ '' does not match the non-nil spec pointer''"

definition txt_unknown_type :: "action_type \<Rightarrow> string" where
  "txt_unknown_type t =
     ''unknown ActionType '' @ show_code (action_code t) @ '' (closed 5-value enum)''"

definition txt_rationale :: string where
  "txt_rationale = ''rationale exceeds 2000 bytes''"

definition txt_namespace :: "string \<Rightarrow> string" where
  "txt_namespace ns = ''Namespace '' @ go_quote ns @ '' is not a DNS-1123 label''"

definition txt_name :: "string \<Rightarrow> string" where
  "txt_name nm = ''Name '' @ go_quote nm @ '' is not a valid DNS-1123 subdomain (no '' @
     [CHR 0x22, CHR ''/'', CHR 0x22] @ '')''"

definition txt_kind :: "target_kind \<Rightarrow> string" where
  "txt_kind k = ''unknown TargetKind '' @ show_code (kind_code k)"

definition txt_revision :: string where
  "txt_revision = ''ToRevision must be >= 0''"

definition txt_replicas :: "int \<Rightarrow> int \<Rightarrow> string" where
  "txt_replicas r m = ''Replicas '' @ show_int r @ '' out of range [1,'' @ show_int m @ '']''"

definition txt_grace :: string where
  "txt_grace = ''GracePeriodSeconds out of range [0,300]''"

definition txt_flag_key :: "string \<Rightarrow> string" where
  "txt_flag_key k = ''feature flag Key '' @ go_quote k @ '' not in tenant.Policy.FeatureFlags''"

definition txt_flag_value :: "string \<Rightarrow> string \<Rightarrow> string" where
  "txt_flag_value v k =
     ''value '' @ go_quote v @ '' not an allowed value for flag '' @ go_quote k"

definition txt_allow_type :: "action_type \<Rightarrow> string" where
  "txt_allow_type t = ''ActionType '' @ show_code (action_code t) @
     '' not in tenant.Policy.RemediationAllowlist''"

definition txt_allow_ns :: "string \<Rightarrow> string" where
  "txt_allow_ns ns = ''namespace '' @ go_quote ns @ '' not in tenant.Policy.NamespaceAllowlist''"

definition txt_allow_target :: "string \<Rightarrow> string" where
  "txt_allow_target c = ''target '' @ go_quote c @ '' not in tenant.Policy.TargetAllowlist''"

section \<open>validateProposal\<close>

definition validateTarget :: "action_target \<Rightarrow> rerr option" where
  "validateTarget t =
     (if tg_Namespace t = [] \<or> \<not> dns1123 (tg_Namespace t)
      then Some (Wrapped ErrInvalidProposal (txt_namespace (tg_Namespace t)))
      else if tg_Name t = [] \<or> \<not> dns1123 (tg_Name t)
      then Some (Wrapped ErrInvalidProposal (txt_name (tg_Name t)))
      else case tg_Kind t of
        KindUndeclared w \<Rightarrow> Some (Wrapped ErrInvalidProposal (txt_kind (tg_Kind t)))
      | _ \<Rightarrow> None)"

text \<open>The types whose spec pointer is non-nil, the keys of the source's map \<open>specs\<close>.\<close>

definition set_specs :: "action_proposal \<Rightarrow> action_type list" where
  "set_specs p =
     (if p_Rollback p \<noteq> None then [ActionRollbackDeployment] else []) @
     (if p_Scale p \<noteq> None then [ActionScaleReplicas] else []) @
     (if p_Restart p \<noteq> None then [ActionRestartPod] else []) @
     (if p_FeatureFlag p \<noteq> None then [ActionToggleFeatureFlag] else []) @
     (if p_IstioFault p \<noteq> None then [ActionRemoveIstioFault] else [])"

definition flag_text :: "bool \<Rightarrow> string" where
  "flag_text b = (if b then ''true'' else ''false'')"

definition effective_max_replicas :: "policy \<Rightarrow> int" where
  "effective_max_replicas pol = (if pol_MaxReplicas pol \<le> 0 then 50 else pol_MaxReplicas pol)"

text \<open>
  The per-type bounds.  Each branch dereferences the spec of its own type, which is non-nil here;
  \<open>the\<close> is applied only behind that check.
\<close>

definition validate_spec :: "action_proposal \<Rightarrow> policy \<Rightarrow> rerr option" where
  "validate_spec p pol =
     (case p_Type p of
        ActionRollbackDeployment \<Rightarrow>
          (if the (p_Rollback p) < 0
           then Some (Wrapped ErrInvalidProposal txt_revision) else None)
      | ActionScaleReplicas \<Rightarrow>
          (let r = the (p_Scale p); m = effective_max_replicas pol in
           if r < 1 \<or> r > m
           then Some (Wrapped ErrInvalidProposal (txt_replicas r m)) else None)
      | ActionRestartPod \<Rightarrow>
          (let s = the (p_Restart p) in
           if s < 0 \<or> s > 300
           then Some (Wrapped ErrInvalidProposal txt_grace) else None)
      | ActionToggleFeatureFlag \<Rightarrow>
          (let f = the (p_FeatureFlag p) in
           case map_of (pol_FeatureFlags pol) (ff_Key f) of
             None \<Rightarrow> Some (Wrapped ErrInvalidProposal (txt_flag_key (ff_Key f)))
           | Some allowed \<Rightarrow>
               (let want = flag_text (ff_Value f) in
                if \<not> list_ex (\<lambda>v. v = want) allowed
                then Some (Wrapped ErrInvalidProposal (txt_flag_value want (ff_Key f)))
                else None))
      | ActionRemoveIstioFault \<Rightarrow> None
      | ActionUndeclared w \<Rightarrow> None)"

definition validateProposal :: "action_proposal \<Rightarrow> policy \<Rightarrow> rerr option" where
  "validateProposal p pol =
     (if length (set_specs p) \<noteq> 1
      then Some (Wrapped ErrInvalidProposal (txt_one_spec (length (set_specs p))))
      else if p_Type p \<notin> set (set_specs p)
      then Some (Wrapped ErrInvalidProposal (txt_type_mismatch (p_Type p)))
      else if \<not> snd (riskTier (p_Type p))
      then Some (Wrapped ErrInvalidProposal (txt_unknown_type (p_Type p)))
      else if length (p_Rationale p) > 2000
      then Some (Wrapped ErrInvalidProposal txt_rationale)
      else case validateTarget (p_Target p) of
        Some e \<Rightarrow> Some e
      | None \<Rightarrow> validate_spec p pol)"

section \<open>checkAllowlists\<close>

definition target_path :: "action_target \<Rightarrow> string" where
  "target_path t = tg_Namespace t @ ''/'' @ kindName (tg_Kind t) @ ''/'' @ tg_Name t"

definition checkTargetAllowlist :: "action_target \<Rightarrow> string list \<Rightarrow> rerr option" where
  "checkTargetAllowlist t allowlist =
     (if list_ex (\<lambda>pattern. path_match pattern (target_path t)) allowlist then None
      else Some (Wrapped ErrInvalidProposal (txt_allow_target (target_path t))))"

definition checkAllowlists :: "action_proposal \<Rightarrow> policy \<Rightarrow> rerr option" where
  "checkAllowlists p pol =
     (if \<not> list_ex (\<lambda>at. at = p_Type p) (pol_RemediationAllowlist pol)
      then Some (Wrapped ErrInvalidProposal (txt_allow_type (p_Type p)))
      else if \<not> list_ex (\<lambda>ns. ns = tg_Namespace (p_Target p)) (pol_NamespaceAllowlist pol)
      then Some (Wrapped ErrInvalidProposal (txt_allow_ns (tg_Namespace (p_Target p))))
      else checkTargetAllowlist (p_Target p) (pol_TargetAllowlist pol))"

section \<open>What acceptance means\<close>

text \<open>The abstract contract of a well-formed proposal.\<close>

definition spec_ok :: "action_proposal \<Rightarrow> policy \<Rightarrow> bool" where
  "spec_ok p pol =
     (case p_Type p of
        ActionRollbackDeployment \<Rightarrow> (\<exists>r. p_Rollback p = Some r \<and> 0 \<le> r)
      | ActionScaleReplicas \<Rightarrow> (\<exists>r. p_Scale p = Some r \<and> 1 \<le> r \<and> r \<le> effective_max_replicas pol)
      | ActionRestartPod \<Rightarrow> (\<exists>s. p_Restart p = Some s \<and> 0 \<le> s \<and> s \<le> 300)
      | ActionToggleFeatureFlag \<Rightarrow>
          (\<exists>f allowed. p_FeatureFlag p = Some f
             \<and> map_of (pol_FeatureFlags pol) (ff_Key f) = Some allowed
             \<and> flag_text (ff_Value f) \<in> set allowed)
      | ActionRemoveIstioFault \<Rightarrow> p_IstioFault p = Some ()
      | ActionUndeclared w \<Rightarrow> False)"

definition target_ok :: "action_target \<Rightarrow> bool" where
  "target_ok t = (dns1123 (tg_Namespace t) \<and> dns1123 (tg_Name t) \<and> (\<forall>w. tg_Kind t \<noteq> KindUndeclared w))"

lemma validateTarget_None: "validateTarget t = None \<longleftrightarrow> target_ok t"
  by (auto simp: validateTarget_def target_ok_def dns1123_def split: target_kind.splits list.splits)

lemma list_ex_eq_mem [simp]: "list_ex (\<lambda>v. v = w) xs \<longleftrightarrow> w \<in> set xs"
  by (induction xs) auto

lemma type_in_set_specs:
  "p_Type p \<in> set (set_specs p) \<longleftrightarrow>
     (case p_Type p of
        ActionRollbackDeployment \<Rightarrow> p_Rollback p \<noteq> None
      | ActionScaleReplicas \<Rightarrow> p_Scale p \<noteq> None
      | ActionRestartPod \<Rightarrow> p_Restart p \<noteq> None
      | ActionToggleFeatureFlag \<Rightarrow> p_FeatureFlag p \<noteq> None
      | ActionRemoveIstioFault \<Rightarrow> p_IstioFault p \<noteq> None
      | ActionUndeclared w \<Rightarrow> False)"
  by (auto simp: set_specs_def split: action_type.splits)

lemma validate_spec_None:
  assumes "p_Type p \<in> set (set_specs p)"
  shows "validate_spec p pol = None \<longleftrightarrow> spec_ok p pol"
  using assms unfolding type_in_set_specs validate_spec_def spec_ok_def
  by (cases "p_Type p") (auto simp: Let_def split: option.splits)

lemma validateProposal_None:
  "validateProposal p pol = None \<longleftrightarrow>
     set_specs p = [p_Type p] \<and> length (p_Rationale p) \<le> 2000
     \<and> target_ok (p_Target p) \<and> spec_ok p pol"
proof -
  have one: "length (set_specs p) = 1 \<and> p_Type p \<in> set (set_specs p) \<longleftrightarrow> set_specs p = [p_Type p]"
    by (auto simp: length_Suc_conv)
  have risk: "snd (riskTier (p_Type p))" if "set_specs p = [p_Type p]"
    using that type_in_set_specs [of p]
    by (auto simp: riskTier_def split: action_type.splits)
  have "validate_spec p pol = None \<longleftrightarrow> spec_ok p pol" if "set_specs p = [p_Type p]"
    using that by (intro validate_spec_None) simp
  then show ?thesis
    using one risk
    by (cases "validateTarget (p_Target p)")
      (auto simp: validateProposal_def simp flip: validateTarget_None)
qed

text \<open>\<open>validateProposal\<close> accepts exactly the proposals that carry one typed spec, of the
  proposal's own declared type and within that type's bounds, a rationale of at most 2000 bytes
  and a target with DNS-1123 namespace and name and a declared kind.\<close>

theorem validateProposal_accepts_iff:
  "validateProposal p pol = None \<longleftrightarrow>
     set_specs p = [p_Type p] \<and> length (p_Rationale p) \<le> 2000
     \<and> target_ok (p_Target p) \<and> spec_ok p pol"
  by (rule validateProposal_None)

lemma checkTargetAllowlist_None:
  "checkTargetAllowlist t ps = None \<longleftrightarrow> (\<exists>pt \<in> set ps. path_match pt (target_path t))"
  by (auto simp: checkTargetAllowlist_def list_ex_iff)

lemma checkAllowlists_None:
  "checkAllowlists p pol = None \<longleftrightarrow>
     p_Type p \<in> set (pol_RemediationAllowlist pol)
     \<and> tg_Namespace (p_Target p) \<in> set (pol_NamespaceAllowlist pol)
     \<and> (\<exists>pt \<in> set (pol_TargetAllowlist pol). path_match pt (target_path (p_Target p)))"
  by (auto simp: checkAllowlists_def checkTargetAllowlist_None)

lemma checkAllowlists_err:
  "checkAllowlists p pol = Some e \<Longrightarrow> sentinel_of e = Some ErrInvalidProposal"
  by (auto simp: checkAllowlists_def checkTargetAllowlist_def split: if_splits)

lemma validateTarget_err:
  "validateTarget t = Some e \<Longrightarrow> sentinel_of e = Some ErrInvalidProposal"
  by (auto simp: validateTarget_def split: if_splits target_kind.splits)

lemma validate_spec_err:
  "validate_spec p pol = Some e \<Longrightarrow> sentinel_of e = Some ErrInvalidProposal"
  by (cases "p_Type p")
    (auto simp: validate_spec_def Let_def split: if_splits option.splits)

lemma validateProposal_err:
  "validateProposal p pol = Some e \<Longrightarrow> sentinel_of e = Some ErrInvalidProposal"
  by (auto simp: validateProposal_def dest: validateTarget_err validate_spec_err
      split: if_splits option.splits)

end
