(* ===== verification/Executor.thy ===== *)
theory Executor
  imports Validate
begin

text \<open>
  internal/remediate/executor.go: the two executors, the verb of an action type, the payload the
  Guard computes and the scope check on it.

  A payload travels as the JSON document that \<open>json.Marshal\<close> encodes and \<open>json.Unmarshal\<close>
  decodes; \<open>nil\<close> is \<open>None\<close>.
\<close>

definition verbForAction :: "action_type \<Rightarrow> rerr + verb" where
  "verbForAction t =
     (case t of
        ActionRollbackDeployment \<Rightarrow> Inr VerbRolloutUndo
      | ActionScaleReplicas \<Rightarrow> Inr VerbScale
      | ActionRestartPod \<Rightarrow> Inr VerbDeletePod
      | ActionToggleFeatureFlag \<Rightarrow> Inr VerbPatch
      | ActionRemoveIstioFault \<Rightarrow> Inr VerbPatch
      | ActionUndeclared w \<Rightarrow>
          Inl (Wrapped ErrInvalidProposal (''no Verb for ActionType '' @ show_code w)))"

definition txt_needs_context :: string where
  "txt_needs_context = ''NEEDS_CONTEXT: RemoveIstioFault JSON-patch diffing against '' @
     ''PreSnapshot.RawJSON is not implemented in this pass''"

definition flag_payload :: "toggle_spec \<Rightarrow> json" where
  "flag_payload f = JObj [(''data'', JObj [(ff_Key f, JStr (flag_text (ff_Value f)))])]"

definition stdinPayload :: "action \<Rightarrow> rerr + json option" where
  "stdinPayload a =
     (case p_Type (a_Proposal a) of
        ActionRollbackDeployment \<Rightarrow> Inr None
      | ActionScaleReplicas \<Rightarrow> Inr None
      | ActionRestartPod \<Rightarrow> Inr None
      | ActionToggleFeatureFlag \<Rightarrow> Inr (Some (flag_payload (the (p_FeatureFlag (a_Proposal a)))))
      | ActionRemoveIstioFault \<Rightarrow>
          (if sn_RawJSON (a_PreSnapshot a) = [] then Inl (Plain ErrNothingToRemove)
           else Inl (Other txt_needs_context))
      | ActionUndeclared w \<Rightarrow>
          Inl (Wrapped ErrInvalidProposal (''no payload builder for ActionType '' @ show_code w)))"

section \<open>Decoding a payload\<close>

text \<open>
  \<open>json.Unmarshal\<close> into \<open>map[string]map[string]string\<close>: objects of objects of strings, where a
  JSON null leaves the zero value.
\<close>

definition unmarshal_strings :: "json \<Rightarrow> (string \<times> string) list option" where
  "unmarshal_strings j =
     (case j of
        JNull \<Rightarrow> Some []
      | JObj kvs \<Rightarrow>
          those (map (\<lambda>(k, v). case v of JStr s \<Rightarrow> Some (k, s)
                                       | JNull \<Rightarrow> Some (k, [])
                                       | _ \<Rightarrow> None) kvs)
      | _ \<Rightarrow> None)"

definition unmarshal_body :: "json \<Rightarrow> (string \<times> (string \<times> string) list) list option" where
  "unmarshal_body j =
     (case j of
        JNull \<Rightarrow> Some []
      | JObj kvs \<Rightarrow>
          those (map (\<lambda>(k, v). map_option (Pair k) (unmarshal_strings v)) kvs)
      | _ \<Rightarrow> None)"

text \<open>
  \<open>json.Unmarshal\<close> into a struct matches a key to a field without regard to ASCII case; the last
  matching key wins.
\<close>

definition lower_byte :: "char \<Rightarrow> char" where
  "lower_byte c = (let n = of_char c :: nat in if 65 \<le> n \<and> n \<le> 90 then char_of (n + 32) else c)"

fun string_field :: "string \<Rightarrow> (string \<times> json) list \<Rightarrow> string \<Rightarrow> string option" where
  "string_field f [] cur = Some cur"
| "string_field f ((k, v) # kvs) cur =
     (if map lower_byte k = f then
        (case v of JStr s \<Rightarrow> string_field f kvs s
                 | JNull \<Rightarrow> string_field f kvs cur
                 | _ \<Rightarrow> None)
      else string_field f kvs cur)"

definition unmarshal_op :: "json \<Rightarrow> (string \<times> string) option" where
  "unmarshal_op j =
     (case j of
        JNull \<Rightarrow> Some ([], [])
      | JObj kvs \<Rightarrow>
          (case (string_field ''op'' kvs [], string_field ''path'' kvs []) of
             (Some opn, Some pth) \<Rightarrow> Some (opn, pth)
           | _ \<Rightarrow> None)
      | _ \<Rightarrow> None)"

definition unmarshal_ops :: "json \<Rightarrow> (string \<times> string) list option" where
  "unmarshal_ops j =
     (case j of
        JNull \<Rightarrow> Some []
      | JArr js \<Rightarrow> those (map unmarshal_op js)
      | _ \<Rightarrow> None)"

section \<open>checkPayloadScope\<close>

definition txt_scope_nospec :: string where
  "txt_scope_nospec = ''ToggleFeatureFlag payload with no FeatureFlag spec''"

definition txt_scope_unparseable :: string where
  "txt_scope_unparseable = ''unparseable ToggleFeatureFlag payload''"

definition txt_scope_shape :: string where
  "txt_scope_shape = ''ToggleFeatureFlag payload must be exactly {'' @
     [CHR 0x22] @ ''data'' @ [CHR 0x22] @ '':{<Key>:<val>}}''"

definition txt_scope_key :: string where
  "txt_scope_key = ''ToggleFeatureFlag payload key does not match the proposal'' @
     [CHR 0x27] @ ''s FeatureFlag.Key''"

definition txt_scope_patch :: string where
  "txt_scope_patch = ''unparseable RemoveIstioFault patch''"

definition txt_scope_op :: "string \<Rightarrow> string" where
  "txt_scope_op opn = ''RemoveIstioFault patch op '' @ go_quote opn @ '' not allowed (remove only)''"

definition txt_scope_path :: "string \<Rightarrow> string" where
  "txt_scope_path pth =
     ''RemoveIstioFault patch path '' @ go_quote pth @ '' outside the allowed set''"

definition txt_scope_type :: "action_type \<Rightarrow> string" where
  "txt_scope_type t = ''ActionType '' @ show_code (action_code t) @ '' must not carry a stdin payload''"

fun check_ops :: "(string \<times> string) list \<Rightarrow> rerr option" where
  "check_ops [] = None"
| "check_ops ((opn, pth) # ops) =
     (if opn \<noteq> ''remove'' then Some (Wrapped ErrPayloadOutOfScope (txt_scope_op opn))
      else if \<not> path_match ''/spec/http/*/fault'' pth
      then Some (Wrapped ErrPayloadOutOfScope (txt_scope_path pth))
      else check_ops ops)"

definition check_flag_body ::
  "toggle_spec \<Rightarrow> (string \<times> (string \<times> string) list) list \<Rightarrow> rerr option" where
  "check_flag_body f body =
     (case map_of body ''data'' of
        None \<Rightarrow> Some (Wrapped ErrPayloadOutOfScope txt_scope_shape)
      | Some dat \<Rightarrow>
          if length body \<noteq> 1 \<or> length dat \<noteq> 1
          then Some (Wrapped ErrPayloadOutOfScope txt_scope_shape)
          else if map_of dat (ff_Key f) = None
          then Some (Wrapped ErrPayloadOutOfScope txt_scope_key)
          else None)"

definition checkPayloadScope :: "action_proposal \<Rightarrow> json option \<Rightarrow> rerr option" where
  "checkPayloadScope p stdin =
     (case stdin of
        None \<Rightarrow> None
      | Some j \<Rightarrow>
          (case p_Type p of
             ActionToggleFeatureFlag \<Rightarrow>
               (case p_FeatureFlag p of
                  None \<Rightarrow> Some (Wrapped ErrPayloadOutOfScope txt_scope_nospec)
                | Some f \<Rightarrow>
                    (case unmarshal_body j of
                       None \<Rightarrow> Some (Wrapped ErrPayloadOutOfScope txt_scope_unparseable)
                     | Some body \<Rightarrow> check_flag_body f body))
           | ActionRemoveIstioFault \<Rightarrow>
               (case unmarshal_ops j of
                  None \<Rightarrow> Some (Wrapped ErrPayloadOutOfScope txt_scope_patch)
                | Some ops \<Rightarrow> check_ops ops)
           | t \<Rightarrow> Some (Wrapped ErrPayloadOutOfScope (txt_scope_type t))))"

section \<open>The executors\<close>

text \<open>An executor is \<open>Do\<close>: a request to an error text or a result.\<close>

type_synonym executor = "k8s_request \<Rightarrow> string + k8s_result"

definition DryRunExecutor_Do :: "(json \<Rightarrow> string) \<Rightarrow> executor" where
  "DryRunExecutor_Do marshal r =
     Inr \<lparr>rs_ExitCode = 0,
          rs_Stdout = marshal (JObj [(''dryrun'', JBool True),
                                     (''kind'', JInt (uint (kind_code (rq_Kind r)))),
                                     (''name'', JStr (rq_Name r)),
                                     (''namespace'', JStr (rq_Namespace r)),
                                     (''verb'', JInt (verb_code (rq_Verb r)))]),
          rs_Stderr = [], rs_Duration = 0\<rparr>"

definition txt_argv_unavailable :: string where
  "txt_argv_unavailable = ''remediate: kubectl argv construction unavailable '' @
     ''(k8s.BuildArgv panicked: not implemented)''"

definition txt_runner_missing :: string where
  "txt_runner_missing = ''remediate: KubectlExecutor.Runner not wired '' @
     ''(production exec.CommandContext runner is out of this pass'' @ [CHR 0x27] @ ''s scope)''"

type_synonym argv_runner =
  "string list \<Rightarrow> string list option \<Rightarrow> json option \<Rightarrow> duration \<Rightarrow> string + k8s_result"

definition KubectlExecutor_Do :: "argv_runner option \<Rightarrow> executor" where
  "KubectlExecutor_Do runner r =
     (case BuildArgv r of
        None \<Rightarrow> Inl txt_argv_unavailable
      | Some (Inl buildErr) \<Rightarrow> Inl buildErr
      | Some (Inr argv) \<Rightarrow>
          (let r' = r\<lparr>rq_Argv := argv\<rparr> in
           case runner of
             None \<Rightarrow> Inl txt_runner_missing
           | Some run \<Rightarrow> run (rq_Argv r') MinimalEnv (rq_StdinJSON r') (rq_Timeout r')))"

definition buildKubectlRequest ::
  "verb \<Rightarrow> action_target \<Rightarrow> json option \<Rightarrow> bool \<Rightarrow> duration \<Rightarrow> rerr + k8s_request" where
  "buildKubectlRequest v target stdinJSON dryRun timeout =
     (if \<not> dns1123 (tg_Namespace target)
      then Inl (Wrapped ErrForbiddenFlag
             (''namespace '' @ go_quote (tg_Namespace target) @ '' failed validateNamespace''))
      else if \<not> dns1123 (tg_Name target)
      then Inl (Wrapped ErrForbiddenFlag
             (''name '' @ go_quote (tg_Name target) @ '' failed validateName''))
      else Inr \<lparr>rq_Verb = v, rq_Namespace = tg_Namespace target, rq_Kind = tg_Kind target,
                rq_Name = tg_Name target, rq_Argv = [], rq_StdinJSON = stdinJSON,
                rq_DryRun = dryRun, rq_Timeout = timeout\<rparr>)"

section \<open>Facts\<close>

lemma unmarshal_flag_payload:
  "unmarshal_body (flag_payload f) = Some [(''data'', [(ff_Key f, flag_text (ff_Value f))])]"
  by (simp add: unmarshal_body_def unmarshal_strings_def flag_payload_def)

lemma check_flag_payload: "check_flag_body f [(''data'', [(ff_Key f, v)])] = None"
  by (simp add: check_flag_body_def)

lemma check_flag_body_None:
  assumes "check_flag_body f body = None"
  shows "\<exists>v. body = [(''data'', [(ff_Key f, v)])]"
proof -
  from assms obtain dat where d: "map_of body ''data'' = Some dat"
    and one: "length body = 1" "length dat = 1" and k: "map_of dat (ff_Key f) \<noteq> None"
    by (auto simp: check_flag_body_def split: option.splits if_splits)
  from one d have b: "body = [(''data'', dat)]"
    by (auto simp: length_Suc_conv split: if_splits)
  from one k have "\<exists>v. dat = [(ff_Key f, v)]"
    by (auto simp: length_Suc_conv split: if_splits)
  with b show ?thesis by auto
qed

lemma check_ops_None:
  "check_ops ops = None \<longleftrightarrow>
     (\<forall>(opn, pth) \<in> set ops. opn = ''remove'' \<and> path_match ''/spec/http/*/fault'' pth)"
  by (induction ops rule: check_ops.induct) auto

text \<open>The Guard's own payloads always pass its scope check.\<close>

lemma own_payload_in_scope:
  assumes "stdinPayload a = Inr stdin" and "p_Type (a_Proposal a) = ActionToggleFeatureFlag
             \<Longrightarrow> p_FeatureFlag (a_Proposal a) \<noteq> None"
  shows "checkPayloadScope (a_Proposal a) stdin = None"
  using assms
  by (cases "p_Type (a_Proposal a)")
    (auto simp: stdinPayload_def checkPayloadScope_def unmarshal_flag_payload
      check_flag_payload split: option.splits if_splits)

lemma kubectl_always_fails: "KubectlExecutor_Do runner r = Inl txt_argv_unavailable"
  by (simp add: KubectlExecutor_Do_def BuildArgv_def)

end
