(* ===== verification/Transition.thy ===== *)
theory Transition
  imports Prelude
begin

text \<open>
  Components as state machines: the states reachable from an initial state by a step relation,
  the contract of an invariant (a locale interpreted on every stateful component), and the
  contract of a quantity that no step lowers.
\<close>

inductive reach :: "('s \<Rightarrow> bool) \<Rightarrow> ('s \<Rightarrow> 's \<Rightarrow> bool) \<Rightarrow> 's \<Rightarrow> bool"
  for init step
where
  reach_init: "init s \<Longrightarrow> reach init step s"
| reach_step: "reach init step s \<Longrightarrow> step s t \<Longrightarrow> reach init step t"

inductive steps :: "('s \<Rightarrow> 's \<Rightarrow> bool) \<Rightarrow> 's \<Rightarrow> 's \<Rightarrow> bool"
  for step
where
  steps_refl: "steps step s s"
| steps_step: "steps step s t \<Longrightarrow> step t u \<Longrightarrow> steps step s u"

inductive_cases reachE: "reach init step s"

lemma steps_trans: "steps step t u \<Longrightarrow> steps step s t \<Longrightarrow> steps step s u"
  by (induction rule: steps.induct) (auto intro: steps.intros)

lemma reach_steps: "steps step s t \<Longrightarrow> reach init step s \<Longrightarrow> reach init step t"
  by (induction rule: steps.induct) (auto intro: reach_step)

lemma reach_mono:
  "reach init step s \<Longrightarrow> (\<And>s t. step s t \<Longrightarrow> step' s t) \<Longrightarrow> reach init step' s"
  by (induction rule: reach.induct) (auto intro: reach.intros)

lemma steps_mono:
  "steps step s t \<Longrightarrow> (\<And>s t. step s t \<Longrightarrow> step' s t) \<Longrightarrow> steps step' s t"
  by (induction rule: steps.induct) (auto intro: steps.intros)

lemma steps_rtranclp: "steps step s t \<longleftrightarrow> step\<^sup>*\<^sup>* s t"
proof
  show "steps step s t \<Longrightarrow> step\<^sup>*\<^sup>* s t"
    by (induction rule: steps.induct) auto
  show "step\<^sup>*\<^sup>* s t \<Longrightarrow> steps step s t"
    by (induction rule: rtranclp.induct) (auto intro: steps.intros)
qed

locale invariant_system =
  fixes init :: "'s \<Rightarrow> bool"
    and step :: "'s \<Rightarrow> 's \<Rightarrow> bool"
    and inv :: "'s \<Rightarrow> bool"
  assumes inv_init: "init s \<Longrightarrow> inv s"
    and inv_step: "inv s \<Longrightarrow> step s t \<Longrightarrow> inv t"
begin

lemma reach_inv: "reach init step s \<Longrightarrow> inv s"
  by (induction rule: reach.induct) (auto intro: inv_init inv_step)

lemma steps_inv: "steps step s t \<Longrightarrow> inv s \<Longrightarrow> inv t"
  by (induction rule: steps.induct) (auto intro: inv_step)

end

text \<open>A relation between an earlier and a later state that every step respects.\<close>

locale step_order = invariant_system init step inv
  for init :: "'s \<Rightarrow> bool" and step :: "'s \<Rightarrow> 's \<Rightarrow> bool" and inv :: "'s \<Rightarrow> bool" +
  fixes rel :: "'s \<Rightarrow> 's \<Rightarrow> bool"
  assumes rel_refl: "rel s s"
    and rel_trans: "rel s t \<Longrightarrow> rel t u \<Longrightarrow> rel s u"
    and rel_step: "inv s \<Longrightarrow> step s t \<Longrightarrow> rel s t"
begin

lemma steps_rel: "steps step s t \<Longrightarrow> inv s \<Longrightarrow> rel s t"
proof (induction rule: steps.induct)
  case (steps_refl s)
  then show ?case by (simp add: rel_refl)
next
  case (steps_step s t u)
  then have "inv t" by (blast intro: steps_inv)
  with steps_step show ?case by (blast intro: rel_trans rel_step)
qed

end

end
