(* ===== verification/AuditLog.thy ===== *)
theory AuditLog
  imports Transition RemediateModel
begin

text \<open>
  internal/remediate/audit.go: the in-memory, per-tenant hash-chained audit log, and
  auth.Event / auth.Filter of internal/auth/auth.go.  The hash \<open>H\<close> is SHA-256 on byte strings,
  an argument of the definitions; no property assumes anything about it, and tamper evidence is
  stated as "detected, or two different byte strings with the same hash".
\<close>

record event =
  ev_Tenant :: tenant_id
  ev_Actor :: string
  ev_Action :: string
  ev_Payload :: string
  ev_Timestamp :: gotime

record filter_rec =
  fl_From :: gotime
  fl_To :: gotime
  fl_Actor :: string
  fl_Action :: string

record stored_event =
  se_seq :: int
  se_tenant :: tenant_id
  se_event :: event
  se_prevHash :: string
  se_hash :: string

record audit_log =
  al_entries :: "stored_event list"
  al_seqs :: "tenant_id \<Rightarrow> int"

definition NewInMemoryAuditLog :: audit_log where
  "NewInMemoryAuditLog = \<lparr>al_entries = [], al_seqs = (\<lambda>_. 0)\<rparr>"

text \<open>\<open>binary.BigEndian.PutUint64\<close> of an \<open>int64\<close> converted to \<open>uint64\<close>.\<close>

definition be64 :: "int \<Rightarrow> string" where
  "be64 n = map (\<lambda>k. char_of ((n div 256 ^ k) mod 256)) [7, 6, 5, 4, 3, 2, 1, 0]"

definition chain_bytes :: "string \<Rightarrow> int \<Rightarrow> event \<Rightarrow> string" where
  "chain_bytes prev seq e =
     prev @ be64 seq @ ev_Tenant e @ ev_Actor e @ ev_Action e @ ev_Payload e
       @ be64 (unix_nano (ev_Timestamp e))"

definition chainHash :: "(string \<Rightarrow> string) \<Rightarrow> string \<Rightarrow> int \<Rightarrow> event \<Rightarrow> string" where
  "chainHash H prev seq e = H (chain_bytes prev seq e)"

text \<open>The hash of the tenant's last entry, found by the scan from the end; nil when there is none.\<close>

definition last_hash :: "tenant_id \<Rightarrow> stored_event list \<Rightarrow> string" where
  "last_hash tid es =
     (case find (\<lambda>se. se_tenant se = tid) (rev es) of None \<Rightarrow> [] | Some se \<Rightarrow> se_hash se)"

definition Append :: "(string \<Rightarrow> string) \<Rightarrow> audit_log \<Rightarrow> event \<Rightarrow> (int \<times> string) \<times> audit_log" where
  "Append H l e =
     (let seqs = (al_seqs l)(ev_Tenant e := al_seqs l (ev_Tenant e) + 1);
          seq = seqs (ev_Tenant e);
          prev = last_hash (ev_Tenant e) (al_entries l);
          h = chainHash H prev seq e
      in ((seq, h),
          l\<lparr>al_seqs := seqs,
            al_entries := al_entries l @
              [\<lparr>se_seq = seq, se_tenant = ev_Tenant e, se_event = e, se_prevHash = prev, se_hash = h\<rparr>]\<rparr>))"

definition matches_filter :: "filter_rec \<Rightarrow> event \<Rightarrow> bool" where
  "matches_filter f e =
     ((fl_Actor f = [] \<or> ev_Actor e = fl_Actor f)
      \<and> (fl_Action f = [] \<or> ev_Action e = fl_Action f)
      \<and> (fl_From f = 0 \<or> \<not> ev_Timestamp e < fl_From f)
      \<and> (fl_To f = 0 \<or> \<not> ev_Timestamp e > fl_To f))"

definition Query :: "audit_log \<Rightarrow> tenant_id \<Rightarrow> filter_rec \<Rightarrow> event list" where
  "Query l tid f =
     sort_key ev_Timestamp
       (map se_event (filter (\<lambda>se. se_tenant se = tid \<and> matches_filter f (se_event se)) (al_entries l)))"

section \<open>VerifyChain\<close>

fun seed_hash :: "tenant_id \<Rightarrow> int \<Rightarrow> string \<Rightarrow> stored_event list \<Rightarrow> string" where
  "seed_hash tid from prev [] = prev"
| "seed_hash tid from prev (se # es) =
     (if se_tenant se = tid \<and> se_seq se = from - 1 then seed_hash tid from (se_hash se) es
      else seed_hash tid from prev es)"

text \<open>The report: \<open>None\<close> is OK, \<open>Some n\<close> is broken at sequence number n.\<close>

fun verify_loop ::
  "(string \<Rightarrow> string) \<Rightarrow> tenant_id \<Rightarrow> int \<Rightarrow> int \<Rightarrow> string \<Rightarrow> stored_event list \<Rightarrow> int option" where
  "verify_loop H tid from til prev [] = None"
| "verify_loop H tid from til prev (se # es) =
     (if se_tenant se \<noteq> tid \<or> se_seq se < from \<or> (til > 0 \<and> se_seq se \<ge> til)
      then verify_loop H tid from til prev es
      else if chainHash H prev (se_seq se) (se_event se) \<noteq> se_hash se then Some (se_seq se)
      else verify_loop H tid from til (se_hash se) es)"

definition VerifyChain :: "(string \<Rightarrow> string) \<Rightarrow> audit_log \<Rightarrow> tenant_id \<Rightarrow> int \<Rightarrow> int \<Rightarrow> int option" where
  "VerifyChain H l tid from til =
     verify_loop H tid from til (seed_hash tid from [] (al_entries l)) (al_entries l)"

record anchor =
  an_Seq :: int
  an_Hash :: string
  an_AnchoredAt :: gotime

definition Anchor :: "audit_log \<Rightarrow> tenant_id \<Rightarrow> rerr + anchor" where
  "Anchor l tid =
     (case find (\<lambda>se. se_tenant se = tid) (rev (al_entries l)) of
        None \<Rightarrow> Inl (Plain ErrNotFound)
      | Some se \<Rightarrow> Inr \<lparr>an_Seq = se_seq se, an_Hash = se_hash se,
                        an_AnchoredAt = ev_Timestamp (se_event se)\<rparr>)"

definition tamperForTest :: "audit_log \<Rightarrow> tenant_id \<Rightarrow> int \<Rightarrow> string \<Rightarrow> audit_log" where
  "tamperForTest l tid seq newPayload =
     l\<lparr>al_entries := map (\<lambda>se. if se_tenant se = tid \<and> se_seq se = seq
                               then se\<lparr>se_event := (se_event se)\<lparr>ev_Payload := newPayload\<rparr>\<rparr>
                               else se) (al_entries l)\<rparr>"

section \<open>The contract of an audit sink\<close>

text \<open>
  What a client of \<open>auth.AuditSink\<close> relies on: an appended event is the newest event of its own
  tenant and touches no other tenant, and the sink stays verifiable.
\<close>

locale audit_sink =
  fixes append :: "'log \<Rightarrow> event \<Rightarrow> 'log"
    and events :: "'log \<Rightarrow> tenant_id \<Rightarrow> event list"
    and verified :: "'log \<Rightarrow> bool"
  assumes events_append:
      "events (append l e) tid = events l tid @ (if ev_Tenant e = tid then [e] else [])"
    and verified_append: "verified l \<Longrightarrow> verified (append l e)"
begin

lemma events_appends:
  "events (foldl append l es) tid = events l tid @ filter (\<lambda>e. ev_Tenant e = tid) es"
  by (induction es arbitrary: l) (auto simp: events_append)

lemma verified_appends: "verified l \<Longrightarrow> verified (foldl append l es)"
  by (induction es arbitrary: l) (auto intro: verified_append)

lemma other_tenant_untouched:
  "\<forall>e \<in> set es. ev_Tenant e \<noteq> tid \<Longrightarrow> events (foldl append l es) tid = events l tid"
  by (simp add: events_appends)

end

section \<open>The chain invariant\<close>

definition view :: "tenant_id \<Rightarrow> stored_event list \<Rightarrow> stored_event list" where
  "view tid es = filter (\<lambda>se. se_tenant se = tid) es"

fun chained :: "(string \<Rightarrow> string) \<Rightarrow> string \<Rightarrow> int \<Rightarrow> stored_event list \<Rightarrow> bool" where
  "chained H prev n [] = True"
| "chained H prev n (se # es) =
     (se_seq se = n + 1 \<and> se_prevHash se = prev
      \<and> se_hash se = chainHash H prev (n + 1) (se_event se)
      \<and> chained H (se_hash se) (n + 1) es)"

definition audit_ok :: "(string \<Rightarrow> string) \<Rightarrow> audit_log \<Rightarrow> bool" where
  "audit_ok H l =
     ((\<forall>tid. chained H [] 0 (view tid (al_entries l))
             \<and> al_seqs l tid = int (length (view tid (al_entries l))))
      \<and> (\<forall>se \<in> set (al_entries l). ev_Tenant (se_event se) = se_tenant se))"

definition end_hash :: "string \<Rightarrow> stored_event list \<Rightarrow> string" where
  "end_hash p es = (if es = [] then p else se_hash (last es))"

lemma last_hash_view: "last_hash tid es = end_hash [] (view tid es)"
  by (induction es rule: rev_induct) (auto simp: last_hash_def view_def end_hash_def)

lemma chained_snoc:
  "chained H p n (es @ [se]) \<longleftrightarrow>
     chained H p n es \<and> se_seq se = n + int (length es) + 1 \<and> se_prevHash se = end_hash p es
     \<and> se_hash se = chainHash H (end_hash p es) (n + int (length es) + 1) (se_event se)"
  by (induction H p n es rule: chained.induct) (auto simp: end_hash_def add.commute add.assoc)

lemma audit_ok_empty: "audit_ok H NewInMemoryAuditLog"
  by (simp add: audit_ok_def NewInMemoryAuditLog_def view_def)

lemma audit_ok_Append [keeps]: "audit_ok H l \<Longrightarrow> audit_ok H (snd (Append H l e))"
  by (auto simp: audit_ok_def Append_def Let_def view_def chained_snoc last_hash_view)

inductive audit_step :: "(string \<Rightarrow> string) \<Rightarrow> audit_log \<Rightarrow> audit_log \<Rightarrow> bool" for H where
  audit_append: "audit_step H l (snd (Append H l e))"

inductive_simps audit_step_iff: "audit_step H l l'"

interpretation log_inv: invariant_system
  "\<lambda>l. l = NewInMemoryAuditLog" "audit_step H" "audit_ok H" for H
  by unfold_locales (auto simp: audit_ok_empty audit_step_iff intro: keeps)

definition log_events :: "audit_log \<Rightarrow> tenant_id \<Rightarrow> event list" where
  "log_events l tid = map se_event (view tid (al_entries l))"

lemma log_events_Append [simp]:
  "log_events (snd (Append H l e)) tid = log_events l tid @ (if ev_Tenant e = tid then [e] else [])"
  by (simp add: log_events_def Append_def Let_def view_def)

interpretation sink: audit_sink "\<lambda>l e. snd (Append H l e)" log_events "audit_ok H" for H
  by unfold_locales (simp, rule audit_ok_Append)

section \<open>Verification accepts every log that was only appended to\<close>

lemma verify_loop_view:
  "verify_loop H tid from til p es = verify_loop H tid from til p (view tid es)"
  by (induction H tid "from" til p es rule: verify_loop.induct) (auto simp: view_def)

lemma seed_hash_view: "seed_hash tid from p es = seed_hash tid from p (view tid es)"
  by (induction tid "from" p es rule: seed_hash.induct) (auto simp: view_def)

lemma view_tenant: "\<forall>s \<in> set (view tid es). se_tenant s = tid"
  by (simp add: view_def)

lemma chained_seq: "chained H p n es \<Longrightarrow> se \<in> set es \<Longrightarrow> n < se_seq se"
  by (induction H p n es rule: chained.induct) fastforce+

lemma verify_past_end:
  "0 < til \<Longrightarrow> \<forall>s \<in> set es. til \<le> se_seq s \<Longrightarrow> verify_loop H tid from til p es = None"
  by (induction es) auto

lemma verify_from_here:
  assumes "chained H p n es" and "from \<le> n + 1" and "\<forall>s \<in> set es. se_tenant s = tid"
  shows "verify_loop H tid from til p es = None"
  using assms
proof (induction H p n es rule: chained.induct)
  case (2 H prev n se es)
  show ?case
  proof (cases "0 < til \<and> til \<le> n + 1")
    case True
    with "2.prems"(1) have "\<forall>s \<in> set (se # es). til \<le> se_seq s"
      using chained_seq [of H "se_hash se" "n + 1" es] by fastforce
    with True show ?thesis by (blast intro: verify_past_end)
  next
    case False
    with 2 show ?thesis by auto
  qed
qed simp

lemma seed_unchanged: "\<forall>s \<in> set es. from \<le> se_seq s \<Longrightarrow> seed_hash tid from p es = p"
  by (induction es) auto

lemma verify_from_later:
  assumes "chained H p n es" and "n + 1 < from" and "\<forall>s \<in> set es. se_tenant s = tid"
  shows "verify_loop H tid from til (seed_hash tid from q es) es = None"
  using assms
proof (induction H p n es arbitrary: q rule: chained.induct)
  case (2 H prev n se es)
  show ?case
  proof (cases "from = n + 2")
    case True
    from "2.prems"(1) True have "seed_hash tid from (se_hash se) es = se_hash se"
      using chained_seq [of H "se_hash se" "n + 1" es] by (intro seed_unchanged) fastforce
    with True "2.prems" verify_from_here [of H "se_hash se" "n + 1" es "from" tid til]
    show ?thesis by auto
  next
    case False
    with 2 show ?thesis by auto
  qed
qed simp

lemma audit_ok_verifies:
  assumes "audit_ok H l"
  shows "VerifyChain H l tid from til = None"
proof -
  from assms have c: "chained H [] 0 (view tid (al_entries l))" by (simp add: audit_ok_def)
  show ?thesis
  proof (cases "from \<le> 1")
    case True
    with c have "seed_hash tid from [] (view tid (al_entries l)) = []"
      using chained_seq [OF c] by (intro seed_unchanged) fastforce
    with True c show ?thesis
      by (simp add: VerifyChain_def verify_loop_view [of _ _ _ _ _ "al_entries l"]
          seed_hash_view [of _ _ _ "al_entries l"] verify_from_here view_tenant)
  next
    case False
    with c show ?thesis
      by (simp add: VerifyChain_def verify_loop_view [of _ _ _ _ _ "al_entries l"]
          seed_hash_view [of _ _ _ "al_entries l"] verify_from_later view_tenant)
  qed
qed

text \<open>Every log built by \<open>Append\<close> verifies, over every range of sequence numbers.\<close>

theorem VerifyChain_accepts_appended:
  assumes "reach (\<lambda>l. l = NewInMemoryAuditLog) (audit_step H) l"
  shows "VerifyChain H l tid from til = None"
  using log_inv.reach_inv [OF assms] by (rule audit_ok_verifies)

definition shift_actor :: "stored_event \<Rightarrow> stored_event" where
  "shift_actor s =
     (case ev_Actor (se_event s) of
        [] \<Rightarrow> s
      | c # cs \<Rightarrow> s\<lparr>se_event := (se_event s)\<lparr>ev_Actor := [c], ev_Action := cs @ ev_Action (se_event s)\<rparr>\<rparr>)"

definition demo_event :: event where
  "demo_event = \<lparr>ev_Tenant = ''t1'', ev_Actor = ''ab'', ev_Action = ''c'', ev_Payload = ''p'',
                 ev_Timestamp = 5\<rparr>"

definition demo_log :: audit_log where
  "demo_log = snd (Append rev NewInMemoryAuditLog demo_event)"

lemmas demo_eval = demo_log_def demo_event_def NewInMemoryAuditLog_def Append_def Let_def
  last_hash_def VerifyChain_def log_events_def view_def shift_actor_def

lemma demo_log_reach: "reach (\<lambda>l. l = NewInMemoryAuditLog) (audit_step rev) demo_log"
  unfolding demo_log_def
  by (rule reach_step [where s = NewInMemoryAuditLog]) (auto intro: reach_init audit_append)

theorem VerifyChain_accepts_appended_witness:
  "VerifyChain rev demo_log ''t1'' 1 0 = None"
  by (rule VerifyChain_accepts_appended [OF demo_log_reach])

section \<open>Tampering\<close>

lemma seed_hash_map:
  "(\<And>s. se_seq (f s) = se_seq s \<and> se_tenant (f s) = se_tenant s \<and> se_hash (f s) = se_hash s) \<Longrightarrow>
     seed_hash tid from p (map f es) = seed_hash tid from p es"
  by (induction es arbitrary: p) auto

definition set_payload :: "string \<Rightarrow> stored_event \<Rightarrow> stored_event" where
  "set_payload b se = se\<lparr>se_event := (se_event se)\<lparr>ev_Payload := b\<rparr>\<rparr>"

text \<open>In a chain with one changed payload the check fails at the changed entry, if its hash notices, or nowhere.\<close>

lemma verify_tampered:
  assumes "chained H p n (as @ se # cs)" and "\<forall>s \<in> set (as @ se # cs). se_tenant s = tid" and "0 \<le> n"
  defines "prev \<equiv> (if as = [] then p else se_hash (last as))"
  shows "se_hash se = chainHash H prev (se_seq se) (se_event se)
    \<and> verify_loop H tid 1 0 p (map (\<lambda>s. if se_tenant s = tid \<and> se_seq s = se_seq se then set_payload b s else s) (as @ se # cs))
        = (if chainHash H prev (se_seq se) ((se_event se)\<lparr>ev_Payload := b\<rparr>) = se_hash se then None else Some (se_seq se))"
  using assms(1-3) unfolding prev_def
proof (induction as arbitrary: p n)
  case Nil
  then have c: "se_seq se = n + 1" "chained H (se_hash se) (n + 1) cs" "se_hash se = chainHash H p (n + 1) (se_event se)" by auto
  have "se_seq s \<noteq> se_seq se" if "s \<in> set cs" for s using chained_seq [OF c(2) that] c(1) by simp
  then have cs: "map (\<lambda>s. if se_tenant s = tid \<and> se_seq s = se_seq se then set_payload b s else s) cs = cs"
    by (intro map_idI) simp
  have "verify_loop H tid 1 0 (se_hash se) cs = None"
    using verify_from_here [OF c(2)] Nil.prems by simp
  with c cs Nil.prems show ?case by (simp add: set_payload_def)
next
  case (Cons s as)
  then have c: "se_seq s = n + 1" "chained H (se_hash s) (n + 1) (as @ se # cs)" "se_hash s = chainHash H p (n + 1) (se_event s)" by auto
  have "se_seq se \<noteq> se_seq s" using chained_seq [OF c(2), of se] c(1) by simp
  with Cons.IH [OF c(2)] c Cons.prems show ?case by (auto simp: set_payload_def)
qed

lemma view_append [simp]: "view tid (xs @ ys) = view tid xs @ view tid ys"
  by (simp add: view_def)

text \<open>C27. Tamper evidence: in a log built by \<open>Append\<close>, replacing the payload of one stored event changes the
  bytes its stored hash was computed from, and a full \<open>VerifyChain\<close> reports exactly that sequence number, unless
  these very bytes, before and after the change, have the same hash.\<close>

theorem VerifyChain_detects_payload_tampering:
  assumes l: "reach (\<lambda>l. l = NewInMemoryAuditLog) (audit_step H) l"
    and se: "al_entries l = before @ se # after" and b: "ev_Payload (se_event se) \<noteq> b"
  shows "let tid = se_tenant se; prev = last_hash tid before;
       old = chain_bytes prev (se_seq se) (se_event se); new = chain_bytes prev (se_seq se) ((se_event se)\<lparr>ev_Payload := b\<rparr>)
     in new \<noteq> old \<and> se_hash se = H old
        \<and> VerifyChain H (tamperForTest l tid (se_seq se) b) tid 1 0 = (if H new = H old then None else Some (se_seq se))"
proof -
  define tid where "tid = se_tenant se"
  define old where "old = chain_bytes (last_hash tid before) (se_seq se) (se_event se)"
  define new where "new = chain_bytes (last_hash tid before) (se_seq se) ((se_event se)\<lparr>ev_Payload := b\<rparr>)"
  let ?f = "\<lambda>s. if se_tenant s = tid \<and> se_seq s = se_seq se then set_payload b s else s"
  from l have "audit_ok H l" by (rule log_inv.reach_inv)
  then have c: "chained H [] 0 (view tid (al_entries l))" by (simp add: audit_ok_def)
  have v: "view tid (al_entries l) = view tid before @ se # view tid after" by (simp add: se) (simp add: view_def tid_def)
  have prev: "last_hash tid before = (if view tid before = [] then [] else se_hash (last (view tid before)))"
    by (simp add: last_hash_view end_hash_def)
  have t: "al_entries (tamperForTest l tid (se_seq se) b) = map ?f (al_entries l)"
    by (simp add: tamperForTest_def set_payload_def)
  have "view tid (map ?f es) = map ?f (view tid es)" for es
    by (induction es) (auto simp: set_payload_def view_def)
  moreover have "seed_hash tid 1 [] (map ?f (view tid (al_entries l))) = []"
    using chained_seq [OF c] by (subst seed_hash_map) (fastforce simp: set_payload_def intro!: seed_unchanged)+
  ultimately have V: "VerifyChain H (tamperForTest l tid (se_seq se) b) tid 1 0 = verify_loop H tid 1 0 [] (map ?f (view tid (al_entries l)))"
    by (simp add: VerifyChain_def t verify_loop_view [of _ _ _ _ _ "map ?f (al_entries l)"]
        seed_hash_view [of _ _ _ "map ?f (al_entries l)"])
  have "\<forall>s \<in> set (view tid before @ se # view tid after). se_tenant s = tid" by (auto simp: view_def tid_def)
  from verify_tampered [OF c [unfolded v] this, of b] have "se_hash se = H old"
    "VerifyChain H (tamperForTest l tid (se_seq se) b) tid 1 0 = (if H new = se_hash se then None else Some (se_seq se))"
    unfolding V v prev [symmetric] by (simp_all add: chainHash_def old_def new_def)
  moreover have "new \<noteq> old" using b by (simp add: new_def old_def chain_bytes_def)
  ultimately show ?thesis by (simp add: Let_def old_def new_def tid_def)
qed

text \<open>
  The concatenation hashed by \<open>chainHash\<close> has no delimiters, so it commits to the concatenation
  of the actor, the action and the payload and not to the three fields.
\<close>

definition same_text :: "event \<Rightarrow> event \<Rightarrow> bool" where
  "same_text e e' =
     (ev_Tenant e @ ev_Actor e @ ev_Action e @ ev_Payload e
        = ev_Tenant e' @ ev_Actor e' @ ev_Action e' @ ev_Payload e'
      \<and> ev_Timestamp e = ev_Timestamp e')"

lemma chain_bytes_same_text: "same_text e e' \<Longrightarrow> chain_bytes p n e = chain_bytes p n e'"
  unfolding same_text_def chain_bytes_def by (metis append.assoc)

lemma verify_loop_same_text:
  assumes "\<And>s. se_seq (f s) = se_seq s \<and> se_tenant (f s) = se_tenant s \<and> se_hash (f s) = se_hash s
             \<and> same_text (se_event (f s)) (se_event s)"
  shows "verify_loop H tid from til p (map f es) = verify_loop H tid from til p es"
proof (induction es arbitrary: p)
  case (Cons s es)
  have "chainHash H p (se_seq s) (se_event (f s)) = chainHash H p (se_seq s) (se_event s)"
    using assms [of s] chain_bytes_same_text [of "se_event (f s)" "se_event s"]
    by (simp add: chainHash_def)
  with Cons assms show ?case by simp
qed simp

text \<open>What the chain does not protect: an edit of the stored events that moves bytes between the
  actor, the action and the payload (keeping their concatenation and the timestamp) is accepted
  by \<open>VerifyChain\<close> exactly as the original log is, whatever the hash function.\<close>

theorem VerifyChain_misses_field_shift:
  assumes "\<And>s. se_seq (f s) = se_seq s \<and> se_tenant (f s) = se_tenant s \<and> se_hash (f s) = se_hash s
             \<and> same_text (se_event (f s)) (se_event s)"
  shows "VerifyChain H (l\<lparr>al_entries := map f (al_entries l)\<rparr>) tid from til = VerifyChain H l tid from til"
  using assms by (simp add: VerifyChain_def verify_loop_same_text seed_hash_map)

theorem VerifyChain_misses_field_shift_witness:
  "VerifyChain rev (demo_log\<lparr>al_entries := map shift_actor (al_entries demo_log)\<rparr>) ''t1'' 1 0 = None
   \<and> map (ev_Actor \<circ> se_event) (map shift_actor (al_entries demo_log)) = [''a'']
   \<and> map (ev_Actor \<circ> se_event) (al_entries demo_log) = [''ab'']"
proof -
  have "VerifyChain rev (demo_log\<lparr>al_entries := map shift_actor (al_entries demo_log)\<rparr>) ''t1'' 1 0
          = VerifyChain rev demo_log ''t1'' 1 0"
    by (rule VerifyChain_misses_field_shift)
      (auto simp: shift_actor_def same_text_def split: list.splits)
  also have "\<dots> = None"
    by (simp add: demo_eval)
  finally show ?thesis
    by (simp add: demo_eval)
qed

theorem VerifyChain_detects_payload_tampering_witness:
  "VerifyChain rev (tamperForTest demo_log ''t1'' 1 ''q'') ''t1'' 1 0 = Some 1"
proof -
  define se where "se = hd (al_entries demo_log)"
  have "al_entries demo_log = [] @ se # []" "se_tenant se = ''t1''" "se_seq se = 1"
    "ev_Payload (se_event se) \<noteq> ''q''"
    by (simp_all add: se_def demo_eval)
  with VerifyChain_detects_payload_tampering [OF demo_log_reach, of "[]" se "[]" "''q''"]
  show ?thesis by (auto simp: Let_def)
qed

section \<open>Queries and receipts\<close>

text \<open>A query returns exactly the tenant's own events that match the filter, in timestamp
  order, and never an event of another tenant.\<close>

theorem Query_exact:
  assumes "reach (\<lambda>l. l = NewInMemoryAuditLog) (audit_step H) l"
  shows "set (Query l tid f) = {e \<in> set (log_events l tid). matches_filter f e}
         \<and> sorted (map ev_Timestamp (Query l tid f))
         \<and> (\<forall>e \<in> set (Query l tid f). ev_Tenant e = tid)"
proof -
  from assms have "audit_ok H l" by (rule log_inv.reach_inv)
  then show ?thesis
    by (auto simp: Query_def log_events_def view_def audit_ok_def)
qed

theorem Query_exact_witness:
  "set (Query demo_log ''t1'' \<lparr>fl_From = 0, fl_To = 0, fl_Actor = [], fl_Action = []\<rparr>)
     = {e \<in> set (log_events demo_log ''t1'').
          matches_filter \<lparr>fl_From = 0, fl_To = 0, fl_Actor = [], fl_Action = []\<rparr> e}"
  using Query_exact [OF demo_log_reach] by blast

lemma chained_seqs: "chained H p n es \<Longrightarrow> map se_seq es = map (\<lambda>i. n + 1 + int i) [0..<length es]"
proof (induction es rule: rev_induct)
  case (snoc s es)
  then show ?case by (simp add: chained_snoc)
qed simp

text \<open>The receipts of a tenant are numbered 1, 2, 3, \<dots> without a gap: an append returns the
  successor of the number of events the tenant has, and an anchor is the last receipt.\<close>

theorem Append_receipt:
  assumes "reach (\<lambda>l. l = NewInMemoryAuditLog) (audit_step H) l"
    and "Append H l e = ((n, h), l')"
  shows "n = int (length (log_events l (ev_Tenant e))) + 1
         \<and> Anchor l' (ev_Tenant e) = Inr \<lparr>an_Seq = n, an_Hash = h, an_AnchoredAt = ev_Timestamp e\<rparr>"
proof -
  from assms(1) have "audit_ok H l" by (rule log_inv.reach_inv)
  with assms(2) show ?thesis
    by (auto simp: Append_def Let_def Anchor_def log_events_def audit_ok_def)
qed

theorem Append_receipt_witness:
  "fst (fst (Append rev demo_log demo_event)) = 2"
proof -
  obtain n h l' where a: "Append rev demo_log demo_event = ((n, h), l')"
    by (metis surj_pair)
  from Append_receipt [OF demo_log_reach a] a show ?thesis
    by (simp add: demo_eval)
qed

end
