(* ===== verification/Guard.thy ===== *)
theory Guard
  imports Executor AuditLog
begin

text \<open>
  internal/remediate/guard.go: the remediation control plane, one definition per method of
  \<open>guard\<close>.  The mutex makes every method atomic, so a method is a function from the state to a
  result and the new state.

  A \<open>deps\<close> value is what the collaborators answer during one call: each method calls the policy
  store, the resolver, the snapshotter, the signal source, the verifier and the executor at most
  once, so one answer function per collaborator is fully general, and successive calls may be
  given different \<open>deps\<close>.  \<open>d_now d i\<close> is the i-th reading of the injected clock in the call.
  The field \<open>g_calls\<close> is not in the code: it records the requests handed to executors.
\<close>

section \<open>State\<close>

record subject =
  sub_ID :: string
  sub_Tenant :: tenant_id

record approval_request =
  ar_Comment :: string
  ar_OverrideJustification :: string
  ar_RequestBudgetOverride :: bool

record action_filter =
  af_IncidentID :: string
  af_States :: "action_state list"

record guard_cfg =
  gc_Mode :: string
  gc_DefaultExecutor :: string
  gc_ApprovalTTL :: duration
  gc_ProposalTTL :: duration
  gc_VerifyWindow :: duration
  gc_AutoExecuteOnApprove :: bool
  gc_DefaultActionBudget :: int
  gc_MaxBudgetOverrides :: int

record 'sig deps =
  d_policy :: "(tenant_id \<Rightarrow> string + policy) option"
  d_resolver :: "(tenant_id \<Rightarrow> action_target \<Rightarrow> string + action_target) option"
  d_snapshot :: "(tenant_id \<Rightarrow> action_target \<Rightarrow> string + snapshot) option"
  d_signals :: "(tenant_id \<Rightarrow> action \<Rightarrow> string + 'sig) option"
  d_verifier :: "(tenant_id \<Rightarrow> action \<Rightarrow> 'sig \<Rightarrow> verify_result \<times> string option) option"
  d_authz :: "(string \<Rightarrow> string \<Rightarrow> string option) option"
  d_executors :: "string \<Rightarrow> executor option"
  d_now :: "nat \<Rightarrow> gotime"
  d_wall_nano :: int
  d_sha256 :: "string \<Rightarrow> string"
  d_marshal :: "json \<Rightarrow> string"
  d_marshal_proposal :: "action_proposal \<Rightarrow> string"
  d_rfc3339 :: "gotime \<Rightarrow> string"

record idem_record =
  ir_hash :: string
  ir_action :: action

record guard =
  g_cfg :: guard_cfg
  g_actions :: "(string \<times> action) list"
  g_idem :: "(string \<times> idem_record) list"
  g_seq :: nat
  g_audit :: audit_log
  g_calls :: "(string \<times> k8s_request) list"

definition withDefaults :: "guard_cfg \<Rightarrow> guard_cfg" where
  "withDefaults c = c\<lparr>
     gc_ApprovalTTL := (if gc_ApprovalTTL c = 0 then 15 * minute else gc_ApprovalTTL c),
     gc_ProposalTTL := (if gc_ProposalTTL c = 0 then 60 * minute else gc_ProposalTTL c),
     gc_VerifyWindow := (if gc_VerifyWindow c = 0 then 10 * minute else gc_VerifyWindow c),
     gc_DefaultActionBudget := (if gc_DefaultActionBudget c = 0 then 2 else gc_DefaultActionBudget c),
     gc_MaxBudgetOverrides := (if gc_MaxBudgetOverrides c = 0 then 1 else gc_MaxBudgetOverrides c),
     gc_DefaultExecutor := (if gc_DefaultExecutor c = [] then ''dryrun'' else gc_DefaultExecutor c)\<rparr>"

definition NewGuard :: "guard_cfg \<Rightarrow> guard" where
  "NewGuard c = \<lparr>g_cfg = withDefaults c, g_actions = [], g_idem = [], g_seq = 0,
                 g_audit = NewInMemoryAuditLog, g_calls = []\<rparr>"

text \<open>\<open>NewGuard\<close>'s defaulting of the executor table.\<close>

definition default_executors :: "(json \<Rightarrow> string) \<Rightarrow> (string \<Rightarrow> executor option) \<Rightarrow> string \<Rightarrow> executor option" where
  "default_executors marshal ex =
     (if ex ''dryrun'' = None then ex(''dryrun'' := Some (DryRunExecutor_Do marshal)) else ex)"

section \<open>Helpers\<close>

fun state_code :: "action_state \<Rightarrow> nat" where
  "state_code ActionProposed = 1"
| "state_code ActionApproved = 2"
| "state_code ActionRejected = 3"
| "state_code ActionExecuting = 4"
| "state_code ActionVerifying = 5"
| "state_code ActionSucceeded = 6"
| "state_code ActionFailed = 7"
| "state_code ActionRolledBack = 8"
| "state_code ActionExpired = 9"

definition illegal :: "string \<Rightarrow> action_state \<Rightarrow> rerr" where
  "illegal op s = Wrapped ErrIllegalTransition
     (''cannot '' @ op @ '' from state '' @ show_nat (state_code s))"

definition put :: "string \<Rightarrow> action \<Rightarrow> guard \<Rightarrow> guard" where
  "put aid a g = g\<lparr>g_actions := AList.update aid a (g_actions g)\<rparr>"

definition audit ::
  "'sig deps \<Rightarrow> nat \<Rightarrow> tenant_id \<Rightarrow> string \<Rightarrow> string \<Rightarrow> json \<Rightarrow> guard \<Rightarrow> guard" where
  "audit d i tid actor act payload g =
     g\<lparr>g_audit := snd (Append (d_sha256 d) (g_audit g)
        \<lparr>ev_Tenant = tid, ev_Actor = actor, ev_Action = act, ev_Payload = d_marshal d payload,
         ev_Timestamp = d_now d i\<rparr>)\<rparr>"

definition id_payload :: "string \<Rightarrow> json" where
  "id_payload aid = JObj [(''action_id'', JStr aid)]"

definition id_reason_payload :: "string \<Rightarrow> string \<Rightarrow> json" where
  "id_reason_payload aid reason = JObj [(''action_id'', JStr aid), (''reason'', JStr reason)]"

definition id_incident_payload :: "string \<Rightarrow> string \<Rightarrow> json" where
  "id_incident_payload aid inc = JObj [(''action_id'', JStr aid), (''incident_id'', JStr inc)]"

definition target_json :: "action_target \<Rightarrow> json" where
  "target_json t = JObj [(''Cluster'', JStr (tg_Cluster t)), (''Namespace'', JStr (tg_Namespace t)),
     (''Kind'', JInt (uint (kind_code (tg_Kind t)))), (''Name'', JStr (tg_Name t)),
     (''ResolvedUID'', JStr (tg_ResolvedUID t)), (''ResolvedVersion'', JStr (tg_ResolvedVersion t))]"

definition nextID :: "'sig deps \<Rightarrow> nat \<Rightarrow> string" where
  "nextID d seq = ''act_'' @
     take 16 (hex_string (d_sha256 d (''action-'' @ show_nat seq @ ''-'' @ show_int (d_wall_nano d))))"

definition requestHash :: "'sig deps \<Rightarrow> string \<Rightarrow> string" where
  "requestHash d bytes = hex_string (d_sha256 d bytes)"

definition proposal_hash :: "'sig deps \<Rightarrow> action_proposal \<Rightarrow> string" where
  "proposal_hash d p = requestHash d (d_marshal_proposal d p)"

definition id_hash :: "'sig deps \<Rightarrow> string \<Rightarrow> string" where
  "id_hash d aid = requestHash d (d_marshal d (JStr aid))"

definition idem_key :: "tenant_id \<Rightarrow> string \<Rightarrow> string \<Rightarrow> string" where
  "idem_key tid endpoint key = tid @ ''|'' @ endpoint @ ''|'' @ key"

definition checkIdempotency ::
  "guard \<Rightarrow> tenant_id \<Rightarrow> string \<Rightarrow> string \<Rightarrow> string \<Rightarrow> rerr + action option" where
  "checkIdempotency g tid endpoint key h =
     (if key = [] then Inl (Plain ErrIdempotencyRequired)
      else case map_of (g_idem g) (idem_key tid endpoint key) of
        Some rec \<Rightarrow>
          if ir_hash rec \<noteq> h then Inl (Plain ErrIdempotencyReused) else Inr (Some (ir_action rec))
      | None \<Rightarrow> Inr None)"

definition storeIdempotency ::
  "tenant_id \<Rightarrow> string \<Rightarrow> string \<Rightarrow> string \<Rightarrow> action \<Rightarrow> guard \<Rightarrow> guard" where
  "storeIdempotency tid endpoint key h a g =
     (if key = [] then g
      else g\<lparr>g_idem := AList.update (idem_key tid endpoint key) \<lparr>ir_hash = h, ir_action = a\<rparr> (g_idem g)\<rparr>)"

definition charges_budget :: "tenant_id \<Rightarrow> string \<Rightarrow> action \<Rightarrow> bool" where
  "charges_budget tid inc a =
     (a_Tenant a = tid \<and> a_IncidentID a = inc
      \<and> \<not> (a_State a = ActionRejected \<or> a_State a = ActionExpired))"

definition budgetUsed :: "guard \<Rightarrow> tenant_id \<Rightarrow> string \<Rightarrow> int" where
  "budgetUsed g tid inc = int (count_rows (charges_budget tid inc) (g_actions g))"

definition overridesUsed :: "guard \<Rightarrow> tenant_id \<Rightarrow> string \<Rightarrow> int" where
  "overridesUsed g tid inc =
     int (count_rows (\<lambda>x. a_Tenant x = tid \<and> a_IncidentID x = inc \<and> a_OverrideUsed x) (g_actions g))"

definition get_action :: "guard \<Rightarrow> tenant_id \<Rightarrow> string \<Rightarrow> rerr + action" where
  "get_action g tid aid =
     (case map_of (g_actions g) aid of
        None \<Rightarrow> Inl (Plain ErrNotFound)
      | Some a \<Rightarrow> if a_Tenant a \<noteq> tid then Inl (Plain ErrNotFound) else Inr a)"

definition get_policy :: "'sig deps \<Rightarrow> guard \<Rightarrow> tenant_id \<Rightarrow> rerr + policy" where
  "get_policy d g tid =
     (case d_policy d of
        None \<Rightarrow> Inr \<lparr>pol_RemediationAllowlist = [], pol_NamespaceAllowlist = [],
                    pol_TargetAllowlist = [],
                    pol_ActionBudgetPerIncident = gc_DefaultActionBudget (g_cfg g),
                    pol_AutoExecuteAllowed = False, pol_FeatureFlags = [], pol_MaxReplicas = 50\<rparr>
      | Some f \<Rightarrow> (case f tid of Inl t \<Rightarrow> Inl (Other t) | Inr p \<Rightarrow> Inr p))"

definition budget_cap :: "guard \<Rightarrow> policy \<Rightarrow> int" where
  "budget_cap g pol =
     (if pol_ActionBudgetPerIncident pol = 0 then gc_DefaultActionBudget (g_cfg g)
      else pol_ActionBudgetPerIncident pol)"

definition sepOfDuty :: "'sig deps \<Rightarrow> string \<Rightarrow> string \<Rightarrow> bool" where
  "sepOfDuty d proposer approver =
     (case d_authz d of
        Some f \<Rightarrow> f proposer approver = None
      | None \<Rightarrow> proposer \<noteq> approver)"

section \<open>Propose\<close>

definition resolve_target :: "'sig deps \<Rightarrow> tenant_id \<Rightarrow> action_target \<Rightarrow> string + action_target" where
  "resolve_target d tid t = (case d_resolver d of None \<Rightarrow> Inr t | Some f \<Rightarrow> f tid t)"

text \<open>The proposal as stored: re-resolved target, tier from the table, time, proposer and identifier.\<close>

definition stamped :: "'sig deps \<Rightarrow> guard \<Rightarrow> subject \<Rightarrow> action_target \<Rightarrow> action_proposal \<Rightarrow> action_proposal" where
  "stamped d g who resolved p =
     p\<lparr>p_Target := resolved, p_RiskTier := fst (riskTier (p_Type p)), p_ProposedAt := d_now d 0,
       p_ProposedBy := (if p_ProposedBy p = [] then sub_ID who else p_ProposedBy p),
       p_ID := nextID d (g_seq g)\<rparr>"

definition new_action :: "'sig deps \<Rightarrow> guard \<Rightarrow> tenant_id \<Rightarrow> action_proposal \<Rightarrow> action" where
  "new_action d g tid p =
     \<lparr>a_ID = p_ID p, a_Tenant = tid, a_IncidentID = p_IncidentID p,
      a_InvestigationID = p_InvestigationID p, a_Proposal = p, a_State = ActionProposed,
      a_StateReason = [], a_ProposedBy = p_ProposedBy p, a_ApprovedBy = [], a_ApprovedAt = 0,
      a_ExpiresAt = 0, a_ExecutorKind = gc_DefaultExecutor (g_cfg g), a_PreSnapshot = no_snapshot,
      a_DryRunOutput = [], a_ExecutedAt = 0, a_VerifyDeadline = 0, a_PostVerify = no_verify,
      a_Verified = False, a_AutoExecute = False,
      a_BudgetIndex = budgetUsed g tid (p_IncidentID p) + 1, a_OverrideUsed = False,
      a_OverrideJustification = [], a_OverriddenBy = [], a_OverriddenAt = 0,
      a_CreatedAt = d_now d 0, a_UpdatedAt = d_now d 0\<rparr>"

definition propose_store ::
  "'sig deps \<Rightarrow> guard \<Rightarrow> tenant_id \<Rightarrow> action_proposal \<Rightarrow> subject \<Rightarrow> string \<Rightarrow> (action, rerr) res \<times> guard" where
  "propose_store d g tid p who idem =
     (let a = new_action d g tid p;
          g1 = put (a_ID a) a (g\<lparr>g_seq := g_seq g + 1\<rparr>);
          g2 = audit d 1 tid (sub_ID who) ''action_proposed''
                 (JObj [(''action_id'', JStr (a_ID a)),
                        (''risk_tier'', JInt (int (p_RiskTier p))),
                        (''type'', JInt (uint (action_code (p_Type p))))]) g1;
          g3 = storeIdempotency tid ''propose'' idem (proposal_hash d p) a g2
      in (Ret a, g3))"

definition Propose ::
  "'sig deps \<Rightarrow> guard \<Rightarrow> tenant_id \<Rightarrow> action_proposal \<Rightarrow> subject \<Rightarrow> string \<Rightarrow> (action, rerr) res \<times> guard" where
  "Propose d g tid p who idem =
     (case checkIdempotency g tid ''propose'' idem (proposal_hash d p) of
        Inl e \<Rightarrow> (Fail e, g)
      | Inr (Some cached) \<Rightarrow> (Ret cached, g)
      | Inr None \<Rightarrow>
     (case get_policy d g tid of
        Inl e \<Rightarrow> (Fail e, g)
      | Inr pol \<Rightarrow>
     (case validateProposal p pol of
        Some e \<Rightarrow> (Fail e, g)
      | None \<Rightarrow>
     (case resolve_target d tid (p_Target p) of
        Inl t \<Rightarrow> (Fail (Wrapped ErrTargetNotResolvable t),
                  audit d 0 tid (sub_ID who) ''propose_refused_target_not_resolvable''
                    (JObj [(''target'', target_json (p_Target p))]) g)
      | Inr resolved \<Rightarrow>
     (case checkAllowlists (p\<lparr>p_Target := resolved\<rparr>) pol of
        Some e \<Rightarrow> (Fail e, g)
      | None \<Rightarrow>
          if budgetUsed g tid (p_IncidentID p) \<ge> budget_cap g pol
          then (Fail (Plain ErrBudgetExceeded),
                audit d 0 tid (sub_ID who) ''propose_refused_budget_exceeded''
                  (JObj [(''incident_id'', JStr (p_IncidentID p))]) g)
          else propose_store d g tid (stamped d g who resolved p) who idem)))))"

section \<open>Approve and Reject\<close>

definition approved :: "'sig deps \<Rightarrow> guard_cfg \<Rightarrow> policy \<Rightarrow> subject \<Rightarrow> action \<Rightarrow> action" where
  "approved d c pol who a =
     (let now = d_now d 0;
          auto = (gc_AutoExecuteOnApprove c \<and> pol_AutoExecuteAllowed pol);
          auto' = (if p_RiskTier (a_Proposal a) = 3 then False else auto)
      in a\<lparr>a_State := ActionApproved, a_ApprovedBy := sub_ID who, a_ApprovedAt := now,
           a_ExpiresAt := now + gc_ApprovalTTL c, a_AutoExecute := auto', a_UpdatedAt := now\<rparr>)"

definition approve_finish ::
  "'sig deps \<Rightarrow> guard \<Rightarrow> tenant_id \<Rightarrow> string \<Rightarrow> subject \<Rightarrow> policy \<Rightarrow> action \<Rightarrow> nat \<Rightarrow> (action, rerr) res \<times> guard" where
  "approve_finish d g tid aid who pol a i =
     (let a' = approved d (g_cfg g) pol who a
      in (Ret a',
          audit d i tid (sub_ID who) ''action_approved''
            (JObj [(''action_id'', JStr aid), (''expires_at'', JStr (d_rfc3339 d (a_ExpiresAt a')))])
            (put aid a' g)))"

definition with_override :: "'sig deps \<Rightarrow> subject \<Rightarrow> approval_request \<Rightarrow> action \<Rightarrow> action" where
  "with_override d who req a =
     a\<lparr>a_OverrideUsed := True, a_OverrideJustification := ar_OverrideJustification req,
       a_OverriddenBy := sub_ID who, a_OverriddenAt := d_now d 0\<rparr>"

definition approve_budget ::
  "'sig deps \<Rightarrow> guard \<Rightarrow> tenant_id \<Rightarrow> string \<Rightarrow> subject \<Rightarrow> approval_request \<Rightarrow> policy \<Rightarrow> action
    \<Rightarrow> (action, rerr) res \<times> guard" where
  "approve_budget d g tid aid who req pol a =
     (if ar_RequestBudgetOverride req then
        (if length (ar_OverrideJustification req) < 40 then (Fail (Plain ErrOverrideJustTooShort), g)
         else if overridesUsed g tid (a_IncidentID a) \<ge> gc_MaxBudgetOverrides (g_cfg g)
         then (Fail (Plain ErrOverrideLimit), g)
         else
           (let a' = with_override d who req a;
                g' = audit d 1 tid (sub_ID who) ''budget_override''
                       (id_incident_payload aid (a_IncidentID a)) (put aid a' g)
            in approve_finish d g' tid aid who pol a' 2))
      else if budgetUsed g tid (a_IncidentID a) > budget_cap g pol then
        (let a' = a\<lparr>a_State := ActionRejected, a_StateReason := ''budget_exceeded'',
                     a_UpdatedAt := d_now d 0\<rparr>
         in (FailWith a' (Plain ErrBudgetExceeded),
             audit d 1 tid (sub_ID who) ''approve_refused_budget_exceeded''
               (id_incident_payload aid (a_IncidentID a)) (put aid a' g)))
      else approve_finish d g tid aid who pol a 1)"

definition Approve ::
  "'sig deps \<Rightarrow> guard \<Rightarrow> tenant_id \<Rightarrow> string \<Rightarrow> subject \<Rightarrow> approval_request \<Rightarrow> (action, rerr) res \<times> guard" where
  "Approve d g tid aid who req =
     (case get_action g tid aid of
        Inl e \<Rightarrow> (Fail e, g)
      | Inr a \<Rightarrow>
          (let now = d_now d 0 in
           if a_State a = ActionProposed \<and> \<not> a_CreatedAt a + gc_ProposalTTL (g_cfg g) > now then
             (let a' = a\<lparr>a_State := ActionExpired, a_UpdatedAt := now\<rparr>
              in (FailWith a' (Plain ErrActionExpired),
                  audit d 1 tid (sub_ID who) ''action_expired_proposal_ttl'' (id_payload aid) (put aid a' g)))
           else if a_State a \<noteq> ActionProposed then (Fail (illegal ''Approve'' (a_State a)), g)
           else if \<not> sepOfDuty d (a_ProposedBy a) (sub_ID who) then
             (Fail (Plain ErrApproverMustDiffer),
              audit d 1 tid (sub_ID who) ''approve_refused_approver_must_differ'' (id_payload aid) g)
           else case get_policy d g tid of
             Inl e \<Rightarrow> (Fail e, g)
           | Inr pol \<Rightarrow> approve_budget d g tid aid who req pol a))"

definition Reject ::
  "'sig deps \<Rightarrow> guard \<Rightarrow> tenant_id \<Rightarrow> string \<Rightarrow> subject \<Rightarrow> string \<Rightarrow> (action, rerr) res \<times> guard" where
  "Reject d g tid aid who reason =
     (case get_action g tid aid of
        Inl e \<Rightarrow> (Fail e, g)
      | Inr a \<Rightarrow>
          if a_State a \<noteq> ActionProposed \<and> a_State a \<noteq> ActionApproved
          then (Fail (illegal ''Reject'' (a_State a)), g)
          else
            (let a' = a\<lparr>a_State := ActionRejected, a_StateReason := reason, a_UpdatedAt := d_now d 0\<rparr>
             in (Ret a', audit d 1 tid (sub_ID who) ''action_rejected'' (id_reason_payload aid reason)
                          (put aid a' g))))"

section \<open>Execute\<close>

definition failed :: "string \<Rightarrow> gotime \<Rightarrow> action \<Rightarrow> action" where
  "failed reason now a = a\<lparr>a_State := ActionFailed, a_StateReason := reason, a_UpdatedAt := now\<rparr>"

definition exec_request :: "action \<Rightarrow> verb \<Rightarrow> json option \<Rightarrow> k8s_request" where
  "exec_request a v stdin =
     \<lparr>rq_Verb = v, rq_Namespace = tg_Namespace (p_Target (a_Proposal a)),
      rq_Kind = tg_Kind (p_Target (a_Proposal a)), rq_Name = tg_Name (p_Target (a_Proposal a)),
      rq_Argv = [], rq_StdinJSON = stdin, rq_DryRun = (a_ExecutorKind a = ''dryrun''), rq_Timeout = 0\<rparr>"

text \<open>The executor call and what follows it (clock readings from the second on).\<close>

definition exec_do ::
  "'sig deps \<Rightarrow> guard \<Rightarrow> tenant_id \<Rightarrow> string \<Rightarrow> subject \<Rightarrow> string \<Rightarrow> action \<Rightarrow> executor \<Rightarrow> verb \<Rightarrow> json option
    \<Rightarrow> (action, rerr) res \<times> guard" where
  "exec_do d g tid aid who idem a exec v stdin =
     (let req = exec_request a v stdin;
          g1 = g\<lparr>g_calls := g_calls g @ [(a_ExecutorKind a, req)]\<rparr>;
          a1 = a\<lparr>a_ExecutedAt := d_now d 2,
                 a_VerifyDeadline := d_now d 2 + gc_VerifyWindow (g_cfg g)\<rparr>
      in case exec req of
           Inl t \<Rightarrow>
             (let a2 = failed t (d_now d 3) a1;
                  g2 = audit d 4 tid (sub_ID who) ''action_failed'' (id_reason_payload aid t) (put aid a2 g1)
              in (FailWith a2 (Other t), storeIdempotency tid ''execute'' idem (id_hash d aid) a2 g2))
         | Inr r \<Rightarrow>
             (let a2 = a1\<lparr>a_State := ActionVerifying, a_DryRunOutput := rs_Stdout r,
                           a_UpdatedAt := d_now d 3\<rparr>;
                  g2 = audit d 4 tid (sub_ID who) ''action_verifying'' (id_payload aid) (put aid a2 g1)
              in (Ret a2, storeIdempotency tid ''execute'' idem (id_hash d aid) a2 g2)))"

text \<open>From the transition to Executing to the executor call.\<close>

definition exec_run ::
  "'sig deps \<Rightarrow> guard \<Rightarrow> tenant_id \<Rightarrow> string \<Rightarrow> subject \<Rightarrow> string \<Rightarrow> action \<Rightarrow> (action, rerr) res \<times> guard" where
  "exec_run d g tid aid who idem a =
     (let a1 = a\<lparr>a_State := ActionExecuting, a_UpdatedAt := d_now d 0\<rparr>;
          g1 = audit d 1 tid (sub_ID who) ''action_executing''
                 (JObj [(''action_id'', JStr aid), (''executor'', JStr (a_ExecutorKind a))]) (put aid a1 g)
      in case d_executors d (a_ExecutorKind a1) of
           None \<Rightarrow>
             (let a2 = failed ''unknown_executor'' (d_now d 2) a1
              in (FailWith a2 (Plain ErrUnknownExecutor), put aid a2 g1))
         | Some exec \<Rightarrow>
         (case verbForAction (p_Type (a_Proposal a1)) of
            Inl verr \<Rightarrow>
              (let a2 = failed (err_text verr) (d_now d 2) a1
               in (FailWith a2 verr, put aid a2 g1))
          | Inr v \<Rightarrow>
         (case stdinPayload a1 of
            Inl serr \<Rightarrow>
              (let a2 = failed (err_text serr) (d_now d 2) a1
               in (FailWith a2 serr,
                   audit d 3 tid (sub_ID who) ''action_failed'' (id_reason_payload aid (err_text serr))
                     (put aid a2 g1)))
          | Inr stdin \<Rightarrow>
         (case checkPayloadScope (a_Proposal a1) stdin of
            Some scopeErr \<Rightarrow>
              (let a2 = failed (err_text scopeErr) (d_now d 2) a1
               in (FailWith a2 scopeErr,
                   audit d 3 tid (sub_ID who) ''action_failed_payload_out_of_scope'' (id_payload aid)
                     (put aid a2 g1)))
          | None \<Rightarrow> exec_do d g1 tid aid who idem a1 exec v stdin))))"

definition exec_snapshot ::
  "'sig deps \<Rightarrow> guard \<Rightarrow> tenant_id \<Rightarrow> string \<Rightarrow> subject \<Rightarrow> string \<Rightarrow> action \<Rightarrow> (action, rerr) res \<times> guard" where
  "exec_snapshot d g tid aid who idem a =
     (case d_snapshot d of
        None \<Rightarrow> exec_run d g tid aid who idem a
      | Some f \<Rightarrow>
          (case f tid (p_Target (a_Proposal a)) of
             Inl t \<Rightarrow>
               (let a' = a\<lparr>a_UpdatedAt := d_now d 0\<rparr>
                in (FailWith a' (Other (''remediate: snapshot_failed: '' @ t)),
                    audit d 1 tid (sub_ID who) ''snapshot_failed''
                      (JObj [(''action_id'', JStr aid), (''error'', JStr t)]) (put aid a' g)))
           | Inr snap \<Rightarrow> exec_run d g tid aid who idem (a\<lparr>a_PreSnapshot := snap\<rparr>)))"

text \<open>The second allowlist check, skipped when the policy store fails.\<close>

definition exec_allow ::
  "'sig deps \<Rightarrow> guard \<Rightarrow> tenant_id \<Rightarrow> string \<Rightarrow> subject \<Rightarrow> string \<Rightarrow> action \<Rightarrow> (action, rerr) res \<times> guard" where
  "exec_allow d g tid aid who idem a =
     (case get_policy d g tid of
        Inl perr \<Rightarrow> exec_snapshot d g tid aid who idem a
      | Inr pol \<Rightarrow>
          (case checkAllowlists (a_Proposal a) pol of
             Some e \<Rightarrow>
               (let a' = failed ''allowlist_revoked'' (d_now d 0) a
                in (FailWith a' e,
                    audit d 1 tid (sub_ID who) ''execute_failed_allowlist_revoked'' (id_payload aid)
                      (put aid a' g)))
           | None \<Rightarrow> exec_snapshot d g tid aid who idem a))"

definition set_target :: "action_target \<Rightarrow> action \<Rightarrow> action" where
  "set_target t a = a\<lparr>a_Proposal := (a_Proposal a)\<lparr>p_Target := t\<rparr>\<rparr>"

definition exec_resolve ::
  "'sig deps \<Rightarrow> guard \<Rightarrow> tenant_id \<Rightarrow> string \<Rightarrow> subject \<Rightarrow> string \<Rightarrow> action \<Rightarrow> (action, rerr) res \<times> guard" where
  "exec_resolve d g tid aid who idem a =
     (case d_resolver d of
        None \<Rightarrow> exec_allow d g tid aid who idem a
      | Some f \<Rightarrow>
          (case f tid (p_Target (a_Proposal a)) of
             Inl t \<Rightarrow>
               (let a' = failed ''target_not_resolvable'' (d_now d 0) a
                in (FailWith a' (Wrapped ErrTargetNotResolvable t),
                    audit d 1 tid (sub_ID who) ''execute_failed_target_not_resolvable'' (id_payload aid)
                      (put aid a' g)))
           | Inr reresolved \<Rightarrow>
               if tg_ResolvedUID (p_Target (a_Proposal a)) \<noteq> []
                  \<and> tg_ResolvedUID reresolved \<noteq> tg_ResolvedUID (p_Target (a_Proposal a)) then
                 (let a' = failed ''target_replaced'' (d_now d 0) a
                  in (FailWith a' (Plain ErrTargetReplaced),
                      audit d 1 tid (sub_ID who) ''execute_failed_target_replaced'' (id_payload aid)
                        (put aid a' g)))
               else exec_allow d g tid aid who idem (set_target reresolved a)))"

definition Execute ::
  "'sig deps \<Rightarrow> guard \<Rightarrow> tenant_id \<Rightarrow> string \<Rightarrow> subject \<Rightarrow> string \<Rightarrow> (action, rerr) res \<times> guard" where
  "Execute d g tid aid who idem =
     (case get_action g tid aid of
        Inl e \<Rightarrow> (Fail e, g)
      | Inr a \<Rightarrow>
     (case checkIdempotency g tid ''execute'' idem (id_hash d aid) of
        Inl e \<Rightarrow> (Fail e, g)
      | Inr (Some cached) \<Rightarrow> (Ret cached, g)
      | Inr None \<Rightarrow>
          (let now = d_now d 0 in
           if a_State a = ActionApproved \<and> \<not> a_ExpiresAt a > now then
             (let a' = a\<lparr>a_State := ActionExpired, a_UpdatedAt := now\<rparr>
              in (FailWith a' (Plain ErrActionExpired),
                  audit d 1 tid (sub_ID who) ''action_expired_approval_ttl'' (id_payload aid) (put aid a' g)))
           else if a_State a \<noteq> ActionApproved then (Fail (illegal ''Execute'' (a_State a)), g)
           else exec_resolve d g tid aid who idem a)))"

section \<open>Verify and Rollback\<close>

definition verify_outcome :: "'sig deps \<Rightarrow> tenant_id \<Rightarrow> action \<Rightarrow> verify_result" where
  "verify_outcome d tid a =
     (case (d_signals d, d_verifier d) of
        (Some sg, Some vf) \<Rightarrow>
          (case sg tid a of
             Inl serr \<Rightarrow> no_verify
           | Inr sig \<Rightarrow> fst (vf tid a sig))
      | _ \<Rightarrow> \<lparr>vr_Verified = True, vr_Message = ''no verifier configured; default success'',
             vr_VerifiedAt = d_now d 0\<rparr>)"

definition Verify ::
  "'sig deps \<Rightarrow> guard \<Rightarrow> tenant_id \<Rightarrow> string \<Rightarrow> (verify_result, rerr) res \<times> guard" where
  "Verify d g tid aid =
     (case get_action g tid aid of
        Inl e \<Rightarrow> (Fail e, g)
      | Inr a \<Rightarrow>
          if a_State a \<noteq> ActionVerifying then (Fail (illegal ''Verify'' (a_State a)), g)
          else
            (let r = verify_outcome d tid a;
                 a1 = a\<lparr>a_PostVerify := r, a_Verified := vr_Verified r\<rparr>;
                 a2 = (if vr_Verified r then a1\<lparr>a_State := ActionSucceeded\<rparr>
                       else a1\<lparr>a_State := ActionFailed, a_StateReason := ''verify_failed''\<rparr>);
                 a3 = a2\<lparr>a_UpdatedAt := d_now d 1\<rparr>
             in (Ret r,
                 audit d 2 tid ''system'' ''action_verified''
                   (JObj [(''action_id'', JStr aid), (''verified'', JBool (vr_Verified r))])
                   (put aid a3 g))))"

definition rollback_conflict :: "'sig deps \<Rightarrow> tenant_id \<Rightarrow> action \<Rightarrow> bool" where
  "rollback_conflict d tid a =
     (case d_resolver d of
        None \<Rightarrow> False
      | Some f \<Rightarrow>
          (case f tid (p_Target (a_Proposal a)) of
             Inl rerr \<Rightarrow> False
           | Inr live \<Rightarrow> sn_ResourceVersion (a_PreSnapshot a) \<noteq> []
                \<and> tg_ResolvedVersion live \<noteq> sn_ResourceVersion (a_PreSnapshot a)))"

definition Rollback ::
  "'sig deps \<Rightarrow> guard \<Rightarrow> tenant_id \<Rightarrow> string \<Rightarrow> subject \<Rightarrow> string \<Rightarrow> (action, rerr) res \<times> guard" where
  "Rollback d g tid aid who reason =
     (case get_action g tid aid of
        Inl e \<Rightarrow> (Fail e, g)
      | Inr a \<Rightarrow>
          if a_State a \<noteq> ActionVerifying \<and> a_State a \<noteq> ActionFailed
          then (Fail (illegal ''Rollback'' (a_State a)), g)
          else if rollback_conflict d tid a then
            (let a' = failed ''concurrent_modification'' (d_now d 0) a
             in (FailWith a' (Other ''remediate: rollback_refused_concurrent_modification''),
                 audit d 1 tid (sub_ID who) ''rollback_refused_concurrent_modification'' (id_payload aid)
                   (put aid a' g)))
          else
            (let a' = a\<lparr>a_State := ActionRolledBack, a_StateReason := reason, a_UpdatedAt := d_now d 0\<rparr>
             in (Ret a', audit d 1 tid (sub_ID who) ''action_rolled_back'' (id_reason_payload aid reason)
                          (put aid a' g))))"

section \<open>Get, List, ExpireDue, Stats\<close>

definition Get :: "guard \<Rightarrow> tenant_id \<Rightarrow> string \<Rightarrow> (action, rerr) res" where
  "Get g tid aid = (case get_action g tid aid of Inl e \<Rightarrow> Fail e | Inr a \<Rightarrow> Ret a)"

definition matches_action :: "tenant_id \<Rightarrow> action_filter \<Rightarrow> action \<Rightarrow> bool" where
  "matches_action tid f a =
     (a_Tenant a = tid
      \<and> (af_IncidentID f = [] \<or> a_IncidentID a = af_IncidentID f)
      \<and> (af_States f = [] \<or> list_ex (\<lambda>s. a_State a = s) (af_States f)))"

definition List_actions :: "guard \<Rightarrow> tenant_id \<Rightarrow> action_filter \<Rightarrow> action list" where
  "List_actions g tid f = filter (matches_action tid f) (map snd (g_actions g))"

definition due :: "guard_cfg \<Rightarrow> gotime \<Rightarrow> action \<Rightarrow> bool" where
  "due c now a =
     (case a_State a of
        ActionProposed \<Rightarrow> \<not> a_CreatedAt a + gc_ProposalTTL c > now
      | ActionApproved \<Rightarrow> a_ExpiresAt a \<noteq> 0 \<and> \<not> a_ExpiresAt a > now
      | _ \<Rightarrow> False)"

definition expire_row :: "guard_cfg \<Rightarrow> gotime \<Rightarrow> action \<Rightarrow> action" where
  "expire_row c now a =
     (if due c now a then a\<lparr>a_State := ActionExpired, a_UpdatedAt := now\<rparr> else a)"

definition ExpireDue :: "guard \<Rightarrow> gotime \<Rightarrow> nat \<times> guard" where
  "ExpireDue g now =
     (count_rows (due (g_cfg g) now) (g_actions g),
      g\<lparr>g_actions := map (\<lambda>(k, a). (k, expire_row (g_cfg g) now a)) (g_actions g)\<rparr>)"

definition Stats :: "guard \<Rightarrow> action_state \<Rightarrow> nat" where
  "Stats g s = count_rows (\<lambda>a. a_State a = s) (g_actions g)"

end
