(* ===== verification/GuardMoves.thy ===== *)
theory GuardMoves
  imports Guard
begin

text \<open>
  The abstract life cycle of a remediation action and the refinement of the Guard's methods to it:
  every method either leaves the action table alone, adds one proposed action, or moves one
  action along one edge of the life cycle, keeping everything that must not change.
\<close>

section \<open>The life cycle\<close>

text \<open>The edges of one Guard call.  Executing is entered and left within \<open>Execute\<close>.\<close>

fun edge :: "action_state \<Rightarrow> action_state \<Rightarrow> bool" where
  "edge ActionProposed t = (t = ActionApproved \<or> t = ActionRejected \<or> t = ActionExpired)"
| "edge ActionApproved t =
     (t = ActionApproved \<or> t = ActionRejected \<or> t = ActionExpired \<or> t = ActionFailed
      \<or> t = ActionVerifying)"
| "edge ActionVerifying t = (t = ActionSucceeded \<or> t = ActionFailed \<or> t = ActionRolledBack)"
| "edge ActionFailed t = (t = ActionFailed \<or> t = ActionRolledBack)"
| "edge s t = False"

definition terminal :: "action_state \<Rightarrow> bool" where
  "terminal s = (s = ActionRejected \<or> s = ActionExpired \<or> s = ActionSucceeded \<or> s = ActionRolledBack)"

lemma terminal_no_edge: "terminal s \<longleftrightarrow> (s \<noteq> ActionExecuting \<and> (\<forall>t. \<not> edge s t))"
  by (cases s) (auto simp: terminal_def)

text \<open>What no call changes: identity, origin and the typed content of the proposal.\<close>

definition core :: "action \<Rightarrow> action \<Rightarrow> bool" where
  "core a a' =
     (a_ID a' = a_ID a \<and> a_Tenant a' = a_Tenant a \<and> a_IncidentID a' = a_IncidentID a
      \<and> a_ProposedBy a' = a_ProposedBy a \<and> a_CreatedAt a' = a_CreatedAt a
      \<and> a_ExecutorKind a' = a_ExecutorKind a \<and> a_BudgetIndex a' = a_BudgetIndex a
      \<and> (\<exists>t. a_Proposal a' = (a_Proposal a)\<lparr>p_Target := t\<rparr>))"

text \<open>What only an approval changes.\<close>

definition frame :: "action \<Rightarrow> action \<Rightarrow> bool" where
  "frame a a' =
     (core a a' \<and> a_ApprovedBy a' = a_ApprovedBy a \<and> a_ApprovedAt a' = a_ApprovedAt a
      \<and> a_ExpiresAt a' = a_ExpiresAt a \<and> a_AutoExecute a' = a_AutoExecute a
      \<and> a_OverrideUsed a' = a_OverrideUsed a
      \<and> a_OverrideJustification a' = a_OverrideJustification a)"

inductive moves :: "'sig deps \<Rightarrow> guard_cfg \<Rightarrow> action \<Rightarrow> action \<Rightarrow> bool" for d c where
  move_edge: "frame a a' \<Longrightarrow> edge (a_State a) (a_State a') \<Longrightarrow> a_State a' \<noteq> ActionApproved \<or> a_State a = ActionApproved
    \<Longrightarrow> (a_State a' = ActionSucceeded \<Longrightarrow> a_Verified a') \<Longrightarrow> moves d c a a'"
| move_approve: "core a a' \<Longrightarrow> a_State a = ActionProposed \<Longrightarrow> a_State a' = ActionApproved
    \<Longrightarrow> d_now d 0 < a_CreatedAt a + gc_ProposalTTL c
    \<Longrightarrow> sepOfDuty d (a_ProposedBy a) (a_ApprovedBy a')
    \<Longrightarrow> a_ExpiresAt a' = d_now d 0 + gc_ApprovalTTL c
    \<Longrightarrow> (p_RiskTier (a_Proposal a) = 3 \<Longrightarrow> \<not> a_AutoExecute a')
    \<Longrightarrow> (a_OverrideUsed a' \<Longrightarrow> a_OverrideUsed a \<or> 40 \<le> length (a_OverrideJustification a'))
    \<Longrightarrow> (\<not> a_OverrideUsed a' \<Longrightarrow> a_OverrideJustification a' = a_OverrideJustification a)
    \<Longrightarrow> moves d c a a'"

inductive_cases movesE: "moves d c a a'"

lemma same_target [simp]: "\<exists>t. p = p\<lparr>p_Target := t\<rparr>"
  by (rule exI [of _ "p_Target p"]) simp

lemma same_target' [simp]: "\<exists>t. p\<lparr>p_Target := u\<rparr> = p\<lparr>p_Target := t\<rparr>"
  by auto

lemma core_refl [simp]: "core a a"
  by (simp add: core_def)

lemma core_trans: "core a b \<Longrightarrow> core b c \<Longrightarrow> core a c"
  by (auto simp: core_def)

lemma frame_refl [simp]: "frame a a"
  by (simp add: frame_def)

lemma frame_trans: "frame a b \<Longrightarrow> frame b c \<Longrightarrow> frame a c"
  by (auto simp: frame_def intro: core_trans)

lemma frame_updates [simp]:
  "frame a (b\<lparr>a_State := s\<rparr>) = frame a b"
  "frame a (b\<lparr>a_StateReason := r\<rparr>) = frame a b"
  "frame a (b\<lparr>a_UpdatedAt := t\<rparr>) = frame a b"
  "frame a (b\<lparr>a_PreSnapshot := sn\<rparr>) = frame a b"
  "frame a (b\<lparr>a_DryRunOutput := x\<rparr>) = frame a b"
  "frame a (b\<lparr>a_ExecutedAt := t\<rparr>) = frame a b"
  "frame a (b\<lparr>a_VerifyDeadline := t\<rparr>) = frame a b"
  "frame a (b\<lparr>a_PostVerify := v\<rparr>) = frame a b"
  "frame a (b\<lparr>a_Verified := w\<rparr>) = frame a b"
  by (simp_all add: frame_def core_def)

lemma frame_failed [simp]: "frame a (failed r t b) = frame a b"
  by (simp add: failed_def)

lemma frame_set_target [simp]: "frame a (set_target t a)"
  by (simp add: frame_def core_def set_target_def)

lemma failed_State [simp]: "a_State (failed r t a) = ActionFailed"
  by (simp add: failed_def)

lemma set_target_State [simp]: "a_State (set_target t a) = a_State a"
  by (simp add: set_target_def)

section \<open>What the helpers touch\<close>

lemma put_simps [simp]:
  "g_actions (put aid a g) = AList.update aid a (g_actions g)"
  "g_cfg (put aid a g) = g_cfg g"
  "g_idem (put aid a g) = g_idem g"
  "g_seq (put aid a g) = g_seq g"
  "g_audit (put aid a g) = g_audit g"
  "g_calls (put aid a g) = g_calls g"
  by (simp_all add: put_def)

lemma audit_simps [simp]:
  "g_actions (audit d i tid act s j g) = g_actions g"
  "g_cfg (audit d i tid act s j g) = g_cfg g"
  "g_idem (audit d i tid act s j g) = g_idem g"
  "g_seq (audit d i tid act s j g) = g_seq g"
  "g_calls (audit d i tid act s j g) = g_calls g"
  by (simp_all add: audit_def)

lemma storeIdempotency_simps [simp]:
  "g_actions (storeIdempotency tid ep key h a g) = g_actions g"
  "g_cfg (storeIdempotency tid ep key h a g) = g_cfg g"
  "g_seq (storeIdempotency tid ep key h a g) = g_seq g"
  "g_audit (storeIdempotency tid ep key h a g) = g_audit g"
  "g_calls (storeIdempotency tid ep key h a g) = g_calls g"
  by (simp_all add: storeIdempotency_def)

lemma budgetUsed_cong [simp]:
  "budgetUsed (audit d i tid act s j g) = budgetUsed g"
  by (simp add: budgetUsed_def fun_eq_iff)

lemma get_action_Inr:
  "get_action g tid aid = Inr a \<longleftrightarrow> map_of (g_actions g) aid = Some a \<and> a_Tenant a = tid"
  by (auto simp: get_action_def split: option.splits)

lemma get_action_Inl:
  "get_action g tid aid = Inl e \<longleftrightarrow>
     e = Plain ErrNotFound \<and> (\<forall>a. map_of (g_actions g) aid = Some a \<longrightarrow> a_Tenant a \<noteq> tid)"
  by (auto simp: get_action_def split: option.splits)

section \<open>The effect of an operation on the table\<close>

text \<open>One action of the caller's tenant moved, or nothing changed.\<close>

definition touches ::
  "'sig deps \<Rightarrow> guard \<Rightarrow> tenant_id \<Rightarrow> string \<Rightarrow> guard \<Rightarrow> bool" where
  "touches d g tid aid g' =
     (g_actions g' = g_actions g
      \<or> (\<exists>a a'. map_of (g_actions g) aid = Some a \<and> a_Tenant a = tid \<and> moves d (g_cfg g) a a'
               \<and> g_actions g' = AList.update aid a' (g_actions g)))"

lemma touches_same [simp]: "g_actions g' = g_actions g \<Longrightarrow> touches d g tid aid g'"
  by (simp add: touches_def)

lemma touches_move:
  "get_action g tid aid = Inr a \<Longrightarrow> g_actions g' = AList.update aid a' (g_actions g)
     \<Longrightarrow> moves d (g_cfg g) a a' \<Longrightarrow> touches d g tid aid g'"
  by (auto simp: touches_def get_action_Inr)

lemma approve_finish_actions:
  "g_actions (snd (approve_finish d g tid aid who pol a i))
     = AList.update aid (approved d (g_cfg g) pol who a) (g_actions g)"
  by (simp add: approve_finish_def Let_def)

lemma approved_moves:
  assumes "a_State a = ActionProposed" and "d_now d 0 < a_CreatedAt a + gc_ProposalTTL (g_cfg g)"
    and "sepOfDuty d (a_ProposedBy a) (sub_ID who)"
  shows "moves d (g_cfg g) a (approved d (g_cfg g) pol who a)"
  using assms by (intro move_approve) (auto simp: core_def approved_def Let_def)

lemma approved_override_moves:
  assumes "a_State a = ActionProposed" and "d_now d 0 < a_CreatedAt a + gc_ProposalTTL (g_cfg g)"
    and "sepOfDuty d (a_ProposedBy a) (sub_ID who)" and "40 \<le> length (ar_OverrideJustification req)"
  shows "moves d (g_cfg g) a (approved d (g_cfg g) pol who (with_override d who req a))"
  using assms by (intro move_approve) (auto simp: core_def approved_def with_override_def Let_def)

lemma approve_finish_touches:
  assumes "get_action g tid aid = Inr a" and "moves d (g_cfg g) a (approved d (g_cfg g) pol who b)"
    and "g_actions g' = g_actions g \<or> (\<exists>c. g_actions g' = AList.update aid c (g_actions g))"
    and "g_cfg g' = g_cfg g"
  shows "touches d g tid aid (snd (approve_finish d g' tid aid who pol b i))"
  using assms by (intro touches_move [OF assms(1) _ assms(2)]) (auto simp: approve_finish_actions)

lemma approve_budget_touches:
  assumes "get_action g tid aid = Inr a" and "a_State a = ActionProposed"
    and "d_now d 0 < a_CreatedAt a + gc_ProposalTTL (g_cfg g)"
    and "sepOfDuty d (a_ProposedBy a) (sub_ID who)"
  shows "touches d g tid aid (snd (approve_budget d g tid aid who req pol a))"
proof (cases "ar_RequestBudgetOverride req")
  case True
  show ?thesis
    using True approved_override_moves [OF assms(2-4)]
    by (auto simp: approve_budget_def Let_def intro!: approve_finish_touches [OF assms(1)])
next
  case False
  show ?thesis
  proof (cases "budgetUsed g tid (a_IncidentID a) > budget_cap g pol")
    case True
    with False assms show ?thesis
      by (auto simp: approve_budget_def Let_def intro!: touches_move [OF assms(1)] move_edge)
  next
    case ok: False
    with False approved_moves [OF assms(2-4)] show ?thesis
      by (auto simp: approve_budget_def Let_def intro!: approve_finish_touches [OF assms(1)])
  qed
qed

lemma Approve_touches: "touches d g tid aid (snd (Approve d g tid aid who req))"
proof (cases "get_action g tid aid")
  case (Inl e)
  then show ?thesis by (auto simp: Approve_def)
next
  case (Inr a)
  let ?due = "a_State a = ActionProposed \<and> \<not> a_CreatedAt a + gc_ProposalTTL (g_cfg g) > d_now d 0"
  show ?thesis
  proof (cases "?due \<or> a_State a \<noteq> ActionProposed \<or> \<not> sepOfDuty d (a_ProposedBy a) (sub_ID who)")
    case True
    with Inr show ?thesis
      by (auto simp: Approve_def Let_def intro!: touches_move [OF Inr] move_edge)
  next
    case False
    then have st: "a_State a = ActionProposed" "d_now d 0 < a_CreatedAt a + gc_ProposalTTL (g_cfg g)"
      "sepOfDuty d (a_ProposedBy a) (sub_ID who)" by auto
    show ?thesis
    proof (cases "get_policy d g tid")
      case (Inl e)
      with Inr st show ?thesis by (auto simp: Approve_def Let_def)
    next
      case pol: (Inr pol)
      have "touches d g tid aid (snd (approve_budget d g tid aid who req pol a))"
        using Inr st by (rule approve_budget_touches)
      with Inr st pol show ?thesis by (simp add: Approve_def Let_def)
    qed
  qed
qed

lemma Reject_touches: "touches d g tid aid (snd (Reject d g tid aid who reason))"
proof (cases "get_action g tid aid")
  case (Inl e)
  then show ?thesis by (auto simp: Reject_def)
next
  case (Inr a)
  show ?thesis
    by (cases "a_State a")
      (auto simp: Reject_def Inr Let_def intro!: touches_move [OF Inr] move_edge)
qed

lemma Verify_touches: "touches d g tid aid (snd (Verify d g tid aid))"
proof (cases "get_action g tid aid")
  case (Inl e)
  then show ?thesis by (auto simp: Verify_def)
next
  case (Inr a)
  show ?thesis
    by (auto simp: Verify_def Inr Let_def intro!: touches_move [OF Inr] move_edge)
qed

lemma Rollback_touches: "touches d g tid aid (snd (Rollback d g tid aid who reason))"
proof (cases "get_action g tid aid")
  case (Inl e)
  then show ?thesis by (auto simp: Rollback_def)
next
  case (Inr a)
  show ?thesis
    by (cases "a_State a")
      (auto simp: Rollback_def Inr Let_def intro!: touches_move [OF Inr] move_edge)
qed

text \<open>Where the stages of \<open>Execute\<close> leave the row of an approved action.\<close>

definition lands :: "guard \<Rightarrow> string \<Rightarrow> action \<Rightarrow> guard \<Rightarrow> bool" where
  "lands g aid a g' =
     (\<exists>a'. g_actions g' = AList.update aid a' (g_actions g) \<and> frame a a'
           \<and> (a_State a' = ActionApproved \<and> a_State a = ActionApproved
              \<or> a_State a' = ActionFailed \<or> a_State a' = ActionVerifying))"

lemma lands_frame: "frame a b \<Longrightarrow> a_State a = a_State b \<Longrightarrow> lands g aid b g' \<Longrightarrow> lands g aid a g'"
  by (auto simp: lands_def intro: frame_trans)

lemma lands_put:
  "g_actions g' = AList.update aid a' (g_actions g) \<Longrightarrow> frame a a'
     \<Longrightarrow> a_State a' = ActionFailed \<or> a_State a' = ActionVerifying \<Longrightarrow> lands g aid a g'"
  by (auto simp: lands_def)

lemma exec_do_lands:
  "g_actions g1 = AList.update aid b (g_actions g) \<Longrightarrow> frame a a1
     \<Longrightarrow> lands g aid a (snd (exec_do d g1 tid aid who idem a1 exec v stdin))"
  unfolding exec_do_def Let_def
  by (auto intro!: lands_put split: sum.split)

lemma exec_run_lands: "lands g aid a (snd (exec_run d g tid aid who idem a))"
  unfolding exec_run_def Let_def
  by (auto intro!: exec_do_lands lands_put split: option.split sum.split)

lemma exec_snapshot_lands:
  assumes "a_State a = ActionApproved"
  shows "lands g aid a (snd (exec_snapshot d g tid aid who idem a))"
proof (cases "d_snapshot d")
  case None
  then show ?thesis by (simp add: exec_snapshot_def exec_run_lands)
next
  case (Some f)
  show ?thesis
  proof (cases "f tid (p_Target (a_Proposal a))")
    case (Inl t)
    with Some assms show ?thesis
      by (auto simp: exec_snapshot_def Let_def lands_def)
  next
    case (Inr sn)
    have "lands g aid a (snd (exec_run d g tid aid who idem (a\<lparr>a_PreSnapshot := sn\<rparr>)))"
      by (rule lands_frame [OF _ _ exec_run_lands]) simp_all
    with Some Inr show ?thesis by (simp add: exec_snapshot_def)
  qed
qed

lemma exec_allow_lands:
  assumes "a_State a = ActionApproved"
  shows "lands g aid a (snd (exec_allow d g tid aid who idem a))"
proof (cases "get_policy d g tid")
  case (Inl e)
  with assms show ?thesis by (simp add: exec_allow_def exec_snapshot_lands)
next
  case (Inr pol)
  show ?thesis
  proof (cases "checkAllowlists (a_Proposal a) pol")
    case None
    with Inr assms show ?thesis by (simp add: exec_allow_def exec_snapshot_lands)
  next
    case (Some e)
    with Inr show ?thesis by (auto simp: exec_allow_def Let_def intro!: lands_put)
  qed
qed

lemma exec_resolve_lands:
  assumes "a_State a = ActionApproved"
  shows "lands g aid a (snd (exec_resolve d g tid aid who idem a))"
proof (cases "d_resolver d")
  case None
  with assms show ?thesis by (simp add: exec_resolve_def exec_allow_lands)
next
  case (Some f)
  have "lands g aid a (snd (exec_allow d g tid aid who idem (set_target t a)))" for t
    using assms by (intro lands_frame [OF _ _ exec_allow_lands]) simp_all
  note allow = this
  show ?thesis
  proof (cases "f tid (p_Target (a_Proposal a))")
    case (Inl t)
    with Some show ?thesis by (auto simp: exec_resolve_def Let_def intro!: lands_put)
  next
    case (Inr t)
    show ?thesis
    proof (cases "tg_ResolvedUID (p_Target (a_Proposal a)) \<noteq> []
                  \<and> tg_ResolvedUID t \<noteq> tg_ResolvedUID (p_Target (a_Proposal a))")
      case True
      with Some Inr show ?thesis by (auto simp: exec_resolve_def Let_def intro!: lands_put)
    next
      case False
      with Some Inr allow show ?thesis by (auto simp: exec_resolve_def Let_def)
    qed
  qed
qed

lemma lands_touches:
  assumes "get_action g tid aid = Inr a" and "a_State a = ActionApproved" and "lands g aid a g'"
  shows "touches d g tid aid g'"
proof -
  from assms(3) obtain a' where u: "g_actions g' = AList.update aid a' (g_actions g)" and f: "frame a a'"
    and s: "a_State a' = ActionApproved \<or> a_State a' = ActionFailed \<or> a_State a' = ActionVerifying"
    by (auto simp: lands_def)
  have "moves d (g_cfg g) a a'"
    using f s assms(2) by (intro move_edge) auto
  with assms(1) u show ?thesis by (rule touches_move)
qed

lemma Execute_touches: "touches d g tid aid (snd (Execute d g tid aid who idem))"
proof (cases "get_action g tid aid")
  case (Inl e)
  then show ?thesis by (simp add: Execute_def)
next
  case (Inr a)
  show ?thesis
  proof (cases "a_State a = ActionApproved")
    case True
    have "touches d g tid aid (snd (exec_resolve d g tid aid who idem a))"
      using Inr True exec_resolve_lands [OF True] by (rule lands_touches)
    with Inr True show ?thesis
      by (auto simp: Execute_def Let_def intro!: touches_move [OF Inr] move_edge
          split: sum.split option.split)
  next
    case False
    with Inr show ?thesis
      by (simp add: Execute_def Let_def split: sum.split option.split)
  qed
qed

section \<open>Propose and ExpireDue\<close>

definition adds :: "'sig deps \<Rightarrow> guard \<Rightarrow> tenant_id \<Rightarrow> guard \<Rightarrow> bool" where
  "adds d g tid g' =
     (g_actions g' = g_actions g
      \<or> (\<exists>p a pol who rs. get_policy d g tid = Inr pol \<and> validateProposal p pol = None
           \<and> checkAllowlists (p\<lparr>p_Target := rs\<rparr>) pol = None
           \<and> budgetUsed g tid (p_IncidentID p) < budget_cap g pol
           \<and> a = new_action d g tid (stamped d g who rs p)
           \<and> g_actions g' = AList.update (nextID d (g_seq g)) a (g_actions g)))"

lemma adds_same [simp]: "g_actions g' = g_actions g \<Longrightarrow> adds d g tid g'"
  by (simp add: adds_def)

lemma stamped_simps [simp]:
  "p_ID (stamped d g who rs p) = nextID d (g_seq g)"
  "p_Type (stamped d g who rs p) = p_Type p"
  "p_IncidentID (stamped d g who rs p) = p_IncidentID p"
  "p_RiskTier (stamped d g who rs p) = fst (riskTier (p_Type p))"
  "set_specs (stamped d g who rs p) = set_specs p"
  "p_Rationale (stamped d g who rs p) = p_Rationale p"
  "p_Target (stamped d g who rs p) = rs"
  by (simp_all add: stamped_def set_specs_def)

lemma Propose_adds: "adds d g tid (snd (Propose d g tid p who idem))"
proof -
  have store: "adds d g tid (snd (propose_store d g tid (stamped d g who rs p) who idem))"
    if "get_policy d g tid = Inr pol" "validateProposal p pol = None"
      "checkAllowlists (p\<lparr>p_Target := rs\<rparr>) pol = None"
      "budgetUsed g tid (p_IncidentID p) < budget_cap g pol" for pol rs
    unfolding adds_def propose_store_def Let_def
    by (rule disjI2, rule exI [of _ p]) (use that in \<open>auto simp: new_action_def\<close>)
  show ?thesis
    by (auto simp: Propose_def intro!: store split: sum.split option.split)
qed

lemma expire_row_moves:
  "expire_row c now a = a \<or> (frame a (expire_row c now a)
     \<and> (a_State a = ActionProposed \<or> a_State a = ActionApproved)
     \<and> a_State (expire_row c now a) = ActionExpired)"
  by (auto simp: expire_row_def due_def split: action_state.splits if_splits)

end
