(* ===== verification/GuardProps.thy ===== *)
theory GuardProps
  imports GuardMoves
begin

text \<open>
  The Guard as a state machine: its operations as data, the step relation under an assumption
  \<open>ok\<close> on the collaborators of each call, the invariant of the action table, and what no later
  operation can undo.
\<close>

section \<open>Operations and steps\<close>

datatype guard_op =
    OpPropose tenant_id action_proposal subject string
  | OpApprove tenant_id string subject approval_request
  | OpReject tenant_id string subject string
  | OpExecute tenant_id string subject string
  | OpVerify tenant_id string
  | OpRollback tenant_id string subject string
  | OpExpireDue gotime

fun run_op :: "'sig deps \<Rightarrow> guard \<Rightarrow> guard_op \<Rightarrow> guard" where
  "run_op d g (OpPropose tid p who idem) = snd (Propose d g tid p who idem)"
| "run_op d g (OpApprove tid aid who req) = snd (Approve d g tid aid who req)"
| "run_op d g (OpReject tid aid who reason) = snd (Reject d g tid aid who reason)"
| "run_op d g (OpExecute tid aid who idem) = snd (Execute d g tid aid who idem)"
| "run_op d g (OpVerify tid aid) = snd (Verify d g tid aid)"
| "run_op d g (OpRollback tid aid who reason) = snd (Rollback d g tid aid who reason)"
| "run_op d g (OpExpireDue now) = snd (ExpireDue g now)"

type_synonym 'sig op_guard = "'sig deps \<Rightarrow> guard \<Rightarrow> guard_op \<Rightarrow> bool"

inductive guard_step :: "'sig op_guard \<Rightarrow> guard \<Rightarrow> guard \<Rightarrow> bool" for ok where
  guard_op: "ok d g op \<Longrightarrow> guard_step ok g (run_op d g op)"

inductive_cases guard_stepE: "guard_step ok g g'"

text \<open>What an operation does to the action table, for every operation at once.\<close>

lemma run_op_effect:
  obtains
    (touch) tid aid where "touches d g tid aid (run_op d g op)"
  | (add) tid where "adds d g tid (run_op d g op)" "\<exists>p who idem. op = OpPropose tid p who idem"
  | (expire) now where "op = OpExpireDue now"
      "g_actions (run_op d g op) = map (\<lambda>(k, a). (k, expire_row (g_cfg g) now a)) (g_actions g)"
proof (cases op)
  case OpPropose
  with add [OF _ exI] show ?thesis by (simp add: Propose_adds)
next
  case OpApprove
  then show ?thesis by (intro touch) (simp, rule Approve_touches)
next
  case OpReject
  then show ?thesis by (intro touch) (simp, rule Reject_touches)
next
  case OpExecute
  then show ?thesis by (intro touch) (simp, rule Execute_touches)
next
  case OpVerify
  then show ?thesis by (intro touch) (simp, rule Verify_touches)
next
  case OpRollback
  then show ?thesis by (intro touch) (simp, rule Rollback_touches)
next
  case OpExpireDue
  then show ?thesis by (intro expire) (auto simp: ExpireDue_def)
qed

lemma fst_row [simp]: "fst \<circ> (\<lambda>(k, a). (k, f a)) = fst"
  by auto

lemma keys_expire: "keys (map (\<lambda>(k, a). (k, f a)) xs) = keys xs"
  by (induction xs) auto

lemma map_of_expire: "map_of (map (\<lambda>(k, a). (k, f a)) xs) k = map_option f (map_of xs k)"
  by (induction xs) auto

section \<open>The configuration never changes\<close>

lemma exec_do_cfg: "g_cfg (snd (exec_do d g tid aid who idem a ex v st)) = g_cfg g"
  by (simp add: exec_do_def Let_def split: sum.split)

lemma exec_run_cfg: "g_cfg (snd (exec_run d g tid aid who idem a)) = g_cfg g"
  by (simp add: exec_run_def Let_def exec_do_cfg split: sum.split option.split)

lemma exec_resolve_cfg: "g_cfg (snd (exec_resolve d g tid aid who idem a)) = g_cfg g"
  by (simp add: exec_resolve_def exec_allow_def exec_snapshot_def exec_run_cfg Let_def
      split: sum.split option.split)

lemma run_op_cfg [simp]: "g_cfg (run_op d g op) = g_cfg g"
proof (cases op)
  case OpPropose
  then show ?thesis
    by (simp add: Propose_def propose_store_def Let_def split: sum.split option.split)
next
  case OpApprove
  then show ?thesis
    by (simp add: Approve_def approve_budget_def approve_finish_def Let_def
        split: sum.split option.split)
next
  case OpReject
  then show ?thesis by (simp add: Reject_def Let_def split: sum.split)
next
  case OpExecute
  then show ?thesis
    by (simp add: Execute_def exec_resolve_cfg Let_def split: sum.split option.split)
next
  case OpVerify
  then show ?thesis by (simp add: Verify_def Let_def split: sum.split)
next
  case OpRollback
  then show ?thesis by (simp add: Rollback_def Let_def split: sum.split)
next
  case OpExpireDue
  then show ?thesis by (simp add: ExpireDue_def)
qed

section \<open>The invariant of the table\<close>

definition past_approval :: "action_state \<Rightarrow> bool" where
  "past_approval s = (s = ActionApproved \<or> s = ActionVerifying \<or> s = ActionSucceeded
                      \<or> s = ActionFailed \<or> s = ActionRolledBack)"

text \<open>\<open>S proposer approver\<close> is what the separation-of-duty check of every call guarantees.\<close>

definition row_ok :: "(string \<Rightarrow> string \<Rightarrow> bool) \<Rightarrow> string \<Rightarrow> action \<Rightarrow> bool" where
  "row_ok S k a =
     (a_ID a = k
      \<and> set_specs (a_Proposal a) = [p_Type (a_Proposal a)]
      \<and> riskTier (p_Type (a_Proposal a)) = (p_RiskTier (a_Proposal a), True)
      \<and> length (p_Rationale (a_Proposal a)) \<le> 2000
      \<and> a_State a \<noteq> ActionExecuting
      \<and> (p_RiskTier (a_Proposal a) = 3 \<longrightarrow> \<not> a_AutoExecute a)
      \<and> (a_OverrideUsed a \<longrightarrow> 40 \<le> length (a_OverrideJustification a))
      \<and> (a_State a = ActionSucceeded \<longrightarrow> a_Verified a)
      \<and> (a_State a = ActionProposed \<longrightarrow> \<not> a_AutoExecute a \<and> \<not> a_OverrideUsed a)
      \<and> (past_approval (a_State a) \<longrightarrow> S (a_ProposedBy a) (a_ApprovedBy a)))"

definition guard_inv :: "(string \<Rightarrow> string \<Rightarrow> bool) \<Rightarrow> guard \<Rightarrow> bool" where
  "guard_inv S g =
     (distinct (keys (g_actions g))
      \<and> (\<forall>k a. map_of (g_actions g) k = Some a \<longrightarrow> row_ok S k a))"

definition sod :: "(string \<Rightarrow> string \<Rightarrow> bool) \<Rightarrow> 'sig deps \<Rightarrow> bool" where
  "sod S d = (\<forall>x y. sepOfDuty d x y \<longrightarrow> S x y)"

lemma set_specs_target [simp]: "set_specs (p\<lparr>p_Target := t\<rparr>) = set_specs p"
  by (simp add: set_specs_def)

lemma edge_target: "edge s t \<Longrightarrow> t \<noteq> ActionExecuting \<and> t \<noteq> ActionProposed"
  by (cases s) auto

lemma edge_past:
  "edge s t \<Longrightarrow> t \<noteq> ActionApproved \<or> s = ActionApproved \<Longrightarrow> past_approval t \<Longrightarrow> past_approval s"
  by (cases s) (auto simp: past_approval_def)

lemma core_simps:
  assumes "core a a'"
  shows "a_ID a' = a_ID a" "a_ProposedBy a' = a_ProposedBy a" "a_Tenant a' = a_Tenant a"
    "a_IncidentID a' = a_IncidentID a" "a_CreatedAt a' = a_CreatedAt a"
    "p_Type (a_Proposal a') = p_Type (a_Proposal a)"
    "p_RiskTier (a_Proposal a') = p_RiskTier (a_Proposal a)"
    "p_Rationale (a_Proposal a') = p_Rationale (a_Proposal a)"
    "set_specs (a_Proposal a') = set_specs (a_Proposal a)"
  using assms by (auto simp: core_def)

lemma frame_simps:
  assumes "frame a a'"
  shows "core a a'" "a_ApprovedBy a' = a_ApprovedBy a" "a_ExpiresAt a' = a_ExpiresAt a"
    "a_AutoExecute a' = a_AutoExecute a" "a_OverrideUsed a' = a_OverrideUsed a"
    "a_OverrideJustification a' = a_OverrideJustification a"
  using assms by (auto simp: frame_def)

lemma row_ok_edge:
  assumes r: "row_ok S k a" and f: "frame a a'" and e: "edge (a_State a) (a_State a')"
    and ap: "a_State a' \<noteq> ActionApproved \<or> a_State a = ActionApproved"
    and v: "a_State a' = ActionSucceeded \<longrightarrow> a_Verified a'"
  shows "row_ok S k a'"
proof -
  have "past_approval (a_State a') \<longrightarrow> S (a_ProposedBy a) (a_ApprovedBy a)"
    using r edge_past [OF e ap] by (simp add: row_ok_def)
  with r v edge_target [OF e] show ?thesis
    by (simp add: row_ok_def core_simps [OF frame_simps(1) [OF f]] frame_simps [OF f])
qed

lemma row_ok_approve:
  assumes r: "row_ok S k a" and c: "core a a'" and p: "a_State a = ActionProposed"
    and s: "a_State a' = ActionApproved" and d: "S (a_ProposedBy a) (a_ApprovedBy a')"
    and t: "p_RiskTier (a_Proposal a) = 3 \<longrightarrow> \<not> a_AutoExecute a'"
    and o: "a_OverrideUsed a' \<longrightarrow> a_OverrideUsed a \<or> 40 \<le> length (a_OverrideJustification a')"
  shows "row_ok S k a'"
proof -
  have "a_ID a' = k" using r by (simp add: row_ok_def core_simps [OF c])
  moreover have "set_specs (a_Proposal a') = [p_Type (a_Proposal a')]
      \<and> riskTier (p_Type (a_Proposal a')) = (p_RiskTier (a_Proposal a'), True)
      \<and> length (p_Rationale (a_Proposal a')) \<le> 2000"
    using r by (simp add: row_ok_def core_simps [OF c])
  moreover have "p_RiskTier (a_Proposal a') = 3 \<longrightarrow> \<not> a_AutoExecute a'"
    using t by (simp add: core_simps [OF c])
  moreover have "a_OverrideUsed a' \<longrightarrow> 40 \<le> length (a_OverrideJustification a')"
    using o r p by (simp add: row_ok_def)
  moreover have "S (a_ProposedBy a') (a_ApprovedBy a')"
    using d by (simp add: core_simps [OF c])
  ultimately show ?thesis unfolding row_ok_def s by simp
qed

lemma row_ok_moves:
  assumes r: "row_ok S k a" and sd: "sod S d" and m: "moves d c a a'"
  shows "row_ok S k a'"
  using m
proof cases
  case move_edge
  from move_edge(4) have "a_State a' = ActionSucceeded \<longrightarrow> a_Verified a'" by blast
  with r move_edge(1-3) show ?thesis by (rule row_ok_edge)
next
  case move_approve
  from sd move_approve(5) have "S (a_ProposedBy a) (a_ApprovedBy a')" by (simp add: sod_def)
  moreover from move_approve(7)
  have "p_RiskTier (a_Proposal a) = 3 \<longrightarrow> \<not> a_AutoExecute a'" by (rule impI)
  moreover from move_approve(8)
  have "a_OverrideUsed a' \<longrightarrow> a_OverrideUsed a \<or> 40 \<le> length (a_OverrideJustification a')"
    by (rule impI)
  ultimately show ?thesis by (rule row_ok_approve [OF r move_approve(1-3)])
qed

lemma row_ok_expire:
  assumes "row_ok S k a"
  shows "row_ok S k (expire_row c now a)"
proof (cases "expire_row c now a = a")
  case False
  with expire_row_moves [of c now a] have f: "frame a (expire_row c now a)"
    and s: "a_State a = ActionProposed \<or> a_State a = ActionApproved"
    and e: "a_State (expire_row c now a) = ActionExpired" by auto
  from assms f show ?thesis by (rule row_ok_edge) (use s e in auto)
qed (use assms in simp)

lemma row_ok_new:
  assumes "validateProposal p pol = None"
  shows "row_ok S (nextID d (g_seq g)) (new_action d g tid (stamped d g who rs p))"
proof -
  from assms have "set_specs p = [p_Type p]" "length (p_Rationale p) \<le> 2000" "spec_ok p pol"
    by (simp_all add: validateProposal_None)
  moreover from this(3) have "riskTier (p_Type p) = (fst (riskTier (p_Type p)), True)"
    by (auto simp: spec_ok_def riskTier_def split: action_type.splits)
  ultimately show ?thesis
    by (simp add: row_ok_def new_action_def past_approval_def)
qed

lemma guard_inv_update:
  "guard_inv S g \<Longrightarrow> row_ok S k a \<Longrightarrow> g_actions g' = AList.update k a (g_actions g) \<Longrightarrow> guard_inv S g'"
  by (auto simp: guard_inv_def)

lemma guard_inv_same: "guard_inv S g \<Longrightarrow> g_actions g' = g_actions g \<Longrightarrow> guard_inv S g'"
  by (simp add: guard_inv_def)

lemma guard_inv_run [keeps]:
  assumes "guard_inv S g" and "sod S d"
  shows "guard_inv S (run_op d g op)"
proof (cases rule: run_op_effect [of d g op])
  case (touch tid aid)
  then consider "g_actions (run_op d g op) = g_actions g"
    | a a' where "map_of (g_actions g) aid = Some a" "moves d (g_cfg g) a a'"
        "g_actions (run_op d g op) = AList.update aid a' (g_actions g)"
    unfolding touches_def by blast
  then show ?thesis
  proof cases
    case 1
    with assms(1) show ?thesis by (rule guard_inv_same)
  next
    case (2 a a')
    with assms have "row_ok S aid a'" unfolding guard_inv_def by (blast intro: row_ok_moves)
    with assms(1) 2 show ?thesis by (blast intro: guard_inv_update)
  qed
next
  case (add tid)
  then consider "g_actions (run_op d g op) = g_actions g"
    | p pol who rs where "validateProposal p pol = None"
        "g_actions (run_op d g op) = AList.update (nextID d (g_seq g))
           (new_action d g tid (stamped d g who rs p)) (g_actions g)"
    unfolding adds_def by blast
  then show ?thesis
    using guard_inv_same [OF assms(1)] guard_inv_update [OF assms(1)] row_ok_new by cases blast+
next
  case (expire now)
  with assms show ?thesis
    by (auto simp: guard_inv_def keys_expire map_of_expire row_ok_expire)
qed

lemma guard_inv_init: "guard_inv S (NewGuard c)"
  by (simp add: guard_inv_def NewGuard_def)

interpretation ginv: invariant_system
  "\<lambda>g. g = NewGuard c" "guard_step (\<lambda>d g op. sod S (d :: 'sig deps))" "guard_inv S" for c S
  by unfold_locales (auto simp: guard_inv_init elim!: guard_stepE intro: keeps)

end
