(* ===== verification/GuardOrder.thy ===== *)
theory GuardOrder
  imports GuardProps
begin

text \<open>
  What no later operation can undo: actions keep their identity and only advance along the life
  cycle, idempotency records are never overwritten, and the log of executor calls only grows.  At the end a concrete
  run used by the witnesses: alice proposes to restart a pod, bob approves it and executes it with the dry-run
  executor, and the outcome is verified.
\<close>

definition fresh_id :: "'sig deps \<Rightarrow> guard \<Rightarrow> guard_op \<Rightarrow> bool" where
  "fresh_id d g op =
     (case op of
        OpPropose tid p who idem \<Rightarrow> map_of (g_actions g) (nextID d (g_seq g)) = None
      | _ \<Rightarrow> True)"

definition rows_le :: "guard \<Rightarrow> guard \<Rightarrow> bool" where
  "rows_le g g' =
     (\<forall>k a. map_of (g_actions g) k = Some a \<longrightarrow>
        (\<exists>a'. map_of (g_actions g') k = Some a' \<and> core a a' \<and> edge\<^sup>*\<^sup>* (a_State a) (a_State a')))"

definition idem_le :: "guard \<Rightarrow> guard \<Rightarrow> bool" where
  "idem_le g g' = (\<forall>k r. map_of (g_idem g) k = Some r \<longrightarrow> map_of (g_idem g') k = Some r)"

definition calls_le :: "guard \<Rightarrow> guard \<Rightarrow> bool" where
  "calls_le g g' = (\<exists>cs. g_calls g' = g_calls g @ cs)"

definition guard_le :: "guard \<Rightarrow> guard \<Rightarrow> bool" where
  "guard_le g g' = (rows_le g g' \<and> idem_le g g' \<and> calls_le g g' \<and> g_cfg g' = g_cfg g)"

lemma rows_le_same: "g_actions g' = g_actions g \<Longrightarrow> rows_le g g'"
  by (auto simp: rows_le_def intro: core_refl)

lemma moves_core: "moves d c a a' \<Longrightarrow> core a a' \<and> edge (a_State a) (a_State a')"
  by (cases rule: moves.cases) (auto simp: frame_simps)

lemma rows_le_update:
  assumes "map_of (g_actions g) k = None
             \<or> (\<exists>a. map_of (g_actions g) k = Some a \<and> core a b \<and> edge\<^sup>*\<^sup>* (a_State a) (a_State b))"
    and "g_actions g' = AList.update k b (g_actions g)"
  shows "rows_le g g'"
  using assms by (auto simp: rows_le_def intro: core_refl)

lemma rows_le_run:
  assumes "fresh_id d g op"
  shows "rows_le g (run_op d g op)"
proof (cases rule: run_op_effect [of d g op])
  case (touch tid aid)
  then consider "g_actions (run_op d g op) = g_actions g"
    | a a' where "map_of (g_actions g) aid = Some a" "moves d (g_cfg g) a a'"
        "g_actions (run_op d g op) = AList.update aid a' (g_actions g)"
    unfolding touches_def by blast
  then show ?thesis
    by cases (blast intro: rows_le_same rows_le_update dest: moves_core)+
next
  case (add tid)
  then have "map_of (g_actions g) (nextID d (g_seq g)) = None"
    using assms by (auto simp: fresh_id_def)
  with add(1) show ?thesis
    unfolding adds_def by (blast intro: rows_le_same rows_le_update)
next
  case (expire now)
  have "core a (expire_row (g_cfg g) now a)
        \<and> edge\<^sup>*\<^sup>* (a_State a) (a_State (expire_row (g_cfg g) now a))" for a
    using expire_row_moves [of "g_cfg g" now a] frame_simps(1) [of a "expire_row (g_cfg g) now a"]
    by (auto intro: r_into_rtranclp)
  with expire(2) show ?thesis by (auto simp: rows_le_def map_of_expire)
qed

section \<open>Idempotency records\<close>

lemma idem_le_refl: "g_idem g' = g_idem g \<Longrightarrow> idem_le g g'"
  by (simp add: idem_le_def)

lemma storeIdempotency_idem:
  "map_of (g_idem g) (idem_key tid ep key) = None \<Longrightarrow> g_idem g1 = g_idem g
     \<Longrightarrow> idem_le g (storeIdempotency tid ep key h a g1)"
  by (auto simp: idem_le_def storeIdempotency_def)

lemma checkIdempotency_None:
  "checkIdempotency g tid ep key h = Inr None \<longleftrightarrow>
     key \<noteq> [] \<and> map_of (g_idem g) (idem_key tid ep key) = None"
  by (auto simp: checkIdempotency_def Let_def split: option.splits if_splits)

lemma checkIdempotency_Some:
  "checkIdempotency g tid ep key h = Inr (Some a) \<longleftrightarrow>
     key \<noteq> [] \<and> (\<exists>r. map_of (g_idem g) (idem_key tid ep key) = Some r \<and> ir_hash r = h \<and> ir_action r = a)"
  by (auto simp: checkIdempotency_def Let_def split: option.splits if_splits)

lemma exec_do_idem:
  "map_of (g_idem g) (idem_key tid ''execute'' idem) = None \<Longrightarrow> g_idem g1 = g_idem g
     \<Longrightarrow> idem_le g (snd (exec_do d g1 tid aid who idem a ex v st))"
  by (auto simp: exec_do_def Let_def intro!: storeIdempotency_idem split: sum.split)

lemma exec_run_idem:
  assumes "map_of (g_idem g) (idem_key tid ''execute'' idem) = None"
  shows "idem_le g (snd (exec_run d g tid aid who idem a))"
  using assms
  by (auto simp: exec_run_def Let_def intro: idem_le_refl intro!: exec_do_idem split: sum.split option.split)

lemma exec_resolve_idem:
  assumes "map_of (g_idem g) (idem_key tid ''execute'' idem) = None"
  shows "idem_le g (snd (exec_resolve d g tid aid who idem a))"
proof -
  note run = exec_run_idem [OF assms]
  have snap: "idem_le g (snd (exec_snapshot d g tid aid who idem b))" for b
    by (auto simp: exec_snapshot_def Let_def run intro: idem_le_refl split: sum.split option.split)
  have allow: "idem_le g (snd (exec_allow d g tid aid who idem b))" for b
    by (auto simp: exec_allow_def Let_def snap intro: idem_le_refl split: sum.split option.split)
  show ?thesis
    by (auto simp: exec_resolve_def Let_def allow intro: idem_le_refl split: sum.split option.split)
qed

lemma idem_le_run: "idem_le g (run_op d g op)"
proof (cases op)
  case (OpPropose tid p who idem)
  have store: "idem_le g (snd (propose_store d g tid q who idem))"
    if "map_of (g_idem g) (idem_key tid ''propose'' idem) = None" for q
    using that by (auto simp: propose_store_def Let_def intro!: storeIdempotency_idem)
  show ?thesis
    by (auto simp: OpPropose Propose_def checkIdempotency_None store intro: idem_le_refl
        split: sum.split option.split)
next
  case (OpExecute tid aid who idem)
  show ?thesis
    by (auto simp: OpExecute Execute_def checkIdempotency_None Let_def exec_resolve_idem
        intro: idem_le_refl split: sum.split option.split)
next
  case OpApprove
  then show ?thesis
    by (auto simp: Approve_def approve_budget_def approve_finish_def Let_def intro: idem_le_refl
        split: sum.split option.split)
next
  case OpReject
  then show ?thesis by (auto simp: Reject_def Let_def intro: idem_le_refl split: sum.split)
next
  case OpVerify
  then show ?thesis by (auto simp: Verify_def Let_def intro: idem_le_refl split: sum.split)
next
  case OpRollback
  then show ?thesis by (auto simp: Rollback_def Let_def intro: idem_le_refl split: sum.split)
next
  case OpExpireDue
  then show ?thesis by (auto simp: ExpireDue_def intro: idem_le_refl)
qed

section \<open>Executor calls\<close>

text \<open>
  What an executor call of the stages of \<open>Execute\<close> presupposes, and where it leaves the action.
\<close>

definition one_call :: "'sig deps \<Rightarrow> guard \<Rightarrow> string \<Rightarrow> action \<Rightarrow> guard \<Rightarrow> bool" where
  "one_call d g aid a g' =
     (\<exists>v st b. d_executors d (a_ExecutorKind a) \<noteq> None \<and> verbForAction (p_Type (a_Proposal a)) = Inr v
        \<and> stdinPayload a = Inr st \<and> checkPayloadScope (a_Proposal a) st = None
        \<and> g_calls g' = g_calls g @ [(a_ExecutorKind a, exec_request a v st)]
        \<and> map_of (g_actions g') aid = Some b
        \<and> (a_State b = ActionFailed \<or> a_State b = ActionVerifying))"

lemma exec_do_calls:
  "g_calls (snd (exec_do d g tid aid who idem a ex v st))
     = g_calls g @ [(a_ExecutorKind a, exec_request a v st)]"
  by (simp add: exec_do_def Let_def split: sum.split)

lemma exec_do_state:
  "\<exists>b. map_of (g_actions (snd (exec_do d g tid aid who idem a ex v st))) aid = Some b
       \<and> (a_State b = ActionFailed \<or> a_State b = ActionVerifying)"
  by (simp add: exec_do_def Let_def split: sum.split)

lemma exec_request_executing [simp]:
  "exec_request (a\<lparr>a_State := s, a_UpdatedAt := t\<rparr>) v st = exec_request a v st"
  by (simp add: exec_request_def)

text \<open>What the payload is made of does not change on the way to the executor.\<close>

lemma stdinPayload_executing [simp]: "stdinPayload (a\<lparr>a_State := s, a_UpdatedAt := t\<rparr>) = stdinPayload a"
  by (cases "p_Type (a_Proposal a)") (simp_all add: stdinPayload_def)

lemma stdinPayload_snapshot [simp]: "(stdinPayload (a\<lparr>a_PreSnapshot := sn\<rparr>) = Inr st) = (stdinPayload a = Inr st)"
  by (cases "p_Type (a_Proposal a)") (simp_all add: stdinPayload_def)

lemma exec_run_calls:
  "g_calls (snd (exec_run d g tid aid who idem a)) = g_calls g
     \<or> one_call d g aid a (snd (exec_run d g tid aid who idem a))"
proof -
  let ?a1 = "a\<lparr>a_State := ActionExecuting, a_UpdatedAt := d_now d 0\<rparr>"
  have "one_call d g aid a (snd (exec_do d g1 tid aid who idem ?a1 ex v st))"
    if "d_executors d (a_ExecutorKind a) \<noteq> None" "verbForAction (p_Type (a_Proposal a)) = Inr v" "stdinPayload a = Inr st"
      "checkPayloadScope (a_Proposal a) st = None" "g_calls g1 = g_calls g" for g1 ex v st
    using that exec_do_state [of d g1 tid aid who idem ?a1 ex v st]
    by (auto simp: one_call_def exec_do_calls)
  then show ?thesis
    by (auto simp: exec_run_def Let_def split: sum.split option.split)
qed

definition snapshot_ok :: "'sig deps \<Rightarrow> tenant_id \<Rightarrow> action_target \<Rightarrow> bool" where
  "snapshot_ok d tid t = (case d_snapshot d of None \<Rightarrow> True | Some f \<Rightarrow> (\<exists>sn. f tid t = Inr sn))"

text \<open>The checks between the resolution of the target and the executor call.\<close>

definition cleared :: "'sig deps \<Rightarrow> guard \<Rightarrow> tenant_id \<Rightarrow> action \<Rightarrow> action_target \<Rightarrow> bool" where
  "cleared d g tid a t =
     (resolve_target d tid (p_Target (a_Proposal a)) = Inr t
      \<and> (tg_ResolvedUID (p_Target (a_Proposal a)) = []
         \<or> tg_ResolvedUID t = tg_ResolvedUID (p_Target (a_Proposal a)))
      \<and> (\<forall>pol. get_policy d g tid = Inr pol \<longrightarrow>
           checkAllowlists ((a_Proposal a)\<lparr>p_Target := t\<rparr>) pol = None)
      \<and> snapshot_ok d tid t)"

lemma one_call_snapshot [simp]: "one_call d g aid (a\<lparr>a_PreSnapshot := sn\<rparr>) g' = one_call d g aid a g'"
  by (simp add: one_call_def exec_request_def)

lemma exec_snapshot_calls:
  "g_calls (snd (exec_snapshot d g tid aid who idem a)) = g_calls g
     \<or> (snapshot_ok d tid (p_Target (a_Proposal a))
        \<and> one_call d g aid a (snd (exec_snapshot d g tid aid who idem a)))"
  using exec_run_calls [of d g tid aid who idem a] exec_run_calls [of d g tid aid who idem "a\<lparr>a_PreSnapshot := sn\<rparr>" for sn]
  by (auto simp: exec_snapshot_def snapshot_ok_def Let_def split: sum.splits option.splits)

lemma exec_allow_calls:
  "g_calls (snd (exec_allow d g tid aid who idem a)) = g_calls g
     \<or> ((\<forall>pol. get_policy d g tid = Inr pol \<longrightarrow> checkAllowlists (a_Proposal a) pol = None)
        \<and> snapshot_ok d tid (p_Target (a_Proposal a))
        \<and> one_call d g aid a (snd (exec_allow d g tid aid who idem a)))"
  using exec_snapshot_calls [of d g tid aid who idem a]
  by (auto simp: exec_allow_def Let_def split: sum.splits option.splits)

lemma set_target_self [simp]: "set_target (p_Target (a_Proposal a)) a = a"
  by (simp add: set_target_def)

lemma set_target_Proposal [simp]: "a_Proposal (set_target t a) = (a_Proposal a)\<lparr>p_Target := t\<rparr>"
  by (simp add: set_target_def)

lemma exec_resolve_calls:
  "g_calls (snd (exec_resolve d g tid aid who idem a)) = g_calls g
     \<or> (\<exists>t. cleared d g tid a t
            \<and> one_call d g aid (set_target t a) (snd (exec_resolve d g tid aid who idem a)))"
proof (cases "d_resolver d")
  case None
  then show ?thesis
    using exec_allow_calls [of d g tid aid who idem a]
    by (auto simp: exec_resolve_def resolve_target_def cleared_def
        intro!: exI [of _ "p_Target (a_Proposal a)"])
next
  case (Some f)
  show ?thesis
  proof (cases "f tid (p_Target (a_Proposal a))")
    case (Inl e)
    with Some show ?thesis by (simp add: exec_resolve_def Let_def)
  next
    case (Inr t)
    with Some show ?thesis
      using exec_allow_calls [of d g tid aid who idem "set_target t a"]
      by (auto simp: exec_resolve_def Let_def resolve_target_def cleared_def)
  qed
qed

lemma Execute_calls:
  assumes "g_calls (snd (Execute d g tid aid who idem)) \<noteq> g_calls g"
  obtains a t where "get_action g tid aid = Inr a" "a_State a = ActionApproved"
    "d_now d 0 < a_ExpiresAt a" "idem \<noteq> []" "map_of (g_idem g) (idem_key tid ''execute'' idem) = None"
    "cleared d g tid a t"
    "one_call d g aid (set_target t a) (snd (Execute d g tid aid who idem))"
proof -
  from assms obtain a where a: "get_action g tid aid = Inr a"
    by (auto simp: Execute_def split: sum.splits)
  with assms have i: "checkIdempotency g tid ''execute'' idem (id_hash d aid) = Inr None"
    by (auto simp: Execute_def split: sum.splits option.splits)
  from assms a i have s: "a_State a = ActionApproved" "d_now d 0 < a_ExpiresAt a"
    by (auto simp: Execute_def Let_def split: if_splits)
  then have e: "Execute d g tid aid who idem = exec_resolve d g tid aid who idem a"
    using a i by (simp add: Execute_def Let_def)
  with assms obtain t where "cleared d g tid a t"
    "one_call d g aid (set_target t a) (snd (Execute d g tid aid who idem))"
    using exec_resolve_calls [of d g tid aid who idem a] by auto
  with a i s that show thesis by (auto simp: checkIdempotency_None)
qed

lemma run_op_calls:
  assumes "\<And>tid aid who idem. op \<noteq> OpExecute tid aid who idem"
  shows "g_calls (run_op d g op) = g_calls g"
proof (cases op)
  case OpPropose
  then show ?thesis
    by (simp add: Propose_def propose_store_def Let_def split: sum.split option.split)
next
  case OpApprove
  then show ?thesis
    by (simp add: Approve_def approve_budget_def approve_finish_def Let_def
        split: sum.split option.split)
next
  case OpExpireDue
  then show ?thesis by (simp add: ExpireDue_def)
qed (use assms in \<open>auto simp: Reject_def Verify_def Rollback_def Let_def split: sum.split\<close>)

lemma calls_le_run: "calls_le g (run_op d g op)"
proof (cases "\<exists>tid aid who idem. op = OpExecute tid aid who idem")
  case True
  then obtain tid aid who idem where op: "op = OpExecute tid aid who idem" by blast
  show ?thesis
  proof (cases "g_calls (snd (Execute d g tid aid who idem)) = g_calls g")
    case True
    with op show ?thesis by (simp add: calls_le_def)
  next
    case False
    then show ?thesis
      by (rule Execute_calls) (auto simp: op one_call_def calls_le_def)
  qed
next
  case False
  then show ?thesis by (simp add: run_op_calls calls_le_def)
qed

section \<open>The order\<close>

lemma rows_le_trans: "rows_le g h \<Longrightarrow> rows_le h i \<Longrightarrow> rows_le g i"
  unfolding rows_le_def by (meson core_trans rtranclp_trans)

lemma guard_le_refl: "guard_le g g"
  by (auto simp: guard_le_def calls_le_def idem_le_def intro: rows_le_same)

lemma guard_le_trans: "guard_le g h \<Longrightarrow> guard_le h i \<Longrightarrow> guard_le g i"
  by (auto simp: guard_le_def calls_le_def idem_le_def intro: rows_le_trans)

lemma guard_le_run: "fresh_id d g op \<Longrightarrow> guard_le g (run_op d g op)"
  by (simp add: guard_le_def rows_le_run idem_le_run calls_le_run)

definition any_sod :: "string \<Rightarrow> string \<Rightarrow> bool" where
  "any_sod x y = True"

interpretation gord: step_order
  "\<lambda>g. g = NewGuard c" "guard_step (fresh_id :: 'sig op_guard)" "guard_inv any_sod" guard_le for c
proof unfold_locales
  show "guard_inv any_sod g" if "g = NewGuard c" for g
    using that by (simp add: guard_inv_init)
  show "guard_inv any_sod h" if "guard_inv any_sod g" "guard_step fresh_id g h" for g h
    using that(2,1) by cases (auto intro!: guard_inv_run simp: sod_def any_sod_def)
  show "guard_le g h" if "guard_step fresh_id g h" for g h
    using that by cases (auto intro: guard_le_run)
qed (auto intro: guard_le_refl guard_le_trans)


definition demo_policy :: policy where
  "demo_policy = \<lparr>pol_RemediationAllowlist = [ActionRestartPod], pol_NamespaceAllowlist = [''prod''],
     pol_TargetAllowlist = [''prod/Pod/w*''], pol_ActionBudgetPerIncident = 1,
     pol_AutoExecuteAllowed = False, pol_FeatureFlags = [], pol_MaxReplicas = 0\<rparr>"

definition demo_deps :: "unit deps" where
  "demo_deps = \<lparr>d_policy = Some (\<lambda>_. Inr demo_policy),
     d_resolver = Some (\<lambda>_ t. Inr (t\<lparr>tg_ResolvedUID := ''u1'', tg_ResolvedVersion := ''v1''\<rparr>)),
     d_snapshot = None, d_signals = None, d_verifier = None, d_authz = None,
     d_executors = default_executors (\<lambda>_. ''ok'') (\<lambda>_. None),
     d_now = (\<lambda>i. 1000 + int i), d_wall_nano = 7, d_sha256 = (\<lambda>s. s),
     d_marshal = (\<lambda>_. ''j''), d_marshal_proposal = p_ID, d_rfc3339 = (\<lambda>_. ''t'')\<rparr>"

definition demo_target :: action_target where
  "demo_target = \<lparr>tg_Cluster = [], tg_Namespace = ''prod'', tg_Kind = KindPod, tg_Name = ''web'',
     tg_ResolvedUID = [], tg_ResolvedVersion = []\<rparr>"

definition demo_proposal :: action_proposal where
  "demo_proposal = \<lparr>p_ID = [], p_Tenant = ''t1'', p_IncidentID = ''inc'', p_InvestigationID = [],
     p_Type = ActionRestartPod, p_Target = demo_target, p_RiskTier = 3, p_Rationale = [],
     p_ProposedBy = [], p_ProposedAt = 0, p_Rollback = None, p_Scale = None, p_Restart = Some 30,
     p_FeatureFlag = None, p_IstioFault = None\<rparr>"

definition demo_cfg :: guard_cfg where
  "demo_cfg = \<lparr>gc_Mode = ''dryrun'', gc_DefaultExecutor = [], gc_ApprovalTTL = 0, gc_ProposalTTL = 0,
     gc_VerifyWindow = 0, gc_AutoExecuteOnApprove = True, gc_DefaultActionBudget = 0,
     gc_MaxBudgetOverrides = 0\<rparr>"

definition alice :: subject where
  "alice = \<lparr>sub_ID = ''alice'', sub_Tenant = ''t1''\<rparr>"

definition bob :: subject where
  "bob = \<lparr>sub_ID = ''bob'', sub_Tenant = ''t1''\<rparr>"

definition no_override :: approval_request where
  "no_override = \<lparr>ar_Comment = [], ar_OverrideJustification = [], ar_RequestBudgetOverride = False\<rparr>"

definition demo_id :: string where
  "demo_id = nextID demo_deps 0"

definition demo_g0 :: guard where
  "demo_g0 = NewGuard demo_cfg"

definition demo_g1 :: guard where
  "demo_g1 = run_op demo_deps demo_g0 (OpPropose ''t1'' demo_proposal alice ''k1'')"

definition demo_g2 :: guard where
  "demo_g2 = run_op demo_deps demo_g1 (OpApprove ''t1'' demo_id bob no_override)"

definition demo_g3 :: guard where
  "demo_g3 = run_op demo_deps demo_g2 (OpExecute ''t1'' demo_id bob ''x1'')"

definition demo_g4 :: guard where
  "demo_g4 = run_op demo_deps demo_g3 (OpVerify ''t1'' demo_id)"

lemma demo_nextID: "nextID demo_deps 0 = demo_id"
  by (simp add: demo_id_def)

lemma demo_valid: "validateProposal demo_proposal demo_policy = None"
  by (simp add: validateProposal_None set_specs_def demo_proposal_def target_ok_def demo_target_def
      dns1123_def lower_alnum_def dns_inner_def spec_ok_def demo_policy_def)

lemma demo_glob: "path_match ''prod/Pod/w*'' ''prod/Pod/web''"
proof -
  have "list_all plain_byte ''prod/Pod/w''" by (simp add: plain_byte_def)
  then show ?thesis using path_match_prefix [of "''prod/Pod/w''" "''prod/Pod/web''"] by simp
qed

lemma demo_allowed:
  "p_Type p = ActionRestartPod \<Longrightarrow> tg_Namespace (p_Target p) = ''prod'' \<Longrightarrow> tg_Kind (p_Target p) = KindPod
     \<Longrightarrow> tg_Name (p_Target p) = ''web'' \<Longrightarrow> checkAllowlists p demo_policy = None"
  using demo_glob by (simp add: checkAllowlists_None demo_policy_def target_path_def kindName_def)

definition demo_resolved :: action_target where
  "demo_resolved = demo_target\<lparr>tg_ResolvedUID := ''u1'', tg_ResolvedVersion := ''v1''\<rparr>"

lemma demo_resolve [simp]:
  "resolve_target demo_deps tid demo_target = Inr demo_resolved"
  "resolve_target demo_deps tid demo_resolved = Inr demo_resolved"
  by (simp_all add: resolve_target_def demo_deps_def demo_resolved_def)

definition demo_action :: action where
  "demo_action = new_action demo_deps demo_g0 ''t1'' (stamped demo_deps demo_g0 alice demo_resolved demo_proposal)"

lemma demo_cfg_defaults:
  "g_cfg demo_g0 = demo_cfg\<lparr>gc_DefaultExecutor := ''dryrun'', gc_ApprovalTTL := 15 * minute,
     gc_ProposalTTL := 60 * minute, gc_VerifyWindow := 10 * minute, gc_DefaultActionBudget := 2,
     gc_MaxBudgetOverrides := 1\<rparr>"
  by (simp add: demo_g0_def NewGuard_def withDefaults_def demo_cfg_def)

lemma demo_g1_result:
  "Propose demo_deps demo_g0 ''t1'' demo_proposal alice ''k1'' = (Ret demo_action, demo_g1)"
  "g_actions demo_g1 = [(demo_id, demo_action)]"
  "map_of (g_idem demo_g1) (idem_key ''t1'' ''execute'' ''x1'') = None"
proof -
  have pol: "get_policy demo_deps demo_g0 tid = Inr demo_policy" for tid
    by (simp add: get_policy_def demo_deps_def)
  have chk: "checkIdempotency demo_g0 ''t1'' ''propose'' ''k1'' h = Inr None" for h
    by (simp add: checkIdempotency_None demo_g0_def NewGuard_def)
  have tgt: "p_Target demo_proposal = demo_target" "p_IncidentID demo_proposal = ''inc''"
    by (simp_all add: demo_proposal_def)
  have alw: "checkAllowlists (demo_proposal\<lparr>p_Target := demo_resolved\<rparr>) demo_policy = None"
    by (rule demo_allowed) (simp_all add: demo_proposal_def demo_resolved_def demo_target_def)
  have bud: "\<not> budgetUsed demo_g0 ''t1'' ''inc'' \<ge> budget_cap demo_g0 demo_policy"
    by (simp add: budgetUsed_def budget_cap_def demo_policy_def demo_g0_def NewGuard_def)
  have e: "Propose demo_deps demo_g0 ''t1'' demo_proposal alice ''k1'' =
      propose_store demo_deps demo_g0 ''t1'' (stamped demo_deps demo_g0 alice demo_resolved demo_proposal) alice ''k1''"
    using bud by (simp add: Propose_def chk pol demo_valid tgt alw)
  then show "Propose demo_deps demo_g0 ''t1'' demo_proposal alice ''k1'' = (Ret demo_action, demo_g1)"
    by (simp add: demo_g1_def propose_store_def Let_def demo_action_def)
  have "g_seq demo_g0 = 0" "g_actions demo_g0 = []"
    by (simp_all add: demo_g0_def NewGuard_def)
  then show "g_actions demo_g1 = [(demo_id, demo_action)]"
    using e by (simp add: demo_g1_def propose_store_def Let_def demo_action_def new_action_def demo_nextID)
  have "g_idem demo_g0 = []" by (simp add: demo_g0_def NewGuard_def)
  with e show "map_of (g_idem demo_g1) (idem_key ''t1'' ''execute'' ''x1'') = None"
    by (simp add: demo_g1_def propose_store_def Let_def storeIdempotency_def idem_key_def)
qed


lemma demo_action_simps [simp]:
  "a_State demo_action = ActionProposed" "a_Tenant demo_action = ''t1''"
  "a_ProposedBy demo_action = ''alice''" "a_IncidentID demo_action = ''inc''"
  "a_CreatedAt demo_action = 1000" "a_ExecutorKind demo_action = ''dryrun''"
  "p_RiskTier (a_Proposal demo_action) = 1" "p_Type (a_Proposal demo_action) = ActionRestartPod"
  "p_Target (a_Proposal demo_action) = demo_resolved"
  by (simp_all add: demo_action_def new_action_def stamped_def demo_deps_def alice_def demo_proposal_def
      riskTier_def demo_cfg_defaults)

definition demo_approved :: action where
  "demo_approved = approved demo_deps (g_cfg demo_g0) demo_policy bob demo_action"

lemma demo_approved_simps [simp]:
  "a_State demo_approved = ActionApproved" "a_Tenant demo_approved = ''t1''"
  "a_ProposedBy demo_approved = ''alice''" "a_ApprovedBy demo_approved = ''bob''"
  "a_IncidentID demo_approved = ''inc''" "a_ExpiresAt demo_approved = 1000 + 15 * minute"
  "a_ExecutorKind demo_approved = ''dryrun''"
  "a_Proposal demo_approved = a_Proposal demo_action"
  by (simp_all add: demo_approved_def approved_def Let_def demo_deps_def bob_def demo_cfg_defaults)

lemma demo_now [simp]: "d_now demo_deps i = 1000 + int i"
  by (simp add: demo_deps_def)

lemma demo_g1_get: "get_action demo_g1 ''t1'' demo_id = Inr demo_action"
  by (simp add: get_action_Inr demo_g1_result)

lemma demo_cfg_keep [simp]: "g_cfg demo_g1 = g_cfg demo_g0" "g_cfg demo_g2 = g_cfg demo_g0"
  "g_cfg demo_g3 = g_cfg demo_g0"
  by (simp_all only: demo_g1_def demo_g2_def demo_g3_def run_op_cfg)

lemma demo_g2_result:
  "fst (Approve demo_deps demo_g1 ''t1'' demo_id bob no_override) = Ret demo_approved"
  "g_actions demo_g2 = [(demo_id, demo_approved)]"
  "map_of (g_idem demo_g2) (idem_key ''t1'' ''execute'' ''x1'') = None"
proof -
  have pol: "get_policy demo_deps demo_g1 tid = Inr demo_policy" for tid
    by (simp add: get_policy_def demo_deps_def)
  have bud: "\<not> budgetUsed demo_g1 ''t1'' ''inc'' > budget_cap demo_g1 demo_policy"
    by (simp add: budgetUsed_def budget_cap_def demo_policy_def demo_g1_result charges_budget_def)
  have sod: "sepOfDuty demo_deps ''alice'' (sub_ID bob)"
    by (simp add: sepOfDuty_def demo_deps_def bob_def)
  have e: "Approve demo_deps demo_g1 ''t1'' demo_id bob no_override =
     approve_finish demo_deps demo_g1 ''t1'' demo_id bob demo_policy demo_action 1"
    using bud sod
    by (simp add: Approve_def demo_g1_get pol approve_budget_def no_override_def Let_def
        demo_cfg_defaults minute_def second_def)
  then show "fst (Approve demo_deps demo_g1 ''t1'' demo_id bob no_override) = Ret demo_approved"
    by (simp add: approve_finish_def Let_def demo_approved_def)
  show "g_actions demo_g2 = [(demo_id, demo_approved)]"
    using e by (simp add: demo_g2_def approve_finish_actions demo_g1_result demo_approved_def)
  show "map_of (g_idem demo_g2) (idem_key ''t1'' ''execute'' ''x1'') = None"
    using e demo_g1_result(3) by (simp add: demo_g2_def approve_finish_def Let_def)
qed

lemma demo_g2_get: "get_action demo_g2 ''t1'' demo_id = Inr demo_approved"
  by (simp add: get_action_Inr demo_g2_result)

lemma demo_target_same [simp]:
  "set_target demo_resolved demo_approved = demo_approved"
proof -
  have "p_Target (a_Proposal demo_approved) = demo_resolved" by simp
  then show ?thesis by (metis set_target_self)
qed

definition demo_executing :: action where
  "demo_executing = demo_approved\<lparr>a_State := ActionExecuting, a_UpdatedAt := 1000\<rparr>"

lemma demo_g3_result:
  "Execute demo_deps demo_g2 ''t1'' demo_id bob ''x1'' =
     exec_do demo_deps
       (audit demo_deps 1 ''t1'' (sub_ID bob) ''action_executing''
         (JObj [(''action_id'', JStr demo_id), (''executor'', JStr ''dryrun'')])
         (put demo_id demo_executing demo_g2))
       ''t1'' demo_id bob ''x1'' demo_executing (DryRunExecutor_Do (\<lambda>_. ''ok'')) VerbDeletePod None"
proof -
  have pol: "get_policy demo_deps g tid = Inr demo_policy" for g tid
    by (simp add: get_policy_def demo_deps_def)
  have chk: "checkIdempotency demo_g2 ''t1'' ''execute'' ''x1'' h = Inr None" for h
    by (simp add: checkIdempotency_None demo_g2_result)
  have alw: "checkAllowlists (a_Proposal demo_action) demo_policy = None"
    by (rule demo_allowed) (simp_all add: demo_resolved_def demo_target_def)
  have ex: "d_executors demo_deps ''dryrun'' = Some (DryRunExecutor_Do (\<lambda>_. ''ok''))"
    by (simp add: demo_deps_def default_executors_def)
  have rs: "d_resolver demo_deps = Some (\<lambda>_ t. Inr (t\<lparr>tg_ResolvedUID := ''u1'', tg_ResolvedVersion := ''v1''\<rparr>))"
    "d_snapshot demo_deps = None"
    by (simp_all add: demo_deps_def)
  have tg: "demo_resolved\<lparr>tg_ResolvedUID := ''u1'', tg_ResolvedVersion := ''v1''\<rparr> = demo_resolved"
    "tg_ResolvedUID demo_resolved = ''u1''"
    by (simp_all add: demo_resolved_def)
  have "Execute demo_deps demo_g2 ''t1'' demo_id bob ''x1''
          = exec_run demo_deps demo_g2 ''t1'' demo_id bob ''x1'' demo_approved"
    by (simp add: Execute_def demo_g2_get chk exec_resolve_def rs tg exec_allow_def pol alw
        exec_snapshot_def minute_def second_def)
  then show ?thesis
    by (simp add: exec_run_def Let_def ex verbForAction_def stdinPayload_def checkPayloadScope_def
        demo_executing_def)
qed

lemma demo_calls:
  "g_calls demo_g3 = g_calls demo_g2 @ [(''dryrun'', exec_request demo_approved VerbDeletePod None)]"
  by (simp add: demo_g3_def demo_g3_result exec_do_calls demo_executing_def)

lemma demo_steps12:
  assumes "ok demo_deps demo_g0 (OpPropose ''t1'' demo_proposal alice ''k1'')"
    and "ok demo_deps demo_g1 (OpApprove ''t1'' demo_id bob no_override)"
  shows "reach (\<lambda>g. g = NewGuard demo_cfg) (guard_step ok) demo_g2"
proof -
  have "reach (\<lambda>g. g = NewGuard demo_cfg) (guard_step ok) demo_g0"
    by (rule reach_init) (simp add: demo_g0_def)
  then have "reach (\<lambda>g. g = NewGuard demo_cfg) (guard_step ok) demo_g1"
    unfolding demo_g1_def by (rule reach_step) (rule guard_op, rule assms(1))
  then show ?thesis
    unfolding demo_g2_def by (rule reach_step) (rule guard_op, rule assms(2))
qed

end
