(* ===== verification/GuardSafety.thy ===== *)
theory GuardSafety
  imports GuardOrder
begin

text \<open>
  The properties of guarded remediation over every run of the Guard, each with a witness on the
  concrete run of GuardOrder.
\<close>

section \<open>Runs\<close>

lemma reach_guard_inv:
  fixes ok :: "'sig op_guard"
  assumes "reach (\<lambda>g. g = NewGuard c) (guard_step ok) g" and "\<And>d g op. ok d g op \<Longrightarrow> sod S d"
  shows "guard_inv S g"
proof -
  have "guard_step (\<lambda>(d :: 'sig deps) g op. sod S d) s t" if "guard_step ok s t" for s t
    using that
  proof cases
    case (guard_op d op)
    from assms(2) [OF guard_op(2)] show ?thesis
      unfolding guard_op(1) by (rule guard_step.guard_op)
  qed
  with assms(1)
  have "reach (\<lambda>g. g = NewGuard c) (guard_step (\<lambda>(d :: 'sig deps) g op. sod S d)) g"
    by (rule reach_mono)
  then show ?thesis by (rule ginv.reach_inv)
qed

text \<open>C9. Four eyes, whoever decides: if every call runs with a separation check (the Guard's own, or the one
  of the authorizer wired in its place) that only accepts pairs in \<open>S\<close>, every action that is or was
  approved has its proposer and approver in \<open>S\<close>, in every reachable state.  The Guard's own check
  accepts exactly the pairs of two different subjects.\<close>

theorem four_eyes:
  assumes "reach (\<lambda>g. g = NewGuard c) (guard_step (\<lambda>(d :: 'sig deps) g op. \<forall>x y. sepOfDuty d x y \<longrightarrow> S x y)) g"
    and "map_of (g_actions g) k = Some a" and "past_approval (a_State a)"
  shows "S (a_ProposedBy a) (a_ApprovedBy a)
    \<and> (\<forall>(d :: 'sig deps) x y. d_authz d = None \<longrightarrow> sepOfDuty d x y = (x \<noteq> y))"
proof -
  from assms(1) have "guard_inv S g"
    by (rule reach_guard_inv) (simp add: sod_def)
  with assms(2,3) show ?thesis by (simp add: guard_inv_def row_ok_def sepOfDuty_def)
qed

theorem four_eyes_witness: "a_ProposedBy demo_approved \<noteq> a_ApprovedBy demo_approved"
proof -
  have "reach (\<lambda>g. g = NewGuard demo_cfg)
          (guard_step (\<lambda>(d :: unit deps) g op. \<forall>x y. sepOfDuty d x y \<longrightarrow> x \<noteq> y)) demo_g2"
    by (rule demo_steps12) (simp_all add: demo_deps_def sepOfDuty_def)
  from four_eyes [OF this, where k = demo_id] show ?thesis
    by (simp add: demo_g2_result past_approval_def)
qed

text \<open>C28. What every stored action satisfies in every reachable state: it carries one typed spec of
  its own type, its risk tier is the table's and not the proposer's, tier 3 never has
  auto-execution, an override has a justification of at least 40 bytes, a succeeded action was
  verified, and no action rests in Executing.\<close>

theorem stored_action_invariant:
  assumes "reach (\<lambda>g. g = NewGuard c) (guard_step (\<lambda>(d :: 'sig deps) g op. True)) g"
    and "map_of (g_actions g) k = Some a"
  shows "a_ID a = k \<and> set_specs (a_Proposal a) = [p_Type (a_Proposal a)]
         \<and> riskTier (p_Type (a_Proposal a)) = (p_RiskTier (a_Proposal a), True)
         \<and> (p_RiskTier (a_Proposal a) = 3 \<longrightarrow> \<not> a_AutoExecute a)
         \<and> (a_OverrideUsed a \<longrightarrow> 40 \<le> length (a_OverrideJustification a))
         \<and> (a_State a = ActionSucceeded \<longrightarrow> a_Verified a)
         \<and> a_State a \<noteq> ActionExecuting"
proof -
  from assms(1) have "guard_inv any_sod g"
    by (rule reach_guard_inv) (simp add: sod_def any_sod_def)
  with assms(2) show ?thesis by (simp add: guard_inv_def row_ok_def)
qed

theorem stored_action_invariant_witness:
  "a_ID demo_approved = demo_id \<and> p_RiskTier (a_Proposal demo_approved) = 1"
proof -
  have "reach (\<lambda>g. g = NewGuard demo_cfg) (guard_step (\<lambda>(d :: unit deps) g op. True)) demo_g2"
    by (rule demo_steps12) simp_all
  from stored_action_invariant [OF this, of demo_id demo_approved] show ?thesis
    by (simp add: demo_g2_result)
qed

section \<open>Execution is gated\<close>

text \<open>C1. An executor is called only for an action of the caller's tenant that is approved and not
  expired at that moment, whose target resolves to the object that was approved (same UID when
  one was stamped), that passes the tenant's allowlists as they are now if the policy can be read
  (if the policy store fails they are not consulted), whose snapshot was taken, whose executor is
  known, and whose payload for its verb can be built and is in scope; it is called once, with that
  verb and payload on the re-resolved target, and the action ends failed or verifying.\<close>

theorem execute_gated:
  assumes "g_calls (snd (Execute d g tid aid who idem)) \<noteq> g_calls g"
  shows "\<exists>a t v st. get_action g tid aid = Inr a \<and> a_State a = ActionApproved
           \<and> d_now d 0 < a_ExpiresAt a \<and> idem \<noteq> [] \<and> cleared d g tid a t
           \<and> d_executors d (a_ExecutorKind a) \<noteq> None \<and> verbForAction (p_Type (a_Proposal a)) = Inr v
           \<and> stdinPayload (set_target t a) = Inr st \<and> checkPayloadScope (a_Proposal (set_target t a)) st = None
           \<and> g_calls (snd (Execute d g tid aid who idem))
               = g_calls g @ [(a_ExecutorKind a, exec_request (set_target t a) v st)]
           \<and> (\<exists>b. map_of (g_actions (snd (Execute d g tid aid who idem))) aid = Some b
                  \<and> (a_State b = ActionFailed \<or> a_State b = ActionVerifying))"
  using assms
proof (rule Execute_calls)
  fix a t
  assume a: "get_action g tid aid = Inr a" "a_State a = ActionApproved" "d_now d 0 < a_ExpiresAt a"
    "idem \<noteq> []" "cleared d g tid a t"
    and "one_call d g aid (set_target t a) (snd (Execute d g tid aid who idem))"
  then obtain v st b where "d_executors d (a_ExecutorKind a) \<noteq> None" "verbForAction (p_Type (a_Proposal a)) = Inr v"
    "stdinPayload (set_target t a) = Inr st" "checkPayloadScope (a_Proposal (set_target t a)) st = None"
    "g_calls (snd (Execute d g tid aid who idem)) = g_calls g @ [(a_ExecutorKind a, exec_request (set_target t a) v st)]"
    "map_of (g_actions (snd (Execute d g tid aid who idem))) aid = Some b" "a_State b = ActionFailed \<or> a_State b = ActionVerifying"
    unfolding one_call_def by (auto simp: set_target_def)
  with a show ?thesis by blast
qed

theorem execute_gated_witness:
  "g_calls (snd (Execute demo_deps demo_g2 ''t1'' demo_id bob ''x1'')) \<noteq> g_calls demo_g2
   \<and> (\<exists>t. cleared demo_deps demo_g2 ''t1'' demo_approved t)"
proof -
  have c: "g_calls (snd (Execute demo_deps demo_g2 ''t1'' demo_id bob ''x1'')) \<noteq> g_calls demo_g2"
    using demo_calls by (simp add: demo_g3_def)
  from execute_gated [OF c] c demo_g2_get show ?thesis by auto
qed

text \<open>Only \<open>Execute\<close> calls an executor: no other operation, approval included, does.\<close>

theorem only_execute_calls:
  "(\<exists>tid aid who idem. op = OpExecute tid aid who idem) \<or> g_calls (run_op d g op) = g_calls g"
  using run_op_calls [of op d g] by blast

section \<open>At most one execution\<close>

definition spent :: "action_state \<Rightarrow> bool" where
  "spent s = (s = ActionVerifying \<or> s = ActionFailed \<or> s = ActionSucceeded \<or> s = ActionRolledBack)"

lemma spent_edges: "edge\<^sup>*\<^sup>* s t \<Longrightarrow> spent s \<Longrightarrow> spent t"
proof (induction rule: rtranclp_induct)
  case (step t u)
  then show ?case by (cases t) (auto simp: spent_def)
qed

text \<open>C2. At most one execution: once an executor was called for an action, no later \<open>Execute\<close> of
  that action, by any tenant name, subject or idempotency key, calls an executor again, whatever
  happened in between.\<close>

theorem executed_at_most_once:
  assumes call: "g_calls (snd (Execute d g tid aid who idem)) \<noteq> g_calls g"
    and later: "steps (guard_step (fresh_id :: 'sig op_guard)) (snd (Execute d g tid aid who idem)) h"
    and reach: "reach (\<lambda>g. g = NewGuard c) (guard_step (fresh_id :: 'sig op_guard)) g"
  shows "g_calls (snd (Execute d' h tid' aid who' idem')) = g_calls h"
proof (rule ccontr)
  assume again: "g_calls (snd (Execute d' h tid' aid who' idem')) \<noteq> g_calls h"
  let ?g1 = "snd (Execute d g tid aid who idem)"
  from call obtain b where b: "map_of (g_actions ?g1) aid = Some b" "spent (a_State b)"
    by (rule Execute_calls) (auto simp: one_call_def spent_def)
  have "guard_inv any_sod ?g1"
    using guard_inv_run [of any_sod g d "OpExecute tid aid who idem"] gord.reach_inv [OF reach]
    by (simp add: sod_def any_sod_def)
  with later have "guard_le ?g1 h" by (rule gord.steps_rel)
  with b obtain b' where b': "map_of (g_actions h) aid = Some b'" "spent (a_State b')"
    unfolding guard_le_def rows_le_def by (blast dest: spent_edges)
  from again show False
    by (rule Execute_calls) (use b' in \<open>auto simp: get_action_Inr spent_def\<close>)
qed

theorem executed_at_most_once_witness:
  "g_calls (snd (Execute demo_deps demo_g3 ''t1'' demo_id alice ''x2'')) = g_calls demo_g3"
proof -
  have r: "reach (\<lambda>g. g = NewGuard demo_cfg) (guard_step (fresh_id :: unit op_guard)) demo_g2"
    by (rule demo_steps12) (simp_all add: fresh_id_def demo_g0_def NewGuard_def)
  have c: "g_calls (snd (Execute demo_deps demo_g2 ''t1'' demo_id bob ''x1'')) \<noteq> g_calls demo_g2"
    using demo_calls by (simp add: demo_g3_def)
  show ?thesis
    unfolding demo_g3_def run_op.simps by (rule executed_at_most_once [OF c steps_refl r])
qed

end
