(* ===== verification/GuardLaws.thy ===== *)
theory GuardLaws
  imports GuardOrder
begin

text \<open>
  Laws of the Guard over time and between tenants: the per-incident action budget, finality of the
  end states, tenant isolation, and the integrity of the audit log the Guard writes.
\<close>

section \<open>The action budget\<close>

lemma charges_moves:
  assumes "moves d c a a'" and "charges_budget tid inc a'"
  shows "charges_budget tid inc a"
proof -
  from moves_core [OF assms(1)] have c: "core a a'" and e: "edge (a_State a) (a_State a')" by auto
  from e assms(2) have "a_State a \<noteq> ActionRejected \<and> a_State a \<noteq> ActionExpired" by (cases "a_State a") auto
  with assms(2) show ?thesis by (simp add: charges_budget_def core_simps [OF c])
qed

lemma charges_expire: "charges_budget tid inc (expire_row c now a) \<Longrightarrow> charges_budget tid inc a"
  by (auto simp: expire_row_def charges_budget_def split: if_splits)

lemma count_rows_update_Suc: "count_rows P (AList.update k v xs) \<le> Suc (count_rows P xs)"
  by (induction xs) auto

lemma count_rows_update_not:
  "\<not> P v \<Longrightarrow> count_rows P (AList.update k v xs) \<le> count_rows P xs"
  by (induction xs) auto

lemma count_rows_expire:
  "(\<And>a. P (f a) \<Longrightarrow> P a) \<Longrightarrow> count_rows P (map (\<lambda>(k, a). (k, f a)) xs) \<le> count_rows P xs"
  by (induction xs) auto

definition caps_within :: "(tenant_id \<Rightarrow> int) \<Rightarrow> 'sig deps \<Rightarrow> guard \<Rightarrow> guard_op \<Rightarrow> bool" where
  "caps_within B d g op = (\<forall>tid pol. get_policy d g tid = Inr pol \<longrightarrow> budget_cap g pol \<le> B tid)"

lemma budgetUsed_run:
  assumes "caps_within B d g op"
  shows "budgetUsed (run_op d g op) tid inc \<le> max (B tid) (budgetUsed g tid inc)"
proof (cases rule: run_op_effect [of d g op])
  case (touch t aid)
  then consider "g_actions (run_op d g op) = g_actions g"
    | a a' where "map_of (g_actions g) aid = Some a" "moves d (g_cfg g) a a'"
        "g_actions (run_op d g op) = AList.update aid a' (g_actions g)"
    unfolding touches_def by blast
  then show ?thesis
  proof cases
    case (2 a a')
    then have "count_rows (charges_budget tid inc) (AList.update aid a' (g_actions g))
               \<le> count_rows (charges_budget tid inc) (g_actions g)"
      by (blast intro: count_rows_update_le charges_moves)
    with 2(3) show ?thesis by (simp add: budgetUsed_def)
  qed (simp add: budgetUsed_def)
next
  case (add t)
  then consider "g_actions (run_op d g op) = g_actions g"
    | p pol who rs where "get_policy d g t = Inr pol"
        "budgetUsed g t (p_IncidentID p) < budget_cap g pol"
        "g_actions (run_op d g op) = AList.update (nextID d (g_seq g))
           (new_action d g t (stamped d g who rs p)) (g_actions g)"
    unfolding adds_def by blast
  then show ?thesis
  proof cases
    case (2 p pol who rs)
    let ?a = "new_action d g t (stamped d g who rs p)"
    show ?thesis
    proof (cases "charges_budget tid inc ?a")
      case True
      then have "t = tid" "p_IncidentID p = inc" by (auto simp: charges_budget_def new_action_def)
      moreover have "budget_cap g pol \<le> B t" using assms 2(1) by (simp add: caps_within_def)
      ultimately have "budgetUsed g tid inc < B tid" using 2(2) by simp
      moreover have "budgetUsed (run_op d g op) tid inc \<le> budgetUsed g tid inc + 1"
        using count_rows_update_Suc [of "charges_budget tid inc" "nextID d (g_seq g)" ?a "g_actions g"]
        by (simp add: budgetUsed_def 2(3))
      ultimately show ?thesis by simp
    next
      case False
      then have "budgetUsed (run_op d g op) tid inc \<le> budgetUsed g tid inc"
        by (simp add: budgetUsed_def 2(3) count_rows_update_not)
      then show ?thesis by simp
    qed
  qed (simp add: budgetUsed_def)
next
  case (expire now)
  have "count_rows (charges_budget tid inc) (g_actions (run_op d g op))
        \<le> count_rows (charges_budget tid inc) (g_actions g)"
    unfolding expire(2) by (rule count_rows_expire) (rule charges_expire)
  then show ?thesis by (simp add: budgetUsed_def)
qed

definition within_budget :: "(tenant_id \<Rightarrow> int) \<Rightarrow> guard \<Rightarrow> bool" where
  "within_budget B g = (\<forall>tid inc. budgetUsed g tid inc \<le> max 0 (B tid))"

interpretation gbudget: invariant_system
  "\<lambda>g. g = NewGuard c" "guard_step (caps_within B :: 'sig op_guard)" "within_budget B" for c B
proof unfold_locales
  show "within_budget B g" if "g = NewGuard c" for g
    using that by (simp add: within_budget_def budgetUsed_def NewGuard_def)
  show "within_budget B h" if "within_budget B g" "guard_step (caps_within B :: 'sig op_guard) g h" for g h
    using that(2)
  proof cases
    case (guard_op d op)
    have "budgetUsed h tid inc \<le> max 0 (B tid)" for tid inc
    proof -
      have "budgetUsed g tid inc \<le> max 0 (B tid)" using that(1) by (simp add: within_budget_def)
      with budgetUsed_run [OF guard_op(2), of tid inc] show ?thesis
        unfolding guard_op(1) by (simp add: max_def split: if_splits)
    qed
    then show ?thesis by (simp add: within_budget_def)
  qed
qed

text \<open>C10. The budget per tenant and incident: when no call sees a policy whose cap exceeds
  \<open>B tid\<close>, then in every reachable state at most \<open>B tid\<close> actions of an incident are proposed,
  approved, running or finished; rejected and expired ones do not count.\<close>

theorem budget_bound:
  assumes "reach (\<lambda>g. g = NewGuard c) (guard_step (caps_within B :: 'sig op_guard)) g"
  shows "budgetUsed g tid inc \<le> max 0 (B tid)"
  using gbudget.reach_inv [OF assms] by (simp add: within_budget_def)

lemma demo_caps: "caps_within (\<lambda>_. 1) demo_deps g op"
  by (simp add: caps_within_def get_policy_def budget_cap_def demo_deps_def demo_policy_def)

theorem budget_bound_witness: "budgetUsed demo_g2 ''t1'' ''inc'' \<le> 1"
proof -
  have "reach (\<lambda>g. g = NewGuard demo_cfg)
          (guard_step (caps_within (\<lambda>_. 1) :: unit op_guard)) demo_g2"
    by (rule demo_steps12) (rule demo_caps)+
  from budget_bound [OF this, of "''t1''" "''inc''"] show ?thesis by simp
qed

section \<open>End states\<close>

lemma terminal_final: "edge\<^sup>*\<^sup>* s t \<Longrightarrow> terminal s \<Longrightarrow> t = s"
  by (induction rule: rtranclp_induct) (auto simp: terminal_no_edge)

text \<open>Rejected, expired, succeeded and rolled-back actions are final: whatever operations
  follow, the action is still there, of the same tenant and incident, in the same state.\<close>

theorem end_states_final:
  assumes "reach (\<lambda>g. g = NewGuard c) (guard_step (fresh_id :: 'sig op_guard)) g"
    and "map_of (g_actions g) k = Some a" and "terminal (a_State a)"
    and "steps (guard_step (fresh_id :: 'sig op_guard)) g h"
  shows "\<exists>a'. map_of (g_actions h) k = Some a' \<and> a_State a' = a_State a \<and> a_Tenant a' = a_Tenant a
              \<and> a_IncidentID a' = a_IncidentID a \<and> a_ProposedBy a' = a_ProposedBy a"
proof -
  from assms(1) have "guard_inv any_sod g" by (rule gord.reach_inv)
  with assms(4) have "guard_le g h" by (rule gord.steps_rel)
  with assms(2) obtain a' where a': "map_of (g_actions h) k = Some a'" "core a a'"
    "edge\<^sup>*\<^sup>* (a_State a) (a_State a')"
    unfolding guard_le_def rows_le_def by blast
  with terminal_final [OF a'(3) assms(3)] show ?thesis by (simp add: core_simps)
qed

definition demo_rejected :: action where
  "demo_rejected = demo_action\<lparr>a_State := ActionRejected, a_StateReason := [], a_UpdatedAt := 1000\<rparr>"

definition demo_gr :: guard where
  "demo_gr = run_op demo_deps demo_g1 (OpReject ''t1'' demo_id bob [])"

lemma demo_gr_result: "g_actions demo_gr = [(demo_id, demo_rejected)]"
  by (simp add: demo_gr_def Reject_def demo_g1_get Let_def demo_g1_result demo_rejected_def)

theorem end_states_final_witness:
  "\<exists>a'. map_of (g_actions (run_op demo_deps demo_gr (OpApprove ''t1'' demo_id bob no_override))) demo_id
          = Some a' \<and> a_State a' = ActionRejected"
proof -
  let ?R = "guard_step (fresh_id :: unit op_guard)"
  have "reach (\<lambda>g. g = NewGuard demo_cfg) ?R demo_g0"
    by (rule reach_init) (simp add: demo_g0_def)
  then have "reach (\<lambda>g. g = NewGuard demo_cfg) ?R demo_g1"
    unfolding demo_g1_def
    by (rule reach_step) (rule guard_op, simp add: fresh_id_def demo_g0_def NewGuard_def)
  then have r: "reach (\<lambda>g. g = NewGuard demo_cfg) ?R demo_gr"
    unfolding demo_gr_def by (rule reach_step) (rule guard_op, simp add: fresh_id_def)
  have s: "steps ?R demo_gr (run_op demo_deps demo_gr (OpApprove ''t1'' demo_id bob no_override))"
    by (rule steps_step [OF steps_refl], rule guard_op, simp add: fresh_id_def)
  have m: "map_of (g_actions demo_gr) demo_id = Some demo_rejected" by (simp add: demo_gr_result)
  have st: "a_State demo_rejected = ActionRejected" by (simp add: demo_rejected_def)
  then have "terminal (a_State demo_rejected)" by (simp add: terminal_def)
  from end_states_final [OF r m this s] st show ?thesis by auto
qed

section \<open>Tenants\<close>

fun op_tenant :: "guard_op \<Rightarrow> tenant_id option" where
  "op_tenant (OpPropose tid p who idem) = Some tid"
| "op_tenant (OpApprove tid aid who req) = Some tid"
| "op_tenant (OpReject tid aid who reason) = Some tid"
| "op_tenant (OpExecute tid aid who idem) = Some tid"
| "op_tenant (OpVerify tid aid) = Some tid"
| "op_tenant (OpRollback tid aid who reason) = Some tid"
| "op_tenant (OpExpireDue now) = None"

lemma touches_other:
  "touches d g tid aid g' \<Longrightarrow> map_of (g_actions g) k = Some a \<Longrightarrow> a_Tenant a \<noteq> tid
     \<Longrightarrow> map_of (g_actions g') k = Some a"
  unfolding touches_def by (cases "k = aid") auto

text \<open>Tenant isolation: an operation carried out for one tenant leaves every action of every
  other tenant exactly as it was.\<close>

theorem tenant_isolation:
  assumes "op_tenant op = Some tid" and "fresh_id d g op"
    and "map_of (g_actions g) k = Some a" and "a_Tenant a \<noteq> tid"
  shows "map_of (g_actions (run_op d g op)) k = Some a"
proof (cases op)
  case (OpPropose t p who idem)
  then have "k \<noteq> nextID d (g_seq g)" using assms(2,3) by (auto simp: fresh_id_def)
  moreover have "adds d g t (run_op d g op)" by (simp add: OpPropose Propose_adds)
  ultimately show ?thesis using assms(3) unfolding adds_def by auto
next
  case OpApprove
  then show ?thesis using assms by (auto intro: touches_other [OF Approve_touches])
next
  case OpReject
  then show ?thesis using assms by (auto intro: touches_other [OF Reject_touches])
next
  case OpExecute
  then show ?thesis using assms by (auto intro: touches_other [OF Execute_touches])
next
  case OpVerify
  then show ?thesis using assms by (auto intro: touches_other [OF Verify_touches])
next
  case OpRollback
  then show ?thesis using assms by (auto intro: touches_other [OF Rollback_touches])
next
  case OpExpireDue
  then show ?thesis using assms(1) by simp
qed

theorem tenant_isolation_witness:
  "map_of (g_actions (run_op demo_deps demo_g2 (OpReject ''t2'' demo_id alice []))) demo_id
     = Some demo_approved"
  by (rule tenant_isolation [where tid = "''t2''"]) (simp_all add: fresh_id_def demo_g2_result)

section \<open>The audit log of the Guard\<close>

definition same_hash :: "(string \<Rightarrow> string) \<Rightarrow> 'sig deps \<Rightarrow> guard \<Rightarrow> guard_op \<Rightarrow> bool" where
  "same_hash H d g op = (d_sha256 d = H)"

definition log_ok :: "(string \<Rightarrow> string) \<Rightarrow> guard \<Rightarrow> bool" where
  "log_ok H g = reach (\<lambda>l. l = NewInMemoryAuditLog) (audit_step H) (g_audit g)"

lemma log_ok_audit [simp]:
  "log_ok (d_sha256 d) g \<Longrightarrow> log_ok (d_sha256 d) (audit d i tid actor act j g)"
  by (auto simp: log_ok_def audit_def intro: reach_step audit_append)

lemma log_ok_same:
  "log_ok H (put aid a g) = log_ok H g"
  "log_ok H (storeIdempotency tid ep key h a g) = log_ok H g"
  "log_ok H (g\<lparr>g_seq := n\<rparr>) = log_ok H g"
  "log_ok H (g\<lparr>g_calls := cs\<rparr>) = log_ok H g"
  "log_ok H (g\<lparr>g_actions := as\<rparr>) = log_ok H g"
  by (simp_all add: log_ok_def)

lemmas log_rules = log_ok_same Let_def

lemma exec_run_log:
  "log_ok (d_sha256 d) g \<Longrightarrow> log_ok (d_sha256 d) (snd (exec_run d g tid aid who idem a))"
  by (simp add: exec_run_def exec_do_def log_rules split: sum.split option.split)

lemma exec_resolve_log:
  "log_ok (d_sha256 d) g \<Longrightarrow> log_ok (d_sha256 d) (snd (exec_resolve d g tid aid who idem a))"
  by (simp add: exec_resolve_def exec_allow_def exec_snapshot_def exec_run_log log_rules
      split: sum.split option.split)

lemma log_ok_run:
  assumes "log_ok (d_sha256 d) g"
  shows "log_ok (d_sha256 d) (run_op d g op)"
proof (cases op)
  case OpPropose
  with assms show ?thesis
    by (simp add: Propose_def propose_store_def log_rules split: sum.split option.split)
next
  case OpApprove
  with assms show ?thesis
    by (simp add: Approve_def approve_budget_def approve_finish_def log_rules
        split: sum.split option.split)
next
  case OpExecute
  with assms show ?thesis
    by (simp add: Execute_def exec_resolve_log log_rules split: sum.split option.split)
qed (use assms in \<open>simp_all add: Reject_def Verify_def Rollback_def ExpireDue_def log_rules
      split: sum.split\<close>)

interpretation glog: invariant_system
  "\<lambda>g. g = NewGuard c" "guard_step (same_hash H :: 'sig op_guard)" "log_ok H" for c H
proof unfold_locales
  show "log_ok H g" if "g = NewGuard c" for g
    using that by (simp add: log_ok_def NewGuard_def reach_init)
  show "log_ok H h" if "log_ok H g" "guard_step (same_hash H :: 'sig op_guard) g h" for g h
    using that(2,1) by cases (auto simp: same_hash_def intro: log_ok_run)
qed

text \<open>The audit log of a running Guard always verifies, for every tenant and over every range
  of sequence numbers, whatever sequence of operations wrote it.\<close>

theorem guard_log_verifies:
  assumes "reach (\<lambda>g. g = NewGuard c) (guard_step (same_hash H :: 'sig op_guard)) g"
  shows "VerifyChain H (g_audit g) tid from til = None"
proof -
  from assms have "log_ok H g" by (rule glog.reach_inv)
  then have "audit_ok H (g_audit g)" unfolding log_ok_def by (rule log_inv.reach_inv)
  then show ?thesis by (rule audit_ok_verifies)
qed

theorem guard_log_verifies_witness: "VerifyChain (\<lambda>s. s) (g_audit demo_g2) ''t1'' 1 0 = None"
proof -
  have "reach (\<lambda>g. g = NewGuard demo_cfg)
          (guard_step (same_hash (\<lambda>s. s) :: unit op_guard)) demo_g2"
    by (rule demo_steps12) (simp_all add: same_hash_def demo_deps_def)
  then show ?thesis by (rule guard_log_verifies)
qed

end
