(* ===== verification/GuardOutcomes.thy ===== *)
theory GuardOutcomes
  imports GuardLaws
begin

text \<open>
  What a caller of the Guard observes: expired approvals never run, a repeated \<open>Execute\<close> returns
  the recorded outcome and does nothing, a cleared action does run and verify, \<open>ExpireDue\<close> expires
  exactly what is due; and three places where the code does not do what its design document asks.
\<close>

section \<open>Expiry\<close>

text \<open>An approval past its expiry never runs: \<open>Execute\<close> refuses it with the expiry error,
  moves the action to Expired and calls no executor.\<close>

theorem expired_approval_refused:
  assumes "get_action g tid aid = Inr a" and "a_State a = ActionApproved"
    and "a_ExpiresAt a \<le> d_now d 0" and "idem \<noteq> []"
    and "map_of (g_idem g) (idem_key tid ''execute'' idem) = None"
  shows "\<exists>b. fst (Execute d g tid aid who idem) = FailWith b (Plain ErrActionExpired)
             \<and> a_State b = ActionExpired
             \<and> map_of (g_actions (snd (Execute d g tid aid who idem))) aid = Some b
             \<and> g_calls (snd (Execute d g tid aid who idem)) = g_calls g"
proof -
  have "checkIdempotency g tid ''execute'' idem (id_hash d aid) = Inr None"
    using assms(4,5) by (simp add: checkIdempotency_None)
  with assms(1-3) show ?thesis by (simp add: Execute_def Let_def)
qed

definition late_deps :: "unit deps" where
  "late_deps = demo_deps\<lparr>d_now := (\<lambda>i. 2000 + 15 * minute + int i)\<rparr>"

theorem expired_approval_refused_witness:
  "\<exists>b. fst (Execute late_deps demo_g2 ''t1'' demo_id bob ''x1'') = FailWith b (Plain ErrActionExpired)"
proof -
  have "\<exists>b. fst (Execute late_deps demo_g2 ''t1'' demo_id bob ''x1'') = FailWith b (Plain ErrActionExpired)
             \<and> a_State b = ActionExpired
             \<and> map_of (g_actions (snd (Execute late_deps demo_g2 ''t1'' demo_id bob ''x1''))) demo_id = Some b
             \<and> g_calls (snd (Execute late_deps demo_g2 ''t1'' demo_id bob ''x1'')) = g_calls demo_g2"
    by (rule expired_approval_refused [OF demo_g2_get])
      (simp_all add: late_deps_def demo_g2_result)
  then show ?thesis by blast
qed

lemma due_expire_row: "\<not> due c now (expire_row c now a)"
  by (auto simp: expire_row_def due_def split: action_state.split)

lemma count_rows_none: "(\<And>a. \<not> P (f a)) \<Longrightarrow> count_rows P (map (\<lambda>(k, a). (k, f a)) xs) = 0"
  by (induction xs) auto

text \<open>\<open>ExpireDue\<close> is exact: after it an action is Expired if it was due (a proposal past its
  TTL, an approval past its expiry) and unchanged otherwise, the count it returns is the number of
  due actions, and a second sweep at the same time finds nothing.\<close>

theorem ExpireDue_exact:
  "map_of (g_actions (snd (ExpireDue g now))) k =
     map_option (\<lambda>a. if due (g_cfg g) now a then a\<lparr>a_State := ActionExpired, a_UpdatedAt := now\<rparr> else a)
       (map_of (g_actions g) k)
   \<and> fst (ExpireDue g now) = count_rows (due (g_cfg g) now) (g_actions g)
   \<and> fst (ExpireDue (snd (ExpireDue g now)) now) = 0"
  by (simp add: ExpireDue_def map_of_expire expire_row_def [abs_def] count_rows_none
      due_expire_row [unfolded expire_row_def])

section \<open>Repeated calls\<close>

lemma storeIdempotency_stored:
  "key \<noteq> [] \<Longrightarrow> map_of (g_idem (storeIdempotency tid ep key h a g)) (idem_key tid ep key)
     = Some \<lparr>ir_hash = h, ir_action = a\<rparr>"
  by (simp add: storeIdempotency_def)

lemma exec_do_stored:
  "key \<noteq> [] \<Longrightarrow> fst (exec_do d g tid aid who key a ex v st) = Ret b
     \<Longrightarrow> map_of (g_idem (snd (exec_do d g tid aid who key a ex v st))) (idem_key tid ''execute'' key)
          = Some \<lparr>ir_hash = id_hash d aid, ir_action = b\<rparr>"
  by (auto simp: exec_do_def Let_def storeIdempotency_stored split: sum.splits)

lemma exec_run_stored:
  "key \<noteq> [] \<Longrightarrow> fst (exec_run d g tid aid who key a) = Ret b
     \<Longrightarrow> map_of (g_idem (snd (exec_run d g tid aid who key a))) (idem_key tid ''execute'' key)
          = Some \<lparr>ir_hash = id_hash d aid, ir_action = b\<rparr>"
  by (auto simp: exec_run_def Let_def exec_do_stored split: sum.splits option.splits)

lemma exec_snapshot_stored:
  "key \<noteq> [] \<Longrightarrow> fst (exec_snapshot d g tid aid who key a) = Ret b
     \<Longrightarrow> map_of (g_idem (snd (exec_snapshot d g tid aid who key a))) (idem_key tid ''execute'' key)
          = Some \<lparr>ir_hash = id_hash d aid, ir_action = b\<rparr>"
  by (auto simp: exec_snapshot_def Let_def exec_run_stored split: sum.splits option.splits)

lemma exec_allow_stored:
  "key \<noteq> [] \<Longrightarrow> fst (exec_allow d g tid aid who key a) = Ret b
     \<Longrightarrow> map_of (g_idem (snd (exec_allow d g tid aid who key a))) (idem_key tid ''execute'' key)
          = Some \<lparr>ir_hash = id_hash d aid, ir_action = b\<rparr>"
  by (auto simp: exec_allow_def Let_def exec_snapshot_stored split: sum.splits option.splits)

lemma exec_resolve_stored:
  "key \<noteq> [] \<Longrightarrow> fst (exec_resolve d g tid aid who key a) = Ret b
     \<Longrightarrow> map_of (g_idem (snd (exec_resolve d g tid aid who key a))) (idem_key tid ''execute'' key)
          = Some \<lparr>ir_hash = id_hash d aid, ir_action = b\<rparr>"
  by (auto simp: exec_resolve_def Let_def exec_allow_stored split: sum.splits option.splits if_splits)

lemma Execute_stored:
  assumes "fst (Execute d g tid aid who key) = Ret b"
  shows "\<exists>a. get_action g tid aid = Inr a" and "key \<noteq> []"
    and "map_of (g_idem (snd (Execute d g tid aid who key))) (idem_key tid ''execute'' key)
          = Some \<lparr>ir_hash = id_hash d aid, ir_action = b\<rparr>"
proof -
  show g: "\<exists>a. get_action g tid aid = Inr a"
    using assms by (auto simp: Execute_def split: sum.splits)
  then show k: "key \<noteq> []"
    using assms by (auto simp: Execute_def checkIdempotency_def)
  show "map_of (g_idem (snd (Execute d g tid aid who key))) (idem_key tid ''execute'' key)
          = Some \<lparr>ir_hash = id_hash d aid, ir_action = b\<rparr>"
  proof (cases "checkIdempotency g tid ''execute'' key (id_hash d aid)")
    case (Inl e)
    with assms g show ?thesis by (auto simp: Execute_def)
  next
    case (Inr r)
    show ?thesis
    proof (cases r)
      case None
      with assms g Inr k show ?thesis
        by (auto simp: Execute_def Let_def exec_resolve_stored split: if_splits)
    next
      case (Some c)
      with Inr assms g have "checkIdempotency g tid ''execute'' key (id_hash d aid) = Inr (Some b)"
        and same: "snd (Execute d g tid aid who key) = g"
        by (auto simp: Execute_def)
      then obtain rec where "map_of (g_idem g) (idem_key tid ''execute'' key) = Some rec"
        "ir_hash rec = id_hash d aid" "ir_action rec = b"
        unfolding checkIdempotency_Some by blast
      with same show ?thesis by (cases rec) simp
    qed
  qed
qed

text \<open>C29. A successful \<open>Execute\<close> is idempotent: repeating it with the same key at any later time
  returns the same action and changes nothing at all.\<close>

theorem execute_replay:
  fixes d :: "'sig deps"
  assumes first: "fst (Execute d g tid aid who key) = Ret b"
    and later: "steps (guard_step (fresh_id :: 'sig op_guard)) (snd (Execute d g tid aid who key)) h"
    and reach: "reach (\<lambda>g. g = NewGuard c) (guard_step (fresh_id :: 'sig op_guard)) g"
    and hash: "id_hash d' aid = id_hash d aid"
  shows "Execute d' h tid aid who' key = (Ret b, h)"
proof -
  let ?g1 = "snd (Execute d g tid aid who key)"
  note st = Execute_stored [OF first]
  have s1: "guard_step (fresh_id :: 'sig op_guard) g ?g1"
    using guard_op [of "fresh_id :: 'sig op_guard" d g "OpExecute tid aid who key"]
    by (simp add: fresh_id_def)
  from st(1) obtain a where a: "map_of (g_actions g) aid = Some a" "a_Tenant a = tid"
    by (auto simp: get_action_Inr)
  have "steps (guard_step (fresh_id :: 'sig op_guard)) g ?g1"
    using s1 by (blast intro: steps.intros)
  with gord.reach_inv [OF reach] have "guard_le g ?g1" by (blast intro: gord.steps_rel)
  moreover have "guard_le ?g1 h"
    using gord.steps_rel [OF later] gord.reach_inv [OF reach_step [OF reach s1]] by blast
  ultimately have le: "guard_le g h" "idem_le ?g1 h"
    by (blast intro: guard_le_trans, simp add: guard_le_def)
  then obtain a' where "map_of (g_actions h) aid = Some a'" "core a a'"
    using a(1) unfolding guard_le_def rows_le_def by blast
  then have "get_action h tid aid = Inr a'" using a(2) by (simp add: get_action_Inr core_simps)
  moreover have "checkIdempotency h tid ''execute'' key (id_hash d' aid) = Inr (Some b)"
    using st(2,3) le(2) hash unfolding idem_le_def checkIdempotency_Some by fastforce
  ultimately show ?thesis by (simp add: Execute_def)
qed

lemma demo_execute_ret: "\<exists>b. fst (Execute demo_deps demo_g2 ''t1'' demo_id bob ''x1'') = Ret b"
  by (simp add: demo_g3_result exec_do_def Let_def DryRunExecutor_Do_def)

theorem execute_replay_witness:
  "\<exists>b. Execute demo_deps demo_g3 ''t1'' demo_id alice ''x1'' = (Ret b, demo_g3)"
proof -
  have r: "reach (\<lambda>g. g = NewGuard demo_cfg) (guard_step (fresh_id :: unit op_guard)) demo_g2"
    by (rule demo_steps12) (simp_all add: fresh_id_def demo_g0_def NewGuard_def)
  from demo_execute_ret obtain b where "fst (Execute demo_deps demo_g2 ''t1'' demo_id bob ''x1'') = Ret b"
    by blast
  from execute_replay [OF this steps_refl r refl] show ?thesis
    by (auto simp: demo_g3_def)
qed

text \<open>\<open>Propose\<close> is not idempotent: the record is stored under the hash of the stamped
  proposal but looked up under the hash of the caller's, so an exact repetition of a successful
  call is refused as a reuse of the key, unless the two hashes happen to agree.\<close>

theorem propose_replay_refused:
  assumes "fst (Propose d g tid p who key) = Ret a"
    and "map_of (g_idem g) (idem_key tid ''propose'' key) = None"
    and "proposal_hash d' p \<noteq> proposal_hash d (a_Proposal a)"
  shows "Propose d' (snd (Propose d g tid p who key)) tid p who key
           = (Fail (Plain ErrIdempotencyReused), snd (Propose d g tid p who key))"
proof -
  have k: "key \<noteq> []"
    using assms(1) by (auto simp: Propose_def checkIdempotency_def)
  have "map_of (g_idem (snd (Propose d g tid p who key))) (idem_key tid ''propose'' key)
          = Some \<lparr>ir_hash = proposal_hash d (a_Proposal a), ir_action = a\<rparr>"
    using assms(1,2) k
    by (auto simp: Propose_def checkIdempotency_def propose_store_def Let_def storeIdempotency_stored
        new_action_def split: sum.splits option.splits if_splits)
  with assms(3) k show ?thesis
    by (simp add: Propose_def checkIdempotency_def)
qed

theorem propose_replay_refused_witness:
  "fst (Propose demo_deps demo_g1 ''t1'' demo_proposal alice ''k1'') = Fail (Plain ErrIdempotencyReused)"
proof -
  have r: "fst (Propose demo_deps demo_g0 ''t1'' demo_proposal alice ''k1'') = Ret demo_action"
    by (simp add: demo_g1_result)
  have n: "map_of (g_idem demo_g0) (idem_key ''t1'' ''propose'' ''k1'') = None"
    by (simp add: demo_g0_def NewGuard_def)
  have "p_ID (a_Proposal demo_action) = ''act_'' @ take 16 (hex_string (d_sha256 demo_deps
          (''action-'' @ show_nat (g_seq demo_g0) @ ''-'' @ show_int (d_wall_nano demo_deps))))"
    by (simp add: demo_action_def new_action_def nextID_def)
  then have "proposal_hash demo_deps demo_proposal \<noteq> proposal_hash demo_deps (a_Proposal demo_action)"
    by (simp add: proposal_hash_def requestHash_def demo_deps_def demo_proposal_def hex_string_def hex_byte_def)
  from propose_replay_refused [OF r n this] show ?thesis
    by (simp add: demo_g1_result)
qed

section \<open>An approved action does run\<close>

lemma verb_exists: "set_specs p = [p_Type p] \<Longrightarrow> \<exists>v. verbForAction (p_Type p) = Inr v"
  by (cases "p_Type p")
    (auto simp: verbForAction_def set_specs_def split: if_splits option.splits)

lemma specs_declared: "set_specs p = [ActionUndeclared w] \<Longrightarrow> False"
  by (auto simp: set_specs_def split: if_splits)

lemma stdin_exists:
  assumes "set_specs (a_Proposal a) = [p_Type (a_Proposal a)]"
    and "p_Type (a_Proposal a) \<noteq> ActionRemoveIstioFault"
  shows "\<exists>st. stdinPayload a = Inr st \<and> checkPayloadScope (a_Proposal a) st = None"
proof -
  have f: "p_FeatureFlag (a_Proposal a) \<noteq> None" if "p_Type (a_Proposal a) = ActionToggleFeatureFlag"
    using that assms by (auto simp: set_specs_def split: if_splits option.splits)
  have "\<exists>st. stdinPayload a = Inr st"
    using assms specs_declared
    by (cases "p_Type (a_Proposal a)") (auto simp: stdinPayload_def split: option.splits)
  then show ?thesis using f own_payload_in_scope by blast
qed

lemma exec_run_ok:
  assumes "set_specs (a_Proposal a) = [p_Type (a_Proposal a)]"
    and "p_Type (a_Proposal a) \<noteq> ActionRemoveIstioFault"
    and "d_executors d (a_ExecutorKind a) = Some ex" and "\<And>r. \<exists>out. ex r = Inr out"
  shows "\<exists>b. fst (exec_run d g tid aid who key a) = Ret b \<and> a_State b = ActionVerifying
             \<and> map_of (g_actions (snd (exec_run d g tid aid who key a))) aid = Some b"
proof -
  let ?a1 = "a\<lparr>a_State := ActionExecuting, a_UpdatedAt := d_now d 0\<rparr>"
  from assms(1) obtain v where v: "verbForAction (p_Type (a_Proposal a)) = Inr v"
    using verb_exists by blast
  from assms(1,2) obtain st where st: "stdinPayload ?a1 = Inr st" "checkPayloadScope (a_Proposal a) st = None"
    using stdin_exists [of ?a1] by auto
  from assms(4) obtain out where o: "ex (exec_request ?a1 v st) = Inr out" by blast
  show ?thesis
    using assms(3) v st o by (simp add: exec_run_def exec_do_def Let_def)
qed

text \<open>An approved, unexpired action that is cleared at execution time and whose executor does
  not fail is executed (RemoveIstioFault, whose payload builder is not implemented, apart): \<open>Execute\<close> returns it in Verifying, and \<open>Verify\<close>, when no verifier is
  wired, then ends it in Succeeded.\<close>

theorem cleared_action_runs:
  assumes inv: "guard_inv any_sod g" and get: "get_action g tid aid = Inr a"
    and st: "a_State a = ActionApproved" "d_now d 0 < a_ExpiresAt a"
    and key: "key \<noteq> []" "map_of (g_idem g) (idem_key tid ''execute'' key) = None"
    and clr: "cleared d g tid a t" and nri: "p_Type (a_Proposal a) \<noteq> ActionRemoveIstioFault"
    and ex: "d_executors d (a_ExecutorKind a) = Some ex" "\<And>r. \<exists>out. ex r = Inr out"
    and nov: "d_verifier d' = None"
  shows "\<exists>b g1 c. Execute d g tid aid who key = (Ret b, g1) \<and> a_State b = ActionVerifying
             \<and> map_of (g_actions (snd (Verify d' g1 tid aid))) aid = Some c
             \<and> a_State c = ActionSucceeded"
proof -
  let ?at = "set_target t a"
  have sp: "set_specs (a_Proposal a) = [p_Type (a_Proposal a)]"
    using inv get unfolding guard_inv_def row_ok_def get_action_Inr by blast
  have run: "\<exists>b. fst (exec_run d g tid aid who key x) = Ret b \<and> a_State b = ActionVerifying
             \<and> map_of (g_actions (snd (exec_run d g tid aid who key x))) aid = Some b"
    if "a_Proposal x = a_Proposal ?at" "a_ExecutorKind x = a_ExecutorKind a" for x
    using that sp ex nri by (intro exec_run_ok) auto
  have res: "resolve_target d tid (p_Target (a_Proposal a)) = Inr t"
    and uid: "tg_ResolvedUID (p_Target (a_Proposal a)) = []
         \<or> tg_ResolvedUID t = tg_ResolvedUID (p_Target (a_Proposal a))"
    and alw: "\<And>pol. get_policy d g tid = Inr pol \<Longrightarrow> checkAllowlists (a_Proposal ?at) pol = None"
    and sn: "snapshot_ok d tid (p_Target (a_Proposal ?at))"
    using clr by (auto simp: cleared_def)
  have "\<exists>x. exec_snapshot d g tid aid who key ?at = exec_run d g tid aid who key x
            \<and> a_Proposal x = a_Proposal ?at \<and> a_ExecutorKind x = a_ExecutorKind a"
    using sn by (auto simp: exec_snapshot_def snapshot_ok_def set_target_def split: option.splits)
  moreover have "exec_allow d g tid aid who key ?at = exec_snapshot d g tid aid who key ?at"
    using alw by (auto simp: exec_allow_def split: sum.split)
  moreover have "exec_resolve d g tid aid who key a = exec_allow d g tid aid who key ?at"
    using res uid by (auto simp: exec_resolve_def resolve_target_def split: option.splits)
  moreover have "Execute d g tid aid who key = exec_resolve d g tid aid who key a"
    using get st key by (simp add: Execute_def Let_def checkIdempotency_def)
  ultimately obtain x where "Execute d g tid aid who key = exec_run d g tid aid who key x"
    "a_Proposal x = a_Proposal ?at" "a_ExecutorKind x = a_ExecutorKind a" by auto
  with run [of x] obtain b g1 where b: "Execute d g tid aid who key = (Ret b, g1)"
    "a_State b = ActionVerifying" "map_of (g_actions g1) aid = Some b"
    by (metis prod.collapse)
  have "a_Tenant b = tid"
    using Execute_touches [of d g tid aid who key] get b(1,3)
    by (auto simp: touches_def get_action_Inr core_simps dest!: moves_core)
  then have "get_action g1 tid aid = Inr b" using b(3) by (simp add: get_action_Inr)
  then have "\<exists>c. map_of (g_actions (snd (Verify d' g1 tid aid))) aid = Some c \<and> a_State c = ActionSucceeded"
    using b(2) nov by (simp add: Verify_def verify_outcome_def Let_def split: option.split)
  with b(1,2) show ?thesis by blast
qed

lemma demo_g2_inv: "guard_inv any_sod demo_g2"
proof -
  have "reach (\<lambda>g. g = NewGuard demo_cfg) (guard_step (fresh_id :: unit op_guard)) demo_g2"
    by (rule demo_steps12) (simp_all add: fresh_id_def demo_g0_def NewGuard_def)
  then show ?thesis by (rule gord.reach_inv)
qed

lemma demo_cleared: "cleared demo_deps demo_g2 ''t1'' demo_approved demo_resolved"
proof -
  have "checkAllowlists ((a_Proposal demo_action)\<lparr>p_Target := demo_resolved\<rparr>) demo_policy = None"
    by (rule demo_allowed) (simp_all add: demo_resolved_def demo_target_def)
  then have "get_policy demo_deps demo_g2 ''t1'' = Inr pol
      \<Longrightarrow> checkAllowlists ((a_Proposal demo_action)\<lparr>p_Target := demo_resolved\<rparr>) pol = None" for pol
    by (simp add: get_policy_def demo_deps_def)
  moreover have "snapshot_ok demo_deps ''t1'' demo_resolved"
    by (simp add: snapshot_ok_def demo_deps_def)
  ultimately show ?thesis by (auto simp: cleared_def)
qed

theorem cleared_action_runs_witness:
  "\<exists>b g1. Execute demo_deps demo_g2 ''t1'' demo_id bob ''x1'' = (Ret b, g1)
          \<and> a_State b = ActionVerifying"
proof -
  have ex: "d_executors demo_deps (a_ExecutorKind demo_approved) = Some (DryRunExecutor_Do (\<lambda>_. ''ok''))"
    by (simp add: demo_deps_def default_executors_def)
  have "\<exists>b g1 c. Execute demo_deps demo_g2 ''t1'' demo_id bob ''x1'' = (Ret b, g1)
          \<and> a_State b = ActionVerifying
          \<and> map_of (g_actions (snd (Verify demo_deps g1 ''t1'' demo_id))) demo_id = Some c
          \<and> a_State c = ActionSucceeded"
    by (rule cleared_action_runs [OF demo_g2_inv demo_g2_get _ _ _ _ demo_cleared _ ex])
      (simp_all add: demo_g2_result DryRunExecutor_Do_def minute_def second_def, simp add: demo_deps_def)
  then show ?thesis by blast
qed

section \<open>Where the code departs from its design\<close>

text \<open>The second allowlist check fails open: when the policy store answers with an error at
  execution time, \<open>Execute\<close> goes on as if the action were still allowed, and the executor is
  called with no allowlist consulted.\<close>

theorem execute_fails_open:
  assumes "guard_inv any_sod g" and "get_action g tid aid = Inr a"
    and "a_State a = ActionApproved" "d_now d 0 < a_ExpiresAt a"
    and "key \<noteq> []" "map_of (g_idem g) (idem_key tid ''execute'' key) = None"
    and "d_policy d = Some f" "f tid = Inl err"
    and "d_resolver d = None" "d_snapshot d = None"
    and "p_Type (a_Proposal a) \<noteq> ActionRemoveIstioFault"
    and "d_executors d (a_ExecutorKind a) = Some ex" and "\<And>r. \<exists>out. ex r = Inr out"
  shows "\<exists>b g1. Execute d g tid aid who key = (Ret b, g1) \<and> a_State b = ActionVerifying"
proof -
  have "set_specs (a_Proposal a) = [p_Type (a_Proposal a)]"
    using assms(1,2) unfolding guard_inv_def row_ok_def get_action_Inr by blast
  from exec_run_ok [OF this assms(11-13), of g tid aid who key]
  obtain b where "fst (exec_run d g tid aid who key a) = Ret b" "a_State b = ActionVerifying" by blast
  moreover have "Execute d g tid aid who key = exec_run d g tid aid who key a"
    using assms(2-10)
    by (simp add: Execute_def Let_def checkIdempotency_def exec_resolve_def exec_allow_def
        get_policy_def exec_snapshot_def)
  ultimately show ?thesis by (metis prod.collapse)
qed

definition blind_deps :: "unit deps" where
  "blind_deps = demo_deps\<lparr>d_policy := Some (\<lambda>_. Inl ''store down''), d_resolver := None\<rparr>"

theorem execute_fails_open_witness:
  "\<exists>b g1. Execute blind_deps demo_g2 ''t1'' demo_id bob ''x1'' = (Ret b, g1)
          \<and> a_State b = ActionVerifying"
proof (rule execute_fails_open [OF demo_g2_inv demo_g2_get])
  show "d_policy blind_deps = Some (\<lambda>_. Inl ''store down'')" by (simp add: blind_deps_def)
  show "d_executors blind_deps (a_ExecutorKind demo_approved) = Some (DryRunExecutor_Do (\<lambda>_. ''ok''))"
    by (simp add: blind_deps_def demo_deps_def default_executors_def)
qed (simp_all add: demo_g2_result DryRunExecutor_Do_def minute_def second_def blind_deps_def,
     simp add: demo_deps_def)

text \<open>A failed action is not final: \<open>Rollback\<close> takes it to RolledBack, whether or not an
  executor ever ran for it.\<close>

theorem failed_can_roll_back:
  assumes "get_action g tid aid = Inr a" and "a_State a = ActionFailed"
    and "\<not> rollback_conflict d tid a"
  shows "\<exists>b. fst (Rollback d g tid aid who reason) = Ret b \<and> a_State b = ActionRolledBack
             \<and> a_ExecutedAt b = a_ExecutedAt a \<and> a_PreSnapshot b = a_PreSnapshot a"
  using assms by (simp add: Rollback_def Let_def)

definition gone_deps :: "unit deps" where
  "gone_deps = demo_deps\<lparr>d_resolver := Some (\<lambda>_ _. Inl ''gone'')\<rparr>"

definition demo_gf :: guard where
  "demo_gf = run_op gone_deps demo_g2 (OpExecute ''t1'' demo_id bob ''x1'')"

lemma demo_gf_get:
  "get_action demo_gf ''t1'' demo_id = Inr (failed ''target_not_resolvable'' 1000 demo_approved)"
proof -
  have "map_of (g_actions demo_gf) demo_id = Some (failed ''target_not_resolvable'' 1000 demo_approved)"
    by (simp add: demo_gf_def Execute_def demo_g2_get gone_deps_def checkIdempotency_def demo_g2_result
        exec_resolve_def Let_def minute_def second_def)
  then show ?thesis by (simp add: get_action_Inr failed_def)
qed

theorem failed_can_roll_back_witness:
  "\<exists>b. fst (Rollback gone_deps demo_gf ''t1'' demo_id bob []) = Ret b \<and> a_State b = ActionRolledBack"
proof -
  have st: "a_State (failed ''target_not_resolvable'' 1000 demo_approved) = ActionFailed" by simp
  have nc: "\<not> rollback_conflict gone_deps ''t1'' (failed ''target_not_resolvable'' 1000 demo_approved)"
    by (simp add: rollback_conflict_def gone_deps_def)
  from failed_can_roll_back [OF demo_gf_get st nc] show ?thesis by blast
qed

end
