(* ===== verification/Float64.thy ===== *)
theory Float64
  imports Complex_Main GoText
begin

text \<open>
  Go's \<open>float64\<close> arithmetic, executable: a finite value is a rational number, and the result of an
  operation is the exact result rounded to a 53-bit significand, ties to even.  Overflow, subnormal
  numbers, infinities and NaN are not modelled: the values of the code (rates between 0 and 1,
  token counts, nanoseconds divided by \<open>1e9\<close>) stay far from them.

  The locale \<open>rounding\<close> is the contract the components use; \<open>rnd64\<close> is its interpretation.
\<close>

section \<open>The exponent of a positive number\<close>

fun ilog2 :: "nat \<Rightarrow> nat" where
  "ilog2 n = (if n < 2 then 0 else Suc (ilog2 (n div 2)))"

declare ilog2.simps [simp del]

lemma ilog2_bounds: "0 < n \<Longrightarrow> 2 ^ ilog2 n \<le> n \<and> n < 2 ^ Suc (ilog2 n)"
proof (induction n rule: ilog2.induct)
  case (1 n)
  show ?case
  proof (cases "n < 2")
    case True
    with 1 show ?thesis by (simp add: ilog2.simps [of n])
  next
    case False
    with 1 have "2 ^ ilog2 (n div 2) \<le> n div 2 \<and> n div 2 < 2 ^ Suc (ilog2 (n div 2))" by simp
    then have "2 * 2 ^ ilog2 (n div 2) \<le> n \<and> n < 2 * 2 ^ Suc (ilog2 (n div 2))" by linarith
    with False show ?thesis by (simp add: ilog2.simps [of n])
  qed
qed

definition exponent :: "rat \<Rightarrow> int" where
  "exponent x =
     (if 1 \<le> x then int (ilog2 (nat \<lfloor>x\<rfloor>))
      else let i = int (ilog2 (nat \<lfloor>1 / x\<rfloor>)) in
           if x = 2 powi (- i) then - i else - i - 1)"

lemma powi_two_pos [simp]: "0 < (2 :: rat) powi e"
  by (simp add: zero_less_power_int)

lemma powi_two_add: "(2 :: rat) powi (a + b) = 2 powi a * 2 powi b"
  by (simp add: power_int_add)

lemma powi_two_le: "a \<le> b \<Longrightarrow> (2 :: rat) powi a \<le> 2 powi b"
  by (rule power_int_increasing) auto

lemma powi_two_less: "a < b \<Longrightarrow> (2 :: rat) powi a < 2 powi b"
  by (rule power_int_strict_increasing) auto

lemma powi_two_nat: "(2 :: rat) powi int n = 2 ^ n"
  by simp

lemma ilog2_floor:
  assumes "1 \<le> (x :: rat)"
  shows "2 powi int (ilog2 (nat \<lfloor>x\<rfloor>)) \<le> x" and "x < 2 powi (int (ilog2 (nat \<lfloor>x\<rfloor>)) + 1)"
proof -
  let ?n = "nat \<lfloor>x\<rfloor>"
  have "1 \<le> \<lfloor>x\<rfloor>" using assms by simp
  then have n: "0 < ?n" and i: "int ?n = \<lfloor>x\<rfloor>" by simp_all
  have r: "(of_nat ?n :: rat) = of_int \<lfloor>x\<rfloor>" using i by (metis of_int_of_nat_eq)
  have f: "of_nat ?n \<le> x" and g: "x < of_nat ?n + 1"
    unfolding r by (rule of_int_floor_le, linarith)
  from ilog2_bounds [OF n] have "2 ^ ilog2 ?n \<le> ?n" "Suc ?n \<le> 2 ^ Suc (ilog2 ?n)" by simp_all
  then have "of_nat (2 ^ ilog2 ?n) \<le> (of_nat ?n :: rat)"
    "(of_nat (Suc ?n) :: rat) \<le> of_nat (2 ^ Suc (ilog2 ?n))" by (simp_all only: of_nat_mono)
  with f g have "(2 :: rat) ^ ilog2 ?n \<le> x" "x < (2 :: rat) ^ Suc (ilog2 ?n)"
    unfolding of_nat_power of_nat_numeral of_nat_Suc by linarith+
  then show "2 powi int (ilog2 ?n) \<le> x" "x < 2 powi (int (ilog2 ?n) + 1)"
    by (simp_all add: powi_two_add mult.commute)
qed

lemma exponent_bounds:
  assumes "0 < x"
  shows "2 powi exponent x \<le> x \<and> x < 2 powi (exponent x + 1)"
proof (cases "1 \<le> x")
  case True
  with ilog2_floor [OF True] show ?thesis by (simp add: exponent_def)
next
  case False
  define i where "i = int (ilog2 (nat \<lfloor>1 / x\<rfloor>))"
  from False assms have "1 \<le> 1 / x" by simp
  from ilog2_floor [OF this] assms
  have le: "x * 2 powi i \<le> 1" and gt: "1 < x * 2 powi (i + 1)"
    unfolding i_def by (simp_all add: field_simps)
  have u: "x \<le> 2 powi (- i)" using le by (simp add: power_int_minus field_simps)
  have l: "2 powi (- i - 1) < x"
  proof -
    have "2 powi (- i - 1) * 2 powi (i + 1) = (1 :: rat)" by (simp flip: powi_two_add)
    with gt have "2 powi (- i - 1) * 2 powi (i + 1) < x * 2 powi (i + 1)" by simp
    then show ?thesis by (simp only: mult_less_cancel_right_pos [OF powi_two_pos])
  qed
  have e: "exponent x = (if x = 2 powi (- i) then - i else - i - 1)"
    using False by (simp add: exponent_def Let_def i_def)
  have "(2 :: rat) powi (- i) < 2 powi (- i + 1)" by (rule powi_two_less) simp
  with u l e show ?thesis by (cases "x = 2 powi (- i)") simp_all
qed

section \<open>Rounding to an integer, ties to even\<close>

definition rne :: "rat \<Rightarrow> int" where
  "rne x =
     (let f = \<lfloor>x\<rfloor>; d = x - of_int f in
      if d < 1 / 2 then f else if 1 / 2 < d then f + 1 else if even f then f else f + 1)"

lemma rne_of_int [simp]: "rne (of_int n) = n"
  by (simp add: rne_def)

lemma rne_floor: "\<lfloor>x\<rfloor> \<le> rne x" "rne x \<le> \<lfloor>x\<rfloor> + 1"
  by (simp_all add: rne_def Let_def)

lemma rne_mono:
  assumes "x \<le> y"
  shows "rne x \<le> rne y"
proof (cases "\<lfloor>x\<rfloor> = \<lfloor>y\<rfloor>")
  case True
  with assms show ?thesis by (auto simp: rne_def Let_def)
next
  case False
  with floor_mono [OF assms] have "\<lfloor>x\<rfloor> + 1 \<le> \<lfloor>y\<rfloor>" by linarith
  with rne_floor(2) [of x] rne_floor(1) [of y] show ?thesis by linarith
qed

section \<open>Rounding to 53 bits\<close>

definition ulp :: "rat \<Rightarrow> rat" where
  "ulp x = 2 powi (exponent x - 52)"

definition round_pos :: "rat \<Rightarrow> rat" where
  "round_pos x = of_int (rne (x / ulp x)) * ulp x"

definition rnd64 :: "rat \<Rightarrow> rat" where
  "rnd64 x = (if x = 0 then 0 else if 0 < x then round_pos x else - round_pos (- x))"

definition is_float :: "rat \<Rightarrow> bool" where
  "is_float x = (\<exists>m k. x = of_int m * 2 powi k \<and> \<bar>m\<bar> \<le> 2 ^ 53)"

lemma ulp_pos [simp]: "0 < ulp x"
  by (simp add: ulp_def)

lemma ulp_scale: "2 powi e / ulp x = 2 powi (e - exponent x + 52)"
  by (simp add: ulp_def field_simps flip: powi_two_add)

lemma scaled_bounds:
  assumes "0 < x"
  shows "of_int (2 ^ 52) \<le> x / ulp x \<and> x / ulp x \<le> of_int (2 ^ 53)"
proof -
  have "2 powi exponent x / ulp x \<le> x / ulp x" "x / ulp x \<le> 2 powi (exponent x + 1) / ulp x"
    using exponent_bounds [OF assms] by (simp_all add: divide_right_mono less_imp_le)
  then show ?thesis unfolding ulp_scale by simp
qed

lemma significand_bounds: "0 < x \<Longrightarrow> 2 ^ 52 \<le> rne (x / ulp x) \<and> rne (x / ulp x) \<le> 2 ^ 53"
  using scaled_bounds [of x] rne_mono [of "of_int (2 ^ 52)" "x / ulp x"]
    rne_mono [of "x / ulp x" "of_int (2 ^ 53)"] unfolding rne_of_int by blast

lemma round_pos_bounds:
  assumes "0 < x"
  shows "2 powi exponent x \<le> round_pos x" and "round_pos x \<le> 2 powi (exponent x + 1)"
proof -
  have "(of_int (2 ^ 52) :: rat) \<le> of_int (rne (x / ulp x))"
    "(of_int (rne (x / ulp x)) :: rat) \<le> of_int (2 ^ 53)"
    using significand_bounds [OF assms] by (simp_all only: of_int_le_iff)
  then have "of_int (2 ^ 52) * ulp x \<le> round_pos x" "round_pos x \<le> of_int (2 ^ 53) * ulp x"
    unfolding round_pos_def by (simp_all only: mult_right_mono less_imp_le ulp_pos)
  moreover have "of_int (2 ^ 52) * ulp x = 2 powi exponent x"
    "of_int (2 ^ 53) * ulp x = 2 powi (exponent x + 1)"
    using powi_two_add [of 52 "exponent x - 52"] powi_two_add [of 53 "exponent x - 52"]
    by (simp_all add: ulp_def add.commute)
  ultimately show "2 powi exponent x \<le> round_pos x" "round_pos x \<le> 2 powi (exponent x + 1)"
    by simp_all
qed

lemma round_pos_pos: "0 < x \<Longrightarrow> 0 < round_pos x"
  using round_pos_bounds(1) [of x] by (meson less_le_trans powi_two_pos)

lemma exponent_mono:
  assumes "0 < x" and "x \<le> y"
  shows "exponent x \<le> exponent y"
proof (rule ccontr)
  assume "\<not> ?thesis"
  then have "(2 :: rat) powi (exponent y + 1) \<le> 2 powi exponent x" by (intro powi_two_le) simp
  with exponent_bounds [of x] exponent_bounds [of y] assms show False by simp
qed

lemma round_pos_mono:
  assumes "0 < x" and "x \<le> y"
  shows "round_pos x \<le> round_pos y"
proof (cases "exponent x = exponent y")
  case True
  then have u: "ulp y = ulp x" by (simp add: ulp_def)
  have "rne (x / ulp x) \<le> rne (y / ulp x)"
    using assms by (intro rne_mono divide_right_mono) (simp_all add: less_imp_le)
  then show ?thesis unfolding round_pos_def u by (simp add: mult_right_mono less_imp_le)
next
  case False
  with exponent_mono [OF assms] have "(2 :: rat) powi (exponent x + 1) \<le> 2 powi exponent y"
    by (intro powi_two_le) simp
  with round_pos_bounds(2) [of x] round_pos_bounds(1) [of y] assms show ?thesis by simp
qed

lemma rnd64_mono:
  assumes "x \<le> y"
  shows "rnd64 x \<le> rnd64 y"
proof -
  consider "0 < x" | "x \<le> 0" "0 \<le> y" | "y < 0" using assms by linarith
  then show ?thesis
  proof cases
    case 1
    with assms show ?thesis by (simp add: rnd64_def round_pos_mono)
  next
    case 2
    then show ?thesis
      using round_pos_pos [of "- x"] round_pos_pos [of y] by (auto simp: rnd64_def)
  next
    case 3
    with assms round_pos_mono [of "- y" "- x"] show ?thesis by (simp add: rnd64_def)
  qed
qed

lemma is_float_round_pos: "0 < x \<Longrightarrow> is_float (round_pos x)"
  unfolding is_float_def round_pos_def ulp_def
  using significand_bounds [of x] by (intro exI [of _ "rne (x / ulp x)"] exI) (auto simp: ulp_def)

lemma is_float_minus: "is_float x \<Longrightarrow> is_float (- x)"
proof -
  assume "is_float x"
  then obtain m k where "x = of_int m * 2 powi k" "\<bar>m\<bar> \<le> 2 ^ 53" by (auto simp: is_float_def)
  then have "- x = of_int (- m) * 2 powi k \<and> \<bar>- m\<bar> \<le> 2 ^ 53" by simp
  then show ?thesis unfolding is_float_def by blast
qed

lemma is_float_of_int: "\<bar>n\<bar> \<le> 2 ^ 53 \<Longrightarrow> is_float (of_int n)"
  unfolding is_float_def by (intro exI [of _ n] exI [of _ 0]) simp

lemma is_float_rnd64: "is_float (rnd64 x)"
  using is_float_of_int [of 0] is_float_round_pos [of x] is_float_round_pos [of "- x"]
  by (auto simp: rnd64_def intro!: is_float_minus)

lemma round_pos_exact:
  assumes "is_float x" and "0 < x"
  shows "round_pos x = x"
proof -
  from assms(1) obtain m k where x: "x = of_int m * 2 powi k" and m: "\<bar>m\<bar> \<le> 2 ^ 53"
    by (auto simp: is_float_def)
  have "\<exists>n. x / ulp x = of_int n"
  proof (cases "exponent x - 52 \<le> k")
    case True
    then obtain j where j: "k = exponent x - 52 + int j" by (metis zle_iff_zadd)
    have "(2 :: rat) powi k = ulp x * 2 ^ j" unfolding j powi_two_add ulp_def by simp
    with x have "x = of_int (m * 2 ^ j) * ulp x" by (simp add: mult_ac)
    then have "x / ulp x = of_int (m * 2 ^ j)" using less_imp_neq [OF ulp_pos [of x]]
      by (simp add: divide_eq_eq)
    then show ?thesis by blast
  next
    case False
    have "of_int m \<le> (of_int (2 ^ 53) :: rat)" using m by (simp only: of_int_le_iff)
    then have "x \<le> 2 powi (53 + k)"
      unfolding x powi_two_add by (intro mult_right_mono) (simp_all add: less_imp_le)
    moreover have "(2 :: rat) powi (53 + k) \<le> 2 powi exponent x" using False by (intro powi_two_le) simp
    ultimately have "x = 2 powi exponent x" using exponent_bounds [OF assms(2)] by simp
    then have "x / ulp x = of_int (2 ^ 52)" using ulp_scale [of "exponent x" x] by simp
    then show ?thesis by blast
  qed
  then obtain n where n: "x / ulp x = of_int n" by blast
  then have "round_pos x = of_int n * ulp x" by (simp add: round_pos_def)
  also have "\<dots> = x" using n ulp_pos [of x] by (simp add: divide_eq_eq)
  finally show ?thesis .
qed

lemma rnd64_exact: "is_float x \<Longrightarrow> rnd64 x = x"
  using round_pos_exact [of x] round_pos_exact [of "- x"] is_float_minus [of x]
  by (auto simp: rnd64_def)

section \<open>The contract\<close>

locale rounding =
  fixes rnd :: "rat \<Rightarrow> rat" and rep :: "rat \<Rightarrow> bool"
  assumes mono: "x \<le> y \<Longrightarrow> rnd x \<le> rnd y"
    and exact: "rep x \<Longrightarrow> rnd x = x"
    and rep_rnd: "rep (rnd x)"
    and rep_int: "\<bar>n\<bar> \<le> 2 ^ 53 \<Longrightarrow> rep (of_int n)"
begin

lemma idem: "rnd (rnd x) = rnd x"
  by (rule exact, rule rep_rnd)

lemma ge: "rep a \<Longrightarrow> a \<le> x \<Longrightarrow> a \<le> rnd x"
  using mono [of a x] exact [of a] by simp

lemma le: "rep a \<Longrightarrow> x \<le> a \<Longrightarrow> rnd x \<le> a"
  using mono [of x a] exact [of a] by simp

lemma nonneg: "0 \<le> x \<Longrightarrow> 0 \<le> rnd x"
  using ge [of 0 x] rep_int [of 0] by simp

lemma unit: "0 \<le> x \<Longrightarrow> x \<le> 1 \<Longrightarrow> 0 \<le> rnd x \<and> rnd x \<le> 1"
  using nonneg [of x] le [of 1 x] rep_int [of 1] by simp

end

interpretation fl: rounding rnd64 is_float
  by unfold_locales (fact rnd64_mono rnd64_exact is_float_rnd64 is_float_of_int)+

section \<open>Conversions\<close>

text \<open>
  \<open>uint64(x)\<close> truncates towards zero; the result for a value outside the range of the type is
  left to the implementation by the Go specification, so it is an argument.
\<close>

definition u64_of_float :: "(rat \<Rightarrow> 64 word) \<Rightarrow> rat \<Rightarrow> 64 word" where
  "u64_of_float oob x =
     (if - 1 < x \<and> x < 2 ^ 64 then word_of_int (if 0 \<le> x then \<lfloor>x\<rfloor> else \<lceil>x\<rceil>) else oob x)"

section \<open>Printing with a fixed number of decimals\<close>

text \<open>\<open>%.df\<close> on a finite float64: the exact value rounded to \<open>d\<close> decimals, ties to even.\<close>

definition fmt_fixed :: "nat \<Rightarrow> rat \<Rightarrow> string" where
  "fmt_fixed d x =
     (let n = nat (rne (\<bar>x\<bar> * 10 ^ d)) in
      (if x < 0 then [CHR ''-''] else [])
      @ show_nat (n div 10 ^ d)
      @ (if d = 0 then [] else CHR ''.'' # pad_nat d (n mod 10 ^ d)))"

lemma rne_eqI: "of_int n \<le> x \<Longrightarrow> x - of_int n < 1 / 2 \<Longrightarrow> rne x = n"
proof -
  assume a: "of_int n \<le> x" "x - of_int n < 1 / 2"
  then have "\<lfloor>x\<rfloor> = n" by (intro floor_unique) auto
  with a show ?thesis by (simp add: rne_def)
qed

lemma fmt_fixed_examples: "fmt_fixed 2 (17/20) = ''0.85''" "fmt_fixed 0 (401/4) = ''100''"
proof -
  have "rne (401/4) = 100" by (rule rne_eqI) auto
  then show "fmt_fixed 0 (401/4) = ''100''"
    by (simp add: fmt_fixed_def Let_def show_nat.simps char_of_def bit_Suc bit_0)
  have "rne 85 = 85" by (rule rne_eqI) auto
  then show "fmt_fixed 2 (17/20) = ''0.85''"
    by (simp add: fmt_fixed_def Let_def pad_nat_def show_nat.simps char_of_def bit_Suc bit_0)
qed

end
