(* ===== verification/Telemetry.thy ===== *)
theory Telemetry
  imports Float64
begin

text \<open>
  internal/model/telemetry.go, red.go and tenancy.go: the canonical span and trace, and the span
  helpers of internal/sampler/spanutil.go (the methods of \<open>model.Span\<close> panic in this commit).

  Identifiers are byte strings (16 bytes for a trace, 8 for a span); unsigned machine integers are
  words.  Attribute maps are association lists with distinct keys.  A \<open>uint8\<close> enum is a datatype
  with one constructor for the undeclared values.
\<close>

type_synonym trace_id = string
type_synonym span_id = string

definition no_trace :: trace_id where
  "no_trace = replicate 16 (CHR 0x00)"

definition no_span :: span_id where
  "no_span = replicate 8 (CHR 0x00)"

datatype span_kind =
    SpanKindUnspecified | SpanKindInternal | SpanKindServer | SpanKindClient
  | SpanKindProducer | SpanKindConsumer | SpanKindUndeclared "8 word"

datatype status_code = StatusUnset | StatusOk | StatusError | StatusUndeclared "8 word"

datatype source_format = SourceOTLP | SourceJaegerProto | SourceJaegerThrift | SourceZipkinV2

datatype attr_kind =
    AttrStr | AttrBool | AttrInt | AttrFloat | AttrBytes | AttrSlice | AttrMapK

datatype attr_value =
  AttrValue (av_Kind: attr_kind) (av_Str: string) (av_Num: int) (av_Float: rat) (av_Bytes: string)
    (av_List: "attr_value list") (av_Map: "(string \<times> attr_value) list")

type_synonym attr_map = "(string \<times> attr_value) list"

record resource =
  res_ID :: string
  res_ServiceName :: string
  res_ServiceVersion :: string
  res_Namespace :: string
  res_Env :: string
  res_Attrs :: attr_map

record scope =
  sc_Name :: string
  sc_Version :: string
  sc_Attrs :: attr_map

record span_event =
  evt_Name :: string
  evt_TimeUnixNano :: "64 word"
  evt_Attrs :: attr_map

record span_link =
  ln_TraceID :: trace_id
  ln_SpanID :: span_id
  ln_Attrs :: attr_map

record status =
  st_Code :: status_code
  st_Message :: string

record span =
  sp_TraceID :: trace_id
  sp_SpanID :: span_id
  sp_ParentSpanID :: span_id
  sp_TraceState :: string
  sp_Flags :: "32 word"
  sp_Name :: string
  sp_Kind :: span_kind
  sp_StartUnixNano :: "64 word"
  sp_EndUnixNano :: "64 word"
  sp_Status :: status
  sp_Attrs :: attr_map
  sp_Resource :: "resource option"
  sp_Scope :: "scope option"
  sp_Events :: "span_event list"
  sp_Links :: "span_link list"
  sp_DroppedAttrsCount :: "32 word"
  sp_DroppedEventsCount :: "32 word"
  sp_DroppedLinksCount :: "32 word"
  sp_Tenant :: tenant_id
  sp_SourceFormat :: source_format
  sp_ReceivedUnixNano :: "64 word"
  sp_SizeBytes :: "32 word"
  sp_Truncated :: bool

record model_trace =
  mt_TraceID :: trace_id
  mt_Tenant :: tenant_id
  mt_Spans :: "span list"
  mt_RootSpanID :: span_id
  mt_RootService :: string
  mt_RootOperation :: string
  mt_StartUnixNano :: "64 word"
  mt_EndUnixNano :: "64 word"
  mt_DurationNanos :: "64 word"
  mt_SpanCount :: int
  mt_ErrorCount :: int
  mt_Services :: "string list"
  mt_PathSignature :: "64 word"
  mt_Complete :: bool
  mt_Truncated :: bool
  mt_SizeBytes :: "64 word"
  mt_AssembledAt :: "64 word"

datatype keep_reason =
    KeepError | KeepSlow | KeepRare | KeepInterest | KeepFloor | KeepProbabilistic
  | KeepDropped | KeepShed | KeepTruncated

fun keep_code :: "keep_reason \<Rightarrow> nat" where
  "keep_code KeepError = 1"
| "keep_code KeepSlow = 2"
| "keep_code KeepRare = 3"
| "keep_code KeepInterest = 4"
| "keep_code KeepFloor = 5"
| "keep_code KeepProbabilistic = 6"
| "keep_code KeepDropped = 7"
| "keep_code KeepShed = 8"
| "keep_code KeepTruncated = 9"

lemma keep_code_inj: "keep_code r = keep_code s \<longleftrightarrow> r = s"
  by (cases r; cases s) simp_all

section \<open>Integer conversions\<close>

text \<open>\<open>uint64(n)\<close> of a signed integer, and \<open>time.Duration(w)\<close> of a \<open>uint64\<close>.\<close>

definition u64 :: "int \<Rightarrow> 64 word" where
  "u64 n = word_of_int n"

definition duration_of_u64 :: "64 word \<Rightarrow> duration" where
  "duration_of_u64 w = sint w"

text \<open>Integer division truncates towards zero.\<close>

definition quot :: "int \<Rightarrow> int \<Rightarrow> int" where
  "quot a b = sgn a * sgn b * (\<bar>a\<bar> div \<bar>b\<bar>)"

lemma duration_of_small: "uint w < 2 ^ 63 \<Longrightarrow> duration_of_u64 w = uint w"
  unfolding duration_of_u64_def
  by (simp add: sint_uint signed_take_bit_int_eq_self_iff) (rule order.trans [OF _ uint_ge_0], simp)

section \<open>spanutil.go\<close>

definition spanIsError :: "span \<Rightarrow> bool" where
  "spanIsError s =
     (if st_Code (sp_Status s) = StatusError then True
      else case map_of (sp_Attrs s) ''error.type'' of
        Some v \<Rightarrow> av_Kind v = AttrStr \<and> av_Str v \<noteq> []
      | None \<Rightarrow> False)"

definition spanDurationNanos :: "span \<Rightarrow> 64 word" where
  "spanDurationNanos s =
     (if sp_EndUnixNano s \<le> sp_StartUnixNano s then 0 else sp_EndUnixNano s - sp_StartUnixNano s)"

definition spanService :: "span \<Rightarrow> string" where
  "spanService s = (case sp_Resource s of Some r \<Rightarrow> res_ServiceName r | None \<Rightarrow> [])"

definition spanIsRoot :: "span \<Rightarrow> bool" where
  "spanIsRoot s = (sp_ParentSpanID s = no_span)"

definition traceHasError :: "span list \<Rightarrow> bool" where
  "traceHasError spans = list_ex spanIsError spans"

definition traceMaxDurationNanos :: "span list \<Rightarrow> 64 word" where
  "traceMaxDurationNanos spans =
     foldl (\<lambda>m s. let d = spanDurationNanos s in if d > m then d else m) 0 spans"

definition traceRootService :: "span list \<Rightarrow> string" where
  "traceRootService spans =
     (case find spanIsRoot spans of
        Some s \<Rightarrow> spanService s
      | None \<Rightarrow> (case spans of [] \<Rightarrow> [] | s # _ \<Rightarrow> spanService s))"

text \<open>A duration never wraps around: it is the difference of the timestamps, or zero.\<close>

lemma spanDurationNanos_exact:
  "uint (spanDurationNanos s) = max 0 (uint (sp_EndUnixNano s) - uint (sp_StartUnixNano s))"
  by (auto simp: spanDurationNanos_def word_le_def uint_minus_simple_alt max_def)
    (metis linorder_le_cases uint_minus_simple_alt word_le_def)

lemma traceMax_ge: "foldl (\<lambda>m s. let d = f s in if d > m then d else m) m0 xs \<ge> (m0 :: 64 word)"
  by (induction xs arbitrary: m0) (auto simp: Let_def intro: order.trans less_imp_le)

lemma traceMax_upper:
  "x \<in> set xs \<Longrightarrow> f x \<le> foldl (\<lambda>m s. let d = f s in if d > m then d else m) (m0 :: 64 word) xs"
proof (induction xs arbitrary: m0)
  case (Cons y ys)
  let ?m = "if f y > m0 then f y else m0"
  have "f y \<le> ?m" by auto
  also have "?m \<le> foldl (\<lambda>m s. let d = f s in if d > m then d else m) ?m ys" by (rule traceMax_ge)
  finally show ?case using Cons by (auto simp: Let_def)
qed simp

lemma traceMaxDurationNanos_upper: "s \<in> set spans \<Longrightarrow> spanDurationNanos s \<le> traceMaxDurationNanos spans"
  unfolding traceMaxDurationNanos_def by (rule traceMax_upper)

end
