(* ===== verification/PathSignature.thy ===== *)
theory PathSignature
  imports Telemetry "HOL-Library.Multiset" "HOL-Library.Product_Lexorder" "HOL-Library.List_Lexorder"
begin

text \<open>
  \<open>computePathSignature\<close> of internal/sampler/spanutil.go: the byte stream of (caller, callee)
  edges in a pre-order walk of the span tree.  The 64-bit xxhash is an argument.

  The walk of the code is a recursion on the \<open>children\<close> map that nothing in the function bounds;
  it is modelled with fuel, \<open>None\<close> when the fuel runs out.  With pairwise distinct span
  identifiers (which the assembler guarantees) the depth is bounded by the number of spans; with a
  repeated identifier the walk of the code may not end.
\<close>

definition span_key :: "span \<Rightarrow> int \<times> nat list" where
  "span_key s = (uint (sp_StartUnixNano s), map of_char (sp_SpanID s))"

definition by_start :: "span list \<Rightarrow> span list" where
  "by_start xs = sort_key span_key xs"

definition has_parent :: "span list \<Rightarrow> span \<Rightarrow> bool" where
  "has_parent spans s = list_ex (\<lambda>t. sp_SpanID t = sp_ParentSpanID s) spans"

definition is_walk_root :: "span list \<Rightarrow> span \<Rightarrow> bool" where
  "is_walk_root spans s = (spanIsRoot s \<or> \<not> has_parent spans s)"

definition walk_roots :: "span list \<Rightarrow> span list" where
  "walk_roots spans = by_start (filter (is_walk_root spans) spans)"

definition kids :: "span list \<Rightarrow> span_id \<Rightarrow> span list" where
  "kids spans i = by_start (filter (\<lambda>s. \<not> is_walk_root spans s \<and> sp_ParentSpanID s = i) spans)"

definition edge_bytes :: "span option \<Rightarrow> span \<Rightarrow> string" where
  "edge_bytes parent s =
     (case parent of
        None \<Rightarrow> []
      | Some p \<Rightarrow> spanService p @ [CHR 0x00] @ sp_Name p @ [CHR 0x00]
                @ spanService s @ [CHR 0x00] @ sp_Name s @ [CHR 0x00])"

text \<open>The bytes the walk writes to the hasher.\<close>

fun visit :: "nat \<Rightarrow> span list \<Rightarrow> span option \<Rightarrow> span \<Rightarrow> string option" where
  "visit 0 spans parent s = None"
| "visit (Suc n) spans parent s =
     map_option (\<lambda>bs. edge_bytes parent s @ concat bs)
       (those (map (visit n spans (Some s)) (kids spans (sp_SpanID s))))"

definition signature_bytes :: "nat \<Rightarrow> span list \<Rightarrow> string option" where
  "signature_bytes n spans = map_option concat (those (map (visit n spans None) (walk_roots spans)))"

text \<open>
  The signature, with the fuel that is enough for distinct identifiers: \<open>h.Sum64()\<close> is the hash
  of everything written.
\<close>

definition computePathSignature :: "(string \<Rightarrow> 64 word) \<Rightarrow> span list \<Rightarrow> 64 word option" where
  "computePathSignature xxh spans = map_option xxh (signature_bytes (length spans) spans)"

section \<open>The walk ends\<close>

lemma those_all: "(\<forall>x \<in> set xs. \<exists>y. f x = Some y) \<Longrightarrow> \<exists>ys. those (map f xs) = Some ys"
  by (induction xs) auto

lemma set_kids: "set (kids spans i) = {s \<in> set spans. \<not> is_walk_root spans s \<and> sp_ParentSpanID s = i}"
  by (auto simp: kids_def by_start_def)

lemma set_walk_roots: "set (walk_roots spans) = {s \<in> set spans. is_walk_root spans s}"
  by (auto simp: walk_roots_def by_start_def)

text \<open>A path of the walk: from a root, each span a child of the one before (newest first).\<close>

fun walk_path :: "span list \<Rightarrow> span list \<Rightarrow> bool" where
  "walk_path spans [] = False"
| "walk_path spans [s] = (s \<in> set spans \<and> is_walk_root spans s)"
| "walk_path spans (k # s # p) = (k \<in> set (kids spans (sp_SpanID s)) \<and> walk_path spans (s # p))"

lemma walk_path_set: "walk_path spans p \<Longrightarrow> set p \<subseteq> set spans"
  by (induction spans p rule: walk_path.induct) (auto simp: set_kids)

lemma walk_path_parent:
  "walk_path spans p \<Longrightarrow> x \<in> set p \<Longrightarrow> \<not> is_walk_root spans x
     \<Longrightarrow> \<exists>y \<in> set (tl p). sp_ParentSpanID x = sp_SpanID y"
  by (induction spans p rule: walk_path.induct) (auto simp: set_kids)

text \<open>In a path with distinct spans, a child of the newest span is new.\<close>

lemma walk_path_new:
  assumes "walk_path spans (s # p)" and "distinct (s # p)"
    and inj: "inj_on sp_SpanID (set spans)" and k: "k \<in> set (kids spans (sp_SpanID s))"
  shows "k \<notin> set (s # p)"
proof
  assume "k \<in> set (s # p)"
  with assms(1) k obtain y where y: "y \<in> set p" "sp_ParentSpanID k = sp_SpanID y"
    using walk_path_parent [of spans "s # p" k] by (auto simp: set_kids)
  from k have "sp_SpanID y = sp_SpanID s" using y(2) by (simp add: set_kids)
  moreover have "y \<in> set spans" "s \<in> set spans" using walk_path_set [OF assms(1)] y(1) by auto
  ultimately have "y = s" using inj by (auto dest: inj_onD)
  with y(1) assms(2) show False by simp
qed

lemma visit_ends:
  assumes "inj_on sp_SpanID (set spans)"
  shows "walk_path spans (s # p) \<Longrightarrow> distinct (s # p) \<Longrightarrow> card (set spans) < n + length (s # p)
           \<Longrightarrow> \<exists>bs. visit n spans parent s = Some bs"
proof (induction n arbitrary: s p parent)
  case 0
  have "length (s # p) = card (set (s # p))" using 0(2) distinct_card by metis
  also have "\<dots> \<le> card (set spans)" by (intro card_mono walk_path_set 0(1)) simp
  finally show ?case using 0(3) by simp
next
  case (Suc n)
  have "\<exists>bs. visit n spans (Some s) k = Some bs" if k: "k \<in> set (kids spans (sp_SpanID s))" for k
  proof (rule Suc.IH)
    show "walk_path spans (k # s # p)" using k Suc.prems(1) by simp
    show "distinct (k # s # p)"
      using walk_path_new [OF Suc.prems(1,2) assms k] Suc.prems(2) by simp
    show "card (set spans) < n + length (k # s # p)" using Suc.prems(3) by simp
  qed
  then show ?case using those_all [of "kids spans (sp_SpanID s)" "visit n spans (Some s)"] by auto
qed

lemma signature_exists:
  assumes "inj_on sp_SpanID (set spans)" and "length spans \<le> n"
  shows "\<exists>bs. signature_bytes n spans = Some bs"
proof -
  have "\<exists>bs. visit n spans None r = Some bs" if "r \<in> set (walk_roots spans)" for r
  proof (rule visit_ends [OF assms(1), where p = "[]"])
    show "walk_path spans [r]" using that by (simp add: set_walk_roots)
    show "card (set spans) < n + length [r]" using card_length [of spans] assms(2) by simp
  qed simp
  then show ?thesis
    using those_all [of "walk_roots spans" "visit n spans None"] by (auto simp: signature_bytes_def)
qed

text \<open>\<open>computePathSignature\<close> returns for every trace whose span identifiers are pairwise
  distinct: the walk never descends deeper than the number of spans, whatever the parent links
  are, cycles included.\<close>

theorem path_walk_ends:
  assumes "distinct (map sp_SpanID spans)"
  shows "\<exists>w. computePathSignature xxh spans = Some w"
  using assms signature_exists [of spans "length spans"]
  by (auto simp: computePathSignature_def distinct_map)

section \<open>The signature does not depend on the order of arrival\<close>

lemma filter_mset_cong_list: "mset xs = mset ys \<Longrightarrow> mset (filter P xs) = mset (filter P ys)"
  by (metis mset_filter)

lemma span_key_inj: "inj_on sp_SpanID A \<Longrightarrow> inj_on span_key A"
  by (auto simp: inj_on_def span_key_def dest!: map_injective [rotated])

lemma by_start_cong:
  assumes "mset xs = mset ys" and "inj_on sp_SpanID (set xs)"
  shows "by_start xs = by_start ys"
  unfolding by_start_def
proof (rule sort_key_inj_key_eq)
  show "mset xs = mset (sort_key span_key ys)" using assms(1) by simp
  show "inj_on span_key (set xs)" using assms(2) by (rule span_key_inj)
qed simp

lemma is_walk_root_cong: "set xs = set ys \<Longrightarrow> is_walk_root xs = is_walk_root ys"
  by (auto simp: is_walk_root_def has_parent_def list_ex_iff fun_eq_iff)

lemma kids_cong:
  assumes "mset xs = mset ys" and "inj_on sp_SpanID (set xs)"
  shows "kids xs i = kids ys i" and "walk_roots xs = walk_roots ys"
proof -
  have s: "set xs = set ys" using assms(1) by (rule mset_eq_setD)
  have sub: "inj_on sp_SpanID (set (filter P xs))" for P
    using assms(2) by (rule inj_on_subset) auto
  show "kids xs i = kids ys i"
    unfolding kids_def is_walk_root_cong [OF s]
    by (intro by_start_cong filter_mset_cong_list assms(1) sub)
  show "walk_roots xs = walk_roots ys"
    unfolding walk_roots_def is_walk_root_cong [OF s]
    by (intro by_start_cong filter_mset_cong_list assms(1) sub)
qed

lemma visit_cong:
  assumes "mset xs = mset ys" and "inj_on sp_SpanID (set xs)"
  shows "visit n xs parent s = visit n ys parent s"
  by (induction n arbitrary: parent s) (simp_all add: kids_cong [OF assms] cong: map_cong)

text \<open>The path signature depends on the set of spans and not on the order in which they
  arrived.\<close>

theorem signature_order_independent:
  assumes "mset xs = mset ys" and "distinct (map sp_SpanID xs)"
  shows "computePathSignature xxh xs = computePathSignature xxh ys"
proof -
  have inj: "inj_on sp_SpanID (set xs)" using assms(2) by (simp add: distinct_map)
  have "length xs = length ys" using assms(1) by (rule mset_eq_length)
  moreover have "signature_bytes n xs = signature_bytes n ys" for n
    using visit_cong [OF assms(1) inj] kids_cong [OF assms(1) inj]
    by (simp add: signature_bytes_def cong: map_cong)
  ultimately show ?thesis by (simp add: computePathSignature_def)
qed

section \<open>Concrete spans\<close>

definition mk_span :: "span_id \<Rightarrow> span_id \<Rightarrow> string \<Rightarrow> 64 word \<Rightarrow> span" where
  "mk_span i parent nm t =
     \<lparr>sp_TraceID = no_trace, sp_SpanID = i, sp_ParentSpanID = parent, sp_TraceState = [], sp_Flags = 0,
      sp_Name = nm, sp_Kind = SpanKindServer, sp_StartUnixNano = t, sp_EndUnixNano = t + 5,
      sp_Status = \<lparr>st_Code = StatusUnset, st_Message = []\<rparr>, sp_Attrs = [], sp_Resource = None,
      sp_Scope = None, sp_Events = [], sp_Links = [], sp_DroppedAttrsCount = 0,
      sp_DroppedEventsCount = 0, sp_DroppedLinksCount = 0, sp_Tenant = ''t1'',
      sp_SourceFormat = SourceOTLP, sp_ReceivedUnixNano = 0, sp_SizeBytes = 10, sp_Truncated = False\<rparr>"

lemma mk_span_simps [simp]:
  "sp_SpanID (mk_span i q nm t) = i" "sp_ParentSpanID (mk_span i q nm t) = q"
  "sp_Name (mk_span i q nm t) = nm" "sp_TraceID (mk_span i q nm t) = no_trace"
  "spanIsRoot (mk_span i q nm t) = (q = no_span)"
  by (simp_all add: mk_span_def spanIsRoot_def)

definition demo_spans :: "span list" where
  "demo_spans = [mk_span ''aaaaaaaa'' no_span ''a'' 1, mk_span ''bbbbbbbb'' ''aaaaaaaa'' ''b'' 2]"

lemma demo_spans_distinct: "distinct (map sp_SpanID demo_spans)"
  by (simp add: demo_spans_def)

theorem path_walk_ends_witness: "\<exists>w. computePathSignature (\<lambda>s. of_nat (length s)) demo_spans = Some w"
  by (rule path_walk_ends [OF demo_spans_distinct])

theorem signature_order_independent_witness:
  "computePathSignature (\<lambda>s. of_nat (length s)) demo_spans
     = computePathSignature (\<lambda>s. of_nat (length s)) (rev demo_spans)"
  by (rule signature_order_independent [OF _ demo_spans_distinct]) simp

text \<open>Two spans with one identifier, the second the child of that identifier: the walk never ends.\<close>

definition looping_spans :: "span list" where
  "looping_spans = [mk_span ''aaaaaaaa'' no_span ''a'' 1, mk_span ''aaaaaaaa'' ''aaaaaaaa'' ''b'' 2]"

lemma no_span_other [simp]: "''aaaaaaaa'' \<noteq> no_span"
  by (simp add: no_span_def numeral_eq_Suc)

lemma looping_roots: "walk_roots looping_spans = [mk_span ''aaaaaaaa'' no_span ''a'' 1]"
  by (simp add: walk_roots_def by_start_def is_walk_root_def has_parent_def looping_spans_def)

lemma looping_kids: "kids looping_spans ''aaaaaaaa'' = [mk_span ''aaaaaaaa'' ''aaaaaaaa'' ''b'' 2]"
  by (simp add: kids_def by_start_def is_walk_root_def has_parent_def looping_spans_def)

text \<open>Without distinct identifiers the walk need not end: for a root span and a second span
  with the same identifier that names it as its parent, no fuel is enough, so the recursion of the
  code does not return.\<close>

theorem path_walk_diverges:
  "signature_bytes n looping_spans = None \<and> computePathSignature xxh looping_spans = None"
proof -
  have "visit n looping_spans parent (mk_span ''aaaaaaaa'' q nm t) = None" for n parent q nm t
    by (induction n arbitrary: parent q nm t) (simp_all add: looping_kids)
  then have "signature_bytes n looping_spans = None" for n
    by (simp add: signature_bytes_def looping_roots)
  then show ?thesis by (simp add: computePathSignature_def)
qed

end
