(* ===== verification/Interest.thy ===== *)
theory Interest
  imports Transition Telemetry
begin

text \<open>
  internal/sampler/predicate.go: the interest predicates pushed by investigations and users, their
  matcher, the per-tenant bound with eviction, expiry and the narrowing circuit breaker.

  The published snapshot is the list; every writer holds the mutex and swaps in a fresh slice, so
  an operation is a function from the list to the list.
\<close>

datatype predicate_scope = ScopeNone | ScopeInvestigation | ScopeRecurrence | ScopeUndeclared "8 word"

record interest_predicate =
  ip_ID :: string
  ip_Tenant :: tenant_id
  ip_Scope :: predicate_scope
  ip_Source :: string
  ip_Services :: "string list"
  ip_Operations :: "string list"
  ip_AttrEquals :: "(string \<times> string) list"
  ip_ErrorSigIDs :: "string list"
  ip_PathSigs :: "64 word list"
  ip_TraceIDs :: "trace_id set"
  ip_MinDuration :: duration
  ip_ErrorsOnly :: bool
  ip_NarrowLevel :: nat
  ip_Hits :: "64 word"
  ip_CreatedAt :: gotime
  ip_ExpiresAt :: gotime

record interest_match =
  im_Matched :: bool
  im_PredicateID :: string
  im_Scope :: predicate_scope

definition no_match :: interest_match where
  "no_match = \<lparr>im_Matched = False, im_PredicateID = [], im_Scope = ScopeNone\<rparr>"

record pred_set =
  ps_snapshot :: "interest_predicate list"
  ps_seq :: "64 word"
  ps_maxPreds :: int
  ps_evicted :: "64 word"

definition defaultMaxPredicates :: int where
  "defaultMaxPredicates = 32"

definition NewPredicateSetWithLimit :: "int \<Rightarrow> pred_set" where
  "NewPredicateSetWithLimit n =
     \<lparr>ps_snapshot = [], ps_seq = 0, ps_maxPreds = (if n \<le> 0 then defaultMaxPredicates else n),
      ps_evicted = 0\<rparr>"

definition NewPredicateSet :: pred_set where
  "NewPredicateSet = NewPredicateSetWithLimit defaultMaxPredicates"

section \<open>Matching\<close>

definition candidate_matches :: "interest_predicate \<Rightarrow> model_trace \<Rightarrow> bool" where
  "candidate_matches p t =
     (if ip_TraceIDs p \<noteq> {} \<and> mt_TraceID t \<in> ip_TraceIDs p then True
      else if list_ex (\<lambda>g. g = mt_PathSignature t) (ip_PathSigs p) then True
      else if ip_Services p \<noteq> [] then
        list_ex (\<lambda>svc. list_ex (\<lambda>ts. svc = ts) (mt_Services t)) (ip_Services p)
      else if ip_PathSigs p \<noteq> [] \<or> ip_ErrorSigIDs p \<noteq> [] \<or> ip_TraceIDs p \<noteq> {} then False
      else True)"

definition pred_matches :: "interest_predicate \<Rightarrow> model_trace \<Rightarrow> bool" where
  "pred_matches p t =
     (\<not> (ip_MinDuration p > 0 \<and> duration_of_u64 (mt_DurationNanos t) < ip_MinDuration p)
      \<and> \<not> (ip_ErrorsOnly p \<and> \<not> mt_ErrorCount t > 0)
      \<and> candidate_matches p t)"

fun replace_first :: "interest_predicate \<Rightarrow> interest_predicate list \<Rightarrow> interest_predicate list" where
  "replace_first u [] = []"
| "replace_first u (p # ps) = (if ip_ID p = ip_ID u then u # ps else p # replace_first u ps)"

definition storeUpdated :: "interest_predicate \<Rightarrow> pred_set \<Rightarrow> pred_set" where
  "storeUpdated u s = s\<lparr>ps_snapshot := replace_first u (ps_snapshot s)\<rparr>"

definition Match :: "pred_set \<Rightarrow> model_trace \<Rightarrow> interest_match \<times> pred_set" where
  "Match s t =
     (case find (\<lambda>p. pred_matches p t) (ps_snapshot s) of
        None \<Rightarrow> (no_match, s)
      | Some p \<Rightarrow>
          (let p' = p\<lparr>ip_Hits := ip_Hits p + 1\<rparr>
           in (\<lparr>im_Matched = True, im_PredicateID = ip_ID p', im_Scope = ip_Scope p'\<rparr>, storeUpdated p' s)))"

definition ListPredicates :: "pred_set \<Rightarrow> tenant_id \<Rightarrow> interest_predicate list" where
  "ListPredicates s tid = filter (\<lambda>p. ip_Tenant p = tid) (ps_snapshot s)"

section \<open>Add\<close>

definition before_in_eviction :: "interest_predicate \<Rightarrow> interest_predicate \<Rightarrow> bool" where
  "before_in_eviction p q =
     (if ip_Hits p < ip_Hits q then True
      else ip_Hits p = ip_Hits q \<and> ip_ExpiresAt p < ip_ExpiresAt q)"

text \<open>The scan for the index to evict: the best index so far and the predicate there.\<close>

fun evict_scan ::
  "tenant_id \<Rightarrow> nat \<Rightarrow> (nat \<times> interest_predicate) option \<Rightarrow> interest_predicate list
    \<Rightarrow> (nat \<times> interest_predicate) option" where
  "evict_scan tid i best [] = best"
| "evict_scan tid i best (p # ps) =
     (if ip_Tenant p \<noteq> tid then evict_scan tid (i + 1) best ps
      else case best of
        None \<Rightarrow> evict_scan tid (i + 1) (Some (i, p)) ps
      | Some (j, q) \<Rightarrow>
          if before_in_eviction p q then evict_scan tid (i + 1) (Some (i, p)) ps
          else evict_scan tid (i + 1) best ps)"

definition remove_at :: "nat \<Rightarrow> 'a list \<Rightarrow> 'a list" where
  "remove_at i xs = take i xs @ drop (Suc i) xs"

definition tenant_count :: "tenant_id \<Rightarrow> interest_predicate list \<Rightarrow> nat" where
  "tenant_count tid ps = length (filter (\<lambda>p. ip_Tenant p = tid) ps)"

definition assign_id :: "pred_set \<Rightarrow> interest_predicate \<Rightarrow> interest_predicate \<times> pred_set" where
  "assign_id s p =
     (if ip_ID p = [] then
        (let s' = s\<lparr>ps_seq := ps_seq s + 1\<rparr>
         in (p\<lparr>ip_ID := ''pred-'' @ show_nat (unat (ps_seq s'))\<rparr>, s'))
      else (p, s))"

definition Add :: "pred_set \<Rightarrow> interest_predicate \<Rightarrow> string \<times> pred_set" where
  "Add s p0 =
     (let (p, s1) = assign_id s p0;
          old = ps_snapshot s1
      in (ip_ID p,
          if int (tenant_count (ip_Tenant p) old) \<ge> ps_maxPreds s1 then
            (case evict_scan (ip_Tenant p) 0 None old of
               Some (i, q) \<Rightarrow> s1\<lparr>ps_snapshot := remove_at i old @ [p], ps_evicted := ps_evicted s1 + 1\<rparr>
             | None \<Rightarrow> s1\<lparr>ps_snapshot := old @ [p]\<rparr>)
          else s1\<lparr>ps_snapshot := old @ [p]\<rparr>))"

section \<open>Remove, ExpireDue, Narrow\<close>

definition RemovePredicate :: "pred_set \<Rightarrow> string \<Rightarrow> pred_set" where
  "RemovePredicate s i = s\<lparr>ps_snapshot := filter (\<lambda>p. ip_ID p \<noteq> i) (ps_snapshot s)\<rparr>"

definition pred_due :: "gotime \<Rightarrow> interest_predicate \<Rightarrow> bool" where
  "pred_due now p = (ip_ExpiresAt p \<noteq> 0 \<and> \<not> now < ip_ExpiresAt p)"

definition ExpireDuePredicates :: "pred_set \<Rightarrow> gotime \<Rightarrow> nat \<times> pred_set" where
  "ExpireDuePredicates s now =
     (let expired = length (filter (pred_due now) (ps_snapshot s));
          rest = filter (\<lambda>p. \<not> pred_due now p) (ps_snapshot s)
      in (expired, if expired > 0 then s\<lparr>ps_snapshot := rest\<rparr> else s))"

text \<open>The index of the first recurrence predicate with the fewest hits.\<close>

fun lowest_scan ::
  "nat \<Rightarrow> (nat \<times> interest_predicate) option \<Rightarrow> interest_predicate list
    \<Rightarrow> (nat \<times> interest_predicate) option" where
  "lowest_scan i best [] = best"
| "lowest_scan i best (p # ps) =
     (if ip_Scope p \<noteq> ScopeRecurrence then lowest_scan (i + 1) best ps
      else case best of
        None \<Rightarrow> lowest_scan (i + 1) (Some (i, p)) ps
      | Some (j, q) \<Rightarrow>
          if ip_Hits p < ip_Hits q then lowest_scan (i + 1) (Some (i, p)) ps
          else lowest_scan (i + 1) best ps)"

definition narrow1 :: "interest_predicate \<Rightarrow> interest_predicate" where
  "narrow1 p =
     p\<lparr>ip_MinDuration := (if ip_MinDuration p = 0 then 250 * millisecond else ip_MinDuration p),
       ip_NarrowLevel := 1\<rparr>"

definition narrow2 :: "interest_predicate \<Rightarrow> interest_predicate" where
  "narrow2 p = p\<lparr>ip_ErrorsOnly := True, ip_NarrowLevel := 2\<rparr>"

definition narrow3 :: "interest_predicate \<Rightarrow> interest_predicate" where
  "narrow3 p =
     p\<lparr>ip_Services := (if length (ip_Services p) > 1 then take 1 (ip_Services p) else ip_Services p),
       ip_NarrowLevel := 3\<rparr>"

definition Narrow :: "pred_set \<Rightarrow> int \<Rightarrow> nat \<times> pred_set" where
  "Narrow s level =
     (let old = ps_snapshot s in
      if level = 1 then (length old, s\<lparr>ps_snapshot := map narrow1 old\<rparr>)
      else if level = 2 then (length old, s\<lparr>ps_snapshot := map narrow2 old\<rparr>)
      else if level = 3 then (length old, s\<lparr>ps_snapshot := map narrow3 old\<rparr>)
      else if level = 4 then
        (case lowest_scan 0 None old of
           Some (i, q) \<Rightarrow> (1, s\<lparr>ps_snapshot := remove_at i old\<rparr>)
         | None \<Rightarrow> (0, s))
      else (0, s))"

end
