(* ===== verification/Policy.thy ===== *)
theory Policy
  imports Interest
begin

text \<open>
  internal/sampler/tokenbucket.go and policy.go: the six-class keep policy and the hard cap on the
  keep rate.

  The clock reading, the 64-bit xxhash and the implementation-defined float conversion are
  arguments.  The governor of \<open>Evaluate\<close> is the policy itself, the only wiring in the code
  (\<open>NewImpl\<close>), so the type assertion on it always succeeds.  Maps that are only looked up are
  functions.
\<close>

unbundle bit_operations_syntax

section \<open>tokenbucket.go\<close>

record token_bucket =
  tb_capacity :: rat
  tb_refillRate :: rat
  tb_tokens :: rat
  tb_lastRefill :: int

definition newTokenBucket :: "rat \<Rightarrow> int \<Rightarrow> token_bucket" where
  "newTokenBucket perMinute now =
     \<lparr>tb_capacity = perMinute, tb_refillRate = rnd64 (perMinute / 60), tb_tokens = perMinute,
      tb_lastRefill = now\<rparr>"

definition refill :: "int \<Rightarrow> token_bucket \<Rightarrow> token_bucket" where
  "refill now b =
     (if now > tb_lastRefill b then
        (let elapsed = rnd64 (rnd64 (of_int (now - tb_lastRefill b)) / 1000000000);
             tokens = rnd64 (tb_tokens b + rnd64 (elapsed * tb_refillRate b))
         in b\<lparr>tb_tokens := (if tokens > tb_capacity b then tb_capacity b else tokens),
              tb_lastRefill := now\<rparr>)
      else b)"

definition Take :: "int \<Rightarrow> token_bucket \<Rightarrow> bool \<times> token_bucket" where
  "Take now b0 =
     (let b = refill now b0 in
      if tb_tokens b \<ge> 1 then (True, b\<lparr>tb_tokens := rnd64 (tb_tokens b - 1)\<rparr>) else (False, b))"

section \<open>policy.go: state\<close>

record policy_config =
  pc_SlowMinDuration :: duration
  pc_RarePathLookback :: duration
  pc_RarePathKeepsPerMin :: rat
  pc_MaxPathSignatureCardinality :: int
  pc_FloorTracesPerMinPerService :: rat
  pc_HealthySampleRate :: rat
  pc_MaxKeepRate :: rat

definition DefaultPolicyConfig :: policy_config where
  "DefaultPolicyConfig =
     \<lparr>pc_SlowMinDuration = 250 * millisecond, pc_RarePathLookback = 7 * 24 * 60 * minute,
      pc_RarePathKeepsPerMin = 60, pc_MaxPathSignatureCardinality = 200000,
      pc_FloorTracesPerMinPerService = 6, pc_HealthySampleRate = rnd64 (1 / 100),
      pc_MaxKeepRate = 1 / 4\<rparr>"

record keep_event =
  ke_at :: gotime
  ke_keep :: bool
  ke_reason :: keep_reason

definition shedRank :: "keep_reason \<Rightarrow> int" where
  "shedRank r =
     (case r of
        KeepProbabilistic \<Rightarrow> 0
      | KeepFloor \<Rightarrow> 1
      | KeepInterest \<Rightarrow> 2
      | KeepRare \<Rightarrow> 3
      | KeepSlow \<Rightarrow> 4
      | _ \<Rightarrow> - 1)"

record default_policy =
  dp_cfg :: policy_config
  dp_rareSeen :: "tenant_id \<times> 64 word \<Rightarrow> gotime option"
  dp_rareCardinality :: "tenant_id \<Rightarrow> 64 word set"
  dp_rareBuckets :: "tenant_id \<Rightarrow> token_bucket option"
  dp_floorBuckets :: "tenant_id \<times> string \<Rightarrow> token_bucket option"
  dp_floors :: "tenant_id \<Rightarrow> rat option"
  dp_keepHistory :: "tenant_id \<Rightarrow> keep_event list"

definition NewDefaultPolicy :: "policy_config \<Rightarrow> default_policy" where
  "NewDefaultPolicy c =
     \<lparr>dp_cfg = c, dp_rareSeen = (\<lambda>_. None), dp_rareCardinality = (\<lambda>_. {}),
      dp_rareBuckets = (\<lambda>_. None), dp_floorBuckets = (\<lambda>_. None), dp_floors = (\<lambda>_. None),
      dp_keepHistory = (\<lambda>_. [])\<rparr>"

definition AdjustFloor :: "default_policy \<Rightarrow> tenant_id \<Rightarrow> rat \<Rightarrow> default_policy" where
  "AdjustFloor p tid fl = p\<lparr>dp_floors := (dp_floors p)(tid := Some fl)\<rparr>"

definition CurrentFloor :: "default_policy \<Rightarrow> tenant_id \<Rightarrow> rat" where
  "CurrentFloor p tid =
     (case dp_floors p tid of Some f \<Rightarrow> f | None \<Rightarrow> pc_HealthySampleRate (dp_cfg p))"

section \<open>The rolling window\<close>

definition pruneLocked :: "default_policy \<Rightarrow> tenant_id \<Rightarrow> gotime \<Rightarrow> keep_event list \<times> default_policy" where
  "pruneLocked p tid now =
     (let hist = dropWhile (\<lambda>e. ke_at e < now - 60 * second) (dp_keepHistory p tid)
      in (hist, p\<lparr>dp_keepHistory := (dp_keepHistory p)(tid := hist)\<rparr>))"

definition keep_rate :: "keep_event list \<Rightarrow> rat" where
  "keep_rate hist = rnd64 (of_nat (length (filter ke_keep hist)) / of_nat (length hist))"

definition allowForTenant :: "default_policy \<Rightarrow> tenant_id \<Rightarrow> gotime \<Rightarrow> bool \<times> default_policy" where
  "allowForTenant p tid now =
     (let (hist, p') = pruneLocked p tid now
      in (if hist = [] then True else keep_rate hist \<le> pc_MaxKeepRate (dp_cfg p), p'))"

definition Allow :: "default_policy \<Rightarrow> gotime \<Rightarrow> keep_reason \<Rightarrow> bool \<times> default_policy" where
  "Allow p now cls = allowForTenant p [] now"

definition recordKeep ::
  "default_policy \<Rightarrow> tenant_id \<Rightarrow> gotime \<Rightarrow> bool \<Rightarrow> keep_reason \<Rightarrow> default_policy" where
  "recordKeep p tid now keep reason =
     p\<lparr>dp_keepHistory := (dp_keepHistory p)(tid := dp_keepHistory p tid @
          [\<lparr>ke_at = now, ke_keep = keep, ke_reason = reason\<rparr>])\<rparr>"

definition still_kept :: "keep_event list \<Rightarrow> int \<Rightarrow> bool" where
  "still_kept hist r = list_ex (\<lambda>e. ke_keep e \<and> shedRank (ke_reason e) = r) hist"

definition shouldShedClass ::
  "default_policy \<Rightarrow> tenant_id \<Rightarrow> keep_reason \<Rightarrow> gotime \<Rightarrow> bool \<times> default_policy" where
  "shouldShedClass p tid reason now =
     (let rank = shedRank reason in
      if rank < 0 then (False, p)
      else (let (hist, p') = pruneLocked p tid now
            in (\<not> list_ex (\<lambda>r. still_kept hist (int r)) [0..<nat rank], p')))"

section \<open>Rare paths, the floor and the probabilistic class\<close>

definition isRareCandidate :: "default_policy \<Rightarrow> tenant_id \<Rightarrow> 64 word \<Rightarrow> gotime \<Rightarrow> bool" where
  "isRareCandidate p tid sig now =
     (if sig \<notin> dp_rareCardinality p tid
         \<and> int (card (dp_rareCardinality p tid)) \<ge> pc_MaxPathSignatureCardinality (dp_cfg p)
      then False
      else case dp_rareSeen p (tid, sig) of
        None \<Rightarrow> True
      | Some seen \<Rightarrow> time_sub now seen > pc_RarePathLookback (dp_cfg p))"

definition tryTakeRare ::
  "default_policy \<Rightarrow> tenant_id \<Rightarrow> 64 word \<Rightarrow> gotime \<Rightarrow> bool \<times> default_policy" where
  "tryTakeRare p tid sig now =
     (let bucket = (case dp_rareBuckets p tid of
                      Some b \<Rightarrow> b
                    | None \<Rightarrow> newTokenBucket (pc_RarePathKeepsPerMin (dp_cfg p)) (unix_nano now));
          (ok, bucket') = Take (unix_nano now) bucket;
          p1 = p\<lparr>dp_rareBuckets := (dp_rareBuckets p)(tid := Some bucket')\<rparr>
      in if \<not> ok then (False, p1)
         else (True, p1\<lparr>dp_rareSeen := (dp_rareSeen p1)((tid, sig) := Some now),
                        dp_rareCardinality := (dp_rareCardinality p1)
                          (tid := insert sig (dp_rareCardinality p1 tid))\<rparr>))"

definition tryTakeFloor ::
  "default_policy \<Rightarrow> tenant_id \<Rightarrow> string \<Rightarrow> gotime \<Rightarrow> bool \<times> default_policy" where
  "tryTakeFloor p tid service now =
     (let bucket = (case dp_floorBuckets p (tid, service) of
                      Some b \<Rightarrow> b
                    | None \<Rightarrow> newTokenBucket (pc_FloorTracesPerMinPerService (dp_cfg p)) (unix_nano now));
          (ok, bucket') = Take (unix_nano now) bucket
      in (ok, p\<lparr>dp_floorBuckets := (dp_floorBuckets p)((tid, service) := Some bucket')\<rparr>))"

definition hashTraceID :: "(string \<Rightarrow> 64 word) \<Rightarrow> trace_id \<Rightarrow> 64 word" where
  "hashTraceID xxh i = xxh i"

definition probabilistic ::
  "(string \<Rightarrow> 64 word) \<Rightarrow> (rat \<Rightarrow> 64 word) \<Rightarrow> trace_id \<Rightarrow> rat \<Rightarrow> bool" where
  "probabilistic xxh oob i fl =
     (hashTraceID xxh i mod 10000 < u64_of_float oob (rnd64 (fl * 10000)))"

definition reasonBit :: "keep_reason \<Rightarrow> 16 word" where
  "reasonBit r = push_bit (keep_code r) 1"

section \<open>Evaluate\<close>

record key_baseline =
  kb_P95Nanos :: "64 word"
  kb_P99Nanos :: "64 word"
  kb_Warmed :: bool
  kb_Samples :: "32 word"

record decision =
  de_Tenant :: tenant_id
  de_TraceID :: trace_id
  de_Keep :: bool
  de_Reason :: keep_reason
  de_MatchedPredicateID :: string
  de_SecondaryReasons :: "16 word"
  de_DecidedAt :: gotime

definition slow_fires :: "policy_config \<Rightarrow> key_baseline \<Rightarrow> model_trace \<Rightarrow> bool" where
  "slow_fires c b t =
     (let maxDur = traceMaxDurationNanos (mt_Spans t)
      in kb_Warmed b \<and> maxDur > kb_P99Nanos b \<and> duration_of_u64 maxDur > pc_SlowMinDuration c)"

text \<open>The six classes in order; a class that is reached consumes its token.\<close>

definition classify ::
  "(string \<Rightarrow> 64 word) \<Rightarrow> (rat \<Rightarrow> 64 word) \<Rightarrow> gotime \<Rightarrow> default_policy \<Rightarrow> tenant_id \<Rightarrow> model_trace
    \<Rightarrow> key_baseline \<Rightarrow> interest_match \<Rightarrow> keep_reason \<times> default_policy" where
  "classify xxh oob now p tid t b m =
     (if traceHasError (mt_Spans t) then (KeepError, p)
      else if slow_fires (dp_cfg p) b t then (KeepSlow, p)
      else
        (let (rare, p1) = (if isRareCandidate p tid (mt_PathSignature t) now
                           then tryTakeRare p tid (mt_PathSignature t) now else (False, p))
         in if rare then (KeepRare, p1)
            else if im_Matched m then (KeepInterest, p1)
            else
              (let (fl, p2) = tryTakeFloor p1 tid (mt_RootService t) now
               in if fl then (KeepFloor, p2)
                  else if probabilistic xxh oob (mt_TraceID t) (CurrentFloor p2 tid)
                  then (KeepProbabilistic, p2)
                  else (KeepDropped, p2))))"

definition secondary_bits ::
  "gotime \<Rightarrow> default_policy \<Rightarrow> tenant_id \<Rightarrow> model_trace \<Rightarrow> key_baseline \<Rightarrow> interest_match \<Rightarrow> 16 word" where
  "secondary_bits now p tid t b m =
     (if traceHasError (mt_Spans t) then reasonBit KeepError else 0)
     OR (if slow_fires (dp_cfg p) b t then reasonBit KeepSlow else 0)
     OR (if isRareCandidate p tid (mt_PathSignature t) now then reasonBit KeepRare else 0)
     OR (if im_Matched m then reasonBit KeepInterest else 0)"

definition shed_eligible :: "bool \<Rightarrow> keep_reason \<Rightarrow> interest_match \<Rightarrow> bool" where
  "shed_eligible keep reason m =
     (keep \<and> reason \<noteq> KeepError \<and> \<not> (reason = KeepInterest \<and> im_Scope m \<noteq> ScopeRecurrence))"

text \<open>The hard cap: the keep of a decision after shedding.\<close>

definition apply_cap ::
  "gotime \<Rightarrow> default_policy \<Rightarrow> tenant_id \<Rightarrow> keep_reason \<Rightarrow> interest_match \<Rightarrow> bool
    \<Rightarrow> (bool \<times> keep_reason) \<times> default_policy" where
  "apply_cap now p tid reason m keep =
     (if shed_eligible keep reason m then
        (let (ok, p1) = allowForTenant p tid now in
         if ok then ((keep, reason), p1)
         else (let (shed, p2) = shouldShedClass p1 tid reason now
               in if shed then ((False, KeepShed), p2) else ((keep, reason), p2)))
      else ((keep, reason), p))"

definition Evaluate ::
  "(string \<Rightarrow> 64 word) \<Rightarrow> (rat \<Rightarrow> 64 word) \<Rightarrow> gotime \<Rightarrow> default_policy \<Rightarrow> tenant_id \<Rightarrow> model_trace
    \<Rightarrow> key_baseline \<Rightarrow> interest_match \<Rightarrow> decision \<times> default_policy" where
  "Evaluate xxh oob now p tid t b m =
     (let (cls, p1) = classify xxh oob now p tid t b m;
          keep = (cls \<noteq> KeepDropped);
          reason = (if mt_Truncated t \<and> keep then KeepTruncated else cls);
          secondary = secondary_bits now p tid t b m AND NOT (reasonBit reason);
          ((keep', reason'), p2) = apply_cap now p1 tid reason m keep
      in (\<lparr>de_Tenant = tid, de_TraceID = mt_TraceID t, de_Keep = keep', de_Reason = reason',
           de_MatchedPredicateID = (if im_Matched m then im_PredicateID m else []),
           de_SecondaryReasons = secondary, de_DecidedAt = now\<rparr>,
          recordKeep p2 tid now keep' reason'))"

end
