(* ===== verification/Red.thy ===== *)
theory Red
  imports Telemetry
begin

text \<open>
  internal/sampler/red.go with the sample type of internal/model/red.go: the accumulator of calls,
  errors and durations per tenant, service, operation and 10-second bucket.  The Go map of buckets
  is drained by ranging over it, so it is an association list.
\<close>

datatype resolution = Res10s | Res5m | Res1h

type_synonym red_key = "tenant_id \<times> string \<times> string \<times> int"

record quantiles =
  q_P50Nanos :: "64 word"
  q_P95Nanos :: "64 word"
  q_P99Nanos :: "64 word"
  q_MaxNanos :: "64 word"

record red_sample =
  rd_Tenant :: tenant_id
  rd_Service :: string
  rd_Operation :: string
  rd_BucketStart :: gotime
  rd_Resolution :: resolution
  rd_Calls :: "64 word"
  rd_Errors :: "64 word"
  rd_DurationSumNanos :: "64 word"
  rd_Hist :: "32 word list"
  rd_Q :: quantiles
  rd_ExemplarTraceIDs :: "trace_id list"
  rd_TraceID :: trace_id
  rd_ShardEpoch :: "64 word"
  rd_KeptCount :: "32 word"

type_synonym red_accumulator = "(red_key \<times> red_sample) list"

definition redBucketNanos :: int where
  "redBucketNanos = 10000000000"

definition newREDAccumulator :: red_accumulator where
  "newREDAccumulator = []"

definition new_sample :: "tenant_id \<Rightarrow> string \<Rightarrow> string \<Rightarrow> int \<Rightarrow> red_sample" where
  "new_sample tid svc oper bucket =
     \<lparr>rd_Tenant = tid, rd_Service = svc, rd_Operation = oper, rd_BucketStart = unix_epoch + bucket,
      rd_Resolution = Res10s, rd_Calls = 0, rd_Errors = 0, rd_DurationSumNanos = 0,
      rd_Hist = replicate 16 0,
      rd_Q = \<lparr>q_P50Nanos = 0, q_P95Nanos = 0, q_P99Nanos = 0, q_MaxNanos = 0\<rparr>,
      rd_ExemplarTraceIDs = [], rd_TraceID = no_trace, rd_ShardEpoch = 0, rd_KeptCount = 0\<rparr>"

definition add_exemplar :: "trace_id \<Rightarrow> trace_id list \<Rightarrow> trace_id list" where
  "add_exemplar i ids =
     (if length ids < 4 then (if list_ex (\<lambda>x. x = i) ids then ids else ids @ [i]) else ids)"

definition count_span :: "span \<Rightarrow> red_sample \<Rightarrow> red_sample" where
  "count_span s r =
     r\<lparr>rd_Calls := rd_Calls r + 1,
       rd_Errors := (if spanIsError s then rd_Errors r + 1 else rd_Errors r),
       rd_DurationSumNanos := rd_DurationSumNanos r + spanDurationNanos s,
       rd_ExemplarTraceIDs := add_exemplar (sp_TraceID s) (rd_ExemplarTraceIDs r)\<rparr>"

definition red_key_of :: "gotime \<Rightarrow> tenant_id \<Rightarrow> span \<Rightarrow> red_key" where
  "red_key_of now tid s =
     (tid, spanService s, sp_Name s, quot (unix_nano now) redBucketNanos * redBucketNanos)"

definition Accumulate :: "gotime \<Rightarrow> tenant_id \<Rightarrow> span \<Rightarrow> red_accumulator \<Rightarrow> red_accumulator" where
  "Accumulate now tid s acc =
     (let key = red_key_of now tid s;
          (t, svc, oper, bucket) = key;
          sample = (case map_of acc key of Some r \<Rightarrow> r | None \<Rightarrow> new_sample t svc oper bucket)
      in AList.update key (count_span s sample) acc)"

text \<open>\<open>Flush\<close> returns the samples in the order of the range loop and empties the map.\<close>

definition Flush :: "red_accumulator \<Rightarrow> red_sample list \<times> red_accumulator" where
  "Flush acc = (map snd acc, [])"

section \<open>Counting\<close>

definition total_calls :: "red_accumulator \<Rightarrow> 64 word" where
  "total_calls acc = sum_list (map (rd_Calls \<circ> snd) acc)"

lemma sum_update:
  "(\<Sum>x\<leftarrow>AList.update k v xs. f (snd x))
     = (\<Sum>x\<leftarrow>xs. f (snd x)) + f v - (case map_of xs k of Some w \<Rightarrow> f w | None \<Rightarrow> (0 :: 'a :: ab_group_add))"
  by (induction xs) auto

text \<open>One span adds one call.\<close>

lemma Accumulate_calls: "total_calls (Accumulate now tid s acc) = total_calls acc + 1"
  by (simp add: total_calls_def Accumulate_def Let_def comp_def sum_update count_span_def new_sample_def
      red_key_of_def split: option.split)

definition acc_ok :: "red_accumulator \<Rightarrow> bool" where
  "acc_ok acc =
     (distinct (map fst acc)
      \<and> (\<forall>(k, r) \<in> set acc. length (rd_ExemplarTraceIDs r) \<le> 4 \<and> distinct (rd_ExemplarTraceIDs r)
           \<and> fst k = rd_Tenant r \<and> fst (snd k) = rd_Service r \<and> fst (snd (snd k)) = rd_Operation r))"

lemma map_of_acc_ok:
  "acc_ok acc \<Longrightarrow> map_of acc k = Some r \<Longrightarrow> length (rd_ExemplarTraceIDs r) \<le> 4 \<and> distinct (rd_ExemplarTraceIDs r)
     \<and> fst k = rd_Tenant r \<and> fst (snd k) = rd_Service r \<and> fst (snd (snd k)) = rd_Operation r"
  by (auto simp: acc_ok_def dest!: map_of_SomeD)

lemma set_update_subset: "x \<in> set (AList.update k v xs) \<Longrightarrow> x = (k, v) \<or> x \<in> set xs"
  by (induction xs) (auto split: if_splits)

lemma acc_ok_Accumulate [keeps]:
  assumes "acc_ok acc"
  shows "acc_ok (Accumulate now tid s acc)"
proof -
  let ?k = "red_key_of now tid s"
  define r where "r = (case map_of acc ?k of Some r \<Rightarrow> r | None \<Rightarrow>
      new_sample tid (spanService s) (sp_Name s) (snd (snd (snd ?k))))"
  have a: "Accumulate now tid s acc = AList.update ?k (count_span s r) acc"
    by (simp add: Accumulate_def r_def red_key_of_def Let_def split: prod.split option.split)
  have "length (rd_ExemplarTraceIDs r) \<le> 4 \<and> distinct (rd_ExemplarTraceIDs r) \<and> fst ?k = rd_Tenant r
     \<and> fst (snd ?k) = rd_Service r \<and> fst (snd (snd ?k)) = rd_Operation r"
    using map_of_acc_ok [OF assms, of ?k]
    by (auto simp: r_def new_sample_def red_key_of_def split: option.split)
  then have "length (rd_ExemplarTraceIDs (count_span s r)) \<le> 4 \<and> distinct (rd_ExemplarTraceIDs (count_span s r))
     \<and> fst ?k = rd_Tenant (count_span s r) \<and> fst (snd ?k) = rd_Service (count_span s r)
     \<and> fst (snd (snd ?k)) = rd_Operation (count_span s r)"
    by (auto simp: count_span_def add_exemplar_def list_ex_iff)
  with assms show ?thesis
    unfolding a acc_ok_def by (auto simp: distinct_update dest!: set_update_subset)
qed

end
