(* ===== verification/Assembly.thy ===== *)
theory Assembly
  imports PathSignature Policy Red "HOL-Library.Char_ord" "HOL-Library.Signed_Division"
begin

text \<open>
  internal/sampler/wal.go, assembly.go, impl.go and the routing of sampler.go: the trace assembler.

  An \<open>env\<close> value is what a call sees of the outside: \<open>e_clk e i\<close> is the i-th reading of the
  injected clock, \<open>e_xxh\<close> the 64-bit xxhash, \<open>e_oob\<close> the implementation-defined float
  conversion and \<open>e_range\<close> the order in which the runtime ranges over a map of open traces.
  Each operation is atomic here.  The lists \<open>m_decisions\<close> and \<open>m_traces\<close> are everything sent on
  the two blocking channels; \<open>m_redOut\<close> is the content of the channel with capacity 8192.  An
  out-of-range index or a nil interface makes the code panic: such an operation is \<open>None\<close>.
\<close>

section \<open>Routing\<close>

datatype ring_state = RingStable | RingDraining

record ring =
  rg_Epoch :: "64 word"
  rg_Members :: "string list"
  rg_State :: ring_state

fun shard_loop :: "(string \<Rightarrow> 64 word) \<Rightarrow> trace_id \<Rightarrow> nat \<Rightarrow> int \<times> 64 word \<Rightarrow> string list \<Rightarrow> int" where
  "shard_loop xxh tr i (best, bestScore) [] = best"
| "shard_loop xxh tr i (best, bestScore) (m # ms) =
     (let score = xxh (m @ tr) in
      if best = - 1 \<or> score > bestScore then shard_loop xxh tr (i + 1) (int i, score) ms
      else shard_loop xxh tr (i + 1) (best, bestScore) ms)"

definition ShardFor :: "(string \<Rightarrow> 64 word) \<Rightarrow> ring \<Rightarrow> trace_id \<Rightarrow> int" where
  "ShardFor xxh r tr = shard_loop xxh tr 0 (- 1, 0) (rg_Members r)"

fun itoa_digits :: "nat \<Rightarrow> string \<Rightarrow> string" where
  "itoa_digits n acc = (if n = 0 then acc else itoa_digits (n div 10) (char_of (48 + n mod 10) # acc))"

declare itoa_digits.simps [simp del]

definition itoa :: "int \<Rightarrow> string" where
  "itoa i =
     (if i = 0 then ''0''
      else (let digits = itoa_digits (nat \<bar>i\<bar>) [] in if i < 0 then CHR ''-'' # digits else digits))"

section \<open>State\<close>

type_synonym trace_key = "tenant_id \<times> trace_id"

record asm_trace =
  tr_TraceID :: trace_id
  tr_Tenant :: tenant_id
  tr_Spans :: "span list"
  tr_FirstSeen :: gotime
  tr_LastSeen :: gotime
  tr_ByteSize :: int
  tr_Truncated :: bool
  tr_ShardEpoch :: "64 word"
  tr_PathSignature :: "64 word"
  tr_seenSpanIDs :: "span_id set"

type_synonym shard_buf = "(trace_key \<times> asm_trace) list"

type_synonym mem_wal = "int \<Rightarrow> (trace_key \<times> span list) list"

record assembly_config =
  ac_IdleTimeout :: duration
  ac_HardTimeout :: duration
  ac_WheelTick :: duration

definition DefaultAssemblyConfig :: assembly_config where
  "DefaultAssemblyConfig =
     \<lparr>ac_IdleTimeout = 8 * second, ac_HardTimeout = 30 * second, ac_WheelTick = 250 * millisecond\<rparr>"

type_synonym baseline_snapshot = "string \<times> string \<Rightarrow> key_baseline option"

record manager =
  m_cfg :: assembly_config
  m_wal :: "mem_wal option"
  m_red :: red_accumulator
  m_policy :: default_policy
  m_preds :: pred_set
  m_ring :: ring
  m_shards :: "shard_buf list"
  m_baselines :: "tenant_id \<Rightarrow> baseline_snapshot option"
  m_decisions :: "decision list"
  m_traces :: "model_trace list"
  m_redOut :: "red_sample list"
  m_tracesLostTotal :: int
  m_rebalanceSplits :: int
  m_redSamplesDropped :: int
  m_shardEpoch :: "64 word"
  m_duplicateSpansTotal :: int

record env =
  e_clk :: "nat \<Rightarrow> gotime"
  e_xxh :: "string \<Rightarrow> 64 word"
  e_oob :: "rat \<Rightarrow> 64 word"
  e_range :: "shard_buf \<Rightarrow> shard_buf"

section \<open>wal.go\<close>

definition NewMemWAL :: mem_wal where
  "NewMemWAL = (\<lambda>shard. [])"

definition wal_Append :: "mem_wal \<Rightarrow> int \<Rightarrow> trace_key \<Rightarrow> span \<Rightarrow> mem_wal" where
  "wal_Append w shard key s =
     w(shard := AList.update key
         ((case map_of (w shard) key of Some ss \<Rightarrow> ss | None \<Rightarrow> []) @ [s]) (w shard))"

definition wal_Truncate :: "mem_wal \<Rightarrow> int \<Rightarrow> trace_key \<Rightarrow> mem_wal" where
  "wal_Truncate w shard key = w(shard := AList.delete key (w shard))"

definition wal_Replay :: "mem_wal \<Rightarrow> int \<Rightarrow> (trace_key \<times> span list) list" where
  "wal_Replay w shard = w shard"

section \<open>Construction\<close>

definition NewManager ::
  "assembly_config \<Rightarrow> mem_wal option \<Rightarrow> default_policy \<Rightarrow> pred_set \<Rightarrow> int \<Rightarrow> manager" where
  "NewManager cfg wal pol preds n0 =
     (let n = (if n0 < 1 then 1 else nat n0)
      in \<lparr>m_cfg = cfg, m_wal = wal, m_red = newREDAccumulator, m_policy = pol, m_preds = preds,
          m_ring = \<lparr>rg_Epoch = 1, rg_Members = map (\<lambda>i. itoa (int i)) [0..<n], rg_State = RingStable\<rparr>,
          m_shards = replicate n [], m_baselines = (\<lambda>_. None), m_decisions = [], m_traces = [],
          m_redOut = [], m_tracesLostTotal = 0, m_rebalanceSplits = 0, m_redSamplesDropped = 0,
          m_shardEpoch = 0, m_duplicateSpansTotal = 0\<rparr>)"

definition NewImpl :: "assembly_config \<Rightarrow> policy_config \<Rightarrow> mem_wal option \<Rightarrow> int \<Rightarrow> manager" where
  "NewImpl acfg pcfg wal n = NewManager acfg wal (NewDefaultPolicy pcfg) NewPredicateSet n"

definition SetBaselineSnapshot :: "manager \<Rightarrow> tenant_id \<Rightarrow> baseline_snapshot \<Rightarrow> manager" where
  "SetBaselineSnapshot m tid snap = m\<lparr>m_baselines := (m_baselines m)(tid := Some snap)\<rparr>"

definition no_baseline :: key_baseline where
  "no_baseline = \<lparr>kb_P95Nanos = 0, kb_P99Nanos = 0, kb_Warmed = False, kb_Samples = 0\<rparr>"

definition baselineFor :: "manager \<Rightarrow> tenant_id \<Rightarrow> string \<Rightarrow> string \<Rightarrow> key_baseline" where
  "baselineFor m tid service operation =
     (case m_baselines m tid of
        None \<Rightarrow> no_baseline
      | Some snap \<Rightarrow> (case snap (service, operation) of Some kb \<Rightarrow> kb | None \<Rightarrow> no_baseline))"

definition SetRing :: "manager \<Rightarrow> ring \<Rightarrow> manager" where
  "SetRing m r = m\<lparr>m_ring := r, m_shardEpoch := m_shardEpoch m + 1\<rparr>"

section \<open>Consume\<close>

definition open_trace :: "manager \<Rightarrow> gotime \<Rightarrow> tenant_id \<Rightarrow> span \<Rightarrow> asm_trace" where
  "open_trace m now tid s =
     \<lparr>tr_TraceID = sp_TraceID s, tr_Tenant = tid, tr_Spans = [], tr_FirstSeen = now, tr_LastSeen = 0,
      tr_ByteSize = 0, tr_Truncated = False, tr_ShardEpoch = m_shardEpoch m, tr_PathSignature = 0,
      tr_seenSpanIDs = {}\<rparr>"

definition add_span :: "gotime \<Rightarrow> span \<Rightarrow> asm_trace \<Rightarrow> asm_trace" where
  "add_span now s tr =
     tr\<lparr>tr_seenSpanIDs := insert (sp_SpanID s) (tr_seenSpanIDs tr), tr_Spans := tr_Spans tr @ [s],
        tr_LastSeen := now, tr_ByteSize := tr_ByteSize tr + uint (sp_SizeBytes s)\<rparr>"

definition put_trace :: "nat \<Rightarrow> trace_key \<Rightarrow> asm_trace \<Rightarrow> manager \<Rightarrow> manager" where
  "put_trace j key tr m = m\<lparr>m_shards := (m_shards m)[j := AList.update key tr (m_shards m ! j)]\<rparr>"

text \<open>
  Go's remainder truncates towards zero, so a negative shard number gives a negative slot, except
  with a single shard.
\<close>

definition shard_slot :: "manager \<Rightarrow> int \<Rightarrow> int" where
  "shard_slot m shardIdx = shardIdx smod int (length (m_shards m))"

definition buffered :: "manager \<Rightarrow> gotime \<Rightarrow> tenant_id \<Rightarrow> span \<Rightarrow> nat \<Rightarrow> asm_trace" where
  "buffered m now tid s j =
     (case map_of (m_shards m ! j) (tid, sp_TraceID s) of Some tr \<Rightarrow> tr | None \<Rightarrow> open_trace m now tid s)"

definition consume_span :: "env \<Rightarrow> gotime \<Rightarrow> tenant_id \<Rightarrow> span \<Rightarrow> manager \<Rightarrow> manager option" where
  "consume_span e now tid s0 m =
     (let s = s0\<lparr>sp_Tenant := tid\<rparr>;
          shardIdx = ShardFor (e_xxh e) (m_ring m) (sp_TraceID s);
          key = (tid, sp_TraceID s)
      in if shard_slot m shardIdx < 0 then None
         else
           (let j = nat (shard_slot m shardIdx);
                tr = buffered m now tid s j
            in if sp_SpanID s \<in> tr_seenSpanIDs tr
               then Some (put_trace j key tr m\<lparr>m_duplicateSpansTotal := m_duplicateSpansTotal m + 1\<rparr>)
               else
                 (let m1 = put_trace j key (add_span now s tr) m;
                      m2 = m1\<lparr>m_red := Accumulate now tid s (m_red m1)\<rparr>
                  in Some (m2\<lparr>m_wal := map_option (\<lambda>w. wal_Append w shardIdx key s) (m_wal m2)\<rparr>))))"

fun consume_spans :: "env \<Rightarrow> gotime \<Rightarrow> tenant_id \<Rightarrow> span list \<Rightarrow> manager \<Rightarrow> manager option" where
  "consume_spans e now tid [] m = Some m"
| "consume_spans e now tid (s # ss) m =
     (case consume_span e now tid s m of
        None \<Rightarrow> None
      | Some m' \<Rightarrow> consume_spans e now tid ss m')"

definition Consume :: "env \<Rightarrow> tenant_id \<Rightarrow> span list \<Rightarrow> manager \<Rightarrow> manager option" where
  "Consume e tid spans m = consume_spans e (e_clk e 0) tid spans m"

section \<open>Finalizing\<close>

definition trace_services :: "span list \<Rightarrow> string list" where
  "trace_services spans = sort (remdups (filter (\<lambda>s. s \<noteq> []) (map spanService spans)))"

definition trace_root :: "span list \<Rightarrow> span_id \<times> string \<times> string" where
  "trace_root spans =
     (let (rid, svc, oper) = (case find spanIsRoot spans of
            Some s \<Rightarrow> (sp_SpanID s, spanService s, sp_Name s) | None \<Rightarrow> (no_span, [], []))
      in case spans of
           s # _ \<Rightarrow> if svc = [] then (rid, spanService s, sp_Name s) else (rid, svc, oper)
         | [] \<Rightarrow> (rid, svc, oper))"

text \<open>
  The spans of an open trace have distinct identifiers, so the signature exists; the other branch
  is never reached.
\<close>

definition toModelTrace :: "(string \<Rightarrow> 64 word) \<Rightarrow> asm_trace \<Rightarrow> model_trace" where
  "toModelTrace xxh tr =
     (let (rid, svc, oper) = trace_root (tr_Spans tr)
      in \<lparr>mt_TraceID = tr_TraceID tr, mt_Tenant = tr_Tenant tr, mt_Spans = tr_Spans tr,
          mt_RootSpanID = rid, mt_RootService = svc, mt_RootOperation = oper,
          mt_StartUnixNano = u64 (unix_nano (tr_FirstSeen tr)),
          mt_EndUnixNano = u64 (unix_nano (tr_LastSeen tr)),
          mt_DurationNanos = traceMaxDurationNanos (tr_Spans tr),
          mt_SpanCount = int (length (tr_Spans tr)),
          mt_ErrorCount = int (length (filter spanIsError (tr_Spans tr))),
          mt_Services = trace_services (tr_Spans tr),
          mt_PathSignature = (case computePathSignature xxh (tr_Spans tr) of Some w \<Rightarrow> w | None \<Rightarrow> 0),
          mt_Complete = (\<not> tr_Truncated tr), mt_Truncated = tr_Truncated tr,
          mt_SizeBytes = u64 (tr_ByteSize tr),
          mt_AssembledAt = u64 (unix_nano (tr_LastSeen tr))\<rparr>)"

definition shed_decision :: "gotime \<Rightarrow> asm_trace \<Rightarrow> decision" where
  "shed_decision now tr =
     \<lparr>de_Tenant = tr_Tenant tr, de_TraceID = tr_TraceID tr, de_Keep = False, de_Reason = KeepShed,
      de_MatchedPredicateID = [], de_SecondaryReasons = 0, de_DecidedAt = now\<rparr>"

definition finalize :: "env \<Rightarrow> nat \<Rightarrow> int \<Rightarrow> bool \<Rightarrow> asm_trace \<Rightarrow> manager \<Rightarrow> manager" where
  "finalize e i shardIdx forceShed tr m =
     (let mt = toModelTrace (e_xxh e) tr;
          now = e_clk e i;
          (d, m1) =
            (if forceShed then (shed_decision now tr, m)
             else
               (let kb = baselineFor m (tr_Tenant tr) (mt_RootService mt) (mt_RootOperation mt);
                    (im, preds') = Match (m_preds m) mt;
                    (d, pol') = Evaluate (e_xxh e) (e_oob e) now (m_policy m) (tr_Tenant tr) mt kb im
                in (d, m\<lparr>m_preds := preds', m_policy := pol'\<rparr>)));
          m2 = m1\<lparr>m_wal := map_option (\<lambda>w. wal_Truncate w shardIdx (tr_Tenant tr, tr_TraceID tr)) (m_wal m1)\<rparr>;
          m3 = m2\<lparr>m_decisions := m_decisions m2 @ [d]\<rparr>
      in if de_Keep d then m3\<lparr>m_traces := m_traces m3 @ [mt]\<rparr> else m3)"

text \<open>Finalize a list of traces; \<open>i\<close> counts the readings of the clock.\<close>

fun finalize_all ::
  "env \<Rightarrow> int \<Rightarrow> bool \<Rightarrow> asm_trace list \<Rightarrow> nat \<times> manager \<Rightarrow> nat \<times> manager" where
  "finalize_all e shardIdx force [] (i, m) = (i, m)"
| "finalize_all e shardIdx force (tr # trs) (i, m) =
     finalize_all e shardIdx force trs (i + 1, finalize e i shardIdx force tr m)"

text \<open>Take the traces satisfying \<open>P\<close> out of shard \<open>j\<close> and finalize them.\<close>

definition sweep_shard ::
  "env \<Rightarrow> bool \<Rightarrow> (asm_trace \<Rightarrow> bool) \<Rightarrow> nat \<Rightarrow> nat \<times> manager \<Rightarrow> nat \<times> manager" where
  "sweep_shard e force P j im =
     (let (i, m) = im;
          sb = m_shards m ! j;
          due = map snd (filter (\<lambda>(k, tr). P tr) (e_range e sb));
          m' = m\<lparr>m_shards := (m_shards m)[j := filter (\<lambda>(k, tr). \<not> P tr) sb]\<rparr>
      in finalize_all e (int j) force due (i, m'))"

definition is_due :: "assembly_config \<Rightarrow> gotime \<Rightarrow> asm_trace \<Rightarrow> bool" where
  "is_due c now tr =
     (time_sub now (tr_LastSeen tr) \<ge> ac_IdleTimeout c \<or> time_sub now (tr_FirstSeen tr) \<ge> ac_HardTimeout c)"

definition Tick :: "env \<Rightarrow> manager \<Rightarrow> manager" where
  "Tick e m =
     snd (fold (sweep_shard e False (is_due (m_cfg m) (e_clk e 0))) [0..<length (m_shards m)] (1, m))"

definition FlushAll :: "env \<Rightarrow> manager \<Rightarrow> manager" where
  "FlushAll e m = snd (fold (sweep_shard e True (\<lambda>tr. True)) [0..<length (m_shards m)] (0, m))"

section \<open>Replay\<close>

record replay_report =
  rp_SegmentsReplayed :: int
  rp_TracesReplayed :: int
  rp_TracesLost :: int
  rp_Duration :: duration

text \<open>Add the journalled spans that are not already in the buffer.\<close>

fun replay_spans :: "span list \<Rightarrow> asm_trace \<Rightarrow> asm_trace" where
  "replay_spans [] tr = tr"
| "replay_spans (s # ss) tr =
     (if sp_SpanID s \<in> tr_seenSpanIDs tr then replay_spans ss tr
      else replay_spans ss (tr\<lparr>tr_seenSpanIDs := insert (sp_SpanID s) (tr_seenSpanIDs tr),
                               tr_Spans := tr_Spans tr @ [s]\<rparr>))"

definition replayed_trace :: "gotime \<Rightarrow> trace_key \<Rightarrow> asm_trace" where
  "replayed_trace now key =
     \<lparr>tr_TraceID = snd key, tr_Tenant = fst key, tr_Spans = [], tr_FirstSeen = now, tr_LastSeen = 0,
      tr_ByteSize = 0, tr_Truncated = False, tr_ShardEpoch = 0, tr_PathSignature = 0,
      tr_seenSpanIDs = {}\<rparr>"

text \<open>One journalled trace; the counter is the number of clock readings.\<close>

definition replay_trace ::
  "env \<Rightarrow> trace_key \<times> span list \<Rightarrow> nat \<times> shard_buf \<Rightarrow> nat \<times> shard_buf" where
  "replay_trace e entry st =
     (let (key, spans) = entry;
          (i, sb) = st;
          (i1, tr) = (case map_of sb key of
             Some tr \<Rightarrow> (i, tr) | None \<Rightarrow> (i + 1, replayed_trace (e_clk e i) key));
          tr' = (replay_spans spans tr)\<lparr>tr_LastSeen := e_clk e i1\<rparr>
      in (i1 + 1, AList.update key tr' sb))"

definition replay_shard ::
  "env \<Rightarrow> mem_wal \<Rightarrow> nat \<Rightarrow> (nat \<times> replay_report) \<times> manager \<Rightarrow> (nat \<times> replay_report) \<times> manager" where
  "replay_shard e w j st =
     (let ((i, rep), m) = st;
          byTrace = wal_Replay w (int j)
      in if byTrace = [] then st
         else
           (let (i', sb) = fold (replay_trace e) byTrace (i, m_shards m ! j)
            in ((i', rep\<lparr>rp_SegmentsReplayed := rp_SegmentsReplayed rep + 1,
                         rp_TracesReplayed := rp_TracesReplayed rep + int (length byTrace)\<rparr>),
                m\<lparr>m_shards := (m_shards m)[j := sb]\<rparr>)))"

definition ReplayWAL :: "env \<Rightarrow> manager \<Rightarrow> (replay_report \<times> manager) option" where
  "ReplayWAL e m =
     (case m_wal m of
        None \<Rightarrow> None
      | Some w \<Rightarrow>
          (let start = e_clk e 0;
               rep0 = \<lparr>rp_SegmentsReplayed = 0, rp_TracesReplayed = 0, rp_TracesLost = 0, rp_Duration = 0\<rparr>;
               ((i, rep), m') = fold (replay_shard e w) [0..<length (m_shards m)] ((1, rep0), m)
           in Some (rep\<lparr>rp_TracesLost := m_tracesLostTotal m',
                        rp_Duration := time_sub (e_clk e i) start\<rparr>, m')))"

section \<open>RED output and statistics\<close>

definition redOut_cap :: nat where
  "redOut_cap = 8192"

definition send_red :: "red_sample \<Rightarrow> manager \<Rightarrow> manager" where
  "send_red s m =
     (if length (m_redOut m) < redOut_cap then m\<lparr>m_redOut := m_redOut m @ [s]\<rparr>
      else m\<lparr>m_redOut := tl (m_redOut m) @ [s], m_redSamplesDropped := m_redSamplesDropped m + 1\<rparr>)"

definition DrainRED :: "manager \<Rightarrow> manager" where
  "DrainRED m =
     (let (out, acc) = Flush (m_red m) in fold send_red out (m\<lparr>m_red := acc\<rparr>))"

text \<open>A receive from the channel of RED samples, and one firing of the ticker of \<open>Run\<close>.\<close>

definition recvRED :: "manager \<Rightarrow> manager" where
  "recvRED m = m\<lparr>m_redOut := tl (m_redOut m)\<rparr>"

definition run_tick :: "env \<Rightarrow> manager \<Rightarrow> manager" where
  "run_tick e m = DrainRED (Tick e m)"

record shard_stats =
  ss_ShardID :: nat
  ss_OpenTraces :: int
  ss_BytesInFlight :: int

definition shard_stats_of :: "manager \<Rightarrow> nat \<Rightarrow> shard_stats" where
  "shard_stats_of m j =
     \<lparr>ss_ShardID = j, ss_OpenTraces = int (length (m_shards m ! j)),
      ss_BytesInFlight = sum_list (map (tr_ByteSize \<circ> snd) (m_shards m ! j))\<rparr>"

record sampler_stats =
  st_Shards :: "shard_stats list"
  st_BytesInFlight :: int
  st_OpenTraces :: int
  st_TracesLostTotal :: int
  st_RebalanceSplits :: int
  st_RingEpoch :: "64 word"

definition Stats_sampler :: "manager \<Rightarrow> sampler_stats" where
  "Stats_sampler m =
     (let shards = map (shard_stats_of m) [0..<length (m_shards m)]
      in \<lparr>st_Shards = shards, st_BytesInFlight = sum_list (map ss_BytesInFlight shards),
          st_OpenTraces = sum_list (map ss_OpenTraces shards),
          st_TracesLostTotal = m_tracesLostTotal m, st_RebalanceSplits = m_rebalanceSplits m,
          st_RingEpoch = m_shardEpoch m\<rparr>)"

section \<open>impl.go\<close>

definition SetInterestPredicate :: "manager \<Rightarrow> tenant_id \<Rightarrow> interest_predicate \<Rightarrow> string \<times> manager" where
  "SetInterestPredicate m tid p =
     (let (i, ps) = Add (m_preds m) (p\<lparr>ip_Tenant := tid\<rparr>) in (i, m\<lparr>m_preds := ps\<rparr>))"

definition RemoveInterestPredicate :: "manager \<Rightarrow> tenant_id \<Rightarrow> string \<Rightarrow> manager" where
  "RemoveInterestPredicate m tid i = m\<lparr>m_preds := RemovePredicate (m_preds m) i\<rparr>"

definition ListInterestPredicates :: "manager \<Rightarrow> tenant_id \<Rightarrow> interest_predicate list" where
  "ListInterestPredicates m tid = ListPredicates (m_preds m) tid"

definition AdjustFloor_impl :: "manager \<Rightarrow> tenant_id \<Rightarrow> rat \<Rightarrow> manager" where
  "AdjustFloor_impl m tid fl = m\<lparr>m_policy := AdjustFloor (m_policy m) tid fl\<rparr>"

end
