(* ===== verification/Routing.thy ===== *)
theory Routing
  imports Assembly
begin

text \<open>
  Properties of \<open>ShardFor\<close>: it is total on a non-empty ring, it picks a member of highest score, and
  removing members moves only the traces they owned.
\<close>

definition score :: "(string \<Rightarrow> 64 word) \<Rightarrow> trace_id \<Rightarrow> string \<Rightarrow> 64 word" where
  "score xxh tr m = xxh (m @ tr)"

lemma shard_loop_score:
  "shard_loop xxh tr i (b, s) (m # ms) =
     (if b = - 1 \<or> s < score xxh tr m then shard_loop xxh tr (i + 1) (int i, score xxh tr m) ms
      else shard_loop xxh tr (i + 1) (b, s) ms)"
  by (simp add: score_def Let_def)

declare shard_loop.simps(2) [simp del] shard_loop_score [simp]

text \<open>\<open>k\<close> is the first index of the largest value.\<close>

definition first_max :: "('a \<Rightarrow> 64 word) \<Rightarrow> 'a list \<Rightarrow> nat \<Rightarrow> bool" where
  "first_max f xs k =
     (k < length xs \<and> (\<forall>i < length xs. f (xs ! i) \<le> f (xs ! k)) \<and> (\<forall>i < k. f (xs ! i) < f (xs ! k)))"

lemma first_max_snoc:
  "first_max f (xs @ [x]) k \<longleftrightarrow>
     (if xs = [] then k = 0
      else if k = length xs then (\<forall>y \<in> set xs. f y < f x) else first_max f xs k \<and> f x \<le> f (xs ! k))"
proof (cases "xs = []")
  case True
  then show ?thesis by (auto simp: first_max_def)
next
  case False
  show ?thesis
  proof (cases "k = length xs")
    case True
    then show ?thesis
      using False by (auto simp: first_max_def nth_append all_set_conv_all_nth less_Suc_eq intro: less_imp_le)
  next
    case ne: False
    then show ?thesis
      using False by (auto simp: first_max_def nth_append less_Suc_eq)
  qed
qed

text \<open>The state of the loop after a prefix of the members.\<close>

lemma shard_loop_first_max:
  assumes "pre \<noteq> []" and "first_max (score xxh tr) pre k" and "b = score xxh tr (pre ! k)"
  shows "\<exists>k'. shard_loop xxh tr (length pre) (int k, b) ms = int k'
              \<and> first_max (score xxh tr) (pre @ ms) k'"
  using assms
proof (induction ms arbitrary: pre k b)
  case Nil
  then show ?case by auto
next
  case (Cons m ms)
  have k: "k < length pre" using Cons.prems(2) by (simp add: first_max_def)
  show ?case
  proof (cases "score xxh tr m > b")
    case True
    have "first_max (score xxh tr) (pre @ [m]) (length pre)"
      using Cons.prems True unfolding first_max_snoc
      by (auto simp: first_max_def all_set_conv_all_nth intro: le_less_trans)
    with Cons.IH [of "pre @ [m]" "length pre" "score xxh tr m"] True show ?thesis
      by simp
  next
    case False
    have "first_max (score xxh tr) (pre @ [m]) k"
      using Cons.prems False k unfolding first_max_snoc by (auto simp: not_less)
    with Cons.IH [of "pre @ [m]" k b] False Cons.prems k show ?thesis
      by (simp add: nth_append)
  qed
qed

lemma ShardFor_first_max:
  assumes "rg_Members r \<noteq> []"
  shows "\<exists>k. ShardFor xxh r tr = int k \<and> first_max (score xxh tr) (rg_Members r) k"
proof -
  obtain m ms where ms: "rg_Members r = m # ms" using assms by (cases "rg_Members r") auto
  have "first_max (score xxh tr) [m] 0" by (simp add: first_max_def)
  from shard_loop_first_max [of "[m]" xxh tr 0 "score xxh tr m" ms, OF _ this] show ?thesis
    by (simp add: ShardFor_def ms)
qed

text \<open>The winner as a member: the first one with the largest score.\<close>

lemma first_max_find:
  assumes "first_max f xs k"
  shows "find (\<lambda>x. \<forall>y \<in> set xs. f y \<le> f x) xs = Some (xs ! k)"
  using assms unfolding first_max_def find_Some_iff
  by (intro exI [of _ k]) (auto simp: all_set_conv_all_nth not_le)

lemma find_max_filter:
  fixes f :: "'a \<Rightarrow> 64 word"
  assumes "find (\<lambda>x. \<forall>y \<in> set xs. f y \<le> f x) xs = Some w" and "P w"
  shows "find (\<lambda>x. \<forall>y \<in> set (filter P xs). f y \<le> f x) (filter P xs) = Some w"
proof -
  from assms(1) obtain i where i: "i < length xs" "w = xs ! i" and w: "\<forall>y \<in> set xs. f y \<le> f w"
    and before: "\<forall>j < i. \<not> (\<forall>y \<in> set xs. f y \<le> f (xs ! j))"
    by (auto simp: find_Some_iff)
  define pre post where "pre = take i xs" and "post = drop (Suc i) xs"
  have xs: "xs = pre @ w # post" using id_take_nth_drop [OF i(1)] i(2) by (simp add: pre_def post_def)
  have pre: "\<forall>x \<in> set pre. \<not> (\<forall>y \<in> set xs. f y \<le> f x)"
  proof
    fix x
    assume "x \<in> set pre"
    then obtain j where "j < i" "x = xs ! j" by (auto simp: pre_def in_set_conv_nth)
    with before show "\<not> (\<forall>y \<in> set xs. f y \<le> f x)" by blast
  qed
  have "\<not> (\<forall>y \<in> set (filter P xs). f y \<le> f x)" if "x \<in> set (filter P pre)" for x
  proof
    assume "\<forall>y \<in> set (filter P xs). f y \<le> f x"
    then have wx: "f w \<le> f x" using assms(2) xs by simp
    have "f y \<le> f x" if "y \<in> set xs" for y
      using order.trans [of "f y" "f w" "f x"] wx w that by blast
    then have "\<forall>y \<in> set xs. f y \<le> f x" by blast
    moreover have "x \<in> set pre" using that by simp
    ultimately show False using pre by blast
  qed
  then have none: "find (\<lambda>x. \<forall>y \<in> set (filter P xs). f y \<le> f x) (filter P pre) = None"
    by (simp add: find_None_iff)
  define Q where "Q = (\<lambda>x. \<forall>y \<in> set (filter P xs). f y \<le> f x)"
  have app: "find Q (as @ bs) = (case find Q as of Some x \<Rightarrow> Some x | None \<Rightarrow> find Q bs)" for as bs :: "'a list"
    by (induction as) auto
  have Qw: "Q w" using w by (simp add: Q_def)
  have fl: "filter P xs = filter P pre @ w # filter P post" using assms(2) by (simp add: xs)
  have "find Q (filter P pre) = None" unfolding Q_def by (rule none)
  with Qw have "find Q (filter P xs) = Some w" unfolding fl app by simp
  then show ?thesis by (simp add: Q_def)
qed

lemma ShardFor_winner:
  "rg_Members r \<noteq> [] \<Longrightarrow>
     find (\<lambda>x. \<forall>y \<in> set (rg_Members r). score xxh tr y \<le> score xxh tr x) (rg_Members r)
       = Some (rg_Members r ! nat (ShardFor xxh r tr))"
  using ShardFor_first_max [of r xxh tr] first_max_find [of "score xxh tr" "rg_Members r"] by fastforce

lemma ShardFor_range:
  "rg_Members r \<noteq> [] \<Longrightarrow> 0 \<le> ShardFor xxh r tr \<and> ShardFor xxh r tr < int (length (rg_Members r))"
  using ShardFor_first_max [of r xxh tr] by (auto simp: first_max_def)

text \<open>Rendezvous routing: on a non-empty ring \<open>ShardFor\<close> returns the index of a member with the
  highest score, and when other members leave the ring (the order of the rest kept), the trace
  stays with the same member.\<close>

theorem ShardFor_rendezvous:
  assumes "rg_Members r \<noteq> []"
    and "rg_Members r' = filter P (rg_Members r)" and "P (rg_Members r ! nat (ShardFor xxh r tr))"
  shows "0 \<le> ShardFor xxh r tr \<and> ShardFor xxh r tr < int (length (rg_Members r))
         \<and> (\<forall>m \<in> set (rg_Members r). xxh (m @ tr) \<le> xxh (rg_Members r ! nat (ShardFor xxh r tr) @ tr))
         \<and> rg_Members r' ! nat (ShardFor xxh r' tr) = rg_Members r ! nat (ShardFor xxh r tr)"
proof -
  let ?w = "rg_Members r ! nat (ShardFor xxh r tr)"
  note w = ShardFor_winner [OF assms(1), of xxh tr]
  from w have max: "\<forall>m \<in> set (rg_Members r). xxh (m @ tr) \<le> xxh (?w @ tr)"
    by (auto simp: find_Some_iff score_def)
  have "?w \<in> set (rg_Members r')"
    using ShardFor_range [OF assms(1), of xxh tr] assms(2,3) by (simp add: nat_less_iff)
  then have "rg_Members r' \<noteq> []" by auto
  from ShardFor_winner [OF this, of xxh tr] find_max_filter [where P = P, OF w assms(3)]
  have "rg_Members r' ! nat (ShardFor xxh r' tr) = ?w" by (simp add: assms(2))
  with max ShardFor_range [OF assms(1), of xxh tr] show ?thesis by blast
qed

theorem ShardFor_rendezvous_witness:
  "ShardFor (\<lambda>s. of_nat (length s)) \<lparr>rg_Epoch = 1, rg_Members = [''a'', ''bbb''], rg_State = RingStable\<rparr> [] < 2"
proof -
  let ?r = "\<lparr>rg_Epoch = 1, rg_Members = [''a'', ''bbb''], rg_State = RingStable\<rparr>"
  have "rg_Members ?r \<noteq> []" "rg_Members ?r = filter (\<lambda>m. True) (rg_Members ?r)" by simp_all
  from ShardFor_rendezvous [OF this, of "\<lambda>s. of_nat (length s)" "[]"] show ?thesis by simp
qed

section \<open>Member names\<close>

lemma itoa_digits_show: "0 < n \<Longrightarrow> itoa_digits n acc = show_nat n @ acc"
proof (induction n acc rule: itoa_digits.induct)
  case (1 n acc)
  show ?case
  proof (cases "n < 10")
    case True
    with 1 show ?thesis
      by (subst itoa_digits.simps) (simp add: show_nat.simps [of n] itoa_digits.simps [of 0])
  next
    case False
    with 1 show ?thesis
      by (subst itoa_digits.simps) (simp add: show_nat.simps [of n] div_eq_0_iff)
  qed
qed

lemma zero_digit: "char_of (48 :: nat) = CHR ''0''"
  using char_of_char [of "CHR ''0''", where 'a = nat] by simp

lemma itoa_show: "itoa i = show_int i"
  by (auto simp: zero_digit itoa_def show_int_def itoa_digits_show show_nat.simps [of 0] Let_def)

end
