(* ===== verification/InterestProps.thy ===== *)
theory InterestProps
  imports Interest
begin

text \<open>
  Properties of the interest predicate set: the per-tenant bound in every reachable state, which
  predicate an overflow evicts, what a match changes, and that narrowing never widens.
\<close>

section \<open>Scans\<close>

lemma before_total:
  "\<not> before_in_eviction a b \<Longrightarrow> \<not> before_in_eviction b c \<Longrightarrow> \<not> before_in_eviction a c"
  by (auto simp: before_in_eviction_def split: if_splits)

lemma before_asym: "before_in_eviction a b \<Longrightarrow> \<not> before_in_eviction b a"
  by (auto simp: before_in_eviction_def split: if_splits)

lemma evict_scan_step:
  "\<exists>best'. evict_scan tid i best (p # ps) = evict_scan tid (i + 1) best' ps
     \<and> (best' = best \<or> (best' = Some (i, p) \<and> ip_Tenant p = tid))"
  by (auto split: option.split)

lemma evict_scan_index:
  "evict_scan tid i best ps = Some (j, q) \<Longrightarrow>
     best = Some (j, q) \<or> (\<exists>k < length ps. j = i + k \<and> ps ! k = q \<and> ip_Tenant q = tid)"
proof (induction ps arbitrary: i best)
  case (Cons p ps)
  obtain best' where e: "evict_scan tid i best (p # ps) = evict_scan tid (i + 1) best' ps"
    and b: "best' = best \<or> (best' = Some (i, p) \<and> ip_Tenant p = tid)"
    using evict_scan_step by blast
  from Cons.IH [of "i + 1" best'] Cons.prems e
  consider "best' = Some (j, q)"
    | k where "k < length ps" "j = i + 1 + k" "ps ! k = q" "ip_Tenant q = tid" by auto
  then show ?case
  proof cases
    case 1
    with b show ?thesis by auto
  next
    case (2 k)
    then have "Suc k < length (p # ps) \<and> j = i + Suc k \<and> (p # ps) ! Suc k = q \<and> ip_Tenant q = tid" by simp
    then show ?thesis by blast
  qed
qed simp

lemma evict_scan_some:
  "best \<noteq> None \<or> tid \<in> ip_Tenant ` set ps \<Longrightarrow> evict_scan tid i best ps \<noteq> None"
  by (induction tid i best ps rule: evict_scan.induct) (auto split: option.splits)

lemma evict_scan_min:
  "evict_scan tid i best ps = Some (j, q) \<Longrightarrow>
     (\<forall>p \<in> set ps. ip_Tenant p = tid \<longrightarrow> \<not> before_in_eviction p q)
     \<and> (\<forall>k b. best = Some (k, b) \<longrightarrow> \<not> before_in_eviction b q)"
proof (induction tid i best ps rule: evict_scan.induct)
  case (1 tid i best)
  then show ?case by (simp add: before_in_eviction_def)
next
  case (2 tid i best p ps)
  show ?case
  proof (cases "ip_Tenant p = tid")
    case False
    with 2 show ?thesis by simp
  next
    case t: True
    show ?thesis
    proof (cases best)
      case None
      with t 2 show ?thesis by simp
    next
      case (Some b)
      obtain k q' where b: "b = (k, q')" by force
      show ?thesis
      proof (cases "before_in_eviction p q'")
        case True
        with t 2 Some b have "\<not> before_in_eviction p q"
          "\<forall>p \<in> set ps. ip_Tenant p = tid \<longrightarrow> \<not> before_in_eviction p q" by auto
        with True Some b before_total [OF before_asym [OF True]] show ?thesis by auto
      next
        case False
        with t 2 Some b have "\<not> before_in_eviction q' q"
          "\<forall>p \<in> set ps. ip_Tenant p = tid \<longrightarrow> \<not> before_in_eviction p q" by auto
        with False Some b before_total [OF False] show ?thesis by auto
      qed
    qed
  qed
qed

lemma remove_at_filter:
  assumes "i < length xs"
  shows "length (filter P (remove_at i xs)) + (if P (xs ! i) then 1 else 0) = length (filter P xs)"
proof -
  have "xs = take i xs @ xs ! i # drop (Suc i) xs" by (rule id_take_nth_drop [OF assms])
  then have "filter P xs = filter P (take i xs) @ filter P (xs ! i # drop (Suc i) xs)"
    by (metis filter_append)
  then show ?thesis by (simp add: remove_at_def)
qed

lemma remove_at_map: "map f (remove_at i xs) = remove_at i (map f xs)"
  by (simp add: remove_at_def take_map drop_map)

lemma remove_at_distinct: "distinct xs \<Longrightarrow> distinct (remove_at i xs)"
  by (auto simp: remove_at_def dest: set_take_disj_set_drop_if_distinct [of xs i "Suc i"])

lemma remove_at_subset: "set (remove_at i xs) \<subseteq> set xs"
  by (auto simp: remove_at_def dest: in_set_takeD in_set_dropD)

section \<open>The set as a state machine\<close>

datatype pred_op =
    PAdd interest_predicate | PRemove string | PExpire gotime | PNarrow int | PMatch model_trace

fun run_pred :: "pred_set \<Rightarrow> pred_op \<Rightarrow> pred_set" where
  "run_pred s (PAdd p) = snd (Add s p)"
| "run_pred s (PRemove i) = RemovePredicate s i"
| "run_pred s (PExpire now) = snd (ExpireDuePredicates s now)"
| "run_pred s (PNarrow l) = snd (Narrow s l)"
| "run_pred s (PMatch t) = snd (Match s t)"

text \<open>The identifier an \<open>Add\<close> uses is new.\<close>

definition new_id :: "pred_set \<Rightarrow> pred_op \<Rightarrow> bool" where
  "new_id s op =
     (case op of
        PAdd p \<Rightarrow> ip_ID (fst (assign_id s p)) \<notin> ip_ID ` set (ps_snapshot s)
      | _ \<Rightarrow> True)"

inductive pred_step :: "pred_set \<Rightarrow> pred_set \<Rightarrow> bool" where
  pred_step: "new_id s op \<Longrightarrow> pred_step s (run_pred s op)"

inductive_cases pred_stepE: "pred_step s t"

definition pred_inv :: "int \<Rightarrow> pred_set \<Rightarrow> bool" where
  "pred_inv n s =
     (ps_maxPreds s = n \<and> 0 < n \<and> distinct (map ip_ID (ps_snapshot s))
      \<and> (\<forall>tid. int (tenant_count tid (ps_snapshot s)) \<le> n))"

text \<open>An operation that maps and drops predicates, keeping tenant and identifier, keeps the invariant.\<close>

lemma pred_inv_shrink:
  assumes "pred_inv n s" and "ps_maxPreds s' = ps_maxPreds s"
    and "distinct (map ip_ID (ps_snapshot s'))"
    and "\<And>tid. tenant_count tid (ps_snapshot s') \<le> tenant_count tid (ps_snapshot s)"
  shows "pred_inv n s'"
proof -
  have "int (tenant_count tid (ps_snapshot s')) \<le> n" for tid
    using assms(1) assms(4) [of tid] unfolding pred_inv_def by (meson of_nat_mono order_trans)
  with assms show ?thesis by (simp add: pred_inv_def)
qed

lemma tenant_count_filter: "tenant_count tid (filter P ps) \<le> tenant_count tid ps"
  unfolding tenant_count_def by (induction ps) auto

lemma tenant_count_map: "(\<And>p. ip_Tenant (f p) = ip_Tenant p) \<Longrightarrow> tenant_count tid (map f ps) = tenant_count tid ps"
  unfolding tenant_count_def by (induction ps) auto

lemma tenant_count_remove_at: "i < length ps \<Longrightarrow> tenant_count tid (remove_at i ps) \<le> tenant_count tid ps"
  unfolding tenant_count_def using remove_at_filter [of i ps "\<lambda>p. ip_Tenant p = tid"] by simp

lemma map_ID_map: "(\<And>p. ip_ID (f p) = ip_ID p) \<Longrightarrow> map ip_ID (map f ps) = map ip_ID ps"
  by simp

lemma narrow_keeps [simp]:
  "ip_ID (narrow1 p) = ip_ID p" "ip_ID (narrow2 p) = ip_ID p" "ip_ID (narrow3 p) = ip_ID p"
  "ip_Tenant (narrow1 p) = ip_Tenant p" "ip_Tenant (narrow2 p) = ip_Tenant p"
  "ip_Tenant (narrow3 p) = ip_Tenant p"
  by (simp_all add: narrow1_def narrow2_def narrow3_def)

lemma lowest_scan_index:
  "lowest_scan i best ps = Some (j, q) \<Longrightarrow> best = Some (j, q) \<or> (i \<le> j \<and> j < i + length ps)"
  by (induction i best ps rule: lowest_scan.induct) (force split: if_splits option.splits)+

lemma pred_inv_narrow: "pred_inv n s \<Longrightarrow> pred_inv n (snd (Narrow s l))"
proof (rule pred_inv_shrink)
  assume inv: "pred_inv n s"
  show "ps_maxPreds (snd (Narrow s l)) = ps_maxPreds s"
    by (simp add: Narrow_def Let_def split: option.split)
  show "distinct (map ip_ID (ps_snapshot (snd (Narrow s l))))"
    using inv by (auto simp: Narrow_def Let_def pred_inv_def comp_def remove_at_map remove_at_distinct
        split: option.split)
  show "tenant_count tid (ps_snapshot (snd (Narrow s l))) \<le> tenant_count tid (ps_snapshot s)" for tid
    by (auto simp: Narrow_def Let_def tenant_count_map split: option.split
        dest!: lowest_scan_index intro!: tenant_count_remove_at)
qed

lemma map_ID_replace: "map ip_ID (replace_first u ps) = map ip_ID ps"
  by (induction u ps rule: replace_first.induct) auto

lemma replace_first_eq:
  assumes "distinct (map ip_ID ps)"
  shows "replace_first u ps = map (\<lambda>q. if ip_ID q = ip_ID u then u else q) ps"
  using assms
proof (induction u ps rule: replace_first.induct)
  case (2 u p ps)
  have "map (\<lambda>q. if ip_ID q = ip_ID u then u else q) ps = ps" if "ip_ID p = ip_ID u"
    using 2(2) that by (intro map_idI) (metis distinct.simps(2) image_eqI list.set_map list.simps(9))
  with 2 show ?case by auto
qed simp

lemma Match_snapshot:
  assumes "distinct (map ip_ID (ps_snapshot s))"
    and "find (\<lambda>p. pred_matches p t) (ps_snapshot s) = Some p"
  shows "ps_snapshot (snd (Match s t))
           = map (\<lambda>q. if q = p then p\<lparr>ip_Hits := ip_Hits p + 1\<rparr> else q) (ps_snapshot s)"
proof -
  have "p \<in> set (ps_snapshot s)" using assms(2) by (auto simp: find_Some_iff)
  with assms(1) have "(ip_ID q = ip_ID p) = (q = p)" if "q \<in> set (ps_snapshot s)" for q
    using that by (auto simp: distinct_map dest: inj_onD)
  then show ?thesis
    using assms by (simp add: Match_def Let_def storeUpdated_def replace_first_eq cong: map_cong)
qed

lemma pred_inv_match:
  assumes inv: "pred_inv n s"
  shows "pred_inv n (snd (Match s t))"
proof (cases "find (\<lambda>p. pred_matches p t) (ps_snapshot s)")
  case None
  with inv show ?thesis by (simp add: Match_def)
next
  case (Some p)
  have d: "distinct (map ip_ID (ps_snapshot s))" using inv by (simp add: pred_inv_def)
  note snap = Match_snapshot [OF d Some]
  show ?thesis
  proof (rule pred_inv_shrink [OF inv])
    show "ps_maxPreds (snd (Match s t)) = ps_maxPreds s"
      by (simp add: Match_def Let_def storeUpdated_def split: option.split)
    have "map ip_ID (ps_snapshot (snd (Match s t))) = map ip_ID (ps_snapshot s)"
      unfolding snap by (simp add: if_distrib cong: if_cong)
    with d show "distinct (map ip_ID (ps_snapshot (snd (Match s t))))" by simp
    show "tenant_count tid (ps_snapshot (snd (Match s t))) \<le> tenant_count tid (ps_snapshot s)" for tid
      unfolding snap by (simp add: tenant_count_map)
  qed
qed

lemma assign_id_keeps:
  "ps_snapshot (snd (assign_id s p)) = ps_snapshot s" "ps_maxPreds (snd (assign_id s p)) = ps_maxPreds s"
  "ip_Tenant (fst (assign_id s p)) = ip_Tenant p"
  by (simp_all add: assign_id_def Let_def)

text \<open>The two outcomes of an \<open>Add\<close>.\<close>

lemma Add_cases:
  assumes "Add s p0 = (i, s')"
  obtains (room) "int (tenant_count (ip_Tenant p0) (ps_snapshot s)) < ps_maxPreds s"
      "ps_snapshot s' = ps_snapshot s @ [fst (assign_id s p0)]" "ps_maxPreds s' = ps_maxPreds s"
  | (full) j q where "ps_maxPreds s \<le> int (tenant_count (ip_Tenant p0) (ps_snapshot s))"
      "evict_scan (ip_Tenant p0) 0 None (ps_snapshot s) = Some (j, q)"
      "ps_snapshot s' = remove_at j (ps_snapshot s) @ [fst (assign_id s p0)]"
      "ps_maxPreds s' = ps_maxPreds s"
  | (none) "ps_maxPreds s \<le> int (tenant_count (ip_Tenant p0) (ps_snapshot s))"
      "evict_scan (ip_Tenant p0) 0 None (ps_snapshot s) = None"
proof -
  obtain p' s1 where a: "assign_id s p0 = (p', s1)" by force
  then have k: "ps_snapshot s1 = ps_snapshot s" "ps_maxPreds s1 = ps_maxPreds s" "ip_Tenant p' = ip_Tenant p0"
    using assign_id_keeps [of s p0] by auto
  show thesis
  proof (cases "int (tenant_count (ip_Tenant p0) (ps_snapshot s)) < ps_maxPreds s")
    case True
    with assms a k show ?thesis by (intro room) (auto simp: Add_def Let_def)
  next
    case False
    show ?thesis
    proof (cases "evict_scan (ip_Tenant p0) 0 None (ps_snapshot s)")
      case None
      with False none show ?thesis by simp
    next
      case (Some jq)
      obtain j q where jq: "jq = (j, q)" by force
      with False Some assms a k show ?thesis by (intro full [of j q]) (auto simp: Add_def Let_def)
    qed
  qed
qed

lemma pred_inv_add:
  assumes inv: "pred_inv n s" and new: "ip_ID (fst (assign_id s p)) \<notin> ip_ID ` set (ps_snapshot s)"
  shows "pred_inv n (snd (Add s p))"
proof -
  obtain i s' where a: "Add s p = (i, s')" by force
  let ?q = "fst (assign_id s p)"
  have t: "ip_Tenant ?q = ip_Tenant p" by (rule assign_id_keeps)
  have n: "ps_maxPreds s = n" "0 < n" and d: "distinct (map ip_ID (ps_snapshot s))"
    and c: "\<And>tid. int (tenant_count tid (ps_snapshot s)) \<le> n"
    using inv by (auto simp: pred_inv_def)
  from a show ?thesis
  proof (cases rule: Add_cases)
    case room
    have "int (tenant_count tid (ps_snapshot s')) \<le> n" for tid
      using c [of tid] room(1) n(1) t unfolding room(2) tenant_count_def by auto
    with a n d new room show ?thesis by (simp add: pred_inv_def)
  next
    case (full j q)
    from evict_scan_index [OF full(2)] have j: "j < length (ps_snapshot s)"
      "ps_snapshot s ! j = q" "ip_Tenant q = ip_Tenant p" by auto
    have "int (tenant_count tid (ps_snapshot s')) \<le> n" for tid
      using c [of tid] remove_at_filter [OF j(1), of "\<lambda>p. ip_Tenant p = tid"] j t
      unfolding full(3) tenant_count_def by (auto split: if_splits)
    moreover have "distinct (map ip_ID (ps_snapshot s'))"
      using d new remove_at_subset [of j "map ip_ID (ps_snapshot s)"]
      unfolding full(3) by (auto simp: remove_at_map remove_at_distinct simp flip: set_map)
    ultimately show ?thesis using a n full(4) by (simp add: pred_inv_def)
  next
    case none
    from n none(1) have "tenant_count (ip_Tenant p) (ps_snapshot s) \<noteq> 0" by simp
    then have "ip_Tenant p \<in> ip_Tenant ` set (ps_snapshot s)"
      unfolding tenant_count_def length_0_conv filter_empty_conv by (metis image_eqI)
    then have "evict_scan (ip_Tenant p) 0 None (ps_snapshot s) \<noteq> None" by (intro evict_scan_some) simp
    with none(2) show ?thesis by simp
  qed
qed

lemma pred_inv_run: "pred_inv n s \<Longrightarrow> new_id s op \<Longrightarrow> pred_inv n (run_pred s op)"
proof (cases op)
  case (PAdd p)
  assume "pred_inv n s" "new_id s op"
  with PAdd show ?thesis by (simp add: new_id_def pred_inv_add)
next
  case (PRemove i)
  assume inv: "pred_inv n s"
  have "pred_inv n (RemovePredicate s i)"
    by (rule pred_inv_shrink [OF inv])
      (use inv in \<open>simp_all add: RemovePredicate_def tenant_count_filter pred_inv_def distinct_map_filter\<close>)
  with PRemove show ?thesis by simp
next
  case (PExpire now)
  assume inv: "pred_inv n s"
  have "pred_inv n (snd (ExpireDuePredicates s now))"
    by (rule pred_inv_shrink [OF inv])
      (use inv in \<open>simp_all add: ExpireDuePredicates_def Let_def tenant_count_filter pred_inv_def
        distinct_map_filter\<close>)
  with PExpire show ?thesis by simp
qed (simp_all add: pred_inv_narrow pred_inv_match)

definition effective_limit :: "int \<Rightarrow> int" where
  "effective_limit n = (if n \<le> 0 then defaultMaxPredicates else n)"

interpretation preds: invariant_system
  "\<lambda>s. s = NewPredicateSetWithLimit n" pred_step "pred_inv (effective_limit n)" for n
proof unfold_locales
  show "pred_inv (effective_limit n) s" if "s = NewPredicateSetWithLimit n" for s
    using that by (simp add: pred_inv_def NewPredicateSetWithLimit_def tenant_count_def
        effective_limit_def defaultMaxPredicates_def)
  show "pred_inv (effective_limit n) t" if "pred_inv (effective_limit n) s" "pred_step s t" for s t
    using that(2,1) by cases (auto intro: pred_inv_run)
qed

section \<open>A concrete set\<close>

definition demo_pred :: "string \<Rightarrow> 64 word \<Rightarrow> gotime \<Rightarrow> interest_predicate" where
  "demo_pred i h e =
     \<lparr>ip_ID = i, ip_Tenant = ''t1'', ip_Scope = ScopeRecurrence, ip_Source = ''user:u'', ip_Services = [''cart''],
      ip_Operations = [], ip_AttrEquals = [], ip_ErrorSigIDs = [], ip_PathSigs = [], ip_TraceIDs = {},
      ip_MinDuration = 0, ip_ErrorsOnly = False, ip_NarrowLevel = 0, ip_Hits = h, ip_CreatedAt = 0,
      ip_ExpiresAt = e\<rparr>"

definition demo_set :: pred_set where
  "demo_set = \<lparr>ps_snapshot = [demo_pred ''p1'' 3 10, demo_pred ''p2'' 1 20], ps_seq = 0,
                ps_maxPreds = 2, ps_evicted = 0\<rparr>"

definition demo_trace :: model_trace where
  "demo_trace =
     \<lparr>mt_TraceID = no_trace, mt_Tenant = ''t2'', mt_Spans = [], mt_RootSpanID = no_span, mt_RootService = ''cart'',
      mt_RootOperation = ''get'', mt_StartUnixNano = 0, mt_EndUnixNano = 0, mt_DurationNanos = 300000000,
      mt_SpanCount = 1, mt_ErrorCount = 0, mt_Services = [''cart''], mt_PathSignature = 0, mt_Complete = True,
      mt_Truncated = False, mt_SizeBytes = 0, mt_AssembledAt = 0\<rparr>"

lemmas demo_eval_pred = demo_set_def demo_pred_def demo_trace_def pred_matches_def candidate_matches_def
  narrow1_def duration_of_u64_def millisecond_def tenant_count_def

section \<open>Properties\<close>

text \<open>The bound of interest predicates: when no identifier is used twice, no tenant ever holds more
  predicates than the limit (32 when the configured limit is not positive), whatever sequence of
  pushes, matches, expiries and narrowings led here.\<close>

theorem predicates_bounded:
  assumes "reach (\<lambda>s. s = NewPredicateSetWithLimit n) pred_step s"
  shows "int (length (ListPredicates s tid)) \<le> effective_limit n"
  using preds.reach_inv [OF assms] by (simp add: pred_inv_def tenant_count_def ListPredicates_def)

theorem predicates_bounded_witness:
  "int (length (ListPredicates (snd (Add (NewPredicateSetWithLimit 2) (demo_pred ''p1'' 3 10))) ''t1'')) \<le> 2"
proof -
  let ?s = "NewPredicateSetWithLimit 2"
  have "new_id ?s (PAdd (demo_pred ''p1'' 3 10))"
    by (simp add: new_id_def NewPredicateSetWithLimit_def)
  then have "pred_step ?s (snd (Add ?s (demo_pred ''p1'' 3 10)))"
    using pred_step [of ?s "PAdd (demo_pred ''p1'' 3 10)"] by simp
  moreover have "reach (\<lambda>s. s = ?s) pred_step ?s" by (rule reach_init) simp
  ultimately have "reach (\<lambda>s. s = ?s) pred_step (snd (Add ?s (demo_pred ''p1'' 3 10)))"
    by (blast intro: reach_step)
  from predicates_bounded [OF this, of "''t1''"] show ?thesis by (simp add: effective_limit_def)
qed

text \<open>What an overflow evicts: with the tenant at the limit, \<open>Add\<close> removes exactly one predicate, of
  the same tenant, and no predicate of that tenant had fewer hits, or equal hits and an earlier
  expiry.\<close>

theorem eviction_is_minimal:
  assumes "ps_maxPreds s \<le> int (tenant_count (ip_Tenant p) (ps_snapshot s))" and "0 < ps_maxPreds s"
  shows "\<exists>j q. j < length (ps_snapshot s) \<and> ps_snapshot s ! j = q \<and> ip_Tenant q = ip_Tenant p
           \<and> ps_snapshot (snd (Add s p)) = remove_at j (ps_snapshot s) @ [fst (assign_id s p)]
           \<and> ps_evicted (snd (Add s p)) = ps_evicted s + 1
           \<and> (\<forall>r \<in> set (ps_snapshot s). ip_Tenant r = ip_Tenant p \<longrightarrow> \<not> before_in_eviction r q)"
proof -
  have "tenant_count (ip_Tenant p) (ps_snapshot s) \<noteq> 0" using assms by simp
  then have "ip_Tenant p \<in> ip_Tenant ` set (ps_snapshot s)"
    unfolding tenant_count_def length_0_conv filter_empty_conv by (metis image_eqI)
  then have "evict_scan (ip_Tenant p) 0 None (ps_snapshot s) \<noteq> None" by (intro evict_scan_some) simp
  then obtain j q where e: "evict_scan (ip_Tenant p) 0 None (ps_snapshot s) = Some (j, q)" by auto
  obtain p' s1 where a: "assign_id s p = (p', s1)" by force
  have k: "ps_snapshot s1 = ps_snapshot s" "ps_maxPreds s1 = ps_maxPreds s" "ip_Tenant p' = ip_Tenant p"
    "ps_evicted s1 = ps_evicted s"
    using assign_id_keeps [of s p] a by (auto simp: assign_id_def Let_def split: if_splits)
  have "ps_snapshot (snd (Add s p)) = remove_at j (ps_snapshot s) @ [fst (assign_id s p)]
        \<and> ps_evicted (snd (Add s p)) = ps_evicted s + 1"
    using assms(1) e a k by (simp add: Add_def Let_def)
  with evict_scan_index [OF e] evict_scan_min [OF e] show ?thesis by auto
qed

theorem eviction_is_minimal_witness:
  "ps_evicted (snd (Add demo_set (demo_pred ''p3'' 0 5))) = 1"
proof -
  have "ps_maxPreds demo_set \<le> int (tenant_count (ip_Tenant (demo_pred ''p3'' 0 5)) (ps_snapshot demo_set))"
    and "0 < ps_maxPreds demo_set" by (simp_all add: demo_eval_pred)
  from eviction_is_minimal [OF this] have "ps_evicted (snd (Add demo_set (demo_pred ''p3'' 0 5))) = ps_evicted demo_set + 1"
    by blast
  then show ?thesis by (simp add: demo_set_def)
qed

text \<open>A match: when identifiers are distinct, \<open>Match\<close> reports the first predicate the trace
  satisfies, counts one hit on it and changes no other predicate; it reports nothing exactly when
  no predicate is satisfied.\<close>

theorem Match_first:
  assumes "distinct (map ip_ID (ps_snapshot s))" and "Match s t = (m, s')"
  shows "if \<exists>p \<in> set (ps_snapshot s). pred_matches p t
         then \<exists>i < length (ps_snapshot s). pred_matches (ps_snapshot s ! i) t
              \<and> (\<forall>j < i. \<not> pred_matches (ps_snapshot s ! j) t)
              \<and> im_Matched m \<and> im_PredicateID m = ip_ID (ps_snapshot s ! i)
              \<and> ps_snapshot s' = (ps_snapshot s)[i := (ps_snapshot s ! i)\<lparr>ip_Hits := ip_Hits (ps_snapshot s ! i) + 1\<rparr>]
         else \<not> im_Matched m \<and> s' = s"
proof (cases "find (\<lambda>p. pred_matches p t) (ps_snapshot s)")
  case None
  then have "\<not> (\<exists>p \<in> set (ps_snapshot s). pred_matches p t)" by (auto simp: find_None_iff)
  with None assms(2) show ?thesis by (auto simp: Match_def no_match_def)
next
  case (Some p)
  then obtain i where i: "i < length (ps_snapshot s)" "pred_matches (ps_snapshot s ! i) t"
    "p = ps_snapshot s ! i" "\<forall>j < i. \<not> pred_matches (ps_snapshot s ! j) t"
    by (auto simp: find_Some_iff)
  let ?p' = "p\<lparr>ip_Hits := ip_Hits p + 1\<rparr>"
  have dist: "distinct (ps_snapshot s)" using assms(1) by (simp add: distinct_map)
  have "map (\<lambda>q. if q = p then ?p' else q) (ps_snapshot s) = (ps_snapshot s)[i := ?p']"
    using i(1,3) dist by (intro nth_equalityI) (auto simp: nth_list_update nth_eq_iff_index_eq)
  with Match_snapshot [OF assms(1) Some] assms(2) have "ps_snapshot s' = (ps_snapshot s)[i := ?p']" by simp
  moreover have "im_Matched m" "im_PredicateID m = ip_ID p"
    using assms(2) Some by (auto simp: Match_def Let_def)
  moreover have "\<exists>p \<in> set (ps_snapshot s). pred_matches p t" using i(1,2) nth_mem by blast
  ultimately show ?thesis using i by auto
qed

theorem Match_first_witness: "im_Matched (fst (Match demo_set demo_trace))"
proof -
  obtain m s' where m: "Match demo_set demo_trace = (m, s')" by force
  have d: "distinct (map ip_ID (ps_snapshot demo_set))" by (simp add: demo_eval_pred)
  have "\<exists>p \<in> set (ps_snapshot demo_set). pred_matches p demo_trace" by (simp add: demo_eval_pred)
  from Match_first [OF d m, unfolded if_P [OF this]] m show ?thesis by auto
qed

lemma narrow_matches:
  "pred_matches (narrow1 p) t \<Longrightarrow> pred_matches p t"
  "pred_matches (narrow2 p) t \<Longrightarrow> pred_matches p t"
  "pred_matches (narrow3 p) t \<Longrightarrow> pred_matches p t"
proof -
  show "pred_matches (narrow1 p) t \<Longrightarrow> pred_matches p t"
    by (auto simp: pred_matches_def narrow1_def candidate_matches_def split: if_splits)
  show "pred_matches (narrow2 p) t \<Longrightarrow> pred_matches p t"
    by (auto simp: pred_matches_def narrow2_def candidate_matches_def split: if_splits)
  have "list_ex P (take 1 xs) \<Longrightarrow> list_ex P xs" for P and xs :: "string list"
    by (cases xs) auto
  then show "pred_matches (narrow3 p) t \<Longrightarrow> pred_matches p t"
    by (cases "ip_Services p") (auto simp: pred_matches_def narrow3_def candidate_matches_def split: if_splits)
qed

lemma Match_hit: "im_Matched (fst (Match r t)) \<longleftrightarrow> (\<exists>p \<in> set (ps_snapshot r). pred_matches p t)"
proof (cases "find (\<lambda>p. pred_matches p t) (ps_snapshot r)")
  case None
  then have "\<not> (\<exists>p \<in> set (ps_snapshot r). pred_matches p t)" by (auto simp: find_None_iff)
  with None show ?thesis by (simp add: Match_def no_match_def)
next
  case (Some p)
  then have "p \<in> set (ps_snapshot r)" "pred_matches p t" by (auto simp: find_Some_iff)
  with Some show ?thesis by (auto simp: Match_def Let_def)
qed

lemma Narrow_snapshot:
  "p \<in> set (ps_snapshot (snd (Narrow s l))) \<Longrightarrow>
     p \<in> set (ps_snapshot s) \<or> (\<exists>q \<in> set (ps_snapshot s). p = narrow1 q \<or> p = narrow2 q \<or> p = narrow3 q)"
  by (auto simp: Narrow_def Let_def dest!: subsetD [OF remove_at_subset] split: if_splits option.splits)

text \<open>Narrowing never widens: a trace that some predicate matches after \<open>Narrow\<close>, at any level, was
  matched by some predicate before.\<close>

theorem Narrow_never_widens:
  "im_Matched (fst (Match (snd (Narrow s l)) t)) \<longrightarrow> im_Matched (fst (Match s t))"
  unfolding Match_hit using Narrow_snapshot narrow_matches by blast

theorem Narrow_never_widens_witness:
  "im_Matched (fst (Match demo_set demo_trace))"
  using Narrow_never_widens [of demo_set 1 demo_trace]
  by (simp add: Narrow_def Let_def Match_hit demo_eval_pred)

text \<open>Matching ignores tenants: the outcome of \<open>Match\<close> is the same whatever tenant the trace and
  the predicates belong to, so the predicate of one tenant keeps the traces of every other.\<close>

theorem Match_ignores_tenant:
  "fst (Match (s\<lparr>ps_snapshot := map (\<lambda>p. p\<lparr>ip_Tenant := u\<rparr>) (ps_snapshot s)\<rparr>) (t\<lparr>mt_Tenant := v\<rparr>))
     = fst (Match s t)"
proof -
  have m: "pred_matches (p\<lparr>ip_Tenant := u\<rparr>) (t\<lparr>mt_Tenant := v\<rparr>) = pred_matches p t" for p
    by (simp add: pred_matches_def candidate_matches_def)
  have "find (\<lambda>p. pred_matches p (t\<lparr>mt_Tenant := v\<rparr>)) (map (\<lambda>p. p\<lparr>ip_Tenant := u\<rparr>) ps)
        = map_option (\<lambda>p. p\<lparr>ip_Tenant := u\<rparr>) (find (\<lambda>p. pred_matches p t) ps)" for ps
    by (induction ps) (simp_all add: m)
  then show ?thesis by (simp add: Match_def Let_def split: option.split)
qed

end
