(* ===== verification/PolicyProps.thy ===== *)
theory PolicyProps
  imports Policy InterestProps
begin

text \<open>
  Properties of the keep policy: what every drop is justified by, the shed order, token buckets,
  the probabilistic class, and the memory and rate bounds of the rare-path class.
\<close>

section \<open>Helpers that leave fields alone\<close>

lemma pruneLocked_fields [simp]:
  "dp_cfg (snd (pruneLocked p tid now)) = dp_cfg p"
  "dp_rareSeen (snd (pruneLocked p tid now)) = dp_rareSeen p"
  "dp_rareCardinality (snd (pruneLocked p tid now)) = dp_rareCardinality p"
  "dp_floors (snd (pruneLocked p tid now)) = dp_floors p"
  by (simp_all add: pruneLocked_def Let_def)

lemma allowForTenant_snd [simp]: "snd (allowForTenant p tid now) = snd (pruneLocked p tid now)"
  by (simp add: allowForTenant_def split: prod.split)

lemma shouldShedClass_fields [simp]:
  "dp_cfg (snd (shouldShedClass p tid r now)) = dp_cfg p"
  "dp_rareSeen (snd (shouldShedClass p tid r now)) = dp_rareSeen p"
  "dp_rareCardinality (snd (shouldShedClass p tid r now)) = dp_rareCardinality p"
  using pruneLocked_fields [of p tid now]
  by (cases "pruneLocked p tid now", simp add: shouldShedClass_def Let_def)+

lemma apply_cap_fields [simp]:
  "dp_cfg (snd (apply_cap now p tid r m k)) = dp_cfg p"
  "dp_rareSeen (snd (apply_cap now p tid r m k)) = dp_rareSeen p"
  "dp_rareCardinality (snd (apply_cap now p tid r m k)) = dp_rareCardinality p"
  using shouldShedClass_fields [of "snd (pruneLocked p tid now)" tid r now]
  by (cases "allowForTenant p tid now",
      cases "shouldShedClass (snd (allowForTenant p tid now)) tid r now",
      simp add: apply_cap_def,
      metis allowForTenant_snd pruneLocked_fields snd_conv)+

lemma recordKeep_fields [simp]:
  "dp_cfg (recordKeep p tid now k r) = dp_cfg p"
  "dp_rareSeen (recordKeep p tid now k r) = dp_rareSeen p"
  "dp_rareCardinality (recordKeep p tid now k r) = dp_rareCardinality p"
  by (simp_all add: recordKeep_def)

lemma tryTakeFloor_fields [simp]:
  "dp_cfg (snd (tryTakeFloor p tid s now)) = dp_cfg p"
  "dp_rareSeen (snd (tryTakeFloor p tid s now)) = dp_rareSeen p"
  "dp_rareCardinality (snd (tryTakeFloor p tid s now)) = dp_rareCardinality p"
  "dp_floors (snd (tryTakeFloor p tid s now)) = dp_floors p"
  by (simp_all add: tryTakeFloor_def Let_def split: prod.split)

lemma tryTakeRare_cfg [simp]: "dp_cfg (snd (tryTakeRare p tid sig now)) = dp_cfg p"
  "dp_floors (snd (tryTakeRare p tid sig now)) = dp_floors p"
  by (simp_all add: tryTakeRare_def Let_def split: prod.split)

lemma tryTakeRare_seen:
  "dp_rareSeen (snd (tryTakeRare p tid sig now))
     = (if fst (tryTakeRare p tid sig now) then (dp_rareSeen p)((tid, sig) := Some now) else dp_rareSeen p)"
  "dp_rareCardinality (snd (tryTakeRare p tid sig now))
     = (if fst (tryTakeRare p tid sig now)
        then (dp_rareCardinality p)(tid := insert sig (dp_rareCardinality p tid))
        else dp_rareCardinality p)"
  by (simp_all add: tryTakeRare_def Let_def split: prod.split)

text \<open>The table of rare paths after a classification.\<close>

lemma classify_rare:
  assumes "classify xxh oob now p tid t b m = (cls, p')"
  shows "if cls = KeepRare
         then isRareCandidate p tid (mt_PathSignature t) now
              \<and> dp_rareSeen p' = (dp_rareSeen p)((tid, mt_PathSignature t) := Some now)
              \<and> dp_rareCardinality p' = (dp_rareCardinality p)
                   (tid := insert (mt_PathSignature t) (dp_rareCardinality p tid))
         else dp_rareSeen p' = dp_rareSeen p \<and> dp_rareCardinality p' = dp_rareCardinality p"
    and "dp_cfg p' = dp_cfg p"
proof -
  obtain r p1 where r: "(if isRareCandidate p tid (mt_PathSignature t) now
       then tryTakeRare p tid (mt_PathSignature t) now else (False, p)) = (r, p1)" by force
  then have p1: "if r then isRareCandidate p tid (mt_PathSignature t) now
              \<and> dp_rareSeen p1 = (dp_rareSeen p)((tid, mt_PathSignature t) := Some now)
              \<and> dp_rareCardinality p1 = (dp_rareCardinality p)
                   (tid := insert (mt_PathSignature t) (dp_rareCardinality p tid))
         else dp_rareSeen p1 = dp_rareSeen p \<and> dp_rareCardinality p1 = dp_rareCardinality p"
    using tryTakeRare_seen [of p tid "mt_PathSignature t" now] by (auto split: if_splits)
  from r have "p1 = snd (tryTakeRare p tid (mt_PathSignature t) now) \<or> p1 = p" by (auto split: if_splits)
  then have c1: "dp_cfg p1 = dp_cfg p" by auto
  obtain f p2 where f: "tryTakeFloor p1 tid (mt_RootService t) now = (f, p2)" by force
  have p2: "dp_rareSeen p2 = dp_rareSeen p1" "dp_rareCardinality p2 = dp_rareCardinality p1" "dp_cfg p2 = dp_cfg p1"
    using tryTakeFloor_fields [of p1 tid "mt_RootService t" now] f by auto
  have "(cls, p') = (KeepError, p) \<or> (cls, p') = (KeepSlow, p) \<or> (r \<and> (cls, p') = (KeepRare, p1))
        \<or> (\<not> r \<and> (cls, p') = (KeepInterest, p1))
        \<or> (\<not> r \<and> cls \<in> {KeepFloor, KeepProbabilistic, KeepDropped} \<and> p' = p2)"
    using assms r f by (auto simp: classify_def Let_def split: if_splits)
  with p1 p2 c1 show "if cls = KeepRare
         then isRareCandidate p tid (mt_PathSignature t) now
              \<and> dp_rareSeen p' = (dp_rareSeen p)((tid, mt_PathSignature t) := Some now)
              \<and> dp_rareCardinality p' = (dp_rareCardinality p)
                   (tid := insert (mt_PathSignature t) (dp_rareCardinality p tid))
         else dp_rareSeen p' = dp_rareSeen p \<and> dp_rareCardinality p' = dp_rareCardinality p"
    and "dp_cfg p' = dp_cfg p"
    by (auto split: if_splits)
qed

lemma Evaluate_split:
  assumes "Evaluate xxh oob now p tid t b m = (d, p')"
  obtains cls p1 keep reason p2 where
    "classify xxh oob now p tid t b m = (cls, p1)"
    "apply_cap now p1 tid (if mt_Truncated t \<and> cls \<noteq> KeepDropped then KeepTruncated else cls) m
       (cls \<noteq> KeepDropped) = ((keep, reason), p2)"
    "de_Keep d = keep" "de_Reason d = reason" "p' = recordKeep p2 tid now keep reason"
  using assms by (auto simp: Evaluate_def Let_def split: prod.splits)

lemma apply_cap_cases:
  assumes "apply_cap now p tid r m k = ((keep, reason), p2)"
  obtains (same) "keep = k" "reason = r"
  | (shed) hist where "\<not> keep" "reason = KeepShed" "shed_eligible k r m" "0 \<le> shedRank r"
      "hist = fst (pruneLocked p tid now)" "hist \<noteq> []" "pc_MaxKeepRate (dp_cfg p) < keep_rate hist"
      "\<forall>e \<in> set (fst (pruneLocked (snd (pruneLocked p tid now)) tid now)).
         ke_keep e \<longrightarrow> \<not> (0 \<le> shedRank (ke_reason e) \<and> shedRank (ke_reason e) < shedRank r)"
proof -
  obtain hist p1 where h: "pruneLocked p tid now = (hist, p1)" by force
  obtain hist' p3 where h': "pruneLocked p1 tid now = (hist', p3)" by force
  have ok: "\<not> list_ex (\<lambda>q. still_kept hist' (int q)) [0..<nat (shedRank r)] \<longrightarrow>
     (\<forall>e \<in> set hist'. ke_keep e \<longrightarrow> \<not> (0 \<le> shedRank (ke_reason e) \<and> shedRank (ke_reason e) < shedRank r))"
  proof (intro impI ballI notI)
    fix e
    assume n: "\<not> list_ex (\<lambda>q. still_kept hist' (int q)) [0..<nat (shedRank r)]"
      and e: "e \<in> set hist'" "ke_keep e" "0 \<le> shedRank (ke_reason e) \<and> shedRank (ke_reason e) < shedRank r"
    then have "nat (shedRank (ke_reason e)) \<in> set [0..<nat (shedRank r)]" by auto
    moreover have "still_kept hist' (int (nat (shedRank (ke_reason e))))"
      using e by (auto simp: still_kept_def list_ex_iff)
    ultimately show False using n unfolding list_ex_iff by blast
  qed
  show thesis
  proof (cases "keep = k \<and> reason = r")
    case True
    with same show ?thesis by blast
  next
    case False
    then have f: "\<not> keep" "reason = KeepShed" "shed_eligible k r m" "0 \<le> shedRank r" "hist \<noteq> []"
      "pc_MaxKeepRate (dp_cfg p) < keep_rate hist"
      "\<not> list_ex (\<lambda>q. still_kept hist' (int q)) [0..<nat (shedRank r)]"
      using assms h h'
      by (auto simp: apply_cap_def allowForTenant_def shouldShedClass_def Let_def split: if_splits)
    show ?thesis
      by (rule shed [OF f(1-4)]) (use f(5-7) ok h h' in auto)
  qed
qed

lemma prune_again:
  "fst (pruneLocked (snd (pruneLocked p tid now)) tid now) = fst (pruneLocked p tid now)"
proof -
  have "dropWhile P (dropWhile P xs) = dropWhile P xs" for P and xs :: "keep_event list"
    by (induction xs) auto
  then show ?thesis by (simp add: pruneLocked_def Let_def)
qed

section \<open>Every drop is justified\<close>

lemma tryTakeRare_floor [simp]: "dp_floorBuckets (snd (tryTakeRare p tid sig now)) = dp_floorBuckets p"
  by (simp add: tryTakeRare_def Let_def split: prod.split)

lemma tryTakeFloor_cong:
  "dp_floorBuckets p = dp_floorBuckets q \<Longrightarrow> dp_cfg p = dp_cfg q \<Longrightarrow> fst (tryTakeFloor p tid s now) = fst (tryTakeFloor q tid s now)"
  by (simp add: tryTakeFloor_def Let_def case_prod_unfold cong: option.case_cong)

lemma tryTakeFloor_after_rare [simp]:
  "fst (tryTakeFloor (snd (tryTakeRare p tid sig now)) tid' s now) = fst (tryTakeFloor p tid' s now)"
  by (rule tryTakeFloor_cong) simp_all

lemma classify_dropped:
  assumes "classify xxh oob now p tid t b m = (KeepDropped, p1)"
  shows "\<not> (isRareCandidate p tid (mt_PathSignature t) now \<and> fst (tryTakeRare p tid (mt_PathSignature t) now))"
    and "\<not> fst (tryTakeFloor p tid (mt_RootService t) now)"
proof -
  obtain r q where r: "tryTakeRare p tid (mt_PathSignature t) now = (r, q)" by force
  then have q: "fst (tryTakeFloor q tid (mt_RootService t) now) = fst (tryTakeFloor p tid (mt_RootService t) now)"
    by (metis snd_conv tryTakeFloor_after_rare)
  from assms r q show "\<not> (isRareCandidate p tid (mt_PathSignature t) now \<and> fst (tryTakeRare p tid (mt_PathSignature t) now))"
    "\<not> fst (tryTakeFloor p tid (mt_RootService t) now)"
    by (auto simp: classify_def Let_def split: if_splits prod.splits)
qed

lemma classify_cls:
  assumes "classify xxh oob now p tid t b m = (cls, p1)"
  shows "cls = KeepError \<longleftrightarrow> traceHasError (mt_Spans t)"
    and "cls = KeepSlow \<longleftrightarrow> \<not> traceHasError (mt_Spans t) \<and> slow_fires (dp_cfg p) b t"
    and "cls = KeepDropped \<longrightarrow> \<not> im_Matched m \<and> \<not> probabilistic xxh oob (mt_TraceID t) (CurrentFloor p tid)"
    and "cls \<notin> {KeepShed, KeepTruncated}"
    and "cls = KeepInterest \<longrightarrow> im_Matched m"
proof -
  have floor: "CurrentFloor (snd (tryTakeFloor p' tid s now)) tid = CurrentFloor p' tid"
    "CurrentFloor (snd (tryTakeRare p' tid sig now)) tid = CurrentFloor p' tid" for p' s sig
    by (simp_all add: CurrentFloor_def split: option.split)
  show "cls = KeepError \<longleftrightarrow> traceHasError (mt_Spans t)"
    "cls = KeepSlow \<longleftrightarrow> \<not> traceHasError (mt_Spans t) \<and> slow_fires (dp_cfg p) b t"
    "cls \<notin> {KeepShed, KeepTruncated}" "cls = KeepInterest \<longrightarrow> im_Matched m"
    using assms by (auto simp: classify_def Let_def split: if_splits prod.splits)
  show "cls = KeepDropped \<longrightarrow> \<not> im_Matched m \<and> \<not> probabilistic xxh oob (mt_TraceID t) (CurrentFloor p tid)"
    using assms floor
    by (auto simp: classify_def Let_def split: if_splits prod.splits) (metis snd_conv)+
qed

text \<open>C11. Drops are justified: a trace with an error is always kept; a trace reported as dropped was
  not slow, was not a path rare enough to take a token of the rare-path bucket, matched no predicate,
  found no token in the floor bucket of its root service and was not selected by its hash; a shed trace had no error and
  was not truncated, the keep rate of the last 60 seconds was over the cap, and no trace of a less
  protected class (Probabilistic, Floor, Interest, Rare, Slow, in this order) was still kept in
  that window; a live investigation match is never shed for its interest.\<close>

theorem Evaluate_drops_justified:
  assumes "Evaluate xxh oob now p tid t b m = (d, p')" and "\<not> de_Keep d"
  shows "\<not> traceHasError (mt_Spans t)
     \<and> (de_Reason d = KeepDropped
         \<and> \<not> slow_fires (dp_cfg p) b t
         \<and> \<not> (isRareCandidate p tid (mt_PathSignature t) now \<and> fst (tryTakeRare p tid (mt_PathSignature t) now))
         \<and> \<not> im_Matched m \<and> \<not> fst (tryTakeFloor p tid (mt_RootService t) now)
         \<and> \<not> probabilistic xxh oob (mt_TraceID t) (CurrentFloor p tid)
        \<or> de_Reason d = KeepShed \<and> \<not> mt_Truncated t
         \<and> (\<exists>cls p1. classify xxh oob now p tid t b m = (cls, p1) \<and> 0 \<le> shedRank cls
              \<and> (cls = KeepInterest \<longrightarrow> im_Scope m = ScopeRecurrence)
              \<and> pc_MaxKeepRate (dp_cfg p) < keep_rate (fst (pruneLocked p1 tid now))
              \<and> (\<forall>e \<in> set (fst (pruneLocked p1 tid now)). ke_keep e \<longrightarrow>
                    \<not> (0 \<le> shedRank (ke_reason e) \<and> shedRank (ke_reason e) < shedRank cls))))"
proof -
  from assms(1) obtain cls p1 keep reason p2 where c: "classify xxh oob now p tid t b m = (cls, p1)"
    and a: "apply_cap now p1 tid (if mt_Truncated t \<and> cls \<noteq> KeepDropped then KeepTruncated else cls) m
       (cls \<noteq> KeepDropped) = ((keep, reason), p2)"
    and d: "de_Keep d = keep" "de_Reason d = reason"
    by (rule Evaluate_split)
  note cls = classify_cls [OF c] and cfg = classify_rare(2) [OF c]
  from a show ?thesis
  proof (cases rule: apply_cap_cases)
    case same
    with assms(2) d have "cls = KeepDropped" by simp
    with c have "classify xxh oob now p tid t b m = (KeepDropped, p1)" by simp
    from same d cls classify_dropped [OF this] \<open>cls = KeepDropped\<close> show ?thesis by (auto split: if_splits)
  next
    case (shed hist)
    have tr: "\<not> mt_Truncated t"
      using shed(3,4) by (auto simp: shed_eligible_def shedRank_def split: if_splits)
    with shed have e: "cls \<noteq> KeepError" "0 \<le> shedRank cls" "cls = KeepInterest \<longrightarrow> im_Scope m = ScopeRecurrence"
      by (auto simp: shed_eligible_def)
    show ?thesis
      using shed tr e cls d c cfg by (auto simp: prune_again)
  qed
qed

definition strict_config :: policy_config where
  "strict_config = DefaultPolicyConfig\<lparr>pc_MaxPathSignatureCardinality := 0,
     pc_FloorTracesPerMinPerService := 0, pc_HealthySampleRate := 0\<rparr>"

definition cold :: key_baseline where
  "cold = \<lparr>kb_P95Nanos = 0, kb_P99Nanos = 0, kb_Warmed = False, kb_Samples = 0\<rparr>"

lemma demo_classify:
  "fst (classify (\<lambda>s. 0) (\<lambda>x. 0) 5 (NewDefaultPolicy strict_config) ''t2'' demo_trace cold no_match)
     = KeepDropped"
  by (simp add: classify_def demo_trace_def traceHasError_def slow_fires_def cold_def isRareCandidate_def
      NewDefaultPolicy_def strict_config_def DefaultPolicyConfig_def no_match_def tryTakeFloor_def Take_def
      refill_def newTokenBucket_def Let_def probabilistic_def CurrentFloor_def u64_of_float_def rnd64_def)

theorem Evaluate_drops_justified_witness:
  "de_Reason (fst (Evaluate (\<lambda>s. 0) (\<lambda>x. 0) 5 (NewDefaultPolicy strict_config) ''t2'' demo_trace cold no_match))
     \<in> {KeepDropped, KeepShed}"
proof -
  obtain d p' where e: "Evaluate (\<lambda>s. 0) (\<lambda>x. 0) 5 (NewDefaultPolicy strict_config) ''t2'' demo_trace cold no_match = (d, p')"
    by force
  then obtain cls p1 keep reason p2 where "classify (\<lambda>s. 0) (\<lambda>x. 0) 5 (NewDefaultPolicy strict_config) ''t2'' demo_trace cold no_match = (cls, p1)"
    and a: "apply_cap 5 p1 ''t2'' (if mt_Truncated demo_trace \<and> cls \<noteq> KeepDropped then KeepTruncated else cls) no_match
       (cls \<noteq> KeepDropped) = ((keep, reason), p2)" and k: "de_Keep d = keep"
    by (rule Evaluate_split)
  then have "cls = KeepDropped" using demo_classify by simp
  with a k have "\<not> de_Keep d" by (simp add: apply_cap_def shed_eligible_def)
  from Evaluate_drops_justified [OF e this] e show ?thesis by auto
qed

section \<open>Token buckets\<close>

fun take_n :: "nat \<Rightarrow> int \<Rightarrow> token_bucket \<Rightarrow> bool list" where
  "take_n 0 now b = []"
| "take_n (Suc k) now b = (let (ok, b') = Take now b in ok # take_n k now b')"

inductive bucket_step :: "token_bucket \<Rightarrow> token_bucket \<Rightarrow> bool" where
  bucket_take: "bucket_step b (snd (Take now b))"

definition bucket_ok :: "nat \<Rightarrow> token_bucket \<Rightarrow> bool" where
  "bucket_ok n b = (tb_capacity b = of_nat n \<and> n \<le> 2 ^ 53 \<and> tb_tokens b \<le> of_nat n)"

lemma of_nat_float: "n \<le> 2 ^ 53 \<Longrightarrow> is_float (of_nat n)"
  using is_float_of_int [of "int n"] by simp

lemma refill_ok: "bucket_ok n b \<Longrightarrow> bucket_ok n (refill now b)"
  by (simp add: bucket_ok_def refill_def Let_def)

lemma rnd64_minus_one:
  assumes "x \<le> of_nat m" and "1 \<le> x" and "m \<le> 2 ^ 53"
  shows "rnd64 (x - 1) \<le> of_nat (m - 1)" and "1 \<le> m"
proof -
  have "(1 :: rat) \<le> of_nat m" using assms by linarith
  then show m: "1 \<le> m" by simp
  have "x - 1 \<le> of_nat (m - 1)" using assms(1) m by (simp add: of_nat_diff)
  then show "rnd64 (x - 1) \<le> of_nat (m - 1)" using assms(3) by (intro fl.le of_nat_float) simp_all
qed

lemma Take_ok: "bucket_ok n b \<Longrightarrow> bucket_ok n (snd (Take now b))"
proof -
  assume "bucket_ok n b"
  then have r: "bucket_ok n (refill now b)" by (rule refill_ok)
  show ?thesis
  proof (cases "tb_tokens (refill now b) \<ge> 1")
    case True
    with r have "rnd64 (tb_tokens (refill now b) - 1) \<le> of_nat (n - 1)"
      by (intro rnd64_minus_one(1)) (simp_all add: bucket_ok_def)
    also have "\<dots> \<le> of_nat n" by simp
    finally show ?thesis using r True by (simp add: Take_def Let_def bucket_ok_def)
  next
    case False
    with r show ?thesis by (simp add: Take_def Let_def)
  qed
qed

interpretation bucket: invariant_system
  "\<lambda>b. n \<le> 2 ^ 53 \<and> b = newTokenBucket (of_nat n) t0" bucket_step "bucket_ok n" for n t0
proof unfold_locales
  show "bucket_ok n b" if "n \<le> 2 ^ 53 \<and> b = newTokenBucket (of_nat n) t0" for b
    using that by (simp add: bucket_ok_def newTokenBucket_def)
  show "bucket_ok n b'" if "bucket_ok n b" "bucket_step b b'" for b b'
    using that(2,1) by cases (auto intro: Take_ok)
qed

lemma no_refill: "now \<le> tb_lastRefill b \<Longrightarrow> refill now b = b"
  by (simp add: refill_def)

lemma refill_last: "now \<le> tb_lastRefill (refill now b)"
  by (simp add: refill_def Let_def)

lemma take_n_burst:
  "now \<le> tb_lastRefill b \<Longrightarrow> tb_tokens b \<le> of_nat m \<Longrightarrow> m \<le> 2 ^ 53
     \<Longrightarrow> length (filter (\<lambda>x. x) (take_n k now b)) \<le> m"
proof (induction k arbitrary: b m)
  case (Suc k)
  show ?case
  proof (cases "tb_tokens b \<ge> 1")
    case True
    let ?b' = "b\<lparr>tb_tokens := rnd64 (tb_tokens b - 1)\<rparr>"
    note one = rnd64_minus_one [OF Suc.prems(2) True Suc.prems(3)]
    have "length (filter (\<lambda>x. x) (take_n k now ?b')) \<le> m - 1"
      using one Suc.prems by (intro Suc.IH) simp_all
    with one(2) True Suc.prems(1) show ?thesis by (simp add: Take_def no_refill)
  next
    case False
    with Suc show ?thesis by (simp add: Take_def no_refill)
  qed
qed simp

lemma take_n_fresh:
  "now \<le> tb_lastRefill b \<Longrightarrow> tb_tokens b = of_nat m \<Longrightarrow> m \<le> 2 ^ 53
     \<Longrightarrow> take_n k now b = replicate (min k m) True @ replicate (k - m) False"
proof (induction k arbitrary: b m)
  case (Suc k)
  show ?case
  proof (cases m)
    case 0
    with Suc show ?thesis by (simp add: Take_def no_refill)
  next
    case m: (Suc m')
    have "rnd64 (of_nat m - 1) = of_nat m'"
      using m Suc.prems(3) by (simp add: rnd64_exact of_nat_float)
    then have "take_n k now (b\<lparr>tb_tokens := rnd64 (of_nat m - 1)\<rparr>)
                 = replicate (min k m') True @ replicate (k - m') False"
      using m Suc.prems by (intro Suc.IH) simp_all
    with m Suc.prems show ?thesis by (simp add: Take_def no_refill)
  qed
qed simp

text \<open>Bursts are bounded: a token bucket created with a capacity of \<open>n\<close> tokens, after any number
  of takes at any times (the clock may even run backwards), grants at most \<open>n\<close> of any number of
  takes at one instant; a fresh one grants exactly the first \<open>n\<close>.\<close>

theorem bucket_burst:
  assumes "reach (\<lambda>b. n \<le> 2 ^ 53 \<and> b = newTokenBucket (of_nat n) t0) bucket_step b"
  shows "length (filter (\<lambda>x. x) (take_n k now b)) \<le> n
         \<and> take_n k t0 (newTokenBucket (of_nat n) t0) = replicate (min k n) True @ replicate (k - n) False"
proof
  from assms have ok: "bucket_ok n b" by (rule bucket.reach_inv)
  then have n: "n \<le> 2 ^ 53" by (simp add: bucket_ok_def)
  show "length (filter (\<lambda>x. x) (take_n k now b)) \<le> n"
  proof (cases k)
    case (Suc j)
    have "Take now b = Take now (refill now b)"
      by (simp add: Take_def no_refill refill_last)
    then have "take_n k now b = take_n k now (refill now b)" by (simp add: Suc)
    with refill_ok [OF ok] n show ?thesis
      by (simp only:) (rule take_n_burst, simp_all add: refill_last bucket_ok_def)
  qed simp
  show "take_n k t0 (newTokenBucket (of_nat n) t0) = replicate (min k n) True @ replicate (k - n) False"
    using n by (intro take_n_fresh) (simp_all add: newTokenBucket_def)
qed

theorem bucket_burst_witness:
  "take_n 3 0 (newTokenBucket 2 0) = [True, True, False]"
proof -
  have "reach (\<lambda>b. (2 :: nat) \<le> 2 ^ 53 \<and> b = newTokenBucket (of_nat 2) 0) bucket_step (newTokenBucket (of_nat 2) 0)"
    by (rule reach_init) simp
  from bucket_burst [OF this, of 3 0] show ?thesis by (simp add: numeral_eq_Suc)
qed

section \<open>Probabilistic selection\<close>

lemma uint_of_int64: "0 \<le> k \<Longrightarrow> k < 2 ^ 64 \<Longrightarrow> uint (word_of_int k :: 64 word) = k"
  by (simp add: uint_word_of_int)

lemma u64_of_float_mono:
  assumes "0 \<le> x" and "x \<le> y" and "y \<le> 2 ^ 54"
  shows "u64_of_float oob x \<le> u64_of_float oob y"
proof -
  have f: "0 \<le> \<lfloor>x\<rfloor>" "\<lfloor>x\<rfloor> \<le> \<lfloor>y\<rfloor>" using assms(1,2) by (simp_all add: floor_mono)
  have "\<lfloor>y\<rfloor> \<le> 2 ^ 54" using floor_mono [OF assms(3)] by simp
  moreover have "(2 :: int) ^ 54 < 2 ^ 64" by simp
  ultimately have "uint (word_of_int \<lfloor>x\<rfloor> :: 64 word) = \<lfloor>x\<rfloor>" "uint (word_of_int \<lfloor>y\<rfloor> :: 64 word) = \<lfloor>y\<rfloor>"
    using f by (intro uint_of_int64; linarith)+
  with f(2) have "(word_of_int \<lfloor>x\<rfloor> :: 64 word) \<le> word_of_int \<lfloor>y\<rfloor>" by (simp add: word_le_def)
  moreover have "x < 2 ^ 64" "y < 2 ^ 64" using assms by simp_all
  ultimately show ?thesis using assms(1,2) by (simp add: u64_of_float_def)
qed

text \<open>Probabilistic selection depends on the trace and the floor only and is monotone: whoever is
  selected at a floor is selected at every higher one; nobody is selected at 0 and everybody at 1.\<close>

theorem probabilistic_monotone:
  assumes "0 \<le> f" and "f \<le> f'" and "f' \<le> 2 ^ 40"
  shows "(probabilistic xxh oob i f \<longrightarrow> probabilistic xxh oob i f')
         \<and> \<not> probabilistic xxh oob i 0 \<and> probabilistic xxh oob i 1"
proof (intro conjI impI)
  have b: "rnd64 (f' * 10000) \<le> 2 ^ 54"
  proof (rule fl.le)
    have "2 ^ 54 = of_int 1 * (2 :: rat) powi 54" by simp
    then show "is_float (2 ^ 54)" unfolding is_float_def by (metis abs_one one_le_numeral one_le_power)
    show "f' * 10000 \<le> 2 ^ 54" using assms(3) by simp
  qed
  have "u64_of_float oob (rnd64 (f * 10000)) \<le> u64_of_float oob (rnd64 (f' * 10000))"
    using assms(1,2) b by (intro u64_of_float_mono fl.nonneg fl.mono) simp_all
  then show "probabilistic xxh oob i f'" if "probabilistic xxh oob i f"
    using that by (simp add: probabilistic_def)
  show "\<not> probabilistic xxh oob i 0"
    by (simp add: probabilistic_def u64_of_float_def rnd64_def)
  have "rnd64 10000 = 10000" using is_float_of_int [of 10000] by (intro rnd64_exact) simp
  moreover have "hashTraceID xxh i mod 10000 < 10000" by (rule word_mod_less_divisor) simp
  ultimately show "probabilistic xxh oob i 1" by (simp add: probabilistic_def u64_of_float_def)
qed

theorem probabilistic_monotone_witness: "probabilistic (\<lambda>s. 5) (\<lambda>x. 0) no_trace 1"
  using probabilistic_monotone [of 0 1 "\<lambda>s. 5" "\<lambda>x. 0" no_trace] by simp

section \<open>The rare-path class over time\<close>

datatype policy_op =
    PoEvaluate gotime tenant_id model_trace key_baseline interest_match
  | PoAdjust tenant_id rat
  | PoAllow gotime

fun run_policy ::
  "(string \<Rightarrow> 64 word) \<Rightarrow> (rat \<Rightarrow> 64 word) \<Rightarrow> default_policy \<Rightarrow> policy_op \<Rightarrow> default_policy" where
  "run_policy xxh oob p (PoEvaluate now tid t b m) = snd (Evaluate xxh oob now p tid t b m)"
| "run_policy xxh oob p (PoAdjust tid f) = AdjustFloor p tid f"
| "run_policy xxh oob p (PoAllow now) = snd (Allow p now KeepRare)"

inductive policy_step ::
  "(policy_op \<Rightarrow> bool) \<Rightarrow> (string \<Rightarrow> 64 word) \<Rightarrow> (rat \<Rightarrow> 64 word) \<Rightarrow> default_policy \<Rightarrow> default_policy \<Rightarrow> bool"
  for ok xxh oob where
  policy_op: "ok op \<Longrightarrow> policy_step ok xxh oob p (run_policy xxh oob p op)"

text \<open>The rare-path tables after any operation.\<close>

lemma run_policy_rare:
  shows "dp_cfg (run_policy xxh oob p op) = dp_cfg p"
    and "(dp_rareSeen (run_policy xxh oob p op) = dp_rareSeen p
            \<and> dp_rareCardinality (run_policy xxh oob p op) = dp_rareCardinality p)
         \<or> (\<exists>now tid t b m. op = PoEvaluate now tid t b m
              \<and> isRareCandidate p tid (mt_PathSignature t) now
              \<and> dp_rareSeen (run_policy xxh oob p op) = (dp_rareSeen p)((tid, mt_PathSignature t) := Some now)
              \<and> dp_rareCardinality (run_policy xxh oob p op) = (dp_rareCardinality p)
                   (tid := insert (mt_PathSignature t) (dp_rareCardinality p tid)))"
proof -
  have "dp_cfg (run_policy xxh oob p op) = dp_cfg p
        \<and> ((dp_rareSeen (run_policy xxh oob p op) = dp_rareSeen p
            \<and> dp_rareCardinality (run_policy xxh oob p op) = dp_rareCardinality p)
         \<or> (\<exists>now tid t b m. op = PoEvaluate now tid t b m
              \<and> isRareCandidate p tid (mt_PathSignature t) now
              \<and> dp_rareSeen (run_policy xxh oob p op) = (dp_rareSeen p)((tid, mt_PathSignature t) := Some now)
              \<and> dp_rareCardinality (run_policy xxh oob p op) = (dp_rareCardinality p)
                   (tid := insert (mt_PathSignature t) (dp_rareCardinality p tid))))"
  proof (cases op)
    case (PoEvaluate now tid t b m)
    obtain d p' where e: "Evaluate xxh oob now p tid t b m = (d, p')" by force
    then obtain cls p1 keep reason p2 where c: "classify xxh oob now p tid t b m = (cls, p1)"
      and a: "apply_cap now p1 tid (if mt_Truncated t \<and> cls \<noteq> KeepDropped then KeepTruncated else cls) m
       (cls \<noteq> KeepDropped) = ((keep, reason), p2)"
      and p': "p' = recordKeep p2 tid now keep reason"
      by (rule Evaluate_split)
    have p2: "dp_cfg p2 = dp_cfg p1" "dp_rareSeen p2 = dp_rareSeen p1"
      "dp_rareCardinality p2 = dp_rareCardinality p1"
      using a apply_cap_fields by (metis snd_conv)+
    from classify_rare [OF c] show ?thesis
      using e p' p2 PoEvaluate by (cases "cls = KeepRare") auto
  qed (simp_all add: AdjustFloor_def Allow_def)
  then show "dp_cfg (run_policy xxh oob p op) = dp_cfg p"
    and "(dp_rareSeen (run_policy xxh oob p op) = dp_rareSeen p
            \<and> dp_rareCardinality (run_policy xxh oob p op) = dp_rareCardinality p)
         \<or> (\<exists>now tid t b m. op = PoEvaluate now tid t b m
              \<and> isRareCandidate p tid (mt_PathSignature t) now
              \<and> dp_rareSeen (run_policy xxh oob p op) = (dp_rareSeen p)((tid, mt_PathSignature t) := Some now)
              \<and> dp_rareCardinality (run_policy xxh oob p op) = (dp_rareCardinality p)
                   (tid := insert (mt_PathSignature t) (dp_rareCardinality p tid)))" by blast+
qed

definition rare_inv :: "policy_config \<Rightarrow> default_policy \<Rightarrow> bool" where
  "rare_inv c p =
     (dp_cfg p = c
      \<and> (\<forall>tid. finite (dp_rareCardinality p tid)
           \<and> int (card (dp_rareCardinality p tid)) \<le> max 0 (pc_MaxPathSignatureCardinality c)))"

lemma rare_inv_run: "rare_inv c p \<Longrightarrow> rare_inv c (run_policy xxh oob p op)"
proof -
  assume inv: "rare_inv c p"
  from run_policy_rare(2) [where xxh = xxh and oob = oob and p = p and op = op] show ?thesis
  proof (elim disjE exE conjE)
    assume "dp_rareCardinality (run_policy xxh oob p op) = dp_rareCardinality p"
    with inv show ?thesis by (simp add: rare_inv_def run_policy_rare(1))
  next
    fix now tid t b m
    assume cand: "isRareCandidate p tid (mt_PathSignature t) now"
      and upd: "dp_rareCardinality (run_policy xxh oob p op) = (dp_rareCardinality p)
           (tid := insert (mt_PathSignature t) (dp_rareCardinality p tid))"
    have fin: "finite (dp_rareCardinality p tid)"
      and le: "int (card (dp_rareCardinality p tid)) \<le> max 0 (pc_MaxPathSignatureCardinality c)"
      and cfg: "dp_cfg p = c"
      using inv by (auto simp: rare_inv_def)
    have "int (card (insert (mt_PathSignature t) (dp_rareCardinality p tid)))
            \<le> max 0 (pc_MaxPathSignatureCardinality c)"
      using cand fin le cfg by (auto simp: isRareCandidate_def card_insert_if split: if_splits)
    with inv fin show ?thesis by (simp add: rare_inv_def run_policy_rare(1) upd)
  qed
qed

interpretation rare: invariant_system
  "\<lambda>p. p = NewDefaultPolicy c" "policy_step ok xxh oob" "rare_inv c" for c ok xxh oob
proof unfold_locales
  show "rare_inv c p" if "p = NewDefaultPolicy c" for p
    using that by (simp add: rare_inv_def NewDefaultPolicy_def)
  show "rare_inv c p'" if "rare_inv c p" "policy_step ok xxh oob p p'" for p p'
    using that(2,1) by cases (auto intro: rare_inv_run)
qed

text \<open>The memory of the rare-path class is bounded: in every reachable state no tenant has more
  path signatures on record than the configured maximum.\<close>

theorem rare_signatures_bounded:
  assumes "reach (\<lambda>p. p = NewDefaultPolicy c) (policy_step ok xxh oob) p"
  shows "finite (dp_rareCardinality p tid)
         \<and> int (card (dp_rareCardinality p tid)) \<le> max 0 (pc_MaxPathSignatureCardinality c)"
  using rare.reach_inv [OF assms] by (simp add: rare_inv_def)

theorem rare_signatures_bounded_witness:
  "int (card (dp_rareCardinality (AdjustFloor (NewDefaultPolicy DefaultPolicyConfig) ''t1'' 1) ''t1'')) \<le> 200000"
proof -
  let ?P = "\<lambda>p. p = NewDefaultPolicy DefaultPolicyConfig"
  have "policy_step (\<lambda>op. True) (\<lambda>s. 0) (\<lambda>x. 0) (NewDefaultPolicy DefaultPolicyConfig)
          (AdjustFloor (NewDefaultPolicy DefaultPolicyConfig) ''t1'' 1)"
    using policy_op [of "\<lambda>op. True" "PoAdjust ''t1'' 1" "\<lambda>s. 0" "\<lambda>x. 0" "NewDefaultPolicy DefaultPolicyConfig"]
    by simp
  moreover have "reach ?P (policy_step (\<lambda>op. True) (\<lambda>s. 0) (\<lambda>x. 0)) (NewDefaultPolicy DefaultPolicyConfig)"
    by (rule reach_init) simp
  ultimately have "reach ?P (policy_step (\<lambda>op. True) (\<lambda>s. 0) (\<lambda>x. 0))
      (AdjustFloor (NewDefaultPolicy DefaultPolicyConfig) ''t1'' 1)"
    by (blast intro: reach_step)
  from rare_signatures_bounded [OF this, of "''t1''"] show ?thesis
    by (simp add: DefaultPolicyConfig_def)
qed

definition before_op :: "gotime \<Rightarrow> policy_op \<Rightarrow> bool" where
  "before_op limit op = (case op of PoEvaluate now tid t b m \<Rightarrow> now \<le> limit | _ \<Rightarrow> True)"

definition seen_inv :: "policy_config \<Rightarrow> tenant_id \<Rightarrow> 64 word \<Rightarrow> gotime \<Rightarrow> default_policy \<Rightarrow> bool" where
  "seen_inv c tid sig t0 p = (dp_cfg p = c \<and> dp_rareSeen p (tid, sig) = Some t0)"

lemma not_rare_again:
  assumes "seen_inv c tid sig t0 p" and "now \<le> t0 + pc_RarePathLookback c" and "0 \<le> pc_RarePathLookback c"
  shows "\<not> isRareCandidate p tid sig now"
proof -
  have "time_sub now t0 \<le> pc_RarePathLookback c"
    using assms(2,3) by (auto simp: time_sub_def max_duration_def)
  with assms(1) show ?thesis by (simp add: isRareCandidate_def seen_inv_def)
qed

interpretation seen: invariant_system
  "\<lambda>p. 0 \<le> pc_RarePathLookback c \<and> seen_inv c tid sig t0 p"
  "policy_step (before_op (t0 + pc_RarePathLookback c)) xxh oob"
  "\<lambda>p. 0 \<le> pc_RarePathLookback c \<and> seen_inv c tid sig t0 p" for c tid sig t0 xxh oob
proof unfold_locales
  fix p p'
  assume inv: "0 \<le> pc_RarePathLookback c \<and> seen_inv c tid sig t0 p"
    and "policy_step (before_op (t0 + pc_RarePathLookback c)) xxh oob p p'"
  from this(2) show "0 \<le> pc_RarePathLookback c \<and> seen_inv c tid sig t0 p'"
  proof cases
    case (policy_op op)
    have "dp_rareSeen p' (tid, sig) = Some t0"
      using run_policy_rare(2) [where xxh = xxh and oob = oob and p = p and op = op]
      unfolding policy_op(1)
    proof (elim disjE exE conjE)
      fix now u t b m
      assume op: "op = PoEvaluate now u t b m" and cand: "isRareCandidate p u (mt_PathSignature t) now"
        and upd: "dp_rareSeen (run_policy xxh oob p op) = (dp_rareSeen p)((u, mt_PathSignature t) \<mapsto> now)"
      have "now \<le> t0 + pc_RarePathLookback c" using policy_op(2) op by (simp add: before_op_def)
      with inv cand not_rare_again have "(u, mt_PathSignature t) \<noteq> (tid, sig)" by auto
      with upd inv show "dp_rareSeen (run_policy xxh oob p op) (tid, sig) = Some t0"
        by (auto simp: seen_inv_def)
    qed (use inv in \<open>simp add: seen_inv_def\<close>)
    with inv show ?thesis by (simp add: seen_inv_def policy_op(1) run_policy_rare(1))
  qed
qed simp

lemma Evaluate_rare:
  assumes "Evaluate xxh oob now p tid t b m = (d, p')" and "de_Reason d = KeepRare"
  shows "isRareCandidate p tid (mt_PathSignature t) now
         \<and> dp_rareSeen p' (tid, mt_PathSignature t) = Some now \<and> dp_cfg p' = dp_cfg p"
proof -
  from assms(1) obtain cls p1 keep reason p2 where c: "classify xxh oob now p tid t b m = (cls, p1)"
    and a: "apply_cap now p1 tid (if mt_Truncated t \<and> cls \<noteq> KeepDropped then KeepTruncated else cls) m
       (cls \<noteq> KeepDropped) = ((keep, reason), p2)"
    and d: "de_Reason d = reason" and p': "p' = recordKeep p2 tid now keep reason"
    by (rule Evaluate_split)
  from a have "cls = KeepRare"
    by (cases rule: apply_cap_cases) (use d assms(2) in \<open>auto split: if_splits\<close>)
  with classify_rare [OF c] have "isRareCandidate p tid (mt_PathSignature t) now"
    "dp_rareSeen p1 (tid, mt_PathSignature t) = Some now" "dp_cfg p1 = dp_cfg p" by simp_all
  moreover have "dp_cfg p2 = dp_cfg p1" "dp_rareSeen p2 = dp_rareSeen p1"
    using a apply_cap_fields by (metis snd_conv)+
  ultimately show ?thesis using p' by simp
qed

text \<open>A path is rare once: after a trace was kept for its rare path, no trace of the same tenant
  with the same path signature is kept for that reason until the lookback period has passed,
  whatever else was evaluated in between.\<close>

theorem rare_once_per_lookback:
  assumes first: "Evaluate xxh oob t0 p tid t b m = (d, p')" "de_Reason d = KeepRare"
    and look: "0 \<le> pc_RarePathLookback (dp_cfg p)"
    and between: "steps (policy_step (before_op (t0 + pc_RarePathLookback (dp_cfg p))) xxh oob) p' q"
    and later: "now \<le> t0 + pc_RarePathLookback (dp_cfg p)" "mt_PathSignature u = mt_PathSignature t"
  shows "de_Reason (fst (Evaluate xxh oob now q tid u b' m')) \<noteq> KeepRare"
proof
  assume again: "de_Reason (fst (Evaluate xxh oob now q tid u b' m')) = KeepRare"
  have "0 \<le> pc_RarePathLookback (dp_cfg p) \<and> seen_inv (dp_cfg p) tid (mt_PathSignature t) t0 p'"
    using Evaluate_rare [OF first] look by (simp add: seen_inv_def)
  with between have "seen_inv (dp_cfg p) tid (mt_PathSignature t) t0 q"
    by (blast dest: seen.steps_inv)
  then have "\<not> isRareCandidate q tid (mt_PathSignature t) now"
    using later(1) look by (rule not_rare_again)
  moreover obtain d' q' where e: "Evaluate xxh oob now q tid u b' m' = (d', q')" by force
  then have "isRareCandidate q tid (mt_PathSignature u) now"
    using Evaluate_rare [OF e] again by simp
  ultimately show False using later(2) by simp
qed

lemma demo_rare:
  "de_Reason (fst (Evaluate (\<lambda>s. 0) (\<lambda>x. 0) 5 (NewDefaultPolicy DefaultPolicyConfig) ''t2'' demo_trace cold no_match))
     = KeepRare"
  by (simp add: Evaluate_def classify_def demo_trace_def traceHasError_def slow_fires_def cold_def
      isRareCandidate_def NewDefaultPolicy_def DefaultPolicyConfig_def no_match_def tryTakeRare_def Take_def
      refill_def newTokenBucket_def Let_def apply_cap_def shed_eligible_def allowForTenant_def
      pruneLocked_def)

theorem rare_once_per_lookback_witness:
  "de_Reason (fst (Evaluate (\<lambda>s. 0) (\<lambda>x. 0) 6
      (snd (Evaluate (\<lambda>s. 0) (\<lambda>x. 0) 5 (NewDefaultPolicy DefaultPolicyConfig) ''t2'' demo_trace cold no_match))
      ''t2'' demo_trace cold no_match)) \<noteq> KeepRare"
proof -
  obtain d p' where e: "Evaluate (\<lambda>s. 0) (\<lambda>x. 0) 5 (NewDefaultPolicy DefaultPolicyConfig) ''t2''
      demo_trace cold no_match = (d, p')" by force
  with demo_rare have r: "de_Reason d = KeepRare" by simp
  have c: "dp_cfg (NewDefaultPolicy DefaultPolicyConfig) = DefaultPolicyConfig"
    by (simp add: NewDefaultPolicy_def)
  have l: "0 \<le> pc_RarePathLookback DefaultPolicyConfig" "6 \<le> 5 + pc_RarePathLookback DefaultPolicyConfig"
    by (simp_all add: DefaultPolicyConfig_def minute_def second_def)
  from rare_once_per_lookback [OF e r _ steps_refl, unfolded c, OF l(1) l(2)] e show ?thesis by simp
qed

end
