(* ===== verification/AssemblyInv.thy ===== *)
theory AssemblyInv
  imports Routing InterestProps PolicyProps
begin

text \<open>
  The assembler as a state machine, the invariant of its buffers (tenant and trace identity, no
  duplicate span, a signature that exists), and what finalizing emits.
\<close>

section \<open>Finalizing leaves the buffers alone\<close>

lemma finalize_fields [simp]:
  "m_shards (finalize e i j f tr m) = m_shards m"
  "m_ring (finalize e i j f tr m) = m_ring m"
  "m_cfg (finalize e i j f tr m) = m_cfg m"
  "m_red (finalize e i j f tr m) = m_red m"
  "m_redOut (finalize e i j f tr m) = m_redOut m"
  "m_redSamplesDropped (finalize e i j f tr m) = m_redSamplesDropped m"
  "m_duplicateSpansTotal (finalize e i j f tr m) = m_duplicateSpansTotal m"
  "m_tracesLostTotal (finalize e i j f tr m) = m_tracesLostTotal m"
  "m_wal (finalize e i j f tr m)
     = map_option (\<lambda>w. wal_Truncate w j (tr_Tenant tr, tr_TraceID tr)) (m_wal m)"
  by (simp_all add: finalize_def Let_def split: prod.split)

lemma finalize_all_fields [simp]:
  "m_shards (snd (finalize_all e j f trs (i, m))) = m_shards m"
  "m_ring (snd (finalize_all e j f trs (i, m))) = m_ring m"
  "m_cfg (snd (finalize_all e j f trs (i, m))) = m_cfg m"
  "m_red (snd (finalize_all e j f trs (i, m))) = m_red m"
  by (induction trs arbitrary: i m) simp_all

lemma finalize_all_wal:
  "m_wal (snd (finalize_all e j f trs (i, m)))
     = map_option (\<lambda>w. fold (\<lambda>tr w. wal_Truncate w j (tr_Tenant tr, tr_TraceID tr)) trs w) (m_wal m)"
  by (induction trs arbitrary: i m) (simp_all add: option.map_comp comp_def option.map_id)

definition decision_of :: "asm_trace \<Rightarrow> decision \<Rightarrow> bool" where
  "decision_of tr d = (de_Tenant d = tr_Tenant tr \<and> de_TraceID d = tr_TraceID tr)"

lemma Evaluate_ids:
  "de_Tenant (fst (Evaluate xxh oob now p tid t b m)) = tid"
  "de_TraceID (fst (Evaluate xxh oob now p tid t b m)) = mt_TraceID t"
  by (simp_all add: Evaluate_def Let_def split: prod.split)

lemma toModelTrace_ids [simp]:
  "mt_TraceID (toModelTrace xxh tr) = tr_TraceID tr"
  "mt_Tenant (toModelTrace xxh tr) = tr_Tenant tr"
  "mt_Spans (toModelTrace xxh tr) = tr_Spans tr"
  by (simp_all add: toModelTrace_def Let_def split: prod.split)

text \<open>One decision for the trace, the trace itself exactly when the decision keeps it.\<close>

lemma finalize_emits:
  "\<exists>d. m_decisions (finalize e i j f tr m) = m_decisions m @ [d] \<and> decision_of tr d
      \<and> m_traces (finalize e i j f tr m)
          = m_traces m @ (if de_Keep d then [toModelTrace (e_xxh e) tr] else [])
      \<and> (f \<longrightarrow> \<not> de_Keep d \<and> de_Reason d = KeepShed)"
proof (cases f)
  case True
  then show ?thesis
    by (simp add: finalize_def Let_def shed_decision_def decision_of_def)
next
  case False
  let ?mt = "toModelTrace (e_xxh e) tr"
  let ?kb = "baselineFor m (tr_Tenant tr) (mt_RootService ?mt) (mt_RootOperation ?mt)"
  obtain im ps where ma: "Match (m_preds m) ?mt = (im, ps)" by force
  obtain d pol where ev: "Evaluate (e_xxh e) (e_oob e) (e_clk e i) (m_policy m) (tr_Tenant tr) ?mt ?kb im = (d, pol)"
    by force
  have "decision_of tr d"
    using Evaluate_ids [of "e_xxh e" "e_oob e" "e_clk e i" "m_policy m" "tr_Tenant tr" ?mt ?kb im] ev
    by (simp add: decision_of_def)
  with False ma ev show ?thesis by (simp add: finalize_def Let_def)
qed

lemma finalize_all_emits:
  "\<exists>ds. m_decisions (snd (finalize_all e j f trs (i, m))) = m_decisions m @ ds
      \<and> list_all2 decision_of trs ds
      \<and> m_traces (snd (finalize_all e j f trs (i, m)))
          = m_traces m @ map (toModelTrace (e_xxh e)) (map fst (filter (\<lambda>(tr, d). de_Keep d) (zip trs ds)))
      \<and> (f \<longrightarrow> (\<forall>d \<in> set ds. \<not> de_Keep d \<and> de_Reason d = KeepShed))"
proof (induction trs arbitrary: i m)
  case Nil
  then show ?case by simp
next
  case (Cons tr trs)
  obtain d where d: "m_decisions (finalize e i j f tr m) = m_decisions m @ [d]" "decision_of tr d"
    "m_traces (finalize e i j f tr m) = m_traces m @ (if de_Keep d then [toModelTrace (e_xxh e) tr] else [])"
    "f \<longrightarrow> \<not> de_Keep d \<and> de_Reason d = KeepShed"
    using finalize_emits by blast
  obtain ds where ds: "m_decisions (snd (finalize_all e j f trs (i + 1, finalize e i j f tr m)))
      = m_decisions (finalize e i j f tr m) @ ds" "list_all2 decision_of trs ds"
    "m_traces (snd (finalize_all e j f trs (i + 1, finalize e i j f tr m)))
      = m_traces (finalize e i j f tr m)
        @ map (toModelTrace (e_xxh e)) (map fst (filter (\<lambda>(tr, d). de_Keep d) (zip trs ds)))"
    "f \<longrightarrow> (\<forall>d \<in> set ds. \<not> de_Keep d \<and> de_Reason d = KeepShed)"
    using Cons.IH by blast
  show ?case by (rule exI [of _ "d # ds"]) (use d ds in auto)
qed

section \<open>The invariant\<close>

definition trace_ok :: "trace_key \<Rightarrow> asm_trace \<Rightarrow> bool" where
  "trace_ok k tr =
     (k = (tr_Tenant tr, tr_TraceID tr) \<and> tr_Spans tr \<noteq> []
      \<and> (\<forall>s \<in> set (tr_Spans tr). sp_Tenant s = tr_Tenant tr \<and> sp_TraceID s = tr_TraceID tr)
      \<and> distinct (map sp_SpanID (tr_Spans tr)) \<and> tr_seenSpanIDs tr = sp_SpanID ` set (tr_Spans tr))"

definition shard_ok :: "shard_buf \<Rightarrow> bool" where
  "shard_ok sb = (distinct (keys sb) \<and> (\<forall>(k, tr) \<in> set sb. trace_ok k tr))"

definition entry_ok :: "trace_key \<times> span list \<Rightarrow> bool" where
  "entry_ok en = (snd en \<noteq> [] \<and> (\<forall>s \<in> set (snd en). sp_Tenant s = fst (fst en) \<and> sp_TraceID s = snd (fst en)))"

definition wal_ok :: "mem_wal \<Rightarrow> bool" where
  "wal_ok w = (\<forall>i. distinct (keys (w i)) \<and> (\<forall>en \<in> set (w i). entry_ok en))"

definition asm_inv :: "manager \<Rightarrow> bool" where
  "asm_inv m =
     (m_shards m \<noteq> [] \<and> (\<forall>sb \<in> set (m_shards m). shard_ok sb)
      \<and> (\<forall>w. m_wal m = Some w \<longrightarrow> wal_ok w) \<and> acc_ok (m_red m))"

lemma shard_ok_map_of: "shard_ok sb \<Longrightarrow> map_of sb k = Some tr \<Longrightarrow> trace_ok k tr"
  by (auto simp: shard_ok_def dest!: map_of_SomeD)

lemma shard_ok_update: "shard_ok sb \<Longrightarrow> trace_ok k tr \<Longrightarrow> shard_ok (AList.update k tr sb)"
  by (auto simp: shard_ok_def dest!: set_update_subset)

lemma shard_ok_filter: "shard_ok sb \<Longrightarrow> shard_ok (filter P sb)"
  by (auto simp: shard_ok_def distinct_map_filter)

lemma asm_inv_nth: "asm_inv m \<Longrightarrow> j < length (m_shards m) \<Longrightarrow> shard_ok (m_shards m ! j)"
  by (auto simp: asm_inv_def)

lemma shards_update: "\<forall>sb \<in> set xs. shard_ok sb \<Longrightarrow> shard_ok b \<Longrightarrow> \<forall>sb \<in> set (xs[j := b]). shard_ok sb"
  using set_update_subset_insert by fastforce

lemma trace_ok_add_span:
  assumes "trace_ok k tr \<or> (tr_Spans tr = [] \<and> tr_seenSpanIDs tr = {} \<and> k = (tr_Tenant tr, tr_TraceID tr))"
    and "sp_SpanID s \<notin> tr_seenSpanIDs tr" and "sp_Tenant s = fst k" and "sp_TraceID s = snd k"
  shows "trace_ok k (add_span now s tr)"
  using assms by (auto simp: trace_ok_def add_span_def)

lemma wal_ok_Append:
  assumes "wal_ok w" and "sp_Tenant s = fst k" and "sp_TraceID s = snd k"
  shows "wal_ok (wal_Append w i k s)"
proof -
  let ?ss = "case map_of (w i) k of Some ss \<Rightarrow> ss | None \<Rightarrow> []"
  have "entry_ok (k, ?ss @ [s])"
    using assms by (auto simp: wal_ok_def entry_ok_def split: option.split dest!: map_of_SomeD)
  with assms(1) show ?thesis
    by (auto simp: wal_ok_def wal_Append_def dest!: set_update_subset)
qed

lemma set_delete_subset: "set (AList.delete k xs) \<subseteq> set xs"
  by (induction xs) auto

lemma wal_ok_Truncate: "wal_ok w \<Longrightarrow> wal_ok (wal_Truncate w i k)"
  using set_delete_subset by (fastforce simp: wal_ok_def wal_Truncate_def)

lemma wal_ok_truncates: "wal_ok w \<Longrightarrow> wal_ok (fold (\<lambda>tr w. wal_Truncate w j (tr_Tenant tr, tr_TraceID tr)) trs w)"
  by (induction trs arbitrary: w) (simp_all add: wal_ok_Truncate)

lemma shard_slot_less: "m_shards m \<noteq> [] \<Longrightarrow> nat (shard_slot m i) < length (m_shards m)"
proof -
  assume "m_shards m \<noteq> []"
  then have "\<bar>i\<bar> mod int (length (m_shards m)) < int (length (m_shards m))" by simp
  moreover from \<open>m_shards m \<noteq> []\<close> have "0 \<le> \<bar>i\<bar> mod int (length (m_shards m))" by simp
  ultimately show ?thesis
    by (auto simp: shard_slot_def signed_modulo_int_def sgn_if)
qed

text \<open>A span is either dropped as a duplicate of its open trace or buffered, counted and journalled.\<close>

lemma consume_span_cases:
  assumes c: "consume_span e now tid s0 m = Some m'" and ne: "m_shards m \<noteq> []"
  obtains s i k j tr where
      "s = s0\<lparr>sp_Tenant := tid\<rparr>" "i = ShardFor (e_xxh e) (m_ring m) (sp_TraceID s)" "k = (tid, sp_TraceID s)"
      "j = nat (shard_slot m i)" "j < length (m_shards m)" "0 \<le> shard_slot m i"
      "tr = buffered m now tid s j" "sp_SpanID s \<in> tr_seenSpanIDs tr"
      "m' = put_trace j k tr m\<lparr>m_duplicateSpansTotal := m_duplicateSpansTotal m + 1\<rparr>"
    | s i k j tr where
      "s = s0\<lparr>sp_Tenant := tid\<rparr>" "i = ShardFor (e_xxh e) (m_ring m) (sp_TraceID s)" "k = (tid, sp_TraceID s)"
      "j = nat (shard_slot m i)" "j < length (m_shards m)" "0 \<le> shard_slot m i"
      "tr = buffered m now tid s j" "sp_SpanID s \<notin> tr_seenSpanIDs tr"
      "m' = (put_trace j k (add_span now s tr) m)
              \<lparr>m_red := Accumulate now tid s (m_red m), m_wal := map_option (\<lambda>w. wal_Append w i k s) (m_wal m)\<rparr>"
proof -
  define s where "s = s0\<lparr>sp_Tenant := tid\<rparr>"
  define i where "i = ShardFor (e_xxh e) (m_ring m) (sp_TraceID s)"
  define k where "k = (tid, sp_TraceID s)"
  define j where "j = nat (shard_slot m i)"
  define tr where "tr = buffered m now tid s j"
  have j: "j < length (m_shards m)" using shard_slot_less [OF ne] by (simp add: j_def)
  note c' = c [unfolded consume_span_def Let_def, folded s_def, folded i_def k_def, folded j_def, folded tr_def]
  have slot: "0 \<le> shard_slot m i" using c' by (simp split: if_splits)
  show thesis
  proof (cases "sp_SpanID s \<in> tr_seenSpanIDs tr")
    case True
    with c' slot have "m' = put_trace j k tr m\<lparr>m_duplicateSpansTotal := m_duplicateSpansTotal m + 1\<rparr>" by simp
    with that(1) [OF s_def i_def k_def j_def j slot tr_def True] show thesis by blast
  next
    case False
    with c' slot have "m' = (put_trace j k (add_span now s tr) m)
        \<lparr>m_red := Accumulate now tid s (m_red m), m_wal := map_option (\<lambda>w. wal_Append w i k s) (m_wal m)\<rparr>"
      by (simp add: put_trace_def)
    with that(2) [OF s_def i_def k_def j_def j slot tr_def False] show thesis by blast
  qed
qed

lemma buffered_ok:
  assumes "shard_ok (m_shards m ! j)" and "k = (tid, sp_TraceID s)"
  shows "trace_ok k (buffered m now tid s j)
    \<or> (tr_Spans (buffered m now tid s j) = [] \<and> tr_seenSpanIDs (buffered m now tid s j) = {}
       \<and> k = (tr_Tenant (buffered m now tid s j), tr_TraceID (buffered m now tid s j)))"
  using shard_ok_map_of [OF assms(1), of k] assms(2)
  by (auto simp: buffered_def open_trace_def split: option.split)

lemma shards_ok_put:
  assumes "asm_inv m" and "j < length (m_shards m)" and "trace_ok k tr"
  shows "\<forall>b \<in> set ((m_shards m)[j := AList.update k tr (m_shards m ! j)]). shard_ok b"
  using assms by (intro shards_update shard_ok_update asm_inv_nth) (simp_all add: asm_inv_def)

lemma asm_inv_consume_span:
  assumes inv: "asm_inv m" and c: "consume_span e now tid s0 m = Some m'"
  shows "asm_inv m'"
proof -
  have ne: "m_shards m \<noteq> []" using inv by (simp add: asm_inv_def)
  from c ne show ?thesis
  proof (cases rule: consume_span_cases)
    case (1 s i k j tr)
    have "trace_ok k tr"
      using buffered_ok [OF asm_inv_nth [OF inv \<open>j < _\<close>] 1(3), of now] 1(8) by (auto simp: 1(7))
    from shards_ok_put [OF inv \<open>j < _\<close> this] inv show ?thesis by (simp add: 1(9) asm_inv_def put_trace_def)
  next
    case (2 s i k j tr)
    have "trace_ok k (add_span now s tr)"
      using buffered_ok [OF asm_inv_nth [OF inv \<open>j < _\<close>] 2(3), of now] 2(1,3,8)
      by (intro trace_ok_add_span) (simp_all add: 2(7))
    note put = shards_ok_put [OF inv \<open>j < _\<close> this]
    have "wal_ok (wal_Append w i k s)" if "m_wal m = Some w" for w
      using inv that 2(1,3) by (intro wal_ok_Append) (simp_all add: asm_inv_def)
    with inv put show ?thesis
      by (auto simp: asm_inv_def put_trace_def 2(9) intro: acc_ok_Accumulate)
  qed
qed

lemma asm_inv_consume_spans:
  "asm_inv m \<Longrightarrow> consume_spans e now tid ss m = Some m' \<Longrightarrow> asm_inv m'"
  by (induction ss arbitrary: m) (auto split: option.splits intro: asm_inv_consume_span)

lemma sweep_shard_fields:
  assumes "j < length (m_shards (snd im))"
  shows "m_shards (snd (sweep_shard e f P j im))
           = (m_shards (snd im))[j := filter (\<lambda>(k, tr). \<not> P tr) (m_shards (snd im) ! j)]"
    and "m_red (snd (sweep_shard e f P j im)) = m_red (snd im)"
    and "m_ring (snd (sweep_shard e f P j im)) = m_ring (snd im)"
    and "m_wal (snd (sweep_shard e f P j im))
           = map_option (\<lambda>w. fold (\<lambda>tr w. wal_Truncate w (int j) (tr_Tenant tr, tr_TraceID tr))
               (map snd (filter (\<lambda>(k, tr). P tr) (e_range e (m_shards (snd im) ! j)))) w) (m_wal (snd im))"
  by (cases im, simp add: sweep_shard_def Let_def finalize_all_wal)+

lemma asm_inv_sweep:
  assumes "asm_inv (snd im)" and "j < length (m_shards (snd im))"
  shows "asm_inv (snd (sweep_shard e f P j im))"
proof -
  have "shard_ok (filter (\<lambda>(k, tr). \<not> P tr) (m_shards (snd im) ! j))"
    using asm_inv_nth [OF assms] by (rule shard_ok_filter)
  then show ?thesis
    using assms(1) unfolding asm_inv_def sweep_shard_fields [OF assms(2)]
    by (auto intro: wal_ok_truncates dest!: set_update_subset_insert [THEN subsetD])
qed

lemma asm_inv_sweeps:
  "asm_inv (snd im) \<Longrightarrow> \<forall>j \<in> set js. j < length (m_shards (snd im))
     \<Longrightarrow> asm_inv (snd (fold (sweep_shard e f P) js im))"
proof (induction js arbitrary: im)
  case (Cons j js)
  then have "asm_inv (snd (sweep_shard e f P j im))" by (intro asm_inv_sweep) simp_all
  moreover have "length (m_shards (snd (sweep_shard e f P j im))) = length (m_shards (snd im))"
    using Cons.prems(2) by (simp add: sweep_shard_fields)
  ultimately show ?case using Cons by simp
qed simp

end
