(* ===== verification/AssemblyReach.thy ===== *)
theory AssemblyReach
  imports AssemblyInv
begin

text \<open>
  The operations of the assembler as a transition system, the invariant in every reachable state,
  and the correspondence between the two output channels.
\<close>

section \<open>Replay keeps the invariant\<close>

lemma replay_spans_fields [simp]:
  "tr_Tenant (replay_spans ss tr) = tr_Tenant tr"
  "tr_TraceID (replay_spans ss tr) = tr_TraceID tr"
  by (induction ss arbitrary: tr) simp_all

text \<open>The spans of a buffer agree with its set of seen identifiers; true of an empty one too.\<close>

definition spans_ok :: "trace_key \<Rightarrow> asm_trace \<Rightarrow> bool" where
  "spans_ok k tr =
     (k = (tr_Tenant tr, tr_TraceID tr)
      \<and> (\<forall>s \<in> set (tr_Spans tr). sp_Tenant s = tr_Tenant tr \<and> sp_TraceID s = tr_TraceID tr)
      \<and> distinct (map sp_SpanID (tr_Spans tr)) \<and> tr_seenSpanIDs tr = sp_SpanID ` set (tr_Spans tr))"

lemma trace_ok_spans_ok: "trace_ok k tr \<longleftrightarrow> spans_ok k tr \<and> tr_Spans tr \<noteq> []"
  by (auto simp: trace_ok_def spans_ok_def)

lemma spans_ok_replay_spans:
  "spans_ok k tr \<Longrightarrow> \<forall>s \<in> set ss. sp_Tenant s = fst k \<and> sp_TraceID s = snd k \<Longrightarrow> spans_ok k (replay_spans ss tr)"
proof (induction ss arbitrary: tr)
  case (Cons s ss)
  show ?case
  proof (cases "sp_SpanID s \<in> tr_seenSpanIDs tr")
    case False
    with Cons.prems have "spans_ok k (tr\<lparr>tr_seenSpanIDs := insert (sp_SpanID s) (tr_seenSpanIDs tr),
        tr_Spans := tr_Spans tr @ [s]\<rparr>)"
      by (auto simp: spans_ok_def)
    with False Cons show ?thesis by simp
  qed (use Cons in simp)
qed simp

lemma replay_spans_nonempty: "tr_Spans tr \<noteq> [] \<Longrightarrow> tr_Spans (replay_spans ss tr) \<noteq> []"
  by (induction ss arbitrary: tr) simp_all

lemma replay_spans_fresh:
  "tr_seenSpanIDs tr = {} \<Longrightarrow> ss \<noteq> [] \<Longrightarrow> tr_Spans (replay_spans ss tr) \<noteq> []"
  by (cases ss) (simp_all add: replay_spans_nonempty)

lemma shard_ok_replay_trace:
  assumes "shard_ok (snd st)" and "entry_ok en"
  shows "shard_ok (snd (replay_trace e en st))"
proof -
  obtain k ss where en: "en = (k, ss)" by (cases en)
  obtain i sb where st: "st = (i, sb)" by (cases st)
  define p where "p = (case map_of sb k of Some tr \<Rightarrow> (i, tr) | None \<Rightarrow> (i + 1, replayed_trace (e_clk e i) k))"
  obtain i1 tr where p: "p = (i1, tr)" by force
  have new: "spans_ok k (replayed_trace now k)" for now by (simp add: spans_ok_def replayed_trace_def)
  have tr: "spans_ok k tr" "tr_Spans tr \<noteq> [] \<or> tr_seenSpanIDs tr = {}"
    using p assms(1) new shard_ok_map_of [of sb k]
    by (auto simp: p_def st trace_ok_spans_ok replayed_trace_def split: option.splits)
  have "spans_ok k (replay_spans ss tr)"
    using tr(1) assms(2) by (intro spans_ok_replay_spans) (auto simp: entry_ok_def en)
  moreover have "tr_Spans (replay_spans ss tr) \<noteq> []"
    using tr(2) assms(2) replay_spans_nonempty [of tr ss] replay_spans_fresh [of tr ss]
    by (auto simp: entry_ok_def en)
  ultimately have "trace_ok k (replay_spans ss tr\<lparr>tr_LastSeen := t\<rparr>)" for t
    by (simp add: trace_ok_spans_ok spans_ok_def)
  with assms(1) show ?thesis
    by (simp add: replay_trace_def en st flip: p_def) (simp add: p shard_ok_update)
qed

lemma shard_ok_replay_traces:
  "shard_ok (snd st) \<Longrightarrow> \<forall>en \<in> set ens. entry_ok en \<Longrightarrow> shard_ok (snd (fold (replay_trace e) ens st))"
  by (induction ens arbitrary: st) (simp_all add: shard_ok_replay_trace)

lemma asm_inv_shards:
  "asm_inv m \<Longrightarrow> shard_ok sb \<Longrightarrow> asm_inv (m\<lparr>m_shards := (m_shards m)[j := sb]\<rparr>)"
  using shards_update by (auto simp: asm_inv_def)

lemma replay_shard_eq:
  "snd (replay_shard e w j ((i, rep), m))
     = (if w (int j) = [] then m
        else m\<lparr>m_shards := (m_shards m)[j := snd (fold (replay_trace e) (w (int j)) (i, m_shards m ! j))]\<rparr>)"
  by (simp add: replay_shard_def wal_Replay_def Let_def split: prod.split)

lemma asm_inv_replay_shard:
  assumes "asm_inv (snd st)" and "wal_ok w" and "j < length (m_shards (snd st))"
  shows "asm_inv (snd (replay_shard e w j st))"
proof -
  obtain i rep m where st: "st = ((i, rep), m)" by (metis prod.exhaust)
  have "shard_ok (snd (fold (replay_trace e) (w (int j)) (i, m_shards m ! j)))"
    using assms by (intro shard_ok_replay_traces) (simp_all add: st asm_inv_nth wal_ok_def)
  with assms(1) show ?thesis by (simp add: st replay_shard_eq asm_inv_shards)
qed

lemma replay_shard_length [simp]:
  "length (m_shards (snd (replay_shard e w j st))) = length (m_shards (snd st))"
  by (cases st, cases "fst st") (simp add: replay_shard_eq)

lemma asm_inv_replay_shards:
  "asm_inv (snd st) \<Longrightarrow> wal_ok w \<Longrightarrow> \<forall>j \<in> set js. j < length (m_shards (snd st))
     \<Longrightarrow> asm_inv (snd (fold (replay_shard e w) js st))"
  by (induction js arbitrary: st) (simp_all add: asm_inv_replay_shard)

lemma ReplayWAL_shards:
  "ReplayWAL e m = Some (rep, m') \<Longrightarrow> \<exists>w rep0. m_wal m = Some w
     \<and> m' = snd (fold (replay_shard e w) [0..<length (m_shards m)] ((1, rep0), m))"
  by (auto simp: ReplayWAL_def Let_def split: option.splits prod.splits) (metis snd_conv)

section \<open>The transition system\<close>

datatype asm_op =
    AConsume tenant_id "span list" | ATick | AFlush | AReplay | ADrain | ARecv | ASetRing ring
  | ABaseline tenant_id baseline_snapshot | ASetPred tenant_id interest_predicate
  | ARemovePred tenant_id string | AAdjust tenant_id rat

fun run_asm :: "env \<Rightarrow> asm_op \<Rightarrow> manager \<Rightarrow> manager option" where
  "run_asm e (AConsume tid ss) m = Consume e tid ss m"
| "run_asm e ATick m = Some (Tick e m)"
| "run_asm e AFlush m = Some (FlushAll e m)"
| "run_asm e AReplay m = map_option snd (ReplayWAL e m)"
| "run_asm e ADrain m = Some (DrainRED m)"
| "run_asm e ARecv m = Some (recvRED m)"
| "run_asm e (ASetRing r) m = Some (SetRing m r)"
| "run_asm e (ABaseline tid b) m = Some (SetBaselineSnapshot m tid b)"
| "run_asm e (ASetPred tid p) m = Some (snd (SetInterestPredicate m tid p))"
| "run_asm e (ARemovePred tid i) m = Some (RemoveInterestPredicate m tid i)"
| "run_asm e (AAdjust tid fl) m = Some (AdjustFloor_impl m tid fl)"

text \<open>A range loop visits every entry of the map exactly once.\<close>

definition fair_env :: "env \<Rightarrow> bool" where
  "fair_env e = (\<forall>sb. mset (e_range e sb) = mset sb)"

inductive asm_step :: "manager \<Rightarrow> manager \<Rightarrow> bool" where
  asm_step: "fair_env e \<Longrightarrow> run_asm e op m = Some m' \<Longrightarrow> asm_step m m'"

inductive_cases asm_stepE: "asm_step m m'"

text \<open>A manager starts without a journal or with one written before a restart.\<close>

definition asm_init :: "manager \<Rightarrow> bool" where
  "asm_init m = (\<exists>acfg pcfg wal n. m = NewImpl acfg pcfg wal n \<and> (\<forall>w. wal = Some w \<longrightarrow> wal_ok w))"

lemma send_red_fields [simp]:
  "m_shards (send_red s m) = m_shards m"
  "m_wal (send_red s m) = m_wal m"
  "m_red (send_red s m) = m_red m"
  "m_ring (send_red s m) = m_ring m"
  "m_decisions (send_red s m) = m_decisions m"
  "m_traces (send_red s m) = m_traces m"
  by (simp_all add: send_red_def)

lemma DrainRED_fields [simp]:
  "m_shards (DrainRED m) = m_shards m"
  "m_wal (DrainRED m) = m_wal m"
  "m_red (DrainRED m) = []"
  "m_ring (DrainRED m) = m_ring m"
  "m_decisions (DrainRED m) = m_decisions m"
  "m_traces (DrainRED m) = m_traces m"
proof -
  have f: "m_shards (fold send_red ss m) = m_shards m \<and> m_wal (fold send_red ss m) = m_wal m
    \<and> m_red (fold send_red ss m) = m_red m \<and> m_ring (fold send_red ss m) = m_ring m
    \<and> m_decisions (fold send_red ss m) = m_decisions m \<and> m_traces (fold send_red ss m) = m_traces m" for ss m
    by (induction ss arbitrary: m) simp_all
  show "m_shards (DrainRED m) = m_shards m" "m_wal (DrainRED m) = m_wal m" "m_red (DrainRED m) = []"
    "m_ring (DrainRED m) = m_ring m" "m_decisions (DrainRED m) = m_decisions m" "m_traces (DrainRED m) = m_traces m"
    by (simp_all add: DrainRED_def Flush_def f)
qed

text \<open>The operations that touch neither the buffers nor the journal.\<close>

lemma asm_inv_same:
  "asm_inv m \<Longrightarrow> m_shards m' = m_shards m \<Longrightarrow> m_wal m' = m_wal m \<Longrightarrow> acc_ok (m_red m') \<Longrightarrow> asm_inv m'"
  by (simp add: asm_inv_def)

lemma asm_inv_init: "asm_init m \<Longrightarrow> asm_inv m"
  by (auto simp: asm_init_def asm_inv_def NewImpl_def NewManager_def Let_def newREDAccumulator_def acc_ok_def
      shard_ok_def split: if_splits)

lemma asm_inv_run:
  assumes inv: "asm_inv m" and r: "run_asm e op m = Some m'"
  shows "asm_inv m'"
proof (cases op)
  case (AConsume tid ss)
  with inv r show ?thesis by (auto simp: Consume_def intro: asm_inv_consume_spans)
next
  case ATick
  with inv r show ?thesis by (auto simp: Tick_def intro: asm_inv_sweeps)
next
  case AFlush
  with inv r show ?thesis by (auto simp: FlushAll_def intro: asm_inv_sweeps)
next
  case AReplay
  with r obtain rep where "ReplayWAL e m = Some (rep, m')" by auto
  from ReplayWAL_shards [OF this] inv show ?thesis
    by (auto simp: asm_inv_def [of m] intro!: asm_inv_replay_shards)
next
  case ADrain
  have "acc_ok []" by (simp add: acc_ok_def)
  with ADrain inv r show ?thesis by (auto intro: asm_inv_same)
qed (use inv r in \<open>auto simp: asm_inv_def recvRED_def SetRing_def SetBaselineSnapshot_def
      SetInterestPredicate_def RemoveInterestPredicate_def AdjustFloor_impl_def split: prod.splits\<close>)

interpretation asm: invariant_system asm_init asm_step asm_inv
  by unfold_locales (auto simp: asm_inv_init elim!: asm_stepE intro: asm_inv_run)

end
