(* ===== verification/AssemblyProps.thy ===== *)
theory AssemblyProps
  imports AssemblyReach
begin

text \<open>
  What a sweep finalizes (\<open>Tick\<close>, \<open>FlushAll\<close>), the agreement of the two output channels, the RED
  counts, the bounded RED channel, and the recovery of the open traces from the journal.
\<close>

section \<open>Sweeps\<close>

abbreviation key_of :: "asm_trace \<Rightarrow> trace_key" where
  "key_of tr \<equiv> (tr_Tenant tr, tr_TraceID tr)"

abbreviation decided :: "decision \<Rightarrow> trace_key" where
  "decided d \<equiv> (de_Tenant d, de_TraceID d)"

abbreviation model_key :: "model_trace \<Rightarrow> trace_key" where
  "model_key t \<equiv> (mt_Tenant t, mt_TraceID t)"

text \<open>
  The outcome of finalizing the traces \<open>trs\<close>: one decision each, and the kept ones sent on, in
  the same order.
\<close>

definition finalized :: "bool \<Rightarrow> asm_trace multiset \<Rightarrow> manager \<Rightarrow> manager \<Rightarrow> bool" where
  "finalized f trs m m' =
     (\<exists>ds ts. m_decisions m' = m_decisions m @ ds \<and> m_traces m' = m_traces m @ ts
        \<and> image_mset decided (mset ds) = image_mset key_of trs
        \<and> map model_key ts = map decided (filter de_Keep ds)
        \<and> (f \<longrightarrow> (\<forall>d \<in> set ds. \<not> de_Keep d \<and> de_Reason d = KeepShed)))"

lemma finalizedI:
  "m_decisions m' = m_decisions m @ ds \<Longrightarrow> m_traces m' = m_traces m @ ts
     \<Longrightarrow> image_mset decided (mset ds) = image_mset key_of trs \<Longrightarrow> map model_key ts = map decided (filter de_Keep ds)
     \<Longrightarrow> (f \<Longrightarrow> \<forall>d \<in> set ds. \<not> de_Keep d \<and> de_Reason d = KeepShed) \<Longrightarrow> finalized f trs m m'"
  by (auto simp: finalized_def)

lemma finalized_refl: "finalized f {#} m m"
  by (rule finalizedI [of _ _ "[]" "[]"]) simp_all

lemma finalized_trans:
  assumes "finalized f xs m m1" and "finalized f ys m1 m2"
  shows "finalized f (xs + ys) m m2"
proof -
  from assms obtain ds ts ds' ts' where
    "m_decisions m1 = m_decisions m @ ds" "m_traces m1 = m_traces m @ ts"
    "image_mset decided (mset ds) = image_mset key_of xs" "map model_key ts = map decided (filter de_Keep ds)"
    "f \<longrightarrow> (\<forall>d \<in> set ds. \<not> de_Keep d \<and> de_Reason d = KeepShed)"
    "m_decisions m2 = m_decisions m1 @ ds'" "m_traces m2 = m_traces m1 @ ts'"
    "image_mset decided (mset ds') = image_mset key_of ys" "map model_key ts' = map decided (filter de_Keep ds')"
    "f \<longrightarrow> (\<forall>d \<in> set ds'. \<not> de_Keep d \<and> de_Reason d = KeepShed)"
    unfolding finalized_def by blast
  then show ?thesis by (intro finalizedI [of _ _ "ds @ ds'" "ts @ ts'"]) auto
qed

lemma list_all2_keys: "list_all2 decision_of trs ds \<Longrightarrow> map decided ds = map key_of trs"
  by (induction rule: list_all2_induct) (simp_all add: decision_of_def)

lemma kept_keys:
  "list_all2 decision_of trs ds
     \<Longrightarrow> map key_of (map fst (filter (\<lambda>(tr, d). de_Keep d) (zip trs ds))) = map decided (filter de_Keep ds)"
  by (induction rule: list_all2_induct) (simp_all add: decision_of_def)

lemma finalize_all_finalized: "finalized f (mset trs) m (snd (finalize_all e j f trs (i, m)))"
proof -
  obtain ds where ds: "m_decisions (snd (finalize_all e j f trs (i, m))) = m_decisions m @ ds"
    "list_all2 decision_of trs ds"
    "m_traces (snd (finalize_all e j f trs (i, m)))
       = m_traces m @ map (toModelTrace (e_xxh e)) (map fst (filter (\<lambda>(tr, d). de_Keep d) (zip trs ds)))"
    "f \<longrightarrow> (\<forall>d \<in> set ds. \<not> de_Keep d \<and> de_Reason d = KeepShed)"
    using finalize_all_emits [of e j f trs i m] by blast
  show ?thesis
  proof (rule finalizedI [OF ds(1,3)])
    show "image_mset decided (mset ds) = image_mset key_of (mset trs)"
      using list_all2_keys [OF ds(2)] by (metis mset_map)
    show "map model_key (map (toModelTrace (e_xxh e)) (map fst (filter (\<lambda>(tr, d). de_Keep d) (zip trs ds))))
        = map decided (filter de_Keep ds)"
      using kept_keys [OF ds(2)] by (simp add: comp_def case_prod_beta)
  qed (use ds(4) in blast)
qed

text \<open>The traces of a buffer that satisfy \<open>P\<close>.\<close>

definition picked :: "(asm_trace \<Rightarrow> bool) \<Rightarrow> shard_buf \<Rightarrow> asm_trace list" where
  "picked P sb = filter P (map snd sb)"

lemma sweep_finalized:
  assumes "fair_env e"
  shows "finalized f (mset (picked P (m_shards (snd im) ! j))) (snd im) (snd (sweep_shard e f P j im))"
proof -
  obtain i m where im: "im = (i, m)" by (cases im)
  define trs where "trs = map snd (filter (\<lambda>(k, tr). P tr) (e_range e (m_shards m ! j)))"
  define m1 where "m1 = m\<lparr>m_shards := (m_shards m)[j := filter (\<lambda>(k, tr). \<not> P tr) (m_shards m ! j)]\<rparr>"
  have "mset trs = mset (map snd (filter (\<lambda>(k, tr). P tr) (m_shards m ! j)))"
    using assms by (simp add: trs_def fair_env_def)
  also have "\<dots> = mset (picked P (m_shards m ! j))"
    by (simp add: picked_def filter_map comp_def case_prod_beta)
  finally have "mset (picked P (m_shards m ! j)) = mset trs" ..
  moreover have "snd (sweep_shard e f P j im) = snd (finalize_all e (int j) f trs (i, m1))"
    by (simp add: sweep_shard_def im trs_def m1_def Let_def)
  moreover have "finalized f (mset trs) m (snd (finalize_all e (int j) f trs (i, m1)))"
    using finalize_all_finalized [of f trs m1 e "int j" i] by (simp add: finalized_def m1_def)
  ultimately show ?thesis by (simp add: im)
qed

lemma sweeps_shards:
  "\<forall>j \<in> set js. j < length (m_shards (snd im)) \<Longrightarrow> distinct js
     \<Longrightarrow> m_shards (snd (fold (sweep_shard e f P) js im))
         = map (\<lambda>j. if j \<in> set js then filter (\<lambda>(k, tr). \<not> P tr) (m_shards (snd im) ! j) else m_shards (snd im) ! j)
             [0..<length (m_shards (snd im))]"
proof (induction js arbitrary: im)
  case Nil
  then show ?case by (simp add: map_nth)
next
  case (Cons j js)
  have s: "m_shards (snd (sweep_shard e f P j im))
      = (m_shards (snd im))[j := filter (\<lambda>(k, tr). \<not> P tr) (m_shards (snd im) ! j)]"
    using Cons.prems by (intro sweep_shard_fields) simp
  show ?case
    using Cons.prems by (simp add: Cons.IH s) (auto simp: nth_list_update)
qed

lemma sweeps_finalized:
  "fair_env e \<Longrightarrow> \<forall>j \<in> set js. j < length (m_shards (snd im)) \<Longrightarrow> distinct js
     \<Longrightarrow> finalized f (\<Sum>j \<in># mset js. mset (picked P (m_shards (snd im) ! j))) (snd im)
           (snd (fold (sweep_shard e f P) js im))"
proof (induction js arbitrary: im)
  case Nil
  then show ?case by (simp add: finalized_refl)
next
  case (Cons j js)
  let ?im = "sweep_shard e f P j im"
  have s: "m_shards (snd ?im) = (m_shards (snd im))[j := filter (\<lambda>(k, tr). \<not> P tr) (m_shards (snd im) ! j)]"
    using Cons.prems by (intro sweep_shard_fields) simp
  have "(\<Sum>i \<in># mset js. mset (picked P (m_shards (snd ?im) ! i)))
      = (\<Sum>i \<in># mset js. mset (picked P (m_shards (snd im) ! i)))"
    using Cons.prems(2,3) by (intro arg_cong [where f = sum_mset] image_mset_cong) (auto simp: s nth_list_update)
  moreover have "finalized f (\<Sum>i \<in># mset js. mset (picked P (m_shards (snd ?im) ! i))) (snd ?im)
      (snd (fold (sweep_shard e f P) js ?im))"
    using Cons.prems by (intro Cons.IH) (simp_all add: s)
  ultimately show ?case
    using finalized_trans [OF sweep_finalized [OF Cons.prems(1), of f P im j]] by simp
qed

lemma sweep_all:
  assumes "fair_env e"
  shows "m_shards (snd (fold (sweep_shard e f P) [0..<length (m_shards m)] (i, m)))
           = map (filter (\<lambda>(k, tr). \<not> P tr)) (m_shards m)"
    and "finalized f (mset (picked P (concat (m_shards m)))) m
           (snd (fold (sweep_shard e f P) [0..<length (m_shards m)] (i, m)))"
proof -
  show "m_shards (snd (fold (sweep_shard e f P) [0..<length (m_shards m)] (i, m)))
      = map (filter (\<lambda>(k, tr). \<not> P tr)) (m_shards m)"
    by (subst sweeps_shards) (auto intro!: nth_equalityI)
  have "(\<Sum>sb \<in># mset xs. mset (picked P sb)) = mset (picked P (concat xs))" for xs
    by (induction xs) (simp_all add: picked_def)
  moreover have "mset xs = image_mset ((!) xs) (mset [0..<length xs])" for xs :: "shard_buf list"
    by (metis map_nth mset_map)
  ultimately have "(\<Sum>j \<in># mset [0..<length xs]. mset (picked P (xs ! j))) = mset (picked P (concat xs))" for xs
    by (metis (no_types, lifting) comp_apply image_mset_cong multiset.map_comp)
  with sweeps_finalized [OF assms, of "[0..<length (m_shards m)]" "(i, m)" f P]
  show "finalized f (mset (picked P (concat (m_shards m)))) m
      (snd (fold (sweep_shard e f P) [0..<length (m_shards m)] (i, m)))" by simp
qed

text \<open>A concrete assembler: two shards, a clock that stands still, and a span of one trace.\<close>

definition demo_env :: env where
  "demo_env = \<lparr>e_clk = (\<lambda>_. unix_epoch), e_xxh = (\<lambda>s. of_nat (length s)), e_oob = (\<lambda>_. 0), e_range = (\<lambda>sb. sb)\<rparr>"

definition demo_manager :: manager where
  "demo_manager = NewImpl \<lparr>ac_IdleTimeout = 0, ac_HardTimeout = 10, ac_WheelTick = 1\<rparr> DefaultPolicyConfig (Some NewMemWAL) 1"

definition demo_span :: span where
  "demo_span = mk_span ''aaaaaaaa'' no_span ''get'' 1"

lemma demo_env_fair: "fair_env demo_env"
  by (simp add: fair_env_def demo_env_def)

lemma demo_init: "asm_init demo_manager"
  unfolding asm_init_def demo_manager_def by (rule exI)+ (auto simp: wal_ok_def NewMemWAL_def)

definition demo_busy :: manager where
  "demo_busy = put_trace 0 (''t1'', no_trace)
     (add_span unix_epoch demo_span (open_trace demo_manager unix_epoch ''t1'' demo_span)) demo_manager"

lemmas demo_asm = demo_busy_def demo_env_def demo_manager_def demo_span_def NewImpl_def NewManager_def
  put_trace_def add_span_def open_trace_def is_due_def time_sub_def max_duration_def Let_def

definition demo_span1 :: span where
  "demo_span1 = demo_span\<lparr>sp_Tenant := ''t1''\<rparr>"

lemma demo_span_ids [simp]: "sp_TraceID demo_span = no_trace" "sp_SpanID demo_span = ''aaaaaaaa''"
  by (simp_all add: demo_span_def mk_span_def)

lemma demo_shard: "ShardFor xxh (m_ring demo_manager) t = 0"
  by (simp add: ShardFor_def demo_manager_def NewImpl_def NewManager_def Let_def)

lemma demo_consume:
  "\<exists>m. Consume demo_env ''t1'' [demo_span] demo_manager = Some m \<and> length (m_shards m) = 1
     \<and> m_ring m = m_ring demo_manager
     \<and> map_option tr_Spans (map_of (m_shards m ! 0) (''t1'', no_trace)) = Some [demo_span1]"
proof -
  have f: "m_shards demo_manager = [[]]" by (simp add: demo_manager_def NewImpl_def NewManager_def Let_def)
  have slot: "shard_slot demo_manager 0 = 0" by (simp add: shard_slot_def f)
  show ?thesis
    by (simp add: Consume_def consume_span_def Let_def demo_shard slot buffered_def f open_trace_def put_trace_def
        add_span_def demo_span1_def)
qed

text \<open>C26. What an open trace is: in every reachable state of the assembler, a buffer filed under a tenant
  and a trace identifier holds at least one span, only spans of that tenant and that trace, none
  twice; its set of seen identifiers is exactly theirs, and its path signature is defined.\<close>

theorem open_traces_sound:
  assumes "reach asm_init asm_step m" and "j < length (m_shards m)"
    and "((tid, i), tr) \<in> set (m_shards m ! j)"
  shows "tr_Tenant tr = tid \<and> tr_TraceID tr = i \<and> tr_Spans tr \<noteq> []
    \<and> (\<forall>s \<in> set (tr_Spans tr). sp_Tenant s = tid \<and> sp_TraceID s = i)
    \<and> distinct (map sp_SpanID (tr_Spans tr)) \<and> tr_seenSpanIDs tr = sp_SpanID ` set (tr_Spans tr)
    \<and> (\<exists>w. computePathSignature xxh (tr_Spans tr) = Some w)"
proof -
  have "trace_ok (tid, i) tr"
    using asm_inv_nth [OF asm.reach_inv [OF assms(1)] assms(2)] assms(3) by (auto simp: shard_ok_def)
  moreover from this have "inj_on sp_SpanID (set (tr_Spans tr))" by (simp add: trace_ok_def distinct_map)
  then have "\<exists>bs. signature_bytes (length (tr_Spans tr)) (tr_Spans tr) = Some bs"
    by (rule signature_exists) simp
  ultimately show ?thesis by (auto simp: trace_ok_def computePathSignature_def)
qed


theorem open_traces_sound_witness:
  "\<exists>m tr. Consume demo_env ''t1'' [demo_span] demo_manager = Some m
     \<and> ((''t1'', no_trace), tr) \<in> set (m_shards m ! 0) \<and> tr_seenSpanIDs tr = sp_SpanID ` set (tr_Spans tr)"
proof -
  obtain m where m: "Consume demo_env ''t1'' [demo_span] demo_manager = Some m" "length (m_shards m) = 1"
    "map_option tr_Spans (map_of (m_shards m ! 0) (''t1'', no_trace)) = Some [demo_span1]"
    using demo_consume by blast
  then obtain tr where tr: "((''t1'', no_trace), tr) \<in> set (m_shards m ! 0)" by (auto dest: map_of_SomeD)
  have "reach asm_init asm_step demo_manager" by (rule reach_init) (rule demo_init)
  moreover have "asm_step demo_manager m"
    using asm_step [OF demo_env_fair, of "AConsume ''t1'' [demo_span]"] m(1) by simp
  ultimately have "reach asm_init asm_step m" by (rule reach_step)
  from open_traces_sound [OF this _ tr] m(2) have "tr_seenSpanIDs tr = sp_SpanID ` set (tr_Spans tr)" by auto
  with m(1) tr show ?thesis by blast
qed

text \<open>C12. A tick of the wheel: it finalizes exactly the open traces that have been idle for the idle timeout
  or open for the hard timeout.  They, and no others, leave the buffers; each gets one decision, and
  the traces sent on are those whose decision keeps them, in the order of the decisions.\<close>

theorem Tick_exact:
  assumes "fair_env e"
  shows "m_shards (Tick e m) = map (filter (\<lambda>(k, tr). \<not> is_due (m_cfg m) (e_clk e 0) tr)) (m_shards m)
    \<and> (\<exists>ds ts. m_decisions (Tick e m) = m_decisions m @ ds \<and> m_traces (Tick e m) = m_traces m @ ts
         \<and> image_mset decided (mset ds)
             = image_mset key_of (mset (filter (is_due (m_cfg m) (e_clk e 0)) (map snd (concat (m_shards m)))))
         \<and> map model_key ts = map decided (filter de_Keep ds))"
  using sweep_all [OF assms, of False "is_due (m_cfg m) (e_clk e 0)" m 1]
  unfolding Tick_def finalized_def picked_def by blast

theorem Tick_exact_witness:
  "concat (m_shards (Tick demo_env demo_busy)) = [] \<and> length (m_decisions (Tick demo_env demo_busy)) = 1"
proof -
  define tr where "tr = add_span unix_epoch demo_span (open_trace demo_manager unix_epoch ''t1'' demo_span)"
  have sh: "m_shards demo_busy = [[((''t1'', no_trace), tr)]]" and no: "m_decisions demo_busy = []"
    and due: "is_due (m_cfg demo_busy) (e_clk demo_env 0) tr"
    by (simp_all add: demo_asm tr_def)
  note t = Tick_exact [OF demo_env_fair, of demo_busy]
  have "concat (m_shards (Tick demo_env demo_busy)) = []" using t by (simp add: sh due)
  moreover obtain ds where ds: "m_decisions (Tick demo_env demo_busy) = ds"
    "image_mset decided (mset ds) = {#key_of tr#}"
    using t by (auto simp: sh due no)
  have "length ds = 1" using arg_cong [OF ds(2), of size] by simp
  ultimately show ?thesis using ds(1) by simp
qed

text \<open>A flush empties every buffer: each open trace gets one decision, that decision sheds it, and no
  trace is sent on.\<close>

theorem FlushAll_sheds_everything:
  assumes "fair_env e"
  shows "concat (m_shards (FlushAll e m)) = [] \<and> m_traces (FlushAll e m) = m_traces m
    \<and> (\<exists>ds. m_decisions (FlushAll e m) = m_decisions m @ ds
         \<and> image_mset decided (mset ds) = image_mset key_of (mset (map snd (concat (m_shards m))))
         \<and> (\<forall>d \<in> set ds. \<not> de_Keep d \<and> de_Reason d = KeepShed))"
proof -
  obtain ds ts where d: "m_decisions (FlushAll e m) = m_decisions m @ ds" "m_traces (FlushAll e m) = m_traces m @ ts"
    "image_mset decided (mset ds) = image_mset key_of (mset (map snd (concat (m_shards m))))"
    "map model_key ts = map decided (filter de_Keep ds)" "\<forall>d \<in> set ds. \<not> de_Keep d \<and> de_Reason d = KeepShed"
    using sweep_all(2) [OF assms, of True "\<lambda>tr. True" m 0] unfolding FlushAll_def finalized_def picked_def by auto
  moreover have "filter de_Keep ds = []" using d(5) by (simp add: filter_empty_conv)
  then have "ts = []" using d(4) by simp
  moreover have "concat (m_shards (FlushAll e m)) = []"
    using sweep_all(1) [OF assms, of True "\<lambda>tr. True" m 0] by (simp add: FlushAll_def)
  ultimately show ?thesis by auto
qed

theorem FlushAll_sheds_everything_witness:
  "concat (m_shards (FlushAll demo_env demo_busy)) = [] \<and> m_decisions (FlushAll demo_env demo_busy) \<noteq> []"
proof -
  have "m_shards demo_busy = [[((''t1'', no_trace), add_span unix_epoch demo_span
      (open_trace demo_manager unix_epoch ''t1'' demo_span))]]"
    by (simp add: demo_asm)
  with FlushAll_sheds_everything [OF demo_env_fair, of demo_busy] show ?thesis by auto
qed

section \<open>The two channels agree\<close>

definition channels_ok :: "manager \<Rightarrow> bool" where
  "channels_ok m = (map model_key (m_traces m) = map decided (filter de_Keep (m_decisions m)))"

lemma channels_ok_finalized: "finalized f trs m m' \<Longrightarrow> channels_ok m \<Longrightarrow> channels_ok m'"
  by (auto simp: finalized_def channels_ok_def)

lemma channels_ok_same: "channels_ok m \<Longrightarrow> m_decisions m' = m_decisions m \<Longrightarrow> m_traces m' = m_traces m \<Longrightarrow> channels_ok m'"
  by (simp add: channels_ok_def)

lemma consume_span_channels:
  "consume_span e now tid s m = Some m' \<Longrightarrow> m_decisions m' = m_decisions m \<and> m_traces m' = m_traces m"
  by (auto simp: consume_span_def Let_def put_trace_def split: if_splits)

lemma consume_spans_channels:
  "consume_spans e now tid ss m = Some m' \<Longrightarrow> m_decisions m' = m_decisions m \<and> m_traces m' = m_traces m"
  by (induction ss arbitrary: m) (auto split: option.splits dest: consume_span_channels)

lemma replay_shards_channels:
  "m_decisions (snd (fold (replay_shard e w) js st)) = m_decisions (snd st)
     \<and> m_traces (snd (fold (replay_shard e w) js st)) = m_traces (snd st)"
proof (induction js arbitrary: st)
  case (Cons j js)
  obtain i rep m where "st = ((i, rep), m)" by (metis prod.exhaust)
  with Cons show ?case by (simp add: replay_shard_eq)
qed simp

lemma channels_ok_run:
  assumes ok: "channels_ok m" and e: "fair_env e" and r: "run_asm e op m = Some m'"
  shows "channels_ok m'"
proof (cases op)
  case (AConsume tid ss)
  with ok r show ?thesis by (auto simp: Consume_def intro: channels_ok_same dest: consume_spans_channels)
next
  case ATick
  with r have "m' = Tick e m" by simp
  with channels_ok_finalized [OF sweep_all(2) [OF e] ok] show ?thesis by (simp add: Tick_def)
next
  case AFlush
  with r have "m' = FlushAll e m" by simp
  with channels_ok_finalized [OF sweep_all(2) [OF e] ok] show ?thesis by (simp add: FlushAll_def)
next
  case AReplay
  with r obtain rep where "ReplayWAL e m = Some (rep, m')" by auto
  from ReplayWAL_shards [OF this] ok show ?thesis
    using replay_shards_channels by (auto intro: channels_ok_same)
qed (use ok r in \<open>auto simp: channels_ok_def recvRED_def SetRing_def SetBaselineSnapshot_def
      SetInterestPredicate_def RemoveInterestPredicate_def AdjustFloor_impl_def split: prod.splits\<close>)

lemma asm_init_channels: "asm_init m \<Longrightarrow> m_decisions m = [] \<and> m_traces m = []"
  by (auto simp: asm_init_def NewImpl_def NewManager_def Let_def)

interpretation channels: invariant_system asm_init asm_step channels_ok
  by unfold_locales
    (auto simp: channels_ok_def dest!: asm_init_channels elim!: asm_stepE intro: channels_ok_run [unfolded channels_ok_def])

text \<open>The output channels agree in every reachable state: the traces sent are exactly those whose
  decision keeps them, in the order of the decisions.\<close>

theorem traces_are_the_kept_ones:
  assumes "reach asm_init asm_step m"
  shows "map model_key (m_traces m) = map decided (filter de_Keep (m_decisions m))"
  using channels.reach_inv [OF assms] by (simp add: channels_ok_def)

lemma demo_tick_reach: "reach asm_init asm_step (Tick demo_env demo_manager)"
proof (rule reach_step)
  show "reach asm_init asm_step demo_manager" by (rule reach_init) (rule demo_init)
  show "asm_step demo_manager (Tick demo_env demo_manager)"
    using asm_step [OF demo_env_fair, of ATick demo_manager] by simp
qed

theorem traces_are_the_kept_ones_witness:
  "map model_key (m_traces (Tick demo_env demo_manager))
     = map decided (filter de_Keep (m_decisions (Tick demo_env demo_manager)))"
  by (rule traces_are_the_kept_ones) (rule demo_tick_reach)

end
