(* ===== verification/AssemblyRecovery.thy ===== *)
theory AssemblyRecovery
  imports AssemblyProps
begin

text \<open>
  What the assembler never loses: the RED count of every span, the newest RED samples, and the open
  traces, which the journal restores after a restart.
\<close>

section \<open>RED\<close>

lemma consume_span_red:
  assumes "consume_span e now tid s m = Some m'" and "m_shards m \<noteq> []"
  shows "(total_calls (m_red m') = total_calls (m_red m) + 1 \<and> m_duplicateSpansTotal m' = m_duplicateSpansTotal m
        \<or> m_red m' = m_red m \<and> m_duplicateSpansTotal m' = m_duplicateSpansTotal m + 1)
      \<and> m_shards m' \<noteq> []"
  using assms by (cases rule: consume_span_cases) (auto simp: put_trace_def Accumulate_calls)

lemma consume_spans_red:
  "consume_spans e now tid ss m = Some m' \<Longrightarrow> m_shards m \<noteq> []
     \<Longrightarrow> \<exists>d. m_duplicateSpansTotal m' = m_duplicateSpansTotal m + int d \<and> d \<le> length ss
           \<and> total_calls (m_red m') = total_calls (m_red m) + of_nat (length ss - d)"
proof (induction ss arbitrary: m)
  case (Cons s ss)
  then obtain m1 where m1: "consume_span e now tid s m = Some m1" "consume_spans e now tid ss m1 = Some m'"
    by (auto split: option.splits)
  note red = consume_span_red [OF m1(1) Cons.prems(2)]
  then obtain d where d: "m_duplicateSpansTotal m' = m_duplicateSpansTotal m1 + int d" "d \<le> length ss"
    "total_calls (m_red m') = total_calls (m_red m1) + of_nat (length ss - d)"
    using Cons.IH [OF m1(2)] by blast
  from red show ?case
  proof (elim conjE disjE)
    assume "total_calls (m_red m1) = total_calls (m_red m) + 1" "m_duplicateSpansTotal m1 = m_duplicateSpansTotal m"
    with d show ?thesis by (intro exI [of _ d]) (simp add: Suc_diff_le)
  next
    assume "m_red m1 = m_red m" "m_duplicateSpansTotal m1 = m_duplicateSpansTotal m + 1"
    with d show ?thesis by (intro exI [of _ "Suc d"]) simp
  qed
qed simp

text \<open>RED counts every span exactly once: consuming a batch raises the total number of calls, modulo
  2 ^ 64, by the number of its spans that were not dropped as duplicates, and the duplicate counter
  by the others.\<close>

theorem Consume_counts_every_span:
  assumes "Consume e tid ss m = Some m'" and "m_shards m \<noteq> []"
  shows "\<exists>d. m_duplicateSpansTotal m' = m_duplicateSpansTotal m + int d \<and> d \<le> length ss
           \<and> total_calls (m_red m') = total_calls (m_red m) + of_nat (length ss - d)"
  using consume_spans_red assms unfolding Consume_def by blast

theorem Consume_counts_every_span_witness:
  "\<exists>m'. Consume demo_env ''t1'' [demo_span] demo_manager = Some m'
     \<and> (total_calls (m_red m') = 1 \<or> m_duplicateSpansTotal m' = 1)"
proof -
  have f: "m_shards demo_manager \<noteq> []" "m_red demo_manager = []" "m_duplicateSpansTotal demo_manager = 0"
    by (simp_all add: demo_manager_def NewImpl_def NewManager_def Let_def newREDAccumulator_def)
  obtain m' where m': "Consume demo_env ''t1'' [demo_span] demo_manager = Some m'" using demo_consume by blast
  from Consume_counts_every_span [OF this f(1)] f obtain d where
    "m_duplicateSpansTotal m' = int d" "d \<le> 1" "total_calls (m_red m') = of_nat (1 - d)"
    by (auto simp: total_calls_def)
  then show ?thesis using m' by (cases "d = 0") auto
qed

lemma drop_oldest_append:
  "drop (length (drop (length xs - c) xs @ ys) - c) (drop (length xs - c) xs @ ys)
     = drop (length (xs @ ys) - c) (xs @ ys)"
  by (cases "length xs \<le> c") (auto simp: add.commute)

text \<open>The channel of RED samples holds the newest 8192; the others are counted.\<close>

lemma send_red_out:
  assumes "length (m_redOut m) \<le> redOut_cap"
  shows "m_redOut (send_red s m) = drop (length (m_redOut m @ [s]) - redOut_cap) (m_redOut m @ [s])"
    and "m_redSamplesDropped (send_red s m) = m_redSamplesDropped m + int (length (m_redOut m @ [s]) - redOut_cap)"
  using assms by (auto simp: send_red_def drop_Suc redOut_cap_def)

lemma fold_send_red:
  "length (m_redOut m) \<le> redOut_cap \<Longrightarrow>
     m_redOut (fold send_red ss m) = drop (length (m_redOut m @ ss) - redOut_cap) (m_redOut m @ ss)
     \<and> m_redSamplesDropped (fold send_red ss m)
         = m_redSamplesDropped m + int (length (m_redOut m @ ss) - redOut_cap)"
proof (induction ss arbitrary: m)
  case (Cons s ss)
  let ?m = "send_red s m"
  note one = send_red_out [OF Cons.prems, of s]
  have le: "length (m_redOut ?m) \<le> redOut_cap" by (simp add: one(1))
  have "drop (length (m_redOut ?m @ ss) - redOut_cap) (m_redOut ?m @ ss)
      = drop (length (m_redOut m @ s # ss) - redOut_cap) (m_redOut m @ s # ss)"
    unfolding one(1) drop_oldest_append by simp
  moreover have "int (length (m_redOut m @ [s]) - redOut_cap) + int (length (m_redOut ?m @ ss) - redOut_cap)
      = int (length (m_redOut m @ s # ss) - redOut_cap)"
    using Cons.prems by (simp add: one(1))
  ultimately show ?case using Cons.IH [OF le] one(2) by simp
qed simp

text \<open>Draining the accumulator never blocks and keeps the newest samples: the channel then holds the
  last 8192 of its old content followed by the drained samples, the dropped counter grows by what
  did not fit, and the accumulator is empty.\<close>

theorem DrainRED_keeps_newest:
  assumes "length (m_redOut m) \<le> redOut_cap"
  defines "xs \<equiv> m_redOut m @ fst (Flush (m_red m))"
  shows "m_redOut (DrainRED m) = drop (length xs - redOut_cap) xs \<and> length (m_redOut (DrainRED m)) \<le> redOut_cap
    \<and> m_redSamplesDropped (DrainRED m) = m_redSamplesDropped m + int (length xs - redOut_cap)
    \<and> m_red (DrainRED m) = newREDAccumulator"
proof -
  have d: "DrainRED m = fold send_red (fst (Flush (m_red m))) (m\<lparr>m_red := []\<rparr>)"
    by (simp add: DrainRED_def Flush_def)
  have "m_redOut (DrainRED m) = drop (length xs - redOut_cap) xs"
    "m_redSamplesDropped (DrainRED m) = m_redSamplesDropped m + int (length xs - redOut_cap)"
    using fold_send_red [of "m\<lparr>m_red := []\<rparr>" "fst (Flush (m_red m))"] assms(1)
    unfolding d xs_def by simp_all
  then show ?thesis by (simp add: newREDAccumulator_def del: drop_append)
qed

theorem DrainRED_keeps_newest_witness:
  "length (m_redOut (DrainRED (demo_manager\<lparr>m_red := Accumulate 0 ''t1'' demo_span []\<rparr>))) \<le> 8192"
proof -
  have "length (m_redOut (demo_manager\<lparr>m_red := Accumulate 0 ''t1'' demo_span []\<rparr>)) \<le> redOut_cap"
    by (simp add: demo_manager_def NewImpl_def NewManager_def Let_def)
  from DrainRED_keeps_newest [OF this] have "length (m_redOut (DrainRED (demo_manager\<lparr>m_red := Accumulate 0 ''t1'' demo_span []\<rparr>))) \<le> redOut_cap"
    by blast
  then show ?thesis by (simp add: redOut_cap_def)
qed

section \<open>The journal mirrors the buffers\<close>

definition tspans :: "shard_buf \<Rightarrow> trace_key \<Rightarrow> span list option" where
  "tspans sb k = map_option tr_Spans (map_of sb k)"

text \<open>Every member of the ring has a shard, as in the ring of the constructor.\<close>

definition ring_fits :: "manager \<Rightarrow> bool" where
  "ring_fits m = (rg_Members (m_ring m) \<noteq> [] \<and> length (rg_Members (m_ring m)) \<le> length (m_shards m))"

definition mirror :: "manager \<Rightarrow> bool" where
  "mirror m =
     (\<exists>w. m_wal m = Some w \<and> (\<forall>j < length (m_shards m). map_of (w (int j)) = tspans (m_shards m ! j))
        \<and> ring_fits m)"

lemma tspans_update: "tspans (AList.update k tr sb) = (tspans sb)(k \<mapsto> tr_Spans tr)"
  by (auto simp: tspans_def fun_eq_iff)

lemma ring_slot:
  assumes "ring_fits m"
  shows "0 \<le> ShardFor xxh (m_ring m) t \<and> ShardFor xxh (m_ring m) t < int (length (m_shards m))
    \<and> shard_slot m (ShardFor xxh (m_ring m) t) = ShardFor xxh (m_ring m) t"
proof -
  have "0 \<le> ShardFor xxh (m_ring m) t \<and> ShardFor xxh (m_ring m) t < int (length (rg_Members (m_ring m)))"
    using assms ShardFor_range by (simp add: ring_fits_def)
  with assms show ?thesis by (auto simp: ring_fits_def shard_slot_def signed_modulo_int_def sgn_if)
qed

lemma mirror_spans: "mirror m \<Longrightarrow> m_wal m = Some w \<Longrightarrow> j < length (m_shards m) \<Longrightarrow> map_of (w (int j)) = tspans (m_shards m ! j)"
  by (simp add: mirror_def)

lemma mirrorI:
  "m_wal m = Some w \<Longrightarrow> (\<And>j. j < length (m_shards m) \<Longrightarrow> map_of (w (int j)) = tspans (m_shards m ! j)) \<Longrightarrow> ring_fits m
     \<Longrightarrow> mirror m"
  by (simp add: mirror_def)

lemma buffered_spans:
  assumes "shard_ok (m_shards m ! j)" and "k = (tid, sp_TraceID s)"
  shows "tr_Spans (buffered m now tid s j) = (case tspans (m_shards m ! j) k of Some ss \<Rightarrow> ss | None \<Rightarrow> [])"
  using assms by (auto simp: buffered_def tspans_def open_trace_def split: option.split)

lemma mirror_consume_span:
  assumes inv: "asm_inv m" and mir: "mirror m" and c: "consume_span e now tid s0 m = Some m'"
  shows "mirror m'"
proof -
  obtain w where w: "m_wal m = Some w" and fits: "ring_fits m" using mir by (auto simp: mirror_def)
  note sp = mirror_spans [OF mir w]
  have ne: "m_shards m \<noteq> []" using inv by (simp add: asm_inv_def)
  from c ne show ?thesis
  proof (cases rule: consume_span_cases)
    case (1 s i k j tr)
    have "map_of (m_shards m ! j) k = Some tr"
      using 1(3,7,8) by (auto simp: buffered_def open_trace_def split: option.splits)
    then have "tspans (AList.update k tr (m_shards m ! j)) = tspans (m_shards m ! j)"
      by (auto simp: tspans_update tspans_def fun_eq_iff)
    with sp w fits 1(5) show ?thesis
      by (intro mirrorI [of _ w]) (auto simp: 1(9) put_trace_def nth_list_update ring_fits_def)
  next
    case (2 s i k j tr)
    note slot = ring_slot [OF fits, of "e_xxh e" "sp_TraceID s", folded 2(2)]
    then have i: "i = int j" using 2(4) by simp
    have "tr_Spans tr = (case tspans (m_shards m ! j) k of Some ss \<Rightarrow> ss | None \<Rightarrow> [])"
      unfolding 2(7) using asm_inv_nth [OF inv 2(5)] 2(3) by (rule buffered_spans)
    then have "map_of (wal_Append w i k s (int j)) = tspans (AList.update k (add_span now s tr) (m_shards m ! j))"
      using sp [OF 2(5)] by (simp add: wal_Append_def i tspans_update add_span_def)
    moreover have "wal_Append w i k s (int j') = w (int j')" if "j' \<noteq> j" for j'
      using that by (simp add: wal_Append_def i)
    ultimately show ?thesis
      using sp w fits 2(5)
      by (intro mirrorI [of _ "wal_Append w i k s"]) (auto simp: 2(9) put_trace_def nth_list_update ring_fits_def)
  qed
qed

lemma mirror_consume_spans:
  "asm_inv m \<Longrightarrow> mirror m \<Longrightarrow> consume_spans e now tid ss m = Some m' \<Longrightarrow> mirror m'"
  by (induction ss arbitrary: m) (auto split: option.splits intro: mirror_consume_span asm_inv_consume_span)

lemma map_of_truncates:
  "map_of (fold (\<lambda>tr w. wal_Truncate w i (key_of tr)) trs w i')
     = (\<lambda>k. if i' = i \<and> k \<in> key_of ` set trs then None else map_of (w i') k)"
  by (induction trs arbitrary: w) (auto simp: wal_Truncate_def fun_eq_iff)

lemma tspans_filter:
  assumes d: "distinct (keys sb)"
  shows "tspans (filter (\<lambda>(k, tr). \<not> P tr) sb)
    = (\<lambda>k. if k \<in> fst ` {x \<in> set sb. P (snd x)} then None else tspans sb k)"
proof
  fix k
  let ?f = "filter (\<lambda>(k, tr). \<not> P tr) sb"
  show "tspans ?f k = (if k \<in> fst ` {x \<in> set sb. P (snd x)} then None else tspans sb k)"
  proof (cases "map_of sb k")
    case None
    then have "k \<notin> fst ` set sb" by (simp add: map_of_eq_None_iff)
    then have "map_of ?f k = None" "k \<notin> fst ` {x \<in> set sb. P (snd x)}" by (auto simp: map_of_eq_None_iff)
    with None show ?thesis by (simp add: tspans_def)
  next
    case (Some tr)
    then have tr: "(k, tr) \<in> set sb" by (rule map_of_SomeD)
    then have u: "tr' = tr" if "(k, tr') \<in> set sb" for tr' using eq_key_imp_eq_value [OF d] that by metis
    show ?thesis
    proof (cases "P tr")
      case True
      then have "map_of ?f k = None" using u by (auto simp: map_of_eq_None_iff)
      moreover have "k \<in> fst ` {x \<in> set sb. P (snd x)}" using tr True by force
      ultimately show ?thesis by (simp add: tspans_def)
    next
      case False
      then have "map_of ?f k = Some tr" using d tr by (intro map_of_is_SomeI) (simp_all add: distinct_map_filter)
      moreover have "k \<notin> fst ` {x \<in> set sb. P (snd x)}" using u False by force
      ultimately show ?thesis using Some by (simp add: tspans_def)
    qed
  qed
qed

lemma mirror_sweep:
  assumes inv: "asm_inv (snd im)" and mir: "mirror (snd im)" and e: "fair_env e" and j: "j < length (m_shards (snd im))"
  shows "mirror (snd (sweep_shard e f P j im))"
proof -
  define m where "m = snd im"
  define sb where "sb = m_shards m ! j"
  define trs where "trs = map snd (filter (\<lambda>(k, tr). P tr) (e_range e sb))"
  obtain w where w: "m_wal m = Some w" and fits: "ring_fits m" using mir by (auto simp: mirror_def m_def)
  note sp = mirror_spans [OF mir [folded m_def] w]
  have ok: "shard_ok sb" using asm_inv_nth [OF inv j] by (simp add: sb_def m_def)
  have "set (e_range e sb) = set sb" using e by (metis fair_env_def mset_eq_setD)
  then have trs: "set trs = snd ` {x \<in> set sb. P (snd x)}" by (simp add: trs_def case_prod_beta)
  have kk: "key_of (snd x) = fst x" if "x \<in> set sb" for x
    using ok that by (auto simp: shard_ok_def trace_ok_def)
  have keys: "key_of ` set trs = fst ` {x \<in> set sb. P (snd x)}"
    unfolding trs image_image by (rule image_cong) (use kk in auto)
  let ?m = "snd (sweep_shard e f P j im)"
  note fs = sweep_shard_fields [OF j, folded m_def, folded sb_def, folded trs_def]
  show ?thesis
  proof (rule mirrorI)
    show "m_wal ?m = Some (fold (\<lambda>tr w. wal_Truncate w (int j) (key_of tr)) trs w)" by (simp add: fs w trs_def)
    show "ring_fits ?m" using fits by (simp add: ring_fits_def fs)
    fix j' assume j': "j' < length (m_shards ?m)"
    show "map_of (fold (\<lambda>tr w. wal_Truncate w (int j) (key_of tr)) trs w (int j')) = tspans (m_shards ?m ! j')"
    proof (cases "j' = j")
      case True
      have d: "distinct (keys sb)" using ok by (simp add: shard_ok_def)
      have eq: "map_of (w (int j)) k = tspans sb k" for k using sp [of j] j by (simp add: sb_def m_def)
      have sh: "m_shards ?m ! j = filter (\<lambda>(k, tr). \<not> P tr) sb" using j by (simp add: fs m_def)
      show ?thesis unfolding True sh map_of_truncates keys tspans_filter [OF d] by (simp add: eq cong: if_cong)
    next
      case False
      with j' sp [of j'] show ?thesis by (auto simp: map_of_truncates fs fun_eq_iff)
    qed
  qed
qed

lemma mirror_sweeps:
  "asm_inv (snd im) \<Longrightarrow> mirror (snd im) \<Longrightarrow> fair_env e \<Longrightarrow> \<forall>j \<in> set js. j < length (m_shards (snd im))
     \<Longrightarrow> mirror (snd (fold (sweep_shard e f P) js im))"
proof (induction js arbitrary: im)
  case (Cons j js)
  then have "asm_inv (snd (sweep_shard e f P j im))" "mirror (snd (sweep_shard e f P j im))"
    by (auto intro: asm_inv_sweep mirror_sweep)
  moreover have "length (m_shards (snd (sweep_shard e f P j im))) = length (m_shards (snd im))"
    using Cons.prems(4) by (simp add: sweep_shard_fields)
  ultimately show ?case using Cons by simp
qed simp

end
