(* ===== verification/AssemblyReplay.thy ===== *)
theory AssemblyReplay
  imports AssemblyRecovery
begin

text \<open>
  The round trip through the journal: a manager built on the journal of a stopped one recovers its
  open traces.
\<close>

section \<open>Replaying a mirror\<close>

lemma replay_spans_dup: "sp_SpanID ` set ss \<subseteq> tr_seenSpanIDs tr \<Longrightarrow> replay_spans ss tr = tr"
  by (induction ss) auto

lemma replay_spans_new:
  "distinct (map sp_SpanID ss) \<Longrightarrow> sp_SpanID ` set ss \<inter> tr_seenSpanIDs tr = {}
     \<Longrightarrow> tr_Spans (replay_spans ss tr) = tr_Spans tr @ ss"
proof (induction ss arbitrary: tr)
  case (Cons s ss)
  let ?tr = "tr\<lparr>tr_seenSpanIDs := insert (sp_SpanID s) (tr_seenSpanIDs tr), tr_Spans := tr_Spans tr @ [s]\<rparr>"
  have "sp_SpanID ` set ss \<inter> tr_seenSpanIDs ?tr = {}" "sp_SpanID s \<notin> tr_seenSpanIDs tr"
    using Cons.prems by auto
  with Cons.IH [of ?tr] Cons.prems(1) show ?case by simp
qed simp

text \<open>An entry fits a buffer when the buffer has these spans for the key, or does not have the key.\<close>

definition entry_fits :: "shard_buf \<Rightarrow> trace_key \<times> span list \<Rightarrow> bool" where
  "entry_fits sb en =
     (distinct (map sp_SpanID (snd en)) \<and> (\<forall>ss. tspans sb (fst en) = Some ss \<longrightarrow> ss = snd en))"

lemma replay_trace_spans:
  assumes ok: "shard_ok (snd st)" and fits: "entry_fits (snd st) en"
  shows "tspans (snd (replay_trace e en st)) = (tspans (snd st))(fst en \<mapsto> snd en)"
proof -
  obtain k ss where en: "en = (k, ss)" by (cases en)
  obtain i sb where st: "st = (i, sb)" by (cases st)
  show ?thesis
  proof (cases "map_of sb k")
    case None
    with fits have "tr_Spans (replay_spans ss (replayed_trace t k)) = ss" for t
      by (simp add: entry_fits_def en replay_spans_new replayed_trace_def)
    with None show ?thesis by (simp add: replay_trace_def en st tspans_update)
  next
    case (Some tr)
    have "trace_ok k tr" using shard_ok_map_of ok Some by (simp add: st)
    then have "replay_spans ss tr = tr" "tr_Spans tr = ss"
      using fits Some by (auto simp: entry_fits_def en st tspans_def trace_ok_def intro!: replay_spans_dup)
    with Some show ?thesis by (simp add: replay_trace_def en st tspans_update)
  qed
qed

lemma replay_traces_spans:
  "shard_ok (snd st) \<Longrightarrow> \<forall>en \<in> set ens. entry_ok en \<and> entry_fits (snd st) en \<Longrightarrow> distinct (keys ens)
     \<Longrightarrow> tspans (snd (fold (replay_trace e) ens st)) = tspans (snd st) ++ map_of ens"
proof (induction ens arbitrary: st)
  case (Cons en ens)
  obtain k ss where en: "en = (k, ss)" by (cases en)
  let ?st = "replay_trace e en st"
  have s: "tspans (snd ?st) = (tspans (snd st))(fst en \<mapsto> snd en)"
    using Cons.prems by (intro replay_trace_spans) simp_all
  have ok: "shard_ok (snd ?st)" using Cons.prems by (intro shard_ok_replay_trace) simp_all
  have "entry_fits (snd ?st) en'" if "en' \<in> set ens" for en'
  proof -
    have "fst en' \<noteq> fst en" using that Cons.prems(3) by (force simp: image_iff)
    with Cons.prems(2) that show ?thesis by (simp add: entry_fits_def s)
  qed
  with Cons ok have "tspans (snd (fold (replay_trace e) ens ?st)) = tspans (snd ?st) ++ map_of ens" by simp
  moreover have "(tspans (snd st))(k \<mapsto> ss) ++ map_of ens = (tspans (snd st) ++ map_of ens)(k \<mapsto> ss)"
    using Cons.prems(3) by (intro map_add_upd_left) (simp add: en dom_map_of_conv_image_fst)
  moreover have "tspans (snd st) ++ map_of (en # ens) = (tspans (snd st) ++ map_of ens)(k \<mapsto> ss)"
    by (simp only: en map_of.simps fst_conv snd_conv map_add_upd)
  moreover have "fst en = k" "snd en = ss" by (simp_all add: en)
  ultimately show ?case using s by (simp only: fold_simps comp_apply)
qed simp

text \<open>
  The journal describes the traces \<open>T j\<close> of each shard; every buffer is empty or holds those
  traces already.
\<close>

definition describes :: "nat \<Rightarrow> mem_wal \<Rightarrow> (nat \<Rightarrow> trace_key \<Rightarrow> span list option) \<Rightarrow> bool" where
  "describes n w T =
     (wal_ok w \<and> (\<forall>j < n. map_of (w (int j)) = T j \<and> (\<forall>k ss. T j k = Some ss \<longrightarrow> distinct (map sp_SpanID ss))))"

lemma replay_shard_spans:
  fixes e :: env and i :: nat and rep :: replay_report
  assumes ok: "shard_ok (m_shards m ! j)" and w: "describes n w T" and j: "j < length (m_shards m)" "j < n"
    and old: "tspans (m_shards m ! j) \<in> {Map.empty, T j}"
  defines "m' \<equiv> snd (replay_shard e w j ((i, rep), m))"
  shows "tspans (m_shards m' ! j) = T j" and "\<And>j'. j' \<noteq> j \<Longrightarrow> m_shards m' ! j' = m_shards m ! j'"
    and "m_ring m' = m_ring m" and "m_wal m' = m_wal m" and "length (m_shards m') = length (m_shards m)"
proof -
  have map: "map_of (w (int j)) = T j" and dist: "distinct (keys (w (int j)))"
    and ens: "\<forall>en \<in> set (w (int j)). entry_ok en"
    using w j by (auto simp: describes_def wal_ok_def)
  have ids: "distinct (map sp_SpanID ss)" if "T j k = Some ss" for k ss
    using w that j unfolding describes_def by blast
  have "entry_fits (m_shards m ! j) en" if "en \<in> set (w (int j))" for en
  proof -
    have "T j (fst en) = Some (snd en)" using that dist map by (metis map_of_is_SomeI prod.collapse)
    with old ids show ?thesis by (auto simp: entry_fits_def)
  qed
  then have "tspans (snd (fold (replay_trace e) (w (int j)) (i, m_shards m ! j))) = tspans (m_shards m ! j) ++ T j"
    using replay_traces_spans [of "(i, m_shards m ! j)" "w (int j)" e] ok ens dist map by simp
  also have "\<dots> = T j" using old by (auto simp: fun_eq_iff map_add_def split: option.split)
  finally have full: "tspans (snd (fold (replay_trace e) (w (int j)) (i, m_shards m ! j))) = T j" .
  show "tspans (m_shards m' ! j) = T j"
  proof (cases "w (int j) = []")
    case True
    with map old show ?thesis by (auto simp: m'_def replay_shard_eq)
  qed (use full j in \<open>simp add: m'_def replay_shard_eq\<close>)
qed (simp_all add: m'_def replay_shard_eq)

lemma replay_shards_spans:
  assumes "describes n w T"
  shows "\<forall>j < length (m_shards (snd st)). shard_ok (m_shards (snd st) ! j) \<and> tspans (m_shards (snd st) ! j) \<in> {Map.empty, T j}
    \<Longrightarrow> length (m_shards (snd st)) = n \<Longrightarrow> \<forall>j \<in> set js. j < n \<Longrightarrow> distinct js
    \<Longrightarrow> (\<forall>j \<in> set js. tspans (m_shards (snd (fold (replay_shard e w) js st)) ! j) = T j)
        \<and> (\<forall>j. j \<notin> set js \<longrightarrow> m_shards (snd (fold (replay_shard e w) js st)) ! j = m_shards (snd st) ! j)
        \<and> m_ring (snd (fold (replay_shard e w) js st)) = m_ring (snd st)
        \<and> m_wal (snd (fold (replay_shard e w) js st)) = m_wal (snd st)
        \<and> length (m_shards (snd (fold (replay_shard e w) js st))) = length (m_shards (snd st))"
proof (induction js arbitrary: st)
  case (Cons j js)
  obtain i rep m where st: "st = ((i, rep), m)" by (metis prod.exhaust)
  let ?st = "replay_shard e w j st"
  have j: "j < length (m_shards m)" "j < n" using Cons.prems(2,3) by (simp_all add: st)
  note one = replay_shard_spans [OF _ assms j, where e = e and i = i and rep = rep, folded st]
  have old: "shard_ok (m_shards m ! j)" "tspans (m_shards m ! j) \<in> {Map.empty, T j}"
    using Cons.prems(1) j by (auto simp: st)
  note one = one [OF old]
  have "shard_ok (m_shards (snd ?st) ! j')" if "j' < length (m_shards m)" for j'
  proof (cases "j' = j")
    case True
    have "shard_ok (snd (fold (replay_trace e) (w (int j)) (i, m_shards m ! j)))"
      using old(1) assms by (intro shard_ok_replay_traces) (auto simp: describes_def wal_ok_def)
    with True old(1) j show ?thesis by (simp add: st replay_shard_eq)
  next
    case False
    with one(2) that Cons.prems(1) show ?thesis by (simp add: st)
  qed
  moreover have "tspans (m_shards (snd ?st) ! j') \<in> {Map.empty, T j'}" if "j' < length (m_shards m)" for j'
    using that one(1,2) Cons.prems(1) by (cases "j' = j") (auto simp: st)
  ultimately show ?case
    using Cons.IH [of ?st] Cons.prems one by (auto simp: st)
qed simp

section \<open>Restarting\<close>

lemma mirror_describes:
  assumes "asm_inv m" and "mirror m" and "m_wal m = Some w"
  shows "describes (length (m_shards m)) w (\<lambda>j. tspans (m_shards m ! j))"
proof -
  have "distinct (map sp_SpanID ss)" if "j < length (m_shards m)" "tspans (m_shards m ! j) k = Some ss" for j k ss
    using shard_ok_map_of [OF asm_inv_nth [OF assms(1) that(1)], of k] that(2) by (auto simp: tspans_def trace_ok_def)
  with assms mirror_spans [OF assms(2,3)] show ?thesis by (auto simp: describes_def asm_inv_def)
qed

lemma ReplayWAL_some: "m_wal m = Some w \<Longrightarrow> \<exists>rep m'. ReplayWAL e m = Some (rep, m')"
  by (auto simp: ReplayWAL_def Let_def split: prod.split)

text \<open>Replaying leaves every buffer with the traces the journal describes.\<close>

lemma ReplayWAL_spans:
  assumes r: "ReplayWAL e m = Some (rep, m')" and w: "m_wal m = Some w" "describes (length (m_shards m)) w T"
    and old: "\<And>j. j < length (m_shards m) \<Longrightarrow> shard_ok (m_shards m ! j) \<and> tspans (m_shards m ! j) \<in> {Map.empty, T j}"
  shows "length (m_shards m') = length (m_shards m) \<and> m_wal m' = Some w \<and> m_ring m' = m_ring m
    \<and> (\<forall>j < length (m_shards m). tspans (m_shards m' ! j) = T j)"
proof -
  obtain rep0 where m': "m' = snd (fold (replay_shard e w) [0..<length (m_shards m)] ((1, rep0), m))"
    using ReplayWAL_shards [OF r] w(1) by auto
  show ?thesis
    using replay_shards_spans [OF w(2), of "((1, rep0), m)" "[0..<length (m_shards m)]" e] old w(1)
    unfolding m' [symmetric] by simp
qed

lemma mirror_replay:
  assumes "asm_inv m" and "mirror m" and "ReplayWAL e m = Some (rep, m')"
  shows "mirror m'"
proof -
  obtain w where w: "m_wal m = Some w" and fits: "ring_fits m" using assms(2) by (auto simp: mirror_def)
  have "length (m_shards m') = length (m_shards m) \<and> m_wal m' = Some w \<and> m_ring m' = m_ring m
    \<and> (\<forall>j < length (m_shards m). tspans (m_shards m' ! j) = tspans (m_shards m ! j))"
    using assms w by (intro ReplayWAL_spans [OF assms(3) w mirror_describes]) (simp_all add: asm_inv_nth)
  with w fits mirror_spans [OF assms(2) w] show ?thesis by (intro mirrorI [of _ w]) (simp_all add: ring_fits_def)
qed

text \<open>A new manager on the journal of \<open>m\<close>, with as many shards.\<close>

definition restarted :: "manager \<Rightarrow> assembly_config \<Rightarrow> policy_config \<Rightarrow> manager" where
  "restarted m acfg pcfg = NewImpl acfg pcfg (m_wal m) (int (length (m_shards m)))"

lemma restarted_fields:
  assumes "m_shards m \<noteq> []"
  shows "m_shards (restarted m acfg pcfg) = replicate (length (m_shards m)) []"
    and "m_wal (restarted m acfg pcfg) = m_wal m" and "ring_fits (restarted m acfg pcfg)"
proof -
  have n: "\<not> int (length (m_shards m)) < 1" "length (m_shards m) \<noteq> 0" using assms by (cases "m_shards m"; simp)+
  show "m_shards (restarted m acfg pcfg) = replicate (length (m_shards m)) []"
    "m_wal (restarted m acfg pcfg) = m_wal m" "ring_fits (restarted m acfg pcfg)"
    using n by (simp_all add: restarted_def NewImpl_def NewManager_def Let_def ring_fits_def)
qed

lemma asm_inv_restarted: "asm_inv m \<Longrightarrow> asm_inv (restarted m acfg pcfg)"
  unfolding restarted_def by (intro asm_inv_init) (auto simp: asm_init_def asm_inv_def)

lemma restart_recovers:
  assumes inv: "asm_inv m" and mir: "mirror m" and r: "ReplayWAL e (restarted m acfg pcfg) = Some (rep, m')"
  shows "mirror m' \<and> length (m_shards m') = length (m_shards m)
    \<and> (\<forall>j < length (m_shards m). tspans (m_shards m' ! j) = tspans (m_shards m ! j))"
proof -
  let ?m0 = "restarted m acfg pcfg"
  have ne: "m_shards m \<noteq> []" using inv by (simp add: asm_inv_def)
  note f = restarted_fields [OF ne, of acfg pcfg]
  obtain w where w: "m_wal m = Some w" using mir by (auto simp: mirror_def)
  have "describes (length (m_shards ?m0)) w (\<lambda>j. tspans (m_shards m ! j))"
    using mirror_describes [OF inv mir w] by (simp add: f)
  moreover have "shard_ok (m_shards ?m0 ! j) \<and> tspans (m_shards ?m0 ! j) \<in> {Map.empty, tspans (m_shards m ! j)}"
    if "j < length (m_shards ?m0)" for j
    using that by (auto simp: f shard_ok_def tspans_def fun_eq_iff)
  ultimately have "length (m_shards m') = length (m_shards ?m0) \<and> m_wal m' = Some w \<and> m_ring m' = m_ring ?m0
    \<and> (\<forall>j < length (m_shards ?m0). tspans (m_shards m' ! j) = tspans (m_shards m ! j))"
    using w f by (intro ReplayWAL_spans [OF r]) simp_all
  with f mirror_spans [OF mir w] show ?thesis by (auto intro!: mirrorI [of _ w] simp: ring_fits_def)
qed

text \<open>Operation with a journal, restarts included; a new ring has no more members than there are shards.\<close>

inductive journal_step :: "manager \<Rightarrow> manager \<Rightarrow> bool" where
  journal_run: "fair_env e \<Longrightarrow> run_asm e op m = Some m' \<Longrightarrow> ring_fits m' \<Longrightarrow> journal_step m m'"
| journal_restart: "ReplayWAL e (restarted m acfg pcfg) = Some (rep, m') \<Longrightarrow> journal_step m m'"

inductive_cases journal_stepE: "journal_step m m'"

definition journal_init :: "manager \<Rightarrow> bool" where
  "journal_init m = (\<exists>acfg pcfg n. m = NewImpl acfg pcfg (Some NewMemWAL) n)"

definition journal_inv :: "manager \<Rightarrow> bool" where
  "journal_inv m = (asm_inv m \<and> mirror m)"

lemma journal_inv_init: "journal_init m \<Longrightarrow> journal_inv m"
proof -
  assume "journal_init m"
  then obtain acfg pcfg n where m: "m = NewImpl acfg pcfg (Some NewMemWAL) n" by (auto simp: journal_init_def)
  moreover have "wal_ok NewMemWAL" by (simp add: wal_ok_def NewMemWAL_def)
  ultimately have "asm_init m" unfolding asm_init_def by blast
  moreover have "mirror m"
    unfolding m NewImpl_def NewManager_def Let_def
    by (rule mirrorI [of _ NewMemWAL]) (auto simp: NewMemWAL_def tspans_def fun_eq_iff ring_fits_def split: if_splits)
  ultimately show ?thesis by (simp add: journal_inv_def asm_inv_init)
qed

lemma mirror_run:
  assumes inv: "asm_inv m" and mir: "mirror m" and e: "fair_env e" and r: "run_asm e op m = Some m'" and f: "ring_fits m'"
  shows "mirror m'"
proof -
  have same: "mirror m'" if "m_shards m' = m_shards m" "m_wal m' = m_wal m"
    using that mir f unfolding mirror_def by auto
  show ?thesis
  proof (cases op)
    case (AConsume tid ss)
    with inv mir r show ?thesis by (auto simp: Consume_def intro: mirror_consume_spans)
  next
    case ATick
    with inv mir e r show ?thesis by (auto simp: Tick_def intro: mirror_sweeps)
  next
    case AFlush
    with inv mir e r show ?thesis by (auto simp: FlushAll_def intro: mirror_sweeps)
  next
    case AReplay
    with inv mir r show ?thesis by (auto intro: mirror_replay)
  qed (rule same; use r in \<open>auto simp: recvRED_def SetRing_def SetBaselineSnapshot_def
        SetInterestPredicate_def RemoveInterestPredicate_def AdjustFloor_impl_def split: prod.splits\<close>)+
qed

interpretation journal: invariant_system journal_init journal_step journal_inv
proof unfold_locales
  show "journal_inv m" if "journal_init m" for m using that by (rule journal_inv_init)
  show "journal_inv m'" if "journal_inv m" "journal_step m m'" for m m'
    using that(2)
  proof cases
    case (journal_run e op)
    with that(1) show ?thesis by (auto simp: journal_inv_def intro: asm_inv_run mirror_run)
  next
    case (journal_restart e acfg pcfg rep)
    then have run: "run_asm e AReplay (restarted m acfg pcfg) = Some m'" by simp
    have "asm_inv m" using that(1) by (simp add: journal_inv_def)
    from asm_inv_run [OF asm_inv_restarted [OF this] run] have "asm_inv m'" .
    with that(1) journal_restart show ?thesis by (auto simp: journal_inv_def dest: restart_recovers)
  qed
qed

text \<open>C7. Recovery round trip: however the assembler was used, restarts with as many shards included, as long as
  no \<open>SetRing\<close> was given an empty ring or one of more members than there are shards, a new manager with as many
  shards that replays its journal holds exactly the traces that were open, each with exactly its spans in their order of
  arrival. (\<open>ring_fits\<close>, in \<open>journal_step\<close>, is the condition on the ring; without it traces are lost, see
  \<open>oversized_ring_loses_trace\<close> below.)\<close>

theorem restart_roundtrip:
  assumes "reach journal_init journal_step m"
  shows "\<exists>rep m'. ReplayWAL e (NewImpl acfg pcfg (m_wal m) (int (length (m_shards m)))) = Some (rep, m')
    \<and> length (m_shards m') = length (m_shards m)
    \<and> (\<forall>j < length (m_shards m). \<forall>k.
          map_option tr_Spans (map_of (m_shards m' ! j) k) = map_option tr_Spans (map_of (m_shards m ! j) k))"
proof -
  have inv: "asm_inv m" "mirror m" using journal.reach_inv [OF assms] by (simp_all add: journal_inv_def)
  then obtain w where "m_wal m = Some w" by (auto simp: mirror_def)
  then have "m_wal (restarted m acfg pcfg) = Some w" using inv by (simp add: asm_inv_def restarted_fields)
  from ReplayWAL_some [OF this] obtain rep m' where r: "ReplayWAL e (restarted m acfg pcfg) = Some (rep, m')" by blast
  with restart_recovers [OF inv r] show ?thesis by (auto simp: restarted_def tspans_def fun_eq_iff)
qed

theorem restart_roundtrip_witness:
  "\<exists>m rep m'. Consume demo_env ''t1'' [demo_span] demo_manager = Some m
     \<and> ReplayWAL demo_env (NewImpl DefaultAssemblyConfig DefaultPolicyConfig (m_wal m) 1) = Some (rep, m')
     \<and> map_option tr_Spans (map_of (m_shards m' ! 0) (''t1'', no_trace)) = Some [demo_span1]"
proof -
  obtain m where m: "Consume demo_env ''t1'' [demo_span] demo_manager = Some m" "length (m_shards m) = 1"
    "m_ring m = m_ring demo_manager"
    "map_option tr_Spans (map_of (m_shards m ! 0) (''t1'', no_trace)) = Some [demo_span1]"
    using demo_consume by blast
  have "journal_init demo_manager" unfolding journal_init_def demo_manager_def by blast
  then have "reach journal_init journal_step demo_manager" by (rule reach_init)
  moreover have "ring_fits m"
    using m(2,3) by (simp add: ring_fits_def demo_manager_def NewImpl_def NewManager_def Let_def)
  then have "journal_step demo_manager m"
    using journal_run [OF demo_env_fair, of "AConsume ''t1'' [demo_span]"] m(1) by simp
  ultimately have "reach journal_init journal_step m" by (rule reach_step)
  from restart_roundtrip [OF this, of demo_env DefaultAssemblyConfig DefaultPolicyConfig] m(2) obtain rep m' where
    "ReplayWAL demo_env (NewImpl DefaultAssemblyConfig DefaultPolicyConfig (m_wal m) 1) = Some (rep, m')"
    "\<forall>k. map_option tr_Spans (map_of (m_shards m' ! 0) k) = map_option tr_Spans (map_of (m_shards m ! 0) k)"
    by auto
  with m(1,4) show ?thesis by metis
qed

section \<open>A ring of more members than shards\<close>

lemma replay_nothing: "\<forall>j \<in> set js. w (int j) = [] \<Longrightarrow> fold (replay_shard e w) js st = st"
  by (induction js) (auto simp: replay_shard_def wal_Replay_def split: prod.split)

text \<open>After \<open>SetRing\<close> with more members than there are shards, a span whose member has no shard is buffered in the shard
  of the remainder but journaled under the number of the member, which no \<open>ReplayWAL\<close> of as many shards reads: after a
  restart its trace is gone.\<close>

theorem oversized_ring_loses_trace:
  assumes "0 < n" and "ShardFor (e_xxh e) r (sp_TraceID s) = int i" and "n \<le> i"
  shows "\<exists>m. Consume e tid [s] (SetRing (NewImpl acfg pcfg (Some NewMemWAL) (int n)) r) = Some m
    \<and> map_option tr_Spans (map_of (m_shards m ! (i mod n)) (tid, sp_TraceID s)) = Some [s\<lparr>sp_Tenant := tid\<rparr>]
    \<and> (\<exists>rep m'. ReplayWAL e2 (NewImpl acfg2 pcfg2 (m_wal m) (int n)) = Some (rep, m') \<and> m_shards m' = replicate n [])"
proof -
  let ?s = "s\<lparr>sp_Tenant := tid\<rparr>" and ?k = "(tid, sp_TraceID s)"
  let ?m = "SetRing (NewImpl acfg pcfg (Some NewMemWAL) (int n)) r"
  have n: "\<not> int n < 1" using assms(1) by simp
  then have f: "m_shards ?m = replicate n []" "m_ring ?m = r" "m_wal ?m = Some NewMemWAL"
    by (simp_all add: SetRing_def NewImpl_def NewManager_def Let_def)
  have slot: "shard_slot ?m (int i) = int (i mod n)"
    using assms by (simp add: shard_slot_def f(1) signed_modulo_int_def sgn_if zmod_int)
  have j: "i mod n < n" using assms(1) by simp
  have b: "buffered ?m (e_clk e 0) tid ?s (i mod n) = open_trace ?m (e_clk e 0) tid ?s"
    using j by (simp add: buffered_def f)
  define m where "m = (put_trace (i mod n) ?k (add_span (e_clk e 0) ?s (open_trace ?m (e_clk e 0) tid ?s)) ?m)
    \<lparr>m_red := Accumulate (e_clk e 0) tid ?s (m_red ?m), m_wal := Some (wal_Append NewMemWAL (int i) ?k ?s)\<rparr>"
  have c: "Consume e tid [s] ?m = Some m"
    using b by (simp add: Consume_def consume_span_def Let_def f slot assms(2) m_def) (simp add: open_trace_def put_trace_def f)
  have m: "m_wal m = Some (wal_Append NewMemWAL (int i) ?k ?s)"
    "m_shards m = (replicate n [])[i mod n := [(?k, add_span (e_clk e 0) ?s (open_trace ?m (e_clk e 0) tid ?s))]]"
    using j by (simp_all add: m_def put_trace_def f)
  have "map_option tr_Spans (map_of (m_shards m ! (i mod n)) ?k) = Some [?s]"
    using j by (simp add: m(2) add_span_def open_trace_def)
  moreover have "\<exists>rep m'. ReplayWAL e2 (NewImpl acfg2 pcfg2 (m_wal m) (int n)) = Some (rep, m') \<and> m_shards m' = replicate n []"
  proof -
    have "fold (replay_shard e2 (wal_Append NewMemWAL (int i) ?k ?s)) [0..<n] st = st" for st
      using assms(3) by (intro replay_nothing) (auto simp: wal_Append_def NewMemWAL_def)
    then show ?thesis using n by (simp add: ReplayWAL_def NewImpl_def NewManager_def Let_def m(1))
  qed
  ultimately show ?thesis using c by blast
qed

theorem oversized_ring_loses_trace_witness:
  "\<exists>m. Consume (demo_env\<lparr>e_xxh := (\<lambda>x. if take 1 x = ''b'' then 1 else 0)\<rparr>) ''t1'' [demo_span]
         (SetRing demo_manager \<lparr>rg_Epoch = 2, rg_Members = [''a'', ''b''], rg_State = RingStable\<rparr>) = Some m
     \<and> map_option tr_Spans (map_of (m_shards m ! 0) (''t1'', no_trace)) = Some [demo_span1]
     \<and> (\<exists>rep m'. ReplayWAL demo_env (NewImpl DefaultAssemblyConfig DefaultPolicyConfig (m_wal m) 1) = Some (rep, m') \<and> m_shards m' = [[]])"
proof -
  let ?e = "demo_env\<lparr>e_xxh := (\<lambda>x. if take 1 x = ''b'' then 1 else 0)\<rparr>"
  let ?r = "\<lparr>rg_Epoch = 2, rg_Members = [''a'', ''b''], rg_State = RingStable\<rparr>"
  have "ShardFor (e_xxh ?e) ?r (sp_TraceID demo_span) = int 1" by (simp add: ShardFor_def score_def)
  moreover have "sp_TraceID demo_span = no_trace" by (simp add: demo_span_def)
  ultimately show ?thesis
    using oversized_ring_loses_trace [of 1 ?e ?r demo_span 1 "''t1''" "\<lparr>ac_IdleTimeout = 0, ac_HardTimeout = 10, ac_WheelTick = 1\<rparr>" DefaultPolicyConfig demo_env
        DefaultAssemblyConfig DefaultPolicyConfig]
    by (simp add: demo_manager_def demo_span1_def)
qed

end
