(* ===== verification/IngestModel.thy ===== *)
theory IngestModel
  imports Telemetry
begin

text \<open>
  The data of internal/ingest: configuration (from internal/config), batches, rejections
  (errors.go) and the in-process counters (metrics.go).

  The formatted text of an error is abstracted to a constructor carrying the printed values.
\<close>

section \<open>Configuration\<close>

record queue_config =
  qc_Capacity :: int
  qc_MaxBytes :: int
  qc_EnqueueTimeout :: duration
  qc_OverflowPolicy :: string

record limits_config =
  lc_MaxAttributesPerSpan :: int
  lc_MaxAttributeValueBytes :: int
  lc_OversizeAttr :: string
  lc_MaxAttributeKeyBytes :: int
  lc_MaxSpansPerBatch :: int
  lc_MaxRequestBytes :: int

record ingest_config =
  ic_Queue :: queue_config
  ic_Limits :: limits_config
  ic_AuthMode :: string

record batch =
  ba_Tenant :: tenant_id
  ba_Spans :: "span list"
  ba_SourceFormat :: source_format
  ba_ReceivedUnixNano :: "64 word"
  ba_SourceAddr :: string
  ba_SizeBytes :: "32 word"

section \<open>Rejections\<close>

datatype reject_reason =
    ReasonMalformed | ReasonOversize | ReasonUnauthenticated | ReasonQueueFull | ReasonQueueFullAfterWait

fun reason_text :: "reject_reason \<Rightarrow> string" where
  "reason_text ReasonMalformed = ''malformed''"
| "reason_text ReasonOversize = ''oversize''"
| "reason_text ReasonUnauthenticated = ''unauthenticated''"
| "reason_text ReasonQueueFull = ''queue_full''"
| "reason_text ReasonQueueFullAfterWait = ''queue_full_after_wait''"

type_synonym protocol = string

definition ProtocolOTLPGRPC :: protocol where
  "ProtocolOTLPGRPC = ''otlp-grpc''"

definition ProtocolOTLPHTTP :: protocol where
  "ProtocolOTLPHTTP = ''otlp-http''"

definition ProtocolZipkin :: protocol where
  "ProtocolZipkin = ''zipkin''"

text \<open>What an error says: the values its text prints, or the text of a library error.\<close>

datatype cause =
    BatchBytes "32 word" int
  | BatchSpans int int
  | AttributeTooBig string int int
  | QueueFull
  | NoTenant
  | NoNormalizer protocol
  | WrongInput
  | InvalidTraceID int
  | ZeroTraceID
  | InvalidSpanID int
  | ZeroSpanID
  | InvalidHexByte char
  | WantHexChars int
  | AllZero
  | InSpan string cause
  | InField string cause
  | EmptyBody
  | LibraryError string

record ingest_error =
  ie_Reason :: reject_reason
  ie_Protocol :: protocol
  ie_Err :: cause

text \<open>The error interface: an \<open>IngestError\<close>, or another error such as \<open>ctx.Err()\<close>.\<close>

datatype error = IngestErr ingest_error | OtherErr string

datatype grpc_code = InvalidArgument | Unauthenticated | ResourceExhausted | Unknown | Internal

fun GRPCStatus :: "reject_reason \<Rightarrow> grpc_code" where
  "GRPCStatus ReasonMalformed = InvalidArgument"
| "GRPCStatus ReasonOversize = InvalidArgument"
| "GRPCStatus ReasonUnauthenticated = Unauthenticated"
| "GRPCStatus ReasonQueueFull = ResourceExhausted"
| "GRPCStatus ReasonQueueFullAfterWait = ResourceExhausted"

fun HTTPStatus :: "reject_reason \<Rightarrow> int" where
  "HTTPStatus ReasonMalformed = 400"
| "HTTPStatus ReasonOversize = 400"
| "HTTPStatus ReasonUnauthenticated = 401"
| "HTTPStatus ReasonQueueFull = 429"
| "HTTPStatus ReasonQueueFullAfterWait = 429"

section \<open>metrics.go\<close>

text \<open>A missing key of a counter map reads as zero.\<close>

record metrics =
  me_received :: "string \<Rightarrow> 64 word"
  me_rejected :: "string \<Rightarrow> 64 word"
  me_batches :: "protocol \<Rightarrow> 64 word"

definition newMetrics :: metrics where
  "newMetrics = \<lparr>me_received = (\<lambda>_. 0), me_rejected = (\<lambda>_. 0), me_batches = (\<lambda>_. 0)\<rparr>"

definition label :: "string \<Rightarrow> string \<Rightarrow> string" where
  "label a b = a @ ''|'' @ b"

definition spansReceived :: "protocol \<Rightarrow> tenant_id \<Rightarrow> int \<Rightarrow> metrics \<Rightarrow> metrics" where
  "spansReceived p tid n m =
     (if n \<le> 0 then m
      else m\<lparr>me_received := (me_received m)(label p tid := me_received m (label p tid) + u64 n)\<rparr>)"

definition spansRejected :: "protocol \<Rightarrow> reject_reason \<Rightarrow> int \<Rightarrow> metrics \<Rightarrow> metrics" where
  "spansRejected p r n m =
     (if n \<le> 0 then m
      else m\<lparr>me_rejected := (me_rejected m)
               (label p (reason_text r) := me_rejected m (label p (reason_text r)) + u64 n)\<rparr>)"

definition batchReceived :: "protocol \<Rightarrow> metrics \<Rightarrow> metrics" where
  "batchReceived p m = m\<lparr>me_batches := (me_batches m)(p := me_batches m p + 1)\<rparr>"

definition Received :: "metrics \<Rightarrow> protocol \<Rightarrow> tenant_id \<Rightarrow> 64 word" where
  "Received m p tid = me_received m (label p tid)"

definition Rejected :: "metrics \<Rightarrow> protocol \<Rightarrow> reject_reason \<Rightarrow> 64 word" where
  "Rejected m p r = me_rejected m (label p (reason_text r))"

definition Batches :: "metrics \<Rightarrow> protocol \<Rightarrow> 64 word" where
  "Batches m p = me_batches m p"

text \<open>Labels of different protocols or tenants differ, as no protocol name contains the separator.\<close>

lemma label_inj:
  assumes "CHR ''|'' \<notin> set p" and "CHR ''|'' \<notin> set q"
  shows "label p a = label q b \<longleftrightarrow> p = q \<and> a = b"
proof
  assume eq: "label p a = label q b"
  have "takeWhile (\<lambda>c. c \<noteq> CHR ''|'') (label r x) = r" if "CHR ''|'' \<notin> set r" for r x
  proof -
    have "takeWhile (\<lambda>c. c \<noteq> CHR ''|'') (r @ y) = r @ takeWhile (\<lambda>c. c \<noteq> CHR ''|'') y" for y
      using that by (intro takeWhile_append2) auto
    then show ?thesis by (simp add: label_def)
  qed
  with eq assms have "p = q" by metis
  with eq show "p = q \<and> a = b" by (simp add: label_def)
qed simp

end
