(* ===== verification/IngestLimits.thy ===== *)
theory IngestLimits
  imports IngestModel "HOL-Library.Char_ord" "HOL-Library.List_Lexorder"
begin

text \<open>
  internal/ingest/limits.go: the limits on a batch and on the attributes of a span.

  The attributes of a span are an association list with distinct keys; the order of the list is
  the order in which the range loop visits the map.  Deleting the visited key or assigning to it
  during the loop, as the code does, does not change which other keys are visited.
\<close>

definition attrValueApproxBytes :: "attr_value \<Rightarrow> int" where
  "attrValueApproxBytes v =
     (case av_Kind v of
        AttrStr \<Rightarrow> int (length (av_Str v))
      | AttrBytes \<Rightarrow> int (length (av_Bytes v))
      | _ \<Rightarrow> 8)"

fun set_str :: "attr_value \<Rightarrow> string \<Rightarrow> attr_value" where
  "set_str (AttrValue k s n f b l m) s' = AttrValue k s' n f b l m"

fun set_bytes :: "attr_value \<Rightarrow> string \<Rightarrow> attr_value" where
  "set_bytes (AttrValue k s n f b l m) b' = AttrValue k s n f b' l m"

definition truncateAttrValue :: "attr_value \<Rightarrow> int \<Rightarrow> attr_value" where
  "truncateAttrValue v mx =
     (if mx < 0 then v
      else case av_Kind v of
        AttrStr \<Rightarrow> if int (length (av_Str v)) > mx then set_str v (take (nat mx) (av_Str v)) else v
      | AttrBytes \<Rightarrow> if int (length (av_Bytes v)) > mx then set_bytes v (take (nat mx) (av_Bytes v)) else v
      | _ \<Rightarrow> v)"

text \<open>The attributes beyond the cap, by key order.\<close>

definition over_count :: "limits_config \<Rightarrow> attr_map \<Rightarrow> bool" where
  "over_count lc attrs = (lc_MaxAttributesPerSpan lc > 0 \<and> int (length attrs) > lc_MaxAttributesPerSpan lc)"

definition dropped_keys :: "limits_config \<Rightarrow> attr_map \<Rightarrow> string list" where
  "dropped_keys lc attrs = drop (nat (lc_MaxAttributesPerSpan lc)) (sort (map fst attrs))"

definition cap_count :: "limits_config \<Rightarrow> span \<Rightarrow> span" where
  "cap_count lc sp =
     (if over_count lc (sp_Attrs sp) then
        (let dead = dropped_keys lc (sp_Attrs sp)
         in sp\<lparr>sp_Attrs := foldl (\<lambda>m k. AList.delete k m) (sp_Attrs sp) dead,
               sp_DroppedAttrsCount := sp_DroppedAttrsCount sp + word_of_nat (length dead),
               sp_Truncated := True\<rparr>)
      else sp)"

definition oversizeKey :: "limits_config \<Rightarrow> string \<Rightarrow> bool" where
  "oversizeKey lc k = (lc_MaxAttributeKeyBytes lc > 0 \<and> int (length k) > lc_MaxAttributeKeyBytes lc)"

definition oversizeVal :: "limits_config \<Rightarrow> attr_value \<Rightarrow> bool" where
  "oversizeVal lc v =
     (lc_MaxAttributeValueBytes lc > 0 \<and> attrValueApproxBytes v > lc_MaxAttributeValueBytes lc)"

definition oversize_error :: "string \<Rightarrow> attr_value \<Rightarrow> error" where
  "oversize_error k v =
     IngestErr \<lparr>ie_Reason = ReasonOversize, ie_Protocol = [],
                ie_Err = AttributeTooBig k (int (length k)) (attrValueApproxBytes v)\<rparr>"

text \<open>The loop over the attributes; on an error the span is left as changed so far.\<close>

fun cap_sizes :: "limits_config \<Rightarrow> attr_map \<Rightarrow> span \<Rightarrow> span \<times> error option" where
  "cap_sizes lc [] sp = (sp, None)"
| "cap_sizes lc ((k, v) # rest) sp =
     (if \<not> oversizeKey lc k \<and> \<not> oversizeVal lc v then cap_sizes lc rest sp
      else if lc_OversizeAttr lc = ''reject'' then (sp, Some (oversize_error k v))
      else if oversizeKey lc k then
        cap_sizes lc rest
          (sp\<lparr>sp_Attrs := AList.delete k (sp_Attrs sp),
              sp_DroppedAttrsCount := sp_DroppedAttrsCount sp + 1, sp_Truncated := True\<rparr>)
      else
        cap_sizes lc rest
          (sp\<lparr>sp_Attrs := AList.update k (truncateAttrValue v (lc_MaxAttributeValueBytes lc)) (sp_Attrs sp),
              sp_Truncated := True\<rparr>))"

definition applySpanLimits :: "limits_config \<Rightarrow> span \<Rightarrow> span \<times> error option" where
  "applySpanLimits lc sp =
     (if sp_Attrs sp = [] then (sp, None)
      else (let sp1 = cap_count lc sp in cap_sizes lc (sp_Attrs sp1) sp1))"

fun limit_spans :: "limits_config \<Rightarrow> span list \<Rightarrow> span list \<times> error option" where
  "limit_spans lc [] = ([], None)"
| "limit_spans lc (sp # sps) =
     (case applySpanLimits lc sp of
        (sp', Some e) \<Rightarrow> (sp' # sps, Some e)
      | (sp', None) \<Rightarrow> (let (sps', e) = limit_spans lc sps in (sp' # sps', e)))"

definition applyLimits :: "limits_config \<Rightarrow> batch \<Rightarrow> batch \<times> error option" where
  "applyLimits lc b =
     (if lc_MaxRequestBytes lc > 0 \<and> uint (ba_SizeBytes b) > lc_MaxRequestBytes lc then
        (b, Some (IngestErr \<lparr>ie_Reason = ReasonOversize, ie_Protocol = [],
                             ie_Err = BatchBytes (ba_SizeBytes b) (lc_MaxRequestBytes lc)\<rparr>))
      else if lc_MaxSpansPerBatch lc > 0 \<and> int (length (ba_Spans b)) > lc_MaxSpansPerBatch lc then
        (b, Some (IngestErr \<lparr>ie_Reason = ReasonOversize, ie_Protocol = [],
                             ie_Err = BatchSpans (int (length (ba_Spans b))) (lc_MaxSpansPerBatch lc)\<rparr>))
      else
        (let (sps, e) = limit_spans lc (ba_Spans b) in (b\<lparr>ba_Spans := sps\<rparr>, e)))"

end
