(* ===== verification/IngestOTLP.thy ===== *)
theory IngestOTLP
  imports IngestModel
begin

text \<open>
  internal/ingest/otlp_normalize.go.  The OTLP messages are generated code outside the repository;
  the types here list what their getters return, with \<open>None\<close> for a nil message.  The size of the
  encoded request is an argument.
\<close>

section \<open>Messages\<close>

text \<open>A nil value and a value without content are both read as \<open>OtlpNone\<close>.\<close>

datatype otlp_any =
    OtlpNone
  | OtlpString string
  | OtlpBool bool
  | OtlpInt int
  | OtlpDouble rat
  | OtlpBytes string
  | OtlpArray "otlp_any list"
  | OtlpKvlist "(string \<times> otlp_any) list"

type_synonym otlp_attrs = "(string \<times> otlp_any) list"

record otlp_scope =
  os_Name :: string
  os_Version :: string
  os_Attributes :: otlp_attrs

record otlp_event =
  oe_Name :: string
  oe_TimeUnixNano :: "64 word"
  oe_Attributes :: otlp_attrs

record otlp_link =
  ol_TraceId :: string
  ol_SpanId :: string
  ol_Attributes :: otlp_attrs

record otlp_span =
  ot_TraceId :: string
  ot_SpanId :: string
  ot_ParentSpanId :: string
  ot_TraceState :: string
  ot_Flags :: "32 word"
  ot_Name :: string
  ot_Kind :: int
  ot_StartTimeUnixNano :: "64 word"
  ot_EndTimeUnixNano :: "64 word"
  ot_Status :: "(int \<times> string) option"
  ot_Attributes :: otlp_attrs
  ot_Events :: "otlp_event list"
  ot_Links :: "otlp_link list"
  ot_DroppedAttributesCount :: "32 word"
  ot_DroppedEventsCount :: "32 word"
  ot_DroppedLinksCount :: "32 word"

record otlp_scope_spans =
  oss_Scope :: "otlp_scope option"
  oss_Spans :: "otlp_span list"

record otlp_resource_spans =
  ors_Resource :: "otlp_attrs option"
  ors_ScopeSpans :: "otlp_scope_spans list"

type_synonym otlp_request = "otlp_resource_spans list"

section \<open>Attributes\<close>

text \<open>Building a map in a loop: a later entry replaces an earlier one with its key.\<close>

definition collect :: "(string \<times> 'v) list \<Rightarrow> (string \<times> 'v) list" where
  "collect kvs = foldl (\<lambda>m (k, v). AList.update k v m) [] kvs"

definition zero_attr :: attr_value where
  "zero_attr = AttrValue AttrStr [] 0 0 [] [] []"

fun convertAnyValue :: "otlp_any \<Rightarrow> attr_value" where
  "convertAnyValue OtlpNone = zero_attr"
| "convertAnyValue (OtlpString s) = AttrValue AttrStr s 0 0 [] [] []"
| "convertAnyValue (OtlpBool b) = AttrValue AttrBool [] (if b then 1 else 0) 0 [] [] []"
| "convertAnyValue (OtlpInt n) = AttrValue AttrInt [] n 0 [] [] []"
| "convertAnyValue (OtlpDouble f) = AttrValue AttrFloat [] 0 f [] [] []"
| "convertAnyValue (OtlpBytes b) = AttrValue AttrBytes [] 0 0 b [] []"
| "convertAnyValue (OtlpArray vs) = AttrValue AttrSlice [] 0 0 [] (map convertAnyValue vs) []"
| "convertAnyValue (OtlpKvlist kvs) =
     AttrValue AttrMapK [] 0 0 [] [] (collect (map (\<lambda>(k, v). (k, convertAnyValue v)) kvs))"

definition convertAttrs :: "otlp_attrs \<Rightarrow> attr_map" where
  "convertAttrs kvs = collect (map (\<lambda>(k, v). (k, convertAnyValue v)) kvs)"

section \<open>Parts of a span\<close>

definition convertTraceID :: "string \<Rightarrow> cause + trace_id" where
  "convertTraceID b =
     (if length b \<noteq> 16 then Inl (InvalidTraceID (int (length b)))
      else if b = no_trace then Inl ZeroTraceID
      else Inr b)"

definition convertSpanID :: "string \<Rightarrow> cause + span_id" where
  "convertSpanID b =
     (if length b \<noteq> 8 then Inl (InvalidSpanID (int (length b)))
      else if b = no_span then Inl ZeroSpanID
      else Inr b)"

fun string_value :: "otlp_any \<Rightarrow> string" where
  "string_value (OtlpString s) = s"
| "string_value _ = []"

definition resource_field :: "string \<times> otlp_any \<Rightarrow> resource \<Rightarrow> resource" where
  "resource_field kv res =
     (if fst kv = ''service.name'' then res\<lparr>res_ServiceName := string_value (snd kv)\<rparr>
      else if fst kv = ''service.version'' then res\<lparr>res_ServiceVersion := string_value (snd kv)\<rparr>
      else if fst kv = ''service.namespace'' then res\<lparr>res_Namespace := string_value (snd kv)\<rparr>
      else if fst kv = ''deployment.environment.name'' then res\<lparr>res_Env := string_value (snd kv)\<rparr>
      else res)"

definition convertResource :: "otlp_attrs option \<Rightarrow> resource option" where
  "convertResource r =
     map_option (\<lambda>attrs. fold resource_field attrs
       \<lparr>res_ID = [], res_ServiceName = [], res_ServiceVersion = [], res_Namespace = [], res_Env = [],
        res_Attrs = convertAttrs attrs\<rparr>) r"

definition convertScope :: "otlp_scope option \<Rightarrow> scope option" where
  "convertScope sc =
     map_option (\<lambda>s. \<lparr>sc_Name = os_Name s, sc_Version = os_Version s, sc_Attrs = convertAttrs (os_Attributes s)\<rparr>) sc"

text \<open>The conversions to the \<open>uint8\<close> enums keep the low eight bits.\<close>

definition status_of :: "int \<Rightarrow> status_code" where
  "status_of n =
     (let w = (word_of_int n :: 8 word) in
      if w = 0 then StatusUnset else if w = 1 then StatusOk else if w = 2 then StatusError
      else StatusUndeclared w)"

definition kind_of :: "int \<Rightarrow> span_kind" where
  "kind_of n =
     (let w = (word_of_int n :: 8 word) in
      if w = 0 then SpanKindUnspecified else if w = 1 then SpanKindInternal else if w = 2 then SpanKindServer
      else if w = 3 then SpanKindClient else if w = 4 then SpanKindProducer else if w = 5 then SpanKindConsumer
      else SpanKindUndeclared w)"

definition convertStatus :: "(int \<times> string) option \<Rightarrow> status" where
  "convertStatus s =
     (case s of
        None \<Rightarrow> \<lparr>st_Code = StatusUnset, st_Message = []\<rparr>
      | Some (code, msg) \<Rightarrow> \<lparr>st_Code = status_of code, st_Message = msg\<rparr>)"

definition convertEvents :: "otlp_event list \<Rightarrow> span_event list" where
  "convertEvents evs =
     map (\<lambda>e. \<lparr>evt_Name = oe_Name e, evt_TimeUnixNano = oe_TimeUnixNano e,
               evt_Attrs = convertAttrs (oe_Attributes e)\<rparr>) evs"

text \<open>\<open>copy(id[:], b)\<close> into a zero array of \<open>n\<close> bytes.\<close>

definition copy_bytes :: "nat \<Rightarrow> string \<Rightarrow> string" where
  "copy_bytes n b = take n b @ replicate (n - length b) (CHR 0x00)"

definition convertLinks :: "otlp_link list \<Rightarrow> span_link list" where
  "convertLinks lnks =
     map (\<lambda>l. \<lparr>ln_TraceID = copy_bytes 16 (ol_TraceId l), ln_SpanID = copy_bytes 8 (ol_SpanId l),
               ln_Attrs = convertAttrs (ol_Attributes l)\<rparr>) lnks"

section \<open>Spans and requests\<close>

definition convertOTLPSpan :: "resource option \<Rightarrow> scope option \<Rightarrow> otlp_span \<Rightarrow> cause + span" where
  "convertOTLPSpan res sc sp =
     (case convertTraceID (ot_TraceId sp) of
        Inl e \<Rightarrow> Inl (InSpan (ot_Name sp) e)
      | Inr traceID \<Rightarrow>
        (case convertSpanID (ot_SpanId sp) of
           Inl e \<Rightarrow> Inl (InSpan (ot_Name sp) e)
         | Inr spanID \<Rightarrow>
           (case (if length (ot_ParentSpanId sp) > 0 then convertSpanID (ot_ParentSpanId sp) else Inr no_span) of
              Inl e \<Rightarrow> Inl (InSpan (ot_Name sp) (InField ''parent_span_id'' e))
            | Inr parentID \<Rightarrow>
                Inr \<lparr>sp_TraceID = traceID, sp_SpanID = spanID, sp_ParentSpanID = parentID,
                     sp_TraceState = ot_TraceState sp, sp_Flags = ot_Flags sp, sp_Name = ot_Name sp,
                     sp_Kind = kind_of (ot_Kind sp), sp_StartUnixNano = ot_StartTimeUnixNano sp,
                     sp_EndUnixNano = ot_EndTimeUnixNano sp, sp_Status = convertStatus (ot_Status sp),
                     sp_Attrs = convertAttrs (ot_Attributes sp), sp_Resource = res, sp_Scope = sc,
                     sp_Events = convertEvents (ot_Events sp), sp_Links = convertLinks (ot_Links sp),
                     sp_DroppedAttrsCount = ot_DroppedAttributesCount sp,
                     sp_DroppedEventsCount = ot_DroppedEventsCount sp,
                     sp_DroppedLinksCount = ot_DroppedLinksCount sp, sp_Tenant = [],
                     sp_SourceFormat = SourceOTLP, sp_ReceivedUnixNano = 0, sp_SizeBytes = 0,
                     sp_Truncated = False\<rparr>)))"

text \<open>The nested loops: stop at the first span that is refused.\<close>

fun convert_all :: "('a \<Rightarrow> 'e + 'b) \<Rightarrow> 'a list \<Rightarrow> 'e + 'b list" where
  "convert_all f [] = Inr []"
| "convert_all f (x # xs) =
     (case f x of
        Inl e \<Rightarrow> Inl e
      | Inr y \<Rightarrow> (case convert_all f xs of Inl e \<Rightarrow> Inl e | Inr ys \<Rightarrow> Inr (y # ys)))"

definition request_spans :: "otlp_request \<Rightarrow> (resource option \<times> scope option \<times> otlp_span) list" where
  "request_spans req =
     concat (map (\<lambda>rs. concat (map (\<lambda>ss.
       map (\<lambda>sp. (convertResource (ors_Resource rs), convertScope (oss_Scope ss), sp)) (oss_Spans ss))
       (ors_ScopeSpans rs))) req)"

definition OTLPNormalize :: "(otlp_request \<Rightarrow> int) \<Rightarrow> otlp_request \<Rightarrow> cause + batch" where
  "OTLPNormalize proto_Size req =
     (case convert_all (\<lambda>(res, sc, sp). convertOTLPSpan res sc sp) (request_spans req) of
        Inl e \<Rightarrow> Inl e
      | Inr spans \<Rightarrow>
          Inr \<lparr>ba_Tenant = [], ba_Spans = spans, ba_SourceFormat = SourceOTLP, ba_ReceivedUnixNano = 0,
               ba_SourceAddr = [], ba_SizeBytes = word_of_int (proto_Size req)\<rparr>)"

end
