(* ===== verification/IngestZipkin.thy ===== *)
theory IngestZipkin
  imports IngestOTLP
begin

text \<open>
  internal/ingest/zipkin_normalize.go.  Decoding JSON text into the span structure
  (\<open>json.Unmarshal\<close>) is a pair of arguments: one for an array, one for a single object.
  Strings are byte strings; \<open>strings.TrimSpace\<close> is only used to look at the first byte that is
  not white space, so only its effect on the left is modelled.
\<close>

record zipkin_span =
  zs_TraceID :: string
  zs_ID :: string
  zs_ParentID :: string
  zs_Name :: string
  zs_Kind :: string
  zs_Timestamp :: "64 word"
  zs_Duration :: "64 word"
  zs_LocalEndpoint :: "string option"
  zs_Tags :: "(string \<times> string) list"
  zs_Debug :: bool

section \<open>White space\<close>

text \<open>The UTF-8 encodings of the code points Go counts as white space.\<close>

definition is_space_byte :: "char \<Rightarrow> bool" where
  "is_space_byte c = (c \<in> {CHR 0x09, CHR 0x0A, CHR 0x0B, CHR 0x0C, CHR 0x0D, CHR 0x20})"

definition is_space2 :: "char \<Rightarrow> char \<Rightarrow> bool" where
  "is_space2 a b = (a = CHR 0xC2 \<and> (b = CHR 0x85 \<or> b = CHR 0xA0))"

definition is_space3 :: "char \<Rightarrow> char \<Rightarrow> char \<Rightarrow> bool" where
  "is_space3 a b c =
     (a = CHR 0xE1 \<and> b = CHR 0x9A \<and> c = CHR 0x80
      \<or> a = CHR 0xE2 \<and> b = CHR 0x80 \<and> (of_char c \<in> {0x80..0x8A :: nat} \<or> c = CHR 0xA8 \<or> c = CHR 0xA9 \<or> c = CHR 0xAF)
      \<or> a = CHR 0xE2 \<and> b = CHR 0x81 \<and> c = CHR 0x9F
      \<or> a = CHR 0xE3 \<and> b = CHR 0x80 \<and> c = CHR 0x80)"

fun trim_left :: "string \<Rightarrow> string" where
  "trim_left (a # b # c # s) =
     (if is_space_byte a then trim_left (b # c # s)
      else if is_space2 a b then trim_left (c # s)
      else if is_space3 a b c then trim_left s
      else a # b # c # s)"
| "trim_left [a, b] =
     (if is_space_byte a then trim_left [b] else if is_space2 a b then [] else [a, b])"
| "trim_left [a] = (if is_space_byte a then [] else [a])"
| "trim_left [] = []"

section \<open>encoding/hex\<close>

definition hex_value :: "char \<Rightarrow> nat option" where
  "hex_value c =
     (let n = of_char c :: nat in
      if 48 \<le> n \<and> n \<le> 57 then Some (n - 48)
      else if 97 \<le> n \<and> n \<le> 102 then Some (n - 87)
      else if 65 \<le> n \<and> n \<le> 70 then Some (n - 55)
      else None)"

text \<open>\<open>hex.DecodeString\<close> on a string of even length; the error names the first invalid byte.\<close>

fun hex_decode :: "string \<Rightarrow> cause + string" where
  "hex_decode (a # b # s) =
     (case hex_value a of
        None \<Rightarrow> Inl (InvalidHexByte a)
      | Some x \<Rightarrow>
        (case hex_value b of
           None \<Rightarrow> Inl (InvalidHexByte b)
         | Some y \<Rightarrow>
           (case hex_decode s of Inl e \<Rightarrow> Inl e | Inr bs \<Rightarrow> Inr (char_of (16 * x + y) # bs))))"
| "hex_decode [a] = Inl (case hex_value a of None \<Rightarrow> InvalidHexByte a | Some _ \<Rightarrow> LibraryError ''odd length hex string'')"
| "hex_decode [] = Inr []"

definition zipkinHexToTraceID :: "string \<Rightarrow> cause + trace_id" where
  "zipkinHexToTraceID s =
     (if length s = 32 then
        (case hex_decode s of
           Inl e \<Rightarrow> Inl e
         | Inr b \<Rightarrow> if b = no_trace then Inl AllZero else Inr b)
      else if length s = 16 then
        (case hex_decode s of
           Inl e \<Rightarrow> Inl e
         | Inr b \<Rightarrow> (let i = replicate 8 (CHR 0x00) @ b in if i = no_trace then Inl AllZero else Inr i))
      else Inl (WantHexChars (int (length s))))"

definition zipkinHexToSpanID :: "string \<Rightarrow> cause + span_id" where
  "zipkinHexToSpanID s =
     (if length s \<noteq> 16 then Inl (WantHexChars (int (length s)))
      else case hex_decode s of
        Inl e \<Rightarrow> Inl e
      | Inr b \<Rightarrow> if b = no_span then Inl AllZero else Inr b)"

section \<open>Spans\<close>

definition zipkinSpanKind :: "string \<Rightarrow> span_kind" where
  "zipkinSpanKind k =
     (if k = ''CLIENT'' then SpanKindClient else if k = ''SERVER'' then SpanKindServer
      else if k = ''PRODUCER'' then SpanKindProducer else if k = ''CONSUMER'' then SpanKindConsumer
      else SpanKindUnspecified)"

definition zipkin_attrs :: "(string \<times> string) list \<Rightarrow> attr_map" where
  "zipkin_attrs tags = map (\<lambda>(k, v). (k, AttrValue AttrStr v 0 0 [] [] [])) tags"

definition zipkin_resource :: "string option \<Rightarrow> resource option" where
  "zipkin_resource ep =
     (case ep of
        None \<Rightarrow> None
      | Some svc \<Rightarrow>
          if svc \<noteq> [] then
            Some \<lparr>res_ID = [], res_ServiceName = svc, res_ServiceVersion = [], res_Namespace = [], res_Env = [],
                  res_Attrs = []\<rparr>
          else None)"

definition convertZipkinSpan :: "zipkin_span \<Rightarrow> cause + span" where
  "convertZipkinSpan zs =
     (case zipkinHexToTraceID (zs_TraceID zs) of
        Inl e \<Rightarrow> Inl (InField ''traceId'' e)
      | Inr traceID \<Rightarrow>
        (case zipkinHexToSpanID (zs_ID zs) of
           Inl e \<Rightarrow> Inl (InField ''id'' e)
         | Inr spanID \<Rightarrow>
           (case (if zs_ParentID zs \<noteq> [] then zipkinHexToSpanID (zs_ParentID zs) else Inr no_span) of
              Inl e \<Rightarrow> Inl (InField ''parentId'' e)
            | Inr parentID \<Rightarrow>
                (let startNanos = zs_Timestamp zs * 1000;
                     endNanos = startNanos + zs_Duration zs * 1000;
                     flags = (if zs_Debug zs then 1 else 0)
                 in Inr \<lparr>sp_TraceID = traceID, sp_SpanID = spanID, sp_ParentSpanID = parentID,
                     sp_TraceState = [], sp_Flags = flags, sp_Name = zs_Name zs,
                     sp_Kind = zipkinSpanKind (zs_Kind zs), sp_StartUnixNano = startNanos,
                     sp_EndUnixNano = endNanos, sp_Status = \<lparr>st_Code = StatusUnset, st_Message = []\<rparr>,
                     sp_Attrs = zipkin_attrs (zs_Tags zs), sp_Resource = zipkin_resource (zs_LocalEndpoint zs),
                     sp_Scope = None, sp_Events = [], sp_Links = [],
                     sp_DroppedAttrsCount = 0, sp_DroppedEventsCount = 0, sp_DroppedLinksCount = 0,
                     sp_Tenant = [], sp_SourceFormat = SourceZipkinV2, sp_ReceivedUnixNano = 0,
                     sp_SizeBytes = 0, sp_Truncated = False\<rparr>))))"

section \<open>The body\<close>

definition parseZipkinJSON ::
  "(string \<Rightarrow> string + zipkin_span list) \<Rightarrow> (string \<Rightarrow> string + zipkin_span) \<Rightarrow> string
    \<Rightarrow> cause + zipkin_span list" where
  "parseZipkinJSON json_array json_object body =
     (let trimmed = trim_left body in
      if trimmed = [] then Inl EmptyBody
      else if hd trimmed = CHR ''['' then
        (case json_array body of
           Inl e \<Rightarrow> Inl (InField ''decode zipkin span array'' (LibraryError e))
         | Inr spans \<Rightarrow> Inr spans)
      else
        (case json_object body of
           Inl e \<Rightarrow> Inl (InField ''decode zipkin span'' (LibraryError e))
         | Inr one \<Rightarrow> Inr [one]))"

definition ZipkinNormalize ::
  "(string \<Rightarrow> string + zipkin_span list) \<Rightarrow> (string \<Rightarrow> string + zipkin_span) \<Rightarrow> string \<Rightarrow> cause + batch" where
  "ZipkinNormalize json_array json_object body =
     (case parseZipkinJSON json_array json_object body of
        Inl e \<Rightarrow> Inl e
      | Inr spans \<Rightarrow>
        (case convert_all (\<lambda>zs. map_sum (InSpan (zs_ID zs)) (\<lambda>sp. sp) (convertZipkinSpan zs)) spans of
           Inl e \<Rightarrow> Inl e
         | Inr out \<Rightarrow>
             Inr \<lparr>ba_Tenant = [], ba_Spans = out, ba_SourceFormat = SourceZipkinV2, ba_ReceivedUnixNano = 0,
                  ba_SourceAddr = [], ba_SizeBytes = word_of_nat (length body)\<rparr>))"

section \<open>B3 headers\<close>

text \<open>\<open>strings.Split(s, "-")\<close>, and \<open>headers[name]\<close> with the empty string for a missing header.\<close>

fun split_dash :: "string \<Rightarrow> string list" where
  "split_dash [] = [[]]"
| "split_dash (c # s) =
     (if c = CHR ''-'' then [] # split_dash s
      else (case split_dash s of p # ps \<Rightarrow> (c # p) # ps | [] \<Rightarrow> [[c]]))"

definition header :: "(string \<times> string) list \<Rightarrow> string \<Rightarrow> string" where
  "header hs name = (case map_of hs name of Some v \<Rightarrow> v | None \<Rightarrow> [])"

definition parse_bool :: "string \<Rightarrow> bool option" where
  "parse_bool s =
     (if s \<in> {''1'', ''t'', ''T'', ''TRUE'', ''true'', ''True''} then Some True
      else if s \<in> {''0'', ''f'', ''F'', ''FALSE'', ''false'', ''False''} then Some False
      else None)"

text \<open>
  \<open>strings.ToLower\<close> of a string of ASCII bytes; on other input Go also maps letters outside ASCII.
\<close>

definition lower_byte :: "char \<Rightarrow> char" where
  "lower_byte c = (let n = of_char c :: nat in if 65 \<le> n \<and> n \<le> 90 then char_of (n + 32) else c)"

datatype b3_error = B3MalformedHeader string | B3Missing | B3MalformedID int int

definition b3_fields :: "(string \<times> string) list \<Rightarrow> b3_error + string \<times> string \<times> string" where
  "b3_fields hs =
     (let b3 = header hs ''b3'' in
      if b3 \<noteq> [] then
        (let parts = split_dash b3 in
         if length parts < 2 then Inl (B3MalformedHeader b3)
         else Inr (parts ! 0, parts ! 1, if length parts \<ge> 3 then parts ! 2 else []))
      else Inr (header hs ''X-B3-TraceId'', header hs ''X-B3-SpanId'', header hs ''X-B3-Sampled''))"

definition B3HeadersToTraceParent :: "(string \<Rightarrow> string) \<Rightarrow> (string \<times> string) list \<Rightarrow> b3_error + string" where
  "B3HeadersToTraceParent to_lower hs =
     (case b3_fields hs of
        Inl e \<Rightarrow> Inl e
      | Inr (traceID0, spanID, sampled) \<Rightarrow>
          if traceID0 = [] \<or> spanID = [] then Inl B3Missing
          else
            (let traceID = (if length traceID0 = 16 then replicate 16 (CHR ''0'') @ traceID0 else traceID0)
             in if length traceID \<noteq> 32 \<or> length spanID \<noteq> 16
                then Inl (B3MalformedID (int (length traceID)) (int (length spanID)))
                else
                  (let flags = (if parse_bool sampled = Some True then ''01''
                                else if sampled = ''1'' then ''01'' else ''00'')
                   in Inr (''00-'' @ to_lower traceID @ ''-'' @ to_lower spanID @ ''-'' @ flags))))"

end
