(* ===== verification/IngestQueue.thy ===== *)
theory IngestQueue
  imports IngestModel
begin

text \<open>
  internal/ingest/queue.go: the bounded queue in front of a sink.

  A \<open>sink_queue\<close> holds the content of the channel, the byte counter, and in \<open>sq_delivered\<close> the
  batches handed to \<open>sink.Consume\<close> so far, whose errors the code discards.  The byte counter is an
  unbounded integer: it adds at most one \<open>uint32\<close> size per queued batch.  Here every operation is
  atomic; IngestQueueSteps takes them apart.
\<close>

record queued_batch =
  qb_tenant :: tenant_id
  qb_spans :: "span list"
  qb_bytes :: int

record sink_queue =
  sq_cfg :: queue_config
  sq_cap :: nat
  sq_ch :: "queued_batch list"
  sq_bytes :: int
  sq_delivered :: "(tenant_id \<times> span list) list"

definition newSinkQueue :: "queue_config \<Rightarrow> sink_queue" where
  "newSinkQueue cfg =
     \<lparr>sq_cfg = cfg, sq_cap = (if qc_Capacity cfg \<le> 0 then 1 else nat (qc_Capacity cfg)), sq_ch = [],
      sq_bytes = 0, sq_delivered = []\<rparr>"

definition no_byte_room :: "sink_queue \<Rightarrow> queued_batch \<Rightarrow> bool" where
  "no_byte_room q b =
     (qc_MaxBytes (sq_cfg q) > 0 \<and> sq_bytes q + qb_bytes b > qc_MaxBytes (sq_cfg q))"

definition tryEnqueue :: "queued_batch \<Rightarrow> sink_queue \<Rightarrow> bool \<times> sink_queue" where
  "tryEnqueue b q =
     (if no_byte_room q b then (False, q)
      else if length (sq_ch q) < sq_cap q
      then (True, q\<lparr>sq_ch := sq_ch q @ [b], sq_bytes := sq_bytes q + qb_bytes b\<rparr>)
      else (False, q))"

text \<open>
  While \<open>push\<close> waits, other goroutines change the queue; the wait ends with the timer or with the
  cancellation of the context.
\<close>

datatype wait = TimerFires sink_queue | CtxDone sink_queue string

definition queue_error :: "reject_reason \<Rightarrow> error" where
  "queue_error r = IngestErr \<lparr>ie_Reason = r, ie_Protocol = [], ie_Err = QueueFull\<rparr>"

definition push ::
  "(sink_queue \<Rightarrow> wait) \<Rightarrow> tenant_id \<Rightarrow> span list \<Rightarrow> 32 word \<Rightarrow> sink_queue \<Rightarrow> sink_queue \<times> error option" where
  "push w tid spans sizeBytes q =
     (let b = \<lparr>qb_tenant = tid, qb_spans = spans, qb_bytes = uint sizeBytes\<rparr>;
          (ok, q1) = tryEnqueue b q
      in if ok then (q1, None)
         else if qc_OverflowPolicy (sq_cfg q) = ''block_up_to_timeout'' \<and> qc_EnqueueTimeout (sq_cfg q) > 0 then
           (case w q1 of
              TimerFires q2 \<Rightarrow>
                (let (ok2, q3) = tryEnqueue b q2
                 in if ok2 then (q3, None) else (q3, Some (queue_error ReasonQueueFullAfterWait)))
            | CtxDone q2 e \<Rightarrow> (q2, Some (OtherErr e)))
         else (q1, Some (queue_error ReasonQueueFull)))"

definition consume :: "queued_batch \<Rightarrow> sink_queue \<Rightarrow> sink_queue" where
  "consume b q =
     q\<lparr>sq_bytes := sq_bytes q - qb_bytes b, sq_delivered := sq_delivered q @ [(qb_tenant b, qb_spans b)]\<rparr>"

text \<open>One round of the loop of \<open>drain\<close> that receives a batch.\<close>

definition drain_one :: "sink_queue \<Rightarrow> sink_queue" where
  "drain_one q = (case sq_ch q of [] \<Rightarrow> q | b # rest \<Rightarrow> consume b (q\<lparr>sq_ch := rest\<rparr>))"

function drainRemaining :: "sink_queue \<Rightarrow> sink_queue" where
  "drainRemaining q =
     (case sq_ch q of [] \<Rightarrow> q | b # rest \<Rightarrow> drainRemaining (consume b (q\<lparr>sq_ch := rest\<rparr>)))"
  by pat_completeness auto

termination
  by (relation "measure (length \<circ> sq_ch)") (auto simp: consume_def)

declare drainRemaining.simps [simp del]

section \<open>Functional facts\<close>

lemma drainRemaining_eq:
  "drainRemaining q =
     q\<lparr>sq_ch := [], sq_bytes := sq_bytes q - sum_list (map qb_bytes (sq_ch q)),
       sq_delivered := sq_delivered q @ map (\<lambda>b. (qb_tenant b, qb_spans b)) (sq_ch q)\<rparr>"
proof (induction q rule: drainRemaining.induct)
  case (1 q)
  show ?case
  proof (cases "sq_ch q")
    case Nil
    then show ?thesis by (cases q) (simp add: drainRemaining.simps)
  next
    case (Cons b rest)
    with 1 [OF Cons] show ?thesis
      by (subst drainRemaining.simps) (simp add: consume_def)
  qed
qed

lemma tryEnqueue_cases:
  obtains "tryEnqueue b q = (False, q)"
  | "tryEnqueue b q = (True, q\<lparr>sq_ch := sq_ch q @ [b], sq_bytes := sq_bytes q + qb_bytes b\<rparr>)"
    "\<not> no_byte_room q b" "length (sq_ch q) < sq_cap q"
  unfolding tryEnqueue_def by (cases "no_byte_room q b"; cases "length (sq_ch q) < sq_cap q"; simp)

end
