(* ===== verification/IngestServer.thy ===== *)
theory IngestServer
  imports IngestLimits IngestZipkin IngestQueue
begin

text \<open>
  internal/ingest/ingest.go and the handler of otlpgrpc.go: the pipeline from a request to the
  queues of the sinks.

  An \<open>ingest_deps\<close> value holds what the pipeline calls outside the package: the tenant resolver,
  one reading of the clock, the JSON decoder, the size of an encoded request, and for each queue
  what happens while a push waits.  The listener, the TLS set-up and the goroutines are not
  modelled.
\<close>

section \<open>The server\<close>

datatype raw = RawOTLP otlp_request | RawBytes string | RawOther

record ingest_deps =
  id_FromSubject :: "tenant_id \<Rightarrow> string + tenant_id"
  id_FromDevDefault :: "string + tenant_id"
  id_now :: gotime
  id_json_array :: "string \<Rightarrow> string + zipkin_span list"
  id_json_object :: "string \<Rightarrow> string + zipkin_span"
  id_proto_Size :: "otlp_request \<Rightarrow> int"
  id_wait :: "nat \<Rightarrow> sink_queue \<Rightarrow> wait"

record server =
  sv_cfg :: ingest_config
  sv_queues :: "sink_queue list"
  sv_metrics :: metrics

datatype new_error = NilClock | NilResolver | NoSinks

definition New_server :: "ingest_config \<Rightarrow> bool \<Rightarrow> bool \<Rightarrow> nat \<Rightarrow> new_error + server" where
  "New_server cfg clock_nil resolver_nil n_sinks =
     (if clock_nil then Inl NilClock
      else if resolver_nil then Inl NilResolver
      else if n_sinks = 0 then Inl NoSinks
      else Inr \<lparr>sv_cfg = cfg, sv_queues = replicate n_sinks (newSinkQueue (ic_Queue cfg)), sv_metrics = newMetrics\<rparr>)"

definition OTLP_normalizer :: "ingest_deps \<Rightarrow> raw \<Rightarrow> cause + batch" where
  "OTLP_normalizer d r =
     (case r of RawOTLP req \<Rightarrow> OTLPNormalize (id_proto_Size d) req | _ \<Rightarrow> Inl WrongInput)"

definition Zipkin_normalizer :: "ingest_deps \<Rightarrow> raw \<Rightarrow> cause + batch" where
  "Zipkin_normalizer d r =
     (case r of RawBytes body \<Rightarrow> ZipkinNormalize (id_json_array d) (id_json_object d) body | _ \<Rightarrow> Inl WrongInput)"

definition normalizers :: "ingest_deps \<Rightarrow> protocol \<Rightarrow> (raw \<Rightarrow> cause + batch) option" where
  "normalizers d p =
     (if p = ProtocolOTLPGRPC then Some (OTLP_normalizer d)
      else if p = ProtocolOTLPHTTP then Some (OTLP_normalizer d)
      else if p = ProtocolZipkin then Some (Zipkin_normalizer d)
      else None)"

section \<open>Ingest\<close>

definition rejected :: "protocol \<Rightarrow> reject_reason \<Rightarrow> int \<Rightarrow> server \<Rightarrow> server" where
  "rejected p r n sv = sv\<lparr>sv_metrics := spansRejected p r n (sv_metrics sv)\<rparr>"

text \<open>\<open>errors.As\<close> finds an \<open>IngestError\<close>: its reason is counted and the protocol written into it.\<close>

definition error_reason :: "reject_reason \<Rightarrow> error \<Rightarrow> reject_reason" where
  "error_reason dflt e = (case e of IngestErr ie \<Rightarrow> ie_Reason ie | OtherErr _ \<Rightarrow> dflt)"

definition with_protocol :: "protocol \<Rightarrow> error \<Rightarrow> error" where
  "with_protocol p e = (case e of IngestErr ie \<Rightarrow> IngestErr (ie\<lparr>ie_Protocol := p\<rparr>) | OtherErr s \<Rightarrow> OtherErr s)"

definition ingest_error :: "protocol \<Rightarrow> reject_reason \<Rightarrow> cause \<Rightarrow> error" where
  "ingest_error p r c = IngestErr \<lparr>ie_Reason = r, ie_Protocol = p, ie_Err = c\<rparr>"

definition stamp :: "tenant_id \<Rightarrow> batch \<Rightarrow> batch" where
  "stamp tid b =
     b\<lparr>ba_Tenant := tid,
       ba_Spans := map (\<lambda>s. s\<lparr>sp_Tenant := tid, sp_ReceivedUnixNano := ba_ReceivedUnixNano b\<rparr>) (ba_Spans b)\<rparr>"

text \<open>The fan-out stops at the first queue that refuses; the queues before it keep the batch.\<close>

fun fan_out ::
  "(nat \<Rightarrow> sink_queue \<Rightarrow> wait) \<Rightarrow> nat \<Rightarrow> tenant_id \<Rightarrow> span list \<Rightarrow> 32 word \<Rightarrow> sink_queue list
    \<Rightarrow> sink_queue list \<times> error option" where
  "fan_out w i tid spans sz [] = ([], None)"
| "fan_out w i tid spans sz (q # qs) =
     (case push (w i) tid spans sz q of
        (q', Some e) \<Rightarrow> (q' # qs, Some e)
      | (q', None) \<Rightarrow> (let (qs', e) = fan_out w (i + 1) tid spans sz qs in (q' # qs', e)))"

definition resolve :: "ingest_deps \<Rightarrow> bool \<Rightarrow> tenant_id \<Rightarrow> string + tenant_id" where
  "resolve d useDevDefault subjectTenant =
     (if useDevDefault then id_FromDevDefault d else id_FromSubject d subjectTenant)"

definition Ingest ::
  "ingest_deps \<Rightarrow> protocol \<Rightarrow> raw \<Rightarrow> tenant_id \<Rightarrow> bool \<Rightarrow> server \<Rightarrow> (error + batch) \<times> server" where
  "Ingest d protocol r subjectTenant useDevDefault sv =
     (case normalizers d protocol of
        None \<Rightarrow> (Inl (ingest_error protocol ReasonMalformed (NoNormalizer protocol)),
                 rejected protocol ReasonMalformed 1 sv)
      | Some nz \<Rightarrow>
        (case nz r of
           Inl c \<Rightarrow> (Inl (ingest_error protocol ReasonMalformed c), rejected protocol ReasonMalformed 1 sv)
         | Inr batch0 \<Rightarrow>
           (let sv1 = sv\<lparr>sv_metrics := batchReceived protocol (sv_metrics sv)\<rparr>;
                batch1 = batch0\<lparr>ba_ReceivedUnixNano := u64 (unix_nano (id_now d))\<rparr>
            in case applyLimits (ic_Limits (sv_cfg sv1)) batch1 of
                 (batch2, Some e) \<Rightarrow>
                   (Inl (with_protocol protocol e),
                    rejected protocol (error_reason ReasonOversize e) (int (length (ba_Spans batch2))) sv1)
               | (batch2, None) \<Rightarrow>
                 (case resolve d useDevDefault subjectTenant of
                    Inl e \<Rightarrow>
                      (Inl (ingest_error protocol ReasonUnauthenticated (LibraryError e)),
                       rejected protocol ReasonUnauthenticated (int (length (ba_Spans batch2))) sv1)
                  | Inr tenantID \<Rightarrow>
                      if tenantID = [] then
                        (Inl (ingest_error protocol ReasonUnauthenticated NoTenant),
                         rejected protocol ReasonUnauthenticated (int (length (ba_Spans batch2))) sv1)
                      else
                        (let b = stamp tenantID batch2
                         in case fan_out (id_wait d) 0 tenantID (ba_Spans b) (ba_SizeBytes b) (sv_queues sv1) of
                              (qs, Some e) \<Rightarrow>
                                (Inl (with_protocol protocol e),
                                 rejected protocol (error_reason ReasonQueueFull e) (int (length (ba_Spans b)))
                                   (sv1\<lparr>sv_queues := qs\<rparr>))
                            | (qs, None) \<Rightarrow>
                                (Inr b,
                                 sv1\<lparr>sv_queues := qs,
                                     sv_metrics := spansReceived protocol tenantID (int (length (ba_Spans b)))
                                       (sv_metrics sv1)\<rparr>))))))"

section \<open>The gRPC handler and the shutdown\<close>

definition subjectFromContext :: "string \<Rightarrow> tenant_id \<times> bool" where
  "subjectFromContext auth_mode = (if auth_mode = ''none'' then ([], True) else ([], False))"

definition Export :: "ingest_deps \<Rightarrow> otlp_request \<Rightarrow> server \<Rightarrow> grpc_code option \<times> server" where
  "Export d req sv =
     (let (subjectTenant, useDevDefault) = subjectFromContext (ic_AuthMode (sv_cfg sv))
      in case Ingest d ProtocolOTLPGRPC (RawOTLP req) subjectTenant useDevDefault sv of
           (Inl (IngestErr ie), sv') \<Rightarrow> (Some (GRPCStatus (ie_Reason ie)), sv')
         | (Inl (OtherErr e), sv') \<Rightarrow> (Some Internal, sv')
         | (Inr b, sv') \<Rightarrow> (None, sv'))"

text \<open>\<open>Stop\<close> with the receivers stopped: every drain goroutine flushes its queue before it returns.\<close>

definition Stop_server :: "server \<Rightarrow> server" where
  "Stop_server sv = sv\<lparr>sv_queues := map drainRemaining (sv_queues sv)\<rparr>"

end
