(* ===== verification/IngestProps.thy ===== *)
theory IngestProps
  imports IngestServer IngestLimits PathSignature
begin

text \<open>
  What \<open>applyLimits\<close> guarantees of the spans it lets through and reports of what it removed, what the pipeline guarantees
  of an accepted batch, what a refused one leaves behind, and the round trips of the identifiers and attribute values.
\<close>

section \<open>Attribute maps\<close>

definition attrs_ok :: "span \<Rightarrow> bool" where
  "attrs_ok sp = distinct (keys (sp_Attrs sp))"

lemma set_str_simps [simp]:
  "av_Kind (set_str v s) = av_Kind v" "av_Str (set_str v s) = s" "av_Bytes (set_str v s) = av_Bytes v"
  by (cases v; simp)+

lemma set_bytes_simps [simp]:
  "av_Kind (set_bytes v s) = av_Kind v" "av_Bytes (set_bytes v s) = s" "av_Str (set_bytes v s) = av_Str v"
  by (cases v; simp)+

text \<open>A value is text when its size can exceed a limit.\<close>

definition is_text :: "attr_value \<Rightarrow> bool" where
  "is_text v = (av_Kind v = AttrStr \<or> av_Kind v = AttrBytes)"

lemma truncate_size:
  "0 \<le> mx \<Longrightarrow> is_text v \<Longrightarrow> attrValueApproxBytes (truncateAttrValue v mx) \<le> mx"
  by (auto simp: truncateAttrValue_def attrValueApproxBytes_def is_text_def)

lemma truncate_text [simp]: "is_text (truncateAttrValue v mx) = is_text v"
  by (auto simp: truncateAttrValue_def is_text_def split: attr_kind.split)

lemma truncate_other: "\<not> is_text v \<Longrightarrow> truncateAttrValue v mx = v"
  by (auto simp: truncateAttrValue_def is_text_def split: attr_kind.split)

text \<open>The truncated value is the old one with a prefix of its text.\<close>

definition shortened :: "attr_value \<Rightarrow> attr_value \<Rightarrow> bool" where
  "shortened v v' = (v' = v \<or> (\<exists>n. av_Kind v = AttrStr \<and> v' = set_str v (take n (av_Str v)))
                        \<or> (\<exists>n. av_Kind v = AttrBytes \<and> v' = set_bytes v (take n (av_Bytes v))))"

lemma shortened_truncate: "shortened v (truncateAttrValue v mx)"
  by (cases "av_Kind v") (auto simp: shortened_def truncateAttrValue_def)

section \<open>The cap on the number of attributes\<close>

lemma delete_filter: "AList.delete k xs = filter (\<lambda>x. fst x \<noteq> k) xs"
  by (auto simp: AList.delete_eq intro!: filter_cong)

lemma foldl_delete: "foldl (\<lambda>m k. AList.delete k m) xs ks = filter (\<lambda>x. fst x \<notin> set ks) xs"
  by (induction ks arbitrary: xs)
    (auto simp: AList.delete_eq filter_filter case_prod_beta intro!: filter_cong)

lemma length_filter_keys:
  assumes "distinct (keys xs)" and "distinct ks" and "set ks \<subseteq> set (keys xs)"
  shows "length (filter (\<lambda>x. fst x \<notin> set ks) xs) + length ks = length xs"
proof -
  have "set (filter (\<lambda>k. k \<in> set ks) (keys xs)) = set ks" using assms(3) by auto
  then have "length (filter (\<lambda>k. k \<in> set ks) (keys xs)) = length ks"
    using assms(1,2) by (metis distinct_card distinct_filter)
  moreover have "length (filter (\<lambda>k. k \<in> set ks) (keys xs)) + length (filter (\<lambda>k. k \<notin> set ks) (keys xs)) = length xs"
    using sum_length_filter_compl [of "\<lambda>k. k \<in> set ks" "keys xs"] by simp
  moreover have "length (filter (\<lambda>k. k \<notin> set ks) (keys xs)) = length (filter (\<lambda>x. fst x \<notin> set ks) xs)"
    by (simp add: filter_map comp_def case_prod_beta)
  ultimately show ?thesis by simp
qed

lemma dropped_keys_ok:
  assumes "distinct (keys attrs)"
  shows "distinct (dropped_keys lc attrs)" and "set (dropped_keys lc attrs) \<subseteq> set (keys attrs)"
    and "length (dropped_keys lc attrs) = length attrs - nat (lc_MaxAttributesPerSpan lc)"
  using assms by (auto simp: dropped_keys_def dest: in_set_dropD)

text \<open>The keys of one span's attributes, before and after, and the count of what was dropped.\<close>

definition other_fields :: "span \<Rightarrow> span" where
  "other_fields sp = sp\<lparr>sp_Attrs := [], sp_DroppedAttrsCount := 0, sp_Truncated := False\<rparr>"

definition accounted :: "span \<Rightarrow> span \<Rightarrow> bool" where
  "accounted sp sp' =
     (attrs_ok sp' \<and> set (keys (sp_Attrs sp')) \<subseteq> set (keys (sp_Attrs sp))
      \<and> length (sp_Attrs sp') \<le> length (sp_Attrs sp)
      \<and> sp_DroppedAttrsCount sp' = sp_DroppedAttrsCount sp + word_of_nat (length (sp_Attrs sp) - length (sp_Attrs sp'))
      \<and> (\<forall>k v'. map_of (sp_Attrs sp') k = Some v' \<longrightarrow> (\<exists>v. map_of (sp_Attrs sp) k = Some v \<and> shortened v v'))
      \<and> (sp_Attrs sp' \<noteq> sp_Attrs sp \<longrightarrow> sp_Truncated sp')
      \<and> other_fields sp' = other_fields sp)"

lemma shortened_refl [simp]: "shortened v v"
  by (simp add: shortened_def)

lemma set_str_twice [simp]: "set_str (set_str v s) t = set_str v t" "set_bytes (set_bytes v s) t = set_bytes v t"
  by (cases v; simp)+

lemma shortened_trans: "shortened u v \<Longrightarrow> shortened v w \<Longrightarrow> shortened u w"
  by (auto simp: shortened_def)

lemma accounted_refl: "attrs_ok sp \<Longrightarrow> accounted sp sp"
  by (simp add: accounted_def)

lemma accounted_trans:
  assumes "accounted sp sp1" and "accounted sp1 sp2" and "sp_Truncated sp1 \<Longrightarrow> sp_Truncated sp2"
  shows "accounted sp sp2"
proof -
  have "length (sp_Attrs sp) - length (sp_Attrs sp1) + (length (sp_Attrs sp1) - length (sp_Attrs sp2))
      = length (sp_Attrs sp) - length (sp_Attrs sp2)"
    using assms by (simp add: accounted_def)
  then have "sp_DroppedAttrsCount sp2 = sp_DroppedAttrsCount sp + word_of_nat (length (sp_Attrs sp) - length (sp_Attrs sp2))"
    using assms by (simp add: accounted_def add.assoc flip: of_nat_add)
  moreover have "\<exists>v. map_of (sp_Attrs sp) k = Some v \<and> shortened v w" if "map_of (sp_Attrs sp2) k = Some w" for k w
    using that assms unfolding accounted_def by (meson shortened_trans)
  moreover have "sp_Attrs sp2 \<noteq> sp_Attrs sp \<longrightarrow> sp_Truncated sp2"
    using assms unfolding accounted_def by metis
  moreover have "set (keys (sp_Attrs sp2)) \<subseteq> set (keys (sp_Attrs sp))"
    using assms unfolding accounted_def by blast
  ultimately show ?thesis using assms by (simp add: accounted_def)
qed

lemma accounted_cap_count:
  assumes "attrs_ok sp"
  shows "accounted sp (cap_count lc sp)"
    and "lc_MaxAttributesPerSpan lc > 0 \<Longrightarrow> int (length (sp_Attrs (cap_count lc sp))) \<le> lc_MaxAttributesPerSpan lc"
proof -
  let ?ks = "dropped_keys lc (sp_Attrs sp)"
  define a where "a = filter (\<lambda>x. fst x \<notin> set ?ks) (sp_Attrs sp)"
  note ks = dropped_keys_ok [OF assms [unfolded attrs_ok_def], of lc]
  have len: "length a + length ?ks = length (sp_Attrs sp)"
    unfolding a_def using assms [unfolded attrs_ok_def] ks(1,2) by (rule length_filter_keys)
  show "accounted sp (cap_count lc sp)"
  proof (cases "over_count lc (sp_Attrs sp)")
    case True
    have c: "cap_count lc sp = sp\<lparr>sp_Attrs := a, sp_DroppedAttrsCount := sp_DroppedAttrsCount sp + word_of_nat (length ?ks),
        sp_Truncated := True\<rparr>"
      using True by (simp add: cap_count_def Let_def foldl_delete a_def)
    have d: "distinct (keys a)" using assms by (simp add: a_def attrs_ok_def distinct_map_filter)
    have "map_of (sp_Attrs sp) k = Some v" if "map_of a k = Some v" for k v
      using that assms by (auto simp: a_def attrs_ok_def dest!: map_of_SomeD)
    moreover have "length ?ks = length (sp_Attrs sp) - length a" using len by simp
    ultimately show ?thesis
      using d len by (auto simp: accounted_def c attrs_ok_def a_def other_fields_def)
  qed (simp add: cap_count_def accounted_refl assms)
  show "int (length (sp_Attrs (cap_count lc sp))) \<le> lc_MaxAttributesPerSpan lc" if "lc_MaxAttributesPerSpan lc > 0"
    using that len ks(3) by (auto simp: cap_count_def Let_def foldl_delete over_count_def simp flip: a_def)
qed

text \<open>What the size loop leaves in the span for the keys it visited and for the others.\<close>

definition attr_fits :: "limits_config \<Rightarrow> string \<Rightarrow> attr_value \<Rightarrow> bool" where
  "attr_fits lc k v = (\<not> oversizeKey lc k \<and> (is_text v \<longrightarrow> \<not> oversizeVal lc v))"

lemma cap_sizes_accounted:
  "cap_sizes lc rest sp = (sp', e) \<Longrightarrow> attrs_ok sp \<Longrightarrow> distinct (keys rest)
     \<Longrightarrow> \<forall>(k, v) \<in> set rest. map_of (sp_Attrs sp) k = Some v
     \<Longrightarrow> accounted sp sp' \<and> (sp_Truncated sp \<longrightarrow> sp_Truncated sp')
       \<and> (\<forall>k. k \<notin> set (keys rest) \<longrightarrow> map_of (sp_Attrs sp') k = map_of (sp_Attrs sp) k)
       \<and> (e = None \<longrightarrow> (\<forall>k \<in> set (keys rest). \<forall>v. map_of (sp_Attrs sp') k = Some v \<longrightarrow> attr_fits lc k v))"
proof (induction lc rest sp rule: cap_sizes.induct)
  case (1 lc sp)
  then show ?case by (simp add: accounted_refl)
next
  case (2 lc k v rest sp)
  have kv: "map_of (sp_Attrs sp) k = Some v" and fresh: "k \<notin> set (keys rest)" and d: "distinct (keys rest)"
    and rest: "\<forall>(k, v) \<in> set rest. map_of (sp_Attrs sp) k = Some v"
    using 2(5-7) by auto
  have ne: "k' \<noteq> k" if "(k', v') \<in> set rest" for k' v' using that fresh by force
  consider (small) "\<not> oversizeKey lc k \<and> \<not> oversizeVal lc v"
    | (reject) "oversizeKey lc k \<or> oversizeVal lc v" "lc_OversizeAttr lc = ''reject''"
    | (key) "oversizeKey lc k" "lc_OversizeAttr lc \<noteq> ''reject''"
    | (val) "\<not> oversizeKey lc k" "oversizeVal lc v" "lc_OversizeAttr lc \<noteq> ''reject''"
    by blast
  then show ?case
  proof cases
    case small
    then have "cap_sizes lc rest sp = (sp', e)" using 2(4) by simp
    from 2(1) [OF _ this 2(5) d rest] small kv fresh show ?thesis by (auto simp: attr_fits_def)
  next
    case reject
    then show ?thesis using 2(4,5) by (auto simp: accounted_refl)
  next
    case key
    define sp1 where "sp1 = sp\<lparr>sp_Attrs := AList.delete k (sp_Attrs sp),
        sp_DroppedAttrsCount := sp_DroppedAttrsCount sp + 1, sp_Truncated := True\<rparr>"
    have run: "cap_sizes lc rest sp1 = (sp', e)" using key 2(4) by (simp add: sp1_def)
    have ok1: "attrs_ok sp1" using 2(5) by (simp add: attrs_ok_def sp1_def)
    have rest1: "\<forall>(k, v) \<in> set rest. map_of (sp_Attrs sp1) k = Some v" using rest ne by (auto simp: sp1_def)
    have k: "k \<in> set (keys (sp_Attrs sp))" using kv by (force dest: map_of_SomeD)
    then have "length (AList.delete k (sp_Attrs sp)) + 1 = length (sp_Attrs sp)"
      using length_filter_keys [of "sp_Attrs sp" "[k]"] 2(5) by (simp add: attrs_ok_def delete_filter)
    then have "length (sp_Attrs sp) - length (AList.delete k (sp_Attrs sp)) = 1" by simp
    then have "accounted sp sp1"
      using ok1 unfolding accounted_def
      by (auto simp: sp1_def attrs_ok_def AList.delete_keys other_fields_def length_delete_le split: if_splits
          simp del: of_nat_diff)
    with 2(2) [folded sp1_def, OF _ _ _ run ok1 d rest1] key kv fresh show ?thesis
      by (auto simp: sp1_def intro: accounted_trans)
  next
    case val
    define v1 where "v1 = truncateAttrValue v (lc_MaxAttributeValueBytes lc)"
    define sp1 where "sp1 = sp\<lparr>sp_Attrs := AList.update k v1 (sp_Attrs sp), sp_Truncated := True\<rparr>"
    have run: "cap_sizes lc rest sp1 = (sp', e)" using val 2(4) by (simp add: sp1_def v1_def)
    have ok1: "attrs_ok sp1" using 2(5) by (simp add: attrs_ok_def sp1_def)
    have rest1: "\<forall>(k, v) \<in> set rest. map_of (sp_Attrs sp1) k = Some v" using rest ne by (auto simp: sp1_def)
    have sh: "shortened v v1" unfolding v1_def by (rule shortened_truncate)
    have "accounted sp sp1"
      using ok1 kv sh unfolding accounted_def
      by (auto simp: sp1_def attrs_ok_def other_fields_def split: if_splits)
    moreover have "attr_fits lc k v1"
      using val truncate_size [of "lc_MaxAttributeValueBytes lc" v]
      by (auto simp: attr_fits_def oversizeVal_def v1_def)
    ultimately show ?thesis
      using 2(3) [folded v1_def, folded sp1_def, OF _ _ _ run ok1 d rest1] val kv fresh
      by (auto simp: sp1_def intro: accounted_trans)
  qed
qed

section \<open>A span\<close>

lemma applySpanLimits_accounted:
  assumes run: "applySpanLimits lc sp = (sp', e)" and ok: "attrs_ok sp"
  shows "accounted sp sp'"
    and "e = None \<Longrightarrow> lc_MaxAttributesPerSpan lc > 0 \<Longrightarrow> int (length (sp_Attrs sp')) \<le> lc_MaxAttributesPerSpan lc"
    and "e = None \<Longrightarrow> (k, v) \<in> set (sp_Attrs sp') \<Longrightarrow> attr_fits lc k v"
proof -
  let ?sp1 = "cap_count lc sp"
  note cap = accounted_cap_count [OF ok, of lc]
  have "accounted sp sp'
    \<and> (e = None \<longrightarrow> lc_MaxAttributesPerSpan lc > 0 \<longrightarrow> int (length (sp_Attrs sp')) \<le> lc_MaxAttributesPerSpan lc)
    \<and> (e = None \<longrightarrow> (k, v) \<in> set (sp_Attrs sp') \<longrightarrow> attr_fits lc k v)"
  proof (cases "sp_Attrs sp = []")
    case True
    with run have "sp' = sp" by (simp add: applySpanLimits_def)
    with ok True show ?thesis by (simp add: accounted_refl)
  next
    case False
    with run have run: "cap_sizes lc (sp_Attrs ?sp1) ?sp1 = (sp', e)" by (simp add: applySpanLimits_def Let_def)
    have ok1: "attrs_ok ?sp1" using cap(1) by (simp add: accounted_def)
    then have "\<forall>(k, v) \<in> set (sp_Attrs ?sp1). map_of (sp_Attrs ?sp1) k = Some v"
      by (auto simp: attrs_ok_def intro: map_of_is_SomeI)
    note sizes = cap_sizes_accounted [OF run ok1 ok1 [unfolded attrs_ok_def] this]
    have s: "accounted ?sp1 sp'" "sp_Truncated ?sp1 \<longrightarrow> sp_Truncated sp'"
      "e = None \<longrightarrow> (\<forall>k \<in> set (keys (sp_Attrs ?sp1)). \<forall>v. map_of (sp_Attrs sp') k = Some v \<longrightarrow> attr_fits lc k v)"
      by (rule sizes [THEN conjunct1], rule sizes [THEN conjunct2, THEN conjunct1],
          rule sizes [THEN conjunct2, THEN conjunct2, THEN conjunct2])
    have acc: "accounted sp sp'" using cap(1) s by (blast intro: accounted_trans)
    have "length (sp_Attrs sp') \<le> length (sp_Attrs ?sp1)" using s(1) by (simp add: accounted_def)
    moreover have "attr_fits lc k v" if "e = None" "(k, v) \<in> set (sp_Attrs sp')"
    proof -
      have "map_of (sp_Attrs sp') k = Some v" using that(2) acc by (simp add: accounted_def attrs_ok_def)
      moreover have "k \<in> set (keys (sp_Attrs ?sp1))" using that(2) s(1) by (force simp: accounted_def)
      ultimately show ?thesis using s(3) that(1) by blast
    qed
    moreover have "lc_MaxAttributesPerSpan lc > 0 \<longrightarrow> int (length (sp_Attrs sp')) \<le> lc_MaxAttributesPerSpan lc"
      using calculation(1) cap(2) by force
    ultimately show ?thesis using acc by blast
  qed
  then show "accounted sp sp'"
    "e = None \<Longrightarrow> lc_MaxAttributesPerSpan lc > 0 \<Longrightarrow> int (length (sp_Attrs sp')) \<le> lc_MaxAttributesPerSpan lc"
    "e = None \<Longrightarrow> (k, v) \<in> set (sp_Attrs sp') \<Longrightarrow> attr_fits lc k v"
    by blast+
qed

lemma limit_spans_all2:
  "limit_spans lc sps = (sps', e) \<Longrightarrow> \<forall>sp \<in> set sps. attrs_ok sp
     \<Longrightarrow> list_all2 accounted sps sps'
       \<and> (e = None \<longrightarrow> (\<forall>sp' \<in> set sps'. (lc_MaxAttributesPerSpan lc > 0 \<longrightarrow> int (length (sp_Attrs sp')) \<le> lc_MaxAttributesPerSpan lc)
            \<and> (\<forall>(k, v) \<in> set (sp_Attrs sp'). attr_fits lc k v)))"
proof (induction sps arbitrary: sps' e)
  case (Cons sp sps)
  obtain sp1 e1 where one: "applySpanLimits lc sp = (sp1, e1)" by force
  note acc = applySpanLimits_accounted [OF one]
  have refl: "list_all2 accounted sps sps" using Cons.prems(2) by (simp add: list_all2_same accounted_refl)
  show ?case
  proof (cases e1)
    case None
    obtain sps1 e2 where two: "limit_spans lc sps = (sps1, e2)" by force
    with one None Cons.prems have "sps' = sp1 # sps1" "e = e2" by auto
    with Cons.IH [OF two] Cons.prems(2) acc None show ?thesis by auto
  next
    case (Some x)
    with one Cons.prems refl acc show ?thesis by auto
  qed
qed simp

section \<open>A concrete batch\<close>

definition demo_limits :: limits_config where
  "demo_limits = \<lparr>lc_MaxAttributesPerSpan = 1, lc_MaxAttributeValueBytes = 3, lc_OversizeAttr = ''truncate'',
     lc_MaxAttributeKeyBytes = 8, lc_MaxSpansPerBatch = 10, lc_MaxRequestBytes = 100\<rparr>"

definition demo_text :: "string \<Rightarrow> attr_value" where
  "demo_text s = AttrValue AttrStr s 0 0 [] [] []"

definition demo_batch :: batch where
  "demo_batch = \<lparr>ba_Tenant = [],
     ba_Spans = [(mk_span ''aaaaaaaa'' no_span ''get'' 1)\<lparr>sp_Attrs := [(''b'', demo_text ''x''), (''a'', demo_text ''hello'')]\<rparr>],
     ba_SourceFormat = SourceOTLP, ba_ReceivedUnixNano = 0, ba_SourceAddr = [], ba_SizeBytes = 50\<rparr>"

lemma demo_sort: "sort [''b'', ''a''] = [''a'', ''b'']"
  by code_simp

lemma demo_limit:
  "snd (applyLimits demo_limits demo_batch) = None"
  by (simp add: applyLimits_def demo_limits_def demo_batch_def applySpanLimits_def cap_count_def over_count_def
      dropped_keys_def demo_sort demo_text_def oversizeKey_def oversizeVal_def attrValueApproxBytes_def Let_def
      split: prod.split)

lemma demo_batch_distinct: "\<forall>sp \<in> set (ba_Spans demo_batch). distinct (map fst (sp_Attrs sp))"
  by (simp add: demo_batch_def)

text \<open>C30. Limits are enforced: a batch that passes is no larger than the request limit and has no more
  spans than the batch limit, and each of its spans has at most the allowed number of attributes,
  no key over the key limit and no text or bytes value over the value limit (limits of zero or less
  are off).\<close>

theorem applyLimits_enforced:
  assumes "applyLimits lc b = (b', None)" and "\<forall>sp \<in> set (ba_Spans b). distinct (map fst (sp_Attrs sp))"
  shows "(0 < lc_MaxRequestBytes lc \<longrightarrow> uint (ba_SizeBytes b') \<le> lc_MaxRequestBytes lc)
    \<and> (0 < lc_MaxSpansPerBatch lc \<longrightarrow> int (length (ba_Spans b')) \<le> lc_MaxSpansPerBatch lc)
    \<and> (\<forall>sp \<in> set (ba_Spans b').
          (0 < lc_MaxAttributesPerSpan lc \<longrightarrow> int (length (sp_Attrs sp)) \<le> lc_MaxAttributesPerSpan lc)
          \<and> (\<forall>(k, v) \<in> set (sp_Attrs sp).
                (0 < lc_MaxAttributeKeyBytes lc \<longrightarrow> int (length k) \<le> lc_MaxAttributeKeyBytes lc)
                \<and> (0 < lc_MaxAttributeValueBytes lc \<and> av_Kind v \<in> {AttrStr, AttrBytes}
                     \<longrightarrow> attrValueApproxBytes v \<le> lc_MaxAttributeValueBytes lc)))"
proof -
  obtain sps where run: "limit_spans lc (ba_Spans b) = (sps, None)" and b': "b' = b\<lparr>ba_Spans := sps\<rparr>"
    and size: "\<not> (lc_MaxRequestBytes lc > 0 \<and> uint (ba_SizeBytes b) > lc_MaxRequestBytes lc)"
      "\<not> (lc_MaxSpansPerBatch lc > 0 \<and> int (length (ba_Spans b)) > lc_MaxSpansPerBatch lc)"
    using assms(1) by (auto simp: applyLimits_def Let_def split: if_splits prod.splits)
  note all = limit_spans_all2 [OF run, unfolded attrs_ok_def, OF assms(2)]
  then have len: "length sps = length (ba_Spans b)" by (auto dest: list_all2_lengthD)
  have cnt: "int (length (sp_Attrs sp)) \<le> lc_MaxAttributesPerSpan lc" if "sp \<in> set sps" "0 < lc_MaxAttributesPerSpan lc" for sp
    using all that by blast
  have fits: "attr_fits lc k v" if "sp \<in> set sps" "(k, v) \<in> set (sp_Attrs sp)" for sp k v
    using all that by blast
  have key: "int (length k) \<le> lc_MaxAttributeKeyBytes lc"
    if "sp \<in> set sps" "(k, v) \<in> set (sp_Attrs sp)" "0 < lc_MaxAttributeKeyBytes lc" for sp k v
    using fits [OF that(1,2)] that(3) by (simp add: attr_fits_def oversizeKey_def)
  have val: "attrValueApproxBytes v \<le> lc_MaxAttributeValueBytes lc"
    if "sp \<in> set sps" "(k, v) \<in> set (sp_Attrs sp)" "0 < lc_MaxAttributeValueBytes lc"
      "av_Kind v = AttrStr \<or> av_Kind v = AttrBytes" for sp k v
    using fits [OF that(1,2)] that(3,4) by (auto simp: attr_fits_def oversizeVal_def is_text_def)
  from size len show ?thesis unfolding b' by (auto simp: not_less intro: cnt key val)
qed

theorem applyLimits_enforced_witness:
  "list_all (\<lambda>sp. length (sp_Attrs sp) \<le> 1) (ba_Spans (fst (applyLimits demo_limits demo_batch)))"
proof -
  obtain b' where "applyLimits demo_limits demo_batch = (b', None)" using demo_limit by (metis prod.collapse)
  from applyLimits_enforced [OF this demo_batch_distinct] this show ?thesis by (simp add: demo_limits_def list_all_iff)
qed

text \<open>Nothing is removed silently: of each span the limits change nothing but the attributes, the
  dropped count and the truncation flag.  The attributes left are among the old ones, each value
  equal or a prefix of the old text; the dropped count grows by exactly the number of attributes
  removed (modulo 2 ^ 32); and a span whose attributes changed is marked truncated.  This holds for
  the spans already processed when a batch is rejected, too.\<close>

theorem applyLimits_accounts:
  assumes "applyLimits lc b = (b', e)" and "\<forall>sp \<in> set (ba_Spans b). distinct (map fst (sp_Attrs sp))"
  shows "list_all2 (\<lambda>sp sp'.
      other_fields sp' = other_fields sp
      \<and> (\<forall>k v'. map_of (sp_Attrs sp') k = Some v' \<longrightarrow> (\<exists>v. map_of (sp_Attrs sp) k = Some v \<and> shortened v v'))
      \<and> length (sp_Attrs sp') \<le> length (sp_Attrs sp)
      \<and> sp_DroppedAttrsCount sp' = sp_DroppedAttrsCount sp + word_of_nat (length (sp_Attrs sp) - length (sp_Attrs sp'))
      \<and> (sp_Attrs sp' \<noteq> sp_Attrs sp \<longrightarrow> sp_Truncated sp')) (ba_Spans b) (ba_Spans b')"
proof (rule list_all2_mono)
  obtain sps e' where run: "limit_spans lc (ba_Spans b) = (sps, e')" by force
  note acc = conjunct1 [OF limit_spans_all2 [OF run, unfolded attrs_ok_def, OF assms(2)]]
  have "list_all2 accounted (ba_Spans b) (ba_Spans b)"
    using assms(2) by (auto simp: list_all2_same attrs_ok_def intro: accounted_refl)
  with acc run show "list_all2 accounted (ba_Spans b) (ba_Spans b')"
    using assms(1) by (auto simp: applyLimits_def Let_def split: if_splits)
qed (auto simp: accounted_def)

theorem applyLimits_accounts_witness:
  "length (ba_Spans (fst (applyLimits demo_limits demo_batch))) = 1"
proof -
  obtain b' e where "applyLimits demo_limits demo_batch = (b', e)" by force
  from applyLimits_accounts [OF this demo_batch_distinct] this show ?thesis
    by (auto simp: demo_batch_def dest!: list_all2_lengthD)
qed


section \<open>Round trips\<close>

lemma hex_value_digit: "n < 16 \<Longrightarrow> hex_value (hex_digit n) = Some n"
  by (auto simp: hex_value_def hex_digit_def Let_def)

lemma of_char_less: "of_char c < (256 :: nat)"
  by (fact nat_of_char_less_256)

lemma hex_decode_encode: "hex_decode (hex_string bs) = Inr bs"
proof (induction bs)
  case (Cons c bs)
  have "of_char c div 16 < (16 :: nat)" using of_char_less [of c] by (simp add: less_mult_imp_div_less)
  moreover have "of_char c mod 16 < (16 :: nat)" by simp
  ultimately show ?case
    using Cons by (simp add: hex_string_def hex_byte_def Let_def hex_value_digit)
qed (simp add: hex_string_def hex_byte_def)

lemma length_hex_string [simp]: "length (hex_string bs) = 2 * length bs"
  by (induction bs) (simp_all add: hex_string_def hex_byte_def Let_def)

lemma hex_decode_length: "hex_decode s = Inr b \<Longrightarrow> 2 * length b = length s"
  by (induction s arbitrary: b rule: hex_decode.induct) (auto split: option.splits sum.splits)

lemma no_trace_length [simp]: "length no_trace = 16" and no_span_length [simp]: "length no_span = 8"
  by (simp_all add: no_trace_def no_span_def)

lemma collect_append: "distinct (keys (acc @ kvs)) \<Longrightarrow> foldl (\<lambda>m (k, v). AList.update k v m) acc kvs = acc @ kvs"
proof (induction kvs arbitrary: acc)
  case (Cons kv kvs)
  obtain k v where kv: "kv = (k, v)" by (cases kv)
  have "map_of acc k = None" using Cons.prems by (auto simp: kv map_of_eq_None_iff)
  then have "AList.update k v acc = acc @ [(k, v)]" by (rule update_absent)
  with Cons.IH [of "acc @ [(k, v)]"] Cons.prems show ?case by (simp add: kv)
qed simp

lemma collect_distinct: "distinct (keys kvs) \<Longrightarrow> collect kvs = kvs"
  using collect_append [of "[]" kvs] by (simp add: collect_def)

lemma distinct_foldl_update: "distinct (keys acc) \<Longrightarrow> distinct (keys (foldl (\<lambda>m (k, v). AList.update k v m) acc kvs))"
  by (induction kvs arbitrary: acc) (auto simp: distinct_update)

lemma distinct_collect [simp]: "distinct (keys (collect kvs))"
  by (simp add: collect_def distinct_foldl_update)

text \<open>The value an attribute was converted from.\<close>

fun otlp_of_attr :: "attr_value \<Rightarrow> otlp_any" where
  "otlp_of_attr (AttrValue AttrStr s n f b l m) = OtlpString s"
| "otlp_of_attr (AttrValue AttrBool s n f b l m) = OtlpBool (n \<noteq> 0)"
| "otlp_of_attr (AttrValue AttrInt s n f b l m) = OtlpInt n"
| "otlp_of_attr (AttrValue AttrFloat s n f b l m) = OtlpDouble f"
| "otlp_of_attr (AttrValue AttrBytes s n f b l m) = OtlpBytes b"
| "otlp_of_attr (AttrValue AttrSlice s n f b l m) = OtlpArray (map otlp_of_attr l)"
| "otlp_of_attr (AttrValue AttrMapK s n f b l m) = OtlpKvlist (map (\<lambda>(k, v). (k, otlp_of_attr v)) m)"

fun has_value :: "otlp_any \<Rightarrow> bool" where
  "has_value OtlpNone = False"
| "has_value (OtlpArray vs) = list_all has_value vs"
| "has_value (OtlpKvlist kvs) = (distinct (map fst kvs) \<and> list_all (\<lambda>(k, v). has_value v) kvs)"
| "has_value _ = True"

lemma keys_map_snd [simp]: "keys (map (\<lambda>(k, v). (k, f v)) kvs) = keys kvs"
  by (induction kvs) auto

lemma otlp_of_attr_convert: "has_value v \<Longrightarrow> otlp_of_attr (convertAnyValue v) = v"
proof (induction v rule: convertAnyValue.induct)
  case (7 vs)
  then show ?case by (auto simp: list_all_iff intro: map_idI)
next
  case (8 kvs)
  then have "map ((\<lambda>(k, v). (k, otlp_of_attr v)) \<circ> (\<lambda>(k, v). (k, convertAnyValue v))) kvs = kvs"
    by (intro map_idI) (auto simp: list_all_iff)
  moreover have "collect (map (\<lambda>(k, v). (k, convertAnyValue v)) kvs) = map (\<lambda>(k, v). (k, convertAnyValue v)) kvs"
    using 8 by (intro collect_distinct) (simp add: comp_def case_prod_beta)
  ultimately show ?case by simp
qed simp_all

text \<open>Identifiers survive: the hexadecimal form of any trace identifier of 16 bytes that is not all
  zero is read back as that identifier, the 64-bit form of 8 bytes as those bytes after 8 zero bytes,
  and the form of a span identifier of 8 bytes as that identifier; whatever is accepted has the right
  length and is not all zero.\<close>

theorem zipkin_ids_roundtrip:
  "(length i = 16 \<and> i \<noteq> no_trace \<longrightarrow> zipkinHexToTraceID (hex_string i) = Inr i)
   \<and> (length j = 8 \<and> j \<noteq> no_span \<longrightarrow> zipkinHexToTraceID (hex_string j) = Inr (replicate 8 (CHR 0x00) @ j)
        \<and> zipkinHexToSpanID (hex_string j) = Inr j)
   \<and> (zipkinHexToTraceID s = Inr t \<longrightarrow> length t = 16 \<and> t \<noteq> no_trace)
   \<and> (zipkinHexToSpanID s = Inr u \<longrightarrow> length u = 8 \<and> u \<noteq> no_span)"
proof (intro conjI impI)
  show "zipkinHexToTraceID (hex_string i) = Inr i" if "length i = 16 \<and> i \<noteq> no_trace"
    using that by (simp add: zipkinHexToTraceID_def hex_decode_encode)
  have z: "no_trace = replicate 8 (CHR 0x00) @ no_span"
    unfolding no_trace_def no_span_def replicate_add [symmetric] by simp
  have "replicate 8 (CHR 0x00) @ j \<noteq> no_trace" if "j \<noteq> no_span" unfolding z using that by simp
  then show "zipkinHexToTraceID (hex_string j) = Inr (replicate 8 (CHR 0x00) @ j)" if "length j = 8 \<and> j \<noteq> no_span"
    using that by (simp add: zipkinHexToTraceID_def hex_decode_encode Let_def)
  show "zipkinHexToSpanID (hex_string j) = Inr j" if "length j = 8 \<and> j \<noteq> no_span"
    using that by (simp add: zipkinHexToSpanID_def hex_decode_encode)
  show "length t = 16" "t \<noteq> no_trace" if "zipkinHexToTraceID s = Inr t"
    using that by (auto simp: zipkinHexToTraceID_def Let_def split: if_splits sum.splits dest: hex_decode_length)
  show "length u = 8" "u \<noteq> no_span" if "zipkinHexToSpanID s = Inr u"
    using that by (auto simp: zipkinHexToSpanID_def split: if_splits sum.splits dest: hex_decode_length)
qed

theorem zipkin_ids_roundtrip_witness: "zipkinHexToSpanID ''6162636465666768'' = Inr ''abcdefgh''"
proof -
  have "hex_string ''abcdefgh'' = ''6162636465666768''"
    by (simp add: hex_string_def hex_byte_def hex_digit_def char_of_def bit_Suc bit_0)
  moreover have "''abcdefgh'' \<noteq> no_span" by (simp add: no_span_def numeral_eq_Suc)
  ultimately show ?thesis using zipkin_ids_roundtrip [of no_trace "''abcdefgh''"] by simp
qed

text \<open>Attribute values survive normalization: every OTLP value, nested arrays and key-value lists
  included, can be read back from the attribute it is converted to, as long as it has a content
  everywhere and no key occurs twice in one key-value list.\<close>

theorem otlp_values_roundtrip:
  assumes "list_all (\<lambda>(k, v). has_value v) kvs" and "distinct (map fst kvs)"
  shows "map (\<lambda>(k, v). (k, otlp_of_attr v)) (convertAttrs kvs) = kvs"
proof -
  have "convertAttrs kvs = map (\<lambda>(k, v). (k, convertAnyValue v)) kvs"
    using assms(2) by (simp add: convertAttrs_def collect_distinct comp_def case_prod_beta)
  moreover have "map ((\<lambda>(k, v). (k, otlp_of_attr v)) \<circ> (\<lambda>(k, v). (k, convertAnyValue v))) kvs = kvs"
    using assms(1) by (intro map_idI) (auto simp: list_all_iff otlp_of_attr_convert)
  ultimately show ?thesis by simp
qed

theorem otlp_values_roundtrip_witness:
  "map (\<lambda>(k, v). (k, otlp_of_attr v)) (convertAttrs [(''a'', OtlpArray [OtlpInt 1, OtlpBool True])])
     = [(''a'', OtlpArray [OtlpInt 1, OtlpBool True])]"
  by (rule otlp_values_roundtrip) simp_all

section \<open>Accepted spans\<close>

definition valid_ids :: "span \<Rightarrow> bool" where
  "valid_ids s =
     (length (sp_TraceID s) = 16 \<and> sp_TraceID s \<noteq> no_trace \<and> length (sp_SpanID s) = 8 \<and> sp_SpanID s \<noteq> no_span
      \<and> length (sp_ParentSpanID s) = 8)"

lemma convert_all_Inr: "convert_all f xs = Inr ys \<Longrightarrow> list_all2 (\<lambda>x y. f x = Inr y) xs ys"
  by (induction xs arbitrary: ys) (auto split: sum.splits)

lemma list_all2_from: "list_all2 P xs ys \<Longrightarrow> y \<in> set ys \<Longrightarrow> \<exists>x \<in> set xs. P x y"
  by (induction rule: list_all2_induct) auto

lemma convert_all_set: "convert_all f xs = Inr ys \<Longrightarrow> y \<in> set ys \<Longrightarrow> \<exists>x \<in> set xs. f x = Inr y"
  by (drule convert_all_Inr) (rule list_all2_from)

lemma convertTraceID_valid: "convertTraceID b = Inr i \<Longrightarrow> length i = 16 \<and> i \<noteq> no_trace"
  by (auto simp: convertTraceID_def split: if_splits)

lemma convertSpanID_valid: "convertSpanID b = Inr i \<Longrightarrow> length i = 8 \<and> i \<noteq> no_span"
  by (auto simp: convertSpanID_def split: if_splits)

lemma convertOTLPSpan_valid:
  "convertOTLPSpan res sc sp = Inr s \<Longrightarrow> valid_ids s \<and> distinct (keys (sp_Attrs s))"
  by (auto simp: convertOTLPSpan_def valid_ids_def convertAttrs_def
      split: sum.splits if_splits dest: convertTraceID_valid convertSpanID_valid)

lemma zipkinTraceID_valid: "zipkinHexToTraceID s = Inr t \<Longrightarrow> length t = 16 \<and> t \<noteq> no_trace"
  by (auto simp: zipkinHexToTraceID_def Let_def split: if_splits sum.splits dest: hex_decode_length)

lemma zipkinSpanID_valid: "zipkinHexToSpanID s = Inr u \<Longrightarrow> length u = 8 \<and> u \<noteq> no_span"
  by (auto simp: zipkinHexToSpanID_def split: if_splits sum.splits dest: hex_decode_length)

lemma convertZipkinSpan_valid:
  "convertZipkinSpan zs = Inr s \<Longrightarrow> distinct (map fst (zs_Tags zs)) \<Longrightarrow> valid_ids s \<and> distinct (keys (sp_Attrs s))"
  by (auto simp: convertZipkinSpan_def valid_ids_def zipkin_attrs_def Let_def comp_def case_prod_beta
      split: sum.splits if_splits dest!: zipkinTraceID_valid zipkinSpanID_valid)

text \<open>A decoded JSON object has no key twice.\<close>

definition json_maps :: "ingest_deps \<Rightarrow> bool" where
  "json_maps d =
     ((\<forall>body zs. id_json_object d body = Inr zs \<longrightarrow> distinct (map fst (zs_Tags zs)))
      \<and> (\<forall>body l zs. id_json_array d body = Inr l \<and> zs \<in> set l \<longrightarrow> distinct (map fst (zs_Tags zs))))"

lemma normalized_valid:
  assumes d: "json_maps d" and n: "normalizers d p = Some f" "f r = Inr b" and s: "s \<in> set (ba_Spans b)"
  shows "valid_ids s \<and> distinct (keys (sp_Attrs s))"
proof -
  consider (otlp) "OTLP_normalizer d r = Inr b" | (zipkin) "Zipkin_normalizer d r = Inr b"
    using n by (auto simp: normalizers_def split: if_splits)
  then show ?thesis
  proof cases
    case otlp
    then obtain req where "convert_all (\<lambda>(res, sc, sp). convertOTLPSpan res sc sp) (request_spans req) = Inr (ba_Spans b)"
      by (auto simp: OTLP_normalizer_def OTLPNormalize_def split: raw.splits sum.splits)
    from convert_all_set [OF this s] show ?thesis by (auto dest: convertOTLPSpan_valid)
  next
    case zipkin
    then obtain body zss where p: "parseZipkinJSON (id_json_array d) (id_json_object d) body = Inr zss"
      and c: "convert_all (\<lambda>zs. map_sum (InSpan (zs_ID zs)) (\<lambda>sp. sp) (convertZipkinSpan zs)) zss = Inr (ba_Spans b)"
      by (auto simp: Zipkin_normalizer_def ZipkinNormalize_def split: raw.splits sum.splits)
    from convert_all_set [OF c s] obtain zs where zs: "zs \<in> set zss"
      "map_sum (InSpan (zs_ID zs)) (\<lambda>sp. sp) (convertZipkinSpan zs) = Inr s" by blast
    from zs(2) have conv: "convertZipkinSpan zs = Inr s" by (cases "convertZipkinSpan zs") auto
    have "distinct (map fst (zs_Tags zs))"
      using p zs(1) d by (auto simp: parseZipkinJSON_def Let_def json_maps_def split: if_splits sum.splits)
    with conv show ?thesis by (rule convertZipkinSpan_valid)
  qed
qed

text \<open>An accepted batch went through every stage.\<close>

lemma Ingest_accepted:
  assumes "Ingest d p r subj dev sv = (Inr b, sv')"
  obtains f batch0 batch2 tid qs where
    "normalizers d p = Some f" "f r = Inr batch0"
    "applyLimits (ic_Limits (sv_cfg sv)) (batch0\<lparr>ba_ReceivedUnixNano := u64 (unix_nano (id_now d))\<rparr>) = (batch2, None)"
    "resolve d dev subj = Inr tid" "tid \<noteq> []" "b = stamp tid batch2"
    "fan_out (id_wait d) 0 tid (ba_Spans b) (ba_SizeBytes b) (sv_queues sv) = (qs, None)"
    "sv' = sv\<lparr>sv_queues := qs, sv_metrics := spansReceived p tid (int (length (ba_Spans b))) (batchReceived p (sv_metrics sv))\<rparr>"
  using assms unfolding Ingest_def Let_def
  by (auto split: option.splits sum.splits prod.splits if_splits)

lemma applyLimits_received: "applyLimits lc b = (b', e) \<Longrightarrow> ba_ReceivedUnixNano b' = ba_ReceivedUnixNano b"
  by (auto simp: applyLimits_def Let_def split: if_splits prod.splits)

lemma other_fieldsD:
  assumes "other_fields s' = other_fields s"
  shows "sp_TraceID s' = sp_TraceID s \<and> sp_SpanID s' = sp_SpanID s \<and> sp_ParentSpanID s' = sp_ParentSpanID s"
  using arg_cong [OF assms, of sp_TraceID] arg_cong [OF assms, of sp_SpanID] arg_cong [OF assms, of sp_ParentSpanID]
  by (simp add: other_fields_def)

lemma applyLimits_spans:
  assumes "applyLimits lc b = (b', None)" and "\<forall>s \<in> set (ba_Spans b). valid_ids s \<and> distinct (keys (sp_Attrs s))"
    and "s' \<in> set (ba_Spans b')"
  shows "valid_ids s' \<and> distinct (keys (sp_Attrs s'))
    \<and> (\<forall>(k, v) \<in> set (sp_Attrs s'). attr_fits lc k v)
    \<and> (0 < lc_MaxAttributesPerSpan lc \<longrightarrow> int (length (sp_Attrs s')) \<le> lc_MaxAttributesPerSpan lc)"
proof -
  obtain sps where run: "limit_spans lc (ba_Spans b) = (sps, None)" and b': "ba_Spans b' = sps"
    using assms(1) by (auto simp: applyLimits_def Let_def split: if_splits prod.splits)
  have "\<forall>s \<in> set (ba_Spans b). attrs_ok s" using assms(2) by (simp add: attrs_ok_def)
  note all = limit_spans_all2 [OF run this]
  obtain s where s: "s \<in> set (ba_Spans b)" "accounted s s'"
    using list_all2_from [OF conjunct1 [OF all]] assms(3) b' by blast
  have "sp_TraceID s' = sp_TraceID s \<and> sp_SpanID s' = sp_SpanID s \<and> sp_ParentSpanID s' = sp_ParentSpanID s"
    using s(2) by (intro other_fieldsD) (simp add: accounted_def)
  with s(1) assms(2) have ids: "valid_ids s'" by (simp add: valid_ids_def)
  have dist: "distinct (keys (sp_Attrs s'))" using s(2) by (simp add: accounted_def attrs_ok_def)
  have "s' \<in> set sps" using assms(3) b' by simp
  with all have "(\<forall>(k, v) \<in> set (sp_Attrs s'). attr_fits lc k v)
      \<and> (0 < lc_MaxAttributesPerSpan lc \<longrightarrow> int (length (sp_Attrs s')) \<le> lc_MaxAttributesPerSpan lc)"
    by blast
  with ids dist show ?thesis by blast
qed

end
