(* ===== verification/IngestQueueSteps.thy ===== *)
theory IngestQueueSteps
  imports IngestQueue Transition "HOL-Library.Multiset"
begin

text \<open>
  The queue under concurrency.  \<open>tryEnqueue\<close> is three atomic actions: the read of the byte counter
  with its check, the send on the channel, and the addition to the counter; a drain round is two:
  the receive, and the subtraction with the delivery.  Any number of producers and the one drain
  goroutine interleave.

  \<open>N\<close> bounds how many producers are inside \<open>tryEnqueue\<close> at once and \<open>B\<close> the size of a batch.
\<close>

datatype producer = Checked queued_batch | Sent queued_batch

record qstate =
  qs_q :: sink_queue
  qs_producers :: "producer multiset"
  qs_taken :: "queued_batch option"
  qs_accepted :: "queued_batch list"

inductive q_step :: "nat \<Rightarrow> int \<Rightarrow> qstate \<Rightarrow> qstate \<Rightarrow> bool" for N B where
  q_check:
    "\<not> no_byte_room (qs_q s) b \<Longrightarrow> size (qs_producers s) < N \<Longrightarrow> 0 \<le> qb_bytes b \<Longrightarrow> qb_bytes b \<le> B
     \<Longrightarrow> q_step N B s (s\<lparr>qs_producers := add_mset (Checked b) (qs_producers s)\<rparr>)"
| q_send:
    "qs_producers s = add_mset (Checked b) ps \<Longrightarrow> length (sq_ch (qs_q s)) < sq_cap (qs_q s)
     \<Longrightarrow> q_step N B s (s\<lparr>qs_q := (qs_q s)\<lparr>sq_ch := sq_ch (qs_q s) @ [b]\<rparr>,
           qs_producers := add_mset (Sent b) ps, qs_accepted := qs_accepted s @ [b]\<rparr>)"
| q_full:
    "qs_producers s = add_mset (Checked b) ps \<Longrightarrow> \<not> length (sq_ch (qs_q s)) < sq_cap (qs_q s)
     \<Longrightarrow> q_step N B s (s\<lparr>qs_producers := ps\<rparr>)"
| q_count:
    "qs_producers s = add_mset (Sent b) ps
     \<Longrightarrow> q_step N B s (s\<lparr>qs_q := (qs_q s)\<lparr>sq_bytes := sq_bytes (qs_q s) + qb_bytes b\<rparr>, qs_producers := ps\<rparr>)"
| q_take:
    "qs_taken s = None \<Longrightarrow> sq_ch (qs_q s) = b # rest
     \<Longrightarrow> q_step N B s (s\<lparr>qs_q := (qs_q s)\<lparr>sq_ch := rest\<rparr>, qs_taken := Some b\<rparr>)"
| q_consume:
    "qs_taken s = Some b \<Longrightarrow> q_step N B s (s\<lparr>qs_q := consume b (qs_q s), qs_taken := None\<rparr>)"

inductive_cases q_stepE: "q_step N B s t"

definition idle :: "sink_queue \<Rightarrow> queued_batch list \<Rightarrow> qstate" where
  "idle q acc = \<lparr>qs_q = q, qs_producers = {#}, qs_taken = None, qs_accepted = acc\<rparr>"

definition q_init :: "queue_config \<Rightarrow> qstate \<Rightarrow> bool" where
  "q_init cfg s = (s = idle (newSinkQueue cfg) [])"

section \<open>Invariant\<close>

fun sent_bytes :: "producer \<Rightarrow> int" where
  "sent_bytes (Checked b) = 0"
| "sent_bytes (Sent b) = qb_bytes b"

fun flight_bytes :: "producer \<Rightarrow> int" where
  "flight_bytes (Checked b) = qb_bytes b"
| "flight_bytes (Sent b) = qb_bytes b"

abbreviation payload :: "queued_batch \<Rightarrow> tenant_id \<times> span list" where
  "payload b \<equiv> (qb_tenant b, qb_spans b)"

definition taken_list :: "qstate \<Rightarrow> queued_batch list" where
  "taken_list s = (case qs_taken s of None \<Rightarrow> [] | Some b \<Rightarrow> [b])"

definition queue_bytes :: "qstate \<Rightarrow> int" where
  "queue_bytes s = sum_list (map qb_bytes (taken_list s @ sq_ch (qs_q s)))"

definition q_inv :: "queue_config \<Rightarrow> nat \<Rightarrow> int \<Rightarrow> qstate \<Rightarrow> bool" where
  "q_inv cfg N B s =
     (sq_cfg (qs_q s) = cfg \<and> sq_cap (qs_q s) = sq_cap (newSinkQueue cfg) \<and> length (sq_ch (qs_q s)) \<le> sq_cap (qs_q s)
      \<and> map payload (qs_accepted s) = sq_delivered (qs_q s) @ map payload (taken_list s @ sq_ch (qs_q s))
      \<and> sq_bytes (qs_q s) + (\<Sum>p \<in># qs_producers s. sent_bytes p) = queue_bytes s
      \<and> (\<forall>p \<in># qs_producers s. 0 \<le> flight_bytes p \<and> flight_bytes p \<le> B)
      \<and> (\<forall>b \<in> set (taken_list s @ sq_ch (qs_q s)). 0 \<le> qb_bytes b)
      \<and> size (qs_producers s) \<le> N
      \<and> (0 < qc_MaxBytes cfg \<longrightarrow>
           sq_bytes (qs_q s) + (\<Sum>p \<in># qs_producers s. flight_bytes p) \<le> qc_MaxBytes cfg + int (N - 1) * B))"

lemma sum_flight_le:
  assumes "\<forall>p \<in># ps. flight_bytes p \<le> B"
  shows "(\<Sum>p \<in># ps. flight_bytes p) \<le> int (size ps) * B"
  using assms by (induction ps) (auto simp: algebra_simps)

lemma q_inv_check:
  assumes inv: "q_inv cfg N B s" and room: "\<not> no_byte_room (qs_q s) b" and n: "size (qs_producers s) < N"
    and b: "0 \<le> qb_bytes b" "qb_bytes b \<le> B"
  shows "q_inv cfg N B (s\<lparr>qs_producers := add_mset (Checked b) (qs_producers s)\<rparr>)"
proof -
  have "(\<Sum>p \<in># qs_producers s. flight_bytes p) \<le> int (size (qs_producers s)) * B"
    using inv by (intro sum_flight_le) (simp add: q_inv_def)
  also have "\<dots> \<le> int (N - 1) * B" using n b by (intro mult_right_mono) auto
  finally have fl: "(\<Sum>p \<in># qs_producers s. flight_bytes p) \<le> int (N - 1) * B" .
  moreover have "0 < qc_MaxBytes cfg \<longrightarrow> sq_bytes (qs_q s) + qb_bytes b \<le> qc_MaxBytes cfg"
    using room inv by (auto simp: no_byte_room_def q_inv_def)
  ultimately show ?thesis using inv n b by (auto simp: q_inv_def taken_list_def queue_bytes_def)
qed

lemma q_inv_step:
  assumes "q_inv cfg N B s" and "q_step N B s t"
  shows "q_inv cfg N B t"
  using assms(2,1)
proof cases
  case (q_check b)
  with assms(1) show ?thesis by (simp add: q_inv_check)
next
  case (q_send b ps)
  with assms(1) show ?thesis by (auto simp: q_inv_def taken_list_def queue_bytes_def)
next
  case (q_full b ps)
  with assms(1) show ?thesis by (auto simp: q_inv_def taken_list_def queue_bytes_def)
next
  case (q_count b ps)
  with assms(1) show ?thesis by (auto simp: q_inv_def taken_list_def queue_bytes_def)
next
  case (q_take b rest)
  with assms(1) show ?thesis by (auto simp: q_inv_def taken_list_def queue_bytes_def)
next
  case (q_consume b)
  with assms(1) show ?thesis by (auto simp: q_inv_def taken_list_def queue_bytes_def consume_def)
qed

lemma q_inv_init: "0 \<le> B \<Longrightarrow> q_init cfg s \<Longrightarrow> q_inv cfg N B s"
  by (simp add: q_init_def idle_def q_inv_def newSinkQueue_def taken_list_def queue_bytes_def)

interpretation queue: invariant_system "\<lambda>s. 0 \<le> B \<and> q_init cfg s" "q_step N B" "q_inv cfg N B" for cfg N B
  by unfold_locales (auto intro: q_inv_init q_inv_step)

section \<open>The atomic operations\<close>

lemma q_run: "q_step N B s t \<Longrightarrow> steps (q_step N B) t u \<Longrightarrow> steps (q_step N B) s u"
  by (rule steps_trans, assumption) (rule steps.intros(2), rule steps.intros(1))

lemma enqueue_steps:
  assumes e: "tryEnqueue b q = (True, q')" and b: "0 \<le> qb_bytes b" "qb_bytes b \<le> B" and n: "0 < N"
  shows "steps (q_step N B) (idle q acc) (idle q' (acc @ [b]))"
proof -
  from e have q': "q' = q\<lparr>sq_ch := sq_ch q @ [b], sq_bytes := sq_bytes q + qb_bytes b\<rparr>"
    and room: "\<not> no_byte_room q b" "length (sq_ch q) < sq_cap q"
    by (auto simp: tryEnqueue_def split: if_splits)
  let ?s1 = "(idle q acc)\<lparr>qs_producers := {#Checked b#}\<rparr>"
  let ?s2 = "\<lparr>qs_q = q\<lparr>sq_ch := sq_ch q @ [b]\<rparr>, qs_producers = {#Sent b#}, qs_taken = None, qs_accepted = acc @ [b]\<rparr>"
  have "q_step N B (idle q acc) ?s1"
    using q_check [of "idle q acc" b N B] room n b by (simp add: idle_def)
  moreover have "q_step N B ?s1 ?s2"
    using q_send [of ?s1 b "{#}" N B] room by (simp add: idle_def)
  moreover have "q_step N B ?s2 (idle q' (acc @ [b]))"
    using q_count [of ?s2 b "{#}" N B] by (simp add: idle_def q')
  ultimately show ?thesis by (meson q_run steps.intros(1))
qed

lemma drain_steps: "sq_ch q \<noteq> [] \<Longrightarrow> steps (q_step N B) (idle q acc) (idle (drain_one q) acc)"
proof -
  assume "sq_ch q \<noteq> []"
  then obtain b rest where ch: "sq_ch q = b # rest" by (cases "sq_ch q") auto
  let ?s1 = "\<lparr>qs_q = q\<lparr>sq_ch := rest\<rparr>, qs_producers = {#}, qs_taken = Some b, qs_accepted = acc\<rparr>"
  have "q_step N B (idle q acc) ?s1"
    using q_take [of "idle q acc" b rest N B] ch by (simp add: idle_def)
  moreover have "q_step N B ?s1 (idle (drain_one q) acc)"
    using q_consume [of ?s1 b N B] ch by (simp add: idle_def drain_one_def)
  ultimately show ?thesis by (meson q_run steps.intros(1))
qed

lemma drainRemaining_steps: "steps (q_step N B) (idle q acc) (idle (drainRemaining q) acc)"
proof (induction q rule: drainRemaining.induct)
  case (1 q)
  show ?case
  proof (cases "sq_ch q")
    case Nil
    then have "drainRemaining q = q" by (subst drainRemaining.simps) simp
    then show ?thesis by (simp add: steps.intros)
  next
    case (Cons b rest)
    then have "drainRemaining q = drainRemaining (drain_one q)"
      by (subst drainRemaining.simps) (simp add: drain_one_def)
    moreover have "steps (q_step N B) (idle (drain_one q) acc) (idle (drainRemaining (drain_one q)) acc)"
      using 1 [OF Cons] Cons by (simp add: drain_one_def)
    ultimately show ?thesis using drain_steps [of q N B acc] Cons by (auto intro: steps_trans)
  qed
qed

section \<open>A concrete run\<close>

definition demo_queue_config :: queue_config where
  "demo_queue_config = \<lparr>qc_Capacity = 4, qc_MaxBytes = 100, qc_EnqueueTimeout = 0, qc_OverflowPolicy = ''shed''\<rparr>"

definition demo_qbatch :: queued_batch where
  "demo_qbatch = \<lparr>qb_tenant = ''t1'', qb_spans = [], qb_bytes = 60\<rparr>"

definition demo_full :: qstate where
  "demo_full = idle ((newSinkQueue demo_queue_config)\<lparr>sq_ch := [demo_qbatch], sq_bytes := 60\<rparr>) [demo_qbatch]"

lemma demo_full_reach: "reach (\<lambda>s. (0 :: int) \<le> 60 \<and> q_init demo_queue_config s) (q_step 2 60) demo_full"
proof (rule reach_steps)
  let ?q = "newSinkQueue demo_queue_config"
  show "reach (\<lambda>s. (0 :: int) \<le> 60 \<and> q_init demo_queue_config s) (q_step 2 60) (idle ?q [])"
    by (rule reach_init) (simp add: q_init_def)
  have "tryEnqueue demo_qbatch ?q = (True, ?q\<lparr>sq_ch := [demo_qbatch], sq_bytes := 60\<rparr>)"
    by (simp add: tryEnqueue_def no_byte_room_def newSinkQueue_def demo_queue_config_def demo_qbatch_def)
  from enqueue_steps [OF this, of 60 2 "[]"] show "steps (q_step 2 60) (idle ?q []) demo_full"
    by (simp add: demo_full_def demo_qbatch_def)
qed

section \<open>The life cycle of the server\<close>

text \<open>
  \<open>Server.Start\<close> and \<open>Server.Stop\<close> around one queue (ingest.go), with the loop of \<open>drain\<close> (queue.go).
  A producer action leaves \<open>qs_taken\<close> alone, an action of the drain goroutine changes it.  Producers act until the
  receivers have stopped, and the receivers have stopped when no handler runs any more (\<open>GracefulStop\<close>).  The
  context of \<open>drain\<close> is a child of the one given to \<open>Start\<close>: \<open>Stop\<close> cancels it after the receivers have
  stopped, but if the context given to \<open>Start\<close> is itself cancelled by the signal that begins the shutdown
  (\<open>signal\<close>, as main.go has it), then it ends at any time.  Between two batches the loop can notice the end, then
  flushes until the channel is empty, and returns.
\<close>

datatype drain_phase = DrainLooping | DrainFlushing | DrainReturned

record server_state =
  sv_q :: qstate
  sv_receiversStopped :: bool
  sv_cancelled :: bool
  sv_drain :: drain_phase

inductive server_step :: "bool \<Rightarrow> nat \<Rightarrow> int \<Rightarrow> server_state \<Rightarrow> server_state \<Rightarrow> bool" for signal N B where
  sv_produce:
    "\<not> sv_receiversStopped s \<Longrightarrow> q_step N B (sv_q s) q \<Longrightarrow> qs_taken q = qs_taken (sv_q s)
     \<Longrightarrow> server_step signal N B s (s\<lparr>sv_q := q\<rparr>)"
| sv_deliver:
    "sv_drain s \<noteq> DrainReturned \<Longrightarrow> q_step N B (sv_q s) q \<Longrightarrow> qs_taken q \<noteq> qs_taken (sv_q s)
     \<Longrightarrow> server_step signal N B s (s\<lparr>sv_q := q\<rparr>)"
| sv_notice:
    "sv_cancelled s \<Longrightarrow> sv_drain s = DrainLooping \<Longrightarrow> qs_taken (sv_q s) = None
     \<Longrightarrow> server_step signal N B s (s\<lparr>sv_drain := DrainFlushing\<rparr>)"
| sv_return:
    "sv_drain s = DrainFlushing \<Longrightarrow> qs_taken (sv_q s) = None \<Longrightarrow> sq_ch (qs_q (sv_q s)) = []
     \<Longrightarrow> server_step signal N B s (s\<lparr>sv_drain := DrainReturned\<rparr>)"
| sv_stop_receivers:
    "\<not> sv_receiversStopped s \<Longrightarrow> qs_producers (sv_q s) = {#}
     \<Longrightarrow> server_step signal N B s (s\<lparr>sv_receiversStopped := True\<rparr>)"
| sv_cancel:
    "\<not> sv_cancelled s \<Longrightarrow> sv_receiversStopped s \<or> signal
     \<Longrightarrow> server_step signal N B s (s\<lparr>sv_cancelled := True\<rparr>)"

inductive_cases server_stepE: "server_step signal N B s t"

definition server_init :: "queue_config \<Rightarrow> server_state \<Rightarrow> bool" where
  "server_init cfg s =
     (\<exists>q. q_init cfg q \<and> s = \<lparr>sv_q = q, sv_receiversStopped = False, sv_cancelled = False, sv_drain = DrainLooping\<rparr>)"

text \<open>The invariant of the order of \<open>Stop\<close>.\<close>

definition server_inv :: "queue_config \<Rightarrow> nat \<Rightarrow> int \<Rightarrow> server_state \<Rightarrow> bool" where
  "server_inv cfg N B s \<longleftrightarrow>
     q_inv cfg N B (sv_q s) \<and> (sv_cancelled s \<longrightarrow> sv_receiversStopped s)
     \<and> (sv_drain s \<noteq> DrainLooping \<longrightarrow> sv_cancelled s) \<and> (sv_receiversStopped s \<longrightarrow> qs_producers (sv_q s) = {#})
     \<and> (sv_drain s = DrainReturned \<longrightarrow> qs_taken (sv_q s) = None \<and> sq_ch (qs_q (sv_q s)) = [])"

lemma deliver_step:
  "q_step N B s t \<Longrightarrow> qs_taken t \<noteq> qs_taken s \<Longrightarrow> qs_producers t = qs_producers s \<and> qs_accepted t = qs_accepted s
    \<and> 2 * length (sq_ch (qs_q t)) + length (taken_list t) < 2 * length (sq_ch (qs_q s)) + length (taken_list s)"
  by (erule q_stepE) (auto simp: taken_list_def consume_def)

lemma server_inv_step: "server_inv cfg N B s \<Longrightarrow> server_step False N B s t \<Longrightarrow> server_inv cfg N B t"
  by (erule server_stepE) (auto simp: server_inv_def dest: q_inv_step deliver_step)

interpretation server: invariant_system "\<lambda>s. 0 \<le> B \<and> server_init cfg s" "server_step False N B" "server_inv cfg N B" for cfg N B
proof unfold_locales
  show "server_inv cfg N B s" if "0 \<le> B \<and> server_init cfg s" for s
  proof -
    from that obtain q where "q_init cfg q"
      "s = \<lparr>sv_q = q, sv_receiversStopped = False, sv_cancelled = False, sv_drain = DrainLooping\<rparr>"
      by (auto simp: server_init_def)
    with that show ?thesis using q_inv_init [of B cfg q N] by (simp add: server_inv_def)
  qed
qed (rule server_inv_step)

text \<open>What the drain goroutine still has to do.\<close>

fun phases_left :: "drain_phase \<Rightarrow> nat" where
  "phases_left DrainLooping = 2"
| "phases_left DrainFlushing = 1"
| "phases_left DrainReturned = 0"

definition drain_work :: "server_state \<Rightarrow> nat" where
  "drain_work s = 2 * length (sq_ch (qs_q (sv_q s))) + length (taken_list (sv_q s)) + phases_left (sv_drain s)"

lemma stopping_step:
  assumes "sv_cancelled s" and "sv_receiversStopped s" and "server_step signal N B s t"
  shows "drain_work t < drain_work s \<and> qs_accepted (sv_q t) = qs_accepted (sv_q s)"
  using assms(3,1,2) by (cases rule: server_step.cases) (auto simp: drain_work_def dest: deliver_step)

lemma stopping_progress:
  assumes "sv_cancelled s" and "sv_drain s \<noteq> DrainReturned"
  shows "\<exists>t. server_step signal N B s t"
proof (cases "qs_taken (sv_q s)")
  case (Some b)
  have "q_step N B (sv_q s) ((sv_q s)\<lparr>qs_q := consume b (qs_q (sv_q s)), qs_taken := None\<rparr>)" using Some by (rule q_consume)
  from sv_deliver [OF assms(2) this] Some show ?thesis by auto
next
  case None
  show ?thesis
  proof (cases "sv_drain s = DrainLooping")
    case True
    from sv_notice [OF assms(1) this None] show ?thesis by blast
  next
    case False
    with assms(2) have f: "sv_drain s = DrainFlushing" by (cases "sv_drain s") auto
    show ?thesis
    proof (cases "sq_ch (qs_q (sv_q s))")
      case Nil
      from sv_return [OF f None this] show ?thesis by blast
    next
      case (Cons b rest)
      from q_take [OF None this] have "q_step N B (sv_q s)
        ((sv_q s)\<lparr>qs_q := (qs_q (sv_q s))\<lparr>sq_ch := rest\<rparr>, qs_taken := Some b\<rparr>)" .
      from sv_deliver [OF assms(2) this] None show ?thesis by auto
    qed
  qed
qed

text \<open>The final flush of the code, as one run of the goroutine.\<close>

lemma flush_steps:
  assumes "sv_drain s = DrainFlushing"
  shows "sv_q s = idle q acc \<Longrightarrow> steps (server_step signal N B) s (s\<lparr>sv_q := idle (drainRemaining q) acc, sv_drain := DrainReturned\<rparr>)"
  using assms
proof (induction q arbitrary: s rule: drainRemaining.induct)
  case (1 q)
  show ?case
  proof (cases "sq_ch q")
    case Nil
    then have "drainRemaining q = q" by (subst drainRemaining.simps) simp
    moreover have "server_step signal N B s (s\<lparr>sv_drain := DrainReturned\<rparr>)"
      using 1 Nil by (intro sv_return) (simp_all add: idle_def)
    moreover have "s\<lparr>sv_q := idle q acc, sv_drain := DrainReturned\<rparr> = s\<lparr>sv_drain := DrainReturned\<rparr>"
      using 1(2) by (cases s) simp
    ultimately show ?thesis by (simp add: steps_step [OF steps_refl])
  next
    case (Cons b rest)
    let ?t = "\<lparr>qs_q = q\<lparr>sq_ch := rest\<rparr>, qs_producers = {#}, qs_taken = Some b, qs_accepted = acc\<rparr>"
    let ?q = "consume b (q\<lparr>sq_ch := rest\<rparr>)"
    have a: "q_step N B (sv_q s) ?t" using q_take [of "sv_q s" b rest N B] Cons 1(2) by (simp add: idle_def)
    have b: "q_step N B ?t (idle ?q acc)" using q_consume [of ?t b N B] by (simp add: idle_def)
    have "server_step signal N B s (s\<lparr>sv_q := ?t\<rparr>)" using sv_deliver [OF _ a] 1(2,3) by (simp add: idle_def)
    moreover have "server_step signal N B (s\<lparr>sv_q := ?t\<rparr>) (s\<lparr>sv_q := idle ?q acc\<rparr>)"
      using sv_deliver [of "s\<lparr>sv_q := ?t\<rparr>" N B "idle ?q acc" signal] b 1(3) by (simp add: idle_def)
    ultimately have "steps (server_step signal N B) s (s\<lparr>sv_q := idle ?q acc\<rparr>)" by (meson steps_refl steps_step)
    moreover have "drainRemaining q = drainRemaining ?q" using Cons by (subst drainRemaining.simps) simp
    ultimately show ?thesis using 1(1) [OF Cons, of "s\<lparr>sv_q := idle ?q acc\<rparr>"] 1(3) by (auto intro: steps_trans)
  qed
qed

section \<open>Properties\<close>

text \<open>C8. The queue neither loses, duplicates nor reorders: under every interleaving of producers and the
  drain goroutine, what was delivered to the sink, followed by what is being delivered and what is
  still queued, is what was accepted, in order; no more batches are queued than the capacity; and
  when no producer is inside \<open>tryEnqueue\<close> the byte counter is the number of bytes queued.\<close>

theorem queue_fifo:
  assumes "reach (\<lambda>s. 0 \<le> B \<and> q_init cfg s) (q_step N B) s"
  shows "map payload (qs_accepted s) = sq_delivered (qs_q s) @ map payload (taken_list s @ sq_ch (qs_q s))
    \<and> length (sq_ch (qs_q s)) \<le> max 1 (nat (qc_Capacity cfg))
    \<and> (qs_producers s = {#} \<longrightarrow> sq_bytes (qs_q s) = queue_bytes s)"
  using queue.reach_inv [OF assms] by (auto simp: q_inv_def newSinkQueue_def split: if_splits)

theorem queue_fifo_witness: "sq_bytes (qs_q demo_full) = 60"
  using queue_fifo [OF demo_full_reach] by (simp add: demo_full_def idle_def)

text \<open>C31. Shutdown delivers everything: if the drain context ends only by \<open>Stop\<close>, after the receivers, then
  whatever producers and drain loop did before, a drain goroutine that has returned has delivered exactly the accepted
  batches, in order, with an empty channel, a byte counter of zero and no producer inside; and once the context has
  ended the goroutine can always go on, and no schedule is longer than \<open>drain_work\<close>, so it does return, with
  nothing accepted meanwhile.  The flush of the code, \<open>drainRemaining\<close>, is one such run.\<close>

theorem shutdown_delivers_everything:
  assumes "reach (\<lambda>s. 0 \<le> B \<and> server_init cfg s) (server_step False N B) s"
  shows "(sv_drain s = DrainReturned \<longrightarrow>
       sq_delivered (qs_q (sv_q s)) = map payload (qs_accepted (sv_q s)) \<and> sq_ch (qs_q (sv_q s)) = []
       \<and> sq_bytes (qs_q (sv_q s)) = 0 \<and> qs_producers (sv_q s) = {#})
    \<and> (sv_cancelled s \<longrightarrow>
         (sv_drain s \<noteq> DrainReturned \<longrightarrow> (\<exists>t. server_step False N B s t))
         \<and> (\<forall>t. server_step False N B s t \<longrightarrow> drain_work t < drain_work s \<and> qs_accepted (sv_q t) = qs_accepted (sv_q s)))
    \<and> (sv_drain s = DrainFlushing \<and> qs_taken (sv_q s) = None \<longrightarrow>
         steps (server_step False N B) s (s\<lparr>sv_q := idle (drainRemaining (qs_q (sv_q s))) (qs_accepted (sv_q s)), sv_drain := DrainReturned\<rparr>))"
proof -
  have inv: "server_inv cfg N B s" using server.reach_inv [OF assms] .
  then have qinv: "q_inv cfg N B (sv_q s)" and stop: "sv_cancelled s \<longrightarrow> sv_receiversStopped s"
    and prod: "sv_drain s \<noteq> DrainLooping \<longrightarrow> qs_producers (sv_q s) = {#}"
    by (auto simp: server_inv_def)
  have "sv_q s = idle (qs_q (sv_q s)) (qs_accepted (sv_q s))" if "sv_drain s = DrainFlushing" "qs_taken (sv_q s) = None"
    using that prod by (cases "sv_q s") (simp add: idle_def)
  note flush = flush_steps [OF _ this]
  show ?thesis
    using inv qinv prod stop stopping_progress [of s False N B] stopping_step [of s False N B] flush
    by (auto simp: server_inv_def q_inv_def taken_list_def queue_bytes_def)
qed

text \<open>A run: one batch is accepted, the receivers stop, the context ends, the flush delivers it.\<close>

definition demo_server :: "qstate \<Rightarrow> bool \<Rightarrow> bool \<Rightarrow> drain_phase \<Rightarrow> server_state" where
  "demo_server q stopped cancelled phase =
     \<lparr>sv_q = q, sv_receiversStopped = stopped, sv_cancelled = cancelled, sv_drain = phase\<rparr>"

text \<open>The steps of a producer alone.\<close>

lemma demo_produce:
  assumes "\<not> stopped"
  shows "steps (server_step signal 2 60) (demo_server (idle (newSinkQueue demo_queue_config) []) stopped cancelled phase)
    (demo_server demo_full stopped cancelled phase)"
proof -
  let ?q = "newSinkQueue demo_queue_config" and ?b = demo_qbatch
  let ?s1 = "(idle ?q [])\<lparr>qs_producers := {#Checked ?b#}\<rparr>"
  let ?s2 = "\<lparr>qs_q = ?q\<lparr>sq_ch := [?b]\<rparr>, qs_producers = {#Sent ?b#}, qs_taken = None, qs_accepted = [?b]\<rparr>"
  have room: "\<not> no_byte_room ?q ?b" "sq_cap ?q = 4" "sq_ch ?q = []" "qb_bytes ?b = 60" "sq_bytes ?q = 0"
    by (simp_all add: no_byte_room_def newSinkQueue_def demo_queue_config_def demo_qbatch_def)
  have p: "server_step signal 2 60 (demo_server q stopped cancelled phase) (demo_server q' stopped cancelled phase)"
    if "q_step 2 60 q q'" "qs_taken q' = qs_taken q" for q q'
    using sv_produce [of "demo_server q stopped cancelled phase" 2 60 q' signal] that assms by (simp add: demo_server_def)
  have "q_step 2 60 (idle ?q []) ?s1" using q_check [of "idle ?q []" ?b 2 60] room by (simp add: idle_def)
  note 1 = p [OF this]
  have "q_step 2 60 ?s1 ?s2" using q_send [of ?s1 ?b "{#}" 2 60] room by (simp add: idle_def)
  note 2 = p [OF this]
  have "q_step 2 60 ?s2 demo_full" using q_count [of ?s2 ?b "{#}" 2 60] room by (simp add: idle_def demo_full_def)
  note 3 = p [OF this]
  have "qs_taken ?s1 = None" "qs_taken (idle ?q []) = None" "qs_taken ?s2 = None" "qs_taken demo_full = None"
    by (simp_all add: idle_def demo_full_def)
  with 1 2 3 show ?thesis by (metis steps_refl steps_step)
qed

lemma demo_server_init: "reach (\<lambda>s. (0 :: int) \<le> 60 \<and> server_init demo_queue_config s) (server_step signal 2 60)
    (demo_server (idle (newSinkQueue demo_queue_config) []) False False DrainLooping)"
  by (rule reach_init) (simp add: server_init_def q_init_def demo_server_def)

theorem shutdown_delivers_everything_witness:
  "\<exists>s. reach (\<lambda>s. (0 :: int) \<le> 60 \<and> server_init demo_queue_config s) (server_step False 2 60) s \<and> sv_drain s = DrainReturned
     \<and> sq_delivered (qs_q (sv_q s)) = [(''t1'', [])]"
proof -
  note step = sv_stop_receivers sv_cancel sv_notice
  let ?R = "reach (\<lambda>s. (0 :: int) \<le> 60 \<and> server_init demo_queue_config s) (server_step False 2 60)"
  have full: "qs_producers demo_full = {#}" "qs_taken demo_full = None" "qs_accepted demo_full = [demo_qbatch]"
    by (simp_all add: demo_full_def idle_def)
  have "?R (demo_server demo_full False False DrainLooping)"
    by (rule reach_steps [OF demo_produce demo_server_init]) simp
  then have "?R (demo_server demo_full True False DrainLooping)"
    by (rule reach_step) (use sv_stop_receivers [of "demo_server demo_full False False DrainLooping"] full in \<open>simp add: demo_server_def\<close>)
  then have "?R (demo_server demo_full True True DrainLooping)"
    by (rule reach_step) (use sv_cancel [of "demo_server demo_full True False DrainLooping"] in \<open>simp add: demo_server_def\<close>)
  then have flushing: "?R (demo_server demo_full True True DrainFlushing)"
    by (rule reach_step) (use sv_notice [of "demo_server demo_full True True DrainLooping"] full in \<open>simp add: demo_server_def\<close>)
  let ?t = "demo_server (idle (drainRemaining (qs_q demo_full)) [demo_qbatch]) True True DrainReturned"
  have "steps (server_step False 2 60) (demo_server demo_full True True DrainFlushing) ?t"
    using shutdown_delivers_everything [OF flushing] full by (simp add: demo_server_def)
  then have t: "?R ?t" using flushing by (rule reach_steps)
  from shutdown_delivers_everything [OF this] have "sq_delivered (qs_q (sv_q ?t)) = [(''t1'', [])]"
    by (simp add: demo_server_def idle_def demo_qbatch_def)
  with t show ?thesis by (intro exI [of _ ?t]) (simp add: demo_server_def)
qed

text \<open>With the wiring of main.go, where the signal ends the context of \<open>drain\<close> at once, a batch that a receiver
  accepts after the flush is never delivered: the goroutine has returned, and no step is left.\<close>

theorem signal_shutdown_loses_batch:
  "\<exists>s. reach (\<lambda>s. (0 :: int) \<le> 60 \<and> server_init demo_queue_config s) (server_step True 2 60) s
     \<and> sv_receiversStopped s \<and> sv_drain s = DrainReturned \<and> qs_accepted (sv_q s) = [demo_qbatch]
     \<and> sq_delivered (qs_q (sv_q s)) = [] \<and> (\<forall>t. \<not> server_step True 2 60 s t)"
proof -
  let ?R = "reach (\<lambda>s. (0 :: int) \<le> 60 \<and> server_init demo_queue_config s) (server_step True 2 60)"
  let ?q0 = "idle (newSinkQueue demo_queue_config) []"
  have q0: "qs_taken ?q0 = None" "sq_ch (qs_q ?q0) = []" by (simp_all add: idle_def newSinkQueue_def)
  have full: "qs_producers demo_full = {#}" "qs_taken demo_full = None" "qs_accepted demo_full = [demo_qbatch]"
    "sq_delivered (qs_q demo_full) = []"
    by (simp_all add: demo_full_def idle_def newSinkQueue_def)
  have "?R (demo_server ?q0 False False DrainLooping)" by (rule demo_server_init)
  then have "?R (demo_server ?q0 False True DrainLooping)"
    by (rule reach_step) (use sv_cancel [of "demo_server ?q0 False False DrainLooping"] in \<open>simp add: demo_server_def\<close>)
  then have "?R (demo_server ?q0 False True DrainFlushing)"
    by (rule reach_step) (use sv_notice [of "demo_server ?q0 False True DrainLooping"] q0 in \<open>simp add: demo_server_def\<close>)
  then have "?R (demo_server ?q0 False True DrainReturned)"
    by (rule reach_step) (use sv_return [of "demo_server ?q0 False True DrainFlushing"] q0 in \<open>simp add: demo_server_def\<close>)
  then have "?R (demo_server demo_full False True DrainReturned)"
    by (rule reach_steps [OF demo_produce, rotated]) simp
  then have r: "?R (demo_server demo_full True True DrainReturned)"
    by (rule reach_step) (use sv_stop_receivers [of "demo_server demo_full False True DrainReturned"] full in \<open>simp add: demo_server_def\<close>)
  have "\<not> server_step True 2 60 (demo_server demo_full True True DrainReturned) t" for t
    by (auto simp: demo_server_def elim: server_stepE)
  with r full show ?thesis by (intro exI [of _ "demo_server demo_full True True DrainReturned"]) (simp add: demo_server_def)
qed

text \<open>The byte bound under concurrency: with at most \<open>N\<close> producers inside \<open>tryEnqueue\<close> at a time and
  batches of at most \<open>B\<close> bytes, the bytes queued exceed \<open>MaxBytes\<close> by at most \<open>(N - 1) * B\<close>; with one
  producer at a time the bound is exact.\<close>

theorem queue_byte_bound:
  assumes "reach (\<lambda>s. 0 \<le> B \<and> q_init cfg s) (q_step N B) s" and "0 < qc_MaxBytes cfg"
  shows "queue_bytes s \<le> qc_MaxBytes cfg + int (N - 1) * B"
proof -
  have inv: "q_inv cfg N B s" using queue.reach_inv [OF assms(1)] .
  have "(\<Sum>p \<in># ps. sent_bytes p) \<le> (\<Sum>p \<in># ps. flight_bytes p)" if "\<forall>p \<in># ps. 0 \<le> flight_bytes p" for ps
    using that
  proof (induction ps)
    case (add p ps)
    then show ?case by (cases p) auto
  qed simp
  with inv assms(2) show ?thesis unfolding q_inv_def by force
qed

theorem queue_byte_bound_witness: "queue_bytes demo_full \<le> 160"
  using queue_byte_bound [OF demo_full_reach] by (simp add: demo_queue_config_def)

text \<open>The overrun happens: two producers that both read the counter before either adds to it queue 120
  bytes under a limit of 100.\<close>

theorem byte_bound_overrun:
  "\<exists>s. reach (\<lambda>s. (0 :: int) \<le> 60 \<and> q_init demo_queue_config s) (q_step 2 60) s
     \<and> queue_bytes s = 120 \<and> qc_MaxBytes demo_queue_config = 100"
proof -
  let ?q = "newSinkQueue demo_queue_config"
  let ?b = demo_qbatch
  let ?s0 = "idle ?q []"
  let ?s1 = "?s0\<lparr>qs_producers := {#Checked ?b#}\<rparr>"
  let ?s2 = "?s0\<lparr>qs_producers := {#Checked ?b, Checked ?b#}\<rparr>"
  let ?s3 = "\<lparr>qs_q = ?q\<lparr>sq_ch := [?b]\<rparr>, qs_producers = {#Sent ?b, Checked ?b#}, qs_taken = None, qs_accepted = [?b]\<rparr>"
  let ?s4 = "\<lparr>qs_q = ?q\<lparr>sq_ch := [?b, ?b]\<rparr>, qs_producers = {#Sent ?b, Sent ?b#}, qs_taken = None,
      qs_accepted = [?b, ?b]\<rparr>"
  have room: "\<not> no_byte_room ?q ?b" "sq_cap ?q = 4" "sq_ch ?q = []" "qb_bytes ?b = 60"
    by (simp_all add: no_byte_room_def newSinkQueue_def demo_queue_config_def demo_qbatch_def)
  have "q_step 2 60 ?s0 ?s1" using q_check [of ?s0 ?b 2 60] room by (simp add: idle_def)
  moreover have "q_step 2 60 ?s1 ?s2" using q_check [of ?s1 ?b 2 60] room by (simp add: idle_def)
  moreover have "q_step 2 60 ?s2 ?s3" using q_send [of ?s2 ?b "{#Checked ?b#}" 2 60] room by (simp add: idle_def)
  moreover have "q_step 2 60 ?s3 ?s4"
    using q_send [of ?s3 ?b "{#Sent ?b#}" 2 60] room by (simp add: add_mset_commute)
  moreover have "reach (\<lambda>s. (0 :: int) \<le> 60 \<and> q_init demo_queue_config s) (q_step 2 60) ?s0"
    by (rule reach_init) (simp add: q_init_def)
  ultimately have "reach (\<lambda>s. (0 :: int) \<le> 60 \<and> q_init demo_queue_config s) (q_step 2 60) ?s4"
    by (blast intro: reach_step)
  moreover have "queue_bytes ?s4 = 120" by (simp add: queue_bytes_def taken_list_def demo_qbatch_def)
  ultimately show ?thesis by (intro exI [of _ ?s4]) (simp add: demo_queue_config_def)
qed

text \<open>The atomic operations refine the concurrent queue: an accepted \<open>tryEnqueue\<close>, a drain round and
  the final flush are each a run of the atomic actions of one goroutine with nothing in between.\<close>

theorem atomic_queue_refines:
  assumes "0 < N" and "0 \<le> qb_bytes b" and "qb_bytes b \<le> B"
  shows "(tryEnqueue b q = (True, q') \<longrightarrow> steps (q_step N B) (idle q acc) (idle q' (acc @ [b])))
    \<and> steps (q_step N B) (idle q acc) (idle (drain_one q) acc)
    \<and> steps (q_step N B) (idle q acc) (idle (drainRemaining q) acc)"
proof -
  have "steps (q_step N B) (idle q acc) (idle (drain_one q) acc)"
    using drain_steps [of q N B acc] by (cases "sq_ch q") (auto simp: drain_one_def steps.intros)
  with enqueue_steps assms drainRemaining_steps show ?thesis by blast
qed

theorem atomic_queue_refines_witness:
  "steps (q_step 2 60) (idle (qs_q demo_full) []) (idle (drainRemaining (qs_q demo_full)) [])"
  using atomic_queue_refines [of 2 demo_qbatch 60 "qs_q demo_full" _ "[]"] by (simp add: demo_qbatch_def)

end
