(* ===== verification/IngestPipeline.thy ===== *)
theory IngestPipeline
  imports IngestProps IngestQueueSteps
begin

text \<open>The properties of \<open>Ingest\<close> as a whole.\<close>

section \<open>Fan-out\<close>

text \<open>A queue accepted the batch, at once or after the wait.\<close>

definition accepted_by :: "(sink_queue \<Rightarrow> wait) \<Rightarrow> queued_batch \<Rightarrow> sink_queue \<Rightarrow> sink_queue \<Rightarrow> bool" where
  "accepted_by w b q q' =
     (tryEnqueue b q = (True, q') \<or> (\<exists>q1. w q = TimerFires q1 \<and> tryEnqueue b q1 = (True, q')))"

lemma push_accepted:
  assumes "push w tid spans sz q = (q', None)"
  shows "accepted_by w \<lparr>qb_tenant = tid, qb_spans = spans, qb_bytes = uint sz\<rparr> q q'"
proof -
  let ?b = "\<lparr>qb_tenant = tid, qb_spans = spans, qb_bytes = uint sz\<rparr>"
  obtain ok q1 where t: "tryEnqueue ?b q = (ok, q1)" by force
  have "\<not> ok \<Longrightarrow> q1 = q" using t by (auto simp: tryEnqueue_def split: if_splits)
  with assms t show ?thesis
    by (auto simp: push_def Let_def accepted_by_def split: if_splits wait.splits prod.splits)
qed

lemma fan_out_accepted:
  "fan_out w i tid spans sz qs = (qs', None) \<Longrightarrow> length qs' = length qs
     \<and> (\<forall>j < length qs. accepted_by (w (i + j)) \<lparr>qb_tenant = tid, qb_spans = spans, qb_bytes = uint sz\<rparr> (qs ! j) (qs' ! j))"
proof (induction qs arbitrary: i qs')
  case (Cons q qs)
  obtain q1 where one: "push (w i) tid spans sz q = (q1, None)"
    using Cons.prems by (auto split: prod.splits option.splits)
  obtain qs1 where two: "fan_out w (i + 1) tid spans sz qs = (qs1, None)" "qs' = q1 # qs1"
    using Cons.prems one by (auto simp: Let_def split: prod.splits)
  from Cons.IH [OF two(1)] push_accepted [OF one] two(2) show ?case
    by (auto simp: nth_Cons split: nat.split)
qed simp

lemma cap_sizes_error:
  "cap_sizes lc rest sp = (sp', Some e) \<Longrightarrow> \<exists>ie. e = IngestErr ie \<and> ie_Reason ie = ReasonOversize"
  by (induction lc rest sp rule: cap_sizes.induct) (auto simp: oversize_error_def split: if_splits)

lemma limit_spans_error:
  "limit_spans lc sps = (sps', Some e) \<Longrightarrow> \<exists>ie. e = IngestErr ie \<and> ie_Reason ie = ReasonOversize"
  by (induction sps arbitrary: sps')
    (auto simp: applySpanLimits_def Let_def split: prod.splits option.splits if_splits dest: cap_sizes_error)

lemma applyLimits_error:
  "applyLimits lc b = (b', Some e) \<Longrightarrow> \<exists>ie. e = IngestErr ie \<and> ie_Reason ie = ReasonOversize"
  by (auto simp: applyLimits_def Let_def split: if_splits prod.splits dest: limit_spans_error)

section \<open>A concrete server\<close>

definition demo_request :: otlp_request where
  "demo_request =
     [\<lparr>ors_Resource = None, ors_ScopeSpans = [\<lparr>oss_Scope = None, oss_Spans =
        [\<lparr>ot_TraceId = replicate 16 (CHR ''a''), ot_SpanId = replicate 8 (CHR ''b''), ot_ParentSpanId = [],
          ot_TraceState = [], ot_Flags = 0, ot_Name = ''get'', ot_Kind = 2, ot_StartTimeUnixNano = 1,
          ot_EndTimeUnixNano = 2, ot_Status = None, ot_Attributes = [], ot_Events = [], ot_Links = [],
          ot_DroppedAttributesCount = 0, ot_DroppedEventsCount = 0, ot_DroppedLinksCount = 0\<rparr>]\<rparr>]\<rparr>]"

definition demo_deps :: "tenant_id \<Rightarrow> ingest_deps" where
  "demo_deps tid =
     \<lparr>id_FromSubject = (\<lambda>t. Inr t), id_FromDevDefault = Inr tid, id_now = unix_epoch,
      id_json_array = (\<lambda>s. Inl ''json''), id_json_object = (\<lambda>s. Inl ''json''), id_proto_Size = (\<lambda>r. 50),
      id_wait = (\<lambda>i q. TimerFires q)\<rparr>"

definition demo_config :: ingest_config where
  "demo_config = \<lparr>ic_Queue = demo_queue_config, ic_Limits = demo_limits, ic_AuthMode = ''none''\<rparr>"

definition demo_server :: server where
  "demo_server = \<lparr>sv_cfg = demo_config, sv_queues = [newSinkQueue demo_queue_config], sv_metrics = newMetrics\<rparr>"

lemmas demo_ingest = demo_server_def demo_config_def demo_deps_def demo_request_def demo_limits_def
  demo_queue_config_def normalizers_def OTLP_normalizer_def OTLPNormalize_def request_spans_def
  convertOTLPSpan_def convertTraceID_def convertSpanID_def convertAttrs_def collect_def
  applyLimits_def applySpanLimits_def resolve_def stamp_def push_def tryEnqueue_def no_byte_room_def newSinkQueue_def
  no_trace_def no_span_def

lemma demo_accepted: "\<exists>b sv'. Ingest (demo_deps ''t1'') ProtocolOTLPGRPC (RawOTLP demo_request) [] True demo_server = (Inr b, sv')
    \<and> length (ba_Spans b) = 1"
  by (simp add: Ingest_def demo_ingest Let_def)

lemma demo_json: "json_maps (demo_deps tid)"
  by (simp add: json_maps_def demo_deps_def)

section \<open>Properties\<close>

text \<open>C6. What an accepted batch is: its tenant is the one the resolver returned and is not empty; the batch
  and every span carry that tenant and the time of receipt; every span has valid identifiers, distinct
  attribute keys and attributes within the limits; and every queue accepted exactly these spans
  under that tenant, at once or after waiting.\<close>

theorem Ingest_accepts:
  assumes "Ingest d p r subj dev sv = (Inr b, sv')" and "json_maps d"
  shows "\<exists>tid. resolve d dev subj = Inr tid \<and> tid \<noteq> [] \<and> ba_Tenant b = tid
    \<and> (\<forall>s \<in> set (ba_Spans b). sp_Tenant s = tid \<and> sp_ReceivedUnixNano s = u64 (unix_nano (id_now d))
         \<and> valid_ids s \<and> distinct (map fst (sp_Attrs s))
         \<and> (\<forall>(k, v) \<in> set (sp_Attrs s). attr_fits (ic_Limits (sv_cfg sv)) k v))
    \<and> length (sv_queues sv') = length (sv_queues sv)
    \<and> (\<forall>i < length (sv_queues sv). accepted_by (id_wait d i)
         \<lparr>qb_tenant = tid, qb_spans = ba_Spans b, qb_bytes = uint (ba_SizeBytes b)\<rparr>
         (sv_queues sv ! i) (sv_queues sv' ! i))"
proof -
  obtain f batch0 batch2 tid qs where st:
    "normalizers d p = Some f" "f r = Inr batch0"
    "applyLimits (ic_Limits (sv_cfg sv)) (batch0\<lparr>ba_ReceivedUnixNano := u64 (unix_nano (id_now d))\<rparr>) = (batch2, None)"
    "resolve d dev subj = Inr tid" "tid \<noteq> []" "b = stamp tid batch2"
    "fan_out (id_wait d) 0 tid (ba_Spans b) (ba_SizeBytes b) (sv_queues sv) = (qs, None)"
    "sv' = sv\<lparr>sv_queues := qs, sv_metrics := spansReceived p tid (int (length (ba_Spans b))) (batchReceived p (sv_metrics sv))\<rparr>"
    using assms(1) by (rule Ingest_accepted)
  have time: "ba_ReceivedUnixNano batch2 = u64 (unix_nano (id_now d))"
    using applyLimits_received [OF st(3)] by simp
  have ok: "valid_ids s \<and> distinct (keys (sp_Attrs s)) \<and> (\<forall>(k, v) \<in> set (sp_Attrs s). attr_fits (ic_Limits (sv_cfg sv)) k v)"
    if "s \<in> set (ba_Spans batch2)" for s
    using applyLimits_spans [OF st(3) _ that] normalized_valid [OF assms(2) st(1,2)] by auto
  have spans: "sp_Tenant s = tid \<and> sp_ReceivedUnixNano s = u64 (unix_nano (id_now d))
      \<and> valid_ids s \<and> distinct (map fst (sp_Attrs s)) \<and> (\<forall>(k, v) \<in> set (sp_Attrs s). attr_fits (ic_Limits (sv_cfg sv)) k v)"
    if "s \<in> set (ba_Spans b)" for s
  proof -
    have "s \<in> (\<lambda>s. s\<lparr>sp_Tenant := tid, sp_ReceivedUnixNano := ba_ReceivedUnixNano batch2\<rparr>) ` set (ba_Spans batch2)"
      using that by (simp add: st(6) stamp_def)
    then obtain s0 where s0: "s0 \<in> set (ba_Spans batch2)"
      "s = s0\<lparr>sp_Tenant := tid, sp_ReceivedUnixNano := ba_ReceivedUnixNano batch2\<rparr>"
      by (rule imageE)
    from ok [OF s0(1)] show ?thesis by (simp add: s0(2) time valid_ids_def)
  qed
  have "ba_Tenant b = tid" by (simp add: st(6) stamp_def)
  with st(4,5) spans fan_out_accepted [OF st(7)] show ?thesis by (intro exI [of _ tid]) (simp add: st(8))
qed

theorem Ingest_accepts_witness:
  "\<exists>b sv'. Ingest (demo_deps ''t1'') ProtocolOTLPGRPC (RawOTLP demo_request) [] True demo_server = (Inr b, sv')
     \<and> length (ba_Spans b) = 1 \<and> (\<forall>s \<in> set (ba_Spans b). sp_Tenant s = ''t1'')"
proof -
  obtain b sv' where b: "Ingest (demo_deps ''t1'') ProtocolOTLPGRPC (RawOTLP demo_request) [] True demo_server = (Inr b, sv')"
    "length (ba_Spans b) = 1" using demo_accepted by blast
  from Ingest_accepts [OF b(1) demo_json] have "\<forall>s \<in> set (ba_Spans b). sp_Tenant s = ''t1''"
    by (auto simp: resolve_def demo_deps_def)
  with b show ?thesis by blast
qed

text \<open>Fail closed: when the resolver fails or returns the empty tenant, the request is refused as
  malformed, oversize or unauthenticated, no queue changes and no span is counted as received.\<close>

theorem unauthenticated_refused:
  assumes "\<And>tid. resolve d dev subj = Inr tid \<Longrightarrow> tid = []"
  shows "\<exists>ie sv'. Ingest d p r subj dev sv = (Inl (IngestErr ie), sv') \<and> sv_queues sv' = sv_queues sv
      \<and> ie_Reason ie \<in> {ReasonMalformed, ReasonOversize, ReasonUnauthenticated} \<and> ie_Protocol ie = p
      \<and> me_received (sv_metrics sv') = me_received (sv_metrics sv)"
proof -
  have rej [simp]: "sv_queues (rejected p r n s) = sv_queues s"
    "me_received (sv_metrics (rejected p r n s)) = me_received (sv_metrics s)" for p r n s
    by (simp_all add: rejected_def spansRejected_def)
  have bat [simp]: "me_received (batchReceived p m) = me_received m" for p m by (simp add: batchReceived_def)
  show ?thesis
    unfolding Ingest_def Let_def
    by (auto simp: ingest_error_def with_protocol_def split: option.split sum.split prod.split
        dest: applyLimits_error assms)
qed

theorem unauthenticated_refused_witness:
  "\<exists>e sv'. Ingest (demo_deps ''t1'') ProtocolOTLPGRPC (RawOTLP demo_request) [] False demo_server = (Inl e, sv')
     \<and> sv_queues sv' = sv_queues demo_server"
proof -
  have "tid = []" if "resolve (demo_deps ''t1'') False [] = Inr tid" for tid
    using that by (simp add: resolve_def demo_deps_def)
  from unauthenticated_refused [OF this] show ?thesis by blast
qed

lemma fan_out_refused:
  "fan_out w i tid spans sz qs = (qs', Some e) \<Longrightarrow> length qs' = length qs \<and> (\<exists>j < length qs.
      (\<forall>k < j. accepted_by (w (i + k)) \<lparr>qb_tenant = tid, qb_spans = spans, qb_bytes = uint sz\<rparr> (qs ! k) (qs' ! k))
      \<and> push (w (i + j)) tid spans sz (qs ! j) = (qs' ! j, Some e)
      \<and> (\<forall>k. j < k \<longrightarrow> k < length qs \<longrightarrow> qs' ! k = qs ! k))"
proof (induction qs arbitrary: i qs')
  case (Cons q qs)
  obtain q1 e1 where one: "push (w i) tid spans sz q = (q1, e1)" by force
  show ?case
  proof (cases e1)
    case (Some x)
    with one Cons.prems have "qs' = q1 # qs" "x = e" by auto
    with one Some show ?thesis by (auto intro!: exI [of _ 0] simp: nth_Cons split: nat.split)
  next
    case None
    obtain qs1 where two: "fan_out w (i + 1) tid spans sz qs = (qs1, Some e)" "qs' = q1 # qs1"
      using Cons.prems one None by (auto simp: Let_def split: prod.splits)
    from Cons.IH [OF two(1)] obtain j where j: "length qs1 = length qs" "j < length qs"
      "\<forall>k < j. accepted_by (w (i + 1 + k)) \<lparr>qb_tenant = tid, qb_spans = spans, qb_bytes = uint sz\<rparr> (qs ! k) (qs1 ! k)"
      "push (w (i + 1 + j)) tid spans sz (qs ! j) = (qs1 ! j, Some e)"
      "\<forall>k. j < k \<longrightarrow> k < length qs \<longrightarrow> qs1 ! k = qs ! k" by blast
    have "accepted_by (w (i + k)) \<lparr>qb_tenant = tid, qb_spans = spans, qb_bytes = uint sz\<rparr> ((q # qs) ! k) (qs' ! k)"
      if "k < Suc j" for k
      using that j(3) push_accepted [OF one [unfolded None]] two(2) by (cases k) auto
    moreover have "qs' ! k = (q # qs) ! k" if "Suc j < k" "k < length (q # qs)" for k
      using that j(5) two(2) by (cases k) auto
    ultimately show ?thesis
      using j two(2) by (intro conjI exI [of _ "Suc j"]) auto
  qed
qed simp

text \<open>A full queue refuses the request half way: when \<open>Ingest\<close> fails for a full queue, some queue \<open>j\<close>
  refused the batch, every queue before it had already accepted it and keeps it, and every queue
  after it was not offered it.  (A client that retries delivers the batch twice to the first sinks.)\<close>

theorem refused_by_queue:
  assumes "Ingest d p r subj dev sv = (Inl (IngestErr ie), sv')"
    and "ie_Reason ie = ReasonQueueFull \<or> ie_Reason ie = ReasonQueueFullAfterWait"
  shows "\<exists>tid spans sz j. j < length (sv_queues sv)
    \<and> (\<forall>k < j. accepted_by (id_wait d k) \<lparr>qb_tenant = tid, qb_spans = spans, qb_bytes = uint sz\<rparr>
          (sv_queues sv ! k) (sv_queues sv' ! k))
    \<and> snd (push (id_wait d j) tid spans sz (sv_queues sv ! j)) \<noteq> None
    \<and> (\<forall>k. j < k \<longrightarrow> k < length (sv_queues sv) \<longrightarrow> sv_queues sv' ! k = sv_queues sv ! k)"
proof -
  have "\<exists>tid spans sz e. fan_out (id_wait d) 0 tid spans sz (sv_queues sv) = (sv_queues sv', Some e)"
  proof -
    have r: "sv_queues (rejected p r n s) = sv_queues s" for p r n s by (simp add: rejected_def)
    show ?thesis
      using assms unfolding Ingest_def Let_def
      by (auto simp: ingest_error_def with_protocol_def r split: option.splits sum.splits prod.splits if_splits
          error.splits dest: applyLimits_error) (intro exI, assumption)+
  qed
  then obtain tid spans sz e where f: "fan_out (id_wait d) 0 tid spans sz (sv_queues sv) = (sv_queues sv', Some e)"
    by blast
  let ?b = "\<lparr>qb_tenant = tid, qb_spans = spans, qb_bytes = uint sz\<rparr>"
  from fan_out_refused [OF f] obtain j where j: "j < length (sv_queues sv)"
    "\<forall>k < j. accepted_by (id_wait d (0 + k)) ?b (sv_queues sv ! k) (sv_queues sv' ! k)"
    "push (id_wait d (0 + j)) tid spans sz (sv_queues sv ! j) = (sv_queues sv' ! j, Some e)"
    "\<forall>k. j < k \<longrightarrow> k < length (sv_queues sv) \<longrightarrow> sv_queues sv' ! k = sv_queues sv ! k" by blast
  show ?thesis
    by (rule exI [of _ tid], rule exI [of _ spans], rule exI [of _ sz], rule exI [of _ j]) (use j in simp)
qed

definition demo_server2 :: server where
  "demo_server2 = demo_server\<lparr>sv_queues :=
     [newSinkQueue demo_queue_config, (newSinkQueue demo_queue_config)\<lparr>sq_ch := [demo_qbatch, demo_qbatch], sq_bytes := 120\<rparr>]\<rparr>"

lemma demo_refused: "\<exists>ie sv'. Ingest (demo_deps ''t1'') ProtocolOTLPGRPC (RawOTLP demo_request) [] True demo_server2
    = (Inl (IngestErr ie), sv') \<and> ie_Reason ie = ReasonQueueFull \<and> length (sq_ch (sv_queues sv' ! 0)) = 1"
  by (simp add: Ingest_def demo_server2_def demo_ingest queue_error_def with_protocol_def rejected_def Let_def)

theorem refused_by_queue_witness:
  "\<exists>ie sv' tid spans sz j. Ingest (demo_deps ''t1'') ProtocolOTLPGRPC (RawOTLP demo_request) [] True demo_server2
     = (Inl (IngestErr ie), sv') \<and> length (sq_ch (sv_queues sv' ! 0)) = 1
     \<and> snd (push (\<lambda>q. TimerFires q) tid spans sz (sv_queues demo_server2 ! j)) \<noteq> None"
proof -
  obtain ie sv' where r: "Ingest (demo_deps ''t1'') ProtocolOTLPGRPC (RawOTLP demo_request) [] True demo_server2
    = (Inl (IngestErr ie), sv')" "ie_Reason ie = ReasonQueueFull" "length (sq_ch (sv_queues sv' ! 0)) = 1"
    using demo_refused by blast
  from refused_by_queue [OF r(1) disjI1 [OF r(2)]] r(1,3) show ?thesis
    by (simp add: demo_deps_def) blast
qed

end
