(* ===== verification/AnomalyModel.thy ===== *)
theory AnomalyModel
  imports Telemetry
begin

text \<open>
  internal/model/anomaly.go: anomaly events and the incidents they are grouped into.  The enums are
  \<open>uint8\<close>; as elsewhere one constructor stands for the undeclared values.
\<close>

datatype anomaly_kind =
    AnomalyLatencyShift | AnomalyErrorBurst | AnomalyNewErrorSignature | AnomalyThroughputDrop
  | AnomalyTopologyChange | AnomalyUndeclared "8 word"

datatype severity =
    SeverityUnknown | SeverityInfo | SeverityLow | SeverityMedium | SeverityHigh | SeverityCritical
  | SeverityUndeclared "8 word"

datatype incident_status =
    IncidentCandidate | IncidentInvestigating | IncidentReported | IncidentPaging | IncidentResolved
  | IncidentSuppressed | IncidentExpired | IncidentUndeclared "8 word"

record anomaly_event =
  ae_ID :: string
  ae_Tenant :: tenant_id
  ae_Kind :: anomaly_kind
  ae_DetectorID :: string
  ae_Service :: string
  ae_Operation :: string
  ae_EdgeID :: string
  ae_WindowStart :: gotime
  ae_WindowEnd :: gotime
  ae_Observed :: rat
  ae_Baseline :: rat
  ae_Deviation :: rat
  ae_Score :: rat
  ae_Severity :: severity
  ae_ErrorSigID :: string
  ae_ExemplarTraceIDs :: "trace_id list"
  ae_DeployMarkerIDs :: "string list"
  ae_Provisional :: bool
  ae_Explanation :: string
  ae_CreatedAt :: gotime

record incident =
  in_ID :: string
  in_Tenant :: tenant_id
  in_Title :: string
  in_Status :: incident_status
  in_Severity :: severity
  in_Score :: rat
  in_Fingerprint :: string
  in_EventIDs :: "string list"
  in_Services :: "string list"
  in_EpicenterService :: string
  in_BlastRadius :: "string list"
  in_ExemplarTraceIDs :: "trace_id list"
  in_DeployMarkerIDs :: "string list"
  in_InvestigationID :: string
  in_SuppressedBy :: string
  in_Provisional :: bool
  in_FirstSeen :: gotime
  in_LastSeen :: gotime
  in_CreatedAt :: gotime
  in_UpdatedAt :: gotime

end
