(* ===== verification/TopologyModel.thy ===== *)
theory TopologyModel
  imports Red
begin

text \<open>
  internal/topology/topology.go: edges, operations of an edge, change events and directions; and the
  functions of livegraph.go that look at one span: the peer, the protocol, the histogram bucket.
\<close>

section \<open>topology.go\<close>

record edge =
  ed_ID :: string
  ed_Tenant :: tenant_id
  ed_Caller :: string
  ed_Callee :: string
  ed_Protocol :: string
  ed_BucketStart :: gotime
  ed_Resolution :: resolution
  ed_Calls :: "64 word"
  ed_Errors :: "64 word"
  ed_DurationSumNanos :: "64 word"
  ed_Hist :: "32 word list"
  ed_ExemplarTraceIDs :: "trace_id list"
  ed_FirstSeen :: gotime
  ed_LastSeen :: gotime
  ed_IsNew :: bool
  ed_IsVanished :: bool

record edge_op =
  eo_Tenant :: tenant_id
  eo_EdgeID :: string
  eo_CalleeOperation :: string
  eo_BucketStart :: gotime
  eo_Calls :: "64 word"
  eo_Errors :: "64 word"
  eo_P99Nanos :: "64 word"

datatype direction = Upstream | Downstream | Both | DirectionUndeclared "8 word"

record neighborhood =
  nh_Root :: string
  nh_Upstream :: "string list"
  nh_Downstream :: "string list"
  nh_Edges :: "edge list"
  nh_HopOf :: "(string \<times> int) list"

datatype change_kind = NewEdge | VanishedEdge

record change_event =
  ce_Kind :: change_kind
  ce_Edge :: edge
  ce_Detected :: gotime

record topology_snapshot =
  ts_Tenant :: tenant_id
  ts_At :: gotime
  ts_Edges :: "edge list"

record topology_stats =
  tg_EdgeCount :: nat
  tg_EdgesEvicted :: int
  tg_OpenBuckets :: nat

section \<open>Reading a span\<close>

definition strAttr :: "attr_map \<Rightarrow> string \<Rightarrow> string option" where
  "strAttr attrs key =
     (case map_of attrs key of
        None \<Rightarrow> None
      | Some v \<Rightarrow> if av_Kind v \<noteq> AttrStr \<or> av_Str v = [] then None else Some (av_Str v))"

definition protocolOf :: "attr_map \<Rightarrow> string" where
  "protocolOf attrs =
     (if map_of attrs ''rpc.system'' \<noteq> None then ''grpc''
      else if map_of attrs ''http.request.method'' \<noteq> None then ''http''
      else if map_of attrs ''http.method'' \<noteq> None then ''http''
      else if map_of attrs ''db.system'' \<noteq> None then ''db''
      else if map_of attrs ''messaging.system'' \<noteq> None then ''messaging''
      else ''unknown'')"

definition extractPeer :: "attr_map \<Rightarrow> string \<times> string" where
  "extractPeer attrs =
     (case strAttr attrs ''peer.service'' of
        Some v \<Rightarrow> (v, protocolOf attrs)
      | None \<Rightarrow>
         (case strAttr attrs ''server.address'' of
            Some v \<Rightarrow> (v, protocolOf attrs)
          | None \<Rightarrow>
             (case strAttr attrs ''db.system'' of
                Some v \<Rightarrow> (''db:'' @ v, ''db'')
              | None \<Rightarrow>
                 (case strAttr attrs ''messaging.destination.name'' of
                    Some v \<Rightarrow> (v, ''messaging'')
                  | None \<Rightarrow> ([], ''unknown'')))))"

definition nul :: string where "nul = [CHR 0x00]"

definition edgeIDFor :: "string \<Rightarrow> string \<Rightarrow> string \<Rightarrow> string" where
  "edgeIDFor caller callee protocol = caller @ nul @ callee @ nul @ protocol"

text \<open>The search for the bucket: \<open>idx\<close> counts up to 15 while \<open>ms\<close> is at least twice the bound.\<close>

fun bucket_search :: "nat \<Rightarrow> nat \<Rightarrow> 64 word \<Rightarrow> 64 word \<Rightarrow> nat" where
  "bucket_search 0 idx bound ms = idx"
| "bucket_search (Suc left) idx bound ms =
     (if ms \<ge> bound * 2 then bucket_search left (Suc idx) (bound * 2) ms else idx)"

definition bucketIndex :: "64 word \<Rightarrow> nat" where
  "bucketIndex durationNanos =
     (let ms = durationNanos div 1000000 in if ms < 1 then 0 else bucket_search 15 0 1 ms)"

definition addToHist :: "64 word \<Rightarrow> 32 word list \<Rightarrow> 32 word list" where
  "addToHist d hist = hist[bucketIndex d := hist ! bucketIndex d + 1]"

text \<open>\<open>t.Truncate(d)\<close> rounds down to a multiple of \<open>d\<close> since the zero time.\<close>

definition time_truncate :: "gotime \<Rightarrow> duration \<Rightarrow> gotime" where
  "time_truncate t d = t - t mod d"

section \<open>Facts\<close>

lemma bucket_search_bounds:
  assumes "uint bound * 2 ^ left \<le> 2 ^ 62" and "0 < uint bound"
  shows "idx \<le> bucket_search left idx bound ms \<and> bucket_search left idx bound ms \<le> idx + left"
  using assms
proof (induction left arbitrary: idx bound)
  case (Suc left)
  have "uint bound * 2 \<le> uint bound * 2 ^ Suc left" using Suc.prems(2) by simp
  then have "uint bound * 2 \<le> 2 ^ 62" using Suc.prems(1) by (rule order.trans)
  then have "uint bound * 2 < 2 ^ 64" by (rule order.strict_trans1) simp
  then have "uint (bound * 2) = uint bound * 2" by (simp add: uint_word_ariths)
  with Suc.IH [of "bound * 2" "Suc idx"] Suc.prems show ?case by (auto simp: ac_simps)
qed simp

lemma bucketIndex_lt: "bucketIndex d < 16"
  using bucket_search_bounds [of 1 15 0 "d div 1000000"] by (simp add: bucketIndex_def Let_def)

lemma addToHist_length [simp]: "length (addToHist d hist) = length hist"
  by (simp add: addToHist_def)

end
