(* ===== verification/RcaModel.thy ===== *)
theory RcaModel
  imports AnomalyModel Interest TopologyModel
begin

text \<open>
  The data of root cause analysis: internal/model/rca.go, the argument, proposal and state types of
  internal/rca/rca.go, the sentinels of errors.go, and the messages of internal/llm/llm.go.

  Go's string enums are strings; \<open>uint8\<close> enums are datatypes with one constructor for the undeclared
  values (\<open>TermNone\<close> is the zero value an investigation has while it runs).  \<open>int64\<close> counters that
  add values from outside are integers wrapped with \<open>wrap64\<close>; steps and tool calls grow by one and
  stay below the budget.  Scores are float64 values, that is rationals (no NaN: they come from
  decoded JSON or from the rules).  Left out are the fields of \<open>Investigation\<close> that no code of the
  package reads or writes: \<open>BlastRadius\<close>, \<open>SuggestedActions\<close>, \<open>MemoryHits\<close>, \<open>ModelID\<close>,
  \<open>PromptVersion\<close>.
\<close>

section \<open>internal/rca/errors.go\<close>

datatype rca_sentinel =
    ErrNoMoreRules | ErrEvidenceCorrupt | ErrLLMTransport | ErrLLMRefused | ErrLLMSchemaInvalid
  | ErrLLMCanaryViolation | ErrLLMBudgetExceeded | ErrToolUnavailable

text \<open>
  An error is a sentinel, a sentinel wrapping the detail of another error (\<open>%w: %v\<close>), a plain text, the
  refusal of a score out of range, or an error in a context (\<open>text: %w\<close>).  The text of an error is kept as this structure: \<open>err.Error()\<close>
  is the error itself, and the empty string is \<open>None\<close>.
\<close>

datatype rca_err =
    RPlain rca_sentinel | RWrapped rca_sentinel rca_err | ROther string | RScore string rat
  | RContext string rca_err

fun rca_sentinel_of :: "rca_err \<Rightarrow> rca_sentinel option" where
  "rca_sentinel_of (RPlain s) = Some s"
| "rca_sentinel_of (RWrapped s d) = Some s"
| "rca_sentinel_of (ROther t) = None"
| "rca_sentinel_of (RScore h x) = None"
| "rca_sentinel_of (RContext t e) = rca_sentinel_of e"

definition isFallbackTrigger :: "rca_err \<Rightarrow> bool" where
  "isFallbackTrigger e =
     (rca_sentinel_of e = Some ErrLLMTransport
      \<or> rca_sentinel_of e = Some ErrLLMRefused
      \<or> rca_sentinel_of e = Some ErrLLMSchemaInvalid
      \<or> rca_sentinel_of e = Some ErrLLMCanaryViolation
      \<or> rca_sentinel_of e = Some ErrLLMBudgetExceeded)"

text \<open>\<open>rca.confidence_threshold\<close>, and the cap after a swap: the constant \<open>0.74\<close> as a float64.\<close>

definition confidenceThreshold :: rat where
  "confidenceThreshold = 3 / 4"

definition swappedCap :: rat where
  "swappedCap = rnd64 (74 / 100)"

section \<open>internal/model/rca.go\<close>

datatype phase =
    PhaseContextualize | PhaseHypothesize | PhaseTest | PhaseValidate | PhaseReport
  | PhaseUndeclared "8 word"

fun phase_code :: "phase \<Rightarrow> nat" where
  "phase_code PhaseContextualize = 1"
| "phase_code PhaseHypothesize = 2"
| "phase_code PhaseTest = 3"
| "phase_code PhaseValidate = 4"
| "phase_code PhaseReport = 5"
| "phase_code (PhaseUndeclared w) = unat w"

datatype investigation_status =
    InvestigationRunning | InvestigationConcluded | InvestigationInconclusive
  | InvestigationBudgetExhausted | InvestigationFailed | InvestigationAborted

datatype hypothesis_category =
    CatUnknown | CatSaturation | CatDependencyFailure | CatDeployRegression | CatConfigChange
  | CatResourceExhaustion | CatNetwork | CatDataSkew | CatExternalProvider

datatype hypothesis_status =
    HypothesisProposed | HypothesisTesting | HypothesisSupported | HypothesisRefuted
  | HypothesisInconclusive | HypothesisUndeclared "8 word"

fun hypothesis_status_code :: "hypothesis_status \<Rightarrow> nat" where
  "hypothesis_status_code HypothesisProposed = 1"
| "hypothesis_status_code HypothesisTesting = 2"
| "hypothesis_status_code HypothesisSupported = 3"
| "hypothesis_status_code HypothesisRefuted = 4"
| "hypothesis_status_code HypothesisInconclusive = 5"
| "hypothesis_status_code (HypothesisUndeclared w) = unat w"

datatype hypothesis_source = HypSourceDetector | HypSourceMemory | HypSourceRule | HypSourceLLM

record hypothesis =
  hy_ID :: string
  hy_Statement :: string
  hy_Category :: hypothesis_category
  hy_Component :: string
  hy_PriorScore :: rat
  hy_PostScore :: rat
  hy_Status :: hypothesis_status
  hy_Source :: hypothesis_source

datatype termination_reason =
    TermNone | TermConcluded | TermSteps | TermToolCalls | TermTokens | TermCachedTokens | TermCost
  | TermWallClock | TermAborted | TermFailed

datatype reasoner_kind = ReasonerLLM | ReasonerRules

record reasoner_swap =
  rw_AtStep :: nat
  rw_From :: reasoner_kind
  rw_To :: reasoner_kind
  rw_Reason :: rca_err
  rw_At :: gotime

datatype replay_mode = ReplayNone | ReplayRecorded | ReplayLiveDiff | ReplayUndeclared "8 word"

type_synonym tool_name = string

definition ToolTraceQuery :: tool_name where "ToolTraceQuery = ''trace_query''"
definition ToolLogQuery :: tool_name where "ToolLogQuery = ''log_query''"
definition ToolMetricQuery :: tool_name where "ToolMetricQuery = ''metric_query''"
definition ToolTopologyQuery :: tool_name where "ToolTopologyQuery = ''topology_query''"
definition ToolMemoryQuery :: tool_name where "ToolMemoryQuery = ''memory_query''"

lemmas tool_names = ToolTraceQuery_def ToolLogQuery_def ToolMetricQuery_def ToolTopologyQuery_def
  ToolMemoryQuery_def

datatype step_verdict =
  VerdictOK | VerdictInvalidArgs | VerdictUnavailable | VerdictRefused | VerdictSchemaError

record budget =
  bg_WallClock :: duration
  bg_MaxStepWallClock :: duration
  bg_MaxSteps :: int
  bg_MaxToolCalls :: int
  bg_MaxTokensIn :: int
  bg_MaxCachedTokensIn :: int
  bg_MaxTokensOut :: int
  bg_MaxCostMicroUSD :: int
  bg_MaxRowsPerToolCall :: int
  bg_MaxEvidenceBytes :: int

record spend =
  spd_TokensIn :: int
  spd_CachedTokensIn :: int
  spd_TokensOut :: int
  spd_CostMicroUSD :: int
  spd_ToolCalls :: int
  spd_Steps :: int
  spd_WallClockMillis :: int

definition no_spend :: spend where
  "no_spend = \<lparr>spd_TokensIn = 0, spd_CachedTokensIn = 0, spd_TokensOut = 0, spd_CostMicroUSD = 0,
     spd_ToolCalls = 0, spd_Steps = 0, spd_WallClockMillis = 0\<rparr>"

record step =
  stp_ID :: string
  stp_InvestigationID :: string
  stp_Tenant :: tenant_id
  stp_Seq :: nat
  stp_Phase :: phase
  stp_Tool :: tool_name
  stp_ToolArgsJSON :: string
  stp_ToolArgsHash :: string
  stp_ToolResultHash :: string
  stp_ToolResultRef :: string
  stp_ToolResultBytes :: int
  stp_Truncated :: bool
  stp_Clamped :: bool
  stp_FromCache :: bool
  stp_ReasonerOutputRef :: string
  stp_ReasonerOutputHash :: string
  stp_Verdict :: step_verdict
  stp_StartedAt :: gotime
  stp_EndedAt :: gotime
  stp_LatencyMillis :: int

text \<open>The fields of \<open>Step\<close> nothing sets (\<open>PromptHash\<close>, \<open>EvidenceIDs\<close> and the token counts) are left out.\<close>

definition blank_step :: step where
  "blank_step = \<lparr>stp_ID = [], stp_InvestigationID = [], stp_Tenant = [], stp_Seq = 0,
     stp_Phase = PhaseUndeclared 0, stp_Tool = [], stp_ToolArgsJSON = [], stp_ToolArgsHash = [],
     stp_ToolResultHash = [], stp_ToolResultRef = [], stp_ToolResultBytes = 0, stp_Truncated = False,
     stp_Clamped = False, stp_FromCache = False, stp_ReasonerOutputRef = [],
     stp_ReasonerOutputHash = [], stp_Verdict = VerdictOK, stp_StartedAt = 0, stp_EndedAt = 0,
     stp_LatencyMillis = 0\<rparr>"

record investigation =
  iv_ID :: string
  iv_Tenant :: tenant_id
  iv_IncidentID :: string
  iv_IncidentIDs :: "string list"
  iv_Status :: investigation_status
  iv_Phase :: phase
  iv_Trigger :: string
  iv_Hypotheses :: "hypothesis list"
  iv_Steps :: "step list"
  iv_RootCause :: string
  iv_Confidence :: rat
  iv_ReasonerKind :: reasoner_kind
  iv_ReasonerSwaps :: "reasoner_swap list"
  iv_Budget :: budget
  iv_Spend :: spend
  iv_TerminationReason :: termination_reason
  iv_ReplaySeed :: int
  iv_ParentID :: string
  iv_ReplayOf :: string
  iv_ReplayMode :: replay_mode
  iv_ReportMarkdown :: string
  iv_Error :: "rca_err option"
  iv_StartedAt :: gotime
  iv_EndedAt :: gotime
  iv_Version :: int

record tool_result =
  tlr_Rows :: string
  tlr_Clamped :: bool
  tlr_Truncated :: bool
  tlr_FromCache :: bool
  tlr_Tool :: tool_name
  tlr_ObservedAt :: gotime

definition no_result :: tool_result where
  "no_result = \<lparr>tlr_Rows = [], tlr_Clamped = False, tlr_Truncated = False, tlr_FromCache = False,
     tlr_Tool = [], tlr_ObservedAt = 0\<rparr>"

record conclusion =
  co_RootCause :: string
  co_Confidence :: rat
  co_Hypotheses :: "hypothesis list"
  co_Rationale :: string

record correction =
  cr_ID :: string
  cr_TargetID :: string
  cr_Reason :: string
  cr_CorrectedBy :: string
  cr_CorrectedAt :: gotime
  cr_NewValue :: string

section \<open>internal/rca/rca.go\<close>

record trace_query_args =
  tq_Service :: string
  tq_Operation :: string
  tq_MinDurationMillis :: nat
  tq_Status :: string
  tq_AttrEquals :: "(string \<times> string) list"
  tq_ErrorSigID :: string
  tq_PathSignature :: "64 word"
  tq_Start :: gotime
  tq_End :: gotime
  tq_Limit :: int
  tq_Project :: "string list"

record log_query_args =
  lq_TraceID :: trace_id
  lq_Service :: string
  lq_Start :: gotime
  lq_End :: gotime
  lq_Contains :: string
  lq_Limit :: int

record metric_query_args =
  mq_TemplateID :: string
  mq_Params :: "(string \<times> string) list"
  mq_RED :: "(string \<times> string) option"
  mq_Start :: gotime
  mq_End :: gotime
  mq_StepSeconds :: int

record topology_query_args =
  oq_Service :: string
  oq_Hops :: int
  oq_Direction :: direction
  oq_Start :: gotime
  oq_End :: gotime
  oq_Limit :: int

record memory_query_args =
  yq_Fingerprint :: string
  yq_Text :: string
  yq_TopK :: int

record tool_args =
  ta_TenantID :: tenant_id
  ta_Tool :: tool_name
  ta_Trace :: "trace_query_args option"
  ta_Log :: "log_query_args option"
  ta_Metric :: "metric_query_args option"
  ta_Topology :: "topology_query_args option"
  ta_Memory :: "memory_query_args option"

record charge =
  ch_TokensIn :: int
  ch_CachedTokensIn :: int
  ch_TokensOut :: int
  ch_CostMicroUSD :: int

definition no_charge :: charge where
  "no_charge = \<lparr>ch_TokensIn = 0, ch_CachedTokensIn = 0, ch_TokensOut = 0, ch_CostMicroUSD = 0\<rparr>"

record proposal =
  pr_Phase :: phase
  pr_Hypotheses :: "hypothesis list"
  pr_Call :: "tool_args option"
  pr_Done :: bool
  pr_Rationale :: string
  pr_Usage :: charge

record rca_state =
  sa_Investigation :: investigation
  sa_Incident :: incident
  sa_LastArgs :: "tool_args option"
  sa_LastResult :: "tool_result option"
  sa_LastHypothesisID :: string

section \<open>internal/llm/llm.go\<close>

datatype stop_reason = StopEndTurn | StopToolUse | StopRefusal | StopMaxTokens

record usage =
  us_InputTokens :: int
  us_CachedReadTokens :: int
  us_CacheWriteTokens :: int
  us_OutputTokens :: int

record llm_response =
  lr_StopReason :: stop_reason
  lr_Content :: string
  lr_Usage :: usage

record llm_request =
  lm_Model :: string
  lm_System :: string
  lm_Messages :: "(string \<times> string) list"
  lm_Tools :: "(string \<times> string \<times> string) list"
  lm_Effort :: string
  lm_Thinking :: string
  lm_MaxOutputTokens :: int
  lm_PromptCache :: bool

end
