(* ===== verification/RcaSanitizer.thy ===== *)
theory RcaSanitizer
  imports RcaModel GoStrings
begin

text \<open>
  internal/rca/sanitizer.go: the delimiters around untrusted text, the escaping of the text inside, and
  the check that the model does not echo the canary.  SHA-256 is the argument \<open>H\<close>.

  The locale \<open>canary_escape\<close> is what the escaping relies on: a canary that shares no character with
  the replacement text and none with the delimiters.  It is interpreted on the canary the code
  derives for every investigation.
\<close>

datatype untrusted_kind =
    UntrustedTelemetry | UntrustedLog | UntrustedMemory | UntrustedUserQuestion | UntrustedRunbook
  | UntrustedDeployMetadata | UntrustedUndeclared "8 word"

fun untrustedKindLabel :: "untrusted_kind \<Rightarrow> string" where
  "untrustedKindLabel UntrustedTelemetry = ''telemetry''"
| "untrustedKindLabel UntrustedLog = ''log''"
| "untrustedKindLabel UntrustedMemory = ''memory''"
| "untrustedKindLabel UntrustedUserQuestion = ''user_question''"
| "untrustedKindLabel UntrustedRunbook = ''runbook''"
| "untrustedKindLabel UntrustedDeployMetadata = ''deploy_metadata''"
| "untrustedKindLabel (UntrustedUndeclared w) = ''unknown''"

text \<open>The result of \<open>sha256.Sum256\<close> is an array of 32 bytes, whatever \<open>H\<close> computes.\<close>

definition digest32 :: "string \<Rightarrow> string" where
  "digest32 s = take 32 (s @ replicate 32 (CHR 0x00))"

text \<open>A sanitizer is its canary: the first 16 bytes of a hash of the investigation, in hexadecimal.\<close>

definition newSanitizer :: "(string \<Rightarrow> string) \<Rightarrow> string \<Rightarrow> string" where
  "newSanitizer H invID = hex_string (take 16 (digest32 (H (''rca:canary:'' @ invID))))"

text \<open>The replacer of \<open>escapeUntrusted\<close> maps single bytes.\<close>

definition escape_angle :: "char \<Rightarrow> string" where
  "escape_angle c = (if c = CHR ''<'' then ''&lt;'' else if c = CHR ''>'' then ''&gt;'' else [c])"

definition redacted :: string where
  "redacted = ''[REDACTED-CANARY]''"

definition escapeUntrusted :: "string \<Rightarrow> string \<Rightarrow> string" where
  "escapeUntrusted payload canary =
     (let out = concat (map escape_angle payload)
      in if canary \<noteq> [] then replace_all canary redacted out else out)"

definition open_delim :: "string \<Rightarrow> untrusted_kind \<Rightarrow> string" where
  "open_delim canary k = ''<untrusted k='' @ go_quote (untrustedKindLabel k) @ '' c='' @ go_quote canary @ ''>''"

definition close_delim :: "string \<Rightarrow> untrusted_kind \<Rightarrow> string" where
  "close_delim canary k = ''</untrusted k='' @ go_quote (untrustedKindLabel k) @ '' c='' @ go_quote canary @ ''>''"

definition Wrap :: "string \<Rightarrow> untrusted_kind \<Rightarrow> string \<Rightarrow> string" where
  "Wrap canary k str = open_delim canary k @ escapeUntrusted str canary @ close_delim canary k"

definition CheckEcho :: "string \<Rightarrow> string \<Rightarrow> rca_err option" where
  "CheckEcho canary output =
     (if canary = [] then None
      else if sublist canary output then
        Some (RWrapped ErrLLMCanaryViolation (ROther (''canary '' @ go_quote canary @ '' present in model output'')))
      else None)"

section \<open>Replacing leaves no occurrence behind\<close>

lemma prefix_replace_all:
  assumes "set k \<inter> set new = {}" and "new \<noteq> []"
  shows "prefix k (replace_all old new s) \<Longrightarrow> prefix k s"
  using assms
proof (induction old new s arbitrary: k rule: replace_all.induct)
  case (2 old new c cs)
  show ?case
  proof (cases k)
    case (Cons x k')
    show ?thesis
    proof (cases "old \<noteq> [] \<and> prefix old (c # cs)")
      case True
      from "2.prems"(3) obtain y ys where "new = y # ys" by (cases new) auto
      with 2 True Cons show ?thesis by auto
    next
      case False
      with "2.prems"(1) Cons have "x = c" and pre: "prefix k' (replace_all old new cs)" by auto
      have "prefix k' cs" using "2.IH"(2) [OF False pre] "2.prems"(2,3) Cons by simp
      with \<open>x = c\<close> Cons show ?thesis by simp
    qed
  qed simp
qed simp

lemma sublist_skip:
  assumes "set k \<inter> set r = {}" and "k \<noteq> []" and "sublist k (r @ s)"
  shows "sublist k s"
  using assms(1,3)
proof (induction r)
  case (Cons x r)
  from Cons.prems assms(2) have "\<not> prefix k (x # r @ s)" by (cases k) auto
  with Cons.prems have "sublist k (r @ s)" by (auto simp: sublist_Cons_right)
  with Cons show ?case by auto
qed simp

lemma replace_all_no_occurrence:
  assumes "set k \<inter> set new = {}" and "new \<noteq> []" and "k \<noteq> []"
  shows "\<not> sublist k (replace_all k new s)"
  using assms
proof (induction k new s rule: replace_all.induct)
  case (2 k new c cs)
  show ?case
  proof (cases "prefix k (c # cs)")
    case True
    with 2 show ?thesis by (auto dest: sublist_skip)
  next
    case False
    have "\<not> prefix k (c # replace_all k new cs)"
    proof
      assume "prefix k (c # replace_all k new cs)"
      with False "2.prems"(3) have "prefix k (replace_all k new (c # cs))" by simp
      with prefix_replace_all [OF "2.prems"(1,2)] False show False by blast
    qed
    with 2 False show ?thesis by (simp add: sublist_Cons_right)
  qed
qed simp

lemma set_replace_all: "set (replace_all old new s) \<subseteq> set new \<union> set s"
proof (induction old new s rule: replace_all.induct)
  case (2 old new c cs)
  have "set (drop (length old) (c # cs)) \<subseteq> set (c # cs)" by (rule set_drop_subset)
  with 2 show ?case by auto
qed simp

section \<open>The contract of the escaping\<close>

locale canary_escape =
  fixes canary :: string
  assumes nonempty: "canary \<noteq> []"
    and not_redacted: "set canary \<inter> set redacted = {}"
begin

lemma no_canary: "\<not> sublist canary (escapeUntrusted s canary)"
proof -
  have "redacted \<noteq> []" by (simp add: redacted_def)
  with nonempty not_redacted show ?thesis by (simp add: escapeUntrusted_def replace_all_no_occurrence)
qed

lemma no_angle: "CHR ''<'' \<notin> set (escapeUntrusted s canary) \<and> CHR ''>'' \<notin> set (escapeUntrusted s canary)"
proof -
  have "set (escapeUntrusted s canary) \<subseteq> set redacted \<union> set (concat (map escape_angle s))"
    using set_replace_all [of canary redacted "concat (map escape_angle s)"] nonempty
    by (simp only: escapeUntrusted_def Let_def if_True not_False_eq_True)
  moreover have "CHR ''<'' \<notin> set (concat (map escape_angle s))" "CHR ''>'' \<notin> set (concat (map escape_angle s))"
    by (auto simp: escape_angle_def)
  ultimately show ?thesis by (auto simp: redacted_def)
qed

end

section \<open>The canary of an investigation\<close>

lemma digest32_length [simp]: "length (digest32 s) = 32"
  by (simp add: digest32_def)

lemma hex_digit_set: "hex_digit (of_char c div 16) \<in> set ''0123456789abcdef''"
    "hex_digit (of_char c mod 16) \<in> set ''0123456789abcdef''"
proof -
  have "list_all (\<lambda>n. hex_digit n \<in> set ''0123456789abcdef'') [0..<16]" by code_simp
  then have digits: "hex_digit n \<in> set ''0123456789abcdef''" if "n < 16" for n
    using that by (simp only: list_all_iff set_upt) auto
  have "of_char c < (256 :: nat)" by (fact nat_of_char_less_256)
  then show "hex_digit (of_char c div 16) \<in> set ''0123456789abcdef''" by (intro digits) linarith
  show "hex_digit (of_char c mod 16) \<in> set ''0123456789abcdef''" by (intro digits) simp
qed

lemma hex_string_chars: "set (hex_string s) \<subseteq> set ''0123456789abcdef''"
proof (induction s)
  case (Cons c s)
  then show ?case using hex_digit_set [of c] by (simp add: hex_string_def hex_byte_def Let_def)
qed (simp add: hex_string_def)

lemma newSanitizer_length: "length (newSanitizer H invID) = 32"
proof -
  have len: "length (hex_string s) = 2 * length s" for s
    by (induction s) (simp_all add: hex_string_def hex_byte_def Let_def)
  show ?thesis by (simp add: newSanitizer_def len)
qed

lemma newSanitizer_chars: "set (newSanitizer H invID) \<subseteq> set ''0123456789abcdef''"
  unfolding newSanitizer_def by (fact hex_string_chars)

interpretation canary: canary_escape "newSanitizer H invID" for H invID
proof
  show "newSanitizer H invID \<noteq> []" using newSanitizer_length [of H invID] by auto
  have "set ''0123456789abcdef'' \<inter> set redacted = {}" by (simp add: redacted_def)
  with newSanitizer_chars [of H invID] show "set (newSanitizer H invID) \<inter> set redacted = {}" by blast
qed

lemma quote_byte_plain: "c \<in> set ''0123456789abcdefghijklmnopqrstuvwxyz_'' \<Longrightarrow> quote_byte c = [c]"
  by (auto simp: quote_byte_def Let_def)

lemma go_quote_plain: "set s \<subseteq> set ''0123456789abcdefghijklmnopqrstuvwxyz_'' \<Longrightarrow> go_quote s = CHR 0x22 # s @ [CHR 0x22]"
proof -
  assume "set s \<subseteq> set ''0123456789abcdefghijklmnopqrstuvwxyz_''"
  then have "\<forall>c \<in> set s. quote_byte c = [c]" using quote_byte_plain by blast
  then have "concat (map quote_byte s) = s" by (induction s) auto
  then show ?thesis by (simp add: go_quote_def)
qed

lemma label_chars: "set (untrustedKindLabel k) \<subseteq> set ''0123456789abcdefghijklmnopqrstuvwxyz_''"
  by (cases k) auto

lemma wrap_delimiters:
  fixes H invID k
  defines "c \<equiv> newSanitizer H invID"
  obtains p q where "open_delim c k = ''<u'' @ p" and "CHR ''<'' \<notin> set p"
    and "close_delim c k = ''</'' @ q" and "CHR ''<'' \<notin> set q"
proof -
  have "set ''0123456789abcdef'' \<subseteq> set ''0123456789abcdefghijklmnopqrstuvwxyz_''" by simp
  with newSanitizer_chars have cs: "set c \<subseteq> set ''0123456789abcdefghijklmnopqrstuvwxyz_''"
    unfolding c_def by blast
  then have "CHR ''<'' \<notin> set c" by auto
  moreover have "CHR ''<'' \<notin> set (untrustedKindLabel k)" using label_chars [of k] by auto
  ultimately show ?thesis
    by (intro that [of "''ntrusted k='' @ go_quote (untrustedKindLabel k) @ '' c='' @ go_quote c @ ''>''"
          "''untrusted k='' @ go_quote (untrustedKindLabel k) @ '' c='' @ go_quote c @ ''>''"])
      (simp_all add: open_delim_def close_delim_def go_quote_plain [OF cs] go_quote_plain [OF label_chars])
qed

lemma wrap_closes_once:
  assumes w: "Wrap (newSanitizer H invID) k s = pre @ ''</'' @ post"
  shows "pre = open_delim (newSanitizer H invID) k @ escapeUntrusted s (newSanitizer H invID)"
proof -
  let ?c = "newSanitizer H invID"
  obtain p q where p: "open_delim ?c k = ''<u'' @ p" "CHR ''<'' \<notin> set p"
    and q: "close_delim ?c k = ''</'' @ q" "CHR ''<'' \<notin> set q"
    by (rule wrap_delimiters)
  let ?m = "CHR ''u'' # p @ escapeUntrusted s ?c" and ?q = "CHR ''/'' # q"
  have "CHR ''<'' \<notin> set ?m" "CHR ''<'' \<notin> set ?q" using p(2) q(2) canary.no_angle [of s H invID] by simp_all
  note one = append_Cons_eq_iff [OF this]
  from w have w': "CHR ''<'' # ?m @ CHR ''<'' # ?q = pre @ CHR ''<'' # CHR ''/'' # post"
    by (simp add: Wrap_def p(1) q(1))
  show ?thesis
  proof (cases pre)
    case Nil
    with w' show ?thesis by simp
  next
    case (Cons x pre')
    with w' have "?m @ CHR ''<'' # ?q = pre' @ CHR ''<'' # CHR ''/'' # post" and "x = CHR ''<''" by auto
    with one Cons show ?thesis by (simp add: p(1))
  qed
qed

text \<open>C25. Text that went through \<open>Wrap\<close> cannot leave its region: whatever the text, the wrapped form is
  the opening delimiter, a body without angle brackets and without the canary, and the closing
  delimiter, and that is the only place where a closing tag starts.\<close>

theorem wrapped_text_is_contained:
  "Wrap (newSanitizer H invID) k s =
     open_delim (newSanitizer H invID) k @ escapeUntrusted s (newSanitizer H invID) @ close_delim (newSanitizer H invID) k
   \<and> \<not> sublist (newSanitizer H invID) (escapeUntrusted s (newSanitizer H invID))
   \<and> CHR ''<'' \<notin> set (escapeUntrusted s (newSanitizer H invID))
   \<and> CHR ''>'' \<notin> set (escapeUntrusted s (newSanitizer H invID))
   \<and> {pre. \<exists>post. Wrap (newSanitizer H invID) k s = pre @ ''</'' @ post}
       = {open_delim (newSanitizer H invID) k @ escapeUntrusted s (newSanitizer H invID)}"
proof (intro conjI set_eqI iffI)
  show "Wrap (newSanitizer H invID) k s =
     open_delim (newSanitizer H invID) k @ escapeUntrusted s (newSanitizer H invID) @ close_delim (newSanitizer H invID) k"
    by (simp add: Wrap_def)
next
  fix pre assume "pre \<in> {pre. \<exists>post. Wrap (newSanitizer H invID) k s = pre @ ''</'' @ post}"
  then obtain post where "Wrap (newSanitizer H invID) k s = pre @ ''</'' @ post" by blast
  from wrap_closes_once [OF this]
  show "pre \<in> {open_delim (newSanitizer H invID) k @ escapeUntrusted s (newSanitizer H invID)}" by simp
next
  fix pre assume "pre \<in> {open_delim (newSanitizer H invID) k @ escapeUntrusted s (newSanitizer H invID)}"
  then show "pre \<in> {pre. \<exists>post. Wrap (newSanitizer H invID) k s = pre @ ''</'' @ post}"
    by (simp add: Wrap_def) (metis wrap_delimiters append_Cons append_Nil)
qed (simp_all add: canary.no_canary canary.no_angle)

end
