(* ===== verification/RcaStores.thy ===== *)
theory RcaStores
  imports RcaSanitizer
begin

text \<open>
  internal/rca/journal.go and budget.go, and the interfaces \<open>Journal\<close>, \<open>ObjectPutter\<close> and
  \<open>InterestSink\<close> of the package as records of operations on a state of any type.

  The locales \<open>durable_journal\<close> and \<open>object_store\<close> are what the engine relies on; \<open>MemJournal\<close> and
  \<open>MemObjectStore\<close> interpret them.  Every method holds the store's mutex, so it is atomic.  The
  journal's evidence table is written by \<open>AppendEvidence\<close>, which nothing calls, and read by nothing;
  it is left out.
\<close>

section \<open>The interfaces\<close>

record 'o object_ops =
  oo_Put :: "'o \<Rightarrow> tenant_id \<Rightarrow> string \<Rightarrow> string \<Rightarrow> 'o \<times> rca_err option"
  oo_Get :: "'o \<Rightarrow> tenant_id \<Rightarrow> string \<Rightarrow> rca_err + string"

record 'j journal_ops =
  jo_Create :: "'j \<Rightarrow> tenant_id \<Rightarrow> investigation \<Rightarrow> 'j \<times> rca_err option"
  jo_AppendStep :: "'j \<Rightarrow> tenant_id \<Rightarrow> string \<Rightarrow> step \<Rightarrow> 'j \<times> rca_err option"
  jo_Steps :: "'j \<Rightarrow> tenant_id \<Rightarrow> string \<Rightarrow> rca_err + step list"
  jo_SetStatus :: "'j \<Rightarrow> tenant_id \<Rightarrow> string \<Rightarrow> investigation_status \<Rightarrow> gotime \<Rightarrow> 'j \<times> rca_err option"

record 'i sink_ops =
  io_Set :: "'i \<Rightarrow> tenant_id \<Rightarrow> interest_predicate \<Rightarrow> 'i \<times> (rca_err + string)"
  io_Remove :: "'i \<Rightarrow> tenant_id \<Rightarrow> string \<Rightarrow> 'i \<times> rca_err option"

locale object_store =
  fixes ops :: "'o object_ops"
  assumes put_get: "oo_Put ops s t k d = (s', None) \<Longrightarrow> oo_Get ops s' t k = Inr d"
    and put_frame: "oo_Put ops s t k d = (s', e) \<Longrightarrow> k' \<noteq> k \<Longrightarrow> oo_Get ops s' t k' = oo_Get ops s t k'"

locale durable_journal =
  fixes ops :: "'j journal_ops" and fresh :: "'j \<Rightarrow> string \<Rightarrow> bool"
  assumes create: "fresh j (iv_ID v) \<Longrightarrow> iv_Tenant v = t \<Longrightarrow>
      snd (jo_Create ops j t v) = None \<and> jo_Steps ops (fst (jo_Create ops j t v)) t (iv_ID v) = Inr []"
    and append: "jo_Steps ops j t i = Inr xs \<Longrightarrow>
      snd (jo_AppendStep ops j t i st) = None \<and> jo_Steps ops (fst (jo_AppendStep ops j t i st)) t i = Inr (xs @ [st])"
    and status: "jo_Steps ops j t i = Inr xs \<Longrightarrow> jo_Steps ops (fst (jo_SetStatus ops j t i is tm)) t i = Inr xs"
begin

text \<open>Appending a list of steps, as a replay does.\<close>

lemma append_all:
  "jo_Steps ops j t i = Inr xs \<Longrightarrow>
     jo_Steps ops (foldl (\<lambda>j st. fst (jo_AppendStep ops j t i st)) j sts) t i = Inr (xs @ sts)"
proof (induction sts arbitrary: j xs)
  case (Cons st sts)
  from Cons.IH [OF conjunct2 [OF append [OF Cons.prems]]] show ?case by simp
qed simp

end

section \<open>MemObjectStore\<close>

type_synonym mem_objects = "string \<Rightarrow> string option"

definition MemObject_Put :: "mem_objects \<Rightarrow> tenant_id \<Rightarrow> string \<Rightarrow> string \<Rightarrow> mem_objects \<times> rca_err option" where
  "MemObject_Put m tid key data = (m(tid @ ''/'' @ key \<mapsto> data), None)"

definition MemObject_Get :: "mem_objects \<Rightarrow> tenant_id \<Rightarrow> string \<Rightarrow> rca_err + string" where
  "MemObject_Get m tid key =
     (case m (tid @ ''/'' @ key) of
        None \<Rightarrow> Inl (ROther (''rca: object '' @ go_quote key @ '' not found''))
      | Some v \<Rightarrow> Inr v)"

definition mem_object_ops :: "mem_objects object_ops" where
  "mem_object_ops = \<lparr>oo_Put = MemObject_Put, oo_Get = MemObject_Get\<rparr>"

interpretation mem_objects: object_store mem_object_ops
  by unfold_locales (auto simp: mem_object_ops_def MemObject_Put_def MemObject_Get_def)

text \<open>\<open>sha256Hex\<close>.\<close>

definition sha256Hex :: "(string \<Rightarrow> string) \<Rightarrow> string \<Rightarrow> string" where
  "sha256Hex H b = ''sha256:'' @ hex_string (digest32 (H b))"

section \<open>MemJournal\<close>

record mem_journal =
  mj_invs :: "(string \<times> investigation) list"
  mj_steps :: "string \<Rightarrow> step list"

definition NewMemJournal :: mem_journal where
  "NewMemJournal = \<lparr>mj_invs = [], mj_steps = (\<lambda>i. [])\<rparr>"

definition journal_knows :: "mem_journal \<Rightarrow> tenant_id \<Rightarrow> string \<Rightarrow> bool" where
  "journal_knows j tid i = (case map_of (mj_invs j) i of None \<Rightarrow> False | Some v \<Rightarrow> iv_Tenant v = tid)"

definition unknown_investigation :: "string \<Rightarrow> rca_err" where
  "unknown_investigation i = ROther (''rca: unknown investigation '' @ go_quote i)"

definition MemJournal_Create :: "mem_journal \<Rightarrow> tenant_id \<Rightarrow> investigation \<Rightarrow> mem_journal \<times> rca_err option" where
  "MemJournal_Create j tid v =
     (if iv_Tenant v \<noteq> tid then (j, Some (ROther ''rca: tenant mismatch on Create''))
      else (j\<lparr>mj_invs := AList.update (iv_ID v) v (mj_invs j)\<rparr>, None))"

definition MemJournal_AppendStep :: "mem_journal \<Rightarrow> tenant_id \<Rightarrow> string \<Rightarrow> step \<Rightarrow> mem_journal \<times> rca_err option" where
  "MemJournal_AppendStep j tid i st =
     (if \<not> journal_knows j tid i then (j, Some (unknown_investigation i))
      else (j\<lparr>mj_steps := (mj_steps j)(i := mj_steps j i @ [st])\<rparr>, None))"

definition MemJournal_Steps :: "mem_journal \<Rightarrow> tenant_id \<Rightarrow> string \<Rightarrow> rca_err + step list" where
  "MemJournal_Steps j tid i =
     (if \<not> journal_knows j tid i then Inl (unknown_investigation i) else Inr (mj_steps j i))"

definition MemJournal_SetStatus ::
  "mem_journal \<Rightarrow> tenant_id \<Rightarrow> string \<Rightarrow> investigation_status \<Rightarrow> gotime \<Rightarrow> mem_journal \<times> rca_err option" where
  "MemJournal_SetStatus j tid i st tm =
     (case map_of (mj_invs j) i of
        None \<Rightarrow> (j, Some (unknown_investigation i))
      | Some v \<Rightarrow>
          if iv_Tenant v \<noteq> tid then (j, Some (unknown_investigation i))
          else (j\<lparr>mj_invs := AList.update i (v\<lparr>iv_Status := st, iv_EndedAt := tm\<rparr>) (mj_invs j)\<rparr>, None))"

definition ListRunning :: "mem_journal \<Rightarrow> investigation list" where
  "ListRunning j = filter (\<lambda>v. iv_Status v = InvestigationRunning) (map snd (mj_invs j))"

definition mem_journal_ops :: "mem_journal journal_ops" where
  "mem_journal_ops =
     \<lparr>jo_Create = MemJournal_Create, jo_AppendStep = MemJournal_AppendStep, jo_Steps = MemJournal_Steps,
      jo_SetStatus = MemJournal_SetStatus\<rparr>"

interpretation mem_journal: durable_journal mem_journal_ops "\<lambda>j i. mj_steps j i = []"
  by unfold_locales
    (auto simp: mem_journal_ops_def MemJournal_Create_def MemJournal_AppendStep_def MemJournal_Steps_def
      MemJournal_SetStatus_def journal_knows_def split: option.splits if_splits)

section \<open>MemBudget\<close>

record mem_budget =
  mb_budget :: "string \<Rightarrow> budget option"
  mb_spend :: "string \<Rightarrow> spend"
  mb_term :: "string \<Rightarrow> termination_reason option"

definition NewMemBudget :: mem_budget where
  "NewMemBudget = \<lparr>mb_budget = (\<lambda>i. None), mb_spend = (\<lambda>i. no_spend), mb_term = (\<lambda>i. None)\<rparr>"

definition DefaultBudget :: budget where
  "DefaultBudget =
     \<lparr>bg_WallClock = 5 * minute, bg_MaxStepWallClock = 45 * second, bg_MaxSteps = 24, bg_MaxToolCalls = 40,
      bg_MaxTokensIn = 120000, bg_MaxCachedTokensIn = 600000, bg_MaxTokensOut = 64000,
      bg_MaxCostMicroUSD = 500000, bg_MaxRowsPerToolCall = 500, bg_MaxEvidenceBytes = 8192\<rparr>"

definition no_budget :: budget where
  "no_budget =
     \<lparr>bg_WallClock = 0, bg_MaxStepWallClock = 0, bg_MaxSteps = 0, bg_MaxToolCalls = 0, bg_MaxTokensIn = 0,
      bg_MaxCachedTokensIn = 0, bg_MaxTokensOut = 0, bg_MaxCostMicroUSD = 0, bg_MaxRowsPerToolCall = 0,
      bg_MaxEvidenceBytes = 0\<rparr>"

definition Reserve :: "string \<Rightarrow> budget \<Rightarrow> mem_budget \<Rightarrow> mem_budget" where
  "Reserve i b m = m\<lparr>mb_budget := (mb_budget m)(i \<mapsto> b), mb_spend := (mb_spend m)(i := no_spend)\<rparr>"

text \<open>Adding a charge to the four token and cost counters.\<close>

definition add_charge :: "charge \<Rightarrow> spend \<Rightarrow> spend" where
  "add_charge d s =
     s\<lparr>spd_TokensIn := wrap64 (spd_TokensIn s + ch_TokensIn d),
       spd_CachedTokensIn := wrap64 (spd_CachedTokensIn s + ch_CachedTokensIn d),
       spd_TokensOut := wrap64 (spd_TokensOut s + ch_TokensOut d),
       spd_CostMicroUSD := wrap64 (spd_CostMicroUSD s + ch_CostMicroUSD d)\<rparr>"

definition Charge :: "string \<Rightarrow> charge \<Rightarrow> mem_budget \<Rightarrow> mem_budget" where
  "Charge i d m = m\<lparr>mb_spend := (mb_spend m)(i := add_charge d (mb_spend m i))\<rparr>"

definition Remaining :: "string \<Rightarrow> mem_budget \<Rightarrow> spend" where
  "Remaining i m =
     (let b = (case mb_budget m i of None \<Rightarrow> no_budget | Some b \<Rightarrow> b); s = mb_spend m i in
      no_spend\<lparr>spd_TokensIn := wrap64 (bg_MaxTokensIn b - spd_TokensIn s),
        spd_CachedTokensIn := wrap64 (bg_MaxCachedTokensIn b - spd_CachedTokensIn s),
        spd_TokensOut := wrap64 (bg_MaxTokensOut b - spd_TokensOut s),
        spd_CostMicroUSD := wrap64 (bg_MaxCostMicroUSD b - spd_CostMicroUSD s),
        spd_ToolCalls := bg_MaxToolCalls b - spd_ToolCalls s,
        spd_Steps := bg_MaxSteps b - spd_Steps s\<rparr>)"

definition Terminated :: "string \<Rightarrow> mem_budget \<Rightarrow> termination_reason option" where
  "Terminated i m = mb_term m i"

definition SetTerminated :: "string \<Rightarrow> termination_reason \<Rightarrow> mem_budget \<Rightarrow> mem_budget" where
  "SetTerminated i r m = m\<lparr>mb_term := (mb_term m)(i \<mapsto> r)\<rparr>"

text \<open>No operation of the budget raises the number of steps or of tool calls it reports as spent.\<close>

lemma budget_never_counts_steps:
  "spd_Steps (mb_spend (Charge i d m) k) = spd_Steps (mb_spend m k)"
  "spd_ToolCalls (mb_spend (Charge i d m) k) = spd_ToolCalls (mb_spend m k)"
  "spd_Steps (mb_spend (Reserve i b m) i) = 0" "spd_ToolCalls (mb_spend (Reserve i b m) i) = 0"
  by (simp_all add: Charge_def Reserve_def add_charge_def no_spend_def)

end
