(* ===== verification/RcaReasoner.thy ===== *)
theory RcaReasoner
  imports RcaModel
begin

text \<open>
  The interface \<open>Reasoner\<close> of internal/rca/rca.go and the choice of a conclusion, which the rules
  reasoner and the LLM reasoner share.  The number passed to \<open>rz_NextStep\<close> is the iteration of the
  main loop, so that a reasoner that asks an external service may answer differently each time.

  The locale \<open>reasoner_contract\<close> is what the engine relies on when it concludes; the two reasoners of
  the program interpret it.
\<close>

record reasoner =
  rz_Kind :: reasoner_kind
  rz_NextStep :: "nat \<Rightarrow> tenant_id \<Rightarrow> rca_state \<Rightarrow> rca_err + proposal"
  rz_Conclude :: "tenant_id \<Rightarrow> rca_state \<Rightarrow> conclusion"

text \<open>The loop of \<open>Conclude\<close>: the first supported hypothesis of the highest score.\<close>

fun best_scan :: "hypothesis option \<Rightarrow> hypothesis list \<Rightarrow> hypothesis option" where
  "best_scan best [] = best"
| "best_scan best (h # hs) =
     (if hy_Status h \<noteq> HypothesisSupported then best_scan best hs
      else case best of
        None \<Rightarrow> best_scan (Some h) hs
      | Some b \<Rightarrow> if hy_PostScore h > hy_PostScore b then best_scan (Some h) hs else best_scan best hs)"

definition supported :: "hypothesis list \<Rightarrow> hypothesis set" where
  "supported hs = {h \<in> set hs. hy_Status h = HypothesisSupported}"

lemma best_scan_Some:
  "best_scan (Some b) hs = Some h \<Longrightarrow>
     (h = b \<or> h \<in> supported hs) \<and> hy_PostScore b \<le> hy_PostScore h
     \<and> (\<forall>x \<in> supported hs. hy_PostScore x \<le> hy_PostScore h)"
proof (induction hs arbitrary: b)
  case (Cons x hs)
  then show ?case
    by (cases "hy_Status x = HypothesisSupported"; cases "hy_PostScore x > hy_PostScore b")
      (fastforce simp: supported_def)+
qed (simp add: supported_def)

lemma best_scan_total: "\<exists>h. best_scan (Some b) hs = Some h"
  by (induction hs arbitrary: b) auto

lemma best_scan_None: "best_scan None hs = None \<longleftrightarrow> supported hs = {}"
proof (induction hs)
  case (Cons x hs)
  then show ?case using best_scan_total [of x hs] by (auto simp: supported_def)
qed (simp add: supported_def)

lemma best_scan_best:
  "best_scan None hs = Some h \<Longrightarrow> h \<in> supported hs \<and> (\<forall>x \<in> supported hs. hy_PostScore x \<le> hy_PostScore h)"
proof (induction hs)
  case (Cons x hs)
  show ?case
  proof (cases "hy_Status x = HypothesisSupported")
    case True
    with Cons.prems have "best_scan (Some x) hs = Some h" by simp
    from best_scan_Some [OF this] True show ?thesis by (auto simp: supported_def)
  next
    case False
    with Cons show ?thesis by (auto simp: supported_def)
  qed
qed simp

definition conclude_with :: "string \<Rightarrow> (hypothesis \<Rightarrow> string) \<Rightarrow> hypothesis list \<Rightarrow> conclusion" where
  "conclude_with none why hyps =
     (case best_scan None hyps of
        None \<Rightarrow> \<lparr>co_RootCause = [], co_Confidence = 0, co_Hypotheses = hyps, co_Rationale = none\<rparr>
      | Some best \<Rightarrow> \<lparr>co_RootCause = hy_Statement best, co_Confidence = hy_PostScore best,
                     co_Hypotheses = hyps, co_Rationale = why best\<rparr>)"

text \<open>A conclusion is grounded: it restates a supported hypothesis of the highest score, or nothing.\<close>

definition grounded :: "hypothesis list \<Rightarrow> string \<Rightarrow> rat \<Rightarrow> bool" where
  "grounded hs cause conf \<longleftrightarrow>
     (if supported hs = {} then cause = [] \<and> conf = 0
      else \<exists>h \<in> supported hs. cause = hy_Statement h \<and> conf = hy_PostScore h
             \<and> (\<forall>x \<in> supported hs. hy_PostScore x \<le> conf))"

lemma conclude_with_grounded:
  "grounded hs (co_RootCause (conclude_with n w hs)) (co_Confidence (conclude_with n w hs))"
proof (cases "best_scan None hs")
  case None
  then have "supported hs = {}" by (simp add: best_scan_None)
  with None show ?thesis by (simp add: conclude_with_def grounded_def)
next
  case (Some h)
  from best_scan_best [OF this] have h: "h \<in> supported hs" "\<forall>x \<in> supported hs. hy_PostScore x \<le> hy_PostScore h"
    by auto
  then have "supported hs \<noteq> {}" by auto
  with h Some show ?thesis by (auto simp: conclude_with_def grounded_def)
qed

lemma conclude_with_hyps [simp]: "co_Hypotheses (conclude_with n w hs) = hs"
  by (simp add: conclude_with_def split: option.splits)

locale reasoner_contract =
  fixes R :: reasoner
  assumes keeps_board: "co_Hypotheses (rz_Conclude R tid s) = iv_Hypotheses (sa_Investigation s)"
    and grounds: "grounded (iv_Hypotheses (sa_Investigation s))
      (co_RootCause (rz_Conclude R tid s)) (co_Confidence (rz_Conclude R tid s))"
begin

lemma confident_has_cause:
  assumes "0 < co_Confidence (rz_Conclude R tid s)"
  shows "\<exists>h \<in> set (iv_Hypotheses (sa_Investigation s)). hy_Status h = HypothesisSupported
    \<and> co_RootCause (rz_Conclude R tid s) = hy_Statement h \<and> co_Confidence (rz_Conclude R tid s) = hy_PostScore h"
  using grounds [of s tid] assms by (auto simp: grounded_def supported_def split: if_splits)

end

end
