(* ===== verification/RcaTools.thy ===== *)
theory RcaTools
  imports RcaModel
begin

text \<open>
  internal/rca/tools.go and \<open>validateToolArgs\<close> of engine.go: the closed set of five tools and the
  registry that dispatches to them.  The backends are interfaces implemented outside the package: a
  \<open>tool_backends\<close> value says what each answers, \<open>None\<close> for a nil backend.
\<close>

type_synonym 'a backend = "tenant_id \<Rightarrow> 'a \<Rightarrow> tool_result \<times> rca_err option"

record tool_backends =
  tb_Trace :: "trace_query_args backend option"
  tb_Log :: "log_query_args backend option"
  tb_Metric :: "metric_query_args backend option"
  tb_Topology :: "topology_query_args backend option"
  tb_Memory :: "memory_query_args backend option"

section \<open>The tools\<close>

text \<open>The body the five \<open>Invoke\<close> methods share: check the arguments, check the backend, call, stamp.\<close>

definition invoke_with ::
  "tool_name \<Rightarrow> 'a option \<Rightarrow> 'a backend option \<Rightarrow> tenant_id \<Rightarrow> tool_args \<Rightarrow> tool_result \<times> rca_err option" where
  "invoke_with nm payload backend tid a =
     (if ta_Tool a \<noteq> nm then (no_result, Some (ROther (''rca: '' @ nm @ '' invoked with mismatched args'')))
      else case payload of
        None \<Rightarrow> (no_result, Some (ROther (''rca: '' @ nm @ '' invoked with mismatched args'')))
      | Some q \<Rightarrow>
          (case backend of
             None \<Rightarrow> (no_result, Some (RPlain ErrToolUnavailable))
           | Some f \<Rightarrow> (let (r, e) = f tid q in (r\<lparr>tlr_Tool := nm\<rparr>, e))))"

definition traceQueryTool_Invoke :: "trace_query_args backend option \<Rightarrow> tenant_id \<Rightarrow> tool_args \<Rightarrow> tool_result \<times> rca_err option" where
  "traceQueryTool_Invoke b tid a = invoke_with ToolTraceQuery (ta_Trace a) b tid a"

definition logQueryTool_Invoke :: "log_query_args backend option \<Rightarrow> tenant_id \<Rightarrow> tool_args \<Rightarrow> tool_result \<times> rca_err option" where
  "logQueryTool_Invoke b tid a = invoke_with ToolLogQuery (ta_Log a) b tid a"

definition metricQueryTool_Invoke :: "metric_query_args backend option \<Rightarrow> tenant_id \<Rightarrow> tool_args \<Rightarrow> tool_result \<times> rca_err option" where
  "metricQueryTool_Invoke b tid a = invoke_with ToolMetricQuery (ta_Metric a) b tid a"

definition topologyQueryTool_Invoke :: "topology_query_args backend option \<Rightarrow> tenant_id \<Rightarrow> tool_args \<Rightarrow> tool_result \<times> rca_err option" where
  "topologyQueryTool_Invoke b tid a = invoke_with ToolTopologyQuery (ta_Topology a) b tid a"

definition memoryQueryTool_Invoke :: "memory_query_args backend option \<Rightarrow> tenant_id \<Rightarrow> tool_args \<Rightarrow> tool_result \<times> rca_err option" where
  "memoryQueryTool_Invoke b tid a = invoke_with ToolMemoryQuery (ta_Memory a) b tid a"

section \<open>The registry\<close>

type_synonym tool = "tenant_id \<Rightarrow> tool_args \<Rightarrow> tool_result \<times> rca_err option"

definition NewRegistry :: "tool_backends \<Rightarrow> (tool_name \<times> tool) list" where
  "NewRegistry b =
     [(ToolTraceQuery, traceQueryTool_Invoke (tb_Trace b)),
      (ToolLogQuery, logQueryTool_Invoke (tb_Log b)),
      (ToolMetricQuery, metricQueryTool_Invoke (tb_Metric b)),
      (ToolTopologyQuery, topologyQueryTool_Invoke (tb_Topology b)),
      (ToolMemoryQuery, memoryQueryTool_Invoke (tb_Memory b))]"

definition Registry_Get :: "(tool_name \<times> tool) list \<Rightarrow> tool_name \<Rightarrow> tool option" where
  "Registry_Get r n = map_of r n"

definition Registry_Names :: "tool_name list" where
  "Registry_Names = [ToolTraceQuery, ToolLogQuery, ToolMetricQuery, ToolTopologyQuery, ToolMemoryQuery]"

definition Dispatch :: "(tool_name \<times> tool) list \<Rightarrow> tenant_id \<Rightarrow> tool_args \<Rightarrow> tool_result \<times> rca_err option" where
  "Dispatch r tid a =
     (case Registry_Get r (ta_Tool a) of
        None \<Rightarrow> (no_result, Some (ROther (''rca: unknown tool '' @ go_quote (ta_Tool a))))
      | Some t \<Rightarrow>
          if ta_TenantID a \<noteq> tid then (no_result, Some (ROther ''rca: tenant mismatch on dispatch''))
          else t tid a)"

section \<open>The shape of the arguments\<close>

definition payloads :: "tool_args \<Rightarrow> nat" where
  "payloads a =
     (if ta_Trace a \<noteq> None then 1 else 0) + (if ta_Log a \<noteq> None then 1 else 0)
     + (if ta_Metric a \<noteq> None then 1 else 0) + (if ta_Topology a \<noteq> None then 1 else 0)
     + (if ta_Memory a \<noteq> None then 1 else 0)"

definition requires :: "tool_name \<Rightarrow> string \<Rightarrow> 'a option \<Rightarrow> string option" where
  "requires nm what payload =
     (if payload = None then Some (''rca: tool '' @ nm @ '' requires '' @ what @ '' args'') else None)"

text \<open>The result is the text of the error, or \<open>None\<close>.\<close>

definition validateToolArgs :: "tool_args \<Rightarrow> string option" where
  "validateToolArgs a =
     (if payloads a \<noteq> 1 then
        Some (''rca: exactly one ToolArgs payload must be set, got '' @ show_nat (payloads a))
      else if ta_Tool a = ToolTraceQuery then requires ToolTraceQuery ''Trace'' (ta_Trace a)
      else if ta_Tool a = ToolLogQuery then requires ToolLogQuery ''Log'' (ta_Log a)
      else if ta_Tool a = ToolMetricQuery then requires ToolMetricQuery ''Metric'' (ta_Metric a)
      else if ta_Tool a = ToolTopologyQuery then requires ToolTopologyQuery ''Topology'' (ta_Topology a)
      else if ta_Tool a = ToolMemoryQuery then requires ToolMemoryQuery ''Memory'' (ta_Memory a)
      else Some (''rca: unknown tool '' @ go_quote (ta_Tool a)))"

text \<open>The five shapes the validator lets through.\<close>

definition closed_shape :: "tool_args \<Rightarrow> bool" where
  "closed_shape a =
     ((ta_Tool a = ToolTraceQuery \<and> ta_Trace a \<noteq> None \<and> ta_Log a = None \<and> ta_Metric a = None
         \<and> ta_Topology a = None \<and> ta_Memory a = None)
      \<or> (ta_Tool a = ToolLogQuery \<and> ta_Trace a = None \<and> ta_Log a \<noteq> None \<and> ta_Metric a = None
         \<and> ta_Topology a = None \<and> ta_Memory a = None)
      \<or> (ta_Tool a = ToolMetricQuery \<and> ta_Trace a = None \<and> ta_Log a = None \<and> ta_Metric a \<noteq> None
         \<and> ta_Topology a = None \<and> ta_Memory a = None)
      \<or> (ta_Tool a = ToolTopologyQuery \<and> ta_Trace a = None \<and> ta_Log a = None \<and> ta_Metric a = None
         \<and> ta_Topology a \<noteq> None \<and> ta_Memory a = None)
      \<or> (ta_Tool a = ToolMemoryQuery \<and> ta_Trace a = None \<and> ta_Log a = None \<and> ta_Metric a = None
         \<and> ta_Topology a = None \<and> ta_Memory a \<noteq> None))"

lemma validateToolArgs_iff: "validateToolArgs a = None \<longleftrightarrow> closed_shape a"
proof
  assume "validateToolArgs a = None"
  then show "closed_shape a"
    by (simp add: validateToolArgs_def requires_def closed_shape_def payloads_def split: if_splits)
next
  assume "closed_shape a"
  then show "validateToolArgs a = None"
    unfolding closed_shape_def
    by (elim disjE conjE; simp add: validateToolArgs_def requires_def payloads_def tool_names)
qed

lemma validateToolArgs_tenant [simp]: "validateToolArgs (a\<lparr>ta_TenantID := t\<rparr>) = validateToolArgs a"
  by (simp add: validateToolArgs_def payloads_def)

text \<open>A call of a validated shape always reaches the backend of its tool, or finds it missing.\<close>

lemma Dispatch_closed:
  assumes "closed_shape a" and "ta_TenantID a = tid"
    and "snd (Dispatch (NewRegistry b) tid a) = Some e" and "rca_sentinel_of e \<noteq> Some ErrToolUnavailable"
  shows "(\<exists>f q. tb_Trace b = Some f \<and> ta_Trace a = Some q \<and> snd (f tid q) = Some e)
    \<or> (\<exists>f q. tb_Log b = Some f \<and> ta_Log a = Some q \<and> snd (f tid q) = Some e)
    \<or> (\<exists>f q. tb_Metric b = Some f \<and> ta_Metric a = Some q \<and> snd (f tid q) = Some e)
    \<or> (\<exists>f q. tb_Topology b = Some f \<and> ta_Topology a = Some q \<and> snd (f tid q) = Some e)
    \<or> (\<exists>f q. tb_Memory b = Some f \<and> ta_Memory a = Some q \<and> snd (f tid q) = Some e)"
  using assms
  by (auto simp: closed_shape_def Dispatch_def Registry_Get_def NewRegistry_def invoke_with_def tool_names
      traceQueryTool_Invoke_def logQueryTool_Invoke_def metricQueryTool_Invoke_def
      topologyQueryTool_Invoke_def memoryQueryTool_Invoke_def
      split: option.splits prod.splits)

end
