(* ===== verification/RcaEngine.thy ===== *)
theory RcaEngine
  imports RcaStores RcaReasoner RcaTools Float64
begin

text \<open>
  internal/rca/engine.go and interest.go: the investigation loop.

  An engine is wired (\<open>wiring\<close>) to a journal, an object store, an interest sink, a reasoner and a
  fallback; their states are in the engine.  \<open>Investigate\<close> is split where other calls can interleave:
  \<open>inv_begin\<close>, one \<open>inv_iter\<close> per turn of the loop, \<open>inv_finish\<close>; the variables of the running call are
  a \<open>running\<close> record.  Within a turn the shared state is touched once.  What the outside does is an
  argument: \<open>start_env\<close>, one \<open>iter_env\<close> per turn, \<open>end_env\<close> (clock readings, random identifiers,
  cancellation of the caller's context, tool backends), and a \<open>codec\<close> (SHA-256, JSON).  A context is
  cancelled by its caller or by \<open>Abort\<close>.  The deadline of one step only concerns the reasoner and
  the tools, which may answer with any error.
\<close>

section \<open>internal/rca/interest.go\<close>

fun dedupe_go :: "nat \<Rightarrow> string list \<Rightarrow> string list \<Rightarrow> string list" where
  "dedupe_go m out [] = out"
| "dedupe_go m out (s # ss) =
     (if s = [] \<or> s \<in> set out then dedupe_go m out ss
      else if length (out @ [s]) \<ge> m then out @ [s]
      else dedupe_go m (out @ [s]) ss)"

definition dedupeTruncate :: "string list \<Rightarrow> nat \<Rightarrow> string list" where
  "dedupeTruncate xs m = dedupe_go m [] xs"

definition blank_predicate :: interest_predicate where
  "blank_predicate =
     \<lparr>ip_ID = [], ip_Tenant = [], ip_Scope = ScopeNone, ip_Source = [], ip_Services = [], ip_Operations = [],
      ip_AttrEquals = [], ip_ErrorSigIDs = [], ip_PathSigs = [], ip_TraceIDs = {}, ip_MinDuration = 0,
      ip_ErrorsOnly = False, ip_NarrowLevel = 0, ip_Hits = 0, ip_CreatedAt = 0, ip_ExpiresAt = 0\<rparr>"

definition scopePredicate :: "tenant_id \<Rightarrow> investigation \<Rightarrow> incident \<Rightarrow> gotime \<Rightarrow> duration \<Rightarrow> interest_predicate" where
  "scopePredicate tid v inc now ttl =
     blank_predicate\<lparr>ip_Tenant := tid, ip_Scope := ScopeInvestigation, ip_Source := ''rca:'' @ iv_ID v,
       ip_Services := dedupeTruncate (in_EpicenterService inc # in_BlastRadius inc) 32,
       ip_CreatedAt := now, ip_ExpiresAt := now + ttl\<rparr>"

definition recurrencePredicate ::
  "tenant_id \<Rightarrow> investigation \<Rightarrow> string list \<Rightarrow> 64 word list \<Rightarrow> gotime \<Rightarrow> duration \<Rightarrow> interest_predicate" where
  "recurrencePredicate tid v errSigs pathSigs now ttl =
     blank_predicate\<lparr>ip_Tenant := tid, ip_Scope := ScopeRecurrence, ip_Source := ''rca:'' @ iv_ID v,
       ip_ErrorSigIDs := errSigs, ip_PathSigs := pathSigs, ip_CreatedAt := now, ip_ExpiresAt := now + ttl\<rparr>"

definition defaultScopeTTL :: duration where "defaultScopeTTL = 30 * minute"
definition defaultRecurrenceTTL :: duration where "defaultRecurrenceTTL = 24 * 60 * minute"

definition recurrenceSignatures :: "incident \<Rightarrow> string list \<times> 64 word list" where
  "recurrenceSignatures inc = ([], [])"

section \<open>The engine\<close>

record ('j, 'o, 'i) wiring =
  wi_journal :: "'j journal_ops"
  wi_objects :: "'o object_ops option"
  wi_interest :: "'i sink_ops option"
  wi_reasoner :: reasoner
  wi_fallback :: "reasoner option"

record ('j, 'o, 'i) engine =
  eg_journal :: 'j
  eg_objects :: 'o
  eg_interest :: 'i
  eg_budget :: mem_budget
  eg_invs :: "(string \<times> investigation) list"
  eg_corr :: "string \<Rightarrow> correction list"
  eg_cancels :: "string set"
  eg_cancelled :: "string set"
  eg_abortReasons :: "string \<Rightarrow> string"

text \<open>
  \<open>eg_cancels\<close> are the investigations with a registered cancel function, \<open>eg_cancelled\<close> those whose
  function was called.  A missing entry of \<open>abortReasons\<close> reads as the empty string.
\<close>

definition NewEngine :: "'j \<Rightarrow> 'o \<Rightarrow> 'i \<Rightarrow> ('j, 'o, 'i) engine" where
  "NewEngine j ob i =
     \<lparr>eg_journal = j, eg_objects = ob, eg_interest = i, eg_budget = NewMemBudget, eg_invs = [],
      eg_corr = (\<lambda>i. []), eg_cancels = {}, eg_cancelled = {}, eg_abortReasons = (\<lambda>i. [])\<rparr>"

record codec =
  cd_H :: "string \<Rightarrow> string"
  cd_Args :: "tool_args \<Rightarrow> string"
  cd_Proposal :: "proposal \<Rightarrow> string option"
  cd_DecodeArgs :: "string \<Rightarrow> tool_args option"

record start_env =
  se_ID :: string
  se_Seed :: int
  se_StartedAt :: gotime
  se_StepID :: string
  se_StepAt :: gotime
  se_ScopeAt :: gotime

record iter_env =
  it_Cancelled :: bool
  it_Now :: gotime
  it_StartedAt :: gotime
  it_EndedAt :: gotime
  it_StepID :: string
  it_Backends :: tool_backends

record end_env =
  ee_EndedAt :: gotime
  ee_RecurAt :: gotime

text \<open>The variables of a running call of \<open>Investigate\<close>; the active reasoner is the fallback once \<open>swapped\<close>.\<close>

record running =
  ru_inv :: investigation
  ru_args :: "tool_args option"
  ru_result :: "tool_result option"
  ru_hyp :: string
  ru_swapped :: bool
  ru_cap :: rat
  ru_scopeID :: string
  ru_turn :: nat
  ru_stopped :: bool

definition storeInv :: "investigation \<Rightarrow> ('j, 'o, 'i) engine \<Rightarrow> ('j, 'o, 'i) engine" where
  "storeInv v e = e\<lparr>eg_invs := AList.update (iv_ID v) v (eg_invs e)\<rparr>"

definition newPureStep :: "string \<Rightarrow> gotime \<Rightarrow> nat \<Rightarrow> phase \<Rightarrow> step" where
  "newPureStep i now seq phase =
     blank_step\<lparr>stp_ID := i, stp_Seq := seq, stp_Phase := phase, stp_StartedAt := now, stp_EndedAt := now,
       stp_Verdict := VerdictOK\<rparr>"

definition append_step :: "('j, 'o, 'i) wiring \<Rightarrow> tenant_id \<Rightarrow> string \<Rightarrow> step \<Rightarrow> ('j, 'o, 'i) engine
    \<Rightarrow> ('j, 'o, 'i) engine \<times> rca_err option" where
  "append_step w tid i st e =
     (let (j', err) = jo_AppendStep (wi_journal w) (eg_journal e) tid i st in (e\<lparr>eg_journal := j'\<rparr>, err))"

definition put_object :: "('j, 'o, 'i) wiring \<Rightarrow> tenant_id \<Rightarrow> string \<Rightarrow> string \<Rightarrow> ('j, 'o, 'i) engine
    \<Rightarrow> ('j, 'o, 'i) engine \<times> bool" where
  "put_object w tid ref body e =
     (case wi_objects w of
        None \<Rightarrow> (e, False)
      | Some ops \<Rightarrow>
          (let (o', err) = oo_Put ops (eg_objects e) tid ref body in (e\<lparr>eg_objects := o'\<rparr>, err = None)))"

definition object_key :: "string \<Rightarrow> tenant_id \<Rightarrow> string \<Rightarrow> nat \<Rightarrow> string" where
  "object_key kind tid i seq = kind @ ''/'' @ tid @ ''/'' @ i @ ''/'' @ show_nat seq @ ''.json''"

definition putReasonerOutput :: "('j, 'o, 'i) wiring \<Rightarrow> codec \<Rightarrow> tenant_id \<Rightarrow> string \<Rightarrow> nat \<Rightarrow> proposal
    \<Rightarrow> ('j, 'o, 'i) engine \<Rightarrow> ('j, 'o, 'i) engine \<times> string \<times> string" where
  "putReasonerOutput w c tid i seq p e =
     (if wi_objects w = None then (e, [], [])
      else case cd_Proposal c p of
        None \<Rightarrow> (e, [], [])
      | Some b \<Rightarrow>
          (let ref = object_key ''reasoner'' tid i seq; (e', ok) = put_object w tid ref b e
           in if ok then (e', ref, sha256Hex (cd_H c) b) else (e', [], [])))"

fun replace_hypothesis :: "hypothesis \<Rightarrow> hypothesis list \<Rightarrow> hypothesis list" where
  "replace_hypothesis u [] = [u]"
| "replace_hypothesis u (h # hs) = (if hy_ID h = hy_ID u then u # hs else h # replace_hypothesis u hs)"

definition mergeHypotheses :: "hypothesis list \<Rightarrow> hypothesis list \<Rightarrow> hypothesis list" where
  "mergeHypotheses board updates = foldl (\<lambda>hs u. replace_hypothesis u hs) board updates"

definition terminalStatus :: "termination_reason \<Rightarrow> rat \<Rightarrow> investigation_status" where
  "terminalStatus reason confidence =
     (case reason of
        TermConcluded \<Rightarrow> if confidence \<ge> confidenceThreshold then InvestigationConcluded else InvestigationInconclusive
      | TermSteps \<Rightarrow> InvestigationBudgetExhausted
      | TermToolCalls \<Rightarrow> InvestigationBudgetExhausted
      | TermTokens \<Rightarrow> InvestigationBudgetExhausted
      | TermCachedTokens \<Rightarrow> InvestigationBudgetExhausted
      | TermCost \<Rightarrow> InvestigationBudgetExhausted
      | TermWallClock \<Rightarrow> InvestigationBudgetExhausted
      | TermAborted \<Rightarrow> InvestigationAborted
      | TermFailed \<Rightarrow> InvestigationFailed
      | TermNone \<Rightarrow> InvestigationInconclusive)"

definition nl :: string where "nl = [CHR 0x0A]"

definition buildReport :: "investigation \<Rightarrow> string" where
  "buildReport v =
     (if iv_RootCause v = [] then
        ''# RCA Report'' @ nl @ nl @ ''No root cause confirmed within budget ('' @ show_int (spd_Steps (iv_Spend v))
        @ '' steps, '' @ show_int (spd_ToolCalls (iv_Spend v)) @ '' tool calls).'' @ nl
      else
        ''# RCA Report'' @ nl @ nl @ ''Root cause: '' @ iv_RootCause v @ nl @ nl @ ''Confidence: ''
        @ fmt_fixed 2 (iv_Confidence v) @ nl @ nl @ ''Steps: '' @ show_int (spd_Steps (iv_Spend v))
        @ '', tool calls: '' @ show_int (spd_ToolCalls (iv_Spend v)) @ nl)"

end
