(* ===== verification/RcaLoop.thy ===== *)
theory RcaLoop
  imports RcaEngine
begin

text \<open>
  internal/rca/engine.go: \<open>Investigate\<close>, \<open>Get\<close>, \<open>Replay\<close>, \<open>Correct\<close>, \<open>Abort\<close>, \<open>Stats\<close>.  The loop is run
  with fuel, \<open>None\<close> when it runs out; RcaTermination shows how much is enough.
\<close>

section \<open>The start of an investigation\<close>

definition new_investigation :: "start_env \<Rightarrow> tenant_id \<Rightarrow> incident \<Rightarrow> reasoner_kind \<Rightarrow> investigation" where
  "new_investigation s tid inc kind =
     \<lparr>iv_ID = se_ID s, iv_Tenant = tid, iv_IncidentID = in_ID inc, iv_IncidentIDs = [in_ID inc],
      iv_Status = InvestigationRunning, iv_Phase = PhaseContextualize, iv_Trigger = ''auto'',
      iv_Hypotheses = [], iv_Steps = [], iv_RootCause = [], iv_Confidence = 0, iv_ReasonerKind = kind,
      iv_ReasonerSwaps = [], iv_Budget = DefaultBudget, iv_Spend = no_spend, iv_TerminationReason = TermNone,
      iv_ReplaySeed = se_Seed s, iv_ParentID = [], iv_ReplayOf = [], iv_ReplayMode = ReplayNone,
      iv_ReportMarkdown = [], iv_Error = None, iv_StartedAt = se_StartedAt s, iv_EndedAt = 0, iv_Version = 0\<rparr>"

definition add_step :: "step \<Rightarrow> investigation \<Rightarrow> investigation" where
  "add_step st v = v\<lparr>iv_Steps := iv_Steps v @ [st]\<rparr>"

definition count_step :: "investigation \<Rightarrow> investigation" where
  "count_step v = v\<lparr>iv_Spend := (iv_Spend v)\<lparr>spd_Steps := spd_Steps (iv_Spend v) + 1\<rparr>\<rparr>"

definition count_call :: "investigation \<Rightarrow> investigation" where
  "count_call v = v\<lparr>iv_Spend := (iv_Spend v)\<lparr>spd_ToolCalls := spd_ToolCalls (iv_Spend v) + 1\<rparr>\<rparr>"

definition register :: "investigation \<Rightarrow> ('j, 'o, 'i) engine \<Rightarrow> ('j, 'o, 'i) engine" where
  "register v e =
     storeInv v (e\<lparr>eg_budget := Reserve (iv_ID v) (iv_Budget v) (eg_budget e),
                   eg_cancels := insert (iv_ID v) (eg_cancels e)\<rparr>)"

definition contextualize :: "('j, 'o, 'i) wiring \<Rightarrow> start_env \<Rightarrow> tenant_id \<Rightarrow> investigation \<Rightarrow> ('j, 'o, 'i) engine
    \<Rightarrow> ('j, 'o, 'i) engine \<times> investigation" where
  "contextualize w s tid v e =
     (let v1 = v\<lparr>iv_Phase := PhaseHypothesize\<rparr>;
          st = newPureStep (se_StepID s) (se_StepAt s) (length (iv_Steps v1)) PhaseContextualize;
          (e1, err) = append_step w tid (iv_ID v1) st e
      in (e1, if err = None then count_step (add_step st v1) else v1))"

definition push_scope :: "('j, 'o, 'i) wiring \<Rightarrow> start_env \<Rightarrow> tenant_id \<Rightarrow> incident \<Rightarrow> investigation
    \<Rightarrow> ('j, 'o, 'i) engine \<Rightarrow> ('j, 'o, 'i) engine \<times> string" where
  "push_scope w s tid inc v e =
     (case wi_interest w of
        None \<Rightarrow> (e, [])
      | Some ops \<Rightarrow>
          (let (i', r) = io_Set ops (eg_interest e) tid (scopePredicate tid v inc (se_ScopeAt s) defaultScopeTTL)
           in (e\<lparr>eg_interest := i'\<rparr>, case r of Inl err \<Rightarrow> [] | Inr pid \<Rightarrow> pid)))"

definition inv_begin :: "('j, 'o, 'i) wiring \<Rightarrow> start_env \<Rightarrow> tenant_id \<Rightarrow> incident \<Rightarrow> ('j, 'o, 'i) engine
    \<Rightarrow> ('j, 'o, 'i) engine \<times> (rca_err + running)" where
  "inv_begin w s tid inc e =
     (let v = new_investigation s tid inc (rz_Kind (wi_reasoner w));
          (j1, err) = jo_Create (wi_journal w) (eg_journal e) tid v;
          e1 = e\<lparr>eg_journal := j1\<rparr>
      in case err of
           Some x \<Rightarrow> (e1, Inl (RContext ''rca: journal create'' x))
         | None \<Rightarrow>
             (let (e2, v2) = contextualize w s tid v (register v e1);
                  (e3, pid) = push_scope w s tid inc v2 e2
              in (e3, Inr \<lparr>ru_inv = v2, ru_args = None, ru_result = None, ru_hyp = [], ru_swapped = False,
                           ru_cap = 0, ru_scopeID = pid, ru_turn = 0, ru_stopped = False\<rparr>)))"

section \<open>One turn of the loop\<close>

definition active :: "('j, 'o, 'i) wiring \<Rightarrow> running \<Rightarrow> reasoner" where
  "active w r =
     (if ru_swapped r then (case wi_fallback w of Some f \<Rightarrow> f | None \<Rightarrow> wi_reasoner w) else wi_reasoner w)"

definition stop_check :: "reasoner_kind \<Rightarrow> bool \<Rightarrow> gotime \<Rightarrow> investigation \<Rightarrow> termination_reason option" where
  "stop_check kind cancelled now v =
     (let b = iv_Budget v; sp = iv_Spend v in
      if cancelled then Some TermAborted
      else if time_sub now (iv_StartedAt v) > bg_WallClock b then Some TermWallClock
      else if spd_Steps sp \<ge> bg_MaxSteps b then Some TermSteps
      else if spd_ToolCalls sp \<ge> bg_MaxToolCalls b then Some TermToolCalls
      else if kind = ReasonerLLM \<and> spd_TokensIn sp \<ge> bg_MaxTokensIn b then Some TermTokens
      else if kind = ReasonerLLM \<and> spd_CachedTokensIn sp \<ge> bg_MaxCachedTokensIn b then Some TermCachedTokens
      else if spd_CostMicroUSD sp \<ge> bg_MaxCostMicroUSD b then Some TermCost
      else None)"

definition stop_run :: "termination_reason \<Rightarrow> running \<Rightarrow> running" where
  "stop_run reason r = r\<lparr>ru_inv := (ru_inv r)\<lparr>iv_TerminationReason := reason\<rparr>, ru_stopped := True\<rparr>"

definition swap_run :: "reasoner_kind \<Rightarrow> reasoner \<Rightarrow> rca_err \<Rightarrow> gotime \<Rightarrow> running \<Rightarrow> running" where
  "swap_run from f err now r =
     r\<lparr>ru_inv := (ru_inv r)\<lparr>
          iv_ReasonerSwaps := iv_ReasonerSwaps (ru_inv r)
            @ [\<lparr>rw_AtStep = length (iv_Steps (ru_inv r)), rw_From = from, rw_To = rz_Kind f, rw_Reason = err, rw_At = now\<rparr>],
          iv_ReasonerKind := rz_Kind f\<rparr>,
       ru_swapped := True, ru_cap := swappedCap\<rparr>"

definition fail_run :: "rca_err \<Rightarrow> running \<Rightarrow> running" where
  "fail_run err r = stop_run TermFailed (r\<lparr>ru_inv := (ru_inv r)\<lparr>iv_Error := Some err\<rparr>\<rparr>)"

definition iter_error :: "('j, 'o, 'i) wiring \<Rightarrow> reasoner_kind \<Rightarrow> gotime \<Rightarrow> rca_err \<Rightarrow> running \<Rightarrow> running" where
  "iter_error w kind now err r =
     (if rca_sentinel_of err = Some ErrNoMoreRules then stop_run TermConcluded r
      else case wi_fallback w of
        None \<Rightarrow> fail_run err r
      | Some f \<Rightarrow>
          if kind = ReasonerLLM \<and> isFallbackTrigger err then swap_run kind f err now r
          else fail_run err r)"

definition on_inv :: "(investigation \<Rightarrow> investigation) \<Rightarrow> running \<Rightarrow> running" where
  "on_inv f r = r\<lparr>ru_inv := f (ru_inv r)\<rparr>"

definition pure_turn :: "('j, 'o, 'i) wiring \<Rightarrow> codec \<Rightarrow> tenant_id \<Rightarrow> iter_env \<Rightarrow> proposal \<Rightarrow> ('j, 'o, 'i) engine
    \<Rightarrow> running \<Rightarrow> ('j, 'o, 'i) engine \<times> running" where
  "pure_turn w c tid it p e r =
     (let v = ru_inv r;
          (e1, ref, hash) = putReasonerOutput w c tid (iv_ID v) (length (iv_Steps v)) p e;
          st = (newPureStep (it_StepID it) (it_StartedAt it) (length (iv_Steps v)) (pr_Phase p))
                 \<lparr>stp_ReasonerOutputRef := ref, stp_ReasonerOutputHash := hash\<rparr>;
          (e2, err) = append_step w tid (iv_ID v) st e1
      in (e2, on_inv count_step (if err = None then on_inv (add_step st) r else r)))"

definition base_step :: "codec \<Rightarrow> tenant_id \<Rightarrow> iter_env \<Rightarrow> investigation \<Rightarrow> proposal \<Rightarrow> tool_args \<Rightarrow> step_verdict \<Rightarrow> step" where
  "base_step c tid it v p call verdict =
     blank_step\<lparr>stp_ID := it_StepID it, stp_InvestigationID := iv_ID v, stp_Tenant := tid,
       stp_Seq := length (iv_Steps v), stp_Phase := pr_Phase p, stp_Tool := ta_Tool call,
       stp_ToolArgsJSON := cd_Args c call, stp_ToolArgsHash := sha256Hex (cd_H c) (cd_Args c call),
       stp_Verdict := verdict, stp_StartedAt := it_StartedAt it, stp_EndedAt := it_EndedAt it\<rparr>"

definition invalid_turn :: "('j, 'o, 'i) wiring \<Rightarrow> codec \<Rightarrow> tenant_id \<Rightarrow> iter_env \<Rightarrow> proposal \<Rightarrow> tool_args
    \<Rightarrow> ('j, 'o, 'i) engine \<Rightarrow> running \<Rightarrow> ('j, 'o, 'i) engine \<times> running" where
  "invalid_turn w c tid it p call e r =
     (let v = ru_inv r; st = base_step c tid it v p call VerdictInvalidArgs
      in (fst (append_step w tid (iv_ID v) st e), on_inv (\<lambda>v. count_call (count_step (add_step st v))) r))"

definition dispatch_verdict :: "rca_err option \<Rightarrow> step_verdict" where
  "dispatch_verdict err =
     (case err of
        None \<Rightarrow> VerdictOK
      | Some x \<Rightarrow> if rca_sentinel_of x = Some ErrToolUnavailable then VerdictUnavailable else VerdictInvalidArgs)"

text \<open>Storing the rows of a result: its hash is recorded whether or not the store takes them.\<close>

definition store_result :: "('j, 'o, 'i) wiring \<Rightarrow> codec \<Rightarrow> tenant_id \<Rightarrow> string \<Rightarrow> nat \<Rightarrow> string \<Rightarrow> step
    \<Rightarrow> ('j, 'o, 'i) engine \<Rightarrow> ('j, 'o, 'i) engine \<times> step" where
  "store_result w c tid i seq rows st e =
     (if rows = [] then (e, st)
      else
       (let ref = object_key ''evidence'' tid i seq; (e1, ok) = put_object w tid ref rows e
        in (e1, st\<lparr>stp_ToolResultHash := sha256Hex (cd_H c) rows,
                   stp_ToolResultRef := (if ok then ref else [])\<rparr>)))"

definition tool_turn :: "('j, 'o, 'i) wiring \<Rightarrow> codec \<Rightarrow> tenant_id \<Rightarrow> iter_env \<Rightarrow> proposal \<Rightarrow> tool_args
    \<Rightarrow> ('j, 'o, 'i) engine \<Rightarrow> running \<Rightarrow> ('j, 'o, 'i) engine \<times> running" where
  "tool_turn w c tid it p call e r =
     (let v = ru_inv r; i = iv_ID v; seq = length (iv_Steps v);
          (result, err) = Dispatch (NewRegistry (it_Backends it)) tid call;
          st0 = (base_step c tid it v p call (dispatch_verdict err))
                  \<lparr>stp_Truncated := tlr_Truncated result, stp_Clamped := tlr_Clamped result,
                   stp_FromCache := tlr_FromCache result, stp_ToolResultBytes := int (length (tlr_Rows result)),
                   stp_LatencyMillis := go_div (time_sub (it_EndedAt it) (it_StartedAt it)) 1000000\<rparr>;
          (e1, st1) = store_result w c tid i seq (tlr_Rows result) st0 e;
          (e2, ref, hash) = putReasonerOutput w c tid i seq p e1;
          st = st1\<lparr>stp_ReasonerOutputRef := ref, stp_ReasonerOutputHash := hash\<rparr>;
          e3 = fst (append_step w tid i st e2);
          e4 = e3\<lparr>eg_budget := Charge i no_charge (eg_budget e3)\<rparr>;
          r1 = on_inv (\<lambda>v. count_call (count_step (add_step st v))) r
      in (e4, r1\<lparr>ru_args := Some call, ru_result := (if err = None then Some result else None),
                 ru_hyp := (case pr_Hypotheses p of [] \<Rightarrow> ru_hyp r | h # hs \<Rightarrow> hy_ID h)\<rparr>))"

definition charge_usage :: "charge \<Rightarrow> ('j, 'o, 'i) engine \<Rightarrow> running \<Rightarrow> ('j, 'o, 'i) engine \<times> running" where
  "charge_usage u e r =
     (if u \<noteq> no_charge then
        (e\<lparr>eg_budget := Charge (iv_ID (ru_inv r)) u (eg_budget e)\<rparr>,
         on_inv (\<lambda>v. v\<lparr>iv_Spend := add_charge u (iv_Spend v)\<rparr>) r)
      else (e, r))"

definition iter_proposal :: "('j, 'o, 'i) wiring \<Rightarrow> codec \<Rightarrow> tenant_id \<Rightarrow> iter_env \<Rightarrow> proposal
    \<Rightarrow> ('j, 'o, 'i) engine \<Rightarrow> running \<Rightarrow> ('j, 'o, 'i) engine \<times> running" where
  "iter_proposal w c tid it p e r =
     (let r1 = on_inv (\<lambda>v. v\<lparr>iv_Hypotheses := mergeHypotheses (iv_Hypotheses v) (pr_Hypotheses p)\<rparr>) r;
          (e1, r2) = charge_usage (pr_Usage p) e r1
      in if pr_Done p then (e1, stop_run TermConcluded r2)
         else case pr_Call p of
           None \<Rightarrow> pure_turn w c tid it p e1 r2
         | Some call0 \<Rightarrow>
             (let call = call0\<lparr>ta_TenantID := tid\<rparr>
              in if validateToolArgs call \<noteq> None then invalid_turn w c tid it p call e1 r2
                 else tool_turn w c tid it p call e1 r2))"

definition turn_state :: "incident \<Rightarrow> running \<Rightarrow> rca_state" where
  "turn_state inc r =
     \<lparr>sa_Investigation = ru_inv r, sa_Incident = inc, sa_LastArgs = ru_args r, sa_LastResult = ru_result r,
      sa_LastHypothesisID = ru_hyp r\<rparr>"

definition forget_pending :: "running \<Rightarrow> running" where
  "forget_pending r = r\<lparr>ru_args := None, ru_result := None, ru_hyp := [], ru_turn := Suc (ru_turn r)\<rparr>"

definition inv_iter :: "('j, 'o, 'i) wiring \<Rightarrow> codec \<Rightarrow> tenant_id \<Rightarrow> incident \<Rightarrow> iter_env \<Rightarrow> ('j, 'o, 'i) engine
    \<Rightarrow> running \<Rightarrow> ('j, 'o, 'i) engine \<times> running" where
  "inv_iter w c tid inc it e r =
     (let rz = active w r;
          cancelled = (it_Cancelled it \<or> iv_ID (ru_inv r) \<in> eg_cancelled e)
      in case stop_check (rz_Kind rz) cancelled (it_Now it) (ru_inv r) of
           Some reason \<Rightarrow> (e, stop_run reason r)
         | None \<Rightarrow>
             (case rz_NextStep rz (ru_turn r) tid (turn_state inc r) of
                Inl err \<Rightarrow> (e, iter_error w (rz_Kind rz) (it_StartedAt it) err (forget_pending r))
              | Inr p \<Rightarrow> iter_proposal w c tid it p e (forget_pending r)))"

section \<open>The end of an investigation\<close>

definition cap_confidence :: "rat \<Rightarrow> rat \<Rightarrow> rat" where
  "cap_confidence cap conf = (if cap > 0 \<and> conf > cap then cap else conf)"

definition conclude_run :: "('j, 'o, 'i) wiring \<Rightarrow> tenant_id \<Rightarrow> incident \<Rightarrow> running \<Rightarrow> investigation \<Rightarrow> investigation" where
  "conclude_run w tid inc r v =
     (let co = rz_Conclude (active w r) tid
                 \<lparr>sa_Investigation = v, sa_Incident = inc, sa_LastArgs = None, sa_LastResult = None,
                  sa_LastHypothesisID = []\<rparr>;
          v1 = v\<lparr>iv_RootCause := co_RootCause co, iv_Confidence := cap_confidence (ru_cap r) (co_Confidence co),
                 iv_Hypotheses := mergeHypotheses (iv_Hypotheses v) (co_Hypotheses co), iv_Phase := PhaseReport\<rparr>;
          v2 = v1\<lparr>iv_ReportMarkdown := buildReport v1\<rparr>
      in v2\<lparr>iv_Status := terminalStatus (iv_TerminationReason v2) (iv_Confidence v2)\<rparr>)"

definition pull_scope :: "('j, 'o, 'i) wiring \<Rightarrow> end_env \<Rightarrow> tenant_id \<Rightarrow> incident \<Rightarrow> string \<Rightarrow> investigation
    \<Rightarrow> ('j, 'o, 'i) engine \<Rightarrow> ('j, 'o, 'i) engine" where
  "pull_scope w en tid inc scopeID v e =
     (case wi_interest w of
        None \<Rightarrow> e
      | Some ops \<Rightarrow>
          (let removeID = (if scopeID = [] then ''rca:'' @ iv_ID v else scopeID);
               e1 = e\<lparr>eg_interest := fst (io_Remove ops (eg_interest e) tid removeID)\<rparr>
           in if iv_Status v = InvestigationConcluded \<and> iv_Confidence v \<ge> confidenceThreshold then
                (let (errSigs, pathSigs) = recurrenceSignatures inc;
                     p = recurrencePredicate tid v errSigs pathSigs (ee_RecurAt en) defaultRecurrenceTTL
                 in e1\<lparr>eg_interest := fst (io_Set ops (eg_interest e1) tid p)\<rparr>)
              else e1))"

definition unregister :: "string \<Rightarrow> ('j, 'o, 'i) engine \<Rightarrow> ('j, 'o, 'i) engine" where
  "unregister i e =
     e\<lparr>eg_cancels := eg_cancels e - {i}, eg_cancelled := eg_cancelled e - {i},
       eg_abortReasons := (eg_abortReasons e)(i := [])\<rparr>"

definition inv_finish :: "('j, 'o, 'i) wiring \<Rightarrow> end_env \<Rightarrow> tenant_id \<Rightarrow> incident \<Rightarrow> ('j, 'o, 'i) engine \<Rightarrow> running
    \<Rightarrow> ('j, 'o, 'i) engine \<times> investigation" where
  "inv_finish w en tid inc e r =
     (let v0 = (ru_inv r)\<lparr>iv_EndedAt := ee_EndedAt en\<rparr>;
          reason = eg_abortReasons e (iv_ID v0);
          v1 = (if iv_TerminationReason v0 = TermAborted \<and> reason \<noteq> [] then v0\<lparr>iv_Error := Some (ROther reason)\<rparr> else v0);
          v = conclude_run w tid inc r v1;
          e1 = e\<lparr>eg_budget := SetTerminated (iv_ID v) (iv_TerminationReason v) (eg_budget e),
                 eg_journal := fst (jo_SetStatus (wi_journal w) (eg_journal e) tid (iv_ID v) (iv_Status v) (iv_EndedAt v))\<rparr>;
          e2 = pull_scope w en tid inc (ru_scopeID r) v e1
      in (unregister (iv_ID v) (storeInv v e2), v))"

section \<open>Investigate\<close>

fun inv_loop :: "('j, 'o, 'i) wiring \<Rightarrow> codec \<Rightarrow> tenant_id \<Rightarrow> incident \<Rightarrow> (nat \<Rightarrow> iter_env) \<Rightarrow> nat
    \<Rightarrow> ('j, 'o, 'i) engine \<Rightarrow> running \<Rightarrow> (('j, 'o, 'i) engine \<times> running) option" where
  "inv_loop w c tid inc its fuel e r =
     (if ru_stopped r then Some (e, r)
      else case fuel of
        0 \<Rightarrow> None
      | Suc n \<Rightarrow>
          (let (e', r') = inv_iter w c tid inc (its (ru_turn r)) e r in inv_loop w c tid inc its n e' r'))"

declare inv_loop.simps [simp del]

definition Investigate :: "('j, 'o, 'i) wiring \<Rightarrow> codec \<Rightarrow> start_env \<Rightarrow> (nat \<Rightarrow> iter_env) \<Rightarrow> end_env \<Rightarrow> nat
    \<Rightarrow> tenant_id \<Rightarrow> incident \<Rightarrow> ('j, 'o, 'i) engine \<Rightarrow> (('j, 'o, 'i) engine \<times> (rca_err + investigation)) option" where
  "Investigate w c s its en fuel tid inc e =
     (case inv_begin w s tid inc e of
        (e1, Inl err) \<Rightarrow> Some (e1, Inl err)
      | (e1, Inr r) \<Rightarrow>
          (case inv_loop w c tid inc its fuel e1 r of
             None \<Rightarrow> None
           | Some (e2, r2) \<Rightarrow> (let (e3, v) = inv_finish w en tid inc e2 r2 in Some (e3, Inr v))))"

end
