(* ===== verification/RcaCalls.thy ===== *)
theory RcaCalls
  imports RcaLoop
begin

text \<open>
  internal/rca/engine.go: the calls on stored investigations (\<open>Get\<close>, \<open>Replay\<close>, \<open>Correct\<close>, \<open>Abort\<close>,
  \<open>Stats\<close>); and the adapter of cmd/traceiq/interest_adapter.go, by which the sampler's predicate
  set is the engine's interest sink.
\<close>

section \<open>Get, Correct, Abort, Stats\<close>

definition not_found :: "string \<Rightarrow> rca_err" where
  "not_found i = ROther (''rca: investigation '' @ go_quote i @ '' not found'')"

definition Get :: "tenant_id \<Rightarrow> string \<Rightarrow> ('j, 'o, 'i) engine \<Rightarrow> rca_err + investigation" where
  "Get tid i e =
     (case map_of (eg_invs e) i of
        None \<Rightarrow> Inl (not_found i)
      | Some v \<Rightarrow> if iv_Tenant v \<noteq> tid then Inl (not_found i) else Inr v)"

definition Correct :: "tenant_id \<Rightarrow> string \<Rightarrow> string \<Rightarrow> correction \<Rightarrow> ('j, 'o, 'i) engine
    \<Rightarrow> ('j, 'o, 'i) engine \<times> (rca_err + investigation)" where
  "Correct tid i stepID co e =
     (case Get tid i e of
        Inl err \<Rightarrow> (e, Inl err)
      | Inr v \<Rightarrow>
          (let v' = v\<lparr>iv_Version := iv_Version v + 1\<rparr>
           in (e\<lparr>eg_corr := (eg_corr e)(i := eg_corr e i @ [co\<lparr>cr_TargetID := stepID\<rparr>]),
                eg_invs := AList.update i v' (eg_invs e)\<rparr>, Inr v')))"

definition Abort :: "('j, 'o, 'i) wiring \<Rightarrow> gotime \<Rightarrow> tenant_id \<Rightarrow> string \<Rightarrow> string \<Rightarrow> ('j, 'o, 'i) engine
    \<Rightarrow> ('j, 'o, 'i) engine \<times> rca_err option" where
  "Abort w now tid i reason e =
     (case Get tid i e of
        Inl err \<Rightarrow> (e, Some err)
      | Inr v \<Rightarrow>
          if i \<in> eg_cancels e then
            (e\<lparr>eg_abortReasons := (eg_abortReasons e)(i := reason), eg_cancelled := insert i (eg_cancelled e)\<rparr>, None)
          else
           (let v' = v\<lparr>iv_Status := InvestigationAborted, iv_TerminationReason := TermAborted,
                       iv_Error := (if reason = [] then None else Some (ROther reason)), iv_EndedAt := now\<rparr>
            in (storeInv v'
                 (e\<lparr>eg_journal := fst (jo_SetStatus (wi_journal w) (eg_journal e) tid i (iv_Status v') (iv_EndedAt v'))\<rparr>),
                None)))"

definition Stats :: "('j, 'o, 'i) engine \<Rightarrow> nat" where
  "Stats e = length (filter (\<lambda>v. iv_Status v = InvestigationRunning) (map snd (eg_invs e)))"

section \<open>Replay\<close>

record replay_env =
  rp_ID :: string
  rp_StepID :: "nat \<Rightarrow> string"
  rp_Backends :: "nat \<Rightarrow> tool_backends"
  rp_Now :: gotime

text \<open>A copied step: a new identifier, the new investigation, no times.\<close>

definition replayed_step :: "string \<Rightarrow> string \<Rightarrow> step \<Rightarrow> step" where
  "replayed_step newID invID st =
     st\<lparr>stp_ID := newID, stp_InvestigationID := invID, stp_StartedAt := 0, stp_EndedAt := 0, stp_LatencyMillis := 0\<rparr>"

text \<open>Without an object store no step has a reference, so the store is not asked.\<close>

definition check_evidence :: "('j, 'o, 'i) wiring \<Rightarrow> codec \<Rightarrow> 'o \<Rightarrow> tenant_id \<Rightarrow> step \<Rightarrow> rca_err option" where
  "check_evidence w c ob tid st =
     (if stp_ToolResultRef st = [] then None
      else case wi_objects w of
        None \<Rightarrow> None
      | Some ops \<Rightarrow>
          (case oo_Get ops ob tid (stp_ToolResultRef st) of
             Inl err \<Rightarrow> Some (RWrapped ErrEvidenceCorrupt err)
           | Inr body \<Rightarrow>
               if sha256Hex (cd_H c) body \<noteq> stp_ToolResultHash st then Some (RPlain ErrEvidenceCorrupt) else None))"

fun copy_steps :: "('j, 'o, 'i) wiring \<Rightarrow> codec \<Rightarrow> 'o \<Rightarrow> tenant_id \<Rightarrow> replay_env \<Rightarrow> nat \<Rightarrow> step list \<Rightarrow> rca_err + step list" where
  "copy_steps w c ob tid rp n [] = Inr []"
| "copy_steps w c ob tid rp n (st # sts) =
     (case check_evidence w c ob tid st of
        Some err \<Rightarrow> Inl err
      | None \<Rightarrow>
          (case copy_steps w c ob tid rp (Suc n) sts of
             Inl err \<Rightarrow> Inl err
           | Inr rest \<Rightarrow> Inr (replayed_step (rp_StepID rp n) (rp_ID rp) st # rest)))"

definition replay_copy :: "replay_mode \<Rightarrow> replay_env \<Rightarrow> investigation \<Rightarrow> investigation" where
  "replay_copy mode rp v =
     v\<lparr>iv_ID := rp_ID rp, iv_ParentID := iv_ID v, iv_ReplayOf := iv_ID v, iv_ReplayMode := mode, iv_Spend := no_spend\<rparr>"

definition replayRecorded :: "('j, 'o, 'i) wiring \<Rightarrow> codec \<Rightarrow> tenant_id \<Rightarrow> replay_env \<Rightarrow> investigation \<Rightarrow> step list
    \<Rightarrow> ('j, 'o, 'i) engine \<Rightarrow> ('j, 'o, 'i) engine \<times> (rca_err + investigation)" where
  "replayRecorded w c tid rp original sts e =
     (case copy_steps w c (eg_objects e) tid rp 0 sts of
        Inl err \<Rightarrow> (e, Inl err)
      | Inr newSteps \<Rightarrow>
          (let v = (replay_copy ReplayRecorded rp original)\<lparr>iv_StartedAt := 0, iv_EndedAt := 0, iv_Steps := newSteps\<rparr>;
               j1 = fst (jo_Create (wi_journal w) (eg_journal e) tid v);
               j2 = foldl (\<lambda>j st. fst (jo_AppendStep (wi_journal w) j tid (iv_ID v) st)) j1 newSteps;
               j3 = fst (jo_SetStatus (wi_journal w) j2 tid (iv_ID v) (iv_Status v) (rp_Now rp))
           in (storeInv v (e\<lparr>eg_journal := j3\<rparr>), Inr v)))"

text \<open>Whether the step, dispatched again, gives another result.\<close>

definition drifted :: "codec \<Rightarrow> tenant_id \<Rightarrow> tool_backends \<Rightarrow> step \<Rightarrow> bool" where
  "drifted c tid b st =
     (if stp_Tool st = [] \<or> stp_ToolArgsJSON st = [] then False
      else case cd_DecodeArgs c (stp_ToolArgsJSON st) of
        None \<Rightarrow> True
      | Some args \<Rightarrow>
          (case Dispatch (NewRegistry b) tid (args\<lparr>ta_TenantID := tid\<rparr>) of
             (result, Some err) \<Rightarrow> False
           | (result, None) \<Rightarrow> sha256Hex (cd_H c) (tlr_Rows result) \<noteq> stp_ToolResultHash st))"

fun count_drift :: "codec \<Rightarrow> tenant_id \<Rightarrow> replay_env \<Rightarrow> nat \<Rightarrow> step list \<Rightarrow> nat" where
  "count_drift c tid rp n [] = 0"
| "count_drift c tid rp n (st # sts) =
     (if drifted c tid (rp_Backends rp n) st then 1 else 0) + count_drift c tid rp (Suc n) sts"

definition replayLiveDiff :: "codec \<Rightarrow> tenant_id \<Rightarrow> replay_env \<Rightarrow> investigation \<Rightarrow> step list
    \<Rightarrow> ('j, 'o, 'i) engine \<Rightarrow> ('j, 'o, 'i) engine \<times> (rca_err + investigation)" where
  "replayLiveDiff c tid rp original sts e =
     (let v = (replay_copy ReplayLiveDiff rp original)
                \<lparr>iv_ReportMarkdown := iv_ReportMarkdown original @ nl @ nl @ ''LiveDiff: ''
                   @ show_nat (count_drift c tid rp 0 sts) @ ''/'' @ show_nat (length sts) @ '' steps drifted.''\<rparr>
      in (storeInv v e, Inr v))"

definition Replay :: "('j, 'o, 'i) wiring \<Rightarrow> codec \<Rightarrow> replay_env \<Rightarrow> tenant_id \<Rightarrow> string \<Rightarrow> replay_mode
    \<Rightarrow> ('j, 'o, 'i) engine \<Rightarrow> ('j, 'o, 'i) engine \<times> (rca_err + investigation)" where
  "Replay w c rp tid i mode e =
     (case Get tid i e of
        Inl err \<Rightarrow> (e, Inl err)
      | Inr original \<Rightarrow>
         (case jo_Steps (wi_journal w) (eg_journal e) tid i of
            Inl err \<Rightarrow> (e, Inl (RContext ''rca: replay load steps'' err))
          | Inr sts \<Rightarrow>
              if mode = ReplayLiveDiff then replayLiveDiff c tid rp original sts e
              else replayRecorded w c tid rp original sts e))"

section \<open>cmd/traceiq/interest_adapter.go\<close>

text \<open>
  The sampler takes the tenant from the call (\<open>Impl.SetInterestPredicate\<close>) and assigns the identifier;
  neither of its two methods fails.  The two predicate types have the same fields, so the copy of
  the adapter is the identity up to the identifier, which it leaves out.
\<close>

definition toSamplerInterestPredicate :: "interest_predicate \<Rightarrow> interest_predicate" where
  "toSamplerInterestPredicate p = p\<lparr>ip_ID := []\<rparr>"

definition sampler_sink :: "pred_set sink_ops" where
  "sampler_sink =
     \<lparr>io_Set = (\<lambda>ps tid p. (case Add ps ((toSamplerInterestPredicate p)\<lparr>ip_Tenant := tid\<rparr>) of (i, ps') \<Rightarrow> (ps', Inr i))),
      io_Remove = (\<lambda>ps tid i. (RemovePredicate ps i, None))\<rparr>"

end
