(* ===== verification/RcaTermination.thy ===== *)
theory RcaTermination
  imports RcaCalls Transition
begin

text \<open>
  What one turn of the investigation loop does to its variables, the invariant of a running investigation (counters
  within the budget, at most one swap of the reasoner, one hypothesis per identifier), and termination: with a rules
  reasoner as fallback every turn that does not stop the loop counts a step or makes the only swap, so the loop ends
  within 26 turns.
\<close>

section \<open>What the parts of a turn leave alone\<close>

lemma on_inv_fields [simp]:
  "ru_inv (on_inv f r) = f (ru_inv r)" "ru_args (on_inv f r) = ru_args r" "ru_result (on_inv f r) = ru_result r"
  "ru_hyp (on_inv f r) = ru_hyp r" "ru_swapped (on_inv f r) = ru_swapped r" "ru_cap (on_inv f r) = ru_cap r"
  "ru_scopeID (on_inv f r) = ru_scopeID r" "ru_turn (on_inv f r) = ru_turn r" "ru_stopped (on_inv f r) = ru_stopped r"
  by (simp_all add: on_inv_def)

lemma forget_pending_fields [simp]:
  "ru_inv (forget_pending r) = ru_inv r" "ru_swapped (forget_pending r) = ru_swapped r"
  "ru_cap (forget_pending r) = ru_cap r" "ru_stopped (forget_pending r) = ru_stopped r"
  "ru_scopeID (forget_pending r) = ru_scopeID r" "ru_turn (forget_pending r) = Suc (ru_turn r)"
  "ru_args (forget_pending r) = None" "ru_result (forget_pending r) = None" "ru_hyp (forget_pending r) = []"
  by (simp_all add: forget_pending_def)

lemma stop_run_fields [simp]:
  "ru_inv (stop_run x r) = (ru_inv r)\<lparr>iv_TerminationReason := x\<rparr>" "ru_stopped (stop_run x r)"
  "ru_swapped (stop_run x r) = ru_swapped r" "ru_cap (stop_run x r) = ru_cap r"
  "ru_scopeID (stop_run x r) = ru_scopeID r"
  by (simp_all add: stop_run_def)

text \<open>The variables of an investigation the loop never touches.\<close>

definition same_frame :: "investigation \<Rightarrow> investigation \<Rightarrow> bool" where
  "same_frame v v' \<longleftrightarrow>
     iv_ID v' = iv_ID v \<and> iv_Tenant v' = iv_Tenant v \<and> iv_Budget v' = iv_Budget v
     \<and> iv_StartedAt v' = iv_StartedAt v \<and> iv_Status v' = iv_Status v \<and> iv_Confidence v' = iv_Confidence v"

text \<open>The effect of a turn on the counters and the swap.\<close>

definition counted :: "running \<Rightarrow> running \<Rightarrow> bool" where
  "counted r r' \<longleftrightarrow>
     spd_Steps (iv_Spend (ru_inv r')) = spd_Steps (iv_Spend (ru_inv r)) + 1
     \<and> (spd_ToolCalls (iv_Spend (ru_inv r')) = spd_ToolCalls (iv_Spend (ru_inv r))
        \<or> spd_ToolCalls (iv_Spend (ru_inv r')) = spd_ToolCalls (iv_Spend (ru_inv r)) + 1)
     \<and> ru_swapped r' = ru_swapped r \<and> ru_cap r' = ru_cap r \<and> \<not> ru_stopped r'
     \<and> iv_ReasonerSwaps (ru_inv r') = iv_ReasonerSwaps (ru_inv r)
     \<and> iv_ReasonerKind (ru_inv r') = iv_ReasonerKind (ru_inv r)"

definition uncounted :: "running \<Rightarrow> running \<Rightarrow> bool" where
  "uncounted r r' \<longleftrightarrow>
     spd_Steps (iv_Spend (ru_inv r')) = spd_Steps (iv_Spend (ru_inv r))
     \<and> spd_ToolCalls (iv_Spend (ru_inv r')) = spd_ToolCalls (iv_Spend (ru_inv r))"

lemma forget_pending_counts [simp]:
  "counted (forget_pending r) r' = counted r r'" "uncounted (forget_pending r) r' = uncounted r r'"
  by (simp_all add: counted_def uncounted_def)

lemmas step_counters = count_step_def count_call_def add_step_def add_charge_def

lemma pure_turn_effect:
  assumes "pure_turn w c tid it p e r = (e', r')" and "\<not> ru_stopped r"
  shows "counted r r' \<and> same_frame (ru_inv r) (ru_inv r') \<and> iv_TerminationReason (ru_inv r') = iv_TerminationReason (ru_inv r)"
  using assms
  by (auto simp: pure_turn_def Let_def counted_def same_frame_def step_counters split: prod.splits if_splits)

lemma invalid_turn_effect:
  assumes "invalid_turn w c tid it p call e r = (e', r')" and "\<not> ru_stopped r"
  shows "counted r r' \<and> same_frame (ru_inv r) (ru_inv r') \<and> iv_TerminationReason (ru_inv r') = iv_TerminationReason (ru_inv r)"
  using assms
  by (auto simp: invalid_turn_def Let_def counted_def same_frame_def step_counters)

lemma tool_turn_effect:
  assumes "tool_turn w c tid it p call e r = (e', r')" and "\<not> ru_stopped r"
  shows "counted r r' \<and> same_frame (ru_inv r) (ru_inv r') \<and> iv_TerminationReason (ru_inv r') = iv_TerminationReason (ru_inv r)"
  using assms
  by (auto simp: tool_turn_def Let_def counted_def same_frame_def step_counters split: prod.splits)

lemma charge_usage_effect:
  assumes "charge_usage u e r = (e', r')"
  shows "uncounted r r' \<and> same_frame (ru_inv r) (ru_inv r') \<and> ru_swapped r' = ru_swapped r \<and> ru_cap r' = ru_cap r
    \<and> ru_stopped r' = ru_stopped r \<and> iv_ReasonerSwaps (ru_inv r') = iv_ReasonerSwaps (ru_inv r)
    \<and> iv_ReasonerKind (ru_inv r') = iv_ReasonerKind (ru_inv r)
    \<and> iv_TerminationReason (ru_inv r') = iv_TerminationReason (ru_inv r)
    \<and> iv_Steps (ru_inv r') = iv_Steps (ru_inv r) \<and> iv_Hypotheses (ru_inv r') = iv_Hypotheses (ru_inv r)"
  using assms
  by (auto simp: charge_usage_def uncounted_def same_frame_def add_charge_def split: if_splits)

text \<open>What a turn with a proposal does: it concludes, or it counts a step.\<close>

lemma iter_proposal_effect:
  assumes "iter_proposal w c tid it p e r = (e', r')" and "\<not> ru_stopped r"
  shows "same_frame (ru_inv r) (ru_inv r') \<and>
    (if pr_Done p then
       ru_stopped r' \<and> uncounted r r' \<and> iv_TerminationReason (ru_inv r') = TermConcluded
       \<and> ru_swapped r' = ru_swapped r \<and> ru_cap r' = ru_cap r
       \<and> iv_ReasonerSwaps (ru_inv r') = iv_ReasonerSwaps (ru_inv r) \<and> iv_ReasonerKind (ru_inv r') = iv_ReasonerKind (ru_inv r)
     else counted r r' \<and> iv_TerminationReason (ru_inv r') = iv_TerminationReason (ru_inv r))"
proof -
  define r1 where "r1 = on_inv (\<lambda>v. v\<lparr>iv_Hypotheses := mergeHypotheses (iv_Hypotheses v) (pr_Hypotheses p)\<rparr>) r"
  obtain e1 r2 where u: "charge_usage (pr_Usage p) e r1 = (e1, r2)" by force
  note u' = charge_usage_effect [OF u]
  have r1: "uncounted r r1" "same_frame (ru_inv r) (ru_inv r1)" "ru_swapped r1 = ru_swapped r" "ru_cap r1 = ru_cap r"
    "ru_stopped r1 = ru_stopped r" "iv_ReasonerSwaps (ru_inv r1) = iv_ReasonerSwaps (ru_inv r)"
    "iv_ReasonerKind (ru_inv r1) = iv_ReasonerKind (ru_inv r)"
    "iv_TerminationReason (ru_inv r1) = iv_TerminationReason (ru_inv r)"
    by (simp_all add: r1_def uncounted_def same_frame_def)
  have ns: "\<not> ru_stopped r2" using u' r1 assms(2) by simp
  have turn: "counted r2 r' \<and> same_frame (ru_inv r2) (ru_inv r')
      \<and> iv_TerminationReason (ru_inv r') = iv_TerminationReason (ru_inv r2)" if "\<not> pr_Done p"
    using assms(1) that
    by (auto simp: iter_proposal_def r1_def [symmetric] u Let_def split: option.splits if_splits
        dest!: pure_turn_effect [OF _ ns] invalid_turn_effect [OF _ ns] tool_turn_effect [OF _ ns])
  show ?thesis
  proof (cases "pr_Done p")
    case True
    with assms(1) have "r' = stop_run TermConcluded r2"
      by (simp add: iter_proposal_def r1_def [symmetric] u)
    with True u' r1 show ?thesis by (simp add: same_frame_def uncounted_def)
  next
    case False
    with turn u' r1 show ?thesis by (auto simp: same_frame_def counted_def uncounted_def)
  qed
qed

lemma swap_run_fields [simp]:
  "same_frame (ru_inv r) (ru_inv (swap_run k f err t r))" "ru_swapped (swap_run k f err t r)"
  "ru_cap (swap_run k f err t r) = swappedCap" "ru_stopped (swap_run k f err t r) = ru_stopped r"
  "iv_Spend (ru_inv (swap_run k f err t r)) = iv_Spend (ru_inv r)"
  "iv_Steps (ru_inv (swap_run k f err t r)) = iv_Steps (ru_inv r)"
  "iv_Hypotheses (ru_inv (swap_run k f err t r)) = iv_Hypotheses (ru_inv r)"
  "iv_ReasonerKind (ru_inv (swap_run k f err t r)) = rz_Kind f"
  "length (iv_ReasonerSwaps (ru_inv (swap_run k f err t r))) = Suc (length (iv_ReasonerSwaps (ru_inv r)))"
  by (simp_all add: swap_run_def same_frame_def)

lemma iter_error_cases:
  obtains (concluded) "rca_sentinel_of err = Some ErrNoMoreRules" and "iter_error w kind now err r = stop_run TermConcluded r"
  | (failed) "iter_error w kind now err r = fail_run err r"
  | (swap) f where "wi_fallback w = Some f" and "kind = ReasonerLLM" and "isFallbackTrigger err"
      and "iter_error w kind now err r = swap_run ReasonerLLM f err now r"
proof (cases "rca_sentinel_of err = Some ErrNoMoreRules")
  case True
  then show ?thesis by (intro concluded) (simp_all add: iter_error_def)
next
  case False
  show ?thesis
  proof (cases "\<exists>f. wi_fallback w = Some f \<and> kind = ReasonerLLM \<and> isFallbackTrigger err")
    case True
    then obtain f where "wi_fallback w = Some f" "kind = ReasonerLLM" "isFallbackTrigger err" by blast
    then show ?thesis by (intro swap) (simp_all add: iter_error_def False)
  next
    case nope: False
    show ?thesis
    proof (rule failed, cases "wi_fallback w")
      case (Some f)
      with nope have "\<not> (kind = ReasonerLLM \<and> isFallbackTrigger err)" by blast
      with Some False show "iter_error w kind now err r = fail_run err r"
        by (simp add: iter_error_def del: de_Morgan_conj)
    qed (simp add: iter_error_def False)
  qed
qed

lemma fail_run_fields [simp]:
  "same_frame (ru_inv r) (ru_inv (fail_run err r))" "ru_stopped (fail_run err r)"
  "ru_swapped (fail_run err r) = ru_swapped r" "ru_cap (fail_run err r) = ru_cap r"
  "uncounted r (fail_run err r)" "iv_ReasonerSwaps (ru_inv (fail_run err r)) = iv_ReasonerSwaps (ru_inv r)"
  "iv_ReasonerKind (ru_inv (fail_run err r)) = iv_ReasonerKind (ru_inv r)"
  "iv_Steps (ru_inv (fail_run err r)) = iv_Steps (ru_inv r)"
  "iv_Hypotheses (ru_inv (fail_run err r)) = iv_Hypotheses (ru_inv r)"
  by (simp_all add: fail_run_def same_frame_def uncounted_def)

section \<open>One turn\<close>

inductive inv_turn :: "('j, 'o, 'i) wiring \<Rightarrow> codec \<Rightarrow> tenant_id \<Rightarrow> incident
    \<Rightarrow> ('j, 'o, 'i) engine \<times> running \<Rightarrow> ('j, 'o, 'i) engine \<times> running \<Rightarrow> bool"
  for w c tid inc
where
  "\<not> ru_stopped r \<Longrightarrow> inv_iter w c tid inc it e r = (e', r') \<Longrightarrow> inv_turn w c tid inc (e, r) (e', r')"

inductive_cases inv_turnE: "inv_turn w c tid inc s t"

lemma inv_loop_steps:
  "inv_loop w c tid inc its fuel e r = Some (e', r') \<Longrightarrow>
     steps (inv_turn w c tid inc) (e, r) (e', r') \<and> ru_stopped r'"
proof (induction fuel arbitrary: e r)
  case 0
  then show ?case by (auto simp: inv_loop.simps split: if_splits intro: steps.intros(1))
next
  case (Suc n)
  show ?case
  proof (cases "ru_stopped r")
    case True
    with Suc.prems show ?thesis by (auto simp: inv_loop.simps intro: steps.intros(1))
  next
    case False
    obtain e1 r1 where turn: "inv_iter w c tid inc (its (ru_turn r)) e r = (e1, r1)" by force
    with False Suc.prems have "inv_loop w c tid inc its n e1 r1 = Some (e', r')"
      by (simp add: inv_loop.simps [of _ _ _ _ _ "Suc n"])
    from Suc.IH [OF this] have "steps (inv_turn w c tid inc) (e1, r1) (e', r')" "ru_stopped r'" by auto
    moreover have "steps (inv_turn w c tid inc) (e, r) (e1, r1)"
      using inv_turn.intros [OF False turn] by (blast intro: steps.intros)
    ultimately show ?thesis by (blast intro: steps_trans)
  qed
qed

text \<open>The three ways a turn ends: stopped, one more step counted, or the reasoner swapped.\<close>

lemma inv_iter_cases:
  assumes "inv_iter w c tid inc it e r = (e', r')" and "\<not> ru_stopped r"
  shows "same_frame (ru_inv r) (ru_inv r') \<and>
    ((ru_stopped r' \<and> uncounted r r' \<and> ru_swapped r' = ru_swapped r \<and> ru_cap r' = ru_cap r
       \<and> iv_ReasonerSwaps (ru_inv r') = iv_ReasonerSwaps (ru_inv r) \<and> iv_ReasonerKind (ru_inv r') = iv_ReasonerKind (ru_inv r))
     \<or> (counted r r' \<and> stop_check (rz_Kind (active w r)) (it_Cancelled it \<or> iv_ID (ru_inv r) \<in> eg_cancelled e) (it_Now it) (ru_inv r) = None)
     \<or> (\<exists>f err t. wi_fallback w = Some f \<and> rz_Kind (active w r) = ReasonerLLM \<and> isFallbackTrigger err
          \<and> r' = swap_run ReasonerLLM f err t (forget_pending r)))"
proof (cases "stop_check (rz_Kind (active w r)) (it_Cancelled it \<or> iv_ID (ru_inv r) \<in> eg_cancelled e) (it_Now it) (ru_inv r)")
  case (Some reason)
  with assms have "r' = stop_run reason r" by (simp add: inv_iter_def Let_def)
  then show ?thesis by (simp add: same_frame_def uncounted_def)
next
  case None
  show ?thesis
  proof (cases "rz_NextStep (active w r) (ru_turn r) tid (turn_state inc r)")
    case (Inl err)
    with None assms have r': "r' = iter_error w (rz_Kind (active w r)) (it_StartedAt it) err (forget_pending r)"
      by (simp add: inv_iter_def Let_def)
    show ?thesis
    proof (cases rule: iter_error_cases [of err w "rz_Kind (active w r)" "it_StartedAt it" "forget_pending r"])
      case concluded
      then show ?thesis by (simp add: r' same_frame_def uncounted_def)
    next
      case failed
      have "same_frame (ru_inv r) (ru_inv r')" "uncounted r r'"
        using fail_run_fields(1,5) [of "forget_pending r" err, unfolded forget_pending_counts forget_pending_fields]
        unfolding r' failed .
      with failed show ?thesis by (simp add: r')
    next
      case (swap f)
      then have "same_frame (ru_inv r) (ru_inv r')"
        using swap_run_fields(1) [of "forget_pending r" ReasonerLLM f err "it_StartedAt it"] by (simp add: r')
      with swap show ?thesis unfolding r' by blast
    qed
  next
    case (Inr p)
    with None assms have p: "iter_proposal w c tid it p e (forget_pending r) = (e', r')"
      by (simp add: inv_iter_def Let_def)
    from assms(2) have "\<not> ru_stopped (forget_pending r)" by simp
    note eff = iter_proposal_effect [OF p this, unfolded forget_pending_fields forget_pending_counts]
    show ?thesis
    proof (cases "pr_Done p")
      case True
      with eff show ?thesis by simp
    next
      case False
      with eff None show ?thesis by simp
    qed
  qed
qed


section \<open>The invariant\<close>

definition fallback_rules :: "('j, 'o, 'i) wiring \<Rightarrow> bool" where
  "fallback_rules w \<longleftrightarrow> (case wi_fallback w of None \<Rightarrow> True | Some f \<Rightarrow> rz_Kind f = ReasonerRules)"

definition counters_ok :: "investigation \<Rightarrow> bool" where
  "counters_ok v \<longleftrightarrow>
     iv_Budget v = DefaultBudget \<and> 0 \<le> spd_ToolCalls (iv_Spend v)
     \<and> spd_ToolCalls (iv_Spend v) \<le> spd_Steps (iv_Spend v) \<and> spd_Steps (iv_Spend v) \<le> 24"

definition swap_ok :: "('j, 'o, 'i) wiring \<Rightarrow> running \<Rightarrow> bool" where
  "swap_ok w r \<longleftrightarrow>
     (if ru_swapped r then ru_cap r = swappedCap \<and> wi_fallback w \<noteq> None \<and> iv_ReasonerSwaps (ru_inv r) \<noteq> []
        \<and> (fallback_rules w \<longrightarrow> length (iv_ReasonerSwaps (ru_inv r)) = 1)
      else ru_cap r = 0 \<and> iv_ReasonerSwaps (ru_inv r) = [])
     \<and> iv_ReasonerKind (ru_inv r) = rz_Kind (active w r)"

definition run_ok :: "('j, 'o, 'i) wiring \<Rightarrow> ('j, 'o, 'i) engine \<times> running \<Rightarrow> bool" where
  "run_ok w s \<longleftrightarrow> counters_ok (ru_inv (snd s)) \<and> swap_ok w (snd s)"

lemma stop_check_None:
  assumes "stop_check k cancelled now v = None" and "iv_Budget v = DefaultBudget"
  shows "spd_Steps (iv_Spend v) < 24" "\<not> cancelled"
  using assms by (auto simp: stop_check_def Let_def DefaultBudget_def split: if_splits)

lemma active_swap: "wi_fallback w = Some f \<Longrightarrow> ru_swapped r \<Longrightarrow> active w r = f"
  by (simp add: active_def)

lemma active_same: "ru_swapped r' = ru_swapped r \<Longrightarrow> active w r' = active w r"
  by (simp add: active_def)

lemma counters_counted:
  assumes "counted r r'" and "same_frame (ru_inv r) (ru_inv r')" and "counters_ok (ru_inv r)"
    and "spd_Steps (iv_Spend (ru_inv r)) < 24"
  shows "counters_ok (ru_inv r')"
  using assms by (auto simp: counters_ok_def counted_def same_frame_def)

lemma counters_uncounted:
  "uncounted r r' \<Longrightarrow> same_frame (ru_inv r) (ru_inv r') \<Longrightarrow> counters_ok (ru_inv r) \<Longrightarrow> counters_ok (ru_inv r')"
  by (simp add: counters_ok_def uncounted_def same_frame_def)

lemma swap_ok_same:
  assumes "swap_ok w r" and "ru_swapped r' = ru_swapped r" and "ru_cap r' = ru_cap r"
    and "iv_ReasonerSwaps (ru_inv r') = iv_ReasonerSwaps (ru_inv r)"
    and "iv_ReasonerKind (ru_inv r') = iv_ReasonerKind (ru_inv r)"
  shows "swap_ok w r'"
  using assms by (simp add: swap_ok_def active_same [OF assms(2)])

lemma swap_ok_swap:
  assumes "swap_ok w r" and f: "wi_fallback w = Some f" and llm: "rz_Kind (active w r) = ReasonerLLM"
  shows "swap_ok w (swap_run ReasonerLLM f err t (forget_pending r))"
proof -
  let ?r = "swap_run ReasonerLLM f err t (forget_pending r)"
  have act: "active w ?r = f" by (simp add: active_swap [OF f])
  have len: "length (iv_ReasonerSwaps (ru_inv ?r)) = Suc (length (iv_ReasonerSwaps (ru_inv r)))" by simp
  then have "iv_ReasonerSwaps (ru_inv ?r) \<noteq> []" by (metis Zero_not_Suc list.size(3))
  moreover have "length (iv_ReasonerSwaps (ru_inv ?r)) = 1" if "fallback_rules w"
  proof -
    have "\<not> ru_swapped r" using that f llm active_swap [OF f, of r] by (auto simp: fallback_rules_def)
    with assms(1) have "iv_ReasonerSwaps (ru_inv r) = []" by (simp add: swap_ok_def)
    with len show ?thesis by simp
  qed
  ultimately show ?thesis using f by (simp add: swap_ok_def act)
qed

lemma turn_cases:
  assumes "inv_iter w c tid inc it e r = (e', r')" and "\<not> ru_stopped r"
  obtains (stop) "ru_stopped r'" "uncounted r r'" "ru_swapped r' = ru_swapped r" "ru_cap r' = ru_cap r"
      "iv_ReasonerSwaps (ru_inv r') = iv_ReasonerSwaps (ru_inv r)"
      "iv_ReasonerKind (ru_inv r') = iv_ReasonerKind (ru_inv r)"
  | (count) k x tm where "counted r r'" "stop_check k x tm (ru_inv r) = None"
  | (swap) f err tm where "wi_fallback w = Some f" "rz_Kind (active w r) = ReasonerLLM" "isFallbackTrigger err"
      "r' = swap_run ReasonerLLM f err tm (forget_pending r)"
  using inv_iter_cases [OF assms] by (elim conjE disjE exE) (rule stop count swap; assumption)+

lemma run_ok_turn:
  assumes "run_ok w s" and "inv_turn w c tid inc s t"
  shows "run_ok w t"
proof -
  from assms(2) obtain r it e e' r' where 1: "s = (e, r)" "t = (e', r')" "\<not> ru_stopped r"
    "inv_iter w c tid inc it e r = (e', r')" by (rule inv_turnE) blast
  have ok: "counters_ok (ru_inv r)" "swap_ok w r" using assms(1) 1 by (simp_all add: run_ok_def)
  from inv_iter_cases [OF 1(4) 1(3)] have frame: "same_frame (ru_inv r) (ru_inv r')" by (rule conjunct1)
  from 1(4,3) have "counters_ok (ru_inv r') \<and> swap_ok w r'"
  proof (cases rule: turn_cases)
    case stop
    with frame ok show ?thesis by (blast intro: counters_uncounted swap_ok_same)
  next
    case (count k x tm)
    then have "spd_Steps (iv_Spend (ru_inv r)) < 24" using stop_check_None(1) ok(1) by (auto simp: counters_ok_def)
    moreover have "swap_ok w r'" using count(1) by (intro swap_ok_same [OF ok(2)]) (simp_all add: counted_def)
    ultimately show ?thesis using count frame ok by (blast intro: counters_counted)
  next
    case (swap f err tm)
    then have "uncounted r r'" by (simp add: uncounted_def)
    with swap frame ok show ?thesis using swap_ok_swap by (metis counters_uncounted)
  qed
  with 1 show ?thesis by (simp add: run_ok_def)
qed

interpretation run: invariant_system "run_ok w" "inv_turn w c tid inc" "run_ok w" for w c tid inc
  by unfold_locales (auto intro: run_ok_turn)

section \<open>The loop ends\<close>

definition turns_left :: "running \<Rightarrow> nat" where
  "turns_left r = nat (24 - spd_Steps (iv_Spend (ru_inv r))) + (if ru_swapped r then 0 else 1)"

lemma turn_decreases:
  assumes turn: "inv_iter w c tid inc it e r = (e', r')" and "\<not> ru_stopped r" and "\<not> ru_stopped r'"
    and ok: "run_ok w (e, r)" and fb: "fallback_rules w"
  shows "turns_left r' < turns_left r"
proof -
  have b: "iv_Budget (ru_inv r) = DefaultBudget" using ok by (simp add: run_ok_def counters_ok_def)
  from turn assms(2) show ?thesis
  proof (cases rule: turn_cases)
    case stop
    with assms(3) show ?thesis by simp
  next
    case (count k x tm)
    with stop_check_None(1) [OF count(2) b] show ?thesis by (simp add: turns_left_def counted_def)
  next
    case (swap f err tm)
    then have "\<not> ru_swapped r" using fb active_swap [OF swap(1), of r] by (auto simp: fallback_rules_def)
    with swap show ?thesis by (simp add: turns_left_def)
  qed
qed

lemma inv_loop_ends:
  assumes "fallback_rules w"
  shows "run_ok w (e, r) \<Longrightarrow> turns_left r < fuel \<Longrightarrow> \<exists>s. inv_loop w c tid inc its fuel e r = Some s"
proof (induction fuel arbitrary: e r)
  case (Suc n)
  show ?case
  proof (cases "ru_stopped r")
    case True
    then show ?thesis by (simp add: inv_loop.simps)
  next
    case False
    obtain e1 r1 where turn: "inv_iter w c tid inc (its (ru_turn r)) e r = (e1, r1)" by force
    have ok1: "run_ok w (e1, r1)" using run_ok_turn [OF Suc.prems(1)] inv_turn.intros [OF False turn] by blast
    have "\<exists>s. inv_loop w c tid inc its n e1 r1 = Some s"
    proof (cases "ru_stopped r1")
      case True
      then show ?thesis by (simp add: inv_loop.simps)
    next
      case nstop: False
      from turn_decreases [OF turn False nstop Suc.prems(1) assms] Suc.prems(2)
      show ?thesis by (intro Suc.IH ok1) simp
    qed
    with False turn show ?thesis by (simp add: inv_loop.simps [of _ _ _ _ _ "Suc n"])
  qed
qed simp

section \<open>The start\<close>

lemma inv_begin_run:
  assumes "inv_begin w s tid inc e = (e', Inr r)"
  shows "run_ok w (e', r) \<and> turns_left r \<le> 25 \<and> \<not> ru_stopped r \<and> iv_ID (ru_inv r) = se_ID s \<and> iv_Tenant (ru_inv r) = tid
    \<and> iv_Hypotheses (ru_inv r) = [] \<and> iv_TerminationReason (ru_inv r) = TermNone \<and> \<not> ru_swapped r
    \<and> iv_Confidence (ru_inv r) = 0 \<and> iv_StartedAt (ru_inv r) = se_StartedAt s \<and> ru_turn r = 0
    \<and> ru_result r = None \<and> ru_hyp r = []"
  using assms
  by (auto simp: inv_begin_def Let_def contextualize_def run_ok_def counters_ok_def swap_ok_def active_def
      new_investigation_def turns_left_def step_counters no_spend_def split: prod.splits option.splits if_splits)

end
