(* ===== verification/RcaOutcomes.thy ===== *)
theory RcaOutcomes
  imports RcaTermination
begin

text \<open>
  What an investigation concludes: its status, the budget it spent, the ground of its root cause, and
  the cap on the confidence of a swapped investigation.
\<close>

section \<open>The five turns\<close>

lemma inv_iter_split:
  assumes "inv_iter w c tid inc it e r = (e', r')"
  obtains (guard) reason x where "stop_check (rz_Kind (active w r)) x (it_Now it) (ru_inv r) = Some reason"
      and "e' = e" and "r' = stop_run reason r"
  | (concluded) err where "rz_NextStep (active w r) (ru_turn r) tid (turn_state inc r) = Inl err"
      and "rca_sentinel_of err = Some ErrNoMoreRules" and "e' = e" and "r' = stop_run TermConcluded (forget_pending r)"
  | (failed) err where "rz_NextStep (active w r) (ru_turn r) tid (turn_state inc r) = Inl err"
      and "e' = e" and "r' = fail_run err (forget_pending r)"
  | (swap) f err tm where "rz_NextStep (active w r) (ru_turn r) tid (turn_state inc r) = Inl err"
      and "wi_fallback w = Some f" and "rz_Kind (active w r) = ReasonerLLM" and "e' = e"
      and "r' = swap_run ReasonerLLM f err tm (forget_pending r)"
  | (proposal) p x where "stop_check (rz_Kind (active w r)) x (it_Now it) (ru_inv r) = None"
      and "rz_NextStep (active w r) (ru_turn r) tid (turn_state inc r) = Inr p"
      and "iter_proposal w c tid it p e (forget_pending r) = (e', r')"
proof (cases "stop_check (rz_Kind (active w r)) (it_Cancelled it \<or> iv_ID (ru_inv r) \<in> eg_cancelled e) (it_Now it) (ru_inv r)")
  case (Some reason)
  with assms show ?thesis by (intro guard [OF Some]) (simp_all add: inv_iter_def Let_def)
next
  case None
  show ?thesis
  proof (cases "rz_NextStep (active w r) (ru_turn r) tid (turn_state inc r)")
    case (Inl err)
    with None assms have r': "e' = e" "r' = iter_error w (rz_Kind (active w r)) (it_StartedAt it) err (forget_pending r)"
      by (simp_all add: inv_iter_def Let_def)
    show ?thesis
    proof (cases rule: iter_error_cases [of err w "rz_Kind (active w r)" "it_StartedAt it" "forget_pending r"])
      case c: concluded
      with r' show ?thesis by (intro concluded [OF Inl]) simp_all
    next
      case f: failed
      with r' show ?thesis by (intro failed [OF Inl]) simp_all
    next
      case (swap f)
      with r' show ?thesis by (intro that(4) [OF Inl]) simp_all
    qed
  next
    case (Inr p)
    with None assms show ?thesis by (intro proposal [OF None Inr]) (simp add: inv_iter_def Let_def)
  qed
qed

section \<open>The board\<close>

lemma replace_hypothesis_IDs:
  "map hy_ID (replace_hypothesis u hs) = (if hy_ID u \<in> set (map hy_ID hs) then map hy_ID hs else map hy_ID hs @ [hy_ID u])"
  by (induction hs) auto

lemma replace_hypothesis_distinct: "distinct (map hy_ID hs) \<Longrightarrow> distinct (map hy_ID (replace_hypothesis u hs))"
  by (simp add: replace_hypothesis_IDs)

lemma mergeHypotheses_distinct: "distinct (map hy_ID hs) \<Longrightarrow> distinct (map hy_ID (mergeHypotheses hs us))"
  unfolding mergeHypotheses_def
  by (induction us arbitrary: hs) (simp_all add: replace_hypothesis_distinct)

lemma replace_hypothesis_same: "distinct (map hy_ID hs) \<Longrightarrow> h \<in> set hs \<Longrightarrow> replace_hypothesis h hs = hs"
  by (induction hs) (auto simp: image_iff)

lemma mergeHypotheses_same:
  assumes "distinct (map hy_ID hs)" shows "mergeHypotheses hs hs = hs"
proof -
  have "foldl (\<lambda>hs u. replace_hypothesis u hs) hs us = hs" if "set us \<subseteq> set hs" for us
    using that assms by (induction us) (simp_all add: replace_hypothesis_same)
  then show ?thesis by (simp add: mergeHypotheses_def)
qed

lemma turns_board [simp]:
  "pure_turn w c tid it p e r = (e', r') \<Longrightarrow> iv_Hypotheses (ru_inv r') = iv_Hypotheses (ru_inv r)"
  "invalid_turn w c tid it p call e r = (e', r') \<Longrightarrow> iv_Hypotheses (ru_inv r') = iv_Hypotheses (ru_inv r)"
  "tool_turn w c tid it p call e r = (e', r') \<Longrightarrow> iv_Hypotheses (ru_inv r') = iv_Hypotheses (ru_inv r)"
  by (auto simp: pure_turn_def invalid_turn_def tool_turn_def Let_def step_counters split: prod.splits if_splits)

lemma iter_proposal_board:
  assumes "iter_proposal w c tid it p e r = (e', r')"
  shows "iv_Hypotheses (ru_inv r') = mergeHypotheses (iv_Hypotheses (ru_inv r)) (pr_Hypotheses p)"
proof -
  define r1 where "r1 = on_inv (\<lambda>v. v\<lparr>iv_Hypotheses := mergeHypotheses (iv_Hypotheses v) (pr_Hypotheses p)\<rparr>) r"
  obtain e1 r2 where u: "charge_usage (pr_Usage p) e r1 = (e1, r2)" by force
  have r2: "iv_Hypotheses (ru_inv r2) = mergeHypotheses (iv_Hypotheses (ru_inv r)) (pr_Hypotheses p)"
    using charge_usage_effect [OF u] by (simp add: r1_def)
  show ?thesis
    using assms
    by (auto simp: iter_proposal_def r1_def [symmetric] u Let_def r2 dest!: turns_board split: if_splits option.splits)
qed

section \<open>The reason of the end\<close>

definition term_ok :: "running \<Rightarrow> bool" where
  "term_ok r \<longleftrightarrow>
     (if ru_stopped r then iv_TerminationReason (ru_inv r) \<notin> {TermNone, TermToolCalls}
      else iv_TerminationReason (ru_inv r) = TermNone)"

definition outcome_ok :: "('j, 'o, 'i) wiring \<Rightarrow> ('j, 'o, 'i) engine \<times> running \<Rightarrow> bool" where
  "outcome_ok w s \<longleftrightarrow> run_ok w s \<and> term_ok (snd s) \<and> distinct (map hy_ID (iv_Hypotheses (ru_inv (snd s))))"

lemma stop_check_reason:
  assumes "stop_check k x now v = Some reason" and "counters_ok v"
  shows "reason \<notin> {TermNone, TermToolCalls}"
  using assms by (auto simp: stop_check_def Let_def counters_ok_def DefaultBudget_def split: if_splits)

lemma outcome_ok_turn:
  assumes "outcome_ok w s" and "inv_turn w c tid inc s t"
  shows "outcome_ok w t"
proof -
  from assms(2) obtain r it e e' r' where 1: "s = (e, r)" "t = (e', r')" "\<not> ru_stopped r"
    "inv_iter w c tid inc it e r = (e', r')" by (rule inv_turnE) blast
  have ok: "run_ok w (e, r)" "term_ok r" "distinct (map hy_ID (iv_Hypotheses (ru_inv r)))"
    using assms(1) 1 by (simp_all add: outcome_ok_def)
  have ok': "run_ok w (e', r')" using run_ok_turn [OF ok(1)] assms(2) 1 by blast
  have none: "iv_TerminationReason (ru_inv r) = TermNone" using ok(2) 1(3) by (simp add: term_ok_def)
  from 1(4) have "term_ok r' \<and> distinct (map hy_ID (iv_Hypotheses (ru_inv r')))"
  proof (cases rule: inv_iter_split)
    case (guard reason x)
    with ok show ?thesis using stop_check_reason by (auto simp: term_ok_def run_ok_def)
  next
    case (concluded err)
    with ok show ?thesis by (simp add: term_ok_def)
  next
    case (failed err)
    with ok show ?thesis by (simp add: term_ok_def fail_run_def)
  next
    case (swap f err tm)
    with ok none 1(3) show ?thesis by (simp add: term_ok_def) (simp add: swap_run_def)
  next
    case (proposal p x)
    have ns: "\<not> ru_stopped (forget_pending r)" using 1(3) by simp
    note eff = iter_proposal_effect [OF proposal(3) ns]
    have "term_ok r'"
    proof (cases "pr_Done p")
      case True
      with eff show ?thesis by (simp add: term_ok_def)
    next
      case False
      with eff none show ?thesis by (simp add: term_ok_def counted_def)
    qed
    with iter_proposal_board [OF proposal(3)] ok(3) show ?thesis by (simp add: mergeHypotheses_distinct)
  qed
  with ok' 1 show ?thesis by (simp add: outcome_ok_def)
qed

interpretation outcome: invariant_system "outcome_ok w" "inv_turn w c tid inc" "outcome_ok w" for w c tid inc
  by unfold_locales (auto intro: outcome_ok_turn)

text \<open>The last state of the loop of an investigation that returned.\<close>

lemma Investigate_last:
  assumes "Investigate w c s its en fuel tid inc e = Some (e', Inr v)"
  obtains e1 r1 e2 r2 where "inv_begin w s tid inc e = (e1, Inr r1)"
    and "steps (inv_turn w c tid inc) (e1, r1) (e2, r2)" and "ru_stopped r2" and "outcome_ok w (e2, r2)"
    and "inv_finish w en tid inc e2 r2 = (e', v)"
proof -
  from assms obtain e1 r1 e2 r2 where b: "inv_begin w s tid inc e = (e1, Inr r1)"
    and l: "inv_loop w c tid inc its fuel e1 r1 = Some (e2, r2)"
    and f: "inv_finish w en tid inc e2 r2 = (e', v)"
    by (auto simp: Investigate_def split: prod.splits sum.splits option.splits)
  from inv_loop_steps [OF l] have st: "steps (inv_turn w c tid inc) (e1, r1) (e2, r2)" "ru_stopped r2" by auto
  have "outcome_ok w (e1, r1)" using inv_begin_run [OF b] by (simp add: outcome_ok_def term_ok_def)
  from outcome.steps_inv [OF st(1) this] have "outcome_ok w (e2, r2)" .
  with b st f show ?thesis by (intro that)
qed

section \<open>The conclusion\<close>

lemma same_frame_turn: "inv_turn w c tid inc s t \<Longrightarrow> same_frame (ru_inv (snd s)) (ru_inv (snd t))"
  by (erule inv_turnE) (auto dest: inv_iter_cases)

lemma steps_frame: "steps (inv_turn w c tid inc) s t \<Longrightarrow> same_frame (ru_inv (snd s)) (ru_inv (snd t))"
proof (induction rule: steps.induct)
  case (steps_step s t u)
  from steps_step.IH same_frame_turn [OF steps_step.hyps(2)] show ?case by (simp add: same_frame_def)
qed (simp add: same_frame_def)

lemma pull_scope_frame [simp]:
  "eg_journal (pull_scope w en tid inc pid v e) = eg_journal e" "eg_objects (pull_scope w en tid inc pid v e) = eg_objects e"
  "eg_invs (pull_scope w en tid inc pid v e) = eg_invs e"
  by (simp_all add: pull_scope_def Let_def split: option.splits prod.splits)

lemma inv_finish_store:
  assumes "inv_finish w en tid inc e r = (e', v)"
  shows "e' = unregister (iv_ID v) (storeInv v (pull_scope w en tid inc (ru_scopeID r) v
    (e\<lparr>eg_budget := SetTerminated (iv_ID v) (iv_TerminationReason v) (eg_budget e),
       eg_journal := fst (jo_SetStatus (wi_journal w) (eg_journal e) tid (iv_ID v) (iv_Status v) (iv_EndedAt v))\<rparr>)))"
proof -
  have "snd (inv_finish w en tid inc e r) = v" using assms by simp
  from assms show ?thesis unfolding inv_finish_def Let_def by (elim Pair_inject) (simp only:)
qed

lemma inv_finish_result:
  assumes "inv_finish w en tid inc e r = (e', v)"
  obtains v1 co where "same_frame (ru_inv r) v1" and "iv_Spend v1 = iv_Spend (ru_inv r)" and "iv_Steps v1 = iv_Steps (ru_inv r)"
    and "iv_TerminationReason v1 = iv_TerminationReason (ru_inv r)" and "iv_ReasonerSwaps v1 = iv_ReasonerSwaps (ru_inv r)"
    and "iv_Hypotheses v1 = iv_Hypotheses (ru_inv r)" and "v = conclude_run w tid inc r v1"
proof -
  let ?v0 = "(ru_inv r)\<lparr>iv_EndedAt := ee_EndedAt en\<rparr>"
  let ?v1 = "if iv_TerminationReason ?v0 = TermAborted \<and> eg_abortReasons e (iv_ID ?v0) \<noteq> []
             then ?v0\<lparr>iv_Error := Some (ROther (eg_abortReasons e (iv_ID ?v0)))\<rparr> else ?v0"
  have "v = conclude_run w tid inc r ?v1" using assms by (simp add: inv_finish_def Let_def)
  then show ?thesis by (intro that [of ?v1]) (simp_all add: same_frame_def)
qed

lemma conclude_run_fields [simp]:
  "iv_ID (conclude_run w tid inc r v) = iv_ID v" "iv_Tenant (conclude_run w tid inc r v) = iv_Tenant v"
  "iv_Spend (conclude_run w tid inc r v) = iv_Spend v" "iv_Steps (conclude_run w tid inc r v) = iv_Steps v"
  "iv_TerminationReason (conclude_run w tid inc r v) = iv_TerminationReason v"
  "iv_ReasonerSwaps (conclude_run w tid inc r v) = iv_ReasonerSwaps v"
  "iv_Status (conclude_run w tid inc r v) = terminalStatus (iv_TerminationReason v) (iv_Confidence (conclude_run w tid inc r v))"
  by (simp_all add: conclude_run_def Let_def)

lemma terminalStatus_Concluded:
  "terminalStatus t x = InvestigationConcluded \<longleftrightarrow> t = TermConcluded \<and> x \<ge> confidenceThreshold"
  by (cases t) (simp_all add: terminalStatus_def)

lemma terminalStatus_not_running: "terminalStatus t x \<noteq> InvestigationRunning"
  by (cases t) (simp_all add: terminalStatus_def)

text \<open>The cap of a swapped investigation lies below the threshold: \<open>191/256\<close> is a float64 between them.\<close>

lemma is_float_dyadic: "\<bar>n\<bar> \<le> 2 ^ 53 \<Longrightarrow> is_float (of_int n / 256)"
proof -
  assume "\<bar>n\<bar> \<le> 2 ^ 53"
  moreover have "(of_int n :: rat) / 256 = of_int n * 2 powi (- 8)" by (simp add: power_int_minus)
  ultimately show ?thesis unfolding is_float_def by blast
qed

lemma swappedCap_bounds: "1 / 2 \<le> swappedCap" "swappedCap < confidenceThreshold"
proof -
  have "is_float (128 / 256)" using is_float_dyadic [of 128] by simp
  then show "1 / 2 \<le> swappedCap" unfolding swappedCap_def by (intro fl.ge) simp_all
  have "is_float (191 / 256)" using is_float_dyadic [of 191] by simp
  then have "swappedCap \<le> 191 / 256" unfolding swappedCap_def by (intro fl.le) simp_all
  then show "swappedCap < confidenceThreshold" by (simp add: confidenceThreshold_def)
qed

lemma cap_confidence_swapped: "cap_confidence swappedCap x \<le> swappedCap"
  using swappedCap_bounds(1) by (simp add: cap_confidence_def)

lemma conclude_run_confidence:
  "iv_Confidence (conclude_run w tid inc r v) =
     cap_confidence (ru_cap r) (co_Confidence (rz_Conclude (active w r) tid
       \<lparr>sa_Investigation = v, sa_Incident = inc, sa_LastArgs = None, sa_LastResult = None, sa_LastHypothesisID = []\<rparr>))"
  by (simp add: conclude_run_def Let_def)

lemma swapped_capped:
  assumes "Investigate w c s its en fuel tid inc e = Some (e', Inr v)" and "iv_ReasonerSwaps v \<noteq> []"
  shows "iv_Confidence v \<le> swappedCap" and "iv_Status v \<noteq> InvestigationConcluded"
proof -
  from assms(1) obtain e1 r1 e2 r2 where ok: "outcome_ok w (e2, r2)" "ru_stopped r2"
    and fin: "inv_finish w en tid inc e2 r2 = (e', v)" by (rule Investigate_last)
  from fin obtain v1 where v1: "iv_ReasonerSwaps v1 = iv_ReasonerSwaps (ru_inv r2)" "v = conclude_run w tid inc r2 v1"
    by (rule inv_finish_result)
  have "iv_ReasonerSwaps (ru_inv r2) \<noteq> []" using assms(2) v1 by simp
  with ok(1) have "ru_cap r2 = swappedCap" by (simp add: outcome_ok_def run_ok_def swap_ok_def split: if_splits)
  then show conf: "iv_Confidence v \<le> swappedCap" by (simp add: v1(2) conclude_run_confidence cap_confidence_swapped)
  then show "iv_Status v \<noteq> InvestigationConcluded"
    using swappedCap_bounds(2) by (simp add: v1(2) terminalStatus_Concluded)
qed

definition sound_wiring :: "('j, 'o, 'i) wiring \<Rightarrow> bool" where
  "sound_wiring w \<longleftrightarrow>
     reasoner_contract (wi_reasoner w) \<and> (case wi_fallback w of None \<Rightarrow> True | Some f \<Rightarrow> reasoner_contract f)"

lemma active_contract: "sound_wiring w \<Longrightarrow> reasoner_contract (active w r)"
  by (auto simp: sound_wiring_def active_def split: option.splits)

end
