(* ===== verification/RcaRules.thy ===== *)
theory RcaRules
  imports RcaReasoner
begin

text \<open>
  internal/rca/rules/rules.go: the deterministic reasoner, a catalog of four rules tried in a fixed
  order.  Decoding JSON rows is an argument (\<open>row_decoders\<close>, \<open>None\<close> for text that does not decode).
  Float arithmetic is rounded after every operation; Go may fuse \<open>x * y + z\<close> on some processors, which
  would round once less in the confidence of the N+1 rule.
\<close>

section \<open>Rows\<close>

record deploy_row =
  dr_ErrorSigID :: string
  dr_Service :: string
  dr_FirstSeen :: gotime
  dr_DeployAt :: gotime

record timing_row =
  tm_Service :: string
  tm_Operation :: string
  tm_ChildService :: string
  tm_SelfMillis :: rat
  tm_ChildMillis :: rat
  tm_TotalMillis :: rat

record sibling_row =
  sb_ParentSpanID :: string
  sb_Service :: string
  sb_Operation :: string
  sb_StatementTemplate :: string
  sb_Count :: int

record pool_row =
  po_Service :: string
  po_PoolWaitTrendUp :: bool
  po_ExhaustionLogMatches :: int

record row_decoders =
  rd_Deploy :: "string \<Rightarrow> deploy_row list option"
  rd_Timing :: "string \<Rightarrow> timing_row list option"
  rd_Sibling :: "string \<Rightarrow> sibling_row list option"
  rd_Pool :: "string \<Rightarrow> pool_row list option"

definition decodeRows :: "(string \<Rightarrow> 'a list option) \<Rightarrow> string \<Rightarrow> 'a list option" where
  "decodeRows dec raw = (if raw = [] then None else dec raw)"

section \<open>The catalog\<close>

datatype rule =
  ErrorSigAfterDeploy | DownstreamLatencyPropagation | NPlusOneSpanPattern int | ConnectionPoolExhaustion

fun rule_ID :: "rule \<Rightarrow> string" where
  "rule_ID ErrorSigAfterDeploy = ''error-signature-new-after-deploy''"
| "rule_ID DownstreamLatencyPropagation = ''downstream-latency-propagation''"
| "rule_ID (NPlusOneSpanPattern n) = ''n-plus-one-span-pattern''"
| "rule_ID ConnectionPoolExhaustion = ''connection-pool-exhaustion''"

fun rule_Category :: "rule \<Rightarrow> hypothesis_category" where
  "rule_Category ErrorSigAfterDeploy = CatDeployRegression"
| "rule_Category DownstreamLatencyPropagation = CatDependencyFailure"
| "rule_Category (NPlusOneSpanPattern n) = CatDataSkew"
| "rule_Category ConnectionPoolExhaustion = CatResourceExhaustion"

fun rule_Statement :: "rule \<Rightarrow> string" where
  "rule_Statement ErrorSigAfterDeploy =
     ''a new error signature's first occurrence follows a deploy on the epicenter service''"
| "rule_Statement DownstreamLatencyPropagation =
     ''elevated duration is explained by a downstream child span, not local self-time''"
| "rule_Statement (NPlusOneSpanPattern n) =
     ''many sibling spans share an identical (service, operation, statement template) under one parent''"
| "rule_Statement ConnectionPoolExhaustion =
     ''pool-wait time is rising concurrently with pool-exhaustion log signatures''"

declare rule_ID.simps [simp del] rule_Statement.simps [simp del]

definition metric_call :: "string \<Rightarrow> incident \<Rightarrow> tool_args" where
  "metric_call template inc =
     \<lparr>ta_TenantID = [], ta_Tool = ToolMetricQuery, ta_Trace = None, ta_Log = None,
      ta_Metric = Some \<lparr>mq_TemplateID = template, mq_Params = [(''service'', in_EpicenterService inc)],
        mq_RED = None, mq_Start = 0, mq_End = 0, mq_StepSeconds = 0\<rparr>,
      ta_Topology = None, ta_Memory = None\<rparr>"

definition trace_call :: "incident \<Rightarrow> tool_args" where
  "trace_call inc =
     \<lparr>ta_TenantID = [], ta_Tool = ToolTraceQuery,
      ta_Trace = Some \<lparr>tq_Service = in_EpicenterService inc, tq_Operation = [], tq_MinDurationMillis = 0,
        tq_Status = ''any'', tq_AttrEquals = [], tq_ErrorSigID = [], tq_PathSignature = 0,
        tq_Start = 0, tq_End = 0, tq_Limit = 50, tq_Project = []\<rparr>,
      ta_Log = None, ta_Metric = None, ta_Topology = None, ta_Memory = None\<rparr>"

fun BuildCall :: "rule \<Rightarrow> incident \<Rightarrow> tool_args" where
  "BuildCall ErrorSigAfterDeploy inc = metric_call ''error_signature_deploy_correlation'' inc"
| "BuildCall DownstreamLatencyPropagation inc = trace_call inc"
| "BuildCall (NPlusOneSpanPattern n) inc = trace_call inc"
| "BuildCall ConnectionPoolExhaustion inc = metric_call ''pool_wait_and_exhaustion_logs'' inc"

section \<open>Confirm\<close>

text \<open>A verdict is whether the rule is confirmed, its confidence, and what was found.\<close>

type_synonym rule_verdict = "bool \<times> rat \<times> string"

definition deploy_fits :: "deploy_row \<Rightarrow> bool" where
  "deploy_fits r = (dr_FirstSeen r > dr_DeployAt r \<and> time_sub (dr_FirstSeen r) (dr_DeployAt r) \<le> 30 * minute)"

definition confirm_deploy :: "deploy_row list option \<Rightarrow> rule_verdict" where
  "confirm_deploy rows =
     (case rows of
        None \<Rightarrow> (False, 0, ''no deploy-correlation data returned'')
      | Some rs \<Rightarrow>
         (case find deploy_fits rs of
            Some r \<Rightarrow>
              (True, rnd64 (85 / 100),
               ''error signature '' @ dr_ErrorSigID r @ '' first seen ''
               @ show_duration (time_sub (dr_FirstSeen r) (dr_DeployAt r)) @ '' after deploy on '' @ dr_Service r)
          | None \<Rightarrow> (False, 0, ''no error signature first-seen within the post-deploy window'')))"

definition child_ratio :: "timing_row \<Rightarrow> rat" where
  "child_ratio r = rnd64 (tm_ChildMillis r / tm_TotalMillis r)"

definition latency_fits :: "timing_row \<Rightarrow> bool" where
  "latency_fits r = (\<not> tm_TotalMillis r \<le> 0 \<and> child_ratio r \<ge> rnd64 (8 / 10))"

definition confirm_latency :: "timing_row list option \<Rightarrow> rule_verdict" where
  "confirm_latency rows =
     (case rows of
        None \<Rightarrow> (False, 0, ''no span timing data returned'')
      | Some rs \<Rightarrow>
         (case find latency_fits rs of
            Some r \<Rightarrow>
              (True, rnd64 (8 / 10),
               tm_Service r @ ''.'' @ tm_Operation r @ '': downstream '' @ tm_ChildService r @ '' accounts for ''
               @ fmt_fixed 0 (rnd64 (child_ratio r * 100)) @ ''% of total duration'')
          | None \<Rightarrow> (False, 0, ''no span had a downstream child accounting for >=80% of total duration'')))"

definition nplus_threshold :: "int \<Rightarrow> int" where
  "nplus_threshold n = (if n \<le> 0 then 10 else n)"

definition nplus_confidence :: "int \<Rightarrow> int \<Rightarrow> rat" where
  "nplus_confidence threshold count =
     (let conf = rnd64 (rnd64 (7 / 10) + rnd64 (rnd64 (2 / 100) * rnd64 (of_int (count - threshold))))
      in if conf > rnd64 (95 / 100) then rnd64 (95 / 100) else conf)"

definition confirm_nplus :: "int \<Rightarrow> sibling_row list option \<Rightarrow> rule_verdict" where
  "confirm_nplus n rows =
     (case rows of
        None \<Rightarrow> (False, 0, ''no sibling-span grouping data returned'')
      | Some rs \<Rightarrow>
         (case find (\<lambda>g. sb_Count g \<ge> nplus_threshold n) rs of
            Some g \<Rightarrow>
              (True, nplus_confidence (nplus_threshold n) (sb_Count g),
               show_int (sb_Count g) @ '' sibling spans of '' @ sb_Service g @ ''.'' @ sb_Operation g @ '' (''
               @ sb_StatementTemplate g @ '') under parent '' @ sb_ParentSpanID g)
          | None \<Rightarrow> (False, 0, ''no sibling-span group reached the N+1 threshold'')))"

definition confirm_pool :: "pool_row list option \<Rightarrow> rule_verdict" where
  "confirm_pool rows =
     (case rows of
        None \<Rightarrow> (False, 0, ''no pool metric data returned'')
      | Some rs \<Rightarrow>
         (case find (\<lambda>r. po_PoolWaitTrendUp r \<and> po_ExhaustionLogMatches r > 0) rs of
            Some r \<Rightarrow>
              (True, rnd64 (8 / 10),
               po_Service r @ '': pool wait trending up with '' @ show_int (po_ExhaustionLogMatches r)
               @ '' exhaustion log matches'')
          | None \<Rightarrow> (False, 0, ''no concurrent pool-wait rise and exhaustion log signature'')))"

fun Confirm :: "row_decoders \<Rightarrow> rule \<Rightarrow> tool_result \<Rightarrow> rule_verdict" where
  "Confirm d ErrorSigAfterDeploy r = confirm_deploy (decodeRows (rd_Deploy d) (tlr_Rows r))"
| "Confirm d DownstreamLatencyPropagation r = confirm_latency (decodeRows (rd_Timing d) (tlr_Rows r))"
| "Confirm d (NPlusOneSpanPattern n) r = confirm_nplus n (decodeRows (rd_Sibling d) (tlr_Rows r))"
| "Confirm d ConnectionPoolExhaustion r = confirm_pool (decodeRows (rd_Pool d) (tlr_Rows r))"

definition catalog :: "rule list" where
  "catalog = [ErrorSigAfterDeploy, DownstreamLatencyPropagation, NPlusOneSpanPattern 10, ConnectionPoolExhaustion]"

definition ruleByID :: "string \<Rightarrow> rule option" where
  "ruleByID i = find (\<lambda>r. rule_ID r = i) catalog"

definition triedRuleIDs :: "investigation \<Rightarrow> string list" where
  "triedRuleIDs v = map hy_ID (iv_Hypotheses v)"

definition confidenceThresholdFor :: "rca_state \<Rightarrow> rat" where
  "confidenceThresholdFor s = 3 / 4"

section \<open>The reasoner\<close>

definition verdict_hypothesis :: "row_decoders \<Rightarrow> rca_state \<Rightarrow> rule \<Rightarrow> tool_result \<Rightarrow> hypothesis" where
  "verdict_hypothesis d s rule result =
     (case Confirm d rule result of (confirmed, conf, finding) \<Rightarrow>
        \<lparr>hy_ID = rule_ID rule, hy_Statement = finding, hy_Category = rule_Category rule,
         hy_Component = in_EpicenterService (sa_Incident s), hy_PriorScore = 0, hy_PostScore = conf,
         hy_Status = (if confirmed then HypothesisSupported else HypothesisRefuted), hy_Source = HypSourceRule\<rparr>)"

definition fold_in :: "row_decoders \<Rightarrow> rca_state \<Rightarrow> rule \<Rightarrow> tool_result \<Rightarrow> proposal" where
  "fold_in d s rule result =
     (case Confirm d rule result of (confirmed, conf, finding) \<Rightarrow>
        \<lparr>pr_Phase = PhaseValidate, pr_Hypotheses = [verdict_hypothesis d s rule result], pr_Call = None,
         pr_Done = (confirmed \<and> conf \<ge> confidenceThresholdFor s), pr_Rationale = finding, pr_Usage = no_charge\<rparr>)"

definition testing_hypothesis :: "rca_state \<Rightarrow> rule \<Rightarrow> hypothesis" where
  "testing_hypothesis s rule =
     \<lparr>hy_ID = rule_ID rule, hy_Statement = rule_Statement rule, hy_Category = rule_Category rule,
      hy_Component = in_EpicenterService (sa_Incident s), hy_PriorScore = 0, hy_PostScore = 0,
      hy_Status = HypothesisTesting, hy_Source = HypSourceRule\<rparr>"

definition try_rule :: "rca_state \<Rightarrow> rule \<Rightarrow> proposal" where
  "try_rule s rule =
     \<lparr>pr_Phase = PhaseTest, pr_Hypotheses = [testing_hypothesis s rule],
      pr_Call = Some (BuildCall rule (sa_Incident s)), pr_Done = False,
      pr_Rationale = ''testing '' @ rule_ID rule, pr_Usage = no_charge\<rparr>"

definition next_rule :: "rca_state \<Rightarrow> rca_err + proposal" where
  "next_rule s =
     (case find (\<lambda>r. rule_ID r \<notin> set (triedRuleIDs (sa_Investigation s))) catalog of
        Some rule \<Rightarrow> Inr (try_rule s rule)
      | None \<Rightarrow> Inl (RPlain ErrNoMoreRules))"

definition Rules_NextStep :: "row_decoders \<Rightarrow> nat \<Rightarrow> tenant_id \<Rightarrow> rca_state \<Rightarrow> rca_err + proposal" where
  "Rules_NextStep d n tid s =
     (case sa_LastResult s of
        None \<Rightarrow> next_rule s
      | Some result \<Rightarrow>
          if sa_LastHypothesisID s = [] then next_rule s
          else case ruleByID (sa_LastHypothesisID s) of
            Some rule \<Rightarrow> Inr (fold_in d s rule result)
          | None \<Rightarrow> next_rule s)"

definition Rules_Conclude :: "tenant_id \<Rightarrow> rca_state \<Rightarrow> conclusion" where
  "Rules_Conclude tid s =
     conclude_with ''no rule confirmed a hypothesis within budget''
       (\<lambda>best. ''rule '' @ hy_ID best @ '' confirmed at confidence '' @ fmt_fixed 2 (hy_PostScore best))
       (iv_Hypotheses (sa_Investigation s))"

definition RulesReasoner :: "row_decoders \<Rightarrow> reasoner" where
  "RulesReasoner d =
     \<lparr>rz_Kind = ReasonerRules, rz_NextStep = Rules_NextStep d, rz_Conclude = Rules_Conclude\<rparr>"

interpretation rules: reasoner_contract "RulesReasoner d" for d
  by unfold_locales (simp_all add: RulesReasoner_def Rules_Conclude_def conclude_with_grounded)

section \<open>Facts about the catalog\<close>

lemma distinct_rule_IDs: "distinct (map rule_ID catalog)"
  by (simp add: catalog_def rule_ID.simps)

lemma rule_ID_inj: "r \<in> set catalog \<Longrightarrow> q \<in> set catalog \<Longrightarrow> rule_ID r = rule_ID q \<Longrightarrow> r = q"
  using distinct_rule_IDs by (auto simp: distinct_map inj_on_def)

lemma rule_ID_nonempty [simp]: "rule_ID r \<noteq> []"
  by (cases r) (simp_all add: rule_ID.simps)

lemma ruleByID_catalog: "r \<in> set catalog \<Longrightarrow> ruleByID (rule_ID r) = Some r"
proof -
  have all: "list_all (\<lambda>r. ruleByID (rule_ID r) = Some r) catalog"
    by (simp add: ruleByID_def catalog_def rule_ID.simps)
  show "r \<in> set catalog \<Longrightarrow> ruleByID (rule_ID r) = Some r" using all by (simp add: list_all_iff)
qed

lemma ruleByID_Some: "ruleByID i = Some r \<Longrightarrow> r \<in> set catalog \<and> rule_ID r = i"
  by (auto simp: ruleByID_def find_Some_iff)

text \<open>Every call of a rule has the shape the engine accepts.\<close>

lemma Rules_error: "Rules_NextStep d n tid s = Inl e \<Longrightarrow> e = RPlain ErrNoMoreRules"
  by (auto simp: Rules_NextStep_def next_rule_def split: option.splits if_splits)

lemma Rules_usage: "Rules_NextStep d n tid s = Inr p \<Longrightarrow> pr_Usage p = no_charge"
  by (auto simp: Rules_NextStep_def next_rule_def fold_in_def try_rule_def split: option.splits if_splits prod.splits)

end
