(* ===== verification/RcaSchema.thy ===== *)
theory RcaSchema
  imports RcaTools RcaSanitizer
begin

text \<open>
  internal/rca/schema.go: the strict validation of what the model answers, and the check that no tool
  argument looks like a URL or a host.

  The strict JSON decoder is an argument: it returns an error, or the decoded structure and whether
  data follows it (\<open>dec.More\<close>).  The regular expression \<open>urlOrHostPattern\<close> is unfolded into
  its two alternatives; it is exact for ASCII text.  \<open>bytes.TrimSpace\<close> is used on ASCII space only
  (text made of other space is refused by the decoder).
\<close>

section \<open>The wire format\<close>

record hypothesis_wire =
  hw_ID :: string
  hw_Statement :: string
  hw_Category :: string
  hw_Component :: string
  hw_PostScore :: rat
  hw_Status :: string

record tool_call_wire =
  tw_Tool :: string
  tw_Trace :: "trace_query_args option"
  tw_Log :: "log_query_args option"
  tw_Metric :: "metric_query_args option"
  tw_Topology :: "topology_query_args option"
  tw_Memory :: "memory_query_args option"

record proposal_wire =
  pw_Phase :: string
  pw_Done :: bool
  pw_Rationale :: string
  pw_Hypotheses :: "hypothesis_wire list"
  pw_ToolCall :: "tool_call_wire option"

type_synonym wire_decoder = "string \<Rightarrow> string + proposal_wire \<times> bool"

definition maxHypothesisIDBytes :: nat where "maxHypothesisIDBytes = 128"
definition maxHypothesisStatementBytes :: nat where "maxHypothesisStatementBytes = 500"
definition maxHypothesisComponentBytes :: nat where "maxHypothesisComponentBytes = 200"

definition validPhases :: "(string \<times> phase) list" where
  "validPhases =
     [(''contextualize'', PhaseContextualize), (''hypothesize'', PhaseHypothesize), (''test'', PhaseTest),
      (''validate'', PhaseValidate), (''report'', PhaseReport)]"

definition validCategories :: "(string \<times> hypothesis_category) list" where
  "validCategories =
     [(''saturation'', CatSaturation), (''dependency_failure'', CatDependencyFailure),
      (''deploy_regression'', CatDeployRegression), (''config_change'', CatConfigChange),
      (''resource_exhaustion'', CatResourceExhaustion), (''network'', CatNetwork),
      (''data_skew'', CatDataSkew), (''external_provider'', CatExternalProvider)]"

definition validStatuses :: "(string \<times> hypothesis_status) list" where
  "validStatuses =
     [(''proposed'', HypothesisProposed), (''testing'', HypothesisTesting),
      (''supported'', HypothesisSupported), (''refuted'', HypothesisRefuted),
      (''inconclusive'', HypothesisInconclusive)]"

definition validTools :: "(string \<times> tool_name) list" where
  "validTools = map (\<lambda>n. (n, n)) Registry_Names"

section \<open>ValidateReasonerOutput\<close>

definition ascii_space :: "char \<Rightarrow> bool" where
  "ascii_space c = (c \<in> set [CHR '' '', CHR 0x09, CHR 0x0A, CHR 0x0B, CHR 0x0C, CHR 0x0D])"

definition check_hypothesis :: "hypothesis_wire \<Rightarrow> rca_err + hypothesis" where
  "check_hypothesis h =
     (case map_of validCategories (hw_Category h) of
        None \<Rightarrow> Inl (ROther (''rca: hypothesis '' @ go_quote (hw_ID h) @ '' has unknown category '' @ go_quote (hw_Category h)))
      | Some cat \<Rightarrow>
     (case map_of validStatuses (hw_Status h) of
        None \<Rightarrow> Inl (ROther (''rca: hypothesis '' @ go_quote (hw_ID h) @ '' has unknown status '' @ go_quote (hw_Status h)))
      | Some status \<Rightarrow>
        if hw_ID h = [] then Inl (ROther ''rca: hypothesis missing id'')
        else if length (hw_ID h) > maxHypothesisIDBytes then
          Inl (ROther (''rca: hypothesis id exceeds '' @ show_nat maxHypothesisIDBytes @ '' bytes''))
        else if length (hw_Statement h) > maxHypothesisStatementBytes then
          Inl (ROther (''rca: hypothesis '' @ go_quote (hw_ID h) @ '' statement exceeds ''
                 @ show_nat maxHypothesisStatementBytes @ '' bytes''))
        else if length (hw_Component h) > maxHypothesisComponentBytes then
          Inl (ROther (''rca: hypothesis '' @ go_quote (hw_ID h) @ '' component exceeds ''
                 @ show_nat maxHypothesisComponentBytes @ '' bytes''))
        else if hw_PostScore h < 0 \<or> hw_PostScore h > 1 then Inl (RScore (hw_ID h) (hw_PostScore h))
        else Inr \<lparr>hy_ID = hw_ID h, hy_Statement = hw_Statement h, hy_Category = cat,
                  hy_Component = hw_Component h, hy_PriorScore = 0, hy_PostScore = hw_PostScore h,
                  hy_Status = status, hy_Source = HypSourceLLM\<rparr>))"

fun check_hypotheses :: "hypothesis_wire list \<Rightarrow> rca_err + hypothesis list" where
  "check_hypotheses [] = Inr []"
| "check_hypotheses (h # hs) =
     (case check_hypothesis h of
        Inl e \<Rightarrow> Inl e
      | Inr y \<Rightarrow> (case check_hypotheses hs of Inl e \<Rightarrow> Inl e | Inr ys \<Rightarrow> Inr (y # ys)))"

definition wire_args :: "tool_name \<Rightarrow> tool_call_wire \<Rightarrow> tool_args" where
  "wire_args tool w =
     \<lparr>ta_TenantID = [], ta_Tool = tool, ta_Trace = tw_Trace w, ta_Log = tw_Log w,
      ta_Metric = tw_Metric w, ta_Topology = tw_Topology w, ta_Memory = tw_Memory w\<rparr>"

definition decodeToolCallWire :: "tool_call_wire \<Rightarrow> rca_err + tool_args" where
  "decodeToolCallWire w =
     (case map_of validTools (tw_Tool w) of
        None \<Rightarrow> Inl (ROther (''rca: reasoner proposed unknown tool '' @ go_quote (tw_Tool w)))
      | Some tool \<Rightarrow>
          (let a = wire_args tool w in
           if payloads a \<noteq> 1 then
             Inl (ROther (''rca: reasoner tool_call must set exactly one payload, got '' @ show_nat (payloads a)))
           else case validateToolArgs a of Some t \<Rightarrow> Inl (ROther (''rca: reasoner tool_call: '' @ t)) | None \<Rightarrow> Inr a))"

definition ValidateReasonerOutput :: "wire_decoder \<Rightarrow> string \<Rightarrow> rca_err + proposal" where
  "ValidateReasonerOutput dec raw =
     (if dropWhile ascii_space raw = [] then Inl (ROther ''rca: empty reasoner output'')
      else case dec raw of
        Inl e \<Rightarrow> Inl (ROther (''rca: reasoner output failed strict decode: '' @ e))
      | Inr (wire, trailing) \<Rightarrow>
        if trailing then Inl (ROther ''rca: reasoner output has trailing data after the JSON value'')
        else
       (case map_of validPhases (pw_Phase wire) of
          None \<Rightarrow> Inl (ROther (''rca: reasoner output has unknown phase '' @ go_quote (pw_Phase wire)))
        | Some phase \<Rightarrow>
          if length (pw_Rationale wire) > 2000 then Inl (ROther ''rca: reasoner rationale exceeds 2000 bytes'')
          else
         (case check_hypotheses (pw_Hypotheses wire) of
            Inl e \<Rightarrow> Inl e
          | Inr hyps \<Rightarrow>
              (let prop = \<lparr>pr_Phase = phase, pr_Hypotheses = hyps, pr_Call = None, pr_Done = pw_Done wire,
                           pr_Rationale = pw_Rationale wire, pr_Usage = no_charge\<rparr>
               in case pw_ToolCall wire of
                    None \<Rightarrow> Inr prop
                  | Some w \<Rightarrow>
                      (case decodeToolCallWire w of
                         Inl e \<Rightarrow> Inl e
                       | Inr call \<Rightarrow> Inr (prop\<lparr>pr_Call := Some call\<rparr>))))))"

section \<open>URLs and hosts\<close>

definition letter :: "char \<Rightarrow> bool" where
  "letter c = (let n = of_char c :: nat in (65 \<le> n \<and> n \<le> 90) \<or> (97 \<le> n \<and> n \<le> 122))"

definition digit :: "char \<Rightarrow> bool" where
  "digit c = (let n = of_char c :: nat in 48 \<le> n \<and> n \<le> 57)"

definition scheme_char :: "char \<Rightarrow> bool" where
  "scheme_char c = (letter c \<or> digit c \<or> c \<in> set ''+.-'')"

text \<open>\<open>[a-z][a-z0-9+.-]*://\<close> at the front.\<close>

definition scheme_at :: "string \<Rightarrow> bool" where
  "scheme_at s = (case s of [] \<Rightarrow> False | c # cs \<Rightarrow> letter c \<and> prefix ''://'' (dropWhile scheme_char cs))"

text \<open>\<open>[0-9]{1,k}\<close> followed by no digit at the front: the rest of the text.\<close>

definition digits_at :: "nat \<Rightarrow> string \<Rightarrow> string option" where
  "digits_at k s =
     (let n = length (takeWhile digit s)
      in if 1 \<le> n \<and> n \<le> k then Some (dropWhile digit s) else None)"

fun strip_char :: "char \<Rightarrow> string option \<Rightarrow> string option" where
  "strip_char c (Some (x # xs)) = (if x = c then Some xs else None)"
| "strip_char c s = None"

definition octets_at :: "string \<Rightarrow> string option" where
  "octets_at s0 =
     (case strip_char (CHR ''.'') (digits_at 3 s0) of None \<Rightarrow> None | Some s1 \<Rightarrow>
     (case strip_char (CHR ''.'') (digits_at 3 s1) of None \<Rightarrow> None | Some s2 \<Rightarrow>
     (case strip_char (CHR ''.'') (digits_at 3 s2) of None \<Rightarrow> None | Some s3 \<Rightarrow> digits_at 3 s3)))"

definition host_boundary :: "char \<Rightarrow> bool" where
  "host_boundary c = (c \<in> set [CHR '' '', CHR 0x09, CHR 0x0A, CHR 0x0C, CHR 0x0D, CHR 0x22, CHR 0x27])"

definition at_boundary :: "string \<Rightarrow> bool" where
  "at_boundary s = (case s of [] \<Rightarrow> True | c # cs \<Rightarrow> host_boundary c)"

text \<open>A dotted quad with an optional port, up to a boundary.\<close>

definition host_at :: "string \<Rightarrow> bool" where
  "host_at s =
     (case octets_at s of
        None \<Rightarrow> False
      | Some r \<Rightarrow>
          at_boundary r
          \<or> (case strip_char (CHR '':'') (Some r) of
               None \<Rightarrow> False
             | Some p \<Rightarrow> (case digits_at 5 p of None \<Rightarrow> False | Some q \<Rightarrow> at_boundary q)))"

text \<open>A match starts at some position; a host only at the start of the text or after a boundary.\<close>

fun url_from :: "string \<Rightarrow> bool" where
  "url_from [] = False"
| "url_from (c # cs) = (scheme_at (c # cs) \<or> (host_boundary c \<and> host_at cs) \<or> url_from cs)"

definition urlOrHost :: "string \<Rightarrow> bool" where
  "urlOrHost s = (host_at s \<or> url_from s)"

definition truncateForError :: "string \<Rightarrow> string" where
  "truncateForError s = (if length s \<le> 64 then s else take 64 s @ ''...'')"

definition toolArgsStrings :: "tool_args \<Rightarrow> string list" where
  "toolArgsStrings a =
     (case ta_Trace a of
        Some q \<Rightarrow> [tq_Service q, tq_Operation q, tq_ErrorSigID q]
                    @ concat (map (\<lambda>(k, v). [k, v]) (tq_AttrEquals q)) @ tq_Project q
      | None \<Rightarrow>
     (case ta_Log a of
        Some q \<Rightarrow> [lq_Service q, lq_Contains q]
      | None \<Rightarrow>
     (case ta_Metric a of
        Some q \<Rightarrow> mq_TemplateID q # concat (map (\<lambda>(k, v). [k, v]) (mq_Params q))
                    @ (case mq_RED q of None \<Rightarrow> [] | Some (svc, op) \<Rightarrow> [svc, op])
      | None \<Rightarrow>
     (case ta_Topology a of
        Some q \<Rightarrow> [oq_Service q]
      | None \<Rightarrow>
     (case ta_Memory a of
        Some q \<Rightarrow> [yq_Fingerprint q, yq_Text q]
      | None \<Rightarrow> [])))))"

definition checkNoRawURLArgs :: "tool_args \<Rightarrow> rca_err option" where
  "checkNoRawURLArgs a =
     (case find urlOrHost (toolArgsStrings a) of
        None \<Rightarrow> None
      | Some s \<Rightarrow> Some (ROther (''rca: tool argument '' @ go_quote (truncateForError s)
                                 @ '' looks like a URL or host (SSRF defense, DR-20/DR-37)'')))"

section \<open>ValidateToolArgs\<close>

type_synonym topology_reader = "tenant_id \<Rightarrow> string \<Rightarrow> bool"

definition call_service :: "tool_args \<Rightarrow> string" where
  "call_service a =
     (case ta_Trace a of Some q \<Rightarrow> tq_Service q | None \<Rightarrow>
     (case ta_Log a of Some q \<Rightarrow> lq_Service q | None \<Rightarrow>
     (case ta_Topology a of Some q \<Rightarrow> oq_Service q | None \<Rightarrow> [])))"

definition ValidateToolArgs :: "tool_args \<Rightarrow> incident \<Rightarrow> topology_reader option \<Rightarrow> rca_err option" where
  "ValidateToolArgs a inc topo =
     (case validateToolArgs a of
        Some t \<Rightarrow> Some (ROther t)
      | None \<Rightarrow>
     (case checkNoRawURLArgs a of
        Some e \<Rightarrow> Some e
      | None \<Rightarrow>
     (case topo of
        None \<Rightarrow> None
      | Some has \<Rightarrow>
          if call_service a \<noteq> [] \<and> \<not> has (in_Tenant inc) (call_service a) then
            Some (ROther (''rca: tool argument service '' @ go_quote (call_service a)
                            @ '' does not resolve in topology''))
          else None)))"

definition looksLikeJSON :: "string \<Rightarrow> bool" where
  "looksLikeJSON b = (case dropWhile ascii_space b of [] \<Rightarrow> False | c # cs \<Rightarrow> c = CHR ''{'' \<or> c = CHR ''['')"

section \<open>What a validated answer is\<close>

text \<open>The closed world a proposal of the model lives in.\<close>

definition sound_hypothesis :: "hypothesis \<Rightarrow> bool" where
  "sound_hypothesis h =
     (hy_ID h \<noteq> [] \<and> length (hy_ID h) \<le> 128 \<and> length (hy_Statement h) \<le> 500 \<and> length (hy_Component h) \<le> 200
      \<and> 0 \<le> hy_PostScore h \<and> hy_PostScore h \<le> 1 \<and> hy_Category h \<noteq> CatUnknown \<and> hy_Source h = HypSourceLLM
      \<and> hy_Status h \<in> {HypothesisProposed, HypothesisTesting, HypothesisSupported, HypothesisRefuted, HypothesisInconclusive})"

definition sound_call :: "incident \<Rightarrow> topology_reader option \<Rightarrow> tool_args \<Rightarrow> bool" where
  "sound_call inc topo a =
     (closed_shape a \<and> list_all (\<lambda>s. \<not> urlOrHost s) (toolArgsStrings a)
      \<and> (case topo of None \<Rightarrow> True | Some has \<Rightarrow> call_service a = [] \<or> has (in_Tenant inc) (call_service a)))"

lemma validCategories_known: "map_of validCategories c = Some cat \<Longrightarrow> cat \<noteq> CatUnknown"
  by (drule map_of_SomeD) (auto simp: validCategories_def)

lemma validStatuses_known:
  "map_of validStatuses c = Some st \<Longrightarrow>
     st \<in> {HypothesisProposed, HypothesisTesting, HypothesisSupported, HypothesisRefuted, HypothesisInconclusive}"
  by (drule map_of_SomeD) (auto simp: validStatuses_def)

lemma check_hypothesis_sound:
  assumes "check_hypothesis w = Inr h"
  shows "sound_hypothesis h"
proof -
  from assms obtain cat st where "map_of validCategories (hw_Category w) = Some cat"
    and "map_of validStatuses (hw_Status w) = Some st"
    by (auto simp: check_hypothesis_def split: option.splits)
  note known = this validCategories_known [OF this(1)] validStatuses_known [OF this(2)]
  show ?thesis
    using assms
    by (simp add: known check_hypothesis_def sound_hypothesis_def not_less maxHypothesisIDBytes_def
        maxHypothesisStatementBytes_def maxHypothesisComponentBytes_def split: if_splits)
      (use known(3,4) in auto)
qed

lemma check_hypotheses_sound: "check_hypotheses ws = Inr hs \<Longrightarrow> h \<in> set hs \<Longrightarrow> sound_hypothesis h"
  by (induction ws arbitrary: hs) (auto split: sum.splits dest: check_hypothesis_sound)

lemma decodeToolCallWire_closed: "decodeToolCallWire w = Inr a \<Longrightarrow> closed_shape a \<and> ta_TenantID a = []"
  by (auto simp: decodeToolCallWire_def Let_def validateToolArgs_iff wire_args_def split: option.splits if_splits)

lemma ValidateReasonerOutput_sound:
  assumes "ValidateReasonerOutput dec raw = Inr p"
  shows "(\<forall>h \<in> set (pr_Hypotheses p). sound_hypothesis h) \<and> length (pr_Rationale p) \<le> 2000
    \<and> (\<forall>a. pr_Call p = Some a \<longrightarrow> closed_shape a)"
  using assms
  by (auto simp: ValidateReasonerOutput_def Let_def not_less dest: check_hypotheses_sound decodeToolCallWire_closed
      split: if_splits sum.splits option.splits prod.splits)

lemma ValidateToolArgs_iff: "ValidateToolArgs a inc topo = None \<longleftrightarrow> sound_call inc topo a"
  by (auto simp: ValidateToolArgs_def sound_call_def validateToolArgs_iff [symmetric] checkNoRawURLArgs_def
      find_None_iff find_Some_iff list_all_iff split: option.splits)

text \<open>Two samples of the pattern.\<close>

lemma urlOrHost_examples:
  "urlOrHost ''see http://evil''" "urlOrHost ''10.0.0.1:8080''" "\<not> urlOrHost ''checkout.v2''"
  by code_simp+

end
