(* ===== verification/RcaWiring.thy ===== *)
theory RcaWiring
  imports RcaCalls RcaRules RcaLLM
begin

text \<open>
  The wiring of root cause analysis in cmd/traceiq (system.go, stubs.go): the in-memory journal and
  object store, the rules reasoner with no fallback, the sampler's predicates as the interest sink,
  and five tool backends that answer every query with an empty result.  Then two runs on small
  inputs: one whose rules confirm a deploy regression, and one whose language model is unreachable.
\<close>

section \<open>In-memory stores\<close>

definition mem_wiring :: "'i sink_ops option \<Rightarrow> reasoner \<Rightarrow> reasoner option \<Rightarrow> (mem_journal, mem_objects, 'i) wiring" where
  "mem_wiring sink rz fb =
     \<lparr>wi_journal = mem_journal_ops, wi_objects = Some mem_object_ops, wi_interest = sink, wi_reasoner = rz,
      wi_fallback = fb\<rparr>"

lemma mem_wiring_fields [simp]:
  "wi_journal (mem_wiring sink rz fb) = mem_journal_ops" "wi_objects (mem_wiring sink rz fb) = Some mem_object_ops"
  "wi_interest (mem_wiring sink rz fb) = sink" "wi_reasoner (mem_wiring sink rz fb) = rz"
  "wi_fallback (mem_wiring sink rz fb) = fb"
  by (simp_all add: mem_wiring_def)

section \<open>cmd/traceiq\<close>

definition stub_backends :: tool_backends where
  "stub_backends =
     \<lparr>tb_Trace = Some (\<lambda>tid a. (no_result, None)), tb_Log = Some (\<lambda>tid a. (no_result, None)),
      tb_Metric = Some (\<lambda>tid a. (no_result, None)), tb_Topology = Some (\<lambda>tid a. (no_result, None)),
      tb_Memory = Some (\<lambda>tid a. (no_result, None))\<rparr>"

definition deployed_wiring :: "row_decoders \<Rightarrow> (mem_journal, mem_objects, pred_set) wiring" where
  "deployed_wiring d = mem_wiring (Some sampler_sink) (RulesReasoner d) None"

definition deployed_turns :: "(nat \<Rightarrow> iter_env) \<Rightarrow> nat \<Rightarrow> iter_env" where
  "deployed_turns its n = (its n)\<lparr>it_Backends := stub_backends\<rparr>"

section \<open>Two runs\<close>

definition demo_incident :: incident where
  "demo_incident =
     \<lparr>in_ID = ''inc'', in_Tenant = ''t1'', in_Title = [], in_Status = IncidentCandidate,
      in_Severity = SeverityHigh, in_Score = 1, in_Fingerprint = [], in_EventIDs = [], in_Services = [''pay''],
      in_EpicenterService = ''pay'', in_BlastRadius = [], in_ExemplarTraceIDs = [], in_DeployMarkerIDs = [],
      in_InvestigationID = [], in_SuppressedBy = [], in_Provisional = False, in_FirstSeen = 0, in_LastSeen = 0,
      in_CreatedAt = 0, in_UpdatedAt = 0\<rparr>"

definition demo_codec :: codec where
  "demo_codec = \<lparr>cd_H = (\<lambda>s. s), cd_Args = (\<lambda>a. ta_Tool a), cd_Proposal = (\<lambda>p. Some (pr_Rationale p)),
     cd_DecodeArgs = (\<lambda>s. None)\<rparr>"

text \<open>An error signature first seen ten nanoseconds after a deploy; every text decodes to it.\<close>

definition demo_decoders :: row_decoders where
  "demo_decoders =
     \<lparr>rd_Deploy = (\<lambda>s. Some [\<lparr>dr_ErrorSigID = ''e1'', dr_Service = ''pay'', dr_FirstSeen = 20, dr_DeployAt = 10\<rparr>]),
      rd_Timing = (\<lambda>s. None), rd_Sibling = (\<lambda>s. None), rd_Pool = (\<lambda>s. None)\<rparr>"

definition demo_backends :: tool_backends where
  "demo_backends = stub_backends\<lparr>tb_Metric := Some (\<lambda>tid a. (no_result\<lparr>tlr_Rows := ''rows''\<rparr>, None))\<rparr>"

definition demo_start :: start_env where
  "demo_start = \<lparr>se_ID = ''i1'', se_Seed = 7, se_StartedAt = 0, se_StepID = ''s0'', se_StepAt = 0, se_ScopeAt = 0\<rparr>"

definition demo_turn :: iter_env where
  "demo_turn = \<lparr>it_Cancelled = False, it_Now = 0, it_StartedAt = 0, it_EndedAt = 0, it_StepID = ''s'',
     it_Backends = demo_backends\<rparr>"

definition demo_end :: end_env where
  "demo_end = \<lparr>ee_EndedAt = 1, ee_RecurAt = 1\<rparr>"

definition demo_engine :: "(mem_journal, mem_objects, pred_set) engine" where
  "demo_engine = NewEngine NewMemJournal (\<lambda>k. None) NewPredicateSet"

definition demo_wiring :: "(mem_journal, mem_objects, pred_set) wiring" where
  "demo_wiring = mem_wiring (Some sampler_sink) (RulesReasoner demo_decoders) None"

definition demo_llm :: llm_reasoner where
  "demo_llm = \<lparr>lz_Client = None, lz_Model = ''m'', lz_Effort = [], lz_MaxRetries = 0, lz_Topo = None,
     lz_Pricing = \<lparr>lp_InputMicroUSDPerM = 0, lp_CachedReadMicroUSDPerM = 0, lp_CacheWriteMicroUSDPerM = 0,
       lp_OutputMicroUSDPerM = 0\<rparr>, lz_H = (\<lambda>s. s), lz_Decode = (\<lambda>s. Inl [])\<rparr>"

definition demo_llm_wiring :: "(mem_journal, mem_objects, pred_set) wiring" where
  "demo_llm_wiring = mem_wiring (Some sampler_sink) (LLMReasoner demo_llm) (Some (RulesReasoner demo_decoders))"

end
