(* ===== verification/RcaReplay.thy ===== *)
theory RcaReplay
  imports RcaOutcomes RcaWiring
begin

text \<open>
  Record and replay: the steps of an investigation are in the journal, numbered from 0, and the body of
  every tool result is in the object store under its hash, so that a replay of the recorded steps
  succeeds and gives them back.  The client side is proved in the locale \<open>recording\<close> over any durable
  journal and object store, and interpreted on the in-memory ones the program is wired with.
\<close>

section \<open>Keys of the object store\<close>

lemma object_key_inj: "object_key k tid i m = object_key k tid i n \<Longrightarrow> m = n"
  by (auto simp: object_key_def dest: show_nat_inj)

lemma object_key_kinds: "object_key ''reasoner'' tid i m \<noteq> object_key ''evidence'' tid' i' n"
  by (simp add: object_key_def)

lemma object_key_nonempty [simp]: "object_key ''evidence'' tid i n \<noteq> []"
  by (simp add: object_key_def)

section \<open>The recording invariant\<close>

locale recording = durable_journal jops fresh + object_store obops
  for jops :: "'j journal_ops" and fresh :: "'j \<Rightarrow> string \<Rightarrow> bool" and obops :: "'o object_ops" +
  fixes w :: "('j, 'o, 'i) wiring"
  assumes journal [simp]: "wi_journal w = jops" and objects [simp]: "wi_objects w = Some obops"
begin

text \<open>The body of a recorded result is in the store and has the recorded hash.\<close>

definition evidence_ok :: "codec \<Rightarrow> tenant_id \<Rightarrow> string \<Rightarrow> 'o \<Rightarrow> step \<Rightarrow> bool" where
  "evidence_ok c tid i ob st \<longleftrightarrow>
     stp_ToolResultRef st = []
     \<or> (stp_ToolResultRef st = object_key ''evidence'' tid i (stp_Seq st)
        \<and> (\<exists>body. oo_Get obops ob tid (stp_ToolResultRef st) = Inr body \<and> sha256Hex (cd_H c) body = stp_ToolResultHash st))"

definition recorded :: "codec \<Rightarrow> tenant_id \<Rightarrow> ('j, 'o, 'i) engine \<times> running \<Rightarrow> bool" where
  "recorded c tid s \<longleftrightarrow>
     (let v = ru_inv (snd s) in
      jo_Steps jops (eg_journal (fst s)) tid (iv_ID v) = Inr (iv_Steps v)
      \<and> map stp_Seq (iv_Steps v) = [0..<length (iv_Steps v)]
      \<and> list_all (evidence_ok c tid (iv_ID v) (eg_objects (fst s))) (iv_Steps v))"

lemma recordedI:
  assumes "jo_Steps jops (eg_journal e) tid (iv_ID v) = Inr (iv_Steps v)"
    and "map stp_Seq (iv_Steps v) = [0..<length (iv_Steps v)]"
    and "list_all (evidence_ok c tid (iv_ID v) (eg_objects e)) (iv_Steps v)" and "ru_inv r = v"
  shows "recorded c tid (e, r)"
  using assms by (simp add: recorded_def)

lemma recordedD:
  assumes "recorded c tid (e, r)"
  shows "jo_Steps jops (eg_journal e) tid (iv_ID (ru_inv r)) = Inr (iv_Steps (ru_inv r))"
    and "map stp_Seq (iv_Steps (ru_inv r)) = [0..<length (iv_Steps (ru_inv r))]"
    and "list_all (evidence_ok c tid (iv_ID (ru_inv r)) (eg_objects e)) (iv_Steps (ru_inv r))"
  using assms by (simp_all add: recorded_def Let_def)

lemma recorded_same:
  assumes "recorded c tid (e, r)" and "eg_journal e' = eg_journal e" and "eg_objects e' = eg_objects e"
    and "iv_ID (ru_inv r') = iv_ID (ru_inv r)" and "iv_Steps (ru_inv r') = iv_Steps (ru_inv r)"
  shows "recorded c tid (e', r')"
  using assms by (simp add: recorded_def Let_def)

text \<open>A write under another number or of another kind leaves the recorded evidence alone.\<close>

lemma evidence_frame:
  assumes "evidence_ok c tid i ob st" and "oo_Put obops ob tid k d = (ob', err)"
    and "k \<noteq> object_key ''evidence'' tid i (stp_Seq st)"
  shows "evidence_ok c tid i ob' st"
proof (cases "stp_ToolResultRef st = []")
  case False
  with assms(1) obtain body where "stp_ToolResultRef st = object_key ''evidence'' tid i (stp_Seq st)"
    "oo_Get obops ob tid (stp_ToolResultRef st) = Inr body" "sha256Hex (cd_H c) body = stp_ToolResultHash st"
    by (auto simp: evidence_ok_def)
  moreover have "oo_Get obops ob' tid (stp_ToolResultRef st) = oo_Get obops ob tid (stp_ToolResultRef st)"
    using put_frame [OF assms(2)] assms(3) calculation(1) by metis
  ultimately show ?thesis by (simp add: evidence_ok_def)
qed (simp add: evidence_ok_def)

lemma evidence_frame_all:
  assumes "list_all (evidence_ok c tid i ob) sts" and "oo_Put obops ob tid k d = (ob', err)"
    and "\<And>st. st \<in> set sts \<Longrightarrow> k \<noteq> object_key ''evidence'' tid i (stp_Seq st)"
  shows "list_all (evidence_ok c tid i ob') sts"
  using assms(1,3) by (auto simp: list_all_iff intro: evidence_frame [OF _ assms(2)])

lemma putReasonerOutput_frame:
  assumes "putReasonerOutput w c tid i n p e = (e', ref, hash)"
  shows "eg_journal e' = eg_journal e
    \<and> (list_all (evidence_ok c tid i (eg_objects e)) sts \<longrightarrow> list_all (evidence_ok c tid i (eg_objects e')) sts)"
proof (cases "cd_Proposal c p")
  case (Some b)
  obtain ob' err where put: "oo_Put obops (eg_objects e) tid (object_key ''reasoner'' tid i n) b = (ob', err)" by force
  with assms Some have "eg_journal e' = eg_journal e" "eg_objects e' = ob'"
    by (auto simp: putReasonerOutput_def put_object_def Let_def split: if_splits)
  with evidence_frame_all [OF _ put] object_key_kinds show ?thesis by metis
qed (use assms in \<open>auto simp: putReasonerOutput_def\<close>)

lemma append_step_ok:
  assumes "jo_Steps jops (eg_journal e) tid i = Inr xs"
  shows "snd (append_step w tid i st e) = None"
    and "jo_Steps jops (eg_journal (fst (append_step w tid i st e))) tid i = Inr (xs @ [st])"
    and "eg_objects (fst (append_step w tid i st e)) = eg_objects e"
  using append [OF assms, of st] by (auto simp: append_step_def Let_def split: prod.splits)

text \<open>One more step, numbered by the length, with its evidence.\<close>

lemma recorded_append:
  assumes r: "recorded c tid (e, r)" and j: "eg_journal e1 = eg_journal e"
    and old: "list_all (evidence_ok c tid (iv_ID (ru_inv r)) (eg_objects e1)) (iv_Steps (ru_inv r))"
    and seq: "stp_Seq st = length (iv_Steps (ru_inv r))"
    and new: "evidence_ok c tid (iv_ID (ru_inv r)) (eg_objects e1) st"
    and e': "eg_journal e' = eg_journal (fst (append_step w tid (iv_ID (ru_inv r)) st e1))"
      "eg_objects e' = eg_objects e1"
    and v': "iv_ID (ru_inv r') = iv_ID (ru_inv r)" "iv_Steps (ru_inv r') = iv_Steps (ru_inv r) @ [st]"
  shows "recorded c tid (e', r')"
proof -
  have "jo_Steps jops (eg_journal e1) tid (iv_ID (ru_inv r)) = Inr (iv_Steps (ru_inv r))"
    using recordedD(1) [OF r] by (simp add: j)
  note ok = append_step_ok [OF this, of st]
  show ?thesis
    using ok(2) recordedD(2) [OF r] old new seq
    by (intro recordedI [OF _ _ _ refl]) (simp_all add: e' v')
qed

lemma no_evidence [simp]: "stp_ToolResultRef st = [] \<Longrightarrow> evidence_ok c tid i ob st"
  by (simp add: evidence_ok_def)

lemma pure_turn_recorded:
  assumes "recorded c tid (e, r)" and "pure_turn w c tid it p e r = (e', r')"
  shows "recorded c tid (e', r')"
proof -
  let ?v = "ru_inv r"
  obtain e1 ref hash where p: "putReasonerOutput w c tid (iv_ID ?v) (length (iv_Steps ?v)) p e = (e1, ref, hash)"
    by (metis prod.exhaust)
  let ?st = "(newPureStep (it_StepID it) (it_StartedAt it) (length (iv_Steps ?v)) (pr_Phase p))
               \<lparr>stp_ReasonerOutputRef := ref, stp_ReasonerOutputHash := hash\<rparr>"
  note fr = putReasonerOutput_frame [OF p]
  have j: "jo_Steps jops (eg_journal e1) tid (iv_ID ?v) = Inr (iv_Steps ?v)"
    using recordedD(1) [OF assms(1)] fr by simp
  obtain e2 err where ap: "append_step w tid (iv_ID ?v) ?st e1 = (e2, err)" by force
  with append_step_ok(1) [OF j, of ?st] have "err = None" by simp
  with assms(2) p ap have "e' = e2" "r' = on_inv count_step (on_inv (add_step ?st) r)"
    by (simp_all add: pure_turn_def Let_def)
  then show ?thesis
    using fr recordedD(3) [OF assms(1)] append_step_ok(3) [OF j, of ?st] ap
    by (intro recorded_append [OF assms(1), of e1 ?st])
      (simp_all add: newPureStep_def blank_step_def step_counters)
qed

lemma invalid_turn_recorded:
  assumes "recorded c tid (e, r)" and "invalid_turn w c tid it p call e r = (e', r')"
  shows "recorded c tid (e', r')"
proof -
  let ?st = "base_step c tid it (ru_inv r) p call VerdictInvalidArgs"
  note ok = append_step_ok [OF recordedD(1) [OF assms(1)], of ?st]
  show ?thesis
    using assms(2) ok recordedD(3) [OF assms(1)]
    by (intro recorded_append [OF assms(1), of e ?st])
      (auto simp: invalid_turn_def Let_def base_step_def blank_step_def step_counters)
qed

lemma store_result_recorded:
  assumes r: "recorded c tid (e, r)" and st0: "stp_Seq st0 = length (iv_Steps (ru_inv r))" "stp_ToolResultRef st0 = []"
    and run: "store_result w c tid (iv_ID (ru_inv r)) (length (iv_Steps (ru_inv r))) rows st0 e = (e1, st1)"
  shows "eg_journal e1 = eg_journal e \<and> stp_Seq st1 = stp_Seq st0
    \<and> list_all (evidence_ok c tid (iv_ID (ru_inv r)) (eg_objects e1)) (iv_Steps (ru_inv r) @ [st1])"
proof (cases "rows = []")
  case True
  with run recordedD(3) [OF r] st0 show ?thesis by (auto simp: store_result_def)
next
  case False
  let ?k = "object_key ''evidence'' tid (iv_ID (ru_inv r)) (length (iv_Steps (ru_inv r)))"
  obtain ob' err where put: "oo_Put obops (eg_objects e) tid ?k rows = (ob', err)" by force
  have e1: "e1 = e\<lparr>eg_objects := ob'\<rparr>"
    and st1: "st1 = st0\<lparr>stp_ToolResultHash := sha256Hex (cd_H c) rows, stp_ToolResultRef := (if err = None then ?k else [])\<rparr>"
    using run False put by (auto simp: store_result_def put_object_def Let_def)
  have "stp_Seq st < length (iv_Steps (ru_inv r))" if "st \<in> set (iv_Steps (ru_inv r))" for st
    using recordedD(2) [OF r] that by (metis atLeastLessThan_iff image_eqI list.set_map set_upt)
  then have "list_all (evidence_ok c tid (iv_ID (ru_inv r)) ob') (iv_Steps (ru_inv r))"
    by (intro evidence_frame_all [OF recordedD(3) [OF r] put]) (metis less_irrefl object_key_inj)
  moreover have "evidence_ok c tid (iv_ID (ru_inv r)) ob' st1"
    using put_get [of "eg_objects e" tid ?k rows ob'] put st0 by (auto simp: st1 evidence_ok_def)
  ultimately show ?thesis by (simp add: e1 st1)
qed

lemma tool_turn_recorded:
  assumes "recorded c tid (e, r)" and "tool_turn w c tid it p call e r = (e', r')"
  shows "recorded c tid (e', r')"
proof -
  let ?v = "ru_inv r" let ?i = "iv_ID ?v" let ?n = "length (iv_Steps ?v)"
  obtain result err where d: "Dispatch (NewRegistry (it_Backends it)) tid call = (result, err)" by force
  let ?st0 = "(base_step c tid it ?v p call (dispatch_verdict err))
                  \<lparr>stp_Truncated := tlr_Truncated result, stp_Clamped := tlr_Clamped result,
                   stp_FromCache := tlr_FromCache result, stp_ToolResultBytes := int (length (tlr_Rows result)),
                   stp_LatencyMillis := go_div (time_sub (it_EndedAt it) (it_StartedAt it)) 1000000\<rparr>"
  obtain e1 st1 where s: "store_result w c tid ?i ?n (tlr_Rows result) ?st0 e = (e1, st1)" by force
  obtain e2 ref hash where p: "putReasonerOutput w c tid ?i ?n p e1 = (e2, ref, hash)" by (metis prod.exhaust)
  let ?st = "st1\<lparr>stp_ReasonerOutputRef := ref, stp_ReasonerOutputHash := hash\<rparr>"
  note st = store_result_recorded [OF assms(1) _ _ s]
  then have st1: "eg_journal e1 = eg_journal e" "stp_Seq st1 = ?n"
    "list_all (evidence_ok c tid ?i (eg_objects e1)) (iv_Steps ?v @ [st1])"
    by (simp_all add: base_step_def blank_step_def)
  note fr = putReasonerOutput_frame [OF p, of "iv_Steps ?v @ [st1]"]
  with st1(3) have all: "list_all (evidence_ok c tid ?i (eg_objects e2)) (iv_Steps ?v)"
    "evidence_ok c tid ?i (eg_objects e2) ?st" by (auto simp: evidence_ok_def)
  have j: "jo_Steps jops (eg_journal e2) tid ?i = Inr (iv_Steps ?v)"
    using recordedD(1) [OF assms(1)] fr st1(1) by simp
  show ?thesis
    using assms(2) d s p append_step_ok(3) [OF j, of ?st] all st1 fr
    by (intro recorded_append [OF assms(1), of e2 ?st]) (auto simp: tool_turn_def Let_def step_counters)
qed

lemma iter_proposal_recorded:
  assumes "recorded c tid (e, r)" and "iter_proposal w c tid it p e r = (e', r')"
  shows "recorded c tid (e', r')"
proof -
  define r1 where "r1 = on_inv (\<lambda>v. v\<lparr>iv_Hypotheses := mergeHypotheses (iv_Hypotheses v) (pr_Hypotheses p)\<rparr>) r"
  obtain e1 r2 where u: "charge_usage (pr_Usage p) e r1 = (e1, r2)" by force
  have "eg_journal e1 = eg_journal e" "eg_objects e1 = eg_objects e"
    using u by (auto simp: charge_usage_def split: if_splits)
  moreover have "iv_ID (ru_inv r2) = iv_ID (ru_inv r)" "iv_Steps (ru_inv r2) = iv_Steps (ru_inv r)"
    using charge_usage_effect [OF u] by (simp_all add: same_frame_def r1_def)
  ultimately have r2: "recorded c tid (e1, r2)" by (intro recorded_same [OF assms(1)])
  show ?thesis
  proof (cases "pr_Done p")
    case True
    with assms(2) u have "e' = e1" "r' = stop_run TermConcluded r2"
      by (simp_all add: iter_proposal_def r1_def [symmetric])
    then show ?thesis by (intro recorded_same [OF r2]) simp_all
  next
    case False
    with assms(2) u r2 show ?thesis
      by (auto simp: iter_proposal_def r1_def [symmetric] Let_def split: option.splits if_splits
          intro: pure_turn_recorded invalid_turn_recorded tool_turn_recorded)
  qed
qed

lemma inv_turn_recorded:
  assumes "recorded c tid s" and "inv_turn w c tid inc s t"
  shows "recorded c tid t"
proof -
  from assms(2) obtain r it e e' r' where 1: "s = (e, r)" "t = (e', r')"
    "inv_iter w c tid inc it e r = (e', r')" by (rule inv_turnE) blast
  have ok: "recorded c tid (e, r)" using assms(1) 1 by simp
  from 1(3) have "recorded c tid (e', r')"
  proof (cases rule: inv_iter_split)
    case (proposal p x)
    have "recorded c tid (e, forget_pending r)" by (intro recorded_same [OF ok]) simp_all
    with proposal(3) show ?thesis by (blast intro: iter_proposal_recorded)
  next
    case (swap f err tm)
    have "iv_ID (ru_inv r') = iv_ID (ru_inv r)" using swap by (simp add: swap_run_def)
    with swap show ?thesis by (intro recorded_same [OF ok]) simp_all
  next
    case (failed err)
    have "iv_ID (ru_inv r') = iv_ID (ru_inv r)" using failed by (simp add: fail_run_def)
    with failed show ?thesis by (intro recorded_same [OF ok]) simp_all
  qed (auto intro: recorded_same [OF ok])
  with 1 show ?thesis by simp
qed

section \<open>A whole investigation is recorded\<close>

lemma inv_begin_recorded:
  assumes "inv_begin w s tid inc e = (e', Inr r)" and "fresh (eg_journal e) (se_ID s)"
  shows "recorded c tid (e', r)"
proof -
  define v where "v = new_investigation s tid inc (rz_Kind (wi_reasoner w))"
  have v: "iv_ID v = se_ID s" "iv_Steps v = []" "iv_Tenant v = tid" by (simp_all add: v_def new_investigation_def)
  obtain j0 err0 where c0: "jo_Create jops (eg_journal e) tid v = (j0, err0)" by force
  with create [of "eg_journal e" v tid] assms(2) v
  have j0: "err0 = None" "jo_Steps jops j0 tid (se_ID s) = Inr []" by simp_all
  define e1 where "e1 = register v (e\<lparr>eg_journal := j0\<rparr>)"
  have j1: "jo_Steps jops (eg_journal e1) tid (se_ID s) = Inr []"
    using j0(2) by (simp add: e1_def register_def storeInv_def)
  define st where "st = newPureStep (se_StepID s) (se_StepAt s) 0 PhaseContextualize"
  define v2 where "v2 = count_step (add_step st (v\<lparr>iv_Phase := PhaseHypothesize\<rparr>))"
  obtain e2 err where ap: "append_step w tid (se_ID s) st e1 = (e2, err)" by force
  with append_step_ok [OF j1, of st] have ok: "err = None" "jo_Steps jops (eg_journal e2) tid (se_ID s) = Inr [st]"
    by simp_all
  obtain e3 pid where ps: "push_scope w s tid inc v2 e2 = (e3, pid)" by force
  then have e3: "eg_journal e3 = eg_journal e2" by (auto simp: push_scope_def split: option.splits prod.splits)
  have ctx: "contextualize w s tid v e1 = (e2, v2)"
    using ap ok(1) v by (simp add: contextualize_def st_def [symmetric] v2_def)
  have "inv_begin w s tid inc e =
    (e3, Inr \<lparr>ru_inv = v2, ru_args = None, ru_result = None, ru_hyp = [], ru_swapped = False,
              ru_cap = 0, ru_scopeID = pid, ru_turn = 0, ru_stopped = False\<rparr>)"
    unfolding inv_begin_def Let_def v_def [symmetric] journal c0 j0(1)
    by (simp add: e1_def [symmetric] ctx ps)
  with assms(1) have "e' = e3" "ru_inv r = v2" by auto
  moreover have "iv_ID v2 = se_ID s" "iv_Steps v2 = [st]" using v by (simp_all add: v2_def step_counters)
  ultimately show ?thesis using ok(2) e3
    by (simp add: recorded_def st_def newPureStep_def blank_step_def)
qed

definition archived :: "codec \<Rightarrow> tenant_id \<Rightarrow> investigation \<Rightarrow> ('j, 'o, 'i) engine \<Rightarrow> bool" where
  "archived c tid v e \<longleftrightarrow>
     map_of (eg_invs e) (iv_ID v) = Some v \<and> iv_Tenant v = tid
     \<and> jo_Steps jops (eg_journal e) tid (iv_ID v) = Inr (iv_Steps v)
     \<and> list_all (evidence_ok c tid (iv_ID v) (eg_objects e)) (iv_Steps v)"

lemma inv_finish_archived:
  assumes "inv_finish w en tid inc e r = (e', v)" and "recorded c tid (e, r)" and "iv_Tenant (ru_inv r) = tid"
  shows "archived c tid v e'"
proof -
  from assms(1) obtain v1 where v1: "same_frame (ru_inv r) v1" "iv_Steps v1 = iv_Steps (ru_inv r)" "v = conclude_run w tid inc r v1"
    by (rule inv_finish_result)
  then have v: "iv_ID v = iv_ID (ru_inv r)" "iv_Tenant v = tid" "iv_Steps v = iv_Steps (ru_inv r)"
    using assms(3) by (simp_all add: same_frame_def)
  have e': "eg_objects e' = eg_objects e" "map_of (eg_invs e') (iv_ID v) = Some v"
    "eg_journal e' = fst (jo_SetStatus jops (eg_journal e) tid (iv_ID v) (iv_Status v) (iv_EndedAt v))"
    using assms(1) by (auto simp: inv_finish_def Let_def unregister_def storeInv_def)
  show ?thesis
    using recordedD(1,3) [OF assms(2)] status v e' by (simp add: archived_def)
qed

lemma steps_recorded:
  "steps (inv_turn w c tid inc) s t \<Longrightarrow> recorded c tid s \<Longrightarrow> recorded c tid t \<and> iv_Tenant (ru_inv (snd t)) = iv_Tenant (ru_inv (snd s))"
proof (induction rule: steps.induct)
  case (steps_step s t u)
  then have t: "recorded c tid t" "iv_Tenant (ru_inv (snd t)) = iv_Tenant (ru_inv (snd s))" by blast+
  with steps_step.hyps(2) have "recorded c tid u" by (blast intro: inv_turn_recorded)
  with t(2) same_frame_turn [OF steps_step.hyps(2)] show ?case by (simp add: same_frame_def)
qed simp

lemma Investigate_archived:
  assumes "Investigate w c s its en fuel tid inc e = Some (e', Inr v)" and "fresh (eg_journal e) (se_ID s)"
  shows "archived c tid v e'"
proof -
  from assms(1) obtain e1 r1 e2 r2 where b: "inv_begin w s tid inc e = (e1, Inr r1)"
    and st: "steps (inv_turn w c tid inc) (e1, r1) (e2, r2)" and fin: "inv_finish w en tid inc e2 r2 = (e', v)"
    by (rule Investigate_last)
  from steps_recorded [OF st inv_begin_recorded [OF b assms(2)]] inv_begin_run [OF b]
  show ?thesis by (intro inv_finish_archived [OF fin]) simp_all
qed

section \<open>Replaying the record\<close>

lemma copy_steps_ok:
  "list_all (evidence_ok c tid i ob) sts \<Longrightarrow>
     copy_steps w c ob tid rp n sts
       = Inr (map (\<lambda>(k, st). replayed_step (rp_StepID rp k) (rp_ID rp) st) (enumerate n sts))"
proof (induction sts arbitrary: n)
  case (Cons st sts)
  then have "check_evidence w c ob tid st = None"
    by (auto simp: check_evidence_def evidence_ok_def split: sum.splits)
  with Cons show ?case by simp
qed simp

lemma copy_steps_error: "copy_steps w c ob tid rp n sts = Inl err \<Longrightarrow> rca_sentinel_of err = Some ErrEvidenceCorrupt"
  by (induction sts arbitrary: n) (auto simp: check_evidence_def split: option.splits sum.splits if_splits)

lemma copy_steps_checks:
  "copy_steps w c ob tid rp n sts = Inr xs \<Longrightarrow> st \<in> set sts \<Longrightarrow> check_evidence w c ob tid st = None"
  by (induction sts arbitrary: n xs) (auto split: option.splits sum.splits)

lemma replay_of_archived:
  assumes "archived c tid v e"
  shows "snd (Replay w c rp tid (iv_ID v) ReplayRecorded e) =
    Inr ((replay_copy ReplayRecorded rp v)\<lparr>iv_StartedAt := 0, iv_EndedAt := 0,
      iv_Steps := map (\<lambda>(k, st). replayed_step (rp_StepID rp k) (rp_ID rp) st) (enumerate 0 (iv_Steps v))\<rparr>)"
proof -
  have "list_all (evidence_ok c tid (iv_ID v) (eg_objects e)) (iv_Steps v)" using assms by (simp add: archived_def)
  note copy = copy_steps_ok [OF this, of rp 0]
  show ?thesis using assms
    by (simp add: Replay_def Get_def archived_def replayRecorded_def copy Let_def)
qed

lemma replay_of_tampered:
  assumes "archived c tid v e"
  shows "case snd (Replay w c rp tid (iv_ID v) ReplayRecorded (e\<lparr>eg_objects := ob\<rparr>)) of
      Inl err \<Rightarrow> rca_sentinel_of err = Some ErrEvidenceCorrupt
    | Inr v' \<Rightarrow> \<forall>st \<in> set (iv_Steps v). stp_ToolResultRef st \<noteq> [] \<longrightarrow>
        (\<exists>body body'. oo_Get obops (eg_objects e) tid (stp_ToolResultRef st) = Inr body
           \<and> oo_Get obops ob tid (stp_ToolResultRef st) = Inr body'
           \<and> sha256Hex (cd_H c) body' = sha256Hex (cd_H c) body)"
proof -
  have ev: "evidence_ok c tid (iv_ID v) (eg_objects e) st" if "st \<in> set (iv_Steps v)" for st
    using assms that by (simp add: archived_def list_all_iff)
  show ?thesis
  proof (cases "copy_steps w c ob tid rp 0 (iv_Steps v)")
    case (Inl err)
    with copy_steps_error [OF Inl] assms show ?thesis
      by (simp add: Replay_def Get_def archived_def replayRecorded_def)
  next
    case (Inr xs)
    have "\<exists>body body'. oo_Get obops (eg_objects e) tid (stp_ToolResultRef st) = Inr body
           \<and> oo_Get obops ob tid (stp_ToolResultRef st) = Inr body'
           \<and> sha256Hex (cd_H c) body' = sha256Hex (cd_H c) body"
      if "st \<in> set (iv_Steps v)" "stp_ToolResultRef st \<noteq> []" for st
      using copy_steps_checks [OF Inr that(1)] ev [OF that(1)] that(2)
      by (auto simp: check_evidence_def evidence_ok_def split: sum.splits if_splits)
    with Inr assms show ?thesis
      by (simp add: Replay_def Get_def archived_def replayRecorded_def Let_def)
  qed
qed

end

section \<open>The wiring of the program\<close>

interpretation mem: recording mem_journal_ops "\<lambda>j i. mj_steps j i = []" mem_object_ops "mem_wiring sink rz fb"
  for sink rz fb
  by unfold_locales simp_all

end
