(* ===== verification/RcaRuns.thy ===== *)
theory RcaRuns
  imports RcaOutcomes RcaWiring
begin

text \<open>
  Runs of the rules reasoner: what the turn that tries a rule and the turn that folds in its verdict do,
  and from them the run that finds a deploy regression.
\<close>

section \<open>The two turns of a rule\<close>

lemma turn_state_fields [simp]:
  "sa_Investigation (turn_state inc r) = ru_inv r" "sa_Incident (turn_state inc r) = inc"
  "sa_LastResult (turn_state inc r) = ru_result r" "sa_LastHypothesisID (turn_state inc r) = ru_hyp r"
  by (simp_all add: turn_state_def)

lemma RulesReasoner_fields [simp]:
  "rz_Kind (RulesReasoner d) = ReasonerRules" "rz_NextStep (RulesReasoner d) = Rules_NextStep d"
  "rz_Conclude (RulesReasoner d) = Rules_Conclude"
  by (simp_all add: RulesReasoner_def)

lemma proposal_turn:
  assumes "stop_check (rz_Kind (active w r)) (it_Cancelled it \<or> iv_ID (ru_inv r) \<in> eg_cancelled e) (it_Now it) (ru_inv r) = None"
    and "rz_NextStep (active w r) (ru_turn r) tid (turn_state inc r) = Inr p"
  shows "inv_iter w c tid inc it e r = iter_proposal w c tid it p e (forget_pending r)"
  using assms by (simp add: inv_iter_def Let_def)

lemma BuildCall_shape: "validateToolArgs ((BuildCall rl inc)\<lparr>ta_TenantID := t\<rparr>) = None"
  by (cases rl) (simp_all add: validateToolArgs_iff closed_shape_def metric_call_def trace_call_def)

lemma store_engine [simp]:
  "putReasonerOutput w c tid i n p e = (e1, ref, hash) \<Longrightarrow> eg_cancelled e1 = eg_cancelled e"
  "store_result w c tid i n rows st e = (e2, st') \<Longrightarrow> eg_cancelled e2 = eg_cancelled e"
  "eg_cancelled (fst (append_step w tid i st e)) = eg_cancelled e"
  by (auto simp: putReasonerOutput_def store_result_def put_object_def append_step_def Let_def
      split: option.splits prod.splits if_splits)

lemma tool_turn_result:
  assumes "tool_turn w c tid it p call e r = (e', r')" and "Dispatch (NewRegistry (it_Backends it)) tid call = (res, err)"
    and "pr_Hypotheses p = h # hs"
  shows "eg_cancelled e' = eg_cancelled e \<and> ru_turn r' = ru_turn r \<and> ru_hyp r' = hy_ID h
    \<and> ru_result r' = (if err = None then Some res else None)
    \<and> iv_Spend (ru_inv r') = (iv_Spend (ru_inv r))\<lparr>spd_Steps := spd_Steps (iv_Spend (ru_inv r)) + 1,
        spd_ToolCalls := spd_ToolCalls (iv_Spend (ru_inv r)) + 1\<rparr>"
  using assms by (auto simp: tool_turn_def Let_def count_call_def count_step_def add_step_def split: prod.splits)

lemma try_turn:
  assumes "iter_proposal w c tid it (try_rule s rl) e r = (e', r')"
    and d: "Dispatch (NewRegistry (it_Backends it)) tid ((BuildCall rl (sa_Incident s))\<lparr>ta_TenantID := tid\<rparr>) = (res, err)"
  shows "eg_cancelled e' = eg_cancelled e \<and> ru_turn r' = ru_turn r \<and> ru_hyp r' = rule_ID rl
    \<and> ru_result r' = (if err = None then Some res else None)
    \<and> iv_Spend (ru_inv r') = (iv_Spend (ru_inv r))\<lparr>spd_Steps := spd_Steps (iv_Spend (ru_inv r)) + 1,
        spd_ToolCalls := spd_ToolCalls (iv_Spend (ru_inv r)) + 1\<rparr>"
proof -
  define r1 where "r1 = on_inv (\<lambda>v. v\<lparr>iv_Hypotheses := mergeHypotheses (iv_Hypotheses v) [testing_hypothesis s rl]\<rparr>) r"
  have "tool_turn w c tid it (try_rule s rl) ((BuildCall rl (sa_Incident s))\<lparr>ta_TenantID := tid\<rparr>) e r1 = (e', r')"
    using assms(1) BuildCall_shape [where rl = rl and inc = "sa_Incident s" and t = tid]
    by (simp add: iter_proposal_def charge_usage_def try_rule_def r1_def)
  from tool_turn_result [OF this d] show ?thesis by (simp add: try_rule_def testing_hypothesis_def r1_def)
qed

lemma deploy_confidence: "3 / 4 \<le> rnd64 (85 / 100)"
proof -
  have "is_float (192 / 256)" using is_float_dyadic [of 192] by simp
  then have "192 / 256 \<le> rnd64 (85 / 100)" by (intro fl.ge) simp_all
  then show ?thesis by simp
qed

section \<open>A deploy regression\<close>

definition deploy_query :: "incident \<Rightarrow> metric_query_args" where
  "deploy_query inc = the (ta_Metric (BuildCall ErrorSigAfterDeploy inc))"

lemma deploy_dispatch:
  assumes "tb_Metric b = Some f" and "f tid (deploy_query inc) = (res, None)"
  shows "Dispatch (NewRegistry b) tid ((BuildCall ErrorSigAfterDeploy inc)\<lparr>ta_TenantID := tid\<rparr>)
    = (res\<lparr>tlr_Tool := ToolMetricQuery\<rparr>, None)"
  using assms
  by (simp add: Dispatch_def Registry_Get_def NewRegistry_def metric_call_def deploy_query_def tool_names
      metricQueryTool_Invoke_def invoke_with_def)

lemma inv_begin_start:
  assumes "inv_begin w s tid inc e = (e', Inr r)"
  shows "eg_cancelled e' = eg_cancelled e \<and> (\<exists>k \<le> 1. iv_Spend (ru_inv r) = no_spend\<lparr>spd_Steps := k\<rparr>)"
  using assms
  by (auto simp: inv_begin_def Let_def contextualize_def push_scope_def append_step_def register_def storeInv_def
      new_investigation_def step_counters no_spend_def split: prod.splits option.splits if_splits)

lemma rules_check:
  assumes "iv_Budget v = DefaultBudget" and "time_sub now (iv_StartedAt v) \<le> 5 * minute"
    and "iv_Spend v = no_spend\<lparr>spd_Steps := k, spd_ToolCalls := m\<rparr>" and "k < 24" and "m < 40"
  shows "stop_check ReasonerRules False now v = None"
  using assms by (simp add: stop_check_def Let_def DefaultBudget_def no_spend_def)

text \<open>What the first rule reports of a deploy row.\<close>

definition deploy_hypothesis :: "incident \<Rightarrow> deploy_row \<Rightarrow> hypothesis" where
  "deploy_hypothesis inc row =
     \<lparr>hy_ID = rule_ID ErrorSigAfterDeploy,
      hy_Statement = ''error signature '' @ dr_ErrorSigID row @ '' first seen ''
        @ show_duration (time_sub (dr_FirstSeen row) (dr_DeployAt row)) @ '' after deploy on '' @ dr_Service row,
      hy_Category = CatDeployRegression, hy_Component = in_EpicenterService inc, hy_PriorScore = 0,
      hy_PostScore = rnd64 (85 / 100), hy_Status = HypothesisSupported, hy_Source = HypSourceRule\<rparr>"

lemma deploy_verdict:
  assumes "tlr_Rows res \<noteq> []" and "rd_Deploy d (tlr_Rows res) = Some rs" and "find deploy_fits rs = Some row"
  shows "fold_in d (turn_state inc r) ErrorSigAfterDeploy res =
    \<lparr>pr_Phase = PhaseValidate, pr_Hypotheses = [deploy_hypothesis inc row], pr_Call = None, pr_Done = True,
     pr_Rationale = hy_Statement (deploy_hypothesis inc row), pr_Usage = no_charge\<rparr>"
  using assms deploy_confidence
  by (simp add: fold_in_def verdict_hypothesis_def deploy_hypothesis_def decodeRows_def confirm_deploy_def
      confidenceThresholdFor_def)

lemma first_rule: "iv_Hypotheses (ru_inv r) = [] \<Longrightarrow> ru_result r = None \<Longrightarrow>
    Rules_NextStep d n tid (turn_state inc r) = Inr (try_rule (turn_state inc r) ErrorSigAfterDeploy)"
  by (simp add: Rules_NextStep_def next_rule_def triedRuleIDs_def catalog_def)

lemma verdict_next: "rl \<in> set catalog \<Longrightarrow> ru_result r = Some res \<Longrightarrow> ru_hyp r = rule_ID rl \<Longrightarrow>
    Rules_NextStep d n tid (turn_state inc r) = Inr (fold_in d (turn_state inc r) rl res)"
  by (simp add: Rules_NextStep_def ruleByID_catalog)

lemma mergeHypotheses_one [simp]: "hy_ID u = hy_ID h \<Longrightarrow> mergeHypotheses [h] [u] = [u]" "mergeHypotheses [] [u] = [u]"
  by (simp_all add: mergeHypotheses_def)

text \<open>A turn that runs, unfolded.\<close>

lemma inv_loop_turn:
  "\<not> ru_stopped r \<Longrightarrow> inv_iter w c tid inc (its (ru_turn r)) e r = (e', r') \<Longrightarrow>
     inv_loop w c tid inc its (Suc n) e r = inv_loop w c tid inc its n e' r'"
  by (simp add: inv_loop.simps [of _ _ _ _ _ "Suc n"])

lemma inv_loop_stopped: "ru_stopped r \<Longrightarrow> inv_loop w c tid inc its n e r = Some (e, r)"
  by (simp add: inv_loop.simps)

lemma deploy_loop:
  assumes start: "inv_begin w s tid inc e = (e0, Inr r0)" and rz: "wi_reasoner w = RulesReasoner d"
    and live: "se_ID s \<notin> eg_cancelled e" "\<forall>k \<le> 1. \<not> it_Cancelled (its k) \<and> time_sub (it_Now (its k)) (se_StartedAt s) \<le> 5 * minute"
    and tool: "tb_Metric (it_Backends (its 0)) = Some f" "f tid (deploy_query inc) = (res, None)"
    and rows: "tlr_Rows res \<noteq> []" "rd_Deploy d (tlr_Rows res) = Some rs" "find deploy_fits rs = Some row"
  shows "\<exists>e2 r2. inv_loop w c tid inc its (Suc (Suc n)) e0 r0 = Some (e2, r2)
    \<and> iv_TerminationReason (ru_inv r2) = TermConcluded \<and> iv_Hypotheses (ru_inv r2) = [deploy_hypothesis inc row]
    \<and> spd_ToolCalls (iv_Spend (ru_inv r2)) = 1 \<and> \<not> ru_swapped r2 \<and> ru_cap r2 = 0"
proof -
  note b = inv_begin_run [OF start]
  then have r0: "active w r0 = RulesReasoner d" "ru_cap r0 = 0" "iv_Budget (ru_inv r0) = DefaultBudget"
    by (simp_all add: active_def rz run_ok_def swap_ok_def counters_ok_def)
  from inv_begin_start [OF start] obtain k where k: "k \<le> 1" "iv_Spend (ru_inv r0) = no_spend\<lparr>spd_Steps := k\<rparr>"
    and canc: "eg_cancelled e0 = eg_cancelled e" by blast
  let ?s0 = "turn_state inc r0"
  have sp0: "iv_Spend (ru_inv r0) = no_spend\<lparr>spd_Steps := k, spd_ToolCalls := 0\<rparr>" using k by (simp add: no_spend_def)
  have chk0: "stop_check ReasonerRules (it_Cancelled (its 0) \<or> iv_ID (ru_inv r0) \<in> eg_cancelled e0) (it_Now (its 0)) (ru_inv r0) = None"
    using rules_check [OF r0(3) _ sp0, of "it_Now (its 0)"] b live canc k by simp
  obtain e1 r1 where p0: "iter_proposal w c tid (its 0) (try_rule ?s0 ErrorSigAfterDeploy) e0 (forget_pending r0) = (e1, r1)" by force
  have t0: "inv_iter w c tid inc (its (ru_turn r0)) e0 r0 = (e1, r1)"
    using proposal_turn [of w r0 "its 0" e0] chk0 first_rule [of r0] b by (simp add: r0 p0)
  from try_turn [OF p0, unfolded turn_state_fields, OF deploy_dispatch [OF tool]]
  have r1: "eg_cancelled e1 = eg_cancelled e0" "ru_turn r1 = 1" "ru_hyp r1 = rule_ID ErrorSigAfterDeploy"
    "ru_result r1 = Some (res\<lparr>tlr_Tool := ToolMetricQuery\<rparr>)"
    "iv_Spend (ru_inv r1) = no_spend\<lparr>spd_Steps := k + 1, spd_ToolCalls := 1\<rparr>"
    using b by (simp_all add: sp0)
  have ns0: "\<not> ru_stopped (forget_pending r0)" using b by simp
  from iter_proposal_effect [OF p0 ns0]
  have f1: "same_frame (ru_inv r0) (ru_inv r1)" "\<not> ru_stopped r1" "ru_swapped r1 = ru_swapped r0" "ru_cap r1 = ru_cap r0"
    by (simp_all add: try_rule_def counted_def)
  have h1: "iv_Hypotheses (ru_inv r1) = [testing_hypothesis ?s0 ErrorSigAfterDeploy]"
    using iter_proposal_board [OF p0] b by (simp add: try_rule_def)
  have act1: "active w r1 = RulesReasoner d" using active_same [OF f1(3), of w] r0(1) by simp
  have chk1: "stop_check ReasonerRules (it_Cancelled (its 1) \<or> iv_ID (ru_inv r1) \<in> eg_cancelled e1) (it_Now (its 1)) (ru_inv r1) = None"
    using rules_check [OF _ _ r1(5), of "it_Now (its 1)"] f1(1) r0(3) b live canc k r1(1) by (simp add: same_frame_def)
  let ?p = "fold_in d (turn_state inc r1) ErrorSigAfterDeploy (res\<lparr>tlr_Tool := ToolMetricQuery\<rparr>)"
  have p1: "?p = \<lparr>pr_Phase = PhaseValidate, pr_Hypotheses = [deploy_hypothesis inc row], pr_Call = None, pr_Done = True,
     pr_Rationale = hy_Statement (deploy_hypothesis inc row), pr_Usage = no_charge\<rparr>"
    using rows by (intro deploy_verdict) simp_all
  obtain e2 r2 where t1: "iter_proposal w c tid (its (Suc 0)) ?p e1 (forget_pending r1) = (e2, r2)" by force
  have cat: "ErrorSigAfterDeploy \<in> set catalog" by (simp add: catalog_def)
  have t1': "inv_iter w c tid inc (its (ru_turn r1)) e1 r1 = (e2, r2)"
    using proposal_turn [of w r1 "its (Suc 0)" e1] chk1 verdict_next [OF cat r1(4,3)] by (simp add: act1 r1(2) t1)
  have ns1: "\<not> ru_stopped (forget_pending r1)" using f1 by simp
  from iter_proposal_effect [OF t1 ns1]
  have f2: "ru_stopped r2" "uncounted r1 r2" "iv_TerminationReason (ru_inv r2) = TermConcluded" "ru_swapped r2 = ru_swapped r1"
    "ru_cap r2 = ru_cap r1" by (simp_all add: p1)
  have h2: "iv_Hypotheses (ru_inv r2) = [deploy_hypothesis inc row]"
    using iter_proposal_board [OF t1] h1 by (simp add: p1 testing_hypothesis_def deploy_hypothesis_def)
  have "\<not> ru_stopped r0" using b by simp
  from inv_loop_turn [where its = its, OF this t0] inv_loop_turn [where its = its, OF f1(2) t1'] inv_loop_stopped [OF f2(1)]
  have "inv_loop w c tid inc its (Suc (Suc n)) e0 r0 = Some (e2, r2)" by simp
  moreover have "spd_ToolCalls (iv_Spend (ru_inv r2)) = 1" using f2(2) r1(5) by (simp add: uncounted_def)
  ultimately show ?thesis using f2 h2 f1 r0 b by auto
qed

lemma deploy_outcome:
  assumes start: "inv_begin w s tid inc e = (e0, Inr r0)" and rz: "wi_reasoner w = RulesReasoner d"
    and live: "se_ID s \<notin> eg_cancelled e" "\<forall>k \<le> 1. \<not> it_Cancelled (its k) \<and> time_sub (it_Now (its k)) (se_StartedAt s) \<le> 5 * minute"
    and tool: "tb_Metric (it_Backends (its 0)) = Some f" "f tid (deploy_query inc) = (res, None)"
    and rows: "tlr_Rows res \<noteq> []" "rd_Deploy d (tlr_Rows res) = Some rs" "find deploy_fits rs = Some row"
  shows "\<exists>e' v. Investigate w c s its en (Suc (Suc n)) tid inc e = Some (e', Inr v)
    \<and> iv_Status v = InvestigationConcluded \<and> iv_RootCause v = hy_Statement (deploy_hypothesis inc row)
    \<and> iv_Confidence v = rnd64 (85 / 100) \<and> spd_ToolCalls (iv_Spend v) = 1 \<and> iv_ID v = se_ID s"
proof -
  from deploy_loop [OF assms] obtain e2 r2 where l: "inv_loop w c tid inc its (Suc (Suc n)) e0 r0 = Some (e2, r2)"
    and r2: "iv_TerminationReason (ru_inv r2) = TermConcluded" "iv_Hypotheses (ru_inv r2) = [deploy_hypothesis inc row]"
      "spd_ToolCalls (iv_Spend (ru_inv r2)) = 1" "\<not> ru_swapped r2" "ru_cap r2 = 0" by blast
  obtain e3 v where f: "inv_finish w en tid inc e2 r2 = (e3, v)" by force
  from f obtain v1 where v1: "same_frame (ru_inv r2) v1" "iv_Spend v1 = iv_Spend (ru_inv r2)"
    "iv_TerminationReason v1 = iv_TerminationReason (ru_inv r2)" "iv_Hypotheses v1 = iv_Hypotheses (ru_inv r2)"
    "v = conclude_run w tid inc r2 v1" by (rule inv_finish_result)
  have "iv_RootCause v = hy_Statement (deploy_hypothesis inc row) \<and> iv_Confidence v = rnd64 (85 / 100)"
    using r2 v1 by (simp add: conclude_run_def Let_def active_def rz Rules_Conclude_def conclude_with_def
        deploy_hypothesis_def cap_confidence_def)
  moreover have "iv_Status v = InvestigationConcluded"
    using calculation r2 v1 deploy_confidence by (simp add: terminalStatus_Concluded confidenceThreshold_def)
  moreover have "iv_ID v = se_ID s"
    using steps_frame [OF inv_loop_steps [OF l, THEN conjunct1]] inv_begin_run [OF start] v1 by (simp add: same_frame_def)
  ultimately show ?thesis using start l f r2 v1 by (simp add: Investigate_def)
qed

section \<open>The deployed wiring\<close>

text \<open>With backends that return no rows no rule is ever confirmed.\<close>

lemma Confirm_no_rows: "tlr_Rows res = [] \<Longrightarrow> \<exists>why. Confirm d rl res = (False, 0, why)"
  by (cases rl) (simp_all add: decodeRows_def confirm_deploy_def confirm_latency_def confirm_nplus_def confirm_pool_def)

lemma stub_dispatch:
  "\<exists>res. Dispatch (NewRegistry stub_backends) tid ((BuildCall rl inc)\<lparr>ta_TenantID := tid\<rparr>) = (res, None) \<and> tlr_Rows res = []"
  by (cases rl)
    (simp_all add: Dispatch_def Registry_Get_def NewRegistry_def metric_call_def trace_call_def tool_names stub_backends_def
      metricQueryTool_Invoke_def traceQueryTool_Invoke_def invoke_with_def no_result_def)

text \<open>
  The invariant: every hypothesis is a catalog rule that is not supported, a pending result has no rows,
  one call was made per hypothesis, and at most two steps per call.
\<close>

definition unfed :: "row_decoders \<Rightarrow> running \<Rightarrow> bool" where
  "unfed d r \<longleftrightarrow>
     \<not> ru_swapped r \<and> ru_cap r = 0 \<and> iv_Budget (ru_inv r) = DefaultBudget
     \<and> (\<forall>h \<in> set (iv_Hypotheses (ru_inv r)). hy_Status h \<noteq> HypothesisSupported \<and> hy_ID h \<in> rule_ID ` set catalog)
     \<and> distinct (map hy_ID (iv_Hypotheses (ru_inv r)))
     \<and> (\<forall>res. ru_result r = Some res \<longrightarrow> tlr_Rows res = [] \<and> ru_hyp r \<in> hy_ID ` set (iv_Hypotheses (ru_inv r)))
     \<and> spd_ToolCalls (iv_Spend (ru_inv r)) = int (length (iv_Hypotheses (ru_inv r)))
     \<and> spd_Steps (iv_Spend (ru_inv r)) \<le> (if ru_result r = None then 1 else 0) + 2 * int (length (iv_Hypotheses (ru_inv r)))
     \<and> spd_CostMicroUSD (iv_Spend (ru_inv r)) = 0
     \<and> iv_TerminationReason (ru_inv r) \<in> (if ru_stopped r then {TermConcluded, TermAborted, TermWallClock} else {TermNone})"

lemma unfed_bound: "unfed d r \<Longrightarrow> length (iv_Hypotheses (ru_inv r)) \<le> 4"
proof -
  assume u: "unfed d r"
  then have "length (iv_Hypotheses (ru_inv r)) = card (hy_ID ` set (iv_Hypotheses (ru_inv r)))"
    by (metis (no_types, lifting) distinct_card length_map list.set_map unfed_def)
  also have "\<dots> \<le> card (rule_ID ` set catalog)" using u by (intro card_mono) (auto simp: unfed_def)
  also have "\<dots> \<le> 4" using card_image_le [of "set catalog" rule_ID] by (simp add: catalog_def)
  finally show ?thesis .
qed

lemma unfed_guard:
  assumes "unfed d r" and "stop_check ReasonerRules x now (ru_inv r) = Some reason"
  shows "reason \<in> {TermAborted, TermWallClock}"
  using assms unfed_bound [OF assms(1)]
  by (auto simp: stop_check_def Let_def unfed_def DefaultBudget_def split: if_splits)

text \<open>What the rules reasoner proposes in such a state.\<close>

lemma unfed_step:
  assumes u: "unfed d r"
  obtains (verdict) h where "Rules_NextStep d n tid (turn_state inc r) = Inr
        \<lparr>pr_Phase = PhaseValidate, pr_Hypotheses = [h], pr_Call = None, pr_Done = False, pr_Rationale = hy_Statement h, pr_Usage = no_charge\<rparr>"
      and "hy_Status h = HypothesisRefuted" and "hy_ID h \<in> hy_ID ` set (iv_Hypotheses (ru_inv r))" and "ru_result r \<noteq> None"
  | (untried) rl where "Rules_NextStep d n tid (turn_state inc r) = Inr (try_rule (turn_state inc r) rl)" and "ru_result r = None"
      and "rl \<in> set catalog" and "rule_ID rl \<notin> hy_ID ` set (iv_Hypotheses (ru_inv r))"
  | (none) "Rules_NextStep d n tid (turn_state inc r) = Inl (RPlain ErrNoMoreRules)" and "ru_result r = None"
proof (cases "ru_result r")
  case None
  then have ns: "Rules_NextStep d n tid (turn_state inc r) = next_rule (turn_state inc r)" by (simp add: Rules_NextStep_def)
  show ?thesis
  proof (cases "find (\<lambda>rl. rule_ID rl \<notin> set (triedRuleIDs (ru_inv r))) catalog")
    case f: None
    then show ?thesis using ns None by (intro none) (simp_all add: next_rule_def)
  next
    case (Some rl)
    then have "rl \<in> set catalog" "rule_ID rl \<notin> hy_ID ` set (iv_Hypotheses (ru_inv r))"
      by (auto simp: find_Some_iff triedRuleIDs_def)
    then show ?thesis using ns Some None by (intro untried) (simp_all add: next_rule_def)
  qed
next
  case (Some res)
  with u have rows: "tlr_Rows res = []" and hyp: "ru_hyp r \<in> hy_ID ` set (iv_Hypotheses (ru_inv r))" by (auto simp: unfed_def)
  then obtain h0 where "h0 \<in> set (iv_Hypotheses (ru_inv r))" "hy_ID h0 = ru_hyp r" by auto
  with u obtain rl where rl: "rl \<in> set catalog" "ru_hyp r = rule_ID rl" unfolding unfed_def by (metis imageE)
  from Confirm_no_rows [OF rows] obtain why where "Confirm d rl res = (False, 0, why)" by blast
  then have "fold_in d (turn_state inc r) rl res = \<lparr>pr_Phase = PhaseValidate, pr_Hypotheses = [verdict_hypothesis d (turn_state inc r) rl res],
      pr_Call = None, pr_Done = False, pr_Rationale = hy_Statement (verdict_hypothesis d (turn_state inc r) rl res), pr_Usage = no_charge\<rparr>"
    "hy_Status (verdict_hypothesis d (turn_state inc r) rl res) = HypothesisRefuted"
    "hy_ID (verdict_hypothesis d (turn_state inc r) rl res) = ru_hyp r"
    by (simp_all add: fold_in_def verdict_hypothesis_def rl)
  note v = this
  from verdict_next [OF rl(1) Some rl(2), of d n tid inc, unfolded v(1)] v(2) show ?thesis
  proof (rule verdict)
    show "hy_ID (verdict_hypothesis d (turn_state inc r) rl res) \<in> hy_ID ` set (iv_Hypotheses (ru_inv r))"
      unfolding v(3) by (rule hyp)
    show "ru_result r \<noteq> None" by (simp add: Some)
  qed
qed

lemma replace_hypothesis_set: "set (replace_hypothesis u hs) \<subseteq> insert u (set hs)"
  by (induction hs) auto

lemma replace_hypothesis_all: "\<forall>h \<in> set hs. Q h \<Longrightarrow> Q u \<Longrightarrow> \<forall>h \<in> set (replace_hypothesis u hs). Q h"
  using replace_hypothesis_set by fast

lemma merge_one:
  "mergeHypotheses hs [u] = replace_hypothesis u hs"
  "hy_ID u \<in> hy_ID ` set hs \<Longrightarrow> length (mergeHypotheses hs [u]) = length hs"
  "hy_ID u \<notin> hy_ID ` set hs \<Longrightarrow> length (mergeHypotheses hs [u]) = Suc (length hs)"
proof -
  show m: "mergeHypotheses hs [u] = replace_hypothesis u hs" by (simp add: mergeHypotheses_def)
  from arg_cong [OF replace_hypothesis_IDs [of u hs], where f = length]
  show "hy_ID u \<in> hy_ID ` set hs \<Longrightarrow> length (mergeHypotheses hs [u]) = length hs"
    "hy_ID u \<notin> hy_ID ` set hs \<Longrightarrow> length (mergeHypotheses hs [u]) = Suc (length hs)" by (simp_all add: m)
qed

lemma pure_turn_result:
  "pure_turn w c tid it p e r = (e', r') \<Longrightarrow>
     ru_result r' = ru_result r \<and> ru_hyp r' = ru_hyp r
     \<and> iv_Spend (ru_inv r') = (iv_Spend (ru_inv r))\<lparr>spd_Steps := spd_Steps (iv_Spend (ru_inv r)) + 1\<rparr>"
  by (auto simp: pure_turn_def Let_def count_step_def add_step_def split: prod.splits if_splits)

lemma pure_proposal:
  assumes "iter_proposal w c tid it p e r = (e', r')" and "pr_Call p = None" and "\<not> pr_Done p" and "pr_Usage p = no_charge"
  shows "ru_result r' = ru_result r \<and> ru_hyp r' = ru_hyp r
     \<and> iv_Spend (ru_inv r') = (iv_Spend (ru_inv r))\<lparr>spd_Steps := spd_Steps (iv_Spend (ru_inv r)) + 1\<rparr>"
  using assms by (simp add: iter_proposal_def charge_usage_def) (use pure_turn_result in fastforce)

lemma unfed_stop:
  assumes "unfed d r" and "reason \<in> {TermConcluded, TermAborted, TermWallClock}"
  shows "unfed d (stop_run reason r)" and "unfed d (stop_run reason (forget_pending r))"
proof -
  have "ru_result (stop_run reason x) = ru_result x" "ru_hyp (stop_run reason x) = ru_hyp x" for x
    by (simp_all add: stop_run_def)
  with assms show "unfed d (stop_run reason r)" "unfed d (stop_run reason (forget_pending r))"
    by (auto simp: unfed_def split: if_splits)
qed

lemma unfed_turn:
  assumes u: "unfed d r" and ns: "\<not> ru_stopped r"
    and turn: "inv_iter (deployed_wiring d) c tid inc (deployed_turns its n) e r = (e', r')"
  shows "unfed d r'"
proof -
  let ?w = "deployed_wiring d" let ?it = "deployed_turns its n"
  have act: "active ?w r = RulesReasoner d" using u by (simp add: active_def deployed_wiring_def unfed_def)
  note u' = u [unfolded unfed_def]
  then have old: "\<forall>h \<in> set (iv_Hypotheses (ru_inv r)). hy_Status h \<noteq> HypothesisSupported \<and> hy_ID h \<in> rule_ID ` set catalog"
    by blast
  from turn show ?thesis
  proof (cases rule: inv_iter_split)
    case (guard reason x)
    with unfed_guard [OF u] have "reason \<in> {TermAborted, TermWallClock}" by (simp add: act)
    with guard(3) show ?thesis by (auto intro: unfed_stop [OF u])
  next
    case (concluded err)
    then show ?thesis by (simp add: unfed_stop [OF u])
  next
    case (failed err)
    with Rules_error [of d "ru_turn r" tid "turn_state inc r" err] have "rca_sentinel_of err = Some ErrNoMoreRules"
      by (simp add: act)
    with turn failed(1) have "r' = stop_run TermConcluded (forget_pending r) \<or> (\<exists>reason. stop_check ReasonerRules
        (it_Cancelled ?it \<or> iv_ID (ru_inv r) \<in> eg_cancelled e) (it_Now ?it) (ru_inv r) = Some reason \<and> r' = stop_run reason r)"
      by (cases "stop_check ReasonerRules (it_Cancelled ?it \<or> iv_ID (ru_inv r) \<in> eg_cancelled e) (it_Now ?it) (ru_inv r)")
        (simp_all add: inv_iter_def Let_def act iter_error_def)
    with unfed_guard [OF u] show ?thesis by (auto intro: unfed_stop [OF u])
  next
    case (swap f err tm)
    then show ?thesis by (simp add: act)
  next
    case (proposal p x)
    have nsf: "\<not> ru_stopped (forget_pending r)" using ns by simp
    note eff = iter_proposal_effect [OF proposal(3) nsf, unfolded forget_pending_fields]
    note board = iter_proposal_board [OF proposal(3), unfolded forget_pending_fields]
    have dist: "distinct (map hy_ID (iv_Hypotheses (ru_inv r')))" using u' by (simp add: board mergeHypotheses_distinct)
    from u show ?thesis
    proof (cases rule: unfed_step [where n = "ru_turn r" and tid = tid and inc = inc, consumes 1, case_names verdict untried none])
      case (verdict h)
      have p: "pr_Call p = None" "\<not> pr_Done p" "pr_Usage p = no_charge" "pr_Hypotheses p = [h]"
        using Inr_inject [OF proposal(2) [unfolded act RulesReasoner_fields verdict(1)], symmetric] by simp_all
      note res = pure_proposal [OF proposal(3) p(1-3), unfolded forget_pending_fields]
      have hyps: "iv_Hypotheses (ru_inv r') = replace_hypothesis h (iv_Hypotheses (ru_inv r))" by (simp add: board p merge_one)
      have "\<forall>x \<in> set (iv_Hypotheses (ru_inv r')). hy_Status x \<noteq> HypothesisSupported \<and> hy_ID x \<in> rule_ID ` set catalog"
        unfolding hyps
      proof (rule replace_hypothesis_all)
        from verdict(3) old have "hy_ID h \<in> rule_ID ` set catalog" by (metis imageE)
        then show "hy_Status h \<noteq> HypothesisSupported \<and> hy_ID h \<in> rule_ID ` set catalog" by (simp add: verdict(2))
      qed (rule old)
      moreover have "length (iv_Hypotheses (ru_inv r')) = length (iv_Hypotheses (ru_inv r))"
        using merge_one(2) [OF verdict(3)] by (simp add: board p)
      ultimately show ?thesis using u' eff p dist res verdict(4) ns
        by (auto simp: unfed_def counted_def same_frame_def)
    next
      case (untried rl)
      have p: "p = try_rule (turn_state inc r) rl" using proposal(2) [unfolded act RulesReasoner_fields untried(1)] by simp
      then have p': "\<not> pr_Done p" "pr_Hypotheses p = [testing_hypothesis (turn_state inc r) rl]" by (simp_all add: try_rule_def)
      from stub_dispatch obtain out where out: "Dispatch (NewRegistry stub_backends) tid ((BuildCall rl inc)\<lparr>ta_TenantID := tid\<rparr>) = (out, None)"
        "tlr_Rows out = []" by blast
      have "Dispatch (NewRegistry (it_Backends ?it)) tid ((BuildCall rl (sa_Incident (turn_state inc r)))\<lparr>ta_TenantID := tid\<rparr>) = (out, None)"
        using out by (simp add: deployed_turns_def)
      note res = try_turn [OF proposal(3) [unfolded p] this, unfolded forget_pending_fields]
      let ?h = "testing_hypothesis (turn_state inc r) rl"
      have h: "hy_ID ?h = rule_ID rl" "hy_Status ?h = HypothesisTesting" by (simp_all add: testing_hypothesis_def)
      have hyps: "iv_Hypotheses (ru_inv r') = replace_hypothesis ?h (iv_Hypotheses (ru_inv r))" by (simp add: board p' merge_one)
      have "\<forall>x \<in> set (iv_Hypotheses (ru_inv r')). hy_Status x \<noteq> HypothesisSupported \<and> hy_ID x \<in> rule_ID ` set catalog"
        unfolding hyps by (rule replace_hypothesis_all) (use old untried(3) h in simp_all)
      moreover have "length (iv_Hypotheses (ru_inv r')) = Suc (length (iv_Hypotheses (ru_inv r)))"
        using merge_one(3) [of ?h] untried(4) h by (simp add: board p')
      moreover have "rule_ID rl \<in> hy_ID ` set (iv_Hypotheses (ru_inv r'))"
        using replace_hypothesis_IDs [of ?h "iv_Hypotheses (ru_inv r)"] h unfolding hyps
        by (metis UnCI list.set_intros(1) list.set_map set_append)
      ultimately show ?thesis using u' eff p' dist res untried(2) ns out(2)
        by (auto simp: unfed_def counted_def same_frame_def)
    next
      case none
      with proposal(2) show ?thesis by (simp add: act)
    qed
  qed
qed

lemma unfed_loop:
  "inv_loop (deployed_wiring d) c tid inc (deployed_turns its) fuel e r = Some (e', r') \<Longrightarrow> unfed d r \<Longrightarrow> unfed d r' \<and> ru_stopped r'"
proof (induction fuel arbitrary: e r)
  case 0
  then show ?case by (auto simp: inv_loop.simps split: if_splits)
next
  case (Suc n)
  show ?case
  proof (cases "ru_stopped r")
    case True
    with Suc.prems show ?thesis by (simp add: inv_loop_stopped)
  next
    case False
    obtain e1 r1 where t: "inv_iter (deployed_wiring d) c tid inc (deployed_turns its (ru_turn r)) e r = (e1, r1)" by force
    show ?thesis
      using Suc.IH [of e1 r1] Suc.prems(1) inv_loop_turn [where its = "deployed_turns its" and n = n, OF False t] unfed_turn [OF Suc.prems(2) False t] by simp
  qed
qed

lemma unfed_start:
  assumes "inv_begin (deployed_wiring d) s tid inc e = (e', Inr r)"
  shows "unfed d r"
proof -
  from inv_begin_start [OF assms] obtain k where "k \<le> 1" "iv_Spend (ru_inv r) = no_spend\<lparr>spd_Steps := k\<rparr>" by blast
  with inv_begin_run [OF assms] show ?thesis
    by (simp add: unfed_def run_ok_def counters_ok_def swap_ok_def no_spend_def)
qed

lemma mem_begin:
  "\<exists>e' r. inv_begin (mem_wiring sink rz fb) s tid inc e = (e', Inr r)"
  by (simp add: inv_begin_def Let_def mem_journal_ops_def MemJournal_Create_def new_investigation_def split: prod.splits)

section \<open>Two runs\<close>

lemma demo_times: "time_sub 0 0 = 0" "time_sub 20 10 = 10" "0 \<le> 5 * minute" "\<not> minute < 0" "10 \<le> 30 * minute"
  by (simp_all add: time_sub_def max_duration_def minute_def second_def)

text \<open>The deploy row of the example is found.\<close>

definition demo_row :: deploy_row where
  "demo_row = \<lparr>dr_ErrorSigID = ''e1'', dr_Service = ''pay'', dr_FirstSeen = 20, dr_DeployAt = 10\<rparr>"

lemma demo_fits: "find deploy_fits [demo_row] = Some demo_row"
  by (simp add: demo_row_def deploy_fits_def demo_times)

lemma demo_runs:
  "\<forall>k \<le> 1. \<not> it_Cancelled demo_turn \<and> time_sub (it_Now demo_turn) (se_StartedAt demo_start) \<le> 5 * minute"
  "se_ID demo_start \<notin> eg_cancelled demo_engine"
  "tb_Metric (it_Backends demo_turn) = Some (\<lambda>t a. (no_result\<lparr>tlr_Rows := ''rows''\<rparr>, None))"
  "tlr_Rows (no_result\<lparr>tlr_Rows := ''rows''\<rparr>) \<noteq> []"
  "rd_Deploy demo_decoders (tlr_Rows (no_result\<lparr>tlr_Rows := ''rows''\<rparr>)) = Some [demo_row]"
  by (simp_all add: demo_turn_def demo_start_def demo_engine_def NewEngine_def demo_backends_def demo_decoders_def demo_row_def
      demo_times)

lemma demo_deploy:
  obtains e' v where "Investigate demo_wiring demo_codec demo_start (\<lambda>n. demo_turn) demo_end 26 ''t1'' demo_incident demo_engine = Some (e', Inr v)"
    and "iv_Status v = InvestigationConcluded" and "iv_ID v = ''i1''"
proof -
  obtain e0 r0 where b: "inv_begin demo_wiring demo_start ''t1'' demo_incident demo_engine = (e0, Inr r0)"
    using mem_begin unfolding demo_wiring_def by blast
  have "\<exists>e' v. Investigate demo_wiring demo_codec demo_start (\<lambda>n. demo_turn) demo_end (Suc (Suc 24)) ''t1'' demo_incident demo_engine = Some (e', Inr v)
    \<and> iv_Status v = InvestigationConcluded \<and> iv_RootCause v = hy_Statement (deploy_hypothesis demo_incident demo_row)
    \<and> iv_Confidence v = rnd64 (85 / 100) \<and> spd_ToolCalls (iv_Spend v) = 1 \<and> iv_ID v = se_ID demo_start"
    by (rule deploy_outcome [where its = "\<lambda>n. demo_turn", OF b _ demo_runs(2,1,3) _ demo_runs(4,5) demo_fits])
      (simp_all add: demo_wiring_def)
  then show thesis by (auto simp: demo_start_def intro: that)
qed

lemma swaps_kept:
  assumes "steps (inv_turn w c tid inc) s t" and "iv_ReasonerSwaps (ru_inv (snd s)) \<noteq> []"
  shows "iv_ReasonerSwaps (ru_inv (snd t)) \<noteq> []"
  using assms
proof (induction rule: steps.induct)
  case (steps_step s t u)
  from steps_step.hyps(2) obtain r it e e' r' where 1: "t = (e, r)" "u = (e', r')" "\<not> ru_stopped r"
    "inv_iter w c tid inc it e r = (e', r')" by (rule inv_turnE) blast
  have "iv_ReasonerSwaps (ru_inv r) \<noteq> []" using steps_step 1 by simp
  with 1(4,3) have "iv_ReasonerSwaps (ru_inv r') \<noteq> []"
    by (cases rule: turn_cases) (auto simp: counted_def swap_run_def)
  with 1 show ?case by simp
qed

text \<open>A model that cannot be reached is swapped for the rules.\<close>

lemma demo_swaps:
  obtains e' v where "Investigate demo_llm_wiring demo_codec demo_start (\<lambda>n. demo_turn) demo_end 26 ''t1'' demo_incident demo_engine = Some (e', Inr v)"
    and "iv_ReasonerSwaps v \<noteq> []"
proof -
  let ?w = demo_llm_wiring
  obtain e0 r0 where b: "inv_begin ?w demo_start ''t1'' demo_incident demo_engine = (e0, Inr r0)"
    using mem_begin unfolding demo_llm_wiring_def by blast
  note r0 = inv_begin_run [OF b]
  have "fallback_rules ?w" by (simp add: fallback_rules_def demo_llm_wiring_def)
  from inv_loop_ends [OF this] r0 obtain e2 r2 where l: "inv_loop ?w demo_codec ''t1'' demo_incident (\<lambda>n. demo_turn) 26 e0 r0 = Some (e2, r2)"
    by fastforce
  obtain e1 r1 where t: "inv_iter ?w demo_codec ''t1'' demo_incident demo_turn e0 r0 = (e1, r1)" by force
  from inv_begin_start [OF b] obtain k where k: "k \<le> 1" "iv_Spend (ru_inv r0) = no_spend\<lparr>spd_Steps := k\<rparr>"
    and canc: "eg_cancelled e0 = {}" by (auto simp: demo_engine_def NewEngine_def)
  have "active ?w r0 = LLMReasoner demo_llm" using r0 by (simp add: active_def demo_llm_wiring_def)
  moreover have "stop_check ReasonerLLM False 0 (ru_inv r0) = None"
    using r0 k by (simp add: stop_check_def Let_def run_ok_def counters_ok_def DefaultBudget_def no_spend_def demo_start_def demo_times)
  ultimately have "r1 = swap_run ReasonerLLM (RulesReasoner demo_decoders) (RWrapped ErrLLMTransport (ROther ''LLMReasoner.Client is nil'')) 0 (forget_pending r0)"
    using t canc by (simp add: inv_iter_def Let_def LLMReasoner_def LLM_NextStep_def demo_llm_def demo_turn_def iter_error_def
        demo_llm_wiring_def isFallbackTrigger_def)
  then have "iv_ReasonerSwaps (ru_inv r1) \<noteq> []" by (simp add: swap_run_def)
  moreover have "inv_loop ?w demo_codec ''t1'' demo_incident (\<lambda>n. demo_turn) 25 e1 r1 = Some (e2, r2)"
    using l inv_loop_turn [of r0 ?w demo_codec "''t1''" demo_incident "\<lambda>n. demo_turn" e0 e1 r1 25] t r0 by simp
  ultimately have sw: "iv_ReasonerSwaps (ru_inv r2) \<noteq> []" using swaps_kept inv_loop_steps by fastforce
  obtain e3 v where f: "inv_finish ?w demo_end ''t1'' demo_incident e2 r2 = (e3, v)" by force
  from f obtain v1 where "iv_ReasonerSwaps v1 = iv_ReasonerSwaps (ru_inv r2)" "v = conclude_run ?w ''t1'' demo_incident r2 v1"
    by (rule inv_finish_result)
  with sw have "iv_ReasonerSwaps v \<noteq> []" by simp
  with b l f show thesis by (intro that) (simp_all add: Investigate_def)
qed

end
