(* ===== verification/RcaProps.thy ===== *)
theory RcaProps
  imports RcaReplay RcaRuns
begin

text \<open>
  The properties of root cause analysis: an investigation ends, within its budget, grounded, recorded; the
  deployed program never concludes; and what its interest predicates, aborts and calls do.
\<close>

section \<open>Investigations\<close>

text \<open>C4. \<open>Investigate\<close> returns: with a rules reasoner, or none, as the fallback, 26 turns are always enough,
  whatever the reasoners, the tools, the stores and the clock do.\<close>

theorem Investigate_terminates:
  assumes "fallback_rules w" and "26 \<le> fuel"
  shows "\<exists>e' result. Investigate w c s its en fuel tid inc e = Some (e', result)"
proof (cases "inv_begin w s tid inc e")
  case (Pair e1 x)
  show ?thesis
  proof (cases x)
    case (Inl err)
    with Pair show ?thesis by (simp add: Investigate_def)
  next
    case (Inr r)
    from inv_begin_run [OF Pair [unfolded Inr]] assms(2)
    have "run_ok w (e1, r)" "turns_left r < fuel" by auto
    from inv_loop_ends [OF assms(1) this] obtain e2 r2 where "inv_loop w c tid inc its fuel e1 r = Some (e2, r2)"
      by force
    with Pair Inr show ?thesis by (simp add: Investigate_def split: prod.splits)
  qed
qed

theorem Investigate_terminates_witness:
  "\<exists>e' result. Investigate demo_llm_wiring demo_codec demo_start (\<lambda>n. demo_turn) demo_end 26 ''t1'' demo_incident demo_engine = Some (e', result)"
  by (rule Investigate_terminates) (simp_all add: fallback_rules_def demo_llm_wiring_def)

text \<open>Bounded: an investigation that returned spent at most 24 steps and no more tool calls than steps,
  so the limit of 40 tool calls never ends one; it is in a terminal state, with a recorded reason.\<close>

theorem Investigate_within_budget:
  assumes "Investigate w c s its en fuel tid inc e = Some (e', Inr v)"
  shows "0 \<le> spd_ToolCalls (iv_Spend v) \<and> spd_ToolCalls (iv_Spend v) \<le> spd_Steps (iv_Spend v)
    \<and> spd_Steps (iv_Spend v) \<le> 24 \<and> iv_TerminationReason v \<notin> {TermNone, TermToolCalls}
    \<and> iv_Status v \<noteq> InvestigationRunning"
proof -
  from assms obtain e1 r1 e2 r2 where ok: "outcome_ok w (e2, r2)" "ru_stopped r2"
    and fin: "inv_finish w en tid inc e2 r2 = (e', v)" by (rule Investigate_last)
  from fin obtain v1 where "iv_Spend v1 = iv_Spend (ru_inv r2)"
    "iv_TerminationReason v1 = iv_TerminationReason (ru_inv r2)" "v = conclude_run w tid inc r2 v1"
    by (rule inv_finish_result)
  with ok show ?thesis
    by (simp add: outcome_ok_def run_ok_def counters_ok_def term_ok_def terminalStatus_not_running)
qed

theorem Investigate_within_budget_witness:
  "\<exists>e' v. Investigate demo_wiring demo_codec demo_start (\<lambda>n. demo_turn) demo_end 26 ''t1'' demo_incident demo_engine = Some (e', Inr v)
    \<and> spd_Steps (iv_Spend v) \<le> 24 \<and> iv_TerminationReason v \<notin> {TermNone, TermToolCalls}"
  by (rule demo_deploy) (use Investigate_within_budget in blast)

text \<open>C13. After a fall back to the rules an investigation never concludes: its confidence stays at the cap,
  which lies below the threshold.\<close>

theorem swapped_never_concludes:
  assumes "Investigate w c s its en fuel tid inc e = Some (e', Inr v)" and "iv_ReasonerSwaps v \<noteq> []"
  shows "iv_Confidence v \<le> swappedCap \<and> swappedCap < confidenceThreshold \<and> iv_Status v \<noteq> InvestigationConcluded"
  using swapped_capped [OF assms] swappedCap_bounds(2) by simp

theorem swapped_never_concludes_witness:
  "\<exists>e' v. Investigate demo_llm_wiring demo_codec demo_start (\<lambda>n. demo_turn) demo_end 26 ''t1'' demo_incident demo_engine = Some (e', Inr v)
    \<and> iv_Confidence v \<le> swappedCap \<and> iv_Status v \<noteq> InvestigationConcluded"
  by (rule demo_swaps) (use swapped_never_concludes in blast)

text \<open>C5. A concluded investigation is grounded: the loop ended by concluding, no reasoner was swapped, and
  the root cause is the statement of a supported hypothesis on the board, whose score, at least the
  threshold and the highest of the supported ones, is the confidence.\<close>

theorem concluded_is_grounded:
  assumes "Investigate w c s its en fuel tid inc e = Some (e', Inr v)" and "sound_wiring w"
    and "iv_Status v = InvestigationConcluded"
  shows "iv_TerminationReason v = TermConcluded \<and> iv_ReasonerSwaps v = []
    \<and> (\<exists>h \<in> supported (iv_Hypotheses v). iv_RootCause v = hy_Statement h \<and> iv_Confidence v = hy_PostScore h
          \<and> 3 / 4 \<le> hy_PostScore h \<and> (\<forall>x \<in> supported (iv_Hypotheses v). hy_PostScore x \<le> hy_PostScore h))"
proof -
  from assms(1) obtain e1 r1 e2 r2 where ok: "outcome_ok w (e2, r2)" "ru_stopped r2"
    and fin: "inv_finish w en tid inc e2 r2 = (e', v)" by (rule Investigate_last)
  from fin obtain v1 where v1: "iv_ReasonerSwaps v1 = iv_ReasonerSwaps (ru_inv r2)"
    "iv_Hypotheses v1 = iv_Hypotheses (ru_inv r2)" "v = conclude_run w tid inc r2 v1"
    by (rule inv_finish_result)
  have noswap: "iv_ReasonerSwaps v = []" using swapped_capped(2) [OF assms(1)] assms(3) by blast
  have dist: "distinct (map hy_ID (iv_Hypotheses v1))" using ok(1) v1(2) by (simp add: outcome_ok_def)
  have cap: "ru_cap r2 = 0"
    using ok(1) noswap v1 by (auto simp: outcome_ok_def run_ok_def swap_ok_def split: if_splits)
  let ?s = "\<lparr>sa_Investigation = v1, sa_Incident = inc, sa_LastArgs = None, sa_LastResult = None, sa_LastHypothesisID = []\<rparr>"

  note act = active_contract [OF assms(2), of r2]
  note keep = reasoner_contract.keeps_board [OF act, of tid ?s] and gr = reasoner_contract.grounds [OF act, of ?s tid]
  have hyps: "iv_Hypotheses v = iv_Hypotheses v1"
    using keep by (simp add: v1(3) conclude_run_def Let_def mergeHypotheses_same [OF dist])
  have conf: "iv_Confidence v = co_Confidence (rz_Conclude (active w r2) tid ?s)"
    by (simp add: v1(3) conclude_run_confidence cap cap_confidence_def)
  have cause: "iv_RootCause v = co_RootCause (rz_Conclude (active w r2) tid ?s)"
    by (simp add: v1(3) conclude_run_def Let_def)
  from assms(3) have high: "iv_TerminationReason v = TermConcluded" "3 / 4 \<le> iv_Confidence v"
    by (simp_all add: v1(3) terminalStatus_Concluded confidenceThreshold_def)
  have "grounded (iv_Hypotheses v) (iv_RootCause v) (iv_Confidence v)" using gr by (simp add: hyps conf cause)
  with high have "\<exists>h \<in> supported (iv_Hypotheses v). iv_RootCause v = hy_Statement h \<and> iv_Confidence v = hy_PostScore h
          \<and> (\<forall>x \<in> supported (iv_Hypotheses v). hy_PostScore x \<le> iv_Confidence v)"
    by (auto simp: grounded_def split: if_splits)
  with high noswap show ?thesis by auto
qed

theorem concluded_is_grounded_witness:
  "\<exists>e' v h. Investigate demo_wiring demo_codec demo_start (\<lambda>n. demo_turn) demo_end 26 ''t1'' demo_incident demo_engine = Some (e', Inr v)
    \<and> h \<in> supported (iv_Hypotheses v) \<and> iv_RootCause v = hy_Statement h \<and> 3 / 4 \<le> hy_PostScore h"
proof -
  have "sound_wiring demo_wiring"
    by (simp add: sound_wiring_def demo_wiring_def rules.reasoner_contract_axioms)
  then show ?thesis by (rule_tac demo_deploy) (use concluded_is_grounded in blast)
qed

text \<open>C15. Round trip of the record: replaying an investigation that returned gives its steps back, in
  order, with new identifiers and no times, and the same root cause, confidence, status,
  hypotheses and report; no tool and no reasoner is asked, and nothing is spent.\<close>

theorem replay_roundtrip:
  assumes "Investigate (mem_wiring sink rz fb) c s its en fuel tid inc e = Some (e', Inr v)"
    and "mj_steps (eg_journal e) (se_ID s) = []"
  shows "snd (Replay (mem_wiring sink rz fb) c rp tid (iv_ID v) ReplayRecorded e') =
    Inr (v\<lparr>iv_ID := rp_ID rp, iv_ParentID := iv_ID v, iv_ReplayOf := iv_ID v, iv_ReplayMode := ReplayRecorded,
      iv_Spend := no_spend, iv_StartedAt := 0, iv_EndedAt := 0,
      iv_Steps := map (\<lambda>(k, st). replayed_step (rp_StepID rp k) (rp_ID rp) st) (enumerate 0 (iv_Steps v))\<rparr>)"
  using mem.replay_of_archived [OF mem.Investigate_archived [OF assms]] by (simp add: replay_copy_def)

theorem replay_roundtrip_witness:
  "\<exists>e' v v'. Investigate demo_wiring demo_codec demo_start (\<lambda>n. demo_turn) demo_end 26 ''t1'' demo_incident demo_engine = Some (e', Inr v)
    \<and> snd (Replay demo_wiring demo_codec \<lparr>rp_ID = ''r1'', rp_StepID = (\<lambda>k. ''x''), rp_Backends = (\<lambda>k. demo_backends), rp_Now = 2\<rparr>
          ''t1'' (iv_ID v) ReplayRecorded e') = Inr v' \<and> iv_RootCause v' = iv_RootCause v"
proof -
  have new: "mj_steps (eg_journal demo_engine) (se_ID demo_start) = []"
    by (simp add: demo_engine_def NewEngine_def NewMemJournal_def)
  obtain e' v where run: "Investigate demo_wiring demo_codec demo_start (\<lambda>n. demo_turn) demo_end 26 ''t1'' demo_incident demo_engine = Some (e', Inr v)" by (rule demo_deploy)
  from replay_roundtrip [OF this [unfolded demo_wiring_def] new] run show ?thesis unfolding demo_wiring_def by auto
qed

text \<open>C16. Tamper evidence of the record: with any other content of the object store, a replay either
  reports corrupt evidence, or every stored body has the same hash as the body recorded.\<close>

theorem replay_detects_tampering:
  assumes "Investigate (mem_wiring sink rz fb) c s its en fuel tid inc e = Some (e', Inr v)"
    and "mj_steps (eg_journal e) (se_ID s) = []"
  shows "case snd (Replay (mem_wiring sink rz fb) c rp tid (iv_ID v) ReplayRecorded (e'\<lparr>eg_objects := ob\<rparr>)) of
      Inl err \<Rightarrow> rca_sentinel_of err = Some ErrEvidenceCorrupt
    | Inr v' \<Rightarrow> \<forall>st \<in> set (iv_Steps v). stp_ToolResultRef st \<noteq> [] \<longrightarrow>
        (\<exists>body body'. MemObject_Get (eg_objects e') tid (stp_ToolResultRef st) = Inr body
           \<and> MemObject_Get ob tid (stp_ToolResultRef st) = Inr body'
           \<and> sha256Hex (cd_H c) body' = sha256Hex (cd_H c) body)"
  using mem.replay_of_tampered [OF mem.Investigate_archived [OF assms], where rp = rp and ob = ob]
  unfolding mem_object_ops_def object_ops.simps .

theorem replay_detects_tampering_witness:
  "\<exists>e' v. Investigate demo_wiring demo_codec demo_start (\<lambda>n. demo_turn) demo_end 26 ''t1'' demo_incident demo_engine = Some (e', Inr v)
    \<and> (case snd (Replay demo_wiring demo_codec \<lparr>rp_ID = ''r1'', rp_StepID = (\<lambda>k. ''x''), rp_Backends = (\<lambda>k. demo_backends), rp_Now = 2\<rparr>
          ''t1'' (iv_ID v) ReplayRecorded (e'\<lparr>eg_objects := (\<lambda>k. None)\<rparr>)) of
        Inl err \<Rightarrow> rca_sentinel_of err = Some ErrEvidenceCorrupt
      | Inr v' \<Rightarrow> list_all (\<lambda>st. stp_ToolResultRef st = []) (iv_Steps v))"
proof -
  have new: "mj_steps (eg_journal demo_engine) (se_ID demo_start) = []"
    by (simp add: demo_engine_def NewEngine_def NewMemJournal_def)
  obtain e' v where run: "Investigate demo_wiring demo_codec demo_start (\<lambda>n. demo_turn) demo_end 26 ''t1'' demo_incident demo_engine = Some (e', Inr v)" by (rule demo_deploy)
  have empty: "(MemObject_Get (\<lambda>k. None) t k = Inr b) = False" for t k b by (simp add: MemObject_Get_def)
  let ?rp = "\<lparr>rp_ID = ''r1'', rp_StepID = (\<lambda>k. ''x''), rp_Backends = (\<lambda>k. demo_backends), rp_Now = 2\<rparr> :: replay_env"
  have "case snd (Replay demo_wiring demo_codec ?rp ''t1'' (iv_ID v) ReplayRecorded (e'\<lparr>eg_objects := (\<lambda>k. None)\<rparr>)) of
        Inl err \<Rightarrow> rca_sentinel_of err = Some ErrEvidenceCorrupt
      | Inr v' \<Rightarrow> list_all (\<lambda>st. stp_ToolResultRef st = []) (iv_Steps v)"
    using replay_detects_tampering [OF run [unfolded demo_wiring_def] new, where rp = ?rp and ob = "\<lambda>k. None"]
    unfolding demo_wiring_def by (auto simp: empty list_all_iff split: sum.splits)
  with run show ?thesis by blast
qed

text \<open>C24. A deploy regression is found: when the first query of the rules reasoner returns a row of an error
  signature first seen within 30 minutes after a deploy, and the caller neither cancels nor lets the
  clock run out, the investigation concludes after one tool call, with the sentence about that
  row as its root cause and confidence 0.85.\<close>

theorem deploy_regression_is_concluded:
  assumes "\<forall>k \<le> 1. \<not> it_Cancelled (its k) \<and> time_sub (it_Now (its k)) (se_StartedAt s) \<le> 5 * minute"
    and "se_ID s \<notin> eg_cancelled e"
    and "tb_Metric (it_Backends (its 0)) = Some f" and "f tid (deploy_query inc) = (res, None)"
    and "tlr_Rows res \<noteq> []" and "rd_Deploy d (tlr_Rows res) = Some rs" and "find deploy_fits rs = Some row"
  shows "\<exists>e' v. Investigate (mem_wiring sink (RulesReasoner d) fb) c s its en (Suc (Suc n)) tid inc e = Some (e', Inr v)
    \<and> iv_Status v = InvestigationConcluded \<and> iv_RootCause v = hy_Statement (deploy_hypothesis inc row)
    \<and> iv_Confidence v = rnd64 (85 / 100) \<and> spd_ToolCalls (iv_Spend v) = 1 \<and> iv_ID v = se_ID s"
proof -
  obtain e0 r0 where "inv_begin (mem_wiring sink (RulesReasoner d) fb) s tid inc e = (e0, Inr r0)" using mem_begin by blast
  from deploy_outcome [OF this _ assms(2,1,3-7)] show ?thesis by simp
qed

theorem deploy_regression_is_concluded_witness:
  "\<exists>e' v. Investigate demo_wiring demo_codec demo_start (\<lambda>n. demo_turn) demo_end 26 ''t1'' demo_incident demo_engine = Some (e', Inr v)
    \<and> iv_Status v = InvestigationConcluded \<and> iv_RootCause v = hy_Statement (deploy_hypothesis demo_incident demo_row)"
  using deploy_regression_is_concluded [OF demo_runs(1,2,3) _ demo_runs(4,5) demo_fits, where tid = "''t1''"
      and inc = demo_incident and sink = "Some sampler_sink" and fb = None and c = demo_codec and en = demo_end and n = 24]
  by (auto simp: demo_wiring_def)

text \<open>C23. The deployed program never finds a root cause: with the rules reasoner alone and the tool backends of
  stubs.go, every investigation returns without one, at confidence 0 and never concluded, after at
  most four tool calls and nine steps, whatever the incident, the clock and the cancellations.\<close>

theorem deployed_never_concludes:
  "\<exists>e' v. Investigate (deployed_wiring d) c s (deployed_turns its) en (26 + k) tid inc e = Some (e', Inr v)
    \<and> iv_Status v \<in> {InvestigationInconclusive, InvestigationAborted, InvestigationBudgetExhausted}
    \<and> iv_RootCause v = [] \<and> iv_Confidence v = 0 \<and> spd_ToolCalls (iv_Spend v) \<le> 4 \<and> spd_Steps (iv_Spend v) \<le> 9"
proof -
  let ?w = "deployed_wiring d" let ?its = "deployed_turns its"
  obtain e0 r0 where b: "inv_begin ?w s tid inc e = (e0, Inr r0)" using mem_begin unfolding deployed_wiring_def by blast
  have "fallback_rules ?w" by (simp add: fallback_rules_def deployed_wiring_def)
  from inv_loop_ends [OF this] inv_begin_run [OF b]
  obtain e2 r2 where l: "inv_loop ?w c tid inc ?its (26 + k) e0 r0 = Some (e2, r2)" by fastforce
  from unfed_loop [OF l unfed_start [OF b]] have u: "unfed d r2" "ru_stopped r2" by simp_all
  obtain e3 v where f: "inv_finish ?w en tid inc e2 r2 = (e3, v)" by force
  from f obtain v1 where v1: "iv_Spend v1 = iv_Spend (ru_inv r2)" "iv_TerminationReason v1 = iv_TerminationReason (ru_inv r2)"
    "iv_Hypotheses v1 = iv_Hypotheses (ru_inv r2)" "v = conclude_run ?w tid inc r2 v1" by (rule inv_finish_result)
  have "supported (iv_Hypotheses v1) = {}" using u(1) by (auto simp: v1(3) supported_def unfed_def)
  then have "best_scan None (iv_Hypotheses v1) = None" by (simp add: best_scan_None)
  then have v: "iv_RootCause v = [] \<and> iv_Confidence v = 0"
    using u(1) by (simp add: v1(4) conclude_run_def Let_def active_def deployed_wiring_def unfed_def Rules_Conclude_def
        conclude_with_def cap_confidence_def)
  moreover have "iv_Status v \<in> {InvestigationInconclusive, InvestigationAborted, InvestigationBudgetExhausted}"
    using u v v1(2,4) by (auto simp: unfed_def terminalStatus_def confidenceThreshold_def)
  moreover have "spd_ToolCalls (iv_Spend v) \<le> 4 \<and> spd_Steps (iv_Spend v) \<le> 9"
    using u(1) unfed_bound [OF u(1)] v1 by (auto simp: unfed_def split: if_splits)
  ultimately show ?thesis using b l f by (simp add: Investigate_def)
qed

section \<open>The interest predicates\<close>

lemma Add_appends:
  "\<exists>p'. p' \<in> set (ps_snapshot (snd (Add ps p))) \<and> p' = p\<lparr>ip_ID := ip_ID p'\<rparr>"
proof -
  obtain p' ps1 where a: "assign_id ps p = (p', ps1)" by force
  then have "p' = p\<lparr>ip_ID := ip_ID p'\<rparr>" by (auto simp: assign_id_def Let_def split: if_splits)
  moreover have "p' \<in> set (ps_snapshot (snd (Add ps p)))"
    by (simp add: Add_def a Let_def split: option.splits prod.splits)
  ultimately show ?thesis by blast
qed

lemma recurrence_fields:
  assumes "p' = (recurrencePredicate tid v es sigs now ttl)\<lparr>ip_ID := i, ip_Tenant := t\<rparr>\<lparr>ip_ID := i'\<rparr>"
  shows "ip_Scope p' = ScopeRecurrence" "ip_Source p' = ''rca:'' @ iv_ID v" "ip_MinDuration p' = 0" "\<not> ip_ErrorsOnly p'"
    "ip_ExpiresAt p' = now + ttl" "ip_TraceIDs p' = {}" "ip_PathSigs p' = sigs" "ip_Services p' = []" "ip_ErrorSigIDs p' = es"
  using assms by (simp_all add: recurrencePredicate_def blank_predicate_def)

text \<open>A concluded investigation makes the sampler keep everything: the recurrence predicate it installs in
  the sampler for 24 hours has no selector, and then every trace, of every tenant, matches.\<close>

theorem concluded_keeps_everything:
  assumes "Investigate (mem_wiring (Some sampler_sink) rz fb) c s its en fuel tid inc e = Some (e', Inr v)"
    and "iv_Status v = InvestigationConcluded"
  shows "(\<exists>p \<in> set (ps_snapshot (eg_interest e')). ip_Scope p = ScopeRecurrence \<and> ip_Source p = ''rca:'' @ iv_ID v
        \<and> ip_ExpiresAt p = ee_RecurAt en + 24 * 60 * minute)
    \<and> (\<forall>t. im_Matched (fst (Match (eg_interest e') t)))"
proof -
  from assms(1) obtain e1 r1 e2 r2 where fin: "inv_finish (mem_wiring (Some sampler_sink) rz fb) en tid inc e2 r2 = (e', v)"
    by (rule Investigate_last)
  from fin obtain v1 where v1: "v = conclude_run (mem_wiring (Some sampler_sink) rz fb) tid inc r2 v1" by (rule inv_finish_result)
  with assms(2) have conf: "iv_Confidence v \<ge> confidenceThreshold" by (simp add: terminalStatus_Concluded)
  let ?p = "(recurrencePredicate tid v [] [] (ee_RecurAt en) defaultRecurrenceTTL)\<lparr>ip_ID := [], ip_Tenant := tid\<rparr>"
  define ps where "ps = RemovePredicate (eg_interest e2) (if ru_scopeID r2 = [] then ''rca:'' @ iv_ID v else ru_scopeID r2)"
  have "eg_interest (unregister i (storeInv u x)) = eg_interest x" for i u and x :: "(mem_journal, mem_objects, pred_set) engine"
    by (simp add: unregister_def storeInv_def)
  with inv_finish_store [OF fin] have ps: "eg_interest e' = snd (Add ps ?p)"
    using assms(2) conf
    by (simp add: pull_scope_def Let_def recurrenceSignatures_def sampler_sink_def toSamplerInterestPredicate_def ps_def
        case_prod_unfold)
  from Add_appends obtain p' where p': "p' \<in> set (ps_snapshot (eg_interest e'))" "p' = ?p\<lparr>ip_ID := ip_ID p'\<rparr>"
    unfolding ps by blast
  then have fields: "ip_Scope p' = ScopeRecurrence" "ip_Source p' = ''rca:'' @ iv_ID v" "ip_MinDuration p' = 0" "\<not> ip_ErrorsOnly p'"
    "ip_ExpiresAt p' = ee_RecurAt en + 24 * 60 * minute" "ip_TraceIDs p' = {}" "ip_PathSigs p' = []" "ip_Services p' = []" "ip_ErrorSigIDs p' = []"
    using recurrence_fields [OF p'(2)] by (simp_all add: defaultRecurrenceTTL_def)
  then have "pred_matches p' t" for t by (simp add: pred_matches_def candidate_matches_def)
  then have "im_Matched (fst (Match (eg_interest e') t))" for t
    using p'(1) by (cases "find (\<lambda>p. pred_matches p t) (ps_snapshot (eg_interest e'))")
      (auto simp: find_None_iff Match_def Let_def)
  with p'(1) fields show ?thesis by blast
qed

theorem concluded_keeps_everything_witness:
  "\<exists>e' v. Investigate demo_wiring demo_codec demo_start (\<lambda>n. demo_turn) demo_end 26 ''t1'' demo_incident demo_engine = Some (e', Inr v)
    \<and> (\<forall>t. im_Matched (fst (Match (eg_interest e') t)))"
  by (rule demo_deploy) (use concluded_keeps_everything in \<open>fastforce simp: demo_wiring_def\<close>)

section \<open>Calls from outside\<close>

text \<open>Aborting a running investigation ends it: its next turn stops without asking the reasoner, and it is
  stored as aborted with the given reason.\<close>

theorem abort_stops_running:
  assumes "Abort w now tid i reason e = (e1, None)" and "i \<in> eg_cancels e" and "reason \<noteq> []"
    and "iv_ID (ru_inv r) = i" and "\<not> ru_stopped r"
  shows "inv_loop w c tid inc its (Suc n) e1 r = Some (e1, stop_run TermAborted r)
    \<and> (case inv_finish w en tid inc e1 (stop_run TermAborted r) of (e2, v) \<Rightarrow>
         iv_Status v = InvestigationAborted \<and> iv_Error v = Some (ROther reason) \<and> map_of (eg_invs e2) i = Some v)"
proof -
  from assms(1,2) have e1: "i \<in> eg_cancelled e1" "eg_abortReasons e1 i = reason"
    by (auto simp: Abort_def split: sum.splits)
  have "inv_iter w c tid inc (its (ru_turn r)) e1 r = (e1, stop_run TermAborted r)"
    using e1(1) assms(4) by (simp add: inv_iter_def Let_def stop_check_def)
  with assms(5) have "inv_loop w c tid inc its (Suc n) e1 r = Some (e1, stop_run TermAborted r)"
    by (simp add: inv_loop_turn [where its = its] inv_loop_stopped)
  moreover obtain e2 v where f: "inv_finish w en tid inc e1 (stop_run TermAborted r) = (e2, v)" by force
  moreover from f have "v = conclude_run w tid inc (stop_run TermAborted r)
      (((ru_inv r)\<lparr>iv_TerminationReason := TermAborted, iv_EndedAt := ee_EndedAt en\<rparr>)\<lparr>iv_Error := Some (ROther reason)\<rparr>)"
    "eg_invs e2 = AList.update (iv_ID v) v (eg_invs e1)"
    subgoal using f e1(2) assms(3,4) by (simp add: inv_finish_def Let_def stop_run_def)
    subgoal using inv_finish_store [OF f] by (simp add: unregister_def storeInv_def)
    done
  then have "iv_Status v = InvestigationAborted \<and> iv_Error v = Some (ROther reason) \<and> map_of (eg_invs e2) i = Some v"
    using assms(4) by (simp add: terminalStatus_def update_conv) (simp add: conclude_run_def Let_def)
  ultimately show ?thesis by simp
qed

theorem abort_stops_running_witness:
  "\<exists>e0 r0. inv_begin demo_wiring demo_start ''t1'' demo_incident demo_engine = (e0, Inr r0)
    \<and> (case inv_finish demo_wiring demo_end ''t1'' demo_incident
            (fst (Abort demo_wiring 5 ''t1'' ''i1'' ''operator'' e0)) (stop_run TermAborted r0) of
          (e2, v) \<Rightarrow> iv_Status v = InvestigationAborted \<and> iv_Error v = Some (ROther ''operator''))"
proof -
  obtain e0 r0 where b: "inv_begin demo_wiring demo_start ''t1'' demo_incident demo_engine = (e0, Inr r0)"
    using mem_begin unfolding demo_wiring_def by blast
  then have reg: "''i1'' \<in> eg_cancels e0" "map_of (eg_invs e0) ''i1'' \<noteq> None" "\<forall>v. map_of (eg_invs e0) ''i1'' = Some v \<longrightarrow> iv_Tenant v = ''t1''"
    by (auto simp: inv_begin_def Let_def contextualize_def append_step_def register_def storeInv_def push_scope_def
        new_investigation_def demo_start_def demo_engine_def NewEngine_def split: prod.splits option.splits if_splits)
  then obtain e1 where a: "Abort demo_wiring 5 ''t1'' ''i1'' ''operator'' e0 = (e1, None)"
    by (auto simp: Abort_def Get_def split: option.splits)
  from abort_stops_running [OF a reg(1), of r0] inv_begin_run [OF b] b a show ?thesis
    by (fastforce simp: demo_start_def split: prod.splits)
qed

text \<open>Tenants are separated: for an investigation of another tenant, or none at all, the four calls answer
  as if it did not exist and change nothing.\<close>

theorem calls_check_tenant:
  assumes "\<forall>v. map_of (eg_invs e) i = Some v \<longrightarrow> iv_Tenant v \<noteq> tid"
  shows "Get tid i e = Inl (not_found i) \<and> Correct tid i stepID co e = (e, Inl (not_found i))
    \<and> Abort w now tid i reason e = (e, Some (not_found i)) \<and> Replay w c rp tid i mode e = (e, Inl (not_found i))"
proof -
  have "Get tid i e = Inl (not_found i)" using assms by (auto simp: Get_def split: option.splits)
  then show ?thesis by (simp add: Correct_def Abort_def Replay_def)
qed

theorem calls_check_tenant_witness:
  "\<exists>e' v. Investigate demo_wiring demo_codec demo_start (\<lambda>n. demo_turn) demo_end 26 ''t1'' demo_incident demo_engine = Some (e', Inr v)
    \<and> Abort demo_wiring 5 ''t2'' (iv_ID v) ''x'' e' = (e', Some (not_found (iv_ID v)))"
proof -
  obtain e' v where run: "Investigate demo_wiring demo_codec demo_start (\<lambda>n. demo_turn) demo_end 26 ''t1'' demo_incident demo_engine = Some (e', Inr v)" by (rule demo_deploy)
  have "mem.archived demo_codec ''t1'' v e'"
    using mem.Investigate_archived [OF run [unfolded demo_wiring_def]] by (simp add: demo_engine_def NewEngine_def NewMemJournal_def)
  then have "\<forall>u. map_of (eg_invs e') (iv_ID v) = Some u \<longrightarrow> iv_Tenant u \<noteq> ''t2''" by (auto simp: mem.archived_def)
  from calls_check_tenant [OF this] run show ?thesis by blast
qed

end
