(* ===== verification/Topology.thy ===== *)
theory Topology
  imports TopologyModel
begin

text \<open>
  internal/topology/livegraph.go: the live graph of services.

  The maps of edges, of pending client spans and of the operations of one edge are ranged over, so they
  are association lists; services, operations per edge, first sightings and insertion numbers are
  only looked up.  Every method holds the mutex while it touches the maps, so each definition that
  takes and returns a graph is one atomic step; \<open>Consume\<close> takes the lock once per step of a span.  The
  channel of changes is the list of what it buffers.  The clock is an argument, as are the sink and
  the source of edges.
\<close>

section \<open>State\<close>

record topology_config =
  tc_MaxEdges :: int
  tc_VanishedAfter :: duration

type_synonym edge_key = "tenant_id \<times> string \<times> string \<times> string"
type_synonym pending_key = "tenant_id \<times> trace_id \<times> span_id"

record service_node =
  sn_Tenant :: tenant_id
  sn_Name :: string
  sn_FirstSeen :: gotime
  sn_LastSeen :: gotime

record pending_span =
  pn_Service :: string
  pn_Protocol :: string
  pn_Timestamp :: gotime

record live_graph =
  lg_maxEdges :: int
  lg_newEdgeWindow :: duration
  lg_vanishWindow :: duration
  lg_pendingTTL :: duration
  lg_edges :: "(edge_key \<times> edge) list"
  lg_services :: "tenant_id \<Rightarrow> string \<Rightarrow> service_node option"
  lg_pending :: "(pending_key \<times> pending_span) list"
  lg_ops :: "string \<Rightarrow> (string \<times> edge_op) list option"
  lg_lastNewEmit :: "edge_key \<Rightarrow> gotime option"
  lg_evicted :: int
  lg_insertSeq :: "edge_key \<Rightarrow> 64 word"
  lg_nextSeq :: "64 word"
  lg_changes :: "change_event list"

definition hour :: duration where "hour = 60 * minute"

definition NewLiveGraph :: "topology_config \<Rightarrow> live_graph" where
  "NewLiveGraph cfg =
     \<lparr>lg_maxEdges = tc_MaxEdges cfg, lg_newEdgeWindow = 24 * hour,
      lg_vanishWindow = (if tc_VanishedAfter cfg \<le> 0 then hour else tc_VanishedAfter cfg),
      lg_pendingTTL = 30 * second, lg_edges = [], lg_services = (\<lambda>t s. None), lg_pending = [],
      lg_ops = (\<lambda>i. None), lg_lastNewEmit = (\<lambda>k. None), lg_evicted = 0, lg_insertSeq = (\<lambda>k. 0),
      lg_nextSeq = 0, lg_changes = []\<rparr>"

definition ensureService :: "tenant_id \<Rightarrow> string \<Rightarrow> gotime \<Rightarrow> live_graph \<Rightarrow> live_graph" where
  "ensureService tid name now g =
     (if name = [] then g
      else
       (let n = (case lg_services g tid name of
                   Some n \<Rightarrow> n
                 | None \<Rightarrow> \<lparr>sn_Tenant = tid, sn_Name = name, sn_FirstSeen = now, sn_LastSeen = 0\<rparr>)
        in g\<lparr>lg_services := (lg_services g)(tid := (lg_services g tid)(name \<mapsto> n\<lparr>sn_LastSeen := now\<rparr>))\<rparr>))"

section \<open>The channel of changes\<close>

definition emit :: "change_event \<Rightarrow> live_graph \<Rightarrow> live_graph" where
  "emit ev g =
     g\<lparr>lg_changes := (if length (lg_changes g) < 256 then lg_changes g @ [ev] else tl (lg_changes g) @ [ev])\<rparr>"

section \<open>Eviction\<close>

definition colder :: "(edge_key \<Rightarrow> 64 word) \<Rightarrow> edge_key \<times> edge \<Rightarrow> edge_key \<times> edge \<Rightarrow> bool" where
  "colder seq a b =
     (if ed_Calls (snd a) \<noteq> ed_Calls (snd b) then ed_Calls (snd a) < ed_Calls (snd b)
      else if ed_LastSeen (snd a) \<noteq> ed_LastSeen (snd b) then ed_LastSeen (snd a) < ed_LastSeen (snd b)
      else seq (fst a) < seq (fst b))"

fun victim_scan :: "(edge_key \<Rightarrow> 64 word) \<Rightarrow> (edge_key \<times> edge) option \<Rightarrow> (edge_key \<times> edge) list
    \<Rightarrow> (edge_key \<times> edge) option" where
  "victim_scan seq best [] = best"
| "victim_scan seq best (x # xs) =
     (case best of
        None \<Rightarrow> victim_scan seq (Some x) xs
      | Some v \<Rightarrow> if colder seq x v then victim_scan seq (Some x) xs else victim_scan seq best xs)"

lemma victim_scan_in: "victim_scan seq best xs = Some v \<Longrightarrow> best = Some v \<or> v \<in> set xs"
  by (induction xs arbitrary: best) (auto split: option.splits if_splits)

definition evict :: "edge_key \<times> edge \<Rightarrow> live_graph \<Rightarrow> live_graph" where
  "evict v g =
     g\<lparr>lg_edges := AList.delete (fst v) (lg_edges g), lg_insertSeq := (lg_insertSeq g)(fst v := 0),
       lg_lastNewEmit := (lg_lastNewEmit g)(fst v := None), lg_ops := (lg_ops g)(ed_ID (snd v) := None),
       lg_evicted := wrap64 (lg_evicted g + 1)\<rparr>"

lemma length_delete_less: "k \<in> fst ` set xs \<Longrightarrow> length (AList.delete k xs) < length xs"
  by (induction xs) (auto simp: le_imp_less_Suc length_delete_le)

text \<open>The loop of \<open>evictIfNeeded\<close>.\<close>

function evict_loop :: "live_graph \<Rightarrow> live_graph" where
  "evict_loop g =
     (if int (length (lg_edges g)) > lg_maxEdges g then
        (case victim_scan (lg_insertSeq g) None (lg_edges g) of
           None \<Rightarrow> g
         | Some v \<Rightarrow> evict_loop (evict v g))
      else g)"
  by pat_completeness auto
termination
proof (relation "measure (\<lambda>g. length (lg_edges g))")
  fix g :: live_graph and v
  assume "victim_scan (lg_insertSeq g) None (lg_edges g) = Some v"
  then have "fst v \<in> fst ` set (lg_edges g)" by (auto dest: victim_scan_in)
  then show "(evict v g, g) \<in> measure (\<lambda>g. length (lg_edges g))" by (simp add: evict_def length_delete_less)
qed simp

declare evict_loop.simps [simp del]

definition evictIfNeeded :: "live_graph \<Rightarrow> live_graph" where
  "evictIfNeeded g = (if lg_maxEdges g \<le> 0 then g else evict_loop g)"

section \<open>Consume\<close>

definition new_edge :: "edge_key \<Rightarrow> gotime \<Rightarrow> edge" where
  "new_edge key ts =
     (case key of (tid, caller, callee, protocol) \<Rightarrow>
        \<lparr>ed_ID = edgeIDFor caller callee protocol, ed_Tenant = tid, ed_Caller = caller, ed_Callee = callee,
         ed_Protocol = protocol, ed_BucketStart = 0, ed_Resolution = Res10s, ed_Calls = 0, ed_Errors = 0,
         ed_DurationSumNanos = 0, ed_Hist = replicate 16 0, ed_ExemplarTraceIDs = [], ed_FirstSeen = ts,
         ed_LastSeen = 0, ed_IsNew = False, ed_IsVanished = False\<rparr>)"

definition count_edge :: "gotime \<Rightarrow> 64 word \<Rightarrow> bool \<Rightarrow> edge \<Rightarrow> edge" where
  "count_edge ts d isErr e =
     e\<lparr>ed_Calls := ed_Calls e + 1, ed_Errors := (if isErr then ed_Errors e + 1 else ed_Errors e),
       ed_DurationSumNanos := ed_DurationSumNanos e + d, ed_Hist := addToHist d (ed_Hist e),
       ed_LastSeen := ts, ed_BucketStart := time_truncate ts (10 * second), ed_IsVanished := False\<rparr>"

definition count_op :: "tenant_id \<Rightarrow> string \<Rightarrow> string \<Rightarrow> gotime \<Rightarrow> 64 word \<Rightarrow> bool \<Rightarrow> (string \<times> edge_op) list
    \<Rightarrow> (string \<times> edge_op) list" where
  "count_op tid i operation ts d isErr ops =
     (let op = (case map_of ops operation of
                  Some op \<Rightarrow> op
                | None \<Rightarrow> \<lparr>eo_Tenant = tid, eo_EdgeID = i, eo_CalleeOperation = operation,
                           eo_BucketStart = time_truncate ts hour, eo_Calls = 0, eo_Errors = 0, eo_P99Nanos = 0\<rparr>)
      in AList.update operation
           (op\<lparr>eo_Calls := eo_Calls op + 1, eo_Errors := (if isErr then eo_Errors op + 1 else eo_Errors op),
               eo_P99Nanos := (if d > eo_P99Nanos op then d else eo_P99Nanos op)\<rparr>) ops)"

text \<open>An existing or a new edge counts the span; a new edge may evict others, or itself.\<close>

definition count_call_on :: "edge_key \<Rightarrow> gotime \<Rightarrow> span \<Rightarrow> live_graph \<Rightarrow> live_graph \<times> edge" where
  "count_call_on key ts s g =
     (let isErr = (st_Code (sp_Status s) = StatusError);
          d = spanDurationNanos s
      in case map_of (lg_edges g) key of
           Some e0 \<Rightarrow>
             (let e = count_edge ts d isErr e0 in (g\<lparr>lg_edges := AList.update key e (lg_edges g)\<rparr>, e))
         | None \<Rightarrow>
             (let e = count_edge ts d isErr (new_edge key ts)
              in (evictIfNeeded (g\<lparr>lg_edges := AList.update key e (lg_edges g), lg_nextSeq := lg_nextSeq g + 1,
                                   lg_insertSeq := (lg_insertSeq g)(key := lg_nextSeq g + 1)\<rparr>), e)))"

definition note_sighting :: "edge_key \<Rightarrow> gotime \<Rightarrow> edge \<Rightarrow> live_graph \<Rightarrow> live_graph \<times> edge" where
  "note_sighting key ts e g =
     (let isNew = (case lg_lastNewEmit g key of None \<Rightarrow> True | Some t \<Rightarrow> time_sub ts t > lg_newEdgeWindow g);
          e' = e\<lparr>ed_IsNew := isNew\<rparr>
      in (g\<lparr>lg_edges := (if map_of (lg_edges g) key = None then lg_edges g else AList.update key e' (lg_edges g)),
            lg_lastNewEmit := (lg_lastNewEmit g)(key \<mapsto> ts)\<rparr>, e'))"

definition note_operation :: "edge_key \<Rightarrow> string \<Rightarrow> gotime \<Rightarrow> span \<Rightarrow> edge \<Rightarrow> live_graph \<Rightarrow> live_graph" where
  "note_operation key operation ts s e g =
     (if operation = [] then g
      else
       (let ops = (case lg_ops g (ed_ID e) of None \<Rightarrow> [] | Some ops \<Rightarrow> ops)
        in g\<lparr>lg_ops := (lg_ops g)(ed_ID e \<mapsto>
               count_op (fst key) (ed_ID e) operation ts (spanDurationNanos s) (st_Code (sp_Status s) = StatusError) ops)\<rparr>))"

definition upsert_key :: "tenant_id \<Rightarrow> string \<Rightarrow> string \<Rightarrow> string \<Rightarrow> edge_key" where
  "upsert_key tid caller callee protocol =
     (tid, caller, callee, if caller \<noteq> [] \<and> caller = callee then ''internal'' else protocol)"

definition upsertEdge :: "tenant_id \<Rightarrow> string \<Rightarrow> string \<Rightarrow> string \<Rightarrow> string \<Rightarrow> gotime \<Rightarrow> span \<Rightarrow> live_graph
    \<Rightarrow> live_graph" where
  "upsertEdge tid caller callee protocol operation ts s g =
     (let key = upsert_key tid caller callee protocol;
          (g1, e1) = count_call_on key ts s g;
          (g2, e2) = note_sighting key ts e1 g1;
          g3 = note_operation key operation ts s e2 g2
      in if ed_IsNew e2 then emit \<lparr>ce_Kind = NewEdge, ce_Edge = e2, ce_Detected = ts\<rparr> g3 else g3)"

definition put_pending :: "tenant_id \<Rightarrow> string \<Rightarrow> gotime \<Rightarrow> span \<Rightarrow> live_graph \<Rightarrow> live_graph" where
  "put_pending tid service now s g =
     g\<lparr>lg_pending := AList.update (tid, sp_TraceID s, sp_SpanID s)
         \<lparr>pn_Service = service, pn_Protocol = protocolOf (sp_Attrs s), pn_Timestamp = now\<rparr> (lg_pending g)\<rparr>"

definition take_pending :: "tenant_id \<Rightarrow> span \<Rightarrow> live_graph \<Rightarrow> live_graph \<times> pending_span option" where
  "take_pending tid s g =
     (let key = (tid, sp_TraceID s, sp_ParentSpanID s) in
      case map_of (lg_pending g) key of
        None \<Rightarrow> (g, None)
      | Some p \<Rightarrow> (g\<lparr>lg_pending := AList.delete key (lg_pending g)\<rparr>, Some p))"

definition consume_span :: "tenant_id \<Rightarrow> gotime \<Rightarrow> span \<Rightarrow> live_graph \<Rightarrow> live_graph" where
  "consume_span tid now s g0 =
     (let service = spanService s;
          g = ensureService tid service now g0
      in if sp_Kind s = SpanKindClient \<or> sp_Kind s = SpanKindProducer then
           (case extractPeer (sp_Attrs s) of
              (callee, protocol) \<Rightarrow>
                if callee \<noteq> [] then upsertEdge tid service callee protocol (sp_Name s) now s g
                else put_pending tid service now s g)
         else if sp_Kind s = SpanKindServer \<or> sp_Kind s = SpanKindConsumer then
           (case take_pending tid s g of
              (g1, Some p) \<Rightarrow> upsertEdge tid (pn_Service p) service (pn_Protocol p) (sp_Name s) now s g1
            | (g1, None) \<Rightarrow> upsertEdge tid ''external'' service ''unknown'' (sp_Name s) now s g1)
         else g)"

definition Topology_Consume :: "tenant_id \<Rightarrow> gotime \<Rightarrow> span list \<Rightarrow> live_graph \<Rightarrow> live_graph" where
  "Topology_Consume tid now spans g = foldl (\<lambda>g s. consume_span tid now s g) g spans"

section \<open>The sweeps\<close>

definition vanished_now :: "gotime \<Rightarrow> live_graph \<Rightarrow> edge \<Rightarrow> bool" where
  "vanished_now now g e = (\<not> ed_IsVanished e \<and> time_sub now (ed_LastSeen e) > lg_vanishWindow g)"

definition sweepVanished :: "gotime \<Rightarrow> live_graph \<Rightarrow> live_graph \<times> change_event list" where
  "sweepVanished now g =
     (let gone = filter (vanished_now now g) (map snd (lg_edges g));
          events = map (\<lambda>e. \<lparr>ce_Kind = VanishedEdge, ce_Edge = e\<lparr>ed_IsVanished := True\<rparr>, ce_Detected = now\<rparr>) gone;
          g1 = g\<lparr>lg_edges := map (\<lambda>(k, e). (k, if vanished_now now g e then e\<lparr>ed_IsVanished := True\<rparr> else e)) (lg_edges g)\<rparr>
      in (foldl (\<lambda>g ev. emit ev g) g1 events, events))"

definition sweepPending :: "gotime \<Rightarrow> live_graph \<Rightarrow> live_graph \<times> nat" where
  "sweepPending now g =
     (let old = (\<lambda>(k, p). time_sub now (pn_Timestamp p) > lg_pendingTTL g)
      in (g\<lparr>lg_pending := filter (\<lambda>x. \<not> old x) (lg_pending g)\<rparr>, length (filter old (lg_pending g))))"

section \<open>Queries\<close>

definition Has :: "tenant_id \<Rightarrow> string \<Rightarrow> live_graph \<Rightarrow> bool" where
  "Has tid service g = (lg_services g tid service \<noteq> None)"

definition tenant_edges :: "tenant_id \<Rightarrow> live_graph \<Rightarrow> edge list" where
  "tenant_edges tid g = map snd (filter (\<lambda>(k, e). fst k = tid) (lg_edges g))"

text \<open>The variables of \<open>Neighbors\<close>; \<open>nw_next\<close> is the next frontier.\<close>

record nb_walk =
  nw_visited :: "(string \<times> int) list"
  nw_up :: "string list"
  nw_down :: "string list"
  nw_edges :: "edge list"
  nw_next :: "string list"

definition nb_down :: "int \<Rightarrow> direction \<Rightarrow> string \<Rightarrow> edge \<Rightarrow> nb_walk \<Rightarrow> nb_walk" where
  "nb_down h dir s e n =
     (if (dir = Downstream \<or> dir = Both) \<and> ed_Caller e = s then
        (let n1 = n\<lparr>nw_edges := nw_edges n @ [e]\<rparr> in
         if map_of (nw_visited n1) (ed_Callee e) = None then
           n1\<lparr>nw_visited := AList.update (ed_Callee e) h (nw_visited n1), nw_down := nw_down n1 @ [ed_Callee e],
              nw_next := nw_next n1 @ [ed_Callee e]\<rparr>
         else n1)
      else n)"

definition nb_up :: "int \<Rightarrow> direction \<Rightarrow> string \<Rightarrow> edge \<Rightarrow> nb_walk \<Rightarrow> nb_walk" where
  "nb_up h dir s e n =
     (if (dir = Upstream \<or> dir = Both) \<and> ed_Callee e = s then
        (let n1 = n\<lparr>nw_edges := nw_edges n @ [e]\<rparr> in
         if map_of (nw_visited n1) (ed_Caller e) = None then
           n1\<lparr>nw_visited := AList.update (ed_Caller e) h (nw_visited n1), nw_up := nw_up n1 @ [ed_Caller e],
              nw_next := nw_next n1 @ [ed_Caller e]\<rparr>
         else n1)
      else n)"

definition nb_round :: "edge list \<Rightarrow> int \<Rightarrow> direction \<Rightarrow> string list \<Rightarrow> nb_walk \<Rightarrow> nb_walk" where
  "nb_round es h dir frontier n =
     foldl (\<lambda>n s. foldl (\<lambda>n e. nb_up h dir s e (nb_down h dir s e n)) n es) n frontier"

function nb_loop :: "edge list \<Rightarrow> int \<Rightarrow> int \<Rightarrow> direction \<Rightarrow> string list \<Rightarrow> nb_walk \<Rightarrow> nb_walk" where
  "nb_loop es h hops dir frontier n =
     (if h \<le> hops \<and> frontier \<noteq> [] then
        (let n' = nb_round es h dir frontier (n\<lparr>nw_next := []\<rparr>) in nb_loop es (h + 1) hops dir (nw_next n') n')
      else n)"
  by pat_completeness auto
termination by (relation "measure (\<lambda>(es, h, hops, dir, frontier, n). nat (hops + 1 - h))") auto

declare nb_loop.simps [simp del]

definition Neighbors :: "tenant_id \<Rightarrow> string \<Rightarrow> int \<Rightarrow> direction \<Rightarrow> live_graph \<Rightarrow> neighborhood" where
  "Neighbors tid service hops dir g =
     (let n = nb_loop (tenant_edges tid g) 1 hops dir [service]
                \<lparr>nw_visited = [(service, 0)], nw_up = [], nw_down = [], nw_edges = [], nw_next = []\<rparr>
      in \<lparr>nh_Root = service, nh_Upstream = nw_up n, nh_Downstream = nw_down n, nh_Edges = nw_edges n,
          nh_HopOf = nw_visited n\<rparr>)"

text \<open>\<open>Distance\<close>: one round over the frontier, which ends early (\<open>None\<close>) when the target is met.\<close>

definition other_end :: "string \<Rightarrow> edge \<Rightarrow> string option" where
  "other_end s e =
     (if s = ed_Caller e then Some (ed_Callee e) else if s = ed_Callee e then Some (ed_Caller e) else None)"

fun scan_edges :: "string \<Rightarrow> string \<Rightarrow> edge list \<Rightarrow> string set \<times> string list \<Rightarrow> (string set \<times> string list) option" where
  "scan_edges b s [] vn = Some vn"
| "scan_edges b s (e # es) vn =
     (case other_end s e of
        None \<Rightarrow> scan_edges b s es vn
      | Some x \<Rightarrow>
          if x = b then None
          else if x \<notin> fst vn then scan_edges b s es (insert x (fst vn), snd vn @ [x])
          else scan_edges b s es vn)"

fun scan_frontier :: "string \<Rightarrow> edge list \<Rightarrow> string list \<Rightarrow> string set \<times> string list \<Rightarrow> (string set \<times> string list) option" where
  "scan_frontier b es [] vn = Some vn"
| "scan_frontier b es (s # ss) vn =
     (case scan_edges b s es vn of None \<Rightarrow> None | Some vn' \<Rightarrow> scan_frontier b es ss vn')"

function dist_loop :: "string \<Rightarrow> edge list \<Rightarrow> int \<Rightarrow> int \<Rightarrow> string set \<Rightarrow> string list \<Rightarrow> int \<times> bool" where
  "dist_loop b es h maxHops visited frontier =
     (if h \<le> maxHops then
        (case scan_frontier b es frontier (visited, []) of
           None \<Rightarrow> (h, True)
         | Some (visited', next) \<Rightarrow> dist_loop b es (h + 1) maxHops visited' next)
      else (0, False))"
  by pat_completeness auto
termination by (relation "measure (\<lambda>(b, es, h, m, v, f). nat (m + 1 - h))") auto

declare dist_loop.simps [simp del]

definition Distance :: "tenant_id \<Rightarrow> string \<Rightarrow> string \<Rightarrow> int \<Rightarrow> live_graph \<Rightarrow> int \<times> bool" where
  "Distance tid a b maxHops g =
     (if a = b then (0, True) else dist_loop b (tenant_edges tid g) 1 maxHops {a} [a])"

definition Edges :: "tenant_id \<Rightarrow> gotime \<times> gotime \<Rightarrow> live_graph \<Rightarrow> edge list" where
  "Edges tid w g =
     filter (\<lambda>e. \<not> (fst w \<noteq> 0 \<and> ed_LastSeen e < fst w) \<and> \<not> (snd w \<noteq> 0 \<and> ed_FirstSeen e > snd w)) (tenant_edges tid g)"

text \<open>\<open>sort.Slice\<close> leaves the order of operations with equal calls open; the map order is as open.\<close>

definition EdgeOps :: "tenant_id \<Rightarrow> string \<Rightarrow> int \<Rightarrow> live_graph \<Rightarrow> edge_op list" where
  "EdgeOps tid edgeID topN g =
     (case lg_ops g edgeID of
        None \<Rightarrow> []
      | Some ops \<Rightarrow>
          (let out = sort_key (\<lambda>op. - uint (eo_Calls op)) (filter (\<lambda>op. eo_Tenant op = tid) (map snd ops))
           in if topN > 0 \<and> int (length out) > topN then take (nat topN) out else out))"

definition Snapshot :: "tenant_id \<Rightarrow> gotime \<Rightarrow> live_graph \<Rightarrow> topology_snapshot" where
  "Snapshot tid now g = \<lparr>ts_Tenant = tid, ts_At = now, ts_Edges = tenant_edges tid g\<rparr>"

definition show_word :: "64 word \<Rightarrow> string" where "show_word w = show_nat (unat w)"

definition dot_line :: "edge \<Rightarrow> string" where
  "dot_line e =
     ''  '' @ go_quote (ed_Caller e) @ '' -> '' @ go_quote (ed_Callee e) @ '' [protocol='' @ go_quote (ed_Protocol e)
     @ '' calls='' @ show_word (ed_Calls e) @ ''];'' @ [CHR 0x0A]"

definition Export :: "(topology_snapshot \<Rightarrow> string + string) \<Rightarrow> tenant_id \<Rightarrow> gotime \<Rightarrow> string \<Rightarrow> live_graph \<Rightarrow> string + string" where
  "Export encode tid now f g =
     (let snap = Snapshot tid now g in
      if f = ''dot'' then
        Inr (''digraph topology {'' @ [CHR 0x0A] @ concat (map dot_line (ts_Edges snap)) @ ''}'' @ [CHR 0x0A])
      else if f = ''json'' \<or> f = [] then encode snap
      else Inl (''topology: unsupported export format '' @ go_quote f))"

definition Topology_Stats :: "live_graph \<Rightarrow> topology_stats" where
  "Topology_Stats g =
     \<lparr>tg_EdgeCount = length (lg_edges g), tg_EdgesEvicted = lg_evicted g, tg_OpenBuckets = length (lg_pending g)\<rparr>"

section \<open>Persistence\<close>

type_synonym 's edge_sink = "'s \<Rightarrow> tenant_id \<Rightarrow> edge list \<Rightarrow> 's \<times> string option"

definition by_tenant :: "live_graph \<Rightarrow> (tenant_id \<times> edge list) list" where
  "by_tenant g =
     map (\<lambda>t. (t, filter (\<lambda>e. ed_Tenant e = t) (map snd (lg_edges g)))) (remdups (map (\<lambda>x. ed_Tenant (snd x)) (lg_edges g)))"

fun write_edges :: "'s edge_sink \<Rightarrow> (tenant_id \<times> edge list) list \<Rightarrow> 's \<Rightarrow> 's \<times> string option" where
  "write_edges sink [] s = (s, None)"
| "write_edges sink ((t, es) # rest) s =
     (case sink s t es of (s', Some err) \<Rightarrow> (s', Some err) | (s', None) \<Rightarrow> write_edges sink rest s')"

definition Topology_Flush :: "'s edge_sink option \<Rightarrow> live_graph \<Rightarrow> 's \<Rightarrow> 's \<times> string option" where
  "Topology_Flush sink g s = (case sink of None \<Rightarrow> (s, None) | Some f \<Rightarrow> write_edges f (by_tenant g) s)"

definition install_edge :: "edge \<Rightarrow> live_graph \<Rightarrow> live_graph" where
  "install_edge e g =
     (let key = (ed_Tenant e, ed_Caller e, ed_Callee e, ed_Protocol e);
          g1 = (if map_of (lg_edges g) key = None then
                  g\<lparr>lg_nextSeq := lg_nextSeq g + 1, lg_insertSeq := (lg_insertSeq g)(key := lg_nextSeq g + 1)\<rparr>
                else g)
      in g1\<lparr>lg_edges := AList.update key e (lg_edges g1)\<rparr>)"

definition WarmStart :: "(string + edge list) option \<Rightarrow> live_graph \<Rightarrow> live_graph \<times> string option" where
  "WarmStart loaded g =
     (case loaded of
        None \<Rightarrow> (g, None)
      | Some (Inl err) \<Rightarrow> (g, Some err)
      | Some (Inr es) \<Rightarrow> (evictIfNeeded (foldl (\<lambda>g e. install_edge e g) g es), None))"

text \<open>\<open>Run\<close>: the ticks its select receives until the context ends; a failing flush is ignored.\<close>

datatype topo_tick = FlushTick | VanishTick gotime | PendingTick gotime

definition run_tick :: "'s edge_sink option \<Rightarrow> topo_tick \<Rightarrow> live_graph \<times> 's \<Rightarrow> live_graph \<times> 's" where
  "run_tick sink t gs =
     (case t of
        FlushTick \<Rightarrow> (fst gs, fst (Topology_Flush sink (fst gs) (snd gs)))
      | VanishTick now \<Rightarrow> (fst (sweepVanished now (fst gs)), snd gs)
      | PendingTick now \<Rightarrow> (fst (sweepPending now (fst gs)), snd gs))"

definition Topology_Run :: "'s edge_sink option \<Rightarrow> topo_tick list \<Rightarrow> live_graph \<times> 's \<Rightarrow> live_graph \<times> 's" where
  "Topology_Run sink ticks gs = foldl (\<lambda>gs t. run_tick sink t gs) gs ticks"

section \<open>internal/api/topology_adapter.go\<close>

fun merge_names :: "string list \<Rightarrow> string list \<Rightarrow> string list" where
  "merge_names out [] = out"
| "merge_names out (s # ss) = (if s \<in> set out then merge_names out ss else merge_names (out @ [s]) ss)"

definition direction_of :: "8 word \<Rightarrow> direction" where
  "direction_of d =
     (if d = 1 then Upstream else if d = 2 then Downstream else if d = 3 then Both else DirectionUndeclared d)"

definition anomaly_Neighbors :: "tenant_id \<Rightarrow> string \<Rightarrow> int \<Rightarrow> 8 word \<Rightarrow> live_graph \<Rightarrow> string list" where
  "anomaly_Neighbors tid service hops dir g =
     (let nb = Neighbors tid service hops (direction_of dir) g in merge_names [] (nh_Upstream nb @ nh_Downstream nb))"

end
