(* ===== verification/TopologyPaths.thy ===== *)
theory TopologyPaths
  imports Topology
begin

text \<open>
  Breadth-first search: the two searches of the live graph, \<open>Distance\<close> and \<open>Neighbors\<close>, visit round by
  round the nodes at each distance, so that what they report are lengths of shortest paths.
\<close>

section \<open>Balls and rings of a relation\<close>

definition ball :: "('a \<Rightarrow> 'a \<Rightarrow> bool) \<Rightarrow> 'a \<Rightarrow> nat \<Rightarrow> 'a set" where
  "ball R a k = {y. \<exists>n \<le> k. (R ^^ n) a y}"

definition ring :: "('a \<Rightarrow> 'a \<Rightarrow> bool) \<Rightarrow> 'a \<Rightarrow> nat \<Rightarrow> 'a set" where
  "ring R a k = {y. (R ^^ k) a y \<and> (\<forall>n < k. \<not> (R ^^ n) a y)}"

lemma ball_0 [simp]: "ball R a 0 = {a}" and ring_0 [simp]: "ring R a 0 = {a}"
  by (auto simp: ball_def ring_def)

lemma ring_ball: "ring R a k \<subseteq> ball R a k"
  by (auto simp: ball_def ring_def)

lemma ball_ring: "y \<in> ball R a k \<longleftrightarrow> (\<exists>n \<le> k. y \<in> ring R a n)"
proof
  assume "y \<in> ball R a k"
  then obtain n where n: "n \<le> k" "(R ^^ n) a y" by (auto simp: ball_def)
  define m where "m = (LEAST n. (R ^^ n) a y)"
  have "(R ^^ m) a y" "m \<le> n" unfolding m_def using n(2) by (auto intro: LeastI Least_le)
  moreover have "\<forall>i < m. \<not> (R ^^ i) a y" unfolding m_def using not_less_Least by blast
  ultimately show "\<exists>n \<le> k. y \<in> ring R a n" using n(1) by (intro exI [of _ m]) (simp add: ring_def)
qed (auto simp: ball_def ring_def)

lemma ring_unique: "y \<in> ring R a m \<Longrightarrow> y \<in> ring R a n \<Longrightarrow> m = n"
  unfolding ring_def by (cases m n rule: linorder_cases) auto

lemma ball_Suc: "ball R a (Suc k) = ball R a k \<union> {y. \<exists>x \<in> ring R a k. R x y}"
proof (intro set_eqI iffI)
  fix y
  assume "y \<in> ball R a (Suc k)"
  then obtain n where n: "n \<le> Suc k" "(R ^^ n) a y" by (auto simp: ball_def)
  show "y \<in> ball R a k \<union> {y. \<exists>x \<in> ring R a k. R x y}"
  proof (cases "n \<le> k")
    case True
    with n(2) show ?thesis by (auto simp: ball_def)
  next
    case False
    with n have "(R ^^ Suc k) a y" by (metis le_SucE)
    then obtain x where x: "(R ^^ k) a x" "R x y" by auto
    then have "x \<in> ball R a k" by (auto simp: ball_def)
    then obtain m where m: "m \<le> k" "x \<in> ring R a m" by (auto simp: ball_ring)
    show ?thesis
    proof (cases "m = k")
      case True
      with m x show ?thesis by auto
    next
      case False
      with m have "Suc m \<le> k" "(R ^^ Suc m) a y" using x(2) by (auto simp: ring_def)
      then show ?thesis unfolding ball_def by blast
    qed
  qed
next
  fix y
  assume "y \<in> ball R a k \<union> {y. \<exists>x \<in> ring R a k. R x y}"
  then show "y \<in> ball R a (Suc k)"
  proof
    assume "y \<in> ball R a k"
    then show ?thesis by (auto simp: ball_def intro: le_SucI)
  next
    assume "y \<in> {y. \<exists>x \<in> ring R a k. R x y}"
    then have "(R ^^ Suc k) a y" by (auto simp: ring_def)
    then show ?thesis unfolding ball_def by blast
  qed
qed

lemma ring_Suc: "ring R a (Suc k) = ball R a (Suc k) - ball R a k"
proof (intro set_eqI iffI)
  fix y
  assume y: "y \<in> ring R a (Suc k)"
  then have "n = Suc k" if "y \<in> ring R a n" for n using ring_unique [OF y that] by simp
  then have "y \<notin> ball R a k" unfolding ball_ring by (metis Suc_n_not_le_n)
  moreover have "y \<in> ball R a (Suc k)" using y ring_ball [of R a "Suc k"] by blast
  ultimately show "y \<in> ball R a (Suc k) - ball R a k" by blast
next
  fix y
  assume "y \<in> ball R a (Suc k) - ball R a k"
  then show "y \<in> ring R a (Suc k)" by (auto simp: ball_ring le_Suc_eq)
qed

lemma ring_step: "ring R a (Suc k) = {y. \<exists>x \<in> ring R a k. R x y} - ball R a k"
  unfolding ring_Suc ball_Suc by blast

section \<open>Distance\<close>

text \<open>Two services are linked by an edge in either direction.\<close>

definition link :: "edge list \<Rightarrow> string \<Rightarrow> string \<Rightarrow> bool" where
  "link es x y \<longleftrightarrow> (\<exists>e \<in> set es. (ed_Caller e = x \<and> ed_Callee e = y) \<or> (ed_Callee e = x \<and> ed_Caller e = y))"

lemma link_other_end: "link es x y \<longleftrightarrow> (\<exists>e \<in> set es. other_end x e = Some y)"
  by (auto simp: link_def other_end_def)

lemma scan_edges_cases:
  "case scan_edges b s es (V, nx) of
     None \<Rightarrow> link es s b
   | Some (V', nx') \<Rightarrow> \<not> link es s b \<and> V' = V \<union> {y. link es s y} \<and> set nx' = set nx \<union> ({y. link es s y} - V)"
proof (induction es arbitrary: V nx)
  case (Cons e es)
  have l: "link (e # es) s y \<longleftrightarrow> other_end s e = Some y \<or> link es s y" for y by (auto simp: link_other_end)
  show ?case
  proof (cases "other_end s e")
    case None
    then have same: "link (e # es) s = link es s" by (simp add: l fun_eq_iff)
    from Cons.IH [of V nx] show ?thesis unfolding scan_edges.simps None option.case(1) same .
  next
    case (Some x)
    show ?thesis
    proof (cases "x = b")
      case True
      with Some show ?thesis by (simp add: l)
    next
      case False
      have L: "{y. link (e # es) s y} = insert x {y. link es s y}" using Some by (auto simp: l)
      have nb: "link (e # es) s b \<longleftrightarrow> link es s b" using Some False by (simp add: l)
      show ?thesis
      proof (cases "x \<in> V")
        case True
        have go: "scan_edges b s (e # es) (V, nx) = scan_edges b s es (V, nx)" using Some False True by simp
        show ?thesis
        proof (cases "scan_edges b s es (V, nx)")
          case None
          with Cons.IH [of V nx] show ?thesis by (simp only: go option.case nb)
        next
          case (Some p)
          with Cons.IH [of V nx] show ?thesis
            unfolding go L nb Un_insert_right insert_Diff_if using True by (cases p) (simp add: insert_absorb)
        qed
      next
        case out: False
        have go: "scan_edges b s (e # es) (V, nx) = scan_edges b s es (insert x V, nx @ [x])" using Some False out by simp
        show ?thesis
        proof (cases "scan_edges b s es (insert x V, nx @ [x])")
          case None
          with Cons.IH [of "insert x V" "nx @ [x]"] show ?thesis by (simp only: go option.case nb)
        next
          case (Some p)
          obtain V' nx' where p: "p = (V', nx')" by force
          from Cons.IH [of "insert x V" "nx @ [x]"] have "\<not> link es s b" "V' = insert x V \<union> {y. link es s y}"
            "set nx' = set (nx @ [x]) \<union> ({y. link es s y} - insert x V)" unfolding Some p by simp_all
          moreover have "insert x V \<union> A = V \<union> insert x A" "set (nx @ [x]) \<union> (A - insert x V) = set nx \<union> (insert x A - V)" for A
            using out by auto
          ultimately show ?thesis unfolding go L nb Some p by simp
        qed
      qed
    qed
  qed
next
  case Nil
  have "link [] s = (\<lambda>y. False)" by (simp add: link_other_end fun_eq_iff)
  then show ?case by simp
qed

lemma scan_frontier_cases:
  "case scan_frontier b es fr (V, nx) of
     None \<Rightarrow> \<exists>s \<in> set fr. link es s b
   | Some (V', nx') \<Rightarrow> (\<forall>s \<in> set fr. \<not> link es s b) \<and> V' = V \<union> {y. \<exists>s \<in> set fr. link es s y}
       \<and> set nx' = set nx \<union> ({y. \<exists>s \<in> set fr. link es s y} - V)"
proof (induction fr arbitrary: V nx)
  case (Cons s fr)
  show ?case
  proof (cases "scan_edges b s es (V, nx)")
    case None
    with scan_edges_cases [where b = b and s = s and es = es and V = V and nx = nx] show ?thesis by simp
  next
    case (Some p)
    obtain V1 nx1 where p: "p = (V1, nx1)" by force
    with Some scan_edges_cases [where b = b and s = s and es = es and V = V and nx = nx] have 1: "\<not> link es s b" "V1 = V \<union> {y. link es s y}"
      "set nx1 = set nx \<union> ({y. link es s y} - V)" by simp_all
    with Some p Cons.IH [of V1 nx1] show ?thesis
      by (cases "scan_frontier b es fr (V1, nx1)") auto
  qed
qed simp

lemma dist_loop_correct:
  assumes "V = ball (link es) a k" and "set fr = ring (link es) a k" and "b \<notin> V"
  shows "case dist_loop b es (int k + 1) m V fr of
     (d, True) \<Rightarrow> \<exists>n. d = int n \<and> d \<le> m \<and> b \<in> ring (link es) a n
   | (d, False) \<Rightarrow> d = 0 \<and> (\<forall>n. int n \<le> m \<longrightarrow> b \<notin> ring (link es) a n)"
  using assms
proof (induction "nat (m - int k)" arbitrary: k V fr)
  case 0
  have "\<not> int k + 1 \<le> m" using "0.hyps" by auto
  moreover have "b \<notin> ring (link es) a n" if "int n \<le> m" for n
    using "0.prems" that \<open>\<not> int k + 1 \<le> m\<close> by (auto simp: ball_ring)
  ultimately show ?case by (simp add: dist_loop.simps)
next
  case (Suc x)
  then have le: "int k + 1 \<le> m" by auto
  note sc = scan_frontier_cases [where b = b and es = es and fr = fr and V = V and nx = "[]"]
  show ?case
  proof (cases "scan_frontier b es fr (V, [])")
    case None
    with sc have "\<exists>s \<in> ring (link es) a k. link es s b" by (simp add: Suc.prems)
    then have "b \<in> ring (link es) a (Suc k)" using Suc.prems(1,3) by (auto simp: ring_step)
    then have "\<exists>n. int k + 1 = int n \<and> int k + 1 \<le> m \<and> b \<in> ring (link es) a n"
      by (intro exI [of _ "Suc k"]) (use le in simp)
    with None le show ?thesis by (simp add: dist_loop.simps)
  next
    case (Some p)
    obtain V' nx where p: "p = (V', nx)" by force
    with Some sc have st: "\<forall>s \<in> set fr. \<not> link es s b" "V' = V \<union> {y. \<exists>s \<in> set fr. link es s y}"
      "set nx = {y. \<exists>s \<in> set fr. link es s y} - V" by simp_all
    have "x = nat (m - int (Suc k))" using Suc.hyps(2) by simp
    moreover have "V' = ball (link es) a (Suc k)" using st(2) Suc.prems by (simp add: ball_Suc)
    moreover have "set nx = ring (link es) a (Suc k)" using st(3) Suc.prems by (simp add: ring_step)
    moreover have "b \<notin> V'" using st(1,2) Suc.prems(3) by auto
    ultimately have IH: "case dist_loop b es (int (Suc k) + 1) m V' nx of
       (d, True) \<Rightarrow> \<exists>n. d = int n \<and> d \<le> m \<and> b \<in> ring (link es) a n
     | (d, False) \<Rightarrow> d = 0 \<and> (\<forall>n. int n \<le> m \<longrightarrow> b \<notin> ring (link es) a n)" by (rule Suc.hyps(1))
    have "dist_loop b es (int k + 1) m V fr = dist_loop b es (int (Suc k) + 1) m V' nx"
      using le Some p by (subst dist_loop.simps) (simp add: ac_simps)
    with IH show ?thesis by presburger
  qed
qed

section \<open>Neighbors\<close>

definition arc :: "direction \<Rightarrow> edge \<Rightarrow> string \<Rightarrow> string \<Rightarrow> bool" where
  "arc dir e x y \<longleftrightarrow>
     ((dir = Downstream \<or> dir = Both) \<and> ed_Caller e = x \<and> ed_Callee e = y)
     \<or> ((dir = Upstream \<or> dir = Both) \<and> ed_Callee e = x \<and> ed_Caller e = y)"

definition arcs :: "direction \<Rightarrow> edge list \<Rightarrow> string \<Rightarrow> string \<Rightarrow> bool" where
  "arcs dir es x y \<longleftrightarrow> (\<exists>e \<in> set es. arc dir e x y)"

text \<open>What a part of a round does: names reached for the first time get hop \<open>h\<close>, and the others keep theirs.\<close>

definition reaches :: "int \<Rightarrow> string set \<Rightarrow> nb_walk \<Rightarrow> nb_walk \<Rightarrow> bool" where
  "reaches h Y n n' \<longleftrightarrow>
     (\<forall>y. map_of (nw_visited n') y =
        (case map_of (nw_visited n) y of Some d \<Rightarrow> Some d | None \<Rightarrow> if y \<in> Y then Some h else None))
     \<and> set (nw_next n') = set (nw_next n) \<union> {y \<in> Y. map_of (nw_visited n) y = None}
     \<and> set (nw_up n') \<union> set (nw_down n') = set (nw_up n) \<union> set (nw_down n) \<union> {y \<in> Y. map_of (nw_visited n) y = None}"

lemma reaches_refl: "reaches h {} n n"
  by (simp add: reaches_def split: option.splits)

lemma reaches_trans:
  assumes "reaches h Y n n'" and "reaches h Z n' n''"
  shows "reaches h (Y \<union> Z) n n''"
  using assms unfolding reaches_def by (auto split: option.splits if_splits)

lemma reaches_down: "reaches h {y. (dir = Downstream \<or> dir = Both) \<and> ed_Caller e = s \<and> ed_Callee e = y} n (nb_down h dir s e n)"
  by (auto simp: reaches_def nb_down_def Let_def split: option.splits)

lemma reaches_up: "reaches h {y. (dir = Upstream \<or> dir = Both) \<and> ed_Callee e = s \<and> ed_Caller e = y} n (nb_up h dir s e n)"
  by (auto simp: reaches_def nb_up_def Let_def split: option.splits)

lemma reaches_edges: "reaches h {y. arcs dir es s y} n (foldl (\<lambda>n e. nb_up h dir s e (nb_down h dir s e n)) n es)"
proof (induction es arbitrary: n)
  case (Cons e es)
  have one: "reaches h {y. arc dir e s y} n (nb_up h dir s e (nb_down h dir s e n))"
    using reaches_trans [OF reaches_down [of h dir e s n] reaches_up [of h dir e s]] by (simp add: arc_def Collect_disj_eq)
  have "{y. arcs dir (e # es) s y} = {y. arc dir e s y} \<union> {y. arcs dir es s y}" by (auto simp: arcs_def)
  with reaches_trans [OF one Cons.IH] show ?case by simp
next
  case Nil
  have "{y. arcs dir [] s y} = {}" by (simp add: arcs_def)
  then show ?case by (simp add: reaches_refl)
qed

lemma reaches_round: "reaches h {y. \<exists>s \<in> set fr. arcs dir es s y} n (nb_round es h dir fr n)"
  unfolding nb_round_def
proof (induction fr arbitrary: n)
  case (Cons s fr)
  have "{y. \<exists>x \<in> set (s # fr). arcs dir es x y} = {y. arcs dir es s y} \<union> {y. \<exists>x \<in> set fr. arcs dir es x y}" by auto
  with reaches_trans [OF reaches_edges Cons.IH] show ?case by simp
qed (simp add: reaches_refl)

definition hops_upto :: "(string \<Rightarrow> string \<Rightarrow> bool) \<Rightarrow> string \<Rightarrow> nat \<Rightarrow> nb_walk \<Rightarrow> bool" where
  "hops_upto R a k n \<longleftrightarrow>
     (\<forall>y d. map_of (nw_visited n) y = Some d \<longleftrightarrow> (\<exists>j \<le> k. d = int j \<and> y \<in> ring R a j))
     \<and> set (nw_up n) \<union> set (nw_down n) = ball R a k - {a}"

lemma hops_upto_ball:
  assumes "hops_upto R a k n"
  shows "map_of (nw_visited n) y = None \<longleftrightarrow> y \<notin> ball R a k"
proof -
  have "(\<exists>d. map_of (nw_visited n) y = Some d) \<longleftrightarrow> (\<exists>j \<le> k. y \<in> ring R a j)"
    using assms by (simp add: hops_upto_def)
  then show ?thesis unfolding ball_ring by (metis not_Some_eq)
qed

lemma hops_upto_round:
  assumes n: "hops_upto (arcs dir es) a k n" and fr: "set fr = ring (arcs dir es) a k"
    and r: "n' = nb_round es (int k + 1) dir fr (n\<lparr>nw_next := []\<rparr>)"
  shows "hops_upto (arcs dir es) a (Suc k) n' \<and> set (nw_next n') = ring (arcs dir es) a (Suc k)"
proof -
  let ?R = "arcs dir es"
  let ?Y = "{y. \<exists>s \<in> ring ?R a k. ?R s y}"
  have re: "reaches (int k + 1) ?Y (n\<lparr>nw_next := []\<rparr>) n'" using reaches_round [of "int k + 1" fr dir es] unfolding r fr .
  note none = hops_upto_ball [OF n]
  have new: "{y \<in> ?Y. map_of (nw_visited n) y = None} = ring ?R a (Suc k)" by (auto simp: none ring_step)
  have vis: "map_of (nw_visited n') y = Some d \<longleftrightarrow> (\<exists>j \<le> Suc k. d = int j \<and> y \<in> ring ?R a j)" for y d
  proof (cases "map_of (nw_visited n) y")
    case None
    then have out: "y \<notin> ball ?R a k" by (simp add: none)
    have "map_of (nw_visited n') y = (if y \<in> ?Y then Some (int k + 1) else None)"
      using re None by (simp add: reaches_def)
    moreover have "y \<in> ?Y \<longleftrightarrow> y \<in> ring ?R a (Suc k)" using out by (simp add: ring_step)
    moreover have "\<not> (\<exists>j \<le> k. y \<in> ring ?R a j)" using out by (simp add: ball_ring)
    ultimately show ?thesis by (auto simp: le_Suc_eq)
  next
    case (Some d0)
    then have "map_of (nw_visited n') y = Some d0" using re by (simp add: reaches_def)
    moreover from Some obtain j where j: "j \<le> k" "d0 = int j" "y \<in> ring ?R a j" using n by (auto simp: hops_upto_def)
    moreover have "i = j" if "y \<in> ring ?R a i" for i using that j(3) by (rule ring_unique)
    ultimately show ?thesis using j by (metis le_SucI option.inject)
  qed
  have "set (nw_up n') \<union> set (nw_down n') = (ball ?R a k - {a}) \<union> ring ?R a (Suc k)"
    using re n new by (simp add: reaches_def hops_upto_def)
  also have "\<dots> = ball ?R a (Suc k) - {a}"
  proof -
    have "a \<in> ball ?R a k" by (simp add: ball_def exI [of _ 0])
    moreover have "ball ?R a k \<subseteq> ball ?R a (Suc k)" by (auto simp: ball_Suc)
    ultimately show ?thesis by (auto simp: ring_Suc)
  qed
  finally show ?thesis using vis re new by (simp add: hops_upto_def reaches_def)
qed

lemma ring_empty: "ring R a k = {} \<Longrightarrow> k \<le> n \<Longrightarrow> ball R a n = ball R a k"
proof (induction n)
  case (Suc n)
  have "ring R a m = {}" if "k \<le> m" for m
    using that
  proof (induction m)
    case (Suc m)
    then show ?case by (cases "k = Suc m") (use Suc.prems \<open>ring R a k = {}\<close> in \<open>auto simp: ring_step\<close>)
  qed (use Suc.prems in auto)
  with Suc show ?case by (cases "k = Suc n") (auto simp: ball_Suc)
qed simp

lemma nb_loop_hops:
  assumes "hops_upto (arcs dir es) a k n" and "set fr = ring (arcs dir es) a k" and "int k \<le> max 0 hops"
  shows "hops_upto (arcs dir es) a (nat hops) (nb_loop es (int k + 1) hops dir fr n)"
  using assms
proof (induction "nat (hops - int k)" arbitrary: k n fr)
  case 0
  then have "k = nat hops" by auto
  moreover have "\<not> int k + 1 \<le> hops" using "0.hyps" by auto
  ultimately show ?case using "0.prems"(1) by (simp add: nb_loop.simps)
next
  case (Suc x)
  then have le: "int k + 1 \<le> hops" by auto
  show ?case
  proof (cases "fr = []")
    case True
    then have empty: "ring (arcs dir es) a k = {}" using Suc.prems(2) by simp
    have k: "k \<le> nat hops" using le by auto
    have "ball (arcs dir es) a (nat hops) = ball (arcs dir es) a k" by (rule ring_empty [OF empty k])
    moreover have "(\<exists>j \<le> nat hops. d = int j \<and> y \<in> ring (arcs dir es) a j) \<longleftrightarrow> (\<exists>j \<le> k. d = int j \<and> y \<in> ring (arcs dir es) a j)" for d y
    proof
      assume "\<exists>j \<le> nat hops. d = int j \<and> y \<in> ring (arcs dir es) a j"
      then obtain j where j: "j \<le> nat hops" "d = int j" "y \<in> ring (arcs dir es) a j" by blast
      then have "y \<in> ball (arcs dir es) a k" using calculation by (auto simp: ball_ring)
      then obtain i where "i \<le> k" "y \<in> ring (arcs dir es) a i" by (auto simp: ball_ring)
      moreover have "i = j" using calculation(2) j(3) by (rule ring_unique)
      ultimately show "\<exists>j \<le> k. d = int j \<and> y \<in> ring (arcs dir es) a j" using j(2) by blast
    qed (use k in auto)
    ultimately show ?thesis using Suc.prems(1) True by (simp add: nb_loop.simps hops_upto_def)
  next
    case False
    define n' where "n' = nb_round es (int k + 1) dir fr (n\<lparr>nw_next := []\<rparr>)"
    from hops_upto_round [OF Suc.prems(1,2) n'_def]
    have "hops_upto (arcs dir es) a (Suc k) n'" "set (nw_next n') = ring (arcs dir es) a (Suc k)" by auto
    moreover have "x = nat (hops - int (Suc k))" "int (Suc k) \<le> max 0 hops" using Suc.hyps(2) le by auto
    ultimately have "hops_upto (arcs dir es) a (nat hops) (nb_loop es (int (Suc k) + 1) hops dir (nw_next n') n')"
      by (intro Suc.hyps(1)) simp_all
    then show ?thesis using le False by (subst nb_loop.simps) (simp add: n'_def Let_def ac_simps)
  qed
qed

end
