(* ===== verification/TopologyProps.thy ===== *)
theory TopologyProps
  imports TopologyPaths Transition
begin

text \<open>
  The properties of the live graph: its bounds in every reachable state, which edges eviction removes, how
  client and server spans are joined, what the searches return, and what a restart keeps.
\<close>

section \<open>Eviction\<close>

lemma colder_trans: "colder seq a b \<Longrightarrow> colder seq b c \<Longrightarrow> colder seq a c"
  by (auto simp: colder_def split: if_splits)

lemma colder_asym: "colder seq a b \<Longrightarrow> \<not> colder seq b a"
  by (auto simp: colder_def split: if_splits)

lemma colder_total: "seq (fst a) \<noteq> seq (fst b) \<Longrightarrow> colder seq a b \<or> colder seq b a"
  by (auto simp: colder_def neq_iff split: if_splits)

lemma victim_scan_best:
  "victim_scan seq (Some b) xs = Some v \<Longrightarrow> \<not> colder seq b v \<and> (\<forall>x \<in> set xs. \<not> colder seq x v)"
proof (induction xs arbitrary: b)
  case Nil
  then show ?case by (auto simp: colder_def)
next
  case (Cons x xs)
  show ?case
  proof (cases "colder seq x b")
    case True
    with Cons have *: "\<not> colder seq x v" "\<forall>y \<in> set xs. \<not> colder seq y v" by auto
    moreover have "\<not> colder seq b v" using * colder_trans [OF True] by blast
    ultimately show ?thesis by simp
  next
    case False
    with Cons have *: "\<not> colder seq b v" "\<forall>y \<in> set xs. \<not> colder seq y v" by auto
    moreover have "\<not> colder seq x v"
    proof
      assume "colder seq x v"
      with False * show False by (auto simp: colder_def split: if_splits)
    qed
    ultimately show ?thesis by simp
  qed
qed

lemma victim_scan_total: "\<exists>v. victim_scan seq (Some b) xs = Some v"
  by (induction xs arbitrary: b) auto

lemma victim_scan_coldest:
  assumes "xs \<noteq> []"
  obtains v where "victim_scan seq None xs = Some v" and "v \<in> set xs" and "\<forall>x \<in> set xs. \<not> colder seq x v"
proof -
  from assms obtain y ys where xs: "xs = y # ys" by (cases xs) auto
  then have go: "victim_scan seq None xs = victim_scan seq (Some y) ys" by simp
  from victim_scan_total obtain v where v: "victim_scan seq (Some y) ys = Some v" by blast
  from v go have "v \<in> set xs" using victim_scan_in [of seq None xs v] by simp
  moreover have "\<forall>x \<in> set xs. \<not> colder seq x v" using victim_scan_best [OF v] by (simp add: xs)
  ultimately show thesis using v unfolding go [symmetric] by (intro that)
qed

lemma evict_fields [simp]:
  "lg_edges (evict v g) = AList.delete (fst v) (lg_edges g)" "lg_maxEdges (evict v g) = lg_maxEdges g"
  "lg_pending (evict v g) = lg_pending g" "lg_changes (evict v g) = lg_changes g" "lg_services (evict v g) = lg_services g"
  "lg_vanishWindow (evict v g) = lg_vanishWindow g" "lg_newEdgeWindow (evict v g) = lg_newEdgeWindow g"
  "lg_insertSeq (evict v g) = (lg_insertSeq g)(fst v := 0)"
  by (simp_all add: evict_def)

lemma evict_loop_keeps [simp]:
  "lg_maxEdges (evict_loop g) = lg_maxEdges g" "lg_pending (evict_loop g) = lg_pending g"
  "lg_changes (evict_loop g) = lg_changes g" "lg_services (evict_loop g) = lg_services g"
  by (induction g rule: evict_loop.induct, subst evict_loop.simps, simp split: option.splits)+

lemma evictIfNeeded_keeps [simp]:
  "lg_maxEdges (evictIfNeeded g) = lg_maxEdges g" "lg_pending (evictIfNeeded g) = lg_pending g"
  "lg_changes (evictIfNeeded g) = lg_changes g" "lg_services (evictIfNeeded g) = lg_services g"
  by (simp_all add: evictIfNeeded_def)

lemma set_delete: "distinct (keys xs) \<Longrightarrow> v \<in> set xs \<Longrightarrow> set (AList.delete (fst v) xs) = set xs - {v}"
  unfolding AList.delete_eq by (auto simp: distinct_map) (metis fst_conv inj_onD)

lemma length_delete: "distinct (keys xs) \<Longrightarrow> v \<in> set xs \<Longrightarrow> length (AList.delete (fst v) xs) = length xs - 1"
proof -
  assume a: "distinct (keys xs)" "v \<in> set xs"
  then have d: "distinct xs" by (simp add: distinct_map)
  have "distinct (AList.delete (fst v) xs)" using distinct_keys_delete [OF a(1), of "fst v"] by (simp add: distinct_map)
  then have "length (AList.delete (fst v) xs) = card (set xs - {v})" by (metis a set_delete distinct_card)
  with a(2) d show ?thesis by (simp add: distinct_card)
qed

text \<open>What the eviction loop leaves: a part of the edges, no longer than the limit.\<close>

lemma evict_loop_step:
  assumes "int (length (lg_edges g)) > lg_maxEdges g" and "0 \<le> lg_maxEdges g"
  obtains v where "victim_scan (lg_insertSeq g) None (lg_edges g) = Some v" and "v \<in> set (lg_edges g)"
    and "\<forall>x \<in> set (lg_edges g). \<not> colder (lg_insertSeq g) x v" and "evict_loop g = evict_loop (evict v g)"
proof -
  from assms have "lg_edges g \<noteq> []" by auto
  then obtain v where v: "victim_scan (lg_insertSeq g) None (lg_edges g) = Some v" "v \<in> set (lg_edges g)"
    "\<forall>x \<in> set (lg_edges g). \<not> colder (lg_insertSeq g) x v" by (rule victim_scan_coldest)
  moreover have "evict_loop g = evict_loop (evict v g)" using assms(1) v(1) by (subst evict_loop.simps) simp
  ultimately show thesis by (rule that)
qed

lemma evict_loop_stop: "\<not> int (length (lg_edges g)) > lg_maxEdges g \<Longrightarrow> evict_loop g = g"
  by (subst evict_loop.simps) simp

lemma evict_loop_shape:
  assumes "distinct (keys (lg_edges g))" and "0 \<le> lg_maxEdges g"
  shows "distinct (keys (lg_edges (evict_loop g))) \<and> set (lg_edges (evict_loop g)) \<subseteq> set (lg_edges g)
    \<and> length (lg_edges (evict_loop g)) = min (length (lg_edges g)) (nat (lg_maxEdges g))"
  using assms
proof (induction g rule: evict_loop.induct)
  case (1 g)
  show ?case
  proof (cases "int (length (lg_edges g)) > lg_maxEdges g")
    case False
    with "1.prems" show ?thesis by (simp add: evict_loop_stop)
  next
    case True
    from evict_loop_step [OF True "1.prems"(2)] obtain v where v: "victim_scan (lg_insertSeq g) None (lg_edges g) = Some v"
      "v \<in> set (lg_edges g)" "evict_loop g = evict_loop (evict v g)" by blast
    have d: "distinct (keys (lg_edges (evict v g)))" "0 \<le> lg_maxEdges (evict v g)" using "1.prems" by simp_all
    from "1.IH" [OF True v(1) d] show ?thesis
      using set_delete [OF "1.prems"(1) v(2)] length_delete [OF "1.prems"(1) v(2)] True "1.prems"(2)
      unfolding v(3) evict_fields(1,2) by auto
  qed
qed

text \<open>Every edge removed is colder than every edge kept.\<close>

lemma evict_loop_coldest:
  assumes "distinct (keys (lg_edges g))" and "inj_on (lg_insertSeq g) (fst ` set (lg_edges g))" and "0 \<le> lg_maxEdges g"
  shows "x \<in> set (lg_edges g) - set (lg_edges (evict_loop g)) \<Longrightarrow> y \<in> set (lg_edges (evict_loop g)) \<Longrightarrow> colder (lg_insertSeq g) x y"
  using assms
proof (induction g arbitrary: x y rule: evict_loop.induct)
  case (1 g)
  show ?case
  proof (cases "int (length (lg_edges g)) > lg_maxEdges g")
    case False
    with "1.prems"(1) show ?thesis by (simp add: evict_loop_stop)
  next
    case True
    from evict_loop_step [OF True "1.prems"(5)] obtain v where v: "victim_scan (lg_insertSeq g) None (lg_edges g) = Some v"
      "v \<in> set (lg_edges g)" "\<forall>x \<in> set (lg_edges g). \<not> colder (lg_insertSeq g) x v" "evict_loop g = evict_loop (evict v g)" by blast
    let ?g = "evict v g"
    have set': "set (lg_edges ?g) = set (lg_edges g) - {v}" using set_delete [OF "1.prems"(3) v(2)] by simp
    have other: "fst x \<noteq> fst v" if "x \<in> set (lg_edges ?g)" for x
      using that v(2) "1.prems"(3) unfolding set' distinct_map by (auto dest: inj_onD)
    have d: "distinct (keys (lg_edges ?g))" "0 \<le> lg_maxEdges ?g" using "1.prems" by simp_all
    have inj: "inj_on (lg_insertSeq ?g) (fst ` set (lg_edges ?g))"
    proof (rule inj_onI)
      fix k l assume kl: "k \<in> fst ` set (lg_edges ?g)" "l \<in> fst ` set (lg_edges ?g)" "lg_insertSeq ?g k = lg_insertSeq ?g l"
      then have "k \<noteq> fst v" "l \<noteq> fst v" using other by auto
      with kl(3) have "lg_insertSeq g k = lg_insertSeq g l" by simp
      moreover have "k \<in> fst ` set (lg_edges g)" "l \<in> fst ` set (lg_edges g)" using kl(1,2) unfolding set' by auto
      ultimately show "k = l" using "1.prems"(4) by (blast dest: inj_onD)
    qed
    have y: "y \<in> set (lg_edges (evict_loop ?g))" using "1.prems"(2) unfolding v(4) .
    then have yg: "y \<in> set (lg_edges ?g)" using evict_loop_shape [OF d] by blast
    show ?thesis
    proof (cases "x = v")
      case True
      have "y \<in> set (lg_edges g)" "fst y \<noteq> fst v" using yg other [OF yg] unfolding set' by auto
      moreover have "lg_insertSeq g (fst v) \<noteq> lg_insertSeq g (fst y)"
        using calculation v(2) "1.prems"(4) by (metis imageI inj_onD)
      ultimately show ?thesis using colder_total [of "lg_insertSeq g" v y] v(3) True by blast
    next
      case False
      then have x: "x \<in> set (lg_edges ?g) - set (lg_edges (evict_loop ?g))"
        using "1.prems"(1) unfolding v(4) set' by blast
      from "1.IH" [OF True v(1) x y d(1) inj d(2)] have "colder (lg_insertSeq ?g) x y" .
      moreover have "lg_insertSeq ?g (fst x) = lg_insertSeq g (fst x)" "lg_insertSeq ?g (fst y) = lg_insertSeq g (fst y)"
        using other [OF yg] other [of x] x by simp_all
      ultimately show ?thesis unfolding colder_def by (simp only:)
    qed
  qed
qed

section \<open>The invariant\<close>

definition key_of :: "edge \<Rightarrow> edge_key" where
  "key_of e = (ed_Tenant e, ed_Caller e, ed_Callee e, ed_Protocol e)"

definition graph_ok :: "live_graph \<Rightarrow> bool" where
  "graph_ok g \<longleftrightarrow>
     distinct (keys (lg_edges g)) \<and> distinct (keys (lg_pending g)) \<and> (\<forall>(k, e) \<in> set (lg_edges g). k = key_of e)
     \<and> (0 < lg_maxEdges g \<longrightarrow> int (length (lg_edges g)) \<le> lg_maxEdges g) \<and> length (lg_changes g) \<le> 256"

text \<open>The atomic steps of \<open>Consume\<close>, the sweeps and a warm start, in any order.\<close>

inductive graph_step :: "live_graph \<Rightarrow> live_graph \<Rightarrow> bool" where
  "graph_step g (ensureService tid name now g)"
| "graph_step g (upsertEdge tid caller callee protocol operation ts s g)"
| "graph_step g (put_pending tid service now s g)"
| "graph_step g (fst (take_pending tid s g))"
| "graph_step g (fst (sweepVanished now g))"
| "graph_step g (fst (sweepPending now g))"
| "graph_step g (fst (WarmStart loaded g))"

text \<open>Two graphs with the same bounded parts.\<close>

definition same_parts :: "live_graph \<Rightarrow> live_graph \<Rightarrow> bool" where
  "same_parts g g' \<longleftrightarrow> lg_edges g' = lg_edges g \<and> lg_pending g' = lg_pending g \<and> lg_maxEdges g' = lg_maxEdges g
     \<and> lg_changes g' = lg_changes g"

lemma graph_ok_same: "graph_ok g \<Longrightarrow> same_parts g g' \<Longrightarrow> graph_ok g'"
  by (simp add: graph_ok_def same_parts_def)

lemma emit_ok: "graph_ok g \<Longrightarrow> graph_ok (emit ev g)"
  by (auto simp: graph_ok_def emit_def)

lemma emit_fields [simp]:
  "lg_edges (emit ev g) = lg_edges g" "lg_pending (emit ev g) = lg_pending g" "lg_maxEdges (emit ev g) = lg_maxEdges g"
  "lg_lastNewEmit (emit ev g) = lg_lastNewEmit g" "lg_ops (emit ev g) = lg_ops g" "lg_evicted (emit ev g) = lg_evicted g"
  by (simp_all add: emit_def)

lemma evictIfNeeded_ok:
  assumes "distinct (keys (lg_edges g))" and "distinct (keys (lg_pending g))" and "\<forall>(k, e) \<in> set (lg_edges g). k = key_of e"
    and "length (lg_changes g) \<le> 256"
  shows "graph_ok (evictIfNeeded g)"
proof (cases "lg_maxEdges g \<le> 0")
  case True
  with assms show ?thesis by (simp add: evictIfNeeded_def graph_ok_def)
next
  case False
  then have sh: "distinct (keys (lg_edges (evict_loop g)))" "set (lg_edges (evict_loop g)) \<subseteq> set (lg_edges g)"
    "length (lg_edges (evict_loop g)) = min (length (lg_edges g)) (nat (lg_maxEdges g))"
    using evict_loop_shape [OF assms(1)] by simp_all
  with assms False show ?thesis by (auto simp: graph_ok_def evictIfNeeded_def)
qed

lemma key_of_count [simp]: "key_of (count_edge ts d b e) = key_of e" "key_of (new_edge k ts) = k"
  "key_of (e\<lparr>ed_IsNew := x\<rparr>) = key_of e" "key_of (e\<lparr>ed_IsVanished := x\<rparr>) = key_of e"
  by (simp_all add: key_of_def count_edge_def new_edge_def split: prod.splits)

lemma length_update_in: "k \<in> fst ` set xs \<Longrightarrow> length (AList.update k v xs) = length xs"
  by (induction xs) auto

lemma count_call_on_ok:
  assumes "graph_ok g" and "count_call_on key ts s g = (g', e)"
  shows "graph_ok g' \<and> key_of e = key"
proof (cases "map_of (lg_edges g) key")
  case None
  let ?e = "count_edge ts (spanDurationNanos s) (st_Code (sp_Status s) = StatusError) (new_edge key ts)"
  let ?g = "g\<lparr>lg_edges := AList.update key ?e (lg_edges g), lg_nextSeq := lg_nextSeq g + 1,
               lg_insertSeq := (lg_insertSeq g)(key := lg_nextSeq g + 1)\<rparr>"
  have "\<forall>(k, e) \<in> set (AList.update key ?e (lg_edges g)). k = key_of e"
    using assms(1) by (intro set_update_keys) (simp_all add: graph_ok_def)
  then have "graph_ok (evictIfNeeded ?g)" using assms(1) by (intro evictIfNeeded_ok) (simp_all add: graph_ok_def)
  with None assms(2) show ?thesis by (auto simp: count_call_on_def Let_def)
next
  case (Some e0)
  then have "key = key_of e0" using assms(1) by (auto simp: graph_ok_def dest: map_of_SomeD)
  moreover have "\<forall>(k, e) \<in> set (AList.update key (count_edge ts (spanDurationNanos s) (st_Code (sp_Status s) = StatusError) e0) (lg_edges g)). k = key_of e"
    using assms(1) calculation by (intro set_update_keys) (simp_all add: graph_ok_def)
  ultimately show ?thesis using Some assms by (auto simp: count_call_on_def Let_def graph_ok_def)
qed

lemma note_sighting_ok:
  assumes "graph_ok g" and "key_of e = key" and "note_sighting key ts e g = (g', e')"
  shows "graph_ok g'"
proof (cases "map_of (lg_edges g) key")
  case None
  with assms show ?thesis by (auto simp: note_sighting_def Let_def graph_ok_def)
next
  case (Some e0)
  have keys: "\<forall>(k, e) \<in> set (AList.update key (e\<lparr>ed_IsNew := b\<rparr>) (lg_edges g)). k = key_of e" for b
    using assms(1,2) by (intro set_update_keys) (simp_all add: graph_ok_def)
  from Some have "key \<in> fst ` set (lg_edges g)" by (metis map_of_eq_None_iff option.distinct(1))
  then have "length (AList.update key x (lg_edges g)) = length (lg_edges g)" for x by (rule length_update_in)
  moreover have "distinct (keys (AList.update key x (lg_edges g)))" for x
    using assms(1) by (simp add: graph_ok_def distinct_update)
  moreover from assms(3) Some obtain b where "lg_edges g' = AList.update key (e\<lparr>ed_IsNew := b\<rparr>) (lg_edges g)"
    "lg_pending g' = lg_pending g" "lg_maxEdges g' = lg_maxEdges g" "lg_changes g' = lg_changes g"
    by (auto simp: note_sighting_def Let_def)
  ultimately show ?thesis using assms(1) keys [of b] by (simp add: graph_ok_def)
qed

lemma upsertEdge_ok: "graph_ok g \<Longrightarrow> graph_ok (upsertEdge tid caller callee protocol operation ts s g)"
proof -
  assume ok: "graph_ok g"
  let ?key = "upsert_key tid caller callee protocol"
  obtain g1 e1 where 1: "count_call_on ?key ts s g = (g1, e1)" by force
  obtain g2 e2 where 2: "note_sighting ?key ts e1 g1 = (g2, e2)" by force
  from count_call_on_ok [OF ok 1] note_sighting_ok [OF _ _ 2] have "graph_ok g2" by blast
  then have "graph_ok (note_operation ?key operation ts s e2 g2)"
    by (rule graph_ok_same) (simp add: same_parts_def note_operation_def Let_def)
  then show ?thesis by (simp add: upsertEdge_def 1 2 Let_def emit_ok)
qed

lemma install_ok:
  assumes "distinct (keys (lg_edges g))" and "distinct (keys (lg_pending g))" and "\<forall>(k, e) \<in> set (lg_edges g). k = key_of e"
    and "length (lg_changes g) \<le> 256"
  shows "distinct (keys (lg_edges (install_edge e g))) \<and> distinct (keys (lg_pending (install_edge e g)))
    \<and> (\<forall>(k, e) \<in> set (lg_edges (install_edge e g)). k = key_of e) \<and> length (lg_changes (install_edge e g)) \<le> 256"
proof -
  have es: "lg_edges (install_edge e g) = AList.update (key_of e) e (lg_edges g)"
    by (simp add: install_edge_def Let_def key_of_def)
  have "\<forall>(k, e) \<in> set (AList.update (key_of e) e (lg_edges g)). k = key_of e"
    by (rule set_update_keys [OF assms(3)]) simp
  moreover have "distinct (keys (AList.update (key_of e) e (lg_edges g)))" using assms(1) by (rule distinct_update)
  moreover have "lg_pending (install_edge e g) = lg_pending g" "lg_changes (install_edge e g) = lg_changes g"
    by (simp_all add: install_edge_def Let_def)
  ultimately show ?thesis using assms(2,4) unfolding es by simp
qed

lemma install_all_ok:
  assumes "distinct (keys (lg_edges g))" and "distinct (keys (lg_pending g))" and "\<forall>(k, e) \<in> set (lg_edges g). k = key_of e"
    and "length (lg_changes g) \<le> 256"
  shows "graph_ok (evictIfNeeded (foldl (\<lambda>g e. install_edge e g) g es))"
  using assms
proof (induction es arbitrary: g)
  case Nil
  then show ?case by (simp add: evictIfNeeded_ok)
next
  case (Cons e es)
  from install_ok [OF Cons.prems, of e] have "distinct (keys (lg_edges (install_edge e g)))" "distinct (keys (lg_pending (install_edge e g)))"
    "\<forall>(k, e) \<in> set (lg_edges (install_edge e g)). k = key_of e" "length (lg_changes (install_edge e g)) \<le> 256" by blast+
  from Cons.IH [OF this] show ?case by simp
qed

lemma WarmStart_ok: "graph_ok g \<Longrightarrow> graph_ok (fst (WarmStart loaded g))"
proof (cases "\<exists>es. loaded = Some (Inr es)")
  case True
  assume "graph_ok g"
  then have "graph_ok (evictIfNeeded (foldl (\<lambda>g e. install_edge e g) g es))" for es
    by (intro install_all_ok) (simp_all add: graph_ok_def)
  with True show ?thesis by (auto simp: WarmStart_def)
next
  case False
  assume "graph_ok g"
  with False show ?thesis by (auto simp: WarmStart_def split: option.splits sum.splits)
qed

lemma emits_ok: "graph_ok g \<Longrightarrow> graph_ok (foldl (\<lambda>g ev. emit ev g) g evs)"
  by (induction evs arbitrary: g) (simp_all add: emit_ok)

lemma sweepVanished_ok: "graph_ok g \<Longrightarrow> graph_ok (fst (sweepVanished now g))"
  unfolding sweepVanished_def Let_def fst_conv
  by (rule emits_ok) (auto simp: graph_ok_def comp_def case_prod_unfold key_of_def)

lemma put_pending_ok: "graph_ok g \<Longrightarrow> graph_ok (put_pending tid service now s g)"
  by (auto simp: graph_ok_def put_pending_def intro: distinct_update)

lemma take_pending_ok: "graph_ok g \<Longrightarrow> graph_ok (fst (take_pending tid s g))"
  by (auto simp: graph_ok_def take_pending_def Let_def intro: distinct_delete split: option.splits)

lemma sweepPending_ok: "graph_ok g \<Longrightarrow> graph_ok (fst (sweepPending now g))"
  by (auto simp: graph_ok_def sweepPending_def Let_def intro: distinct_map_filter)

lemma ensureService_ok: "graph_ok g \<Longrightarrow> graph_ok (ensureService tid name now g)"
  by (erule graph_ok_same) (simp add: same_parts_def ensureService_def Let_def)

lemma graph_step_ok: "graph_step g g' \<Longrightarrow> graph_ok g \<Longrightarrow> graph_ok g'"
  by (induction rule: graph_step.induct)
     (simp_all add: ensureService_ok upsertEdge_ok put_pending_ok take_pending_ok sweepVanished_ok sweepPending_ok WarmStart_ok)

end
