(* ===== verification/TopologyClaims.thy ===== *)
theory TopologyClaims
  imports TopologyProps
begin

text \<open>
  The properties of the live graph as statements about \<open>Consume\<close>, the sweeps, the searches and a
  restart.  \<open>demo_topo\<close> and its spans are the inputs of the witnesses.
\<close>

section \<open>Demo spans\<close>

definition topo_span :: "span_kind \<Rightarrow> string \<Rightarrow> span_id \<Rightarrow> span_id \<Rightarrow> string \<Rightarrow> span" where
  "topo_span kind service i parent peer =
     \<lparr>sp_TraceID = no_trace, sp_SpanID = i, sp_ParentSpanID = parent, sp_TraceState = [], sp_Flags = 0,
      sp_Name = ''get'', sp_Kind = kind, sp_StartUnixNano = 1, sp_EndUnixNano = 3,
      sp_Status = \<lparr>st_Code = StatusOk, st_Message = []\<rparr>,
      sp_Attrs = (if peer = [] then [] else [(''peer.service'', AttrValue AttrStr peer 0 0 [] [] [])]),
      sp_Resource = Some \<lparr>res_ID = [], res_ServiceName = service, res_ServiceVersion = [], res_Namespace = [],
                          res_Env = [], res_Attrs = []\<rparr>,
      sp_Scope = None, sp_Events = [], sp_Links = [], sp_DroppedAttrsCount = 0, sp_DroppedEventsCount = 0,
      sp_DroppedLinksCount = 0, sp_Tenant = ''t1'', sp_SourceFormat = SourceOTLP, sp_ReceivedUnixNano = 0,
      sp_SizeBytes = 0, sp_Truncated = False\<rparr>"

definition demo_topo :: live_graph where
  "demo_topo = NewLiveGraph \<lparr>tc_MaxEdges = 1, tc_VanishedAfter = 0\<rparr>"

lemma demo_topo_fields [simp]: "lg_edges demo_topo = []" "lg_maxEdges demo_topo = 1" "lg_pending demo_topo = []"
  by (simp_all add: demo_topo_def NewLiveGraph_def)

lemma topo_span_fields [simp]:
  "sp_Kind (topo_span k s i p q) = k" "sp_SpanID (topo_span k s i p q) = i" "sp_ParentSpanID (topo_span k s i p q) = p"
  "sp_TraceID (topo_span k s i p q) = no_trace" "sp_Name (topo_span k s i p q) = ''get''"
  "spanService (topo_span k s i p q) = s" "spanDurationNanos (topo_span k s i p q) = 2"
  "st_Code (sp_Status (topo_span k s i p q)) = StatusOk"
  "sp_Attrs (topo_span k s i p []) = []"
  by (simp_all add: topo_span_def spanService_def spanDurationNanos_def word_le_nat_alt)

lemma extractPeer_topo [simp]: "extractPeer (sp_Attrs (topo_span k s i p q)) = (q, ''unknown'')"
  by (simp add: topo_span_def extractPeer_def strAttr_def protocolOf_def)

section \<open>Bounds in every reachable state\<close>

definition graph_init :: "topology_config \<Rightarrow> live_graph \<Rightarrow> bool" where
  "graph_init cfg g \<longleftrightarrow> g = NewLiveGraph cfg"

definition graph_inv :: "topology_config \<Rightarrow> live_graph \<Rightarrow> bool" where
  "graph_inv cfg g \<longleftrightarrow> graph_ok g \<and> lg_maxEdges g = tc_MaxEdges cfg"

lemma foldl_emit_max [simp]: "lg_maxEdges (foldl (\<lambda>g ev. emit ev g) g evs) = lg_maxEdges g"
  by (induction evs arbitrary: g) simp_all

lemma foldl_install_max [simp]: "lg_maxEdges (foldl (\<lambda>g e. install_edge e g) g es) = lg_maxEdges g"
  by (induction es arbitrary: g) (simp_all add: install_edge_def Let_def)

lemma upsertEdge_max [simp]: "lg_maxEdges (upsertEdge tid caller callee protocol operation ts s g) = lg_maxEdges g"
  by (simp add: upsertEdge_def count_call_on_def note_sighting_def note_operation_def Let_def split: prod.splits option.splits)

lemma graph_step_max: "graph_step g g' \<Longrightarrow> lg_maxEdges g' = lg_maxEdges g"
  by (induction rule: graph_step.induct)
     (simp_all add: ensureService_def put_pending_def take_pending_def sweepVanished_def sweepPending_def WarmStart_def Let_def
        split: option.splits sum.splits)

interpretation live: invariant_system "graph_init cfg" graph_step "graph_inv cfg" for cfg
proof unfold_locales
  show "graph_inv cfg g" if "graph_init cfg g" for g
    using that by (simp add: graph_init_def graph_inv_def graph_ok_def NewLiveGraph_def)
  show "graph_inv cfg g'" if "graph_inv cfg g" and "graph_step g g'" for g g'
    using that by (simp add: graph_inv_def graph_step_ok graph_step_max)
qed

text \<open>\<open>Consume\<close> is a run of the atomic steps.\<close>

lemma consume_span_steps: "steps graph_step g (consume_span tid now s g)"
proof -
  let ?g = "ensureService tid (spanService s) now g"
  have 1: "steps graph_step g ?g" by (intro steps_step [OF steps_refl] graph_step.intros)
  obtain callee protocol where pe: "extractPeer (sp_Attrs s) = (callee, protocol)" by force
  obtain g1 po where tk: "take_pending tid s ?g = (g1, po)" by force
  have 2: "steps graph_step g g1" using graph_step.intros(4) [of ?g tid s] tk by (auto intro: steps_step [OF 1])
  show ?thesis
    by (auto simp: consume_span_def Let_def pe tk split: option.splits
        intro: 1 steps_step [OF 1 graph_step.intros(2)] steps_step [OF 1 graph_step.intros(3)] steps_step [OF 2 graph_step.intros(2)])
qed

lemma Consume_steps: "steps graph_step g (Topology_Consume tid now spans g)"
proof (induction spans arbitrary: g)
  case Nil
  then show ?case by (simp add: Topology_Consume_def steps_refl)
next
  case (Cons s spans)
  from Cons.IH [of "consume_span tid now s g"] consume_span_steps [of g tid now s]
  have "steps graph_step g (Topology_Consume tid now spans (consume_span tid now s g))" by (rule steps_trans)
  then show ?case by (simp add: Topology_Consume_def)
qed

text \<open>C18. However batches of spans, sweeps and warm starts interleave, the graph never holds more edges
  than \<open>topology.max_edges\<close>, nor the channel more than 256 changes, and each edge is stored once, under its
  own tenant, caller, callee and protocol; \<open>Consume\<close> keeps the graph in these states.\<close>

theorem graph_bounded:
  assumes "reach (graph_init cfg) graph_step g" and "0 < tc_MaxEdges cfg"
  shows "int (length (lg_edges (Topology_Consume tid now spans g))) \<le> tc_MaxEdges cfg
    \<and> length (lg_changes (Topology_Consume tid now spans g)) \<le> 256
    \<and> distinct (map fst (lg_edges (Topology_Consume tid now spans g)))
    \<and> (\<forall>(k, e) \<in> set (lg_edges (Topology_Consume tid now spans g)). k = key_of e)"
proof -
  have "graph_inv cfg (Topology_Consume tid now spans g)"
    by (rule live.steps_inv [OF Consume_steps live.reach_inv [OF assms(1)]])
  with assms(2) show ?thesis by (auto simp: graph_inv_def graph_ok_def)
qed

theorem graph_bounded_witness:
  "int (length (lg_edges (Topology_Consume ''t1'' 0
      [topo_span SpanKindClient ''a'' ''x'' no_span ''b'', topo_span SpanKindClient ''a'' ''y'' no_span ''c''] demo_topo))) \<le> 1"
  using graph_bounded [where cfg = "\<lparr>tc_MaxEdges = 1, tc_VanishedAfter = 0\<rparr>" and g = demo_topo and tid = "''t1''" and now = 0
    and spans = "[topo_span SpanKindClient ''a'' ''x'' no_span ''b'', topo_span SpanKindClient ''a'' ''y'' no_span ''c'']"]
  by (simp add: reach_init graph_init_def demo_topo_def)

section \<open>Searches\<close>

text \<open>C17. \<open>Distance\<close> answers the length of a shortest undirected path between two services of the tenant
  when it is at most \<open>maxHops\<close>, and "none" otherwise.\<close>

theorem Distance_correct:
  "case Distance tid a b maxHops g of
     (d, True) \<Rightarrow> 0 \<le> d \<and> d \<le> max 0 maxHops \<and> b \<in> ring (link (tenant_edges tid g)) a (nat d)
   | (d, False) \<Rightarrow> d = 0 \<and> b \<notin> ball (link (tenant_edges tid g)) a (nat maxHops)"
proof (cases "a = b")
  case True
  then show ?thesis by (simp add: Distance_def)
next
  case False
  let ?es = "tenant_edges tid g"
  from False have D: "case dist_loop b ?es (int 0 + 1) maxHops {a} [a] of
     (d, True) \<Rightarrow> \<exists>n. d = int n \<and> d \<le> maxHops \<and> b \<in> ring (link ?es) a n
   | (d, False) \<Rightarrow> d = 0 \<and> (\<forall>n. int n \<le> maxHops \<longrightarrow> b \<notin> ring (link ?es) a n)"
    by (intro dist_loop_correct) simp_all
  obtain d found where r: "Distance tid a b maxHops g = (d, found)" by force
  with False have l: "dist_loop b ?es (int 0 + 1) maxHops {a} [a] = (d, found)" by (simp add: Distance_def)
  show ?thesis
  proof (cases found)
    case True
    with D show ?thesis unfolding r l by auto
  next
    case False
    with D have none: "d = 0" "\<forall>n. int n \<le> maxHops \<longrightarrow> b \<notin> ring (link ?es) a n" unfolding l by simp_all
    have "b \<notin> ring (link ?es) a n" if "n \<le> nat maxHops" for n
    proof (cases n)
      case 0
      then show ?thesis using \<open>a \<noteq> b\<close> by simp
    next
      case (Suc m)
      with that none(2) show ?thesis by auto
    qed
    with none(1) False show ?thesis unfolding r by (simp add: ball_ring)
  qed
qed

text \<open>\<open>Neighbors\<close> reports exactly the services within \<open>hops\<close> edges in the asked direction, each with its
  shortest distance, and lists all of them but the root as upstream or downstream.\<close>

theorem Neighbors_correct:
  "(map_of (nh_HopOf (Neighbors tid service hops dir g)) y = Some d
      \<longleftrightarrow> (\<exists>j \<le> nat hops. d = int j \<and> y \<in> ring (arcs dir (tenant_edges tid g)) service j))
   \<and> set (nh_Upstream (Neighbors tid service hops dir g)) \<union> set (nh_Downstream (Neighbors tid service hops dir g))
      = ball (arcs dir (tenant_edges tid g)) service (nat hops) - {service}"
proof -
  let ?n = "\<lparr>nw_visited = [(service, 0)], nw_up = [], nw_down = [], nw_edges = [], nw_next = []\<rparr>"
  have "hops_upto (arcs dir (tenant_edges tid g)) service 0 ?n" by (auto simp: hops_upto_def)
  then have "hops_upto (arcs dir (tenant_edges tid g)) service (nat hops)
      (nb_loop (tenant_edges tid g) (int 0 + 1) hops dir [service] ?n)" by (rule nb_loop_hops) simp_all
  then show ?thesis by (simp add: Neighbors_def Let_def hops_upto_def)
qed

section \<open>Eviction\<close>

text \<open>Eviction cuts the graph down to the limit and every edge it removes is colder (fewer calls, then
  seen earlier, then inserted earlier) than every edge it keeps.\<close>

theorem eviction_keeps_hottest:
  assumes "distinct (map fst (lg_edges g))" and "inj_on (lg_insertSeq g) (fst ` set (lg_edges g))" and "0 < lg_maxEdges g"
  shows "length (lg_edges (evictIfNeeded g)) = min (length (lg_edges g)) (nat (lg_maxEdges g))
    \<and> set (lg_edges (evictIfNeeded g)) \<subseteq> set (lg_edges g)
    \<and> (\<forall>x \<in> set (lg_edges g) - set (lg_edges (evictIfNeeded g)). \<forall>y \<in> set (lg_edges (evictIfNeeded g)). colder (lg_insertSeq g) x y)"
  using evict_loop_shape [OF assms(1)] evict_loop_coldest [OF assms(1,2)] assms(3)
  by (simp add: evictIfNeeded_def del: Diff_iff)

definition demo_edge :: "string \<Rightarrow> 64 word \<Rightarrow> edge_key \<times> edge" where
  "demo_edge callee n =
     ((''t1'', ''a'', callee, ''http''), (count_edge 0 0 False (new_edge (''t1'', ''a'', callee, ''http'') 0))\<lparr>ed_Calls := n\<rparr>)"

definition demo_full :: live_graph where
  "demo_full = demo_topo\<lparr>lg_edges := [demo_edge ''b'' 7], lg_insertSeq := (\<lambda>k. 0)(fst (demo_edge ''b'' 7) := 1), lg_nextSeq := 1\<rparr>"

theorem eviction_keeps_hottest_witness:
  "length (lg_edges (evictIfNeeded demo_full)) = 1"
  using eviction_keeps_hottest [of demo_full]
  by (simp add: demo_full_def demo_topo_def NewLiveGraph_def)

lemma victim_append:
  assumes "\<forall>y \<in> set xs. colder seq x y"
  shows "victim_scan seq None (xs @ [x]) = Some x"
proof -
  have go: "victim_scan seq best (xs @ [x]) = Some x" if "\<forall>y. best = Some y \<longrightarrow> colder seq x y" for best
    using that assms by (induction xs arbitrary: best) (auto split: option.splits)
  show ?thesis by (rule go) simp
qed

lemma update_append: "map_of xs k = None \<Longrightarrow> AList.update k v xs = xs @ [(k, v)]"
  by (induction xs) (auto split: if_splits)

lemma delete_append: "map_of xs k = None \<Longrightarrow> AList.delete k (xs @ [(k, v)]) = xs"
  by (induction xs) (auto split: if_splits)

lemma count_call_on_full:
  assumes full: "int (length (lg_edges g)) = lg_maxEdges g" "0 < lg_maxEdges g" and hot: "\<forall>(k, e) \<in> set (lg_edges g). 1 < ed_Calls e"
    and new: "map_of (lg_edges g) key = None"
  shows "\<exists>e g'. count_call_on key ts s g = (g', e) \<and> lg_edges g' = lg_edges g \<and> lg_lastNewEmit g' key = None
    \<and> lg_newEdgeWindow g' = lg_newEdgeWindow g \<and> lg_changes g' = lg_changes g \<and> lg_maxEdges g' = lg_maxEdges g"
proof -
  define e where "e = count_edge ts (spanDurationNanos s) (st_Code (sp_Status s) = StatusError) (new_edge key ts)"
  define g1 where "g1 = g\<lparr>lg_edges := AList.update key e (lg_edges g), lg_nextSeq := lg_nextSeq g + 1,
                          lg_insertSeq := (lg_insertSeq g)(key := lg_nextSeq g + 1)\<rparr>"
  have calls: "ed_Calls e = 1" by (simp add: e_def count_edge_def new_edge_def split: prod.splits)
  have es: "lg_edges g1 = lg_edges g @ [(key, e)]" using new by (simp add: g1_def update_append)
  have "victim_scan (lg_insertSeq g1) None (lg_edges g1) = Some (key, e)"
    unfolding es by (rule victim_append) (use hot calls in \<open>auto simp: colder_def\<close>)
  moreover have "int (length (lg_edges g1)) > lg_maxEdges g1" using full(1) es by (simp add: g1_def)
  ultimately have "evict_loop g1 = evict_loop (evict (key, e) g1)" by (subst evict_loop.simps) simp
  also have "\<dots> = evict (key, e) g1"
    using full(1) new es by (intro evict_loop_stop) (simp add: delete_append g1_def)
  finally have "evictIfNeeded g1 = evict (key, e) g1" using full(2) by (simp add: evictIfNeeded_def g1_def)
  moreover have "lg_edges (evict (key, e) g1) = lg_edges g" using new es by (simp add: delete_append)
  moreover have "count_call_on key ts s g = (evictIfNeeded g1, e)"
    using new by (simp add: count_call_on_def Let_def e_def [symmetric] g1_def)
  ultimately show ?thesis by (simp add: evict_def g1_def)
qed

text \<open>C22. Once the graph is full of edges with more than one call, a new edge is never learned: its own
  creation evicts it, every time it is seen, and each sighting is announced as a change of the graph.\<close>

theorem full_graph_learns_nothing:
  assumes "int (length (lg_edges g)) = lg_maxEdges g" and "0 < lg_maxEdges g" and "\<forall>(k, e) \<in> set (lg_edges g). 1 < ed_Calls e"
    and "map_of (lg_edges g) (upsert_key tid caller callee protocol) = None"
  shows "lg_edges (((\<lambda>g. upsertEdge tid caller callee protocol operation ts s g) ^^ n) g) = lg_edges g
    \<and> (\<exists>ev. lg_changes (((\<lambda>g. upsertEdge tid caller callee protocol operation ts s g) ^^ Suc n) g)
          = lg_changes (emit ev (((\<lambda>g. upsertEdge tid caller callee protocol operation ts s g) ^^ n) g)) \<and> ce_Kind ev = NewEdge)"
proof -
  let ?u = "\<lambda>g. upsertEdge tid caller callee protocol operation ts s g"
  let ?key = "upsert_key tid caller callee protocol"
  have one: "lg_edges (?u g) = lg_edges g \<and> lg_maxEdges (?u g) = lg_maxEdges g
      \<and> (\<exists>ev. lg_changes (?u g) = lg_changes (emit ev g) \<and> ce_Kind ev = NewEdge)"
    if g: "int (length (lg_edges g)) = lg_maxEdges g" "0 < lg_maxEdges g" "\<forall>(k, e) \<in> set (lg_edges g). 1 < ed_Calls e"
      "map_of (lg_edges g) ?key = None" for g
  proof -
    from count_call_on_full [OF g, of ts s] obtain e g' where c: "count_call_on ?key ts s g = (g', e)"
      "lg_edges g' = lg_edges g" "lg_lastNewEmit g' ?key = None" "lg_changes g' = lg_changes g" "lg_maxEdges g' = lg_maxEdges g"
      by blast
    let ?e = "e\<lparr>ed_IsNew := True\<rparr>"
    obtain g2 where n: "note_sighting ?key ts e g' = (g2, ?e)" "lg_edges g2 = lg_edges g" "lg_changes g2 = lg_changes g"
      using c g(4) by (simp add: note_sighting_def Let_def)
    let ?g3 = "note_operation ?key operation ts s ?e g2"
    have 3: "lg_edges ?g3 = lg_edges g" "lg_changes ?g3 = lg_changes g" using n by (simp_all add: note_operation_def Let_def)
    have u: "?u g = emit \<lparr>ce_Kind = NewEdge, ce_Edge = ?e, ce_Detected = ts\<rparr> ?g3"
      by (simp add: upsertEdge_def c(1) n(1) Let_def)
    have "lg_changes (?u g) = lg_changes (emit \<lparr>ce_Kind = NewEdge, ce_Edge = ?e, ce_Detected = ts\<rparr> g)"
      unfolding u by (simp add: emit_def 3)
    moreover have "lg_edges (?u g) = lg_edges g" unfolding u by (simp add: 3)
    ultimately show ?thesis by (auto intro!: exI [of _ "\<lparr>ce_Kind = NewEdge, ce_Edge = ?e, ce_Detected = ts\<rparr>"])
  qed
  have "lg_edges ((?u ^^ n) g) = lg_edges g \<and> lg_maxEdges ((?u ^^ n) g) = lg_maxEdges g"
  proof (induction n)
    case (Suc n)
    with one [of "(?u ^^ n) g"] assms show ?case by simp
  qed simp
  moreover have "\<exists>ev. lg_changes (?u ((?u ^^ n) g)) = lg_changes (emit ev ((?u ^^ n) g)) \<and> ce_Kind ev = NewEdge"
    using one [of "(?u ^^ n) g"] calculation assms by simp
  ultimately show ?thesis by simp
qed

theorem full_graph_learns_nothing_witness:
  "lg_edges (((\<lambda>g. upsertEdge ''t1'' ''a'' ''c'' ''http'' ''get'' 5 (topo_span SpanKindClient ''a'' ''x'' no_span ''c'') g) ^^ 100) demo_full)
    = lg_edges demo_full"
  using full_graph_learns_nothing [where g = demo_full and tid = "''t1''" and caller = "''a''" and callee = "''c''" and protocol = "''http''"
    and operation = "''get''" and ts = 5 and s = "topo_span SpanKindClient ''a'' ''x'' no_span ''c''" and n = 100]
  by (simp add: demo_full_def demo_topo_def NewLiveGraph_def demo_edge_def upsert_key_def)

section \<open>Operations of an edge\<close>

lemma lg_ops_upsert:
  assumes "map_of (lg_edges g) (upsert_key tid caller callee protocol) = Some e0" and "operation \<noteq> []"
    and "ed_ID e0 = i" and "lg_ops g i = Some ops"
  shows "lg_ops (upsertEdge tid caller callee protocol operation ts s g) i
    = Some (count_op tid i operation ts (spanDurationNanos s) (st_Code (sp_Status s) = StatusError) ops)"
  using assms
  by (simp add: upsertEdge_def count_call_on_def note_sighting_def note_operation_def Let_def upsert_key_def count_edge_def split: if_splits)

text \<open>The operations of an edge are stored under an identifier without the tenant: when two tenants have the
  edge, a call of one is counted in the record that belongs to the other, whose tenant it keeps.\<close>

theorem ops_mix_tenants:
  assumes "map_of (lg_edges g) (upsert_key tid caller callee protocol) = Some e0" and "operation \<noteq> []"
    and "lg_ops g (ed_ID e0) = Some ops" and "map_of ops operation = Some op" and "eo_Tenant op = other"
  shows "\<exists>ops' op'. lg_ops (upsertEdge tid caller callee protocol operation ts s g) (ed_ID e0) = Some ops'
    \<and> map_of ops' operation = Some op' \<and> eo_Tenant op' = other \<and> eo_Calls op' = eo_Calls op + 1"
  using lg_ops_upsert [OF assms(1,2) refl assms(3), of ts s] assms(4,5)
  by (simp add: count_op_def Let_def update_conv')

definition demo_op :: edge_op where
  "demo_op = \<lparr>eo_Tenant = ''t1'', eo_EdgeID = edgeIDFor ''a'' ''b'' ''http'', eo_CalleeOperation = ''get'',
              eo_BucketStart = 0, eo_Calls = 4, eo_Errors = 0, eo_P99Nanos = 0\<rparr>"

definition demo_shared :: live_graph where
  "demo_shared = demo_topo
     \<lparr>lg_edges := [((''t2'', ''a'', ''b'', ''http''), new_edge (''t2'', ''a'', ''b'', ''http'') 0)],
      lg_ops := (\<lambda>i. Some [(''get'', demo_op)])\<rparr>"

theorem ops_mix_tenants_witness:
  "\<exists>ops' op'. lg_ops (upsertEdge ''t2'' ''a'' ''b'' ''http'' ''get'' 5 (topo_span SpanKindClient ''a'' ''x'' no_span ''b'') demo_shared)
      (edgeIDFor ''a'' ''b'' ''http'') = Some ops'
    \<and> map_of ops' ''get'' = Some op' \<and> eo_Tenant op' = ''t1'' \<and> eo_Calls op' = 5"
  using ops_mix_tenants [where g = demo_shared and tid = "''t2''" and caller = "''a''" and callee = "''b''" and protocol = "''http''"
    and operation = "''get''" and ts = 5 and s = "topo_span SpanKindClient ''a'' ''x'' no_span ''b''" and other = "''t1''"
    and ?e0.0 = "new_edge (''t2'', ''a'', ''b'', ''http'') 0" and ops = "[(''get'', demo_op)]" and op = demo_op]
  by (simp add: demo_shared_def upsert_key_def demo_op_def) (simp add: new_edge_def)

section \<open>Joining the two ends of a call\<close>

text \<open>An upsert into a graph with room counts the call on its edge.\<close>

lemma upsertEdge_counts:
  assumes "lg_maxEdges g \<le> 0 \<or> int (length (lg_edges g)) < lg_maxEdges g"
  shows "\<exists>e. map_of (lg_edges (upsertEdge tid caller callee protocol operation ts s g)) (upsert_key tid caller callee protocol) = Some e
    \<and> ed_Calls e = (case map_of (lg_edges g) (upsert_key tid caller callee protocol) of None \<Rightarrow> 0 | Some e0 \<Rightarrow> ed_Calls e0) + 1
    \<and> ed_LastSeen e = ts \<and> \<not> ed_IsVanished e"
proof (cases "map_of (lg_edges g) (upsert_key tid caller callee protocol)")
  case None
  let ?key = "upsert_key tid caller callee protocol"
  have "evictIfNeeded (g\<lparr>lg_edges := AList.update ?key e (lg_edges g), lg_nextSeq := q, lg_insertSeq := f\<rparr>)
      = g\<lparr>lg_edges := AList.update ?key e (lg_edges g), lg_nextSeq := q, lg_insertSeq := f\<rparr>" for e q f
    using assms None by (auto simp: evictIfNeeded_def update_append intro!: evict_loop_stop)
  with None show ?thesis
    by (simp add: upsertEdge_def count_call_on_def note_sighting_def note_operation_def Let_def update_conv' count_edge_def new_edge_def
        split: prod.splits)
next
  case (Some e0)
  then show ?thesis
    by (simp add: upsertEdge_def count_call_on_def note_sighting_def note_operation_def Let_def update_conv' count_edge_def)
qed

text \<open>A client span that names no peer and the server span that is its child make one call of the edge
  between their services, whatever time passes between them, and leave nothing pending.\<close>

theorem client_server_joined:
  assumes "sp_Kind c = SpanKindClient" and "fst (extractPeer (sp_Attrs c)) = []" and "sp_Kind s = SpanKindServer"
    and "sp_TraceID s = sp_TraceID c" and "sp_ParentSpanID s = sp_SpanID c"
    and "lg_maxEdges g \<le> 0 \<or> int (length (lg_edges g)) < lg_maxEdges g"
    and "map_of (lg_edges g) (upsert_key tid (spanService c) (spanService s) (protocolOf (sp_Attrs c))) = None"
  shows "\<exists>e. map_of (lg_edges (consume_span tid t2 s (consume_span tid t1 c g)))
        (upsert_key tid (spanService c) (spanService s) (protocolOf (sp_Attrs c))) = Some e \<and> ed_Calls e = 1 \<and> ed_LastSeen e = t2
    \<and> map_of (lg_pending (consume_span tid t2 s (consume_span tid t1 c g))) (tid, sp_TraceID c, sp_SpanID c) = None"
proof -
  let ?g1 = "consume_span tid t1 c g"
  have g1: "?g1 = put_pending tid (spanService c) t1 c (ensureService tid (spanService c) t1 g)"
    using assms(1,2) by (auto simp: consume_span_def Let_def split: prod.splits)
  let ?e1 = "ensureService tid (spanService s) t2 ?g1"
  have same: "lg_edges ?e1 = lg_edges g" "lg_maxEdges ?e1 = lg_maxEdges g" "lg_pending ?e1 = lg_pending ?g1"
    by (simp_all add: g1 put_pending_def ensureService_def Let_def)
  let ?key = "(tid, sp_TraceID c, sp_SpanID c)"
  let ?p = "\<lparr>pn_Service = spanService c, pn_Protocol = protocolOf (sp_Attrs c), pn_Timestamp = t1\<rparr>"
  have pend: "map_of (lg_pending ?e1) ?key = Some ?p" unfolding same(3) by (simp add: g1 put_pending_def update_conv')
  let ?g2 = "?e1\<lparr>lg_pending := AList.delete ?key (lg_pending ?e1)\<rparr>"
  have take: "take_pending tid s ?e1 = (?g2, Some ?p)" using pend assms(4,5) by (simp add: take_pending_def Let_def)
  let ?up = "upsertEdge tid (spanService c) (spanService s) (protocolOf (sp_Attrs c)) (sp_Name s) t2 s ?g2"
  have g2: "consume_span tid t2 s ?g1 = ?up" using assms(3) take by (simp add: consume_span_def Let_def)
  have "lg_pending ?up = lg_pending ?g2"
    by (simp add: upsertEdge_def count_call_on_def note_sighting_def note_operation_def Let_def split: prod.splits option.splits)
  then have "map_of (lg_pending ?up) ?key = None" by (simp add: delete_conv')
  moreover have "lg_maxEdges ?g2 \<le> 0 \<or> int (length (lg_edges ?g2)) < lg_maxEdges ?g2" using assms(6) same by simp
  from upsertEdge_counts [OF this, of tid "spanService c" "spanService s" "protocolOf (sp_Attrs c)" "sp_Name s" t2 s]
  have "\<exists>e. map_of (lg_edges ?up) (upsert_key tid (spanService c) (spanService s) (protocolOf (sp_Attrs c))) = Some e
    \<and> ed_Calls e = 1 \<and> ed_LastSeen e = t2" using assms(7) same(1) by auto
  ultimately show ?thesis unfolding g2 by blast
qed

theorem client_server_joined_witness:
  "\<exists>e. map_of (lg_edges (consume_span ''t1'' 9 (topo_span SpanKindServer ''b'' ''y'' ''x'' [])
        (consume_span ''t1'' 4 (topo_span SpanKindClient ''a'' ''x'' no_span []) demo_topo))) (''t1'', ''a'', ''b'', ''unknown'') = Some e
      \<and> ed_Calls e = 1 \<and> ed_LastSeen e = 9"
  using client_server_joined [where c = "topo_span SpanKindClient ''a'' ''x'' no_span []" and s = "topo_span SpanKindServer ''b'' ''y'' ''x'' []"
    and g = demo_topo and tid = "''t1''" and ?t1.0 = 4 and ?t2.0 = 9]
  by (auto simp: upsert_key_def protocolOf_def extractPeer_def strAttr_def)

lemma upsertEdge_other:
  assumes "k \<noteq> upsert_key tid caller callee protocol" and "lg_maxEdges g \<le> 0 \<or> int (length (lg_edges g)) < lg_maxEdges g"
  shows "map_of (lg_edges (upsertEdge tid caller callee protocol operation ts s g)) k = map_of (lg_edges g) k"
proof (cases "map_of (lg_edges g) (upsert_key tid caller callee protocol)")
  case None
  let ?key = "upsert_key tid caller callee protocol"
  have "evictIfNeeded (g\<lparr>lg_edges := AList.update ?key e (lg_edges g), lg_nextSeq := q, lg_insertSeq := f\<rparr>)
      = g\<lparr>lg_edges := AList.update ?key e (lg_edges g), lg_nextSeq := q, lg_insertSeq := f\<rparr>" for e q f
    using assms(2) None by (auto simp: evictIfNeeded_def update_append intro!: evict_loop_stop)
  with None assms(1) show ?thesis
    by (simp add: upsertEdge_def count_call_on_def note_sighting_def note_operation_def Let_def update_conv')
next
  case (Some e0)
  with assms(1) show ?thesis
    by (simp add: upsertEdge_def count_call_on_def note_sighting_def note_operation_def Let_def update_conv')
qed

lemma upsertEdge_length:
  assumes "lg_maxEdges g \<le> 0 \<or> int (length (lg_edges g)) < lg_maxEdges g"
  shows "length (lg_edges (upsertEdge tid caller callee protocol operation ts s g)) \<le> length (lg_edges g) + 1"
proof (cases "map_of (lg_edges g) (upsert_key tid caller callee protocol)")
  case None
  let ?key = "upsert_key tid caller callee protocol"
  have "evictIfNeeded (g\<lparr>lg_edges := AList.update ?key e (lg_edges g), lg_nextSeq := q, lg_insertSeq := f\<rparr>)
      = g\<lparr>lg_edges := AList.update ?key e (lg_edges g), lg_nextSeq := q, lg_insertSeq := f\<rparr>" for e q f
    using assms None by (auto simp: evictIfNeeded_def update_append intro!: evict_loop_stop)
  with None show ?thesis
    by (simp add: upsertEdge_def count_call_on_def note_sighting_def note_operation_def Let_def length_update_le)
next
  case (Some e0)
  then show ?thesis
    by (simp add: upsertEdge_def count_call_on_def note_sighting_def note_operation_def Let_def length_update_le)
qed

lemma upsertEdge_pending [simp]: "lg_pending (upsertEdge tid caller callee protocol operation ts s g) = lg_pending g"
  by (simp add: upsertEdge_def count_call_on_def note_sighting_def note_operation_def Let_def split: prod.splits option.splits)

text \<open>A call whose client span names its peer is counted twice: once on the edge to that peer, and once more,
  by the server span of the same call, on an edge from the service "external".\<close>

theorem attributed_call_counted_twice:
  assumes "sp_Kind c = SpanKindClient" and "extractPeer (sp_Attrs c) = (callee, protocol)" and "callee \<noteq> []"
    and "sp_Kind s = SpanKindServer" and "sp_TraceID s = sp_TraceID c" and "sp_ParentSpanID s = sp_SpanID c"
    and "map_of (lg_pending g) (tid, sp_TraceID c, sp_SpanID c) = None"
    and "spanService c \<noteq> ''external''" and "lg_maxEdges g \<le> 0 \<or> int (length (lg_edges g)) + 1 < lg_maxEdges g"
  shows "(\<exists>e. map_of (lg_edges (consume_span tid t2 s (consume_span tid t1 c g))) (upsert_key tid (spanService c) callee protocol) = Some e
       \<and> ed_Calls e = (case map_of (lg_edges g) (upsert_key tid (spanService c) callee protocol) of None \<Rightarrow> 0 | Some e0 \<Rightarrow> ed_Calls e0) + 1)
    \<and> (\<exists>e. map_of (lg_edges (consume_span tid t2 s (consume_span tid t1 c g))) (upsert_key tid ''external'' (spanService s) ''unknown'') = Some e
       \<and> ed_Calls e = (case map_of (lg_edges g) (upsert_key tid ''external'' (spanService s) ''unknown'') of None \<Rightarrow> 0 | Some e0 \<Rightarrow> ed_Calls e0) + 1)"
proof -
  let ?k1 = "upsert_key tid (spanService c) callee protocol"
  let ?k2 = "upsert_key tid ''external'' (spanService s) ''unknown''"
  have ne: "?k1 \<noteq> ?k2" using assms(8) by (auto simp: upsert_key_def)
  let ?g0 = "ensureService tid (spanService c) t1 g"
  have 0: "lg_edges ?g0 = lg_edges g" "lg_maxEdges ?g0 = lg_maxEdges g" "lg_pending ?g0 = lg_pending g"
    by (simp_all add: ensureService_def Let_def)
  define g1 where "g1 = upsertEdge tid (spanService c) callee protocol (sp_Name c) t1 c ?g0"
  have g1: "consume_span tid t1 c g = g1" using assms(1-3) by (simp add: consume_span_def Let_def g1_def)
  have room0: "lg_maxEdges ?g0 \<le> 0 \<or> int (length (lg_edges ?g0)) < lg_maxEdges ?g0" using assms(9) 0 by auto
  let ?h = "ensureService tid (spanService s) t2 g1"
  have h: "lg_edges ?h = lg_edges g1" "lg_maxEdges ?h = lg_maxEdges g" "lg_pending ?h = lg_pending g"
    using 0 by (simp_all add: ensureService_def Let_def g1_def)
  have room1: "lg_maxEdges ?h \<le> 0 \<or> int (length (lg_edges ?h)) < lg_maxEdges ?h"
    using upsertEdge_length [OF room0, of tid "spanService c" callee protocol "sp_Name c" t1 c] assms(9) 0 h
    unfolding g1_def [symmetric] by auto
  have "take_pending tid s ?h = (?h, None)" using assms(5-7) h(3) by (simp add: take_pending_def Let_def)
  then have g2: "consume_span tid t2 s g1 = upsertEdge tid ''external'' (spanService s) ''unknown'' (sp_Name s) t2 s ?h"
    using assms(4) by (simp add: consume_span_def Let_def)
  have "\<exists>e. map_of (lg_edges (consume_span tid t2 s g1)) ?k1 = Some e
      \<and> ed_Calls e = (case map_of (lg_edges g) ?k1 of None \<Rightarrow> 0 | Some e0 \<Rightarrow> ed_Calls e0) + 1"
    unfolding g2 upsertEdge_other [OF ne room1] h(1)
    using upsertEdge_counts [OF room0, of tid "spanService c" callee protocol "sp_Name c" t1 c] 0 unfolding g1_def by auto
  moreover have "map_of (lg_edges ?h) ?k2 = map_of (lg_edges g) ?k2"
    unfolding h(1) using upsertEdge_other [OF ne [symmetric] room0] 0 by (simp add: g1_def)
  then have "\<exists>e. map_of (lg_edges (consume_span tid t2 s g1)) ?k2 = Some e
      \<and> ed_Calls e = (case map_of (lg_edges g) ?k2 of None \<Rightarrow> 0 | Some e0 \<Rightarrow> ed_Calls e0) + 1"
    unfolding g2 using upsertEdge_counts [OF room1, of tid "''external''" "spanService s" "''unknown''" "sp_Name s" t2 s] by auto
  ultimately show ?thesis unfolding g1 by blast
qed

definition demo_wide :: live_graph where
  "demo_wide = NewLiveGraph \<lparr>tc_MaxEdges = 10, tc_VanishedAfter = 0\<rparr>"

theorem attributed_call_counted_twice_witness:
  "\<exists>e. map_of (lg_edges (consume_span ''t1'' 9 (topo_span SpanKindServer ''b'' ''y'' ''x'' [])
        (consume_span ''t1'' 4 (topo_span SpanKindClient ''a'' ''x'' no_span ''b'') demo_wide))) (''t1'', ''external'', ''b'', ''unknown'') = Some e
      \<and> ed_Calls e = 1"
  using attributed_call_counted_twice [where c = "topo_span SpanKindClient ''a'' ''x'' no_span ''b''"
    and s = "topo_span SpanKindServer ''b'' ''y'' ''x'' []" and g = demo_wide and tid = "''t1''" and ?t1.0 = 4 and ?t2.0 = 9
    and callee = "''b''" and protocol = "''unknown''"]
  by (auto simp: upsert_key_def demo_wide_def NewLiveGraph_def)

section \<open>Restarts\<close>

text \<open>A sink that keeps what it is given, tenant after tenant, and the edges it would load again.\<close>

definition keep_sink :: "(tenant_id \<times> edge list) list edge_sink" where
  "keep_sink kept t es = (kept @ [(t, es)], None)"

lemma write_edges_keep: "write_edges keep_sink bs kept = (kept @ bs, None)"
  by (induction bs arbitrary: kept) (auto simp: keep_sink_def)

lemma by_tenant_edges: "set (concat (map snd (by_tenant g))) = snd ` set (lg_edges g)"
  by (auto simp: by_tenant_def)

lemma install_map_of:
  "map_of (lg_edges (install_edge e g)) = (map_of (lg_edges g))(key_of e \<mapsto> e)"
  by (simp add: install_edge_def Let_def key_of_def update_conv')

lemma install_all_map_of:
  assumes "\<forall>e \<in> set es. M (key_of e) = Some e"
  shows "map_of (lg_edges (foldl (\<lambda>g e. install_edge e g) g es)) k = (if k \<in> key_of ` set es then M k else map_of (lg_edges g) k)"
  using assms
proof (induction es arbitrary: g)
  case (Cons e es)
  then show ?case by (auto simp: install_map_of)
qed simp

lemma install_all_length:
  "distinct (keys (lg_edges g)) \<Longrightarrow> distinct (keys (lg_edges (foldl (\<lambda>g e. install_edge e g) g es)))"
  by (induction es arbitrary: g) (auto simp: install_edge_def Let_def intro: distinct_update)

lemma graph_ok_map_of: "graph_ok g \<Longrightarrow> e \<in> snd ` set (lg_edges g) \<Longrightarrow> map_of (lg_edges g) (key_of e) = Some e"
  by (auto simp: graph_ok_def intro!: map_of_is_SomeI)

lemma graph_ok_keys: "graph_ok g \<Longrightarrow> key_of ` snd ` set (lg_edges g) = fst ` set (lg_edges g)"
  by (force simp: graph_ok_def)

text \<open>What a flush hands to the sink, loaded by a warm start of a new graph with the same limit, restores
  every edge; the first sightings are not restored, so that each edge counts as new again.\<close>

theorem restart_restores_edges:
  assumes "graph_ok g" and "lg_maxEdges g = tc_MaxEdges cfg"
  shows "\<exists>kept. Topology_Flush (Some keep_sink) g [] = (kept, None)
    \<and> map_of (lg_edges (fst (WarmStart (Some (Inr (concat (map snd kept)))) (NewLiveGraph cfg)))) = map_of (lg_edges g)
    \<and> lg_lastNewEmit (fst (WarmStart (Some (Inr (concat (map snd kept)))) (NewLiveGraph cfg))) = Map.empty"
proof -
  let ?es = "concat (map snd (by_tenant g))"
  let ?n = "NewLiveGraph cfg"
  let ?w = "foldl (\<lambda>g e. install_edge e g) ?n ?es"
  have n: "lg_edges ?n = []" "lg_maxEdges ?n = tc_MaxEdges cfg" "lg_lastNewEmit ?n = Map.empty" by (simp_all add: NewLiveGraph_def)
  have "map_of (lg_edges ?w) k = map_of (lg_edges g) k" for k
  proof -
    have "\<forall>e \<in> set ?es. map_of (lg_edges g) (key_of e) = Some e"
      unfolding by_tenant_edges using graph_ok_map_of [OF assms(1)] by blast
    from install_all_map_of [OF this, of ?n k] show ?thesis
      unfolding by_tenant_edges graph_ok_keys [OF assms(1)] n by (metis map_of.simps(1) map_of_eq_None_iff)
  qed
  then have same: "map_of (lg_edges ?w) = map_of (lg_edges g)" by blast
  have d: "distinct (keys (lg_edges ?w))" "distinct (keys (lg_edges g))"
    using install_all_length [of ?n ?es] n assms(1) by (simp_all add: graph_ok_def)
  have "length (lg_edges ?w) = card (dom (map_of (lg_edges ?w)))"
    using d(1) by (metis distinct_card dom_map_of_conv_image_fst length_map set_map)
  also have "\<dots> = length (lg_edges g)"
    unfolding same using d(2) by (metis distinct_card dom_map_of_conv_image_fst length_map set_map)
  finally have "evictIfNeeded ?w = ?w"
    using assms n by (auto simp: evictIfNeeded_def graph_ok_def intro!: evict_loop_stop)
  moreover have "lg_lastNewEmit (foldl (\<lambda>g e. install_edge e g) h es) = lg_lastNewEmit h" for h es
    by (induction es arbitrary: h) (simp_all add: install_edge_def Let_def)
  ultimately show ?thesis
    by (intro exI [of _ "by_tenant g"]) (simp add: Topology_Flush_def write_edges_keep WarmStart_def same n(3))
qed

theorem restart_restores_edges_witness:
  "\<exists>kept. Topology_Flush (Some keep_sink) demo_full [] = (kept, None)
    \<and> map_of (lg_edges (fst (WarmStart (Some (Inr (concat (map snd kept)))) (NewLiveGraph \<lparr>tc_MaxEdges = 1, tc_VanishedAfter = 0\<rparr>))))
        (''t1'', ''a'', ''b'', ''http'') = Some (snd (demo_edge ''b'' 7))"
  using restart_restores_edges [where g = demo_full and cfg = "\<lparr>tc_MaxEdges = 1, tc_VanishedAfter = 0\<rparr>"]
  by (auto simp: demo_full_def graph_ok_def demo_edge_def key_of_def count_edge_def new_edge_def demo_topo_def NewLiveGraph_def)

end
