(* ===== verification/MemoryModel.thy ===== *)
theory MemoryModel
  imports RcaModel GoStrings Float64
begin

text \<open>
  internal/model/memory.go, and fingerprint.go and scorer.go of internal/memory: the records of the incident
  memory, the fingerprint of an incident, and the similarity of two token sets.  The 64-bit hash is the
  argument \<open>xxh\<close>.
\<close>

section \<open>internal/model/memory.go\<close>

datatype record_kind =
    RecordInvestigation | RecordRunbook | RecordCorrection | RecordServiceMeta | RecordKindUndeclared "8 word"

fun record_kind_code :: "record_kind \<Rightarrow> 8 word" where
  "record_kind_code RecordInvestigation = 1"
| "record_kind_code RecordRunbook = 2"
| "record_kind_code RecordCorrection = 3"
| "record_kind_code RecordServiceMeta = 4"
| "record_kind_code (RecordKindUndeclared w) = w"

text \<open>The conversion of a \<open>uint8\<close>.\<close>

definition record_kind_of :: "8 word \<Rightarrow> record_kind" where
  "record_kind_of w =
     (if w = 1 then RecordInvestigation else if w = 2 then RecordRunbook else if w = 3 then RecordCorrection
      else if w = 4 then RecordServiceMeta else RecordKindUndeclared w)"

datatype provenance = ProvHumanCurated | ProvLLMAuthored | ProvImported

fun provenance_code :: "provenance \<Rightarrow> 8 word" where
  "provenance_code ProvHumanCurated = 1"
| "provenance_code ProvLLMAuthored = 2"
| "provenance_code ProvImported = 3"

record mem_record =
  mr_ID :: string
  mr_Tenant :: tenant_id
  mr_Kind :: record_kind
  mr_Fingerprint :: string
  mr_FingerprintTerms :: "string list"
  mr_Symptom :: string
  mr_RootCause :: string
  mr_Resolution :: string
  mr_Services :: "string list"
  mr_ErrorSignatures :: "string list"
  mr_SourceInvestigationID :: string
  mr_SupersedesID :: string
  mr_Embedding :: "rat list"
  mr_EmbeddingModel :: string
  mr_Weight :: rat
  mr_Confirmations :: int
  mr_Corrections :: int
  mr_Provenance :: provenance
  mr_TrustTier :: "8 word"
  mr_Tags :: "string list"
  mr_BodyMarkdown :: string
  mr_CreatedAt :: gotime
  mr_UpdatedAt :: gotime
  mr_LastUsedAt :: gotime
  mr_TTLDays :: int

text \<open>What the struct literals of the code share: a record of a kind, with the fields they leave out zero.\<close>

definition base_record :: "string \<Rightarrow> tenant_id \<Rightarrow> record_kind \<Rightarrow> string \<Rightarrow> string list \<Rightarrow> rat \<Rightarrow> provenance \<Rightarrow> 8 word
    \<Rightarrow> gotime \<Rightarrow> mem_record" where
  "base_record i tid k fp terms w pr tier now =
     \<lparr>mr_ID = i, mr_Tenant = tid, mr_Kind = k, mr_Fingerprint = fp, mr_FingerprintTerms = terms, mr_Symptom = [],
      mr_RootCause = [], mr_Resolution = [], mr_Services = [], mr_ErrorSignatures = [], mr_SourceInvestigationID = [],
      mr_SupersedesID = [], mr_Embedding = [], mr_EmbeddingModel = [], mr_Weight = w, mr_Confirmations = 0,
      mr_Corrections = 0, mr_Provenance = pr, mr_TrustTier = tier, mr_Tags = [], mr_BodyMarkdown = [],
      mr_CreatedAt = now, mr_UpdatedAt = now, mr_LastUsedAt = now, mr_TTLDays = 0\<rparr>"

record investigation_record =
  ir_InvestigationID :: string
  ir_IncidentID :: string
  ir_Tenant :: tenant_id
  ir_Fingerprint :: string
  ir_Symptom :: string
  ir_RootCause :: string
  ir_Confidence :: rat
  ir_Services :: "string list"
  ir_ErrorSignatures :: "string list"
  ir_EvidenceRefs :: "string list"
  ir_ReasonerKind :: reasoner_kind
  ir_ConcludedAt :: gotime
  ir_BodyMarkdown :: string

section \<open>fingerprint.go\<close>

record fingerprint =
  fp_TenantID :: tenant_id
  fp_Tokens :: "string list"
  fp_Hash :: string

definition maxFingerprintTokens :: nat where "maxFingerprintTokens = 24"

definition tagged :: "string \<Rightarrow> string list \<Rightarrow> string list" where
  "tagged p vs = map (\<lambda>v. p @ v) (filter (\<lambda>v. v \<noteq> []) vs)"

definition buildTokens :: "string list \<Rightarrow> string list \<Rightarrow> string list \<Rightarrow> string list \<Rightarrow> string list" where
  "buildTokens services errorSignatures deployMarkerIDs namespaces =
     take maxFingerprintTokens (sort (remdups
       (tagged ''svc:'' services @ tagged ''errsig:'' errorSignatures @ tagged ''dep:'' deployMarkerIDs
        @ tagged ''ns:'' namespaces)))"

text \<open>\<open>%016x\<close>.\<close>

definition hex16 :: "64 word \<Rightarrow> string" where
  "hex16 w = map (\<lambda>i. hex_digit (unat (drop_bit (4 * i) w) mod 16)) (rev [0..<16])"

definition hashTokens :: "(string \<Rightarrow> 64 word) \<Rightarrow> tenant_id \<Rightarrow> string list \<Rightarrow> string" where
  "hashTokens xxh tid tokens = ''fp1:'' @ hex16 (xxh (tid @ nul @ join_with [CHR 0x01] tokens))"

definition fromTokens :: "(string \<Rightarrow> 64 word) \<Rightarrow> tenant_id \<Rightarrow> string list \<Rightarrow> fingerprint" where
  "fromTokens xxh tid tokens =
     (let out = take maxFingerprintTokens (sort (remdups (filter (\<lambda>t. t \<noteq> []) tokens)))
      in \<lparr>fp_TenantID = tid, fp_Tokens = out, fp_Hash = hashTokens xxh tid out\<rparr>)"

definition Compute :: "(string \<Rightarrow> 64 word) \<Rightarrow> tenant_id \<Rightarrow> incident \<Rightarrow> fingerprint" where
  "Compute xxh tid inc =
     (let services = in_Services inc @ (if in_EpicenterService inc \<noteq> [] then [in_EpicenterService inc] else []);
          tokens = buildTokens services [] (in_DeployMarkerIDs inc) []
      in \<lparr>fp_TenantID = tid, fp_Tokens = tokens, fp_Hash = hashTokens xxh tid tokens\<rparr>)"

section \<open>scorer.go\<close>

definition is_word_char :: "char \<Rightarrow> bool" where
  "is_word_char c = (let n = of_char c :: nat in (97 \<le> n \<and> n \<le> 122) \<or> (48 \<le> n \<and> n \<le> 57))"

definition tokenize :: "string \<Rightarrow> string list" where
  "tokenize s = runs_of is_word_char (to_lower s)"

text \<open>A set of tokens is a list without repetitions.\<close>

definition tokenSet :: "string list list \<Rightarrow> string list" where
  "tokenSet tokens = remdups (filter (\<lambda>t. t \<noteq> []) (concat tokens))"

definition jaccard :: "string list \<Rightarrow> string list \<Rightarrow> rat" where
  "jaccard a b =
     (if a = [] \<and> b = [] then 0
      else
       (let inter = length (filter (\<lambda>k. k \<in> set b) a);
            union = length a + length b - inter
        in if union = 0 then 0 else rnd64 (of_nat inter / of_nat union)))"

record mem_query =
  mq_Fingerprint :: fingerprint
  mq_Text :: string

type_synonym scored = "mem_record \<times> rat"

text \<open>A \<open>SimilarityScorer\<close>: its answer for a tenant, a query and the candidates.\<close>

type_synonym scorer = "tenant_id \<Rightarrow> mem_query \<Rightarrow> mem_record list \<Rightarrow> string + scored list"

definition textWeight :: rat where "textWeight = rnd64 (3 / 10)"

definition fpWeight :: rat where "fpWeight = rnd64 (7 / 10)"

definition lexical_score :: "mem_query \<Rightarrow> mem_record \<Rightarrow> rat" where
  "lexical_score q r =
     (let qTextSet = tokenSet [tokenize (mq_Text q)];
          fpScore = jaccard (tokenSet [fp_Tokens (mq_Fingerprint q)]) (tokenSet [mr_FingerprintTerms r])
      in if qTextSet \<noteq> [] then
           rnd64 (rnd64 (fpWeight * fpScore)
             + rnd64 (textWeight * jaccard qTextSet
                 (tokenSet [tokenize (mr_Symptom r), tokenize (mr_RootCause r), tokenize (mr_BodyMarkdown r)])))
         else fpScore)"

definition lexicalScorer :: "string option \<Rightarrow> scorer" where
  "lexicalScorer ctxErr tid q cand =
     (case ctxErr of Some e \<Rightarrow> Inl e | None \<Rightarrow> Inr (map (\<lambda>r. (r, lexical_score q r)) cand))"

end
