(* ===== verification/MemoryStore.thy ===== *)
theory MemoryStore
  imports MemoryModel "HOL-Library.Product_Lexorder"
begin

text \<open>
  internal/memory/store.go: the in-memory store.  Every method holds the mutex, so each is one atomic function of
  the store; \<open>Similar\<close> scores after releasing it, on copies.  The maps are ranged over, so they are association
  lists whose order is one the runtime may choose; where that order can change the result (the repair of
  the ranking) it is an argument.  Each reading of the clock is an argument.  \<open>math.Pow\<close>, the JSON encoder
  and decoder and the RFC 3339 form of a time are arguments.
\<close>

section \<open>State\<close>

type_synonym record_map = "(string \<times> mem_record) list"

record mem_store =
  ms_records :: "(tenant_id \<times> record_map) list"
  ms_seq :: int

definition NewInMemoryStore :: mem_store where
  "NewInMemoryStore = \<lparr>ms_records = [], ms_seq = 0\<rparr>"

definition minSimilarity :: rat where "minSimilarity = rnd64 (35 / 100)"
definition maxCandidates :: nat where "maxCandidates = 500"
definition dedupeThreshold :: rat where "dedupeThreshold = rnd64 (6 / 10)"
definition pruneAfter :: duration where "pruneAfter = 400 * 24 * 60 * minute"
definition decayHalfLife :: duration where "decayHalfLife = 90 * 24 * 60 * minute"

definition nextID :: "string \<Rightarrow> gotime \<Rightarrow> mem_store \<Rightarrow> string \<times> mem_store" where
  "nextID p now s =
     (p @ ''-'' @ show_int (wrap64 (unix_nano now)) @ ''-'' @ show_int (ms_seq s + 1), s\<lparr>ms_seq := ms_seq s + 1\<rparr>)"

text \<open>A missing tenant has the empty map.\<close>

definition tenantMap :: "tenant_id \<Rightarrow> mem_store \<Rightarrow> record_map" where
  "tenantMap tid s = (case map_of (ms_records s) tid of None \<Rightarrow> [] | Some tm \<Rightarrow> tm)"

definition put_tenant :: "tenant_id \<Rightarrow> record_map \<Rightarrow> mem_store \<Rightarrow> mem_store" where
  "put_tenant tid tm s = s\<lparr>ms_records := AList.update tid tm (ms_records s)\<rparr>"

definition insert_record :: "tenant_id \<Rightarrow> mem_record \<Rightarrow> mem_store \<Rightarrow> mem_store" where
  "insert_record tid r s = put_tenant tid (AList.update (mr_ID r) r (tenantMap tid s)) s"

definition not_found_text :: "string \<Rightarrow> tenant_id \<Rightarrow> string" where
  "not_found_text i tid = ''memory: record '' @ go_quote i @ '' not found for tenant '' @ go_quote tid"

section \<open>Record\<close>

definition provenanceFor :: "investigation_record \<Rightarrow> provenance" where
  "provenanceFor rec = (if ir_ReasonerKind rec = ReasonerLLM then ProvLLMAuthored else ProvHumanCurated)"

definition trustTierFor :: "investigation_record \<Rightarrow> 8 word" where
  "trustTierFor rec = (if ir_ReasonerKind rec = ReasonerLLM then 3 else 1)"

definition store_Record :: "(string \<Rightarrow> 64 word) \<Rightarrow> tenant_id \<Rightarrow> investigation_record \<Rightarrow> gotime \<Rightarrow> gotime \<Rightarrow> mem_store
    \<Rightarrow> mem_store \<times> string option" where
  "store_Record xxh tid rec now idt s =
     (if tid = [] then (s, Some ''memory: tenant id is required'')
      else
       (let terms = buildTokens (ir_Services rec) (ir_ErrorSignatures rec) [] [];
            fp = (if ir_Fingerprint rec = [] then hashTokens xxh tid terms else ir_Fingerprint rec);
            (i, s1) = nextID ''rec'' idt s;
            r = (base_record i tid RecordInvestigation fp terms 1 (provenanceFor rec) (trustTierFor rec) now)
                  \<lparr>mr_Symptom := ir_Symptom rec, mr_RootCause := ir_RootCause rec, mr_Services := ir_Services rec,
                   mr_ErrorSignatures := ir_ErrorSignatures rec, mr_SourceInvestigationID := ir_InvestigationID rec,
                   mr_BodyMarkdown := ir_BodyMarkdown rec\<rparr>
        in (insert_record tid r s1, None)))"

section \<open>Retrieval\<close>

text \<open>\<open>Duration.Seconds\<close>.\<close>

definition duration_seconds :: "duration \<Rightarrow> rat" where
  "duration_seconds d =
     (let sec = quot d second; nsec = d - second * sec
      in rnd64 (rnd64 (of_int sec) + rnd64 (of_int nsec / 1000000000)))"

definition decay_pow :: "(rat \<Rightarrow> rat \<Rightarrow> rat) \<Rightarrow> rat \<Rightarrow> rat \<Rightarrow> rat" where
  "decay_pow mpow base ex = (if ex = 0 then 1 else mpow base ex)"

definition effectiveWeight :: "(rat \<Rightarrow> rat \<Rightarrow> rat) \<Rightarrow> mem_record \<Rightarrow> gotime \<Rightarrow> rat" where
  "effectiveWeight mpow r now =
     (if mr_Weight r = 0 then 0
      else
       (let age = max 0 (time_sub now (mr_LastUsedAt r));
            halfLives = rnd64 (duration_seconds age / duration_seconds decayHalfLife)
        in rnd64 (mr_Weight r * decay_pow mpow (1 / 2) halfLives)))"

definition superseded_by :: "record_map \<Rightarrow> (string \<times> string) list" where
  "superseded_by tm =
     foldl (\<lambda>m (k, r). if mr_SupersedesID r \<noteq> [] then AList.update (mr_SupersedesID r) (mr_ID r) m else m) [] tm"

definition token_overlap :: "string list \<Rightarrow> mem_record \<Rightarrow> nat" where
  "token_overlap qs r = length (filter (\<lambda>t. t \<in> set qs) (mr_FingerprintTerms r))"

text \<open>The records by overlap, then by identifier; at most \<open>maxCandidates\<close> of them.\<close>

definition candidates :: "fingerprint \<Rightarrow> record_map \<Rightarrow> mem_record list" where
  "candidates fp tm =
     take maxCandidates
       (sort_key (\<lambda>r. (- int (token_overlap (tokenSet [fp_Tokens fp]) r), mr_ID r)) (map snd tm))"

text \<open>A superseded record stays only with its superseder.\<close>

definition keeps_scored :: "(string \<times> string) list \<Rightarrow> scored list \<Rightarrow> scored \<Rightarrow> bool" where
  "keeps_scored sups scored x =
     (\<not> snd x < minSimilarity
      \<and> (case map_of sups (mr_ID (fst x)) of
           None \<Rightarrow> True
         | Some c \<Rightarrow> list_ex (\<lambda>y. mr_ID (fst y) = c \<and> snd y \<ge> minSimilarity) scored))"

definition rank_of :: "(string \<times> rat) list \<Rightarrow> scored \<Rightarrow> mem_record \<times> rat" where
  "rank_of weights x =
     (fst x, rnd64 (snd x * rnd64 (1 + (case map_of weights (mr_ID (fst x)) of None \<Rightarrow> 1 | Some w \<Rightarrow> w))))"

text \<open>The repair of the ranking: a superseder behind the record it corrects changes places with it.\<close>

definition swap_pair :: "string \<times> string \<Rightarrow> mem_record list \<times> (string \<Rightarrow> nat option)
    \<Rightarrow> mem_record list \<times> (string \<Rightarrow> nat option)" where
  "swap_pair oc kp =
     (case (snd kp (fst oc), snd kp (snd oc)) of
        (Some oi, Some ci) \<Rightarrow>
          if ci > oi then
            ((fst kp)[oi := fst kp ! ci, ci := fst kp ! oi], (snd kp)(fst oc \<mapsto> ci, snd oc \<mapsto> oi))
          else kp
      | _ \<Rightarrow> kp)"

definition positions :: "mem_record list \<Rightarrow> string \<Rightarrow> nat option" where
  "positions rs = map_of (rev (zip (map mr_ID rs) [0..<length rs]))"

definition repair_order :: "(string \<times> string) list \<Rightarrow> mem_record list \<Rightarrow> mem_record list" where
  "repair_order sups rs = fst (foldl (\<lambda>kp oc. swap_pair oc kp) (rs, positions rs) sups)"

definition top_k :: "int \<Rightarrow> 'a list \<Rightarrow> 'a list" where
  "top_k k xs = (if k \<le> 0 \<or> k > int (length xs) then xs else take (nat k) xs)"

definition ranked :: "(rat \<Rightarrow> rat \<Rightarrow> rat) \<Rightarrow> gotime \<Rightarrow> record_map \<Rightarrow> mem_record list \<Rightarrow> scored list \<Rightarrow> mem_record list" where
  "ranked mpow now tm cand scored =
     (let weights = rev (map (\<lambda>r. (mr_ID r, effectiveWeight mpow r now)) cand)
      in map fst (sort_key (\<lambda>x. (- snd x, mr_ID (fst x)))
           (map (rank_of weights) (filter (keeps_scored (superseded_by tm) scored) scored))))"

definition Similar :: "(rat \<Rightarrow> rat \<Rightarrow> rat) \<Rightarrow> ((string \<times> string) list \<Rightarrow> (string \<times> string) list) \<Rightarrow> scorer \<Rightarrow> gotime
    \<Rightarrow> tenant_id \<Rightarrow> fingerprint \<Rightarrow> int \<Rightarrow> mem_store \<Rightarrow> string + mem_record list" where
  "Similar mpow order score now tid fp topK s =
     (let tm = tenantMap tid s;
          cand = candidates fp tm
      in case score tid \<lparr>mq_Fingerprint = fp, mq_Text = []\<rparr> cand of
           Inl e \<Rightarrow> Inl e
         | Inr scored \<Rightarrow>
             Inr (top_k topK (repair_order (order (superseded_by tm)) (ranked mpow now tm cand scored))))"

definition search_score :: "string \<Rightarrow> mem_record \<Rightarrow> rat" where
  "search_score text r =
     jaccard (tokenSet [tokenize text]) (tokenSet [tokenize (mr_Symptom r), tokenize (mr_RootCause r), tokenize (mr_BodyMarkdown r)])"

definition search_hit :: "string \<Rightarrow> mem_record \<Rightarrow> bool" where
  "search_hit text r =
     (\<not> (search_score text r \<le> 0
         \<and> \<not> sublist (to_lower text) (to_lower (mr_RootCause r @ '' '' @ mr_Symptom r @ '' '' @ mr_BodyMarkdown r))))"

definition Search :: "tenant_id \<Rightarrow> string \<Rightarrow> int \<Rightarrow> mem_store \<Rightarrow> mem_record list" where
  "Search tid text topK s =
     top_k topK (sort_key (\<lambda>r. - search_score text r) (filter (search_hit text) (map snd (tenantMap tid s))))"

definition store_Get :: "tenant_id \<Rightarrow> string \<Rightarrow> mem_store \<Rightarrow> string + mem_record" where
  "store_Get tid i s =
     (case map_of (tenantMap tid s) i of None \<Rightarrow> Inl (not_found_text i tid) | Some r \<Rightarrow> Inr r)"

section \<open>Corrections\<close>

definition correct_weight :: "rat \<Rightarrow> rat" where
  "correct_weight w = (let w' = rnd64 (w - rnd64 (35 / 100)) in if w' < 0 then 0 else w')"

definition confirm_weight :: "rat \<Rightarrow> rat" where
  "confirm_weight w = (let w' = rnd64 (w + rnd64 (15 / 100)) in if w' > 2 then 2 else w')"

definition store_Correct :: "tenant_id \<Rightarrow> correction \<Rightarrow> gotime \<Rightarrow> gotime \<Rightarrow> mem_store \<Rightarrow> mem_store \<times> (string + mem_record)" where
  "store_Correct tid c now idt s =
     (case map_of (tenantMap tid s) (cr_TargetID c) of
        None \<Rightarrow> (s, Inl (not_found_text (cr_TargetID c) tid))
      | Some t \<Rightarrow>
         (let target = t\<lparr>mr_Weight := correct_weight (mr_Weight t), mr_Corrections := mr_Corrections t + 1, mr_UpdatedAt := now\<rparr>;
              (i, s1) = nextID ''cor'' idt s;
              newRec = (base_record i tid RecordCorrection (mr_Fingerprint target) (mr_FingerprintTerms target) 1 ProvHumanCurated 1 now)
                         \<lparr>mr_Symptom := mr_Symptom target, mr_RootCause := cr_NewValue c, mr_Services := mr_Services target,
                          mr_SupersedesID := mr_ID target\<rparr>
          in (put_tenant tid (AList.update i newRec (AList.update (cr_TargetID c) target (tenantMap tid s1))) s1, Inr newRec)))"

definition store_Confirm :: "tenant_id \<Rightarrow> string \<Rightarrow> gotime \<Rightarrow> mem_store \<Rightarrow> mem_store \<times> string option" where
  "store_Confirm tid i now s =
     (case map_of (tenantMap tid s) i of
        None \<Rightarrow> (s, Some (not_found_text i tid))
      | Some r \<Rightarrow>
         (put_tenant tid (AList.update i
            (r\<lparr>mr_Weight := confirm_weight (mr_Weight r), mr_Confirmations := mr_Confirmations r + 1, mr_UpdatedAt := now,
               mr_LastUsedAt := now\<rparr>) (tenantMap tid s)) s, None))"

definition store_Delete :: "tenant_id \<Rightarrow> string \<Rightarrow> mem_store \<Rightarrow> mem_store \<times> string option" where
  "store_Delete tid i s =
     (if map_of (tenantMap tid s) i = None then (s, Some (not_found_text i tid))
      else (put_tenant tid (AList.delete i (tenantMap tid s)) s, None))"

end
