(* ===== verification/MemoryAdmin.thy ===== *)
theory MemoryAdmin
  imports MemoryStore
begin

text \<open>
  internal/memory/store.go and runbook.go: bundles, consolidation and statistics of the store, and the import of
  runbooks.
\<close>

section \<open>Export and import\<close>

record exported_record =
  er_ID :: string
  er_Kind :: "8 word"
  er_Fingerprint :: string
  er_FingerprintTerms :: "string list"
  er_Symptom :: string
  er_RootCause :: string
  er_Services :: "string list"
  er_SupersedesID :: string
  er_Weight :: rat
  er_Confirmations :: int
  er_Corrections :: int
  er_Provenance :: "8 word"
  er_TrustTier :: "8 word"
  er_CreatedAt :: string
  er_LastUsedAt :: string

record export_envelope =
  ee_Schema :: string
  ee_Tenant :: tenant_id
  ee_ExportedAt :: string
  ee_Count :: int
  ee_Records :: "exported_record list"

definition exportSchema :: string where "exportSchema = ''traceiq.memory.v1''"

definition sortedExportRecords :: "record_map \<Rightarrow> mem_record list" where
  "sortedExportRecords tm =
     sort_key (\<lambda>r. (uint (record_kind_code (mr_Kind r)), mr_Fingerprint r, mr_CreatedAt r, mr_ID r)) (map snd tm)"

definition exported :: "(gotime \<Rightarrow> string) \<Rightarrow> mem_record \<Rightarrow> exported_record" where
  "exported fmtTime r =
     \<lparr>er_ID = mr_ID r, er_Kind = record_kind_code (mr_Kind r), er_Fingerprint = mr_Fingerprint r,
      er_FingerprintTerms = mr_FingerprintTerms r, er_Symptom = mr_Symptom r, er_RootCause = mr_RootCause r,
      er_Services = mr_Services r, er_SupersedesID = mr_SupersedesID r, er_Weight = mr_Weight r,
      er_Confirmations = mr_Confirmations r, er_Corrections = mr_Corrections r,
      er_Provenance = provenance_code (mr_Provenance r), er_TrustTier = mr_TrustTier r,
      er_CreatedAt = fmtTime (mr_CreatedAt r), er_LastUsedAt = fmtTime (mr_LastUsedAt r)\<rparr>"

definition nl :: string where "nl = [CHR 0x0A]"
definition crlf :: string where "crlf = [CHR 0x0D, CHR 0x0A]"

definition markdown_record :: "(gotime \<Rightarrow> string) \<Rightarrow> mem_record \<Rightarrow> string" where
  "markdown_record fmtTime r =
     ''## '' @ mr_ID r @ '' ('' @ mr_Fingerprint r @ '')'' @ nl @ nl
     @ ''- Kind: '' @ show_nat (unat (record_kind_code (mr_Kind r))) @ nl @ ''- Weight: '' @ fmt_fixed 2 (mr_Weight r) @ nl
     @ ''- Created: '' @ fmtTime (mr_CreatedAt r) @ nl @ nl
     @ ''### Symptom'' @ nl @ nl @ mr_Symptom r @ nl @ nl @ ''### Root cause'' @ nl @ nl @ mr_RootCause r @ nl @ nl"

definition export_bundle :: "(gotime \<Rightarrow> string) \<Rightarrow> gotime \<Rightarrow> tenant_id \<Rightarrow> mem_store \<Rightarrow> export_envelope" where
  "export_bundle fmtTime now tid s =
     (let recs = map (exported fmtTime) (sortedExportRecords (tenantMap tid s))
      in \<lparr>ee_Schema = exportSchema, ee_Tenant = tid, ee_ExportedAt = fmtTime now, ee_Count = int (length recs), ee_Records = recs\<rparr>)"

definition store_Export :: "(export_envelope \<Rightarrow> string + string) \<Rightarrow> (gotime \<Rightarrow> string) \<Rightarrow> gotime \<Rightarrow> tenant_id \<Rightarrow> string \<Rightarrow> mem_store
    \<Rightarrow> string + string" where
  "store_Export enc fmtTime now tid f s =
     (if f = ''json'' then enc (export_bundle fmtTime now tid s)
      else if f = ''markdown'' then
        Inr (replace_all crlf nl
          (''# TraceIQ Memory Export'' @ nl @ nl @ ''Tenant: '' @ tid @ nl @ nl
           @ concat (map (markdown_record fmtTime) (sortedExportRecords (tenantMap tid s)))))
      else Inl (''memory: unknown export format '' @ go_quote f))"

record import_report =
  im_Imported :: int
  im_Skipped :: int
  im_Errors :: "string list"

text \<open>\<open>parse\<close> is \<open>time.Parse\<close> with the RFC 3339 layout; \<open>idt\<close> gives the clock reading of each new identifier.\<close>

definition imported_record :: "(string \<Rightarrow> gotime option) \<Rightarrow> tenant_id \<Rightarrow> gotime \<Rightarrow> string \<Rightarrow> exported_record \<Rightarrow> mem_record" where
  "imported_record parse tid now i er =
     (base_record i tid (record_kind_of (er_Kind er)) (er_Fingerprint er) (er_FingerprintTerms er) (er_Weight er) ProvImported 2 now)
       \<lparr>mr_Symptom := er_Symptom er, mr_RootCause := er_RootCause er, mr_Services := er_Services er,
        mr_SupersedesID := er_SupersedesID er, mr_Confirmations := er_Confirmations er, mr_Corrections := er_Corrections er,
        mr_CreatedAt := (case parse (er_CreatedAt er) of None \<Rightarrow> now | Some t \<Rightarrow> t),
        mr_LastUsedAt := (case parse (er_LastUsedAt er) of None \<Rightarrow> now | Some t \<Rightarrow> t)\<rparr>"

definition import_one :: "(string \<Rightarrow> gotime option) \<Rightarrow> tenant_id \<Rightarrow> gotime \<Rightarrow> (int \<Rightarrow> gotime) \<Rightarrow> mem_store \<Rightarrow> exported_record \<Rightarrow> mem_store" where
  "import_one parse tid now idt s er =
     (let (i, s1) = (if map_of (tenantMap tid s) (er_ID er) \<noteq> None \<or> er_ID er = [] then nextID ''imp'' (idt (ms_seq s)) s
                     else (er_ID er, s))
      in insert_record tid (imported_record parse tid now i er) s1)"

definition store_Import :: "(string \<Rightarrow> string + export_envelope) \<Rightarrow> (string \<Rightarrow> gotime option) \<Rightarrow> gotime \<Rightarrow> (int \<Rightarrow> gotime)
    \<Rightarrow> tenant_id \<Rightarrow> string \<Rightarrow> string \<Rightarrow> mem_store \<Rightarrow> mem_store \<times> (string + import_report)" where
  "store_Import dec parse now idt tid input f s =
     (if f \<noteq> ''json'' then (s, Inl (''memory: import only supports json bundles, got '' @ go_quote f))
      else
       (case dec input of
          Inl e \<Rightarrow> (s, Inl (''memory: invalid import bundle: '' @ e))
        | Inr env \<Rightarrow>
            if ee_Schema env \<noteq> exportSchema then (s, Inl (''memory: unknown import schema '' @ go_quote (ee_Schema env)))
            else
              (foldl (import_one parse tid now idt) s (ee_Records env),
               Inr \<lparr>im_Imported = int (length (ee_Records env)), im_Skipped = 0, im_Errors = []\<rparr>)))"

section \<open>Consolidation\<close>

record consolidate_report =
  cn_PairsExamined :: int
  cn_Merged :: int

text \<open>The variables of the loops over the identifiers of one tenant.\<close>

record merge_state =
  mg_map :: record_map
  mg_merged :: "string set"
  mg_report :: consolidate_report

definition similar_terms :: "mem_record \<Rightarrow> mem_record \<Rightarrow> bool" where
  "similar_terms a b =
     (\<not> jaccard (tokenSet [mr_FingerprintTerms a]) (tokenSet [mr_FingerprintTerms b]) < dedupeThreshold)"

definition merge_pair :: "mem_record \<Rightarrow> mem_record \<Rightarrow> merge_state \<Rightarrow> merge_state" where
  "merge_pair a b g =
     (let g1 = g\<lparr>mg_report := (mg_report g)\<lparr>cn_PairsExamined := cn_PairsExamined (mg_report g) + 1\<rparr>\<rparr> in
      if mr_Kind a \<noteq> mr_Kind b then g1
      else if \<not> similar_terms a b then g1
      else
       (let dup = (if mr_CreatedAt b > mr_CreatedAt a then a else b)
        in g1\<lparr>mg_map := AList.delete (mr_ID dup) (mg_map g1), mg_merged := insert (mr_ID dup) (mg_merged g1),
              mg_report := (mg_report g1)\<lparr>cn_Merged := cn_Merged (mg_report g1) + 1\<rparr>\<rparr>))"

fun merge_inner :: "mem_record \<Rightarrow> string list \<Rightarrow> merge_state \<Rightarrow> merge_state" where
  "merge_inner a [] g = g"
| "merge_inner a (j # js) g =
     (if j \<in> mg_merged g then merge_inner a js g
      else case map_of (mg_map g) j of
             None \<Rightarrow> merge_inner a js g
           | Some b \<Rightarrow> merge_inner a js (merge_pair a b g))"

fun merge_outer :: "string list \<Rightarrow> merge_state \<Rightarrow> merge_state" where
  "merge_outer [] g = g"
| "merge_outer (i # js) g =
     (if i \<in> mg_merged g then merge_outer js g
      else case map_of (mg_map g) i of
             None \<Rightarrow> merge_outer js g
           | Some a \<Rightarrow> merge_outer js (merge_inner a js g))"

definition stale :: "gotime \<Rightarrow> mem_record \<Rightarrow> bool" where
  "stale now r = (mr_Kind r \<noteq> RecordRunbook \<and> time_sub now (mr_CreatedAt r) > pruneAfter)"

definition consolidate_tenant :: "gotime \<Rightarrow> record_map \<Rightarrow> consolidate_report \<Rightarrow> record_map \<times> consolidate_report" where
  "consolidate_tenant now tm rep =
     (let g = merge_outer (sort (map fst tm)) \<lparr>mg_map = tm, mg_merged = {}, mg_report = rep\<rparr>
      in (filter (\<lambda>(k, r). \<not> stale now r) (mg_map g), mg_report g))"

fun consolidate_all :: "gotime \<Rightarrow> (tenant_id \<times> record_map) list \<Rightarrow> consolidate_report
    \<Rightarrow> (tenant_id \<times> record_map) list \<times> consolidate_report" where
  "consolidate_all now [] rep = ([], rep)"
| "consolidate_all now ((t, tm) # rest) rep =
     (let (tm', rep1) = consolidate_tenant now tm rep;
          (rest', rep2) = consolidate_all now rest rep1
      in ((t, tm') # rest', rep2))"

text \<open>The third result is the duration of the report, the time the clock measured.\<close>

definition store_Consolidate :: "gotime \<Rightarrow> duration \<Rightarrow> mem_store \<Rightarrow> mem_store \<times> consolidate_report \<times> duration" where
  "store_Consolidate now elapsed s =
     (let (recs, rep) = consolidate_all now (ms_records s) \<lparr>cn_PairsExamined = 0, cn_Merged = 0\<rparr>
      in (s\<lparr>ms_records := recs\<rparr>, rep, elapsed))"

record mem_stats =
  mt_Records :: nat
  mt_VocabularyLen :: nat

definition store_Stats :: "mem_store \<Rightarrow> mem_stats" where
  "store_Stats s =
     \<lparr>mt_Records = length (concat (map snd (ms_records s))),
      mt_VocabularyLen = length (remdups (concat (map (\<lambda>(k, r). mr_FingerprintTerms r) (concat (map snd (ms_records s))))))\<rparr>"

section \<open>runbook.go\<close>

record runbook =
  rb_Title :: string
  rb_ServiceTags :: "string list"
  rb_SymptomTags :: "string list"
  rb_Body :: string

type_synonym front_matter = "(string \<Rightarrow> string option) \<times> (string \<Rightarrow> string list option)"

definition is_quote :: "char \<Rightarrow> bool" where
  "is_quote c = (c = CHR 0x22 \<or> c = CHR 0x27)"

definition list_items :: "string \<Rightarrow> string list" where
  "list_items v =
     (let inner = trim_space (trim_suffix '']'' (trim_prefix ''['' v))
      in if inner = [] then []
         else filter (\<lambda>x. x \<noteq> []) (map (\<lambda>x. trim_by is_quote (trim_space x)) (split_at_char (CHR '','') inner)))"

definition front_line :: "front_matter \<Rightarrow> string \<Rightarrow> front_matter" where
  "front_line fm text =
     (let l = trim_space text in
      if l = [] \<or> prefix ''#'' l then fm
      else case split_once (CHR '':'') l of
             None \<Rightarrow> fm
           | Some (k, v) \<Rightarrow>
               (let key = trim_space k; val = trim_space v in
                if prefix ''['' val \<and> suffix '']'' val then (fst fm, (snd fm)(key \<mapsto> list_items val))
                else ((fst fm)(key \<mapsto> trim_by is_quote val), snd fm)))"

definition field_list :: "front_matter \<Rightarrow> string \<Rightarrow> string list" where
  "field_list fm key =
     (case snd fm key of
        Some xs \<Rightarrow> xs
      | None \<Rightarrow> (case fst fm key of Some v \<Rightarrow> if v \<noteq> [] then [v] else [] | None \<Rightarrow> []))"

definition show_strings :: "string list \<Rightarrow> string" where
  "show_strings xs = ''['' @ join_with '' '' xs @ '']''"

definition parseRunbookFrontMatter :: "string \<Rightarrow> string + runbook" where
  "parseRunbookFrontMatter markdown =
     (let txt = replace_all crlf nl markdown in
      if \<not> prefix (''---'' @ nl) txt then Inl ''memory: runbook missing opening front-matter delimiter (---)''
      else case cut_at (nl @ ''---'') (drop 4 txt) of
             None \<Rightarrow> Inl ''memory: runbook front matter not terminated (missing closing ---)''
           | Some (fmtxt, aft) \<Rightarrow>
              (let body = trim_space (trim_prefix nl aft);
                   fm = foldl front_line (\<lambda>k. None, \<lambda>k. None) (split_at_char (CHR 0x0A) fmtxt);
                   title = (case fst fm ''title'' of None \<Rightarrow> [] | Some t \<Rightarrow> t);
                   services = field_list fm ''service'';
                   symptomTags = field_list fm ''symptom_tags''
               in if title = [] \<or> services = [] \<or> symptomTags = [] then
                    Inl (''memory: runbook front matter missing required field(s): title='' @ go_quote title
                         @ '' service='' @ show_strings services @ '' symptom_tags='' @ show_strings symptomTags)
                  else Inr \<lparr>rb_Title = title, rb_ServiceTags = services, rb_SymptomTags = symptomTags, rb_Body = body\<rparr>))"

definition Runbook_Import :: "(string \<Rightarrow> 64 word) \<Rightarrow> tenant_id \<Rightarrow> string \<Rightarrow> gotime \<Rightarrow> gotime \<Rightarrow> mem_store
    \<Rightarrow> mem_store \<times> (string + mem_record list)" where
  "Runbook_Import xxh tid markdown now idt s =
     (if tid = [] then (s, Inl ''memory: tenant id is required'')
      else case parseRunbookFrontMatter markdown of
             Inl e \<Rightarrow> (s, Inl e)
           | Inr rb \<Rightarrow>
              (let terms = buildTokens (rb_ServiceTags rb) (rb_SymptomTags rb) [] [];
                   (i, s1) = nextID ''run'' idt s;
                   r = (base_record i tid RecordRunbook (hashTokens xxh tid terms) terms 1 ProvImported 2 now)
                         \<lparr>mr_Symptom := rb_Title rb, mr_RootCause := rb_Body rb, mr_Services := rb_ServiceTags rb,
                          mr_ErrorSignatures := rb_SymptomTags rb, mr_BodyMarkdown := rb_Body rb\<rparr>
               in (insert_record tid r s1, Inr [r])))"

end
