(* ===== verification/MemoryProps.thy ===== *)
theory MemoryProps
  imports MemoryAdmin Transition "HOL-Library.Multiset"
begin

text \<open>
  The incident memory: the invariant of the store, what similarity means on sets of tokens, and the order of a
  record and its correction in a ranking.
\<close>

section \<open>The invariant\<close>

definition map_ok :: "tenant_id \<Rightarrow> record_map \<Rightarrow> bool" where
  "map_ok tid tm \<longleftrightarrow> distinct (keys tm) \<and> (\<forall>(k, r) \<in> set tm. mr_ID r = k \<and> mr_Tenant r = tid)"

definition mem_ok :: "mem_store \<Rightarrow> bool" where
  "mem_ok s \<longleftrightarrow> distinct (keys (ms_records s)) \<and> (\<forall>(t, tm) \<in> set (ms_records s). map_ok t tm)"

text \<open>The calls of the interface, in any order.\<close>

inductive mem_step :: "mem_store \<Rightarrow> mem_store \<Rightarrow> bool" where
  step_Record: "mem_step s (fst (store_Record xxh tid rec now idt s))"
| step_Correct: "mem_step s (fst (store_Correct tid c now idt s))"
| step_Confirm: "mem_step s (fst (store_Confirm tid i now s))"
| step_Delete: "mem_step s (fst (store_Delete tid i s))"
| step_Import: "mem_step s (fst (store_Import dec parse now idts tid input f s))"
| step_Consolidate: "mem_step s (fst (store_Consolidate now elapsed s))"
| step_Runbook: "mem_step s (fst (Runbook_Import xxh tid md now idt s))"

lemma map_ok_Nil [simp]: "map_ok tid []"
  by (simp add: map_ok_def)

lemma map_ok_update: "map_ok tid tm \<Longrightarrow> mr_ID r = k \<Longrightarrow> mr_Tenant r = tid \<Longrightarrow> map_ok tid (AList.update k r tm)"
  unfolding map_ok_def by (intro conjI set_update_keys distinct_keys_update) blast+

lemma map_ok_delete: "map_ok tid tm \<Longrightarrow> map_ok tid (AList.delete k tm)"
  by (auto simp: map_ok_def AList.delete_eq distinct_map_filter)

lemma map_ok_filter: "map_ok tid tm \<Longrightarrow> map_ok tid (filter P tm)"
  by (auto simp: map_ok_def distinct_map_filter)

lemma tenantMap_ok: "mem_ok s \<Longrightarrow> map_ok tid (tenantMap tid s)"
  by (auto simp: mem_ok_def tenantMap_def split: option.splits dest!: map_of_SomeD)

lemma put_tenant_ok: "mem_ok s \<Longrightarrow> map_ok tid tm \<Longrightarrow> mem_ok (put_tenant tid tm s)"
proof -
  assume a: "mem_ok s" "map_ok tid tm"
  then have "\<forall>(t, tm') \<in> set (AList.update tid tm (ms_records s)). map_ok t tm'"
    by (intro set_update_keys) (simp_all add: mem_ok_def)
  with a(1) show ?thesis by (simp add: mem_ok_def put_tenant_def)
qed

lemma insert_record_ok: "mem_ok s \<Longrightarrow> mr_Tenant r = tid \<Longrightarrow> mem_ok (insert_record tid r s)"
  by (simp add: insert_record_def put_tenant_ok map_ok_update tenantMap_ok)

lemma nextID_fields: "nextID p t s = (i, s1) \<Longrightarrow> s1 = s\<lparr>ms_seq := ms_seq s + 1\<rparr>"
  by (auto simp: nextID_def)

lemma mem_ok_seq [simp]: "mem_ok (s\<lparr>ms_seq := n\<rparr>) = mem_ok s" "tenantMap tid (s\<lparr>ms_seq := n\<rparr>) = tenantMap tid s"
  by (simp_all add: mem_ok_def tenantMap_def)

lemma base_record_fields [simp]:
  "mr_ID (base_record i tid k fp terms w pr tier now) = i" "mr_Tenant (base_record i tid k fp terms w pr tier now) = tid"
  "mr_Weight (base_record i tid k fp terms w pr tier now) = w" "mr_Kind (base_record i tid k fp terms w pr tier now) = k"
  "mr_FingerprintTerms (base_record i tid k fp terms w pr tier now) = terms"
  "mr_SupersedesID (base_record i tid k fp terms w pr tier now) = []"
  by (simp_all add: base_record_def)

lemma map_ok_lookup: "map_ok tid tm \<Longrightarrow> map_of tm k = Some r \<Longrightarrow> mr_ID r = k \<and> mr_Tenant r = tid"
  by (auto simp: map_ok_def dest!: map_of_SomeD)

lemma Record_ok: "mem_ok s \<Longrightarrow> mem_ok (fst (store_Record xxh tid rec now idt s))"
  by (auto simp: store_Record_def Let_def nextID_def insert_record_ok)

lemma Correct_ok: "mem_ok s \<Longrightarrow> mem_ok (fst (store_Correct tid c now idt s))"
  by (auto simp: store_Correct_def Let_def nextID_def split: option.splits
      intro!: put_tenant_ok map_ok_update dest: map_ok_lookup [OF tenantMap_ok] intro: tenantMap_ok)

lemma Confirm_ok: "mem_ok s \<Longrightarrow> mem_ok (fst (store_Confirm tid i now s))"
  by (auto simp: store_Confirm_def split: option.splits
      intro!: put_tenant_ok map_ok_update dest: map_ok_lookup [OF tenantMap_ok] intro: tenantMap_ok)

lemma Delete_ok: "mem_ok s \<Longrightarrow> mem_ok (fst (store_Delete tid i s))"
  by (simp add: store_Delete_def put_tenant_ok map_ok_delete tenantMap_ok)

lemma import_one_ok: "mem_ok s \<Longrightarrow> mem_ok (import_one parse tid now idt s er)"
  by (auto simp: import_one_def Let_def nextID_def imported_record_def insert_record_ok)

lemma import_all_ok: "mem_ok s \<Longrightarrow> mem_ok (foldl (import_one parse tid now idt) s ers)"
  by (induction ers arbitrary: s) (auto intro: import_one_ok)

lemma Import_ok: "mem_ok s \<Longrightarrow> mem_ok (fst (store_Import dec parse now idt tid input f s))"
  by (auto simp: store_Import_def Let_def import_all_ok split: sum.splits)

lemma Runbook_ok: "mem_ok s \<Longrightarrow> mem_ok (fst (Runbook_Import xxh tid md now idt s))"
  by (auto simp: Runbook_Import_def Let_def nextID_def insert_record_ok split: sum.splits)

section \<open>Consolidation only removes\<close>

lemma merge_pair_map: "mg_map (merge_pair a b g) = mg_map g \<or> (\<exists>k. mg_map (merge_pair a b g) = AList.delete k (mg_map g))"
  by (auto simp: merge_pair_def Let_def)

lemma merge_inner_sub: "set (mg_map (merge_inner a js g)) \<subseteq> set (mg_map g) \<and> (distinct (keys (mg_map g)) \<longrightarrow> distinct (keys (mg_map (merge_inner a js g))))"
proof (induction js arbitrary: g)
  case (Cons j js)
  have one: "set (mg_map (merge_pair a b g)) \<subseteq> set (mg_map g) \<and> (distinct (keys (mg_map g)) \<longrightarrow> distinct (keys (mg_map (merge_pair a b g))))" for b
    using merge_pair_map [of a b g] by (auto simp: AList.delete_eq distinct_map_filter)
  show ?case
  proof (cases "j \<in> mg_merged g \<or> map_of (mg_map g) j = None")
    case True
    with Cons.IH [of g] show ?thesis by (auto split: option.splits)
  next
    case False
    then obtain b where "merge_inner a (j # js) g = merge_inner a js (merge_pair a b g)" by (auto split: option.splits)
    with Cons.IH [of "merge_pair a b g"] one [of b] show ?thesis by auto
  qed
qed simp

lemma merge_outer_sub: "set (mg_map (merge_outer is g)) \<subseteq> set (mg_map g) \<and> (distinct (keys (mg_map g)) \<longrightarrow> distinct (keys (mg_map (merge_outer is g))))"
proof (induction "is" arbitrary: g)
  case (Cons i js)
  show ?case
  proof (cases "i \<in> mg_merged g \<or> map_of (mg_map g) i = None")
    case True
    with Cons.IH [of g] show ?thesis by (auto split: option.splits)
  next
    case False
    then obtain a where "merge_outer (i # js) g = merge_outer js (merge_inner a js g)" by (auto split: option.splits)
    with Cons.IH [of "merge_inner a js g"] merge_inner_sub [of a js g] show ?thesis by auto
  qed
qed simp

lemma consolidate_tenant_sub:
  "set (fst (consolidate_tenant now tm rep)) \<subseteq> set tm \<and> (distinct (keys tm) \<longrightarrow> distinct (keys (fst (consolidate_tenant now tm rep))))"
  using merge_outer_sub [of "sort (keys tm)" "\<lparr>mg_map = tm, mg_merged = {}, mg_report = rep\<rparr>"]
  by (auto simp: consolidate_tenant_def Let_def distinct_map_filter)

lemma consolidate_all_ok:
  "keys (fst (consolidate_all now recs rep)) = keys recs
   \<and> ((\<forall>(t, tm) \<in> set recs. map_ok t tm) \<longrightarrow> (\<forall>(t, tm) \<in> set (fst (consolidate_all now recs rep)). map_ok t tm))"
proof (induction now recs rep rule: consolidate_all.induct)
  case (2 now t tm rest rep)
  obtain tm' rep1 where 1: "consolidate_tenant now tm rep = (tm', rep1)" by force
  obtain rest' rep2 where 2: "consolidate_all now rest rep1 = (rest', rep2)" by force
  from consolidate_tenant_sub [of now tm rep] have "map_ok t tm \<longrightarrow> map_ok t tm'" unfolding 1 by (auto simp: map_ok_def)
  with "2.IH" [OF 1 [symmetric] refl] show ?case by (simp add: 1 2)
qed simp

lemma Consolidate_ok: "mem_ok s \<Longrightarrow> mem_ok (fst (store_Consolidate now elapsed s))"
  using consolidate_all_ok [of now "ms_records s" "\<lparr>cn_PairsExamined = 0, cn_Merged = 0\<rparr>"]
  by (auto simp: mem_ok_def store_Consolidate_def split: prod.splits)

interpretation memory: invariant_system "\<lambda>s. s = NewInMemoryStore" mem_step mem_ok
proof unfold_locales
  show "mem_ok s" if "s = NewInMemoryStore" for s using that by (simp add: mem_ok_def NewInMemoryStore_def)
  show "mem_ok t" if "mem_ok s" and "mem_step s t" for s t
    using that(2,1) by induction (simp_all add: Record_ok Correct_ok Confirm_ok Delete_ok Import_ok Consolidate_ok Runbook_ok)
qed

section \<open>Similarity of token sets\<close>

lemma tokenSet_set: "set (tokenSet [xs]) = set xs - {[]}" "distinct (tokenSet ts)"
  by (auto simp: tokenSet_def)

lemma jaccard_sets:
  assumes "distinct a" and "distinct b" and "a \<noteq> []"
  shows "jaccard a b = rnd64 (of_nat (card (set a \<inter> set b)) / of_nat (card (set a \<union> set b)))"
proof -
  have i: "length (filter (\<lambda>k. k \<in> set b) a) = card (set a \<inter> set b)"
  proof -
    have "set a \<inter> set b = set (filter (\<lambda>k. k \<in> set b) a)" by auto
    moreover have "card (set (filter (\<lambda>k. k \<in> set b) a)) = length (filter (\<lambda>k. k \<in> set b) a)"
      by (rule distinct_card) (rule distinct_filter [OF assms(1)])
    ultimately show ?thesis by (simp only:)
  qed
  have "card (set a \<union> set b) + card (set a \<inter> set b) = card (set a) + card (set b)"
    by (rule card_Un_Int [symmetric]) simp_all
  then have u: "length a + length b - card (set a \<inter> set b) = card (set a \<union> set b)"
    using assms(1,2) by (simp add: distinct_card)
  have "card (set a \<union> set b) \<noteq> 0" using assms(3) by (simp add: card_eq_0_iff)
  then show ?thesis using assms(3) unfolding jaccard_def i Let_def u by simp
qed

section \<open>Positions in a ranking\<close>

lemma positions_iff:
  assumes "distinct (map mr_ID rs)"
  shows "positions rs x = Some i \<longleftrightarrow> i < length rs \<and> mr_ID (rs ! i) = x"
proof -
  let ?z = "zip (map mr_ID rs) [0..<length rs]"
  have "distinct (keys (rev ?z))" using assms by (simp flip: rev_map)
  from in_set_map_of [OF this] have "positions rs x = Some i \<longleftrightarrow> (x, i) \<in> set ?z" by (simp add: positions_def)
  also have "\<dots> \<longleftrightarrow> i < length rs \<and> mr_ID (rs ! i) = x" by (auto simp: set_zip intro!: exI [of _ i])
  finally show ?thesis .
qed

definition located :: "mem_record list \<times> (string \<Rightarrow> nat option) \<Rightarrow> bool" where
  "located kp \<longleftrightarrow> distinct (map mr_ID (fst kp)) \<and> snd kp = positions (fst kp)"

lemma swap_pair_located:
  assumes "located kp" and "fst oc \<noteq> snd oc"
  shows "located (swap_pair oc kp) \<and> mset (fst (swap_pair oc kp)) = mset (fst kp)
    \<and> (\<forall>x. x \<noteq> fst oc \<longrightarrow> x \<noteq> snd oc \<longrightarrow> snd (swap_pair oc kp) x = snd kp x)
    \<and> (\<forall>i j. snd (swap_pair oc kp) (fst oc) = Some i \<longrightarrow> snd (swap_pair oc kp) (snd oc) = Some j \<longrightarrow> j < i)"
proof -
  obtain rs p where kp: "kp = (rs, p)" by force
  obtain x c where oc: "oc = (x, c)" by force
  from assms have d: "distinct (map mr_ID rs)" and p: "p = positions rs" and ne: "x \<noteq> c" by (simp_all add: located_def kp oc)
  show ?thesis
  proof (cases "\<exists>i j. p x = Some i \<and> p c = Some j \<and> i < j")
    case False
    have same: "swap_pair oc kp = kp"
      using False by (auto simp: swap_pair_def kp oc split: option.splits)
    have "j < i" if "p x = Some i" "p c = Some j" for i j
    proof -
      have "i \<noteq> j" using that ne positions_iff [OF d] by (auto simp: p)
      with that False show ?thesis by (metis linorder_neqE_nat)
    qed
    with assms(1) show ?thesis unfolding same by (simp add: kp oc)
  next
    case True
    then obtain i j where ij: "p x = Some i" "p c = Some j" "i < j" by blast
    then have at_i: "i < length rs" "mr_ID (rs ! i) = x" and at_j: "j < length rs" "mr_ID (rs ! j) = c"
      using positions_iff [OF d] by (simp_all add: p)
    let ?rs = "rs[i := rs ! j, j := rs ! i]"
    let ?p = "p(x \<mapsto> j, c \<mapsto> i)"
    have go: "swap_pair oc kp = (?rs, ?p)" using ij by (simp add: swap_pair_def kp oc)
    have ms: "mset ?rs = mset rs" using at_i at_j by (simp add: mset_swap)
    have d': "distinct (map mr_ID ?rs)"
    proof -
      have "mset (map mr_ID ?rs) = mset (map mr_ID rs)" using ms by (metis mset_map)
      with d show ?thesis using mset_eq_imp_distinct_iff by blast
    qed
    have "?p y = positions ?rs y" for y
    proof -
      have "?p y = Some k \<longleftrightarrow> positions ?rs y = Some k" for k
      proof -
        have other: "k \<noteq> i \<Longrightarrow> k \<noteq> j \<Longrightarrow> k < length rs \<Longrightarrow> mr_ID (rs ! k) \<noteq> x \<and> mr_ID (rs ! k) \<noteq> c"
          using nth_eq_iff_index_eq [OF d, of k i] nth_eq_iff_index_eq [OF d, of k j] at_i at_j by auto
        show ?thesis
        proof (cases "k = i \<or> k = j")
          case True
          with at_i at_j ij(3) ne show ?thesis
            unfolding positions_iff [OF d'] by (auto simp: p positions_iff [OF d] nth_list_update)
        next
          case out: False
          then have "?rs ! k = rs ! k" by simp
          with out other show ?thesis unfolding positions_iff [OF d'] by (auto simp: p positions_iff [OF d])
        qed
      qed
      then show ?thesis by (metis not_Some_eq)
    qed
    then have loc: "positions ?rs = ?p" by auto
    have "located (?rs, ?p)" using d' loc by (simp add: located_def)
    then show ?thesis unfolding go using ms ij(3) ne by (simp add: kp oc)
  qed
qed

text \<open>Pairs that share no name do not disturb each other.\<close>

lemma repair_fold:
  assumes "located kp" and "distinct (map fst sups @ map snd sups)"
  shows "let kp' = foldl (\<lambda>kp oc. swap_pair oc kp) kp sups in
    located kp' \<and> mset (fst kp') = mset (fst kp)
    \<and> (\<forall>x. x \<notin> fst ` set sups \<longrightarrow> x \<notin> snd ` set sups \<longrightarrow> snd kp' x = snd kp x)
    \<and> (\<forall>(x, c) \<in> set sups. \<forall>i j. snd kp' x = Some i \<longrightarrow> snd kp' c = Some j \<longrightarrow> j < i)"
  using assms
proof (induction sups arbitrary: kp)
  case (Cons oc sups)
  obtain x c where oc: "oc = (x, c)" by force
  let ?kp = "swap_pair oc kp"
  have ne: "fst oc \<noteq> snd oc" and d: "distinct (map fst sups @ map snd sups)" using Cons.prems(2) by auto
  note one = swap_pair_located [OF Cons.prems(1) ne]
  from one have "located ?kp" by blast
  from Cons.IH [OF this d] have IH: "let kp' = foldl (\<lambda>kp oc. swap_pair oc kp) ?kp sups in
    located kp' \<and> mset (fst kp') = mset (fst ?kp)
    \<and> (\<forall>x. x \<notin> fst ` set sups \<longrightarrow> x \<notin> snd ` set sups \<longrightarrow> snd kp' x = snd ?kp x)
    \<and> (\<forall>(x, c) \<in> set sups. \<forall>i j. snd kp' x = Some i \<longrightarrow> snd kp' c = Some j \<longrightarrow> j < i)" .
  have "x \<notin> fst ` set sups" "x \<notin> snd ` set sups" "c \<notin> fst ` set sups" "c \<notin> snd ` set sups" using Cons.prems(2) by (auto simp: oc)
  with IH one show ?case unfolding Let_def oc by (simp only: foldl_Cons oc) auto
qed (simp add: Let_def)

lemma sort_key_distinct: "distinct (map f xs) \<Longrightarrow> distinct (map f (sort_key g xs))"
  by (metis mset_map mset_sort mset_eq_imp_distinct_iff)

end
