(* ===== verification/MemoryClaims.thy ===== *)
theory MemoryClaims
  imports MemoryProps
begin

text \<open>The properties of the incident memory, with the records and stores of their witnesses.\<close>

section \<open>A correction is ranked above what it corrects\<close>

definition corrections_of :: "record_map \<Rightarrow> record_map" where
  "corrections_of tm = filter (\<lambda>(k, c). mr_SupersedesID c \<noteq> []) tm"

text \<open>No correction is itself corrected.\<close>

definition no_chains :: "record_map \<Rightarrow> bool" where
  "no_chains tm \<longleftrightarrow>
     (\<forall>(k, c) \<in> set (corrections_of tm). \<forall>(l, d) \<in> set (corrections_of tm). mr_SupersedesID c \<noteq> mr_ID d)"

lemma map_ok_IDs: "map_ok tid tm \<Longrightarrow> map mr_ID (map snd tm) = keys tm"
  by (auto simp: map_ok_def)

lemma map_ok_unique:
  assumes "map_ok tid tm" and "x \<in> snd ` set tm" and "y \<in> snd ` set tm" and "mr_ID x = mr_ID y"
  shows "x = y"
proof -
  from assms have "(mr_ID x, x) \<in> set tm" "(mr_ID x, y) \<in> set tm" by (auto simp: map_ok_def)
  moreover from assms(1) have "distinct (keys tm)" by (simp add: map_ok_def)
  ultimately show ?thesis by (blast intro: eq_key_imp_eq_value)
qed

text \<open>The map of corrections has each corrected record once, with one of its corrections.\<close>

lemma superseded_fold:
  defines "F \<equiv> \<lambda>m (k :: string, r). if mr_SupersedesID r \<noteq> [] then AList.update (mr_SupersedesID r) (mr_ID r) m else m"
  shows "distinct (keys acc) \<Longrightarrow> distinct (keys (foldl F acc tm))
    \<and> set (foldl F acc tm) \<subseteq> set acc \<union> (\<lambda>(k, c). (mr_SupersedesID c, mr_ID c)) ` set (corrections_of tm)
    \<and> fst ` set (foldl F acc tm) = fst ` set acc \<union> (\<lambda>(k, c). mr_SupersedesID c) ` set (corrections_of tm)"
proof (induction tm arbitrary: acc)
  case (Cons x tm)
  obtain k r where x: "x = (k, r)" by force
  show ?case
  proof (cases "mr_SupersedesID r = []")
    case True
    with Cons show ?thesis by (simp add: x corrections_of_def F_def)
  next
    case False
    let ?acc = "AList.update (mr_SupersedesID r) (mr_ID r) acc"
    have k: "fst ` set ?acc = insert (mr_SupersedesID r) (fst ` set acc)" by (simp add: dom_update)
    have s: "set ?acc \<subseteq> insert (mr_SupersedesID r, mr_ID r) (set acc)" by (auto dest!: set_update_subset)
    have c: "set (corrections_of (x # tm)) = insert (k, r) (set (corrections_of tm))" using False by (simp add: x corrections_of_def)
    have f: "foldl F acc (x # tm) = foldl F ?acc tm" using False by (simp add: x F_def)
    have "distinct (keys ?acc)" using Cons.prems by simp
    from Cons.IH [OF this] s show ?thesis unfolding c f k by auto
  qed
qed (simp add: corrections_of_def)

lemma superseded_by_facts:
  "distinct (keys (superseded_by tm))"
  "(x, i) \<in> set (superseded_by tm) \<Longrightarrow> \<exists>k c. (k, c) \<in> set (corrections_of tm) \<and> mr_SupersedesID c = x \<and> mr_ID c = i"
  "(k, c) \<in> set (corrections_of tm) \<Longrightarrow> \<exists>i. (mr_SupersedesID c, i) \<in> set (superseded_by tm)"
proof -
  note fold = superseded_fold [of "[]" tm, folded superseded_by_def]
  then show "distinct (keys (superseded_by tm))" by simp
  from fold show "(x, i) \<in> set (superseded_by tm) \<Longrightarrow> \<exists>k c. (k, c) \<in> set (corrections_of tm) \<and> mr_SupersedesID c = x \<and> mr_ID c = i"
    by fastforce
  assume "(k, c) \<in> set (corrections_of tm)"
  with fold have "mr_SupersedesID c \<in> fst ` set (superseded_by tm)" by force
  then show "\<exists>i. (mr_SupersedesID c, i) \<in> set (superseded_by tm)" by force
qed

lemma superseded_by_distinct:
  assumes "map_ok tid tm" and "no_chains tm"
  shows "distinct (map fst (superseded_by tm) @ map snd (superseded_by tm))"
proof -
  note f = superseded_by_facts
  have uniq: "x = y" if a: "(x, i) \<in> set (superseded_by tm)" and b: "(y, i) \<in> set (superseded_by tm)" for x y i
  proof -
    obtain k c where c: "(k, c) \<in> set (corrections_of tm)" "mr_SupersedesID c = x" "mr_ID c = i" using f(2) [OF a] by blast
    obtain l d where d: "(l, d) \<in> set (corrections_of tm)" "mr_SupersedesID d = y" "mr_ID d = i" using f(2) [OF b] by blast
    have "c \<in> snd ` set tm" using c(1) unfolding corrections_of_def by force
    moreover have "d \<in> snd ` set tm" using d(1) unfolding corrections_of_def by force
    ultimately have "c = d" using map_ok_unique [OF assms(1)] c(3) d(3) by simp
    with c(2) d(2) show ?thesis by simp
  qed
  have "distinct (superseded_by tm)" using f(1) by (simp add: distinct_map)
  then have "distinct (map snd (superseded_by tm))" unfolding distinct_map by (auto intro!: inj_onI dest: uniq)
  moreover have "x \<noteq> i" if "(x, j) \<in> set (superseded_by tm)" "(y, i) \<in> set (superseded_by tm)" for x y i j
    using f(2) [OF that(1)] f(2) [OF that(2)] assms(2) unfolding no_chains_def by fastforce
  then have "fst ` set (superseded_by tm) \<inter> snd ` set (superseded_by tm) = {}" by fastforce
  ultimately show ?thesis using f(1) by simp
qed

lemma candidates_sub: "set (candidates fp tm) \<subseteq> snd ` set tm"
  using set_take_subset [of maxCandidates "sort_key (\<lambda>r. (- int (token_overlap (tokenSet [fp_Tokens fp]) r), mr_ID r)) (map snd tm)"]
  by (auto simp: candidates_def)

lemma candidates_distinct:
  assumes "map_ok tid tm"
  shows "distinct (map mr_ID (candidates fp tm))"
proof -
  have "distinct (map mr_ID (map snd tm))" using assms unfolding map_ok_IDs [OF assms] by (simp add: map_ok_def)
  from sort_key_distinct [OF this] show ?thesis unfolding candidates_def take_map [symmetric] by (rule distinct_take)
qed

lemma ranked_set: "set (ranked mpow now tm cand scored) = fst ` set (filter (keeps_scored (superseded_by tm) scored) scored)"
  by (auto simp: ranked_def rank_of_def Let_def image_iff)

lemma ranked_distinct: "distinct (map (mr_ID \<circ> fst) scored) \<Longrightarrow> distinct (map mr_ID (ranked mpow now tm cand scored))"
proof -
  assume d: "distinct (map (mr_ID \<circ> fst) scored)"
  have "distinct (map (mr_ID \<circ> fst) (map (rank_of w) (filter P scored)))" for w P
    using distinct_map_filter [OF d] by (simp add: comp_def rank_of_def)
  from sort_key_distinct [OF this] show ?thesis by (simp add: ranked_def Let_def comp_def)
qed

lemma repair_order_facts:
  assumes "distinct (map mr_ID rs)" and "distinct (map fst sups @ map snd sups)"
  shows "mset (repair_order sups rs) = mset rs"
    and "(x, c) \<in> set sups \<Longrightarrow> i < length rs \<Longrightarrow> mr_ID (repair_order sups rs ! i) = x \<Longrightarrow> j < length rs
      \<Longrightarrow> mr_ID (repair_order sups rs ! j) = c \<Longrightarrow> j < i"
proof -
  define kp where "kp = foldl (\<lambda>kp oc. swap_pair oc kp) (rs, positions rs) sups"
  have "located (rs, positions rs)" using assms(1) by (simp add: located_def)
  from repair_fold [OF this assms(2)] have kp: "located kp" "mset (fst kp) = mset rs"
    "\<forall>(x, c) \<in> set sups. \<forall>i j. snd kp x = Some i \<longrightarrow> snd kp c = Some j \<longrightarrow> j < i"
    by (simp_all add: kp_def Let_def)
  have out: "repair_order sups rs = fst kp" by (simp add: repair_order_def kp_def)
  from kp(2) out show "mset (repair_order sups rs) = mset rs" by simp
  have len: "length (fst kp) = length rs" using kp(2) by (metis size_mset)
  have pos: "snd kp y = Some n \<longleftrightarrow> n < length rs \<and> mr_ID (repair_order sups rs ! n) = y" for y n
    using kp(1) positions_iff [of "fst kp" y n] by (simp add: located_def out len)
  assume "(x, c) \<in> set sups" "i < length rs" "mr_ID (repair_order sups rs ! i) = x" "j < length rs" "mr_ID (repair_order sups rs ! j) = c"
  then have "snd kp x = Some i" "snd kp c = Some j" "\<forall>i j. snd kp x = Some i \<longrightarrow> snd kp c = Some j \<longrightarrow> j < i"
    using kp(3) pos by simp_all (use \<open>(x, c) \<in> set sups\<close> kp(3) in fastforce)
  then show "j < i" by simp
qed

lemma top_k_nth: "n < length (top_k k xs) \<Longrightarrow> n < length xs \<and> top_k k xs ! n = xs ! n \<and> (\<forall>m < n. top_k k xs ! m = xs ! m)"
  by (auto simp: top_k_def split: if_splits)

text \<open>C38. In a tenant where no correction is itself corrected, \<open>Similar\<close> returns a corrected record only behind a
  correction of it, so behind its correction if it has only one, whatever the order in which the runtime ranges
  over the map of corrections and wherever the list is cut.\<close>

theorem superseded_below_correction:
  assumes ok: "mem_ok s" and sc: "no_chains (tenantMap tid s)"
    and perm: "mset (order (superseded_by (tenantMap tid s))) = mset (superseded_by (tenantMap tid s))"
    and out: "Similar mpow order (lexicalScorer None) now tid fp topK s = Inr out"
    and n: "n < length out" "out ! n = r" and d: "d \<in> snd ` set (tenantMap tid s)" "mr_SupersedesID d = mr_ID r" "mr_ID r \<noteq> []"
  shows "\<exists>m < n. out ! m \<in> snd ` set (tenantMap tid s) \<and> mr_SupersedesID (out ! m) = mr_ID r"
proof -
  let ?tm = "tenantMap tid s"
  let ?cand = "candidates fp ?tm"
  let ?scored = "map (\<lambda>r. (r, lexical_score \<lparr>mq_Fingerprint = fp, mq_Text = []\<rparr> r)) ?cand"
  let ?rk = "ranked mpow now ?tm ?cand ?scored"
  let ?sups = "order (superseded_by ?tm)"
  let ?o = "repair_order ?sups ?rk"
  have tm: "map_ok tid ?tm" using ok by (rule tenantMap_ok)
  have o: "out = top_k topK ?o" using out by (simp add: Similar_def lexicalScorer_def Let_def)
  have idr: "x = y" if "x \<in> snd ` set ?tm" "y \<in> snd ` set ?tm" "mr_ID x = mr_ID y" for x y
    using map_ok_unique [OF tm that] .
  have dr: "distinct (map mr_ID ?rk)" using candidates_distinct [OF tm, of fp] by (intro ranked_distinct) (simp add: comp_def)
  have ds: "distinct (map fst ?sups @ map snd ?sups)"
  proof -
    have "mset (map fst ?sups @ map snd ?sups) = mset (map fst (superseded_by ?tm) @ map snd (superseded_by ?tm))"
      using perm by (metis mset_append mset_map)
    with superseded_by_distinct [OF tm sc] show ?thesis using mset_eq_imp_distinct_iff by blast
  qed
  note ro = repair_order_facts [OF dr ds]
  have seto: "set ?o = set ?rk" using ro(1) by (metis set_mset_mset)
  have leno: "length ?o = length ?rk" using ro(1) by (metis size_mset)
  from n top_k_nth [of n topK ?o] o have rn: "n < length ?rk" "?o ! n = r" by (simp_all add: leno)
  have "?o ! n \<in> set ?o" using rn(1) by (intro nth_mem) (simp only: leno)
  then have "r \<in> set ?rk" by (simp only: rn(2) seto)
  then have keep: "keeps_scored (superseded_by ?tm) ?scored (r, lexical_score \<lparr>mq_Fingerprint = fp, mq_Text = []\<rparr> r)"
    and rc: "r \<in> set ?cand" by (auto simp: ranked_set)
  obtain k where "(k, d) \<in> set (corrections_of ?tm)" using d by (auto simp: corrections_of_def)
  from superseded_by_facts(3) [OF this] d(2) obtain i where pair: "(mr_ID r, i) \<in> set (superseded_by ?tm)" by auto
  from superseded_by_facts(2) [OF this] obtain l c where c: "(l, c) \<in> set (corrections_of ?tm)" "mr_SupersedesID c = mr_ID r" "mr_ID c = i"
    by blast
  then have ctm: "c \<in> snd ` set ?tm" by (force simp: corrections_of_def)
  have "map_of (superseded_by ?tm) (mr_ID r) = Some i" using pair superseded_by_facts(1) by simp
  with keep obtain y where y: "y \<in> set ?scored" "mr_ID (fst y) = mr_ID c" "minSimilarity \<le> snd y"
    unfolding keeps_scored_def fst_conv snd_conv c(3) by (auto simp only: option.case list_ex_iff)
  then have "fst y \<in> snd ` set ?tm" using candidates_sub [of fp ?tm] by auto
  with y(2) ctm have yc: "fst y = c" by (blast intro: idr)
  have "mr_ID c \<in> snd ` set (superseded_by ?tm)" using pair c(3) by force
  moreover have "fst ` set (superseded_by ?tm) \<inter> snd ` set (superseded_by ?tm) = {}" using superseded_by_distinct [OF tm sc] by simp
  ultimately have "mr_ID c \<notin> fst ` set (superseded_by ?tm)" by blast
  then have "map_of (superseded_by ?tm) (mr_ID c) = None" by (simp add: map_of_eq_None_iff)
  with y(3) yc have "keeps_scored (superseded_by ?tm) ?scored y" by (simp add: keeps_scored_def)
  with y(1) have "y \<in> set (filter (keeps_scored (superseded_by ?tm) ?scored) ?scored)" by simp
  from imageI [OF this, of fst] have "fst y \<in> set ?rk" unfolding ranked_set .
  then have "c \<in> set ?rk" by (simp only: yc)
  then have "c \<in> set ?o" by (simp only: seto)
  then obtain m where "m < length ?o" "?o ! m = c" unfolding in_set_conv_nth by blast
  then have m: "m < length ?rk" "?o ! m = c" by (simp_all only: leno)
  have "set ?sups = set (superseded_by ?tm)" using perm by (metis set_mset_mset)
  with pair c(3) have "(mr_ID r, mr_ID c) \<in> set ?sups" by simp
  from ro(2) [OF this rn(1) _ m(1)] rn(2) m(2) have "m < n" by simp
  moreover have "out ! m = c" using top_k_nth [of n topK ?o] n(1) o calculation m(2) by simp
  ultimately show ?thesis using c(2) ctm by blast
qed

text \<open>Two records: an investigation and its correction.\<close>

definition demo_mem :: "string \<Rightarrow> string \<Rightarrow> rat \<Rightarrow> mem_record" where
  "demo_mem i su w = (base_record i ''t1'' RecordInvestigation ''fp'' [''svc:a''] w ProvHumanCurated 1 0)\<lparr>mr_SupersedesID := su\<rparr>"

definition demo_tm :: record_map where
  "demo_tm = [(''a'', demo_mem ''a'' [] 2), (''b'', demo_mem ''b'' ''a'' 1)]"

definition demo_memory :: mem_store where
  "demo_memory = \<lparr>ms_records = [(''t1'', demo_tm)], ms_seq = 2\<rparr>"

definition demo_fp :: fingerprint where
  "demo_fp = \<lparr>fp_TenantID = ''t1'', fp_Tokens = [''svc:a''], fp_Hash = []\<rparr>"

lemmas demo_mem_defs = demo_mem_def demo_tm_def demo_memory_def demo_fp_def


lemma effectiveWeight_fresh: "mr_LastUsedAt r = now \<Longrightarrow> effectiveWeight mpow r now = rnd64 (mr_Weight r)"
  by (simp add: effectiveWeight_def time_sub_def max_duration_def duration_seconds_def quot_def decay_pow_def rnd64_def Let_def)

lemma demo_score: "lexical_score \<lparr>mq_Fingerprint = demo_fp, mq_Text = []\<rparr> (demo_mem i su w) = rnd64 1"
  by (simp add: lexical_score_def demo_mem_defs base_record_def tokenSet_def jaccard_def tokenize_def to_lower_def runs_of.simps)

lemma rnd_small: "rnd64 1 = 1" "rnd64 2 = 2" "rnd64 3 = 3" "rnd64 (1/2) = 1/2" "rnd64 (3/2) = 3/2" "rnd64 0 = 0" "rnd64 4 = 4" by code_simp+
lemma min_lt: "\<not> 1 < minSimilarity" "minSimilarity \<le> 1" by code_simp+


lemmas demo_eval = Similar_def lexicalScorer_def ranked_def rank_of_def keeps_scored_def superseded_by_def repair_order_def positions_def
  swap_pair_def top_k_def demo_score rnd_small min_lt effectiveWeight_fresh tenantMap_def Let_def

lemma demo_mem_fields [simp]: "mr_ID (demo_mem i su w) = i" "mr_SupersedesID (demo_mem i su w) = su" "mr_Weight (demo_mem i su w) = w"
  "mr_LastUsedAt (demo_mem i su w) = 0" "mr_FingerprintTerms (demo_mem i su w) = [''svc:a'']" "mr_Tenant (demo_mem i su w) = ''t1''"
  by (simp_all add: demo_mem_def base_record_def)

lemma demo_candidates:
  "candidates demo_fp demo_tm = [demo_mem ''a'' [] 2, demo_mem ''b'' ''a'' 1]"
  "candidates demo_fp [(''a'', demo_mem ''a'' [] 2), (''b'', demo_mem ''b'' ''a'' (1 / 2)), (''c'', demo_mem ''c'' ''b'' 1)]
     = [demo_mem ''a'' [] 2, demo_mem ''b'' ''a'' (1 / 2), demo_mem ''c'' ''b'' 1]"
  "candidates demo_fp [(''a'', demo_mem ''a'' [] 2), (''b'', demo_mem ''b'' ''a'' (1 / 2)), (''c'', demo_mem ''c'' ''a'' 3)]
     = [demo_mem ''a'' [] 2, demo_mem ''b'' ''a'' (1 / 2), demo_mem ''c'' ''a'' 3]"
  by (simp_all add: candidates_def demo_tm_def demo_fp_def token_overlap_def tokenSet_def maxCandidates_def)

lemma demo_similar: "Similar (\<lambda>b e. 1) (\<lambda>x. x) (lexicalScorer None) 0 ''t1'' demo_fp 0 demo_memory = Inr [demo_mem ''b'' ''a'' 1, demo_mem ''a'' [] 2]"
  by (simp add: demo_memory_def demo_eval demo_candidates) (simp add: demo_tm_def min_lt)

text \<open>When a correction is itself corrected, \<open>Similar\<close> can return a correction above the record that corrects
  it: the repair of the ranking exchanges pairs, in the order in which the map of corrections is ranged over.\<close>

theorem correction_chain_misranked:
  "Similar (\<lambda>b e. 1) (\<lambda>x. rev x) (lexicalScorer None) 0 ''t1'' demo_fp 0
     \<lparr>ms_records = [(''t1'', [(''a'', demo_mem ''a'' [] 2), (''b'', demo_mem ''b'' ''a'' (1 / 2)), (''c'', demo_mem ''c'' ''b'' 1)])], ms_seq = 3\<rparr>
   = Inr [demo_mem ''b'' ''a'' (1 / 2), demo_mem ''c'' ''b'' 1, demo_mem ''a'' [] 2]"
  by (simp add: demo_eval demo_candidates)

text \<open>A record that was corrected twice can be returned above one of its corrections.\<close>

theorem second_correction_misranked:
  "Similar (\<lambda>b e. 1) (\<lambda>x. x) (lexicalScorer None) 0 ''t1'' demo_fp 0
     \<lparr>ms_records = [(''t1'', [(''a'', demo_mem ''a'' [] 2), (''b'', demo_mem ''b'' ''a'' (1 / 2)), (''c'', demo_mem ''c'' ''a'' 3)])], ms_seq = 3\<rparr>
   = Inr [demo_mem ''c'' ''a'' 3, demo_mem ''a'' [] 2, demo_mem ''b'' ''a'' (1 / 2)]"
  by (simp add: demo_eval demo_candidates)

theorem superseded_below_correction_witness:
  "\<exists>m < 1. mr_SupersedesID ([demo_mem ''b'' ''a'' 1, demo_mem ''a'' [] 2] ! m) = ''a''"
proof -
  have "mem_ok demo_memory" "no_chains (tenantMap ''t1'' demo_memory)" "demo_mem ''b'' ''a'' 1 \<in> snd ` set (tenantMap ''t1'' demo_memory)"
    by (simp_all add: demo_memory_def demo_tm_def mem_ok_def map_ok_def no_chains_def corrections_of_def tenantMap_def)
  from superseded_below_correction [OF this(1,2) refl demo_similar _ _ this(3), of 1] show ?thesis by auto
qed

section \<open>Tenants\<close>

lemma top_k_set: "set (top_k k xs) \<subseteq> set xs"
  by (auto simp: top_k_def dest: in_set_takeD)

lemma Search_sub: "set (Search tid words k s) \<subseteq> snd ` set (tenantMap tid s)"
  using top_k_set [of k "sort_key (\<lambda>r. - search_score words r) (filter (search_hit words) (map snd (tenantMap tid s)))"]
  by (auto simp: Search_def)

definition pos_in :: "mem_record list \<times> (string \<Rightarrow> nat option) \<Rightarrow> bool" where
  "pos_in kp \<longleftrightarrow> (\<forall>x i. snd kp x = Some i \<longrightarrow> i < length (fst kp))"

lemma swap_pair_pos_in: "pos_in kp \<Longrightarrow> pos_in (swap_pair oc kp) \<and> set (fst (swap_pair oc kp)) \<subseteq> set (fst kp)"
  by (auto simp: pos_in_def swap_pair_def split: option.splits if_splits dest!: subsetD [OF set_update_subset_insert])

lemma repair_set: "set (repair_order sups rs) \<subseteq> set rs"
proof -
  have fold: "pos_in kp \<Longrightarrow> set (fst (foldl (\<lambda>kp oc. swap_pair oc kp) kp sups)) \<subseteq> set (fst kp)" for kp
  proof (induction sups arbitrary: kp)
    case (Cons oc sups)
    from swap_pair_pos_in [OF Cons.prems, of oc] Cons.IH [of "swap_pair oc kp"] show ?case by auto
  qed simp
  have "pos_in (rs, positions rs)" by (auto simp: pos_in_def positions_def set_zip dest!: map_of_SomeD)
  from fold [OF this] show ?thesis by (simp add: repair_order_def)
qed

lemma Similar_sub:
  assumes "Similar mpow order (lexicalScorer ctx) now tid fp k s = Inr out"
  shows "set out \<subseteq> snd ` set (tenantMap tid s)"
proof -
  let ?tm = "tenantMap tid s"
  let ?rk = "ranked mpow now ?tm (candidates fp ?tm) (map (\<lambda>r. (r, lexical_score \<lparr>mq_Fingerprint = fp, mq_Text = []\<rparr> r)) (candidates fp ?tm))"
  from assms have out: "out = top_k k (repair_order (order (superseded_by ?tm)) ?rk)"
    by (simp add: Similar_def lexicalScorer_def Let_def split: option.splits)
  have "set ?rk \<subseteq> set (candidates fp ?tm)" by (auto simp: ranked_set)
  then show ?thesis unfolding out using top_k_set repair_set candidates_sub by (meson order.trans)
qed

text \<open>C32. In every reachable store, whatever was recorded, corrected, imported, deleted or consolidated before,
  \<open>Similar\<close>, \<open>Search\<close> and \<open>Get\<close> return stored records of the asking tenant only.\<close>

theorem memory_stays_in_tenant:
  assumes "reach (\<lambda>s. s = NewInMemoryStore) mem_step s"
    and "Similar mpow order (lexicalScorer ctx) now tid fp k s = Inr out"
    and "r \<in> set out \<union> set (Search tid words k s) \<union> {q. store_Get tid i s = Inr q}"
  shows "mr_Tenant r = tid \<and> map_of (tenantMap tid s) (mr_ID r) = Some r"
proof -
  from assms(1) have tm: "map_ok tid (tenantMap tid s)" by (intro tenantMap_ok memory.reach_inv)
  have "r \<in> snd ` set (tenantMap tid s)"
    using assms(3) Similar_sub [OF assms(2)] Search_sub [of tid words k s]
    by (auto simp: store_Get_def split: option.splits dest!: map_of_SomeD) force
  with tm show ?thesis by (auto simp: map_ok_def)
qed

definition demo_inv_record :: "string list \<Rightarrow> string list \<Rightarrow> investigation_record" where
  "demo_inv_record services sigs =
     \<lparr>ir_InvestigationID = ''inv-1'', ir_IncidentID = ''inc-1'', ir_Tenant = ''t1'', ir_Fingerprint = [], ir_Symptom = ''slow'',
      ir_RootCause = ''deploy'', ir_Confidence = 1, ir_Services = services, ir_ErrorSignatures = sigs, ir_EvidenceRefs = [],
      ir_ReasonerKind = ReasonerLLM, ir_ConcludedAt = 0, ir_BodyMarkdown = []\<rparr>"

definition demo_recorded :: mem_store where
  "demo_recorded = fst (store_Record (\<lambda>x. 0) ''t1'' (demo_inv_record [''a''] []) 0 0 NewInMemoryStore)"

lemma demo_recorded_reach: "reach (\<lambda>s. s = NewInMemoryStore) mem_step demo_recorded"
proof -
  have "reach (\<lambda>s. s = NewInMemoryStore) mem_step NewInMemoryStore" by (rule reach_init) simp
  then show ?thesis unfolding demo_recorded_def by (rule reach_step) (rule step_Record)
qed

lemma Similar_total: "\<exists>out. Similar mpow order (lexicalScorer None) now tid fp k s = Inr out"
  by (simp add: Similar_def lexicalScorer_def Let_def)

theorem memory_stays_in_tenant_witness:
  "\<exists>r. store_Get ''t1'' (fst (nextID ''rec'' 0 NewInMemoryStore)) demo_recorded = Inr r \<and> mr_Tenant r = ''t1''"
proof -
  obtain r where r: "store_Get ''t1'' (fst (nextID ''rec'' 0 NewInMemoryStore)) demo_recorded = Inr r"
    by (auto simp: demo_recorded_def store_Record_def store_Get_def Let_def insert_record_def put_tenant_def tenantMap_def
        NewInMemoryStore_def nextID_def)
  obtain out where "Similar (\<lambda>b e. 1) (\<lambda>x. x) (lexicalScorer None) 0 ''t1'' demo_fp 0 demo_recorded = Inr out"
    using Similar_total by blast
  from memory_stays_in_tenant [OF demo_recorded_reach this, of r _ "fst (nextID ''rec'' 0 NewInMemoryStore)"] r show ?thesis by auto
qed

section \<open>The fingerprint of an incident and of its record\<close>

lemma buildTokens_few:
  assumes "length services + length sigs + length deps + length nss \<le> 24"
  shows "set (buildTokens services sigs deps nss) = set (tagged ''svc:'' services) \<union> set (tagged ''errsig:'' sigs)
    \<union> set (tagged ''dep:'' deps) \<union> set (tagged ''ns:'' nss)"
    and "distinct (buildTokens services sigs deps nss)"
proof -
  let ?xs = "tagged ''svc:'' services @ tagged ''errsig:'' sigs @ tagged ''dep:'' deps @ tagged ''ns:'' nss"
  have tl: "length (tagged p vs) \<le> length vs" for p vs by (simp add: tagged_def)
  have "length (remdups ?xs) \<le> length ?xs" by (rule length_remdups_leq)
  also have "\<dots> \<le> 24" using assms tl [of "''svc:''" services] tl [of "''errsig:''" sigs] tl [of "''dep:''" deps] tl [of "''ns:''" nss] by simp
  finally have "buildTokens services sigs deps nss = sort (remdups ?xs)"
    by (simp add: buildTokens_def maxFingerprintTokens_def)
  then show "set (buildTokens services sigs deps nss) = set (tagged ''svc:'' services) \<union> set (tagged ''errsig:'' sigs)
    \<union> set (tagged ''dep:'' deps) \<union> set (tagged ''ns:'' nss)" "distinct (buildTokens services sigs deps nss)" by auto
qed

lemma one_third_low: "rnd64 (1 / 3) < minSimilarity"
  unfolding minSimilarity_def by code_simp

lemma tagged_set: "[] \<notin> set vs \<Longrightarrow> set (tagged p vs) = (\<lambda>v. p @ v) ` set vs"
  by (force simp: tagged_def)

lemma card_tagged: "card ((\<lambda>v. p @ v) ` A) = card A"
  by (rule card_image) (simp add: inj_on_def)

text \<open>The similarity of an incident of some services and deploy markers with the record of some services and error
  signatures.\<close>

definition incident_similarity :: "string set \<Rightarrow> string set \<Rightarrow> string set \<Rightarrow> rat" where
  "incident_similarity services sigs deploys =
     rnd64 (of_nat (card services) / of_nat (card services + card sigs + card deploys))"

lemma incident_jaccard:
  assumes "services \<noteq> []" and "[] \<notin> set services" and "[] \<notin> set sigs" and "[] \<notin> set deploys"
    and "set all \<union> {[]} = set services \<union> {[]}"
    and "length services + length sigs \<le> 24" and "length all + length deploys \<le> 24"
  shows "jaccard (tokenSet [buildTokens all [] deploys []]) (tokenSet [buildTokens services sigs [] []])
    = incident_similarity (set services) (set sigs) (set deploys)"
proof -
  let ?S = "(\<lambda>v. ''svc:'' @ v) ` set services" and ?E = "(\<lambda>v. ''errsig:'' @ v) ` set sigs" and ?D = "(\<lambda>v. ''dep:'' @ v) ` set deploys"
  let ?q = "tokenSet [buildTokens all [] deploys []]" and ?t = "tokenSet [buildTokens services sigs [] []]"
  have nil: "set (tagged p []) = {}" for p by (simp add: tagged_def)
  have "set (tagged ''svc:'' all) = (\<lambda>v. ''svc:'' @ v) ` (set all - {[]})" by (force simp: tagged_def)
  also have "set all - {[]} = set services" using assms(2,5) by blast
  finally have all: "set (tagged ''svc:'' all) = ?S" .
  have q: "set ?q = ?S \<union> ?D"
    using buildTokens_few(1) [of all "[]" deploys "[]"] assms(7) all tagged_set [OF assms(4), of "''dep:''"]
    unfolding tokenSet_set by (auto simp: nil)
  have t: "set ?t = ?S \<union> ?E"
    using buildTokens_few(1) [of services sigs "[]" "[]"] assms(6) tagged_set [OF assms(2), of "''svc:''"] tagged_set [OF assms(3), of "''errsig:''"]
    unfolding tokenSet_set by (auto simp: nil)
  have i: "set ?q \<inter> set ?t = ?S" unfolding q t by auto
  have u: "set ?q \<union> set ?t = ?S \<union> (?E \<union> ?D)" unfolding q t by auto
  have "?E \<inter> ?D = {}" "?S \<inter> (?E \<union> ?D) = {}" by auto
  then have "card (?E \<union> ?D) = card ?E + card ?D" "card (?S \<union> (?E \<union> ?D)) = card ?S + card (?E \<union> ?D)"
    by (intro card_Un_disjoint; simp)+
  then have c: "card (set ?q \<union> set ?t) = card (set services) + card (set sigs) + card (set deploys)"
    unfolding u card_tagged by (simp only: add.assoc)
  have "?q \<noteq> []" using q assms(1) by force
  from jaccard_sets [of ?q ?t, OF tokenSet_set(2) tokenSet_set(2) this] show ?thesis
    unfolding incident_similarity_def i c card_tagged .
qed

text \<open>\<open>Similar\<close> in a tenant of one record.\<close>

lemma superseded_single: "superseded_by [(i, r)] = (if mr_SupersedesID r = [] then [] else [(mr_SupersedesID r, mr_ID r)])"
  by (simp add: superseded_by_def)

lemma Similar_single:
  assumes "tenantMap tid s = [(i, r)]" and "mr_SupersedesID r = []" and "mset (order []) = mset ([] :: (string \<times> string) list)"
  shows "Similar mpow order (lexicalScorer None) now tid fp k s
    = Inr (if lexical_score \<lparr>mq_Fingerprint = fp, mq_Text = []\<rparr> r < minSimilarity then [] else [r])"
proof -
  have cand: "candidates fp [(i, r)] = [r]" by (simp add: candidates_def maxCandidates_def)
  have "ranked mpow now [(i, r)] [r] [(r, lexical_score \<lparr>mq_Fingerprint = fp, mq_Text = []\<rparr> r)]
      = (if lexical_score \<lparr>mq_Fingerprint = fp, mq_Text = []\<rparr> r < minSimilarity then [] else [r])"
    using assms(2) by (simp add: ranked_def keeps_scored_def rank_of_def superseded_single Let_def)
  then show ?thesis using assms
    by (auto simp add: Similar_def lexicalScorer_def cand superseded_single repair_order_def top_k_def Let_def)
qed

text \<open>C39. An incident asks the memory, empty before, for its own investigation, recorded with the same services: it is
  found exactly if the rounded fraction n / (n + d + e), of n services, d deploy markers and e error signatures,
  reaches the threshold \<open>minSimilarity\<close>. \<open>Compute\<close> leaves the signatures out and \<open>Record\<close> the
  deploy markers, so an incident does not find its own investigation if there are enough of them. (At most 24 tokens on
  either side; the epicenter is one of the services or empty.)\<close>

theorem recorded_incident_found_iff:
  assumes "tid \<noteq> []" and "tenantMap tid s = []" and "in_Services inc \<noteq> []" and "ir_Services rec = in_Services inc"
    and "in_EpicenterService inc \<in> set (in_Services inc) \<union> {[]}"
    and "[] \<notin> set (in_Services inc)" and "[] \<notin> set (ir_ErrorSignatures rec)" and "[] \<notin> set (in_DeployMarkerIDs inc)"
    and "length (in_Services inc) + length (ir_ErrorSignatures rec) \<le> 24"
    and "length (in_Services inc) + length (in_DeployMarkerIDs inc) < 24"
    and "\<forall>xs. mset (order xs) = mset xs"
  shows "\<exists>r. mr_SourceInvestigationID r = ir_InvestigationID rec \<and> mr_Tenant r = tid
    \<and> Similar mpow order (lexicalScorer None) now2 tid (Compute xxh tid inc) k (fst (store_Record xxh tid rec now idt s))
      = Inr (if rnd64 (of_nat (card (set (in_Services inc)))
                 / of_nat (card (set (in_Services inc)) + card (set (ir_ErrorSignatures rec)) + card (set (in_DeployMarkerIDs inc))))
               < minSimilarity then [] else [r])"
proof -
  let ?all = "in_Services inc @ (if in_EpicenterService inc \<noteq> [] then [in_EpicenterService inc] else [])"
  let ?terms = "buildTokens (in_Services inc) (ir_ErrorSignatures rec) [] []"
  obtain i s1 where i: "nextID ''rec'' idt s = (i, s1)" by force
  have s1: "tenantMap tid s1 = []" using nextID_fields [OF i] assms(2) by simp
  obtain r where st: "tenantMap tid (fst (store_Record xxh tid rec now idt s)) = [(i, r)]" "mr_FingerprintTerms r = ?terms"
    "mr_SupersedesID r = []" "mr_SourceInvestigationID r = ir_InvestigationID rec" "mr_Tenant r = tid"
    using assms(1,4) s1
    by (auto simp: store_Record_def Let_def i insert_record_def put_tenant_def tenantMap_def base_record_def update_conv split: option.splits if_splits)
  have few: "length ?all + length (in_DeployMarkerIDs inc) \<le> 24" using assms(10) by simp
  have same: "set ?all \<union> {[]} = set (in_Services inc) \<union> {[]}" using assms(5) by auto
  have "lexical_score \<lparr>mq_Fingerprint = Compute xxh tid inc, mq_Text = []\<rparr> r
      = jaccard (tokenSet [buildTokens ?all [] (in_DeployMarkerIDs inc) []]) (tokenSet [?terms])"
    by (simp add: lexical_score_def tokenize_def to_lower_def runs_of.simps tokenSet_def st(2) Compute_def Let_def)
  also have "\<dots> = incident_similarity (set (in_Services inc)) (set (ir_ErrorSignatures rec)) (set (in_DeployMarkerIDs inc))"
    by (rule incident_jaccard [OF assms(3,6,7,8) same assms(9) few])
  finally have score: "lexical_score \<lparr>mq_Fingerprint = Compute xxh tid inc, mq_Text = []\<rparr> r
    = incident_similarity (set (in_Services inc)) (set (ir_ErrorSignatures rec)) (set (in_DeployMarkerIDs inc))" .
  have "mset (order []) = mset []" using assms(11) by blast
  from Similar_single [where order = order, OF st(1,3) this, of mpow now2 "Compute xxh tid inc" k] st(4,5) show ?thesis
    unfolding score incident_similarity_def by blast
qed

definition demo_incident :: incident where
  "demo_incident =
     \<lparr>in_ID = ''inc-1'', in_Tenant = ''t1'', in_Title = [], in_Status = IncidentCandidate, in_Severity = SeverityHigh, in_Score = 1,
      in_Fingerprint = [], in_EventIDs = [], in_Services = [''a''], in_EpicenterService = ''a'', in_BlastRadius = [],
      in_ExemplarTraceIDs = [], in_DeployMarkerIDs = [], in_InvestigationID = [], in_SuppressedBy = [], in_Provisional = False,
      in_FirstSeen = 0, in_LastSeen = 0, in_CreatedAt = 0, in_UpdatedAt = 0\<rparr>"

text \<open>One service and two error signatures: the incident is not found.\<close>

theorem recorded_incident_found_iff_witness:
  "Similar (\<lambda>b e. 1) (\<lambda>x. x) (lexicalScorer None) 0 ''t1'' (Compute (\<lambda>x. 0) ''t1'' demo_incident) 0
     (fst (store_Record (\<lambda>x. 0) ''t1'' (demo_inv_record [''a''] [''timeout'', ''refused'']) 0 0 NewInMemoryStore)) = Inr []"
proof -
  let ?rec = "demo_inv_record [''a''] [''timeout'', ''refused'']"
  have "\<exists>r. mr_SourceInvestigationID r = ir_InvestigationID ?rec \<and> mr_Tenant r = ''t1''
    \<and> Similar (\<lambda>b e. 1) (\<lambda>x. x) (lexicalScorer None) 0 ''t1'' (Compute (\<lambda>x. 0) ''t1'' demo_incident) 0
        (fst (store_Record (\<lambda>x. 0) ''t1'' ?rec 0 0 NewInMemoryStore))
      = Inr (if rnd64 (of_nat (card (set (in_Services demo_incident)))
          / of_nat (card (set (in_Services demo_incident)) + card (set (ir_ErrorSignatures ?rec)) + card (set (in_DeployMarkerIDs demo_incident))))
        < minSimilarity then [] else [r])"
    by (rule recorded_incident_found_iff) (simp_all add: demo_incident_def demo_inv_record_def NewInMemoryStore_def tenantMap_def)
  moreover have "card (set (in_Services demo_incident)) = 1" "card (set (ir_ErrorSignatures ?rec)) = 2" "card (set (in_DeployMarkerIDs demo_incident)) = 0"
    by (simp_all add: demo_incident_def demo_inv_record_def)
  moreover have "rnd64 (of_nat 1 / of_nat (1 + 2 + 0)) < minSimilarity" using one_third_low by simp
  ultimately show ?thesis by (simp only: if_True) blast
qed

end
