(* ===== verification/MemoryKeeps.thy ===== *)
theory MemoryKeeps
  imports MemoryClaims
begin

text \<open>
  What the incident memory keeps: bundles that are exported and imported, the records a consolidation removes,
  and the bounds of the weights.
\<close>

section \<open>Export and import\<close>

lemma kind_roundtrip: "record_kind_of (record_kind_code (record_kind_of w)) = record_kind_of w"
  by (simp add: record_kind_of_def)

lemma import_fresh:
  assumes "mr_ID r \<noteq> []" and "map_of (tenantMap tid s) (mr_ID r) = None"
  shows "tenantMap tid (import_one parse tid now idt s (exported fmtTime r))
    = tenantMap tid s @ [(mr_ID r, imported_record parse tid now (mr_ID r) (exported fmtTime r))]"
  using assms
  by (simp add: import_one_def exported_def Let_def insert_record_def put_tenant_def imported_record_def update_absent tenantMap_def)

lemma import_all_fresh:
  assumes "distinct (map mr_ID rs)" and "[] \<notin> mr_ID ` set rs" and "\<forall>r \<in> set rs. map_of (tenantMap tid s) (mr_ID r) = None"
  shows "tenantMap tid (foldl (import_one parse tid now idt) s (map (exported fmtTime) rs))
    = tenantMap tid s @ map (\<lambda>r. (mr_ID r, imported_record parse tid now (mr_ID r) (exported fmtTime r))) rs"
  using assms
proof (induction rs arbitrary: s)
  case (Cons r rs)
  let ?s = "import_one parse tid now idt s (exported fmtTime r)"
  have one: "tenantMap tid ?s = tenantMap tid s @ [(mr_ID r, imported_record parse tid now (mr_ID r) (exported fmtTime r))]"
    using Cons.prems by (intro import_fresh) auto
  have "\<forall>q \<in> set rs. map_of (tenantMap tid ?s) (mr_ID q) = None"
  proof
    fix q assume q: "q \<in> set rs"
    then have "mr_ID q \<noteq> mr_ID r" using Cons.prems(1) by (auto simp: image_iff)
    with q Cons.prems(3) show "map_of (tenantMap tid ?s) (mr_ID q) = None" unfolding one by (simp add: map_add_def)
  qed
  with Cons.IH [of ?s] Cons.prems show ?case by (simp add: one)
qed simp

lemma kind_code_roundtrip: "record_kind_code (record_kind_of w) = w"
  by (simp add: record_kind_of_def)

text \<open>Whole seconds, the precision in which a bundle writes a time.\<close>

definition whole_seconds :: "gotime \<Rightarrow> gotime" where
  "whole_seconds t = t - t mod second"

text \<open>What an imported record shares with the exported one.\<close>

definition restored :: "mem_record \<Rightarrow> mem_record \<Rightarrow> bool" where
  "restored r q \<longleftrightarrow>
     mr_ID q = mr_ID r \<and> record_kind_code (mr_Kind q) = record_kind_code (mr_Kind r)
     \<and> mr_Fingerprint q = mr_Fingerprint r \<and> mr_FingerprintTerms q = mr_FingerprintTerms r \<and> mr_Symptom q = mr_Symptom r
     \<and> mr_RootCause q = mr_RootCause r \<and> mr_Services q = mr_Services r \<and> mr_SupersedesID q = mr_SupersedesID r
     \<and> mr_Weight q = mr_Weight r \<and> mr_Confirmations q = mr_Confirmations r \<and> mr_Corrections q = mr_Corrections r
     \<and> mr_CreatedAt q = whole_seconds (mr_CreatedAt r) \<and> mr_LastUsedAt q = whole_seconds (mr_LastUsedAt r)"

text \<open>C40. Importing an exported bundle into an empty tenant stores exactly its records, in the order of the bundle and
  under their identifiers, each with its kind, fingerprint, terms, symptom, root cause, services, correction chain,
  weight and counters, and with its two times in whole seconds, provided the time library reads back what it wrote of
  these times. The source investigation, the error signatures and the Markdown body are lost, the tenant is the
  importing one, and every record, one written by the language model too, is now an imported one of tier 2.\<close>

theorem bundle_roundtrip:
  assumes "mem_ok s" and "[] \<notin> fst ` set (tenantMap tid s)" and "tenantMap tid2 s2 = []"
    and "dec input = Inr (export_bundle fmtTime t tid s)"
    and "\<forall>(k, r) \<in> set (tenantMap tid s). \<forall>c \<in> {mr_CreatedAt r, mr_LastUsedAt r}. parse (fmtTime c) = Some (c - c mod second)"
  shows "map mr_ID (sortedExportRecords (tenantMap tid s)) = keys (tenantMap tid2 (fst (store_Import dec parse now idt tid2 input ''json'' s2)))
    \<and> set (keys (tenantMap tid2 (fst (store_Import dec parse now idt tid2 input ''json'' s2)))) = set (keys (tenantMap tid s))
    \<and> (\<forall>(k, r) \<in> set (tenantMap tid s). \<exists>q. map_of (tenantMap tid2 (fst (store_Import dec parse now idt tid2 input ''json'' s2))) k = Some q
        \<and> restored r q \<and> mr_Tenant q = tid2 \<and> mr_SourceInvestigationID q = [] \<and> mr_ErrorSignatures q = []
        \<and> mr_BodyMarkdown q = [] \<and> mr_Provenance q = ProvImported \<and> mr_TrustTier q = 2)"
proof -
  let ?rs = "sortedExportRecords (tenantMap tid s)"
  let ?out = "tenantMap tid2 (fst (store_Import dec parse now idt tid2 input ''json'' s2))"
  have tm: "map_ok tid (tenantMap tid s)" using assms(1) by (rule tenantMap_ok)
  have d: "distinct (map mr_ID (map snd (tenantMap tid s)))" using tm unfolding map_ok_IDs [OF tm] by (simp add: map_ok_def)
  have rs: "distinct (map mr_ID ?rs)" "set ?rs = snd ` set (tenantMap tid s)"
    unfolding sortedExportRecords_def using sort_key_distinct [OF d] by simp_all
  have ids: "mr_ID ` set ?rs = fst ` set (tenantMap tid s)" unfolding rs(2) using map_ok_IDs [OF tm] by (metis image_set map_map)
  have out: "?out = map (\<lambda>r. (mr_ID r, imported_record parse tid2 now (mr_ID r) (exported fmtTime r))) ?rs"
    using import_all_fresh [of ?rs tid2 s2 parse now idt fmtTime] rs(1) ids assms(2,3,4)
    by (simp add: store_Import_def export_bundle_def Let_def)
  have "\<exists>q. map_of ?out k = Some q \<and> restored r q \<and> mr_Tenant q = tid2 \<and> mr_SourceInvestigationID q = []
        \<and> mr_ErrorSignatures q = [] \<and> mr_BodyMarkdown q = [] \<and> mr_Provenance q = ProvImported \<and> mr_TrustTier q = 2"
    if kr: "(k, r) \<in> set (tenantMap tid s)" for k r
  proof -
    let ?q = "imported_record parse tid2 now k (exported fmtTime r)"
    have id: "mr_ID r = k" using kr tm by (auto simp: map_ok_def)
    moreover have "r \<in> set ?rs" unfolding rs(2) using kr by force
    ultimately have "(k, ?q) \<in> set ?out" unfolding out by auto
    moreover have "distinct (keys ?out)" unfolding out using rs(1) by (simp add: comp_def)
    ultimately have "map_of ?out k = Some ?q" by simp
    moreover have "parse (fmtTime (mr_CreatedAt r)) = Some (whole_seconds (mr_CreatedAt r))"
      "parse (fmtTime (mr_LastUsedAt r)) = Some (whole_seconds (mr_LastUsedAt r))"
      using assms(5) kr by (auto simp: whole_seconds_def)
    ultimately show ?thesis using id
      by (intro exI [of _ ?q]) (simp add: restored_def imported_record_def exported_def base_record_def kind_code_roundtrip)
  qed
  moreover have "map mr_ID ?rs = keys ?out" unfolding out by simp
  moreover have "set (keys ?out) = set (keys (tenantMap tid s))" unfolding out using ids by (simp add: image_image)
  ultimately show ?thesis by blast
qed

theorem bundle_roundtrip_witness:
  "\<exists>q. map_of (tenantMap ''t2'' (fst (store_Import (\<lambda>x. Inr (export_bundle (\<lambda>t. []) 0 ''t1'' demo_memory)) (\<lambda>x. Some 0) 7 (\<lambda>i. 0) ''t2'' [] ''json'' demo_memory))) ''b''
     = Some q \<and> mr_SupersedesID q = ''a'' \<and> mr_TrustTier q = 2 \<and> mr_CreatedAt q = 0"
proof -
  have ok: "mem_ok demo_memory" "[] \<notin> fst ` set (tenantMap ''t1'' demo_memory)" "tenantMap ''t2'' demo_memory = []"
    "\<forall>(k, r) \<in> set (tenantMap ''t1'' demo_memory). \<forall>c \<in> {mr_CreatedAt r, mr_LastUsedAt r}. Some (0 :: int) = Some (c - c mod second)"
    by (auto simp: demo_memory_def demo_tm_def mem_ok_def map_ok_def tenantMap_def demo_mem_def base_record_def)
  have b: "(''b'', demo_mem ''b'' ''a'' 1) \<in> set (tenantMap ''t1'' demo_memory)"
    by (simp add: demo_memory_def demo_tm_def tenantMap_def)
  from bundle_roundtrip [where dec = "\<lambda>x. Inr (export_bundle (\<lambda>t. []) 0 ''t1'' demo_memory)" and fmtTime = "\<lambda>t. []"
      and parse = "\<lambda>x. Some 0" and now = 7 and idt = "\<lambda>i. 0" and input = "[]", OF ok(1,2,3) refl ok(4)] b
  obtain q where "map_of (tenantMap ''t2'' (fst (store_Import (\<lambda>x. Inr (export_bundle (\<lambda>t. []) 0 ''t1'' demo_memory)) (\<lambda>x. Some 0) 7
      (\<lambda>i. 0) ''t2'' [] ''json'' demo_memory))) ''b'' = Some q" "restored (demo_mem ''b'' ''a'' 1) q" "mr_TrustTier q = 2"
    by blast
  then show ?thesis by (intro exI [of _ q]) (simp add: restored_def whole_seconds_def demo_mem_def base_record_def)
qed

section \<open>Weights\<close>

lemma correct_weight_bounds: "0 \<le> correct_weight w" "w \<le> 2 \<Longrightarrow> correct_weight w \<le> 2"
proof -
  show "0 \<le> correct_weight w" by (simp add: correct_weight_def Let_def)
  assume "w \<le> 2"
  moreover have "0 \<le> rnd64 (35 / 100)" by code_simp
  ultimately have "rnd64 (w - rnd64 (35 / 100)) \<le> rnd64 2" by (intro rnd64_mono) simp
  then show "correct_weight w \<le> 2" by (simp add: correct_weight_def Let_def rnd_small)
qed

lemma confirm_weight_bounds: "confirm_weight w \<le> 2" "0 \<le> w \<Longrightarrow> 0 \<le> confirm_weight w"
proof -
  show "confirm_weight w \<le> 2" by (simp add: confirm_weight_def Let_def)
  assume "0 \<le> w"
  moreover have "0 \<le> rnd64 (15 / 100)" by code_simp
  ultimately have "rnd64 0 \<le> rnd64 (w + rnd64 (15 / 100))" by (intro rnd64_mono) simp
  then show "0 \<le> confirm_weight w" by (simp add: confirm_weight_def Let_def rnd_small)
qed

section \<open>Consolidation\<close>

definition twin_of :: "record_map \<Rightarrow> mem_record \<Rightarrow> bool" where
  "twin_of tm r \<longleftrightarrow> (\<exists>q \<in> snd ` set tm. mr_ID q \<noteq> mr_ID r \<and> mr_Kind q = mr_Kind r \<and> (similar_terms q r \<or> similar_terms r q))"

definition justified :: "record_map \<Rightarrow> merge_state \<Rightarrow> bool" where
  "justified tm g \<longleftrightarrow> set (mg_map g) \<subseteq> set tm \<and> (\<forall>(k, r) \<in> set tm. (k, r) \<in> set (mg_map g) \<or> twin_of tm r)"

lemma justified_pair:
  assumes "justified tm g" and "map_ok tid tm" and "a \<in> snd ` set tm" and "b \<in> snd ` set tm" and "mr_ID a \<noteq> mr_ID b"
  shows "justified tm (merge_pair a b g)"
proof (cases "mr_Kind a = mr_Kind b \<and> similar_terms a b")
  case False
  with assms(1) show ?thesis by (auto simp: merge_pair_def justified_def Let_def)
next
  case True
  define dup where "dup = (if mr_CreatedAt b > mr_CreatedAt a then a else b)"
  have m: "mg_map (merge_pair a b g) = AList.delete (mr_ID dup) (mg_map g)"
    using True by (simp add: merge_pair_def Let_def dup_def)
  have twin: "twin_of tm r" if "(k, r) \<in> set tm" "k = mr_ID dup" for k r
  proof -
    have "mr_ID r = mr_ID dup" using that assms(2) by (auto simp: map_ok_def)
    moreover have "r \<in> snd ` set tm" "dup \<in> snd ` set tm" using that assms(3,4) by (force simp: dup_def)+
    ultimately have "r = dup" by (intro map_ok_unique [OF assms(2)])
    moreover have "twin_of tm a" unfolding twin_of_def by (rule bexI [OF _ assms(4)]) (use True assms(5) in auto)
    moreover have "twin_of tm b" unfolding twin_of_def by (rule bexI [OF _ assms(3)]) (use True assms(5) in auto)
    ultimately show ?thesis by (simp add: dup_def)
  qed
  show ?thesis unfolding justified_def m
  proof (intro conjI ballI)
    show "set (AList.delete (mr_ID dup) (mg_map g)) \<subseteq> set tm" using assms(1) by (auto simp: justified_def AList.delete_eq)
    fix x assume x: "x \<in> set tm"
    obtain k r where "x = (k, r)" by force
    with x assms(1) twin show "case x of (k, r) \<Rightarrow> (k, r) \<in> set (AList.delete (mr_ID dup) (mg_map g)) \<or> twin_of tm r"
      by (auto simp: justified_def AList.delete_eq)
  qed
qed

lemma justified_lookup:
  assumes "justified tm g" and "map_ok tid tm" and "map_of (mg_map g) j = Some b"
  shows "b \<in> snd ` set tm \<and> mr_ID b = j"
proof -
  have "(j, b) \<in> set tm" using map_of_SomeD [OF assms(3)] assms(1) by (auto simp: justified_def)
  with assms(2) show ?thesis by (auto simp: map_ok_def intro: image_eqI [of _ snd "(j, b)"])
qed

lemma justified_inner:
  "justified tm g \<Longrightarrow> map_ok tid tm \<Longrightarrow> a \<in> snd ` set tm \<Longrightarrow> mr_ID a \<notin> set js \<Longrightarrow> justified tm (merge_inner a js g)"
proof (induction js arbitrary: g)
  case (Cons j js)
  show ?case
  proof (cases "j \<in> mg_merged g \<or> map_of (mg_map g) j = None")
    case True
    with Cons show ?thesis by (auto split: option.splits)
  next
    case False
    then obtain b where b: "map_of (mg_map g) j = Some b" "merge_inner a (j # js) g = merge_inner a js (merge_pair a b g)"
      by (auto split: option.splits)
    from justified_lookup [OF Cons.prems(1,2) b(1)] Cons.prems have "justified tm (merge_pair a b g)"
      by (intro justified_pair) auto
    with Cons b(2) show ?thesis by simp
  qed
qed simp

lemma justified_outer:
  "justified tm g \<Longrightarrow> map_ok tid tm \<Longrightarrow> distinct is \<Longrightarrow> justified tm (merge_outer is g)"
proof (induction "is" arbitrary: g)
  case (Cons i js)
  show ?case
  proof (cases "i \<in> mg_merged g \<or> map_of (mg_map g) i = None")
    case True
    with Cons show ?thesis by (auto split: option.splits)
  next
    case False
    then obtain a where a: "map_of (mg_map g) i = Some a" "merge_outer (i # js) g = merge_outer js (merge_inner a js g)"
      by (auto split: option.splits)
    from justified_lookup [OF Cons.prems(1,2) a(1)] Cons.prems have "justified tm (merge_inner a js g)"
      by (intro justified_inner) auto
    with Cons a(2) show ?thesis by simp
  qed
qed simp

text \<open>Consolidation only removes records that are stale, or similar to another stored record of the same kind;
  a stale runbook is never removed for its age.\<close>

theorem consolidation_justified:
  assumes "map_ok tid tm" and "(k, r) \<in> set tm" and "(k, r) \<notin> set (fst (consolidate_tenant now tm rep))"
  shows "stale now r \<and> mr_Kind r \<noteq> RecordRunbook \<or> twin_of tm r"
proof -
  let ?g = "merge_outer (sort (keys tm)) \<lparr>mg_map = tm, mg_merged = {}, mg_report = rep\<rparr>"
  have "justified tm ?g" using assms(1) by (intro justified_outer) (auto simp: justified_def map_ok_def)
  with assms(2) have "(k, r) \<in> set (mg_map ?g) \<or> twin_of tm r" by (auto simp: justified_def)
  with assms(3) show ?thesis by (auto simp: consolidate_tenant_def Let_def stale_def)
qed

text \<open>Three records: the second is newer and similar to the first, the third older and similar to the first only.\<close>

definition family :: "string \<Rightarrow> string list \<Rightarrow> gotime \<Rightarrow> string \<times> mem_record" where
  "family i terms t = (i, base_record i ''t1'' RecordInvestigation [] terms 1 ProvHumanCurated 1 t)"

definition demo_family :: record_map where
  "demo_family = [family ''a'' [''1'', ''2'', ''3'', ''4''] 2, family ''b'' [''1'', ''2'', ''3'', ''5''] 3, family ''c'' [''1'', ''2'', ''4'', ''6''] 1]"

text \<open>A record that was merged away keeps absorbing others: a record is removed although nothing that remains is
  similar to it.\<close>

theorem consolidation_loses_family:
  "fst (consolidate_tenant 3 demo_family \<lparr>cn_PairsExamined = 0, cn_Merged = 0\<rparr>) = [family ''b'' [''1'', ''2'', ''3'', ''5''] 3]
   \<and> \<not> similar_terms (snd (family ''b'' [''1'', ''2'', ''3'', ''5''] 3)) (snd (family ''c'' [''1'', ''2'', ''4'', ''6''] 1))"
  by code_simp

text \<open>One record that is removed twice is counted twice.\<close>

theorem consolidation_overcounts:
  "consolidate_tenant 3 [family ''a'' [''1''] 1, family ''b'' [''1''] 2, family ''c'' [''1''] 3] \<lparr>cn_PairsExamined = 0, cn_Merged = 0\<rparr>
   = ([family ''c'' [''1''] 3], \<lparr>cn_PairsExamined = 3, cn_Merged = 3\<rparr>)"
  by code_simp

theorem consolidation_justified_witness:
  "stale 3 (snd (family ''c'' [''1'', ''2'', ''4'', ''6''] 1)) \<or> twin_of demo_family (snd (family ''c'' [''1'', ''2'', ''4'', ''6''] 1))"
proof -
  have ok: "map_ok ''t1'' demo_family" by (simp add: demo_family_def family_def map_ok_def)
  have c: "(''c'', snd (family ''c'' [''1'', ''2'', ''4'', ''6''] 1)) \<in> set demo_family" by (simp add: demo_family_def family_def)
  have gone: "(''c'', snd (family ''c'' [''1'', ''2'', ''4'', ''6''] 1))
      \<notin> set (fst (consolidate_tenant 3 demo_family \<lparr>cn_PairsExamined = 0, cn_Merged = 0\<rparr>))"
    by code_simp
  from consolidation_justified [OF ok c gone] show ?thesis by blast
qed

end
