(* ===== verification/GoParse.thy ===== *)
theory GoParse
  imports GoStrings Float64
begin

text \<open>
  How Go's standard library reads the scalars of a configuration: \<open>strings.Split\<close> at a string, \<open>strconv.ParseBool\<close>,
  \<open>strconv.ParseInt\<close> in base ten, \<open>strconv.ParseFloat\<close> and \<open>time.ParseDuration\<close>.  A parse error is None.
\<close>

section \<open>Splitting\<close>

lemma cut_at_append: "cut_at p s = Some (a, b) \<Longrightarrow> s = a @ p @ b"
proof (induction s arbitrary: a rule: length_induct)
  case (1 s)
  show ?case
  proof (cases "prefix p s")
    case True
    with 1(2) show ?thesis by (auto simp: cut_at.simps [of p s] prefix_def)
  next
    case False
    with 1(2) obtain x xs a' where "s = x # xs" "cut_at p xs = Some (a', b)" "a = x # a'"
      by (auto simp: cut_at.simps [of p s] split: list.splits)
    with 1(1) show ?thesis by auto
  qed
qed

function split_at_str :: "string \<Rightarrow> string \<Rightarrow> string list" where
  "split_at_str sep s =
     (if sep = [] then [s]
      else case cut_at sep s of None \<Rightarrow> [s] | Some (a, b) \<Rightarrow> a # split_at_str sep b)"
  by pat_completeness auto
termination
  by (relation "measure (length \<circ> snd)") (auto dest: cut_at_append)

declare split_at_str.simps [simp del]

section \<open>Classes of bytes\<close>

definition is_upper :: "char \<Rightarrow> bool" where
  "is_upper c = (let n = of_char c :: nat in 65 \<le> n \<and> n \<le> 90)"

definition is_lower :: "char \<Rightarrow> bool" where
  "is_lower c = (let n = of_char c :: nat in 97 \<le> n \<and> n \<le> 122)"

definition is_digit :: "char \<Rightarrow> bool" where
  "is_digit c = (let n = of_char c :: nat in 48 \<le> n \<and> n \<le> 57)"

text \<open>The same tests on the bits of a byte, for evaluation.\<close>

lemma is_upper_bits [code]:
  "is_upper (Char b0 b1 b2 b3 b4 b5 b6 b7) \<longleftrightarrow>
     \<not> b7 \<and> b6 \<and> \<not> b5 \<and> (b0 \<or> b1 \<or> b2 \<or> b3 \<or> b4) \<and> \<not> (b4 \<and> b3 \<and> (b2 \<or> b1 \<and> b0))"
  by (cases b0; cases b1; cases b2; cases b3; cases b4; cases b5; cases b6; cases b7) (simp_all add: is_upper_def Let_def)

lemma is_lower_bits [code]:
  "is_lower (Char b0 b1 b2 b3 b4 b5 b6 b7) \<longleftrightarrow>
     \<not> b7 \<and> b6 \<and> b5 \<and> (b0 \<or> b1 \<or> b2 \<or> b3 \<or> b4) \<and> \<not> (b4 \<and> b3 \<and> (b2 \<or> b1 \<and> b0))"
  by (cases b0; cases b1; cases b2; cases b3; cases b4; cases b5; cases b6; cases b7) (simp_all add: is_lower_def Let_def)

lemma is_digit_bits [code]:
  "is_digit (Char b0 b1 b2 b3 b4 b5 b6 b7) \<longleftrightarrow> \<not> b7 \<and> \<not> b6 \<and> b5 \<and> b4 \<and> \<not> (b3 \<and> (b2 \<or> b1))"
  by (cases b0; cases b1; cases b2; cases b3; cases b4; cases b5; cases b6; cases b7) (simp_all add: is_digit_def Let_def)

lemma lower_char_bits [code]:
  "lower_char (Char b0 b1 b2 b3 b4 b5 b6 b7) =
     Char b0 b1 b2 b3 b4 (b5 \<or> is_upper (Char b0 b1 b2 b3 b4 b5 b6 b7)) b6 b7"
  by (cases b0; cases b1; cases b2; cases b3; cases b4; cases b5; cases b6; cases b7)
     (simp_all add: lower_char_def is_upper_bits Let_def char_of_def bit_numeral_rec bit_0)

section \<open>Digits\<close>

definition digit_value :: "char \<Rightarrow> int" where
  "digit_value c = int (of_char c) - 48"

definition digits_value :: "string \<Rightarrow> int" where
  "digits_value ds = foldl (\<lambda>n c. 10 * n + digit_value c) 0 ds"

text \<open>An optional sign: whether the number is negative, and the rest.\<close>

definition take_sign :: "string \<Rightarrow> bool \<times> string" where
  "take_sign s =
     (case s of [] \<Rightarrow> (False, [])
      | c # cs \<Rightarrow> if c = CHR ''-'' then (True, cs) else if c = CHR ''+'' then (False, cs) else (False, s))"

definition parse_bool :: "string \<Rightarrow> bool option" where
  "parse_bool s =
     (if s \<in> {''1'', ''t'', ''T'', ''TRUE'', ''true'', ''True''} then Some True
      else if s \<in> {''0'', ''f'', ''F'', ''FALSE'', ''false'', ''False''} then Some False
      else None)"

definition parse_int :: "string \<Rightarrow> int option" where
  "parse_int s =
     (let (neg, ds) = take_sign s; n = digits_value ds in
      if ds = [] \<or> \<not> list_all is_digit ds then None
      else if neg \<and> n \<le> 2 ^ 63 then Some (- n)
      else if \<not> neg \<and> n < 2 ^ 63 then Some n
      else None)"

section \<open>Floating-point numbers\<close>

text \<open>
  The decimal form \<open>[+-]digits[.digits][e[+-]digits]\<close>, rounded to the nearest float64; a value that rounds past the
  largest one is an error.  Hexadecimal numbers, infinities, NaN and digits separated by underscores are read by the argument \<open>other\<close>.
\<close>

definition max_float :: rat where
  "max_float = (2 ^ 53 - 1) * 2 ^ 971"

definition parse_exponent :: "string \<Rightarrow> int option" where
  "parse_exponent s =
     (case s of [] \<Rightarrow> Some 0
      | c # cs \<Rightarrow>
          let (neg, ds) = take_sign cs in
          if (c = CHR ''e'' \<or> c = CHR ''E'') \<and> ds \<noteq> [] \<and> list_all is_digit ds
          then Some (if neg then - digits_value ds else digits_value ds) else None)"

definition ten_power :: "int \<Rightarrow> rat" where
  "ten_power e = (if 0 \<le> e then 10 ^ nat e else 1 / 10 ^ nat (- e))"

definition parse_float :: "(string \<Rightarrow> rat option) \<Rightarrow> string \<Rightarrow> rat option" where
  "parse_float other s =
     (let (neg, t) = take_sign s;
          whole = takeWhile is_digit t; r = dropWhile is_digit t;
          dot = (r \<noteq> [] \<and> hd r = CHR ''.'');
          frac = (if dot then takeWhile is_digit (tl r) else []);
          rest = (if dot then dropWhile is_digit (tl r) else r)
      in case (if whole @ frac = [] then None else parse_exponent rest) of
           None \<Rightarrow> other s
         | Some e \<Rightarrow>
             let x = rnd64 (of_int (digits_value (whole @ frac)) * ten_power (e - int (length frac))) in
             if x > max_float then None else Some (if neg then - x else x))"

section \<open>Durations\<close>

text \<open>The digits read so far never exceed \<open>2 ^ 63\<close> in \<open>leadingInt\<close>; \<open>leadingFraction\<close> ignores the digits that
  would.\<close>

fun leading_int :: "int \<Rightarrow> string \<Rightarrow> (int \<times> string) option" where
  "leading_int x [] = Some (x, [])"
| "leading_int x (c # cs) =
     (if \<not> is_digit c then Some (x, c # cs)
      else if x > 2 ^ 63 div 10 \<or> 10 * x + digit_value c > 2 ^ 63 then None
      else leading_int (10 * x + digit_value c) cs)"

fun leading_fraction :: "bool \<Rightarrow> int \<Rightarrow> int \<Rightarrow> string \<Rightarrow> int \<times> int \<times> string" where
  "leading_fraction overflow x scale [] = (x, scale, [])"
| "leading_fraction overflow x scale (c # cs) =
     (if \<not> is_digit c then (x, scale, c # cs)
      else if overflow \<or> x > (2 ^ 63 - 1) div 10 \<or> 10 * x + digit_value c > 2 ^ 63
      then leading_fraction True x scale cs
      else leading_fraction False (10 * x + digit_value c) (10 * scale) cs)"

definition unit_nanos :: "string \<Rightarrow> int option" where
  "unit_nanos u =
     (if u = ''ns'' then Some 1
      else if u = ''us'' \<or> u = [CHR 0xC2, CHR 0xB5] @ ''s'' \<or> u = [CHR 0xCE, CHR 0xBC] @ ''s'' then Some 1000
      else if u = ''ms'' then Some 1000000
      else if u = ''s'' then Some 1000000000
      else if u = ''m'' then Some 60000000000
      else if u = ''h'' then Some 3600000000000
      else None)"

definition number_byte :: "char \<Rightarrow> bool" where
  "number_byte c \<longleftrightarrow> c = CHR ''.'' \<or> is_digit c"

text \<open>One number with its unit: the nanoseconds and the rest.\<close>

definition duration_part :: "string \<Rightarrow> (int \<times> string) option" where
  "duration_part s =
     (if s = [] \<or> \<not> number_byte (hd s) then None
      else case leading_int 0 s of None \<Rightarrow> None
      | Some (v, s1) \<Rightarrow>
          let pre = (length s1 \<noteq> length s);
              dot = (s1 \<noteq> [] \<and> hd s1 = CHR ''.'');
              (f, scale, s2) = (if dot then leading_fraction False 0 1 (tl s1) else (0, 1, s1));
              post = (dot \<and> length s2 \<noteq> length (tl s1));
              u = takeWhile (\<lambda>c. \<not> number_byte c) s2;
              s3 = dropWhile (\<lambda>c. \<not> number_byte c) s2
          in if \<not> pre \<and> \<not> post \<or> u = [] then None
             else case unit_nanos u of None \<Rightarrow> None
             | Some k \<Rightarrow>
                 if v > 2 ^ 63 div k then None
                 else let w = v * k + (if f > 0 then \<lfloor>rnd64 (of_int f * rnd64 (of_int k / of_int scale))\<rfloor> else 0) in
                      if f > 0 \<and> w > 2 ^ 63 then None else Some (w, s3))"

lemma leading_int_rest: "leading_int x s = Some (v, r) \<Longrightarrow> length r \<le> length s"
  by (induction x s rule: leading_int.induct) (auto split: if_splits)

lemma leading_fraction_rest: "leading_fraction ov x sc s = (f, k, r) \<Longrightarrow> length r \<le> length s"
  by (induction ov x sc s rule: leading_fraction.induct) (auto split: if_splits)

lemma duration_part_shorter: "duration_part s = Some (w, r) \<Longrightarrow> length r < length s"
proof -
  assume a: "duration_part s = Some (w, r)"
  then obtain v s1 where li: "leading_int 0 s = Some (v, s1)" by (auto simp: duration_part_def split: if_splits option.splits)
  define s2 where "s2 = snd (snd (if s1 \<noteq> [] \<and> hd s1 = CHR ''.'' then leading_fraction False 0 1 (tl s1) else (0, 1, s1)))"
  have "r = dropWhile (\<lambda>c. \<not> number_byte c) s2 \<and> takeWhile (\<lambda>c. \<not> number_byte c) s2 \<noteq> []"
    using a li by (auto simp: duration_part_def s2_def Let_def split: if_splits option.splits prod.splits)
  moreover have "length (takeWhile (\<lambda>c. \<not> number_byte c) s2) + length (dropWhile (\<lambda>c. \<not> number_byte c) s2) = length s2"
    by (metis length_append takeWhile_dropWhile_id)
  ultimately have "length r < length s2" by (cases "takeWhile (\<lambda>c. \<not> number_byte c) s2") auto
  also have "length s2 \<le> length s1"
    using leading_fraction_rest [of False 0 1 "tl s1"] by (cases "leading_fraction False 0 1 (tl s1)") (auto simp: s2_def)
  also have "\<dots> \<le> length s" using leading_int_rest [OF li] .
  finally show ?thesis .
qed

function duration_parts :: "int \<Rightarrow> string \<Rightarrow> int option" where
  "duration_parts d s =
     (if s = [] then Some d
      else case duration_part s of None \<Rightarrow> None
      | Some (w, r) \<Rightarrow> if d + w > 2 ^ 63 then None else duration_parts (d + w) r)"
  by pat_completeness auto
termination
  by (relation "measure (length \<circ> snd)") (auto dest: duration_part_shorter)

declare duration_parts.simps [simp del]

definition parse_duration :: "string \<Rightarrow> duration option" where
  "parse_duration s =
     (let (neg, t) = take_sign s in
      if t = ''0'' then Some 0
      else if t = [] then None
      else case duration_parts 0 t of None \<Rightarrow> None
      | Some d \<Rightarrow> if neg then Some (- d) else if d > 2 ^ 63 - 1 then None else Some d)"

lemma parse_duration_examples:
  "parse_duration ''1h30m'' = Some (90 * minute)"
  "parse_duration ''-250ms'' = Some (- 250000000)"
  "parse_duration ''45'' = None"
  "parse_duration ''.s'' = None"
  by code_simp+

section \<open>Decimal numbers are read back\<close>

lemma digit_of_char: "n < 10 \<Longrightarrow> is_digit (char_of (48 + n)) \<and> digit_value (char_of (48 + n :: nat)) = int n"
  by (simp add: is_digit_def digit_value_def Let_def)

lemma show_nat_digits: "list_all is_digit (show_nat n) \<and> show_nat n \<noteq> [] \<and> digits_value (show_nat n) = int n"
proof (induction n rule: show_nat.induct)
  case (1 n)
  show ?case
  proof (cases "n < 10")
    case True then show ?thesis using digit_of_char [of n] by (simp add: show_nat.simps [of n] digits_value_def)
  next
    case False
    then have "show_nat n = show_nat (n div 10) @ [char_of (48 + n mod 10)]" by (simp add: show_nat.simps [of n])
    moreover have "is_digit (char_of (48 + n mod 10)) \<and> digit_value (char_of (48 + n mod 10 :: nat)) = int (n mod 10)"
      by (rule digit_of_char) simp
    moreover have "10 * int (n div 10) + int (n mod 10) = int n" by presburger
    ultimately show ?thesis using 1 False by (simp add: digits_value_def)
  qed
qed

end
