(* ===== verification/ConfigModel.thy ===== *)
theory ConfigModel
  imports GoParse RcaModel
begin

text \<open>
  Configurations as the loader of src/internal/config sees them.  decode.go, env.go and interpolate.go walk the
  structs of config.go by reflection: they ask for the fields of a struct, their names, their kinds and their values.
  A configuration is therefore the tree reflection shows: a struct is the list of its exported fields in order of
  declaration, a slice carries the zero value of its element type.  The structs of config.go themselves are in
  ConfigTypes, each as its zero value.
\<close>

section \<open>Fields\<close>

datatype fval =
    FStruct "(string \<times> fval) list"
  | FStr string
  | FBool bool
  | FInt int
  | FFloat rat
  | FDur duration
  | FSlice fval "fval list"
  | FOther string int \<comment> \<open>a type the loader does not decode: its name and its value\<close>

text \<open>A composite literal of Go: the named fields have the given values, the others their zero value.\<close>

fun struct_lit :: "fval \<Rightarrow> (string \<times> fval) list \<Rightarrow> fval" where
  "struct_lit (FStruct fs) kvs = FStruct (map (\<lambda>(n, z). (n, case map_of kvs n of None \<Rightarrow> z | Some v \<Rightarrow> v)) fs)"
| "struct_lit v kvs = v"

text \<open>The selector \<open>cfg.A.B\<close>.\<close>

fun leaf :: "string list \<Rightarrow> fval \<Rightarrow> fval option" where
  "leaf [] v = Some v"
| "leaf (n # ns) (FStruct fs) = (case map_of fs n of None \<Rightarrow> None | Some v \<Rightarrow> leaf ns v)"
| "leaf (n # ns) v = None"

definition str_at :: "string list \<Rightarrow> fval \<Rightarrow> string" where
  "str_at ns v = (case leaf ns v of Some (FStr s) \<Rightarrow> s | _ \<Rightarrow> [])"

definition bool_at :: "string list \<Rightarrow> fval \<Rightarrow> bool" where
  "bool_at ns v = (leaf ns v = Some (FBool True))"

definition length_at :: "string list \<Rightarrow> fval \<Rightarrow> nat" where
  "length_at ns v = (case leaf ns v of Some (FSlice el xs) \<Rightarrow> length xs | _ \<Rightarrow> 0)"

fun set_leaf :: "string list \<Rightarrow> (fval \<Rightarrow> fval) \<Rightarrow> fval \<Rightarrow> fval" where
  "set_leaf [] f v = f v"
| "set_leaf (n # ns) f (FStruct fs) = FStruct (map (\<lambda>(m, v). (m, if m = n then set_leaf ns f v else v)) fs)"
| "set_leaf (n # ns) f v = v"

section \<open>YAML\<close>

text \<open>
  What the YAML package decodes a document into.  A mapping with string keys lists its entries in the order in which
  the runtime ranges over the map; floats are finite; \<open>ROther\<close> stands for the values of other types, by the name of the type.
\<close>

datatype raw =
    RNil
  | RMap "(string \<times> raw) list"
  | RSeq "raw list"
  | RStr string
  | RBool bool
  | RInt int
  | RInt64 int
  | RFloat rat
  | ROther string

fun type_name :: "raw \<Rightarrow> string" where
  "type_name RNil = ''<nil>''"
| "type_name (RMap m) = ''map[string]interface {}''"
| "type_name (RSeq xs) = ''[]interface {}''"
| "type_name (RStr s) = ''string''"
| "type_name (RBool b) = ''bool''"
| "type_name (RInt i) = ''int''"
| "type_name (RInt64 i) = ''int64''"
| "type_name (RFloat x) = ''float64''"
| "type_name (ROther t) = t"

section \<open>Errors\<close>

text \<open>The errors of \<open>Load\<close>, with the values their texts print.\<close>

datatype config_error =
    ErrReading string string \<comment> \<open>path and error of the file system\<close>
  | ErrParsing string string \<comment> \<open>path and error of the YAML package\<close>
  | ErrUnknownKey string
  | ErrExpected string string string \<comment> \<open>path, what was expected, type found\<close>
  | ErrDuration string string \<comment> \<open>path and text\<close>
  | ErrUnsupported string string \<comment> \<open>path and field type\<close>
  | ErrServerMode string
  | ErrServerProfile string
  | ErrProdWithoutAuth
  | ErrNoneOutsideDev
  | ErrNoneNotLoopback string
  | ErrGateImmediate
  | ErrExecute "string list"
  | ErrReasonerKey

section \<open>Shape\<close>

text \<open>Two values of one Go type: the same tree, up to the leaves and the number of elements of slices; the
  first is usually the zero value of the type.\<close>

fun same_shape :: "fval \<Rightarrow> fval \<Rightarrow> bool" where
  "same_shape (FStruct fs) w = (case w of FStruct gs \<Rightarrow> list_all2 (\<lambda>f g. fst f = fst g \<and> same_shape (snd f) (snd g)) fs gs | _ \<Rightarrow> False)"
| "same_shape (FStr s) w = (case w of FStr t \<Rightarrow> True | _ \<Rightarrow> False)"
| "same_shape (FBool b) w = (case w of FBool c \<Rightarrow> True | _ \<Rightarrow> False)"
| "same_shape (FInt i) w = (case w of FInt j \<Rightarrow> True | _ \<Rightarrow> False)"
| "same_shape (FFloat x) w = (case w of FFloat y \<Rightarrow> True | _ \<Rightarrow> False)"
| "same_shape (FDur d) w = (case w of FDur e \<Rightarrow> True | _ \<Rightarrow> False)"
| "same_shape (FSlice el xs) w = (case w of FSlice el' ys \<Rightarrow> el = el' \<and> same_shape el el \<and> list_all (same_shape el) ys | _ \<Rightarrow> False)"
| "same_shape (FOther t i) w = (case w of FOther u j \<Rightarrow> t = u | _ \<Rightarrow> False)"

end
