(* ===== verification/ConfigTypes.thy ===== *)
theory ConfigTypes
  imports ConfigModel
begin

text \<open>
  The structs of src/internal/config/config.go, each as its zero value: the fields in order of declaration, with the
  zero value of their types.  A struct that is a field of another is defined before it.  Then the value of \<open>Default\<close> in
  src/internal/config/defaults.go, block by block.
\<close>

text \<open>\<open>CriticalSLOBreach\<close> of src/internal/model/anomaly.go; its objective is a \<open>uint8\<close>.\<close>

definition CriticalSLOBreach :: fval where
  "CriticalSLOBreach = FStruct
    [(''ID'', FStr []), (''Service'', FStr []), (''Objective'', FOther ''model.SLOObjective'' 0), (''Threshold'', FFloat 0),
     (''Window'', FDur 0), (''MinDuration'', FDur 0)]"

definition ServerConfig :: fval where
  "ServerConfig = FStruct
    [(''Mode'', FStr []), (''Profile'', FStr []), (''NodeID'', FStr []), (''DataDir'', FStr []),
     (''LogLevel'', FStr []), (''LogFormat'', FStr []), (''ShutdownGrace'', FDur 0)]"

definition TenancyConfig :: fval where
  "TenancyConfig = FStruct
    [(''Enabled'', FBool False), (''DefaultTenant'', FStr [])]"

definition TLSConfig :: fval where
  "TLSConfig = FStruct
    [(''Enabled'', FBool False), (''CertFile'', FStr []), (''KeyFile'', FStr []), (''ClientCAFile'', FStr []),
     (''MinVersion'', FStr [])]"

definition IngestReceiverConfig :: fval where
  "IngestReceiverConfig = FStruct
    [(''Enabled'', FBool False), (''Endpoint'', FStr []), (''TLS'', TLSConfig)]"

definition IngestQueueConfig :: fval where
  "IngestQueueConfig = FStruct
    [(''Capacity'', FInt 0), (''MaxBytes'', FInt 0), (''EnqueueTimeout'', FDur 0), (''OverflowPolicy'', FStr [])]"

definition IngestLimitsConfig :: fval where
  "IngestLimitsConfig = FStruct
    [(''MaxSpanBytes'', FInt 0), (''MaxAttributesPerSpan'', FInt 0), (''MaxAttributeValueBytes'', FInt 0),
     (''OversizeAttr'', FStr []), (''MaxAttributeKeyBytes'', FInt 0), (''MaxEventsPerSpan'', FInt 0),
     (''MaxLinksPerSpan'', FInt 0), (''MaxSpansPerBatch'', FInt 0), (''MaxSpansPerTrace'', FInt 0),
     (''MaxRequestBytes'', FInt 0), (''PerTenantBytesPerSec'', FInt 0), (''ClockSkewFuture'', FDur 0),
     (''MaxSpanAge'', FDur 0)]"

definition IngestAuthConfig :: fval where
  "IngestAuthConfig = FStruct
    [(''Mode'', FStr []), (''TokensFile'', FStr []), (''ClientCAFile'', FStr [])]"

definition IngestConfig :: fval where
  "IngestConfig = FStruct
    [(''OTLPGRPC'', IngestReceiverConfig), (''OTLPHTTP'', IngestReceiverConfig),
     (''JaegerGRPC'', IngestReceiverConfig), (''ZipkinHTTP'', IngestReceiverConfig), (''DecodeWorkers'', FInt 0),
     (''Queue'', IngestQueueConfig), (''Limits'', IngestLimitsConfig), (''Auth'', IngestAuthConfig)]"

definition SamplerAssemblyConfig :: fval where
  "SamplerAssemblyConfig = FStruct
    [(''IdleTimeout'', FDur 0), (''HardTimeout'', FDur 0), (''MaxOpenTracesPerShard'', FInt 0),
     (''MemoryHighWatermarkBytes'', FInt 0), (''WheelTick'', FDur 0)]"

definition SamplerWALConfig :: fval where
  "SamplerWALConfig = FStruct
    [(''Enabled'', FBool False), (''Dir'', FStr []), (''FlushInterval'', FDur 0), (''MaxSegmentBytes'', FInt 0)]"

definition SamplerPolicyConfig :: fval where
  "SamplerPolicyConfig = FStruct
    [(''KeepErrors'', FBool False), (''SlowQuantile'', FFloat 0), (''SlowMinDuration'', FDur 0),
     (''RarePathLookbackDays'', FInt 0), (''RarePathKeepsPerMin'', FInt 0), (''MaxPathSignatureCardinality'', FInt 0),
     (''BaselineMinSamples'', FInt 0), (''HealthySampleRate'', FFloat 0), (''FloorTracesPerMinPerService'', FInt 0),
     (''MaxKeepRate'', FFloat 0)]"

definition SamplerBaselineConfig :: fval where
  "SamplerBaselineConfig = FStruct
    [(''RefreshInterval'', FDur 0)]"

definition SamplerInterestConfig :: fval where
  "SamplerInterestConfig = FStruct
    [(''Enabled'', FBool False), (''MaxPredicates'', FInt 0), (''MaxRecurrencePredicates'', FInt 0),
     (''MaxTraceIDsPerPredicate'', FInt 0), (''ScopeTTL'', FDur 0), (''RecurrenceTTL'', FDur 0),
     (''NarrowAtKeepRate'', FFloat 0), (''Persist'', FBool False)]"

definition SamplerRedConfig :: fval where
  "SamplerRedConfig = FStruct
    [(''DedupeWindow'', FInt 0)]"

definition SamplerConfig :: fval where
  "SamplerConfig = FStruct
    [(''Shards'', FInt 0), (''ShardQueueSize'', FInt 0), (''Assembly'', SamplerAssemblyConfig),
     (''WAL'', SamplerWALConfig), (''Policy'', SamplerPolicyConfig), (''Baseline'', SamplerBaselineConfig),
     (''Interest'', SamplerInterestConfig), (''Red'', SamplerRedConfig)]"

definition StoreHotSQLiteConfig :: fval where
  "StoreHotSQLiteConfig = FStruct
    [(''Path'', FStr []), (''BusyTimeout'', FDur 0), (''CacheSizeKB'', FInt 0), (''MaxReadConns'', FInt 0),
     (''BatchTraces'', FInt 0), (''BatchInterval'', FDur 0), (''CheckpointInterval'', FDur 0),
     (''WALAutocheckpoint'', FInt 0)]"

definition StoreHotClickHouseConfig :: fval where
  "StoreHotClickHouseConfig = FStruct
    [(''DSN'', FStr []), (''Database'', FStr []), (''MaxOpenConns'', FInt 0)]"

definition StoreHotConfig :: fval where
  "StoreHotConfig = FStruct
    [(''Driver'', FStr []), (''IndexedAttributeKeys'', FSlice (FStr []) []),
     (''IndexAttrsForKinds'', FSlice (FInt 0) []), (''MaxIndexedAttrValueBytes'', FInt 0),
     (''MaxPathSignatures'', FInt 0), (''MaxKeptSpansPerSec'', FInt 0), (''SQLite'', StoreHotSQLiteConfig),
     (''ClickHouse'', StoreHotClickHouseConfig)]"

definition StoreColdParquetConfig :: fval where
  "StoreColdParquetConfig = FStruct
    [(''Path'', FStr []), (''ObjectStoreURL'', FStr []), (''Compression'', FStr []), (''CompressionLevel'', FInt 0),
     (''RowGroupBytes'', FInt 0), (''TargetBlockBytes'', FInt 0), (''FlushInterval'', FDur 0),
     (''MaxOpenBlocks'', FInt 0), (''WALDir'', FStr []), (''WALFsyncInterval'', FDur 0), (''WALFsyncBytes'', FInt 0),
     (''WALRetain'', FDur 0)]"

definition StoreColdCompactionConfig :: fval where
  "StoreColdCompactionConfig = FStruct
    [(''TombstoneRatio'', FFloat 0), (''MaxTombstoneAge'', FDur 0), (''MaxBytesPerHour'', FInt 0),
     (''OrphanGrace'', FDur 0), (''ReaperInterval'', FDur 0)]"

definition StoreColdConfig :: fval where
  "StoreColdConfig = FStruct
    [(''Driver'', FStr []), (''Parquet'', StoreColdParquetConfig), (''Compaction'', StoreColdCompactionConfig)]"

definition StoreRetentionConfig :: fval where
  "StoreRetentionConfig = FStruct
    [(''HotSpanRows'', FDur 0), (''HotTraceRows'', FDur 0), (''HotRollups'', FDur 0), (''ColdAnomalous'', FDur 0),
     (''ColdSampled'', FDur 0), (''Red10s'', FDur 0), (''Red5m'', FDur 0), (''RedRollups'', FDur 0),
     (''Topology10s'', FDur 0), (''Topology5m'', FDur 0), (''Topology1h'', FDur 0), (''Investigations'', FDur 0),
     (''Audit'', FDur 0), (''CompactionInterval'', FDur 0)]"

definition StoreCostConfig :: fval where
  "StoreCostConfig = FStruct
    [(''SignalInterval'', FDur 0), (''MeasureWindow'', FDur 0), (''Deadband'', FFloat 0), (''MaxStep'', FFloat 0),
     (''RecoveryRamp'', FFloat 0), (''AdaptiveFloorMin'', FFloat 0), (''AdaptiveFloorMax'', FFloat 0),
     (''SettlingTarget'', FDur 0), (''ByteBudgetPerTenantGB'', FInt 0)]"

definition StoreBudgetConfig :: fval where
  "StoreBudgetConfig = FStruct
    [(''MaxDiskBytes'', FInt 0), (''HighWatermark'', FFloat 0), (''ActionOnFull'', FStr [])]"

definition StoreConfig :: fval where
  "StoreConfig = FStruct
    [(''Hot'', StoreHotConfig), (''Cold'', StoreColdConfig), (''Retention'', StoreRetentionConfig),
     (''Cost'', StoreCostConfig), (''Budget'', StoreBudgetConfig)]"

definition TopologyConfig :: fval where
  "TopologyConfig = FStruct
    [(''Bucket'', FDur 0), (''Window'', FDur 0), (''MaxEdges'', FInt 0), (''MaxOperationsPerEdge'', FInt 0),
     (''NewEdgeMinCalls'', FInt 0), (''VanishedAfter'', FDur 0), (''EnvoyAccessLogsEnabled'', FBool False)]"

definition AnomalyBaselineConfig :: fval where
  "AnomalyBaselineConfig = FStruct
    [(''Estimator'', FStr []), (''TDigestCompression'', FInt 0), (''EWMAAlpha'', FFloat 0),
     (''Seasonal'', FBool False), (''SeasonSlots'', FInt 0), (''WarmupSamples'', FInt 0),
     (''WarmupSamplesPerBucket'', FInt 0), (''ColdStartMultiplier'', FFloat 0), (''MaxColdStart'', FDur 0),
     (''MaxKeys'', FInt 0), (''MaxKeysGlobal'', FInt 0), (''MaxErrorSignatures'', FInt 0),
     (''CheckpointInterval'', FDur 0), (''CheckpointMaxRows'', FInt 0), (''MinRPS'', FFloat 0)]"

definition AnomalyThresholdsConfig :: fval where
  "AnomalyThresholdsConfig = FStruct
    [(''LatencyRatio'', FFloat 0), (''LatencyAbsDelta'', FDur 0), (''ErrorRateDelta'', FFloat 0),
     (''ErrorBurstRatio'', FFloat 0), (''ThroughputDropRatio'', FFloat 0), (''NewErrorSignatureLookback'', FDur 0),
     (''NewErrorSigMinCalls'', FInt 0), (''MinCalls'', FInt 0), (''MinEventScore'', FFloat 0)]"

definition AnomalyGroupingConfig :: fval where
  "AnomalyGroupingConfig = FStruct
    [(''Window'', FDur 0), (''TopologyHops'', FInt 0), (''MaxEventsPerIncident'', FInt 0),
     (''MaxOpenIncidents'', FInt 0), (''DedupeTTL'', FDur 0), (''NeighborCacheEntries'', FInt 0),
     (''NeighborCacheTTL'', FDur 0)]"

definition AnomalyDeployMarkersConfig :: fval where
  "AnomalyDeployMarkersConfig = FStruct
    [(''Enabled'', FBool False), (''CorrelationWindow'', FDur 0), (''Settle'', FDur 0)]"

definition AnomalyConfig :: fval where
  "AnomalyConfig = FStruct
    [(''Detectors'', FSlice (FStr []) []), (''EvalInterval'', FDur 0), (''EvalWindow'', FDur 0),
     (''DebounceTicks'', FInt 0), (''Baseline'', AnomalyBaselineConfig), (''Thresholds'', AnomalyThresholdsConfig),
     (''Grouping'', AnomalyGroupingConfig), (''DeployMarkers'', AnomalyDeployMarkersConfig)]"

definition RCABudgetConfig :: fval where
  "RCABudgetConfig = FStruct
    [(''WallClock'', FDur 0), (''MaxStepWallClock'', FDur 0), (''MaxSteps'', FInt 0), (''MaxToolCalls'', FInt 0),
     (''MaxTokensIn'', FInt 0), (''MaxCachedTokensIn'', FInt 0), (''MaxTokensOut'', FInt 0),
     (''MaxCostMicroUSD'', FInt 0), (''MaxCostMicroUSDPerTenantPerDay'', FInt 0),
     (''MaxCostMicroUSDGlobalPerDay'', FInt 0), (''MaxRowsPerToolCall'', FInt 0), (''MaxEvidenceBytes'', FInt 0),
     (''VerbatimDigestWindow'', FInt 0), (''CompactedVerdictTokens'', FInt 0)]"

definition RCAToolsConfig :: fval where
  "RCAToolsConfig = FStruct
    [(''MaxWindow'', FDur 0)]"

definition RCALLMPricingConfig :: fval where
  "RCALLMPricingConfig = FStruct
    [(''Input'', FInt 0), (''CachedRead'', FInt 0), (''CacheWrite'', FInt 0), (''Output'', FInt 0)]"

definition RCALLMConfig :: fval where
  "RCALLMConfig = FStruct
    [(''Provider'', FStr []), (''BaseURL'', FStr []), (''Model'', FStr []), (''Effort'', FStr []),
     (''Thinking'', FStr []), (''APIKeyEnv'', FStr []), (''APIKeyFile'', FStr []), (''Timeout'', FDur 0),
     (''MaxRetries'', FInt 0), (''MaxOutputTokens'', FInt 0), (''PromptCache'', FBool False),
     (''Pricing'', RCALLMPricingConfig)]"

definition RCAConfig :: fval where
  "RCAConfig = FStruct
    [(''Enabled'', FBool False), (''AutoInvestigate'', FBool False), (''MinIncidentScore'', FFloat 0),
     (''MaxConcurrentInvestigations'', FInt 0), (''Reasoner'', FStr []), (''ConfidenceThreshold'', FFloat 0),
     (''Budget'', RCABudgetConfig), (''Tools'', RCAToolsConfig), (''LLM'', RCALLMConfig)]"

definition CorrelateBackendConfig :: fval where
  "CorrelateBackendConfig = FStruct
    [(''Driver'', FStr []), (''URL'', FStr []), (''Path'', FStr []), (''Timeout'', FDur 0), (''MaxLines'', FInt 0),
     (''Step'', FDur 0), (''TenantMode'', FStr []), (''TenantHeader'', FStr []), (''TenantLabel'', FStr [])]"

definition CorrelateCacheConfig :: fval where
  "CorrelateCacheConfig = FStruct
    [(''Enabled'', FBool False), (''MaxEntries'', FInt 0), (''TTL'', FDur 0)]"

definition CorrelateConfig :: fval where
  "CorrelateConfig = FStruct
    [(''Logs'', CorrelateBackendConfig), (''Metrics'', CorrelateBackendConfig),
     (''EgressAllowlist'', FSlice (FStr []) []), (''AllowPrivateNetworks'', FBool False), (''MaxInflight'', FInt 0),
     (''MaxInflightGlobal'', FInt 0), (''BreakerFailures'', FInt 0), (''BreakerOpen'', FDur 0),
     (''Cache'', CorrelateCacheConfig)]"

definition MemoryEmbeddingsConfig :: fval where
  "MemoryEmbeddingsConfig = FStruct
    [(''Driver'', FStr []), (''Dim'', FInt 0)]"

definition MemoryRetrievalConfig :: fval where
  "MemoryRetrievalConfig = FStruct
    [(''TopK'', FInt 0), (''MinSimilarity'', FFloat 0), (''MaxCandidates'', FInt 0), (''Hybrid'', FBool False),
     (''WeightDecayHalfLife'', FDur 0)]"

definition MemoryIndexConfig :: fval where
  "MemoryIndexConfig = FStruct
    [(''MaxVocabulary'', FInt 0)]"

definition MemoryConsolidationConfig :: fval where
  "MemoryConsolidationConfig = FStruct
    [(''Interval'', FDur 0), (''HourOfDay'', FInt 0), (''PruneAfterDays'', FInt 0), (''DedupeThreshold'', FFloat 0),
     (''MinhashPermutations'', FInt 0), (''MinhashBands'', FInt 0), (''MaxDuration'', FDur 0)]"

definition MemoryConfig :: fval where
  "MemoryConfig = FStruct
    [(''Enabled'', FBool False), (''Embeddings'', MemoryEmbeddingsConfig), (''Retrieval'', MemoryRetrievalConfig),
     (''Index'', MemoryIndexConfig), (''Consolidation'', MemoryConsolidationConfig)]"

definition RemediateConfig :: fval where
  "RemediateConfig = FStruct
    [(''Enabled'', FBool False), (''Mode'', FStr []), (''Executor'', FStr []), (''Allowlist'', FSlice (FStr []) []),
     (''TargetAllowlist'', FSlice (FStr []) []), (''NamespaceAllowlist'', FSlice (FStr []) []),
     (''RequireApproval'', FBool False), (''ApproverRoles'', FSlice (FStr []) []),
     (''AutoExecuteOnApprove'', FBool False), (''ActionBudgetPerIncident'', FInt 0),
     (''MaxBudgetOverridesPerIncident'', FInt 0), (''ApprovalTTL'', FDur 0), (''ProposalTTL'', FDur 0),
     (''VerifyWindow'', FDur 0), (''AutoRollback'', FBool False), (''ExecTimeout'', FDur 0),
     (''Kubeconfig'', FStr []), (''SnapshotDir'', FStr [])]"

definition AlertingDeadmanConfig :: fval where
  "AlertingDeadmanConfig = FStruct
    [(''Enabled'', FBool False), (''Interval'', FDur 0), (''Target'', FStr [])]"

definition AlertingSinkConfig :: fval where
  "AlertingSinkConfig = FStruct
    [(''Enabled'', FBool False), (''RoutingKeyEnv'', FStr []), (''APIKeyEnv'', FStr []), (''Channel'', FStr [])]"

definition AlertingConfig :: fval where
  "AlertingConfig = FStruct
    [(''Gate'', FStr []), (''MaxWaitForRCA'', FDur 0), (''MinSeverity'', FStr []),
     (''CriticalSLOBreaches'', FSlice (CriticalSLOBreach) []), (''Deadman'', AlertingDeadmanConfig),
     (''PagerDuty'', AlertingSinkConfig), (''Opsgenie'', AlertingSinkConfig), (''Slack'', AlertingSinkConfig),
     (''Routes'', FSlice (FStr []) [])]"

definition NLChatConfig :: fval where
  "NLChatConfig = FStruct
    [(''Enabled'', FBool False), (''SigningSecretEnv'', FStr []), (''BotTokenEnv'', FStr []), (''SecretEnv'', FStr [])]"

definition NLConfig :: fval where
  "NLConfig = FStruct
    [(''Enabled'', FBool False), (''Interpreter'', FStr []), (''ContextTurns'', FInt 0),
     (''MaxQuestionBytes'', FInt 0), (''AnswerEvidenceLimit'', FInt 0), (''Slack'', NLChatConfig),
     (''Teams'', NLChatConfig)]"

definition APIConfig :: fval where
  "APIConfig = FStruct
    [(''Endpoint'', FStr []), (''UI'', FBool False), (''MCP'', FBool False), (''MCPPath'', FStr []),
     (''CORSOrigins'', FSlice (FStr []) []), (''ReadTimeout'', FDur 0), (''WriteTimeout'', FDur 0),
     (''IdleTimeout'', FDur 0), (''MaxBodyBytes'', FInt 0), (''RateLimitRPS'', FInt 0), (''RateLimitBurst'', FInt 0)]"

definition AuthOIDCConfig :: fval where
  "AuthOIDCConfig = FStruct
    [(''Issuer'', FStr []), (''Audience'', FStr []), (''RoleClaim'', FStr []), (''TenantClaim'', FStr [])]"

definition AuthAuditConfig :: fval where
  "AuthAuditConfig = FStruct
    [(''Enabled'', FBool False), (''Path'', FStr []), (''HashChain'', FBool False), (''AnchorInterval'', FDur 0),
     (''AnchorSink'', FStr []), (''AnchorDir'', FStr []), (''AnchorObjectPrefix'', FStr []),
     (''AnchorKeyRef'', FStr []), (''AnchorSyslogAddr'', FStr []), (''RetentionDays'', FInt 0)]"

definition AuthRateLimitConfig :: fval where
  "AuthRateLimitConfig = FStruct
    [(''MaxKeys'', FInt 0)]"

definition AuthConfig :: fval where
  "AuthConfig = FStruct
    [(''Mode'', FStr []), (''TokensFile'', FStr []), (''BootstrapAdminTokenEnv'', FStr []), (''TokenHash'', FStr []),
     (''TLS'', TLSConfig), (''OIDC'', AuthOIDCConfig), (''Audit'', AuthAuditConfig),
     (''RateLimit'', AuthRateLimitConfig)]"

definition EvalLiveConfig :: fval where
  "EvalLiveConfig = FStruct
    [(''Enabled'', FBool False), (''Confirm'', FStr []), (''Kubeconfig'', FStr []),
     (''ContextAllowlist'', FSlice (FStr []) [])]"

definition EvalConfig :: fval where
  "EvalConfig = FStruct
    [(''Enabled'', FBool False), (''ScenariosDir'', FStr []), (''OutputDir'', FStr []), (''Mode'', FStr []),
     (''Parallelism'', FInt 0), (''Isolation'', FStr []), (''Seed'', FInt 0), (''Reasoner'', FStr []),
     (''RegressionBaseline'', FStr []), (''FailOnRegression'', FBool False), (''Live'', EvalLiveConfig)]"

definition SelfObsConfig :: fval where
  "SelfObsConfig = FStruct
    [(''MetricsEndpoint'', FStr []), (''OTLPExportURL'', FStr []), (''Pprof'', FBool False),
     (''HealthPath'', FStr []), (''ReadyPath'', FStr [])]"

definition ClusterBusConfig :: fval where
  "ClusterBusConfig = FStruct
    [(''Driver'', FStr []), (''Brokers'', FSlice (FStr []) []), (''Topic'', FStr []), (''Partitions'', FInt 0)]"

definition ClusterLeaderElectionConfig :: fval where
  "ClusterLeaderElectionConfig = FStruct
    [(''Driver'', FStr []), (''Namespace'', FStr []), (''LeaseName'', FStr [])]"

definition ClusterConfig :: fval where
  "ClusterConfig = FStruct
    [(''Enabled'', FBool False), (''Bus'', ClusterBusConfig), (''LeaderElection'', ClusterLeaderElectionConfig)]"

definition OpsBackupConfig :: fval where
  "OpsBackupConfig = FStruct
    [(''Enabled'', FBool False), (''Dir'', FStr []), (''ControlInterval'', FDur 0), (''TelemetryInterval'', FDur 0),
     (''ColdWALShip'', FBool False), (''Retain'', FDur 0), (''VerifyOnWrite'', FBool False)]"

definition OpsConfig :: fval where
  "OpsConfig = FStruct
    [(''ShutdownGrace'', FDur 0), (''Backup'', OpsBackupConfig)]"

definition Config :: fval where
  "Config = FStruct
    [(''Server'', ServerConfig), (''Tenancy'', TenancyConfig), (''Ingest'', IngestConfig),
     (''Sampler'', SamplerConfig), (''Store'', StoreConfig), (''Topology'', TopologyConfig),
     (''Anomaly'', AnomalyConfig), (''RCA'', RCAConfig), (''Correlate'', CorrelateConfig), (''Memory'', MemoryConfig),
     (''Remediate'', RemediateConfig), (''Alerting'', AlertingConfig), (''NL'', NLConfig), (''API'', APIConfig),
     (''Auth'', AuthConfig), (''Eval'', EvalConfig), (''SelfObs'', SelfObsConfig), (''Cluster'', ClusterConfig),
     (''Ops'', OpsConfig)]"


definition an_hour :: duration where
  "an_hour = 60 * minute"

definition default_Server :: fval where
  "default_Server =
     (struct_lit ServerConfig
      [(''Mode'', FStr ''single''), (''Profile'', FStr ''dev''), (''NodeID'', FStr []),
       (''DataDir'', FStr ''./traceiq-data''), (''LogLevel'', FStr ''info''), (''LogFormat'', FStr ''json''),
       (''ShutdownGrace'', FDur (45 * second))])"

definition default_Tenancy :: fval where
  "default_Tenancy =
     (struct_lit TenancyConfig
      [(''Enabled'', FBool False), (''DefaultTenant'', FStr ''default'')])"

definition default_Ingest :: fval where
  "default_Ingest =
     (struct_lit IngestConfig
      [(''OTLPGRPC'', (struct_lit IngestReceiverConfig
        [(''Enabled'', FBool True), (''Endpoint'', FStr ''127.0.0.1:4317''),
         (''TLS'', (struct_lit TLSConfig
          [(''Enabled'', FBool True), (''MinVersion'', FStr ''1.3'')]))])),
       (''OTLPHTTP'', (struct_lit IngestReceiverConfig
        [(''Enabled'', FBool True), (''Endpoint'', FStr ''127.0.0.1:4318''),
         (''TLS'', (struct_lit TLSConfig
          [(''Enabled'', FBool True), (''MinVersion'', FStr ''1.3'')]))])),
       (''JaegerGRPC'', (struct_lit IngestReceiverConfig
        [(''Enabled'', FBool False),
         (''TLS'', (struct_lit TLSConfig
          [(''Enabled'', FBool True), (''MinVersion'', FStr ''1.3'')]))])),
       (''ZipkinHTTP'', (struct_lit IngestReceiverConfig
        [(''Enabled'', FBool False),
         (''TLS'', (struct_lit TLSConfig
          [(''Enabled'', FBool True), (''MinVersion'', FStr ''1.3'')]))])),
       (''Auth'', (struct_lit IngestAuthConfig
        [(''Mode'', FStr ''token''), (''TokensFile'', FStr ''${data_dir}/ingest_tokens.json'')])),
       (''DecodeWorkers'', FInt 0),
       (''Queue'', (struct_lit IngestQueueConfig
        [(''Capacity'', FInt 1024), (''MaxBytes'', FInt 268435456), (''EnqueueTimeout'', FDur (100 * millisecond)),
         (''OverflowPolicy'', FStr ''shed'')])),
       (''Limits'', (struct_lit IngestLimitsConfig
        [(''MaxSpanBytes'', FInt 524288), (''MaxAttributesPerSpan'', FInt 128),
         (''MaxAttributeValueBytes'', FInt 4096), (''OversizeAttr'', FStr ''truncate''),
         (''MaxAttributeKeyBytes'', FInt 256), (''MaxEventsPerSpan'', FInt 128), (''MaxLinksPerSpan'', FInt 128),
         (''MaxSpansPerBatch'', FInt 10000), (''MaxSpansPerTrace'', FInt 10000), (''MaxRequestBytes'', FInt 4194304),
         (''PerTenantBytesPerSec'', FInt 20971520), (''ClockSkewFuture'', FDur (5 * minute)),
         (''MaxSpanAge'', FDur (24 * an_hour))]))])"

definition default_Sampler :: fval where
  "default_Sampler =
     (struct_lit SamplerConfig
      [(''Shards'', FInt 0), (''ShardQueueSize'', FInt 4096),
       (''Assembly'', (struct_lit SamplerAssemblyConfig
        [(''IdleTimeout'', FDur (8 * second)), (''HardTimeout'', FDur (30 * second)),
         (''MaxOpenTracesPerShard'', FInt 50000), (''MemoryHighWatermarkBytes'', FInt 536870912),
         (''WheelTick'', FDur (250 * millisecond))])),
       (''WAL'', (struct_lit SamplerWALConfig
        [(''Enabled'', FBool True), (''Dir'', FStr ''${data_dir}/sampler/wal''), (''FlushInterval'', FDur second),
         (''MaxSegmentBytes'', FInt 67108864)])),
       (''Policy'', (struct_lit SamplerPolicyConfig
        [(''KeepErrors'', FBool True), (''SlowQuantile'', FFloat (rnd64 (99 / 100))),
         (''SlowMinDuration'', FDur (250 * millisecond)), (''RarePathLookbackDays'', FInt 7),
         (''RarePathKeepsPerMin'', FInt 60), (''MaxPathSignatureCardinality'', FInt 200000),
         (''BaselineMinSamples'', FInt 200), (''HealthySampleRate'', FFloat (rnd64 (1 / 100))),
         (''FloorTracesPerMinPerService'', FInt 6), (''MaxKeepRate'', FFloat (rnd64 (25 / 100)))])),
       (''Baseline'', (struct_lit SamplerBaselineConfig
        [(''RefreshInterval'', FDur (60 * second))])),
       (''Interest'', (struct_lit SamplerInterestConfig
        [(''Enabled'', FBool True), (''MaxPredicates'', FInt 32), (''MaxRecurrencePredicates'', FInt 8),
         (''MaxTraceIDsPerPredicate'', FInt 1024), (''ScopeTTL'', FDur (30 * minute)),
         (''RecurrenceTTL'', FDur (24 * an_hour)), (''NarrowAtKeepRate'', FFloat (rnd64 (25 / 100))),
         (''Persist'', FBool True)])),
       (''Red'', (struct_lit SamplerRedConfig
        [(''DedupeWindow'', FInt 200000)]))])"

definition default_Store :: fval where
  "default_Store =
     (struct_lit StoreConfig
      [(''Hot'', (struct_lit StoreHotConfig
        [(''Driver'', FStr ''sqlite''),
         (''IndexedAttributeKeys'', FSlice (FStr []) [FStr ''http.response.status_code'', FStr ''http.route'', FStr ''error.type'', FStr ''rpc.method'', FStr ''db.system.name'', FStr ''peer.service'', FStr ''k8s.pod.name'', FStr ''service.version'']),
         (''IndexAttrsForKinds'', FSlice (FInt 0) [FInt 2, FInt 5]), (''MaxIndexedAttrValueBytes'', FInt 128),
         (''MaxPathSignatures'', FInt 200000), (''MaxKeptSpansPerSec'', FInt 1200),
         (''SQLite'', (struct_lit StoreHotSQLiteConfig
          [(''Path'', FStr ''${data_dir}/hot/traceiq.db''), (''BusyTimeout'', FDur (5 * second)),
           (''CacheSizeKB'', FInt 262144), (''MaxReadConns'', FInt 8), (''BatchTraces'', FInt 200),
           (''BatchInterval'', FDur (250 * millisecond)), (''CheckpointInterval'', FDur (60 * second)),
           (''WALAutocheckpoint'', FInt 4000)])),
         (''ClickHouse'', (struct_lit StoreHotClickHouseConfig
          [(''Database'', FStr ''traceiq''), (''MaxOpenConns'', FInt 16)]))])),
       (''Cold'', (struct_lit StoreColdConfig
        [(''Driver'', FStr ''parquet_local''),
         (''Parquet'', (struct_lit StoreColdParquetConfig
          [(''Path'', FStr ''${data_dir}/cold''), (''Compression'', FStr ''zstd''), (''CompressionLevel'', FInt 3),
           (''RowGroupBytes'', FInt 33554432), (''TargetBlockBytes'', FInt 134217728),
           (''FlushInterval'', FDur (5 * minute)), (''MaxOpenBlocks'', FInt 2),
           (''WALDir'', FStr ''${data_dir}/cold/wal''), (''WALFsyncInterval'', FDur (250 * millisecond)),
           (''WALFsyncBytes'', FInt 4194304), (''WALRetain'', FDur (10 * minute))])),
         (''Compaction'', (struct_lit StoreColdCompactionConfig
          [(''TombstoneRatio'', FFloat (rnd64 (2 / 100))), (''MaxTombstoneAge'', FDur (24 * an_hour)),
           (''OrphanGrace'', FDur (2 * an_hour)), (''ReaperInterval'', FDur (15 * minute))]))])),
       (''Retention'', (struct_lit StoreRetentionConfig
        [(''HotSpanRows'', FDur (24 * an_hour)), (''HotTraceRows'', FDur (7 * 24 * an_hour)),
         (''HotRollups'', FDur (30 * 24 * an_hour)), (''ColdAnomalous'', FDur (30 * 24 * an_hour)),
         (''ColdSampled'', FDur (7 * 24 * an_hour)), (''Red10s'', FDur (48 * an_hour)),
         (''Red5m'', FDur (14 * 24 * an_hour)), (''RedRollups'', FDur (400 * 24 * an_hour)),
         (''Topology10s'', FDur (6 * an_hour)), (''Topology5m'', FDur (7 * 24 * an_hour)),
         (''Topology1h'', FDur (30 * 24 * an_hour)), (''Investigations'', FDur (400 * 24 * an_hour)),
         (''Audit'', FDur (2555 * 24 * an_hour)), (''CompactionInterval'', FDur an_hour)])),
       (''Budget'', (struct_lit StoreBudgetConfig
        [(''MaxDiskBytes'', FInt 26843545600), (''HighWatermark'', FFloat (rnd64 (85 / 100))),
         (''ActionOnFull'', FStr ''shed_sampled'')])),
       (''Cost'', (struct_lit StoreCostConfig
        [(''SignalInterval'', FDur (60 * second)), (''MeasureWindow'', FDur (5 * minute)),
         (''Deadband'', FFloat (rnd64 (15 / 100))), (''MaxStep'', FFloat (rnd64 (5 / 10))),
         (''RecoveryRamp'', FFloat (rnd64 (125 / 100))), (''AdaptiveFloorMin'', FFloat (rnd64 (1 / 10000))),
         (''AdaptiveFloorMax'', FFloat (rnd64 (10 / 10))), (''SettlingTarget'', FDur (30 * minute))]))])"

definition default_Topology :: fval where
  "default_Topology =
     (struct_lit TopologyConfig
      [(''Bucket'', FDur (10 * second)), (''Window'', FDur (15 * minute)), (''MaxEdges'', FInt 20000),
       (''MaxOperationsPerEdge'', FInt 20), (''NewEdgeMinCalls'', FInt 5), (''VanishedAfter'', FDur (30 * minute))])"

definition default_Anomaly :: fval where
  "default_Anomaly =
     (struct_lit AnomalyConfig
      [(''Detectors'', FSlice (FStr []) [FStr ''latency_shift'', FStr ''error_burst'', FStr ''new_error_signature'', FStr ''throughput_drop'', FStr ''topology_change'']),
       (''EvalInterval'', FDur (30 * second)), (''EvalWindow'', FDur (90 * second)), (''DebounceTicks'', FInt 2),
       (''Baseline'', (struct_lit AnomalyBaselineConfig
        [(''Estimator'', FStr ''p2''), (''TDigestCompression'', FInt 100), (''EWMAAlpha'', FFloat (rnd64 (2 / 10))),
         (''Seasonal'', FBool True), (''SeasonSlots'', FInt 31), (''WarmupSamples'', FInt 200),
         (''WarmupSamplesPerBucket'', FInt 30), (''ColdStartMultiplier'', FFloat (rnd64 (15 / 10))),
         (''MaxColdStart'', FDur (24 * an_hour)), (''MaxKeys'', FInt 10000), (''MaxKeysGlobal'', FInt 20000),
         (''MaxErrorSignatures'', FInt 20000), (''CheckpointInterval'', FDur (60 * second)),
         (''CheckpointMaxRows'', FInt 2000), (''MinRPS'', FFloat (rnd64 (1 / 10)))])),
       (''Thresholds'', (struct_lit AnomalyThresholdsConfig
        [(''LatencyRatio'', FFloat (rnd64 (15 / 10))), (''LatencyAbsDelta'', FDur (50 * millisecond)),
         (''ErrorRateDelta'', FFloat (rnd64 (5 / 100))), (''ErrorBurstRatio'', FFloat (rnd64 (30 / 10))),
         (''ThroughputDropRatio'', FFloat (rnd64 (5 / 10))), (''NewErrorSignatureLookback'', FDur (7 * 24 * an_hour)),
         (''NewErrorSigMinCalls'', FInt 5), (''MinCalls'', FInt 20), (''MinEventScore'', FFloat (rnd64 (55 / 100)))])),
       (''Grouping'', (struct_lit AnomalyGroupingConfig
        [(''Window'', FDur (5 * minute)), (''TopologyHops'', FInt 2), (''MaxEventsPerIncident'', FInt 200),
         (''MaxOpenIncidents'', FInt 200), (''DedupeTTL'', FDur (30 * minute)), (''NeighborCacheEntries'', FInt 4096),
         (''NeighborCacheTTL'', FDur (60 * second))])),
       (''DeployMarkers'', (struct_lit AnomalyDeployMarkersConfig
        [(''Enabled'', FBool True), (''CorrelationWindow'', FDur (30 * minute)), (''Settle'', FDur (2 * minute))]))])"

definition default_RCA :: fval where
  "default_RCA =
     (struct_lit RCAConfig
      [(''Enabled'', FBool True), (''AutoInvestigate'', FBool True), (''MinIncidentScore'', FFloat (rnd64 (6 / 10))),
       (''MaxConcurrentInvestigations'', FInt 2), (''Reasoner'', FStr ''auto''),
       (''ConfidenceThreshold'', FFloat (rnd64 (75 / 100))),
       (''Budget'', (struct_lit RCABudgetConfig
        [(''WallClock'', FDur (5 * minute)), (''MaxStepWallClock'', FDur (45 * second)), (''MaxSteps'', FInt 24),
         (''MaxToolCalls'', FInt 40), (''MaxTokensIn'', FInt 120000), (''MaxCachedTokensIn'', FInt 600000),
         (''MaxTokensOut'', FInt 64000), (''MaxCostMicroUSD'', FInt 500000),
         (''MaxCostMicroUSDPerTenantPerDay'', FInt 20000000), (''MaxCostMicroUSDGlobalPerDay'', FInt 100000000),
         (''MaxRowsPerToolCall'', FInt 500), (''MaxEvidenceBytes'', FInt 8192), (''VerbatimDigestWindow'', FInt 3),
         (''CompactedVerdictTokens'', FInt 60)])),
       (''Tools'', (struct_lit RCAToolsConfig
        [(''MaxWindow'', FDur (6 * an_hour))])),
       (''LLM'', (struct_lit RCALLMConfig
        [(''Provider'', FStr ''anthropic''), (''BaseURL'', FStr ''https://api.anthropic.com''),
         (''Model'', FStr ''claude-opus-5''), (''Effort'', FStr ''medium''), (''Thinking'', FStr ''adaptive''),
         (''APIKeyEnv'', FStr ''TRACEIQ_ANTHROPIC_API_KEY''), (''Timeout'', FDur (25 * second)),
         (''MaxRetries'', FInt 2), (''MaxOutputTokens'', FInt 1600), (''PromptCache'', FBool True)]))])"

definition default_Correlate :: fval where
  "default_Correlate =
     (struct_lit CorrelateConfig
      [(''Logs'', (struct_lit CorrelateBackendConfig
        [(''Driver'', FStr ''file''), (''Path'', FStr ''${data_dir}/devlogs''), (''Timeout'', FDur (10 * second)),
         (''MaxLines'', FInt 200), (''TenantMode'', FStr ''none'')])),
       (''Metrics'', (struct_lit CorrelateBackendConfig
        [(''Driver'', FStr ''file''), (''Path'', FStr ''${data_dir}/devmetrics''), (''Timeout'', FDur (10 * second)),
         (''Step'', FDur (30 * second)), (''TenantMode'', FStr ''none'')])),
       (''AllowPrivateNetworks'', FBool False), (''MaxInflight'', FInt 4), (''MaxInflightGlobal'', FInt 16),
       (''BreakerFailures'', FInt 5), (''BreakerOpen'', FDur (30 * second)),
       (''Cache'', (struct_lit CorrelateCacheConfig
        [(''Enabled'', FBool True), (''MaxEntries'', FInt 2048), (''TTL'', FDur (60 * second))]))])"

definition default_Memory :: fval where
  "default_Memory =
     (struct_lit MemoryConfig
      [(''Enabled'', FBool True),
       (''Embeddings'', (struct_lit MemoryEmbeddingsConfig
        [(''Driver'', FStr ''lexical''), (''Dim'', FInt 256)])),
       (''Retrieval'', (struct_lit MemoryRetrievalConfig
        [(''TopK'', FInt 8), (''MinSimilarity'', FFloat (rnd64 (35 / 100))), (''MaxCandidates'', FInt 500),
         (''Hybrid'', FBool False), (''WeightDecayHalfLife'', FDur (90 * 24 * an_hour))])),
       (''Index'', (struct_lit MemoryIndexConfig
        [(''MaxVocabulary'', FInt 50000)])),
       (''Consolidation'', (struct_lit MemoryConsolidationConfig
        [(''Interval'', FDur (24 * an_hour)), (''HourOfDay'', FInt 3), (''PruneAfterDays'', FInt 400),
         (''DedupeThreshold'', FFloat (rnd64 (6 / 10))), (''MinhashPermutations'', FInt 128),
         (''MinhashBands'', FInt 32), (''MaxDuration'', FDur (15 * minute))]))])"

definition default_Remediate :: fval where
  "default_Remediate =
     (struct_lit RemediateConfig
      [(''Enabled'', FBool False), (''Mode'', FStr ''dryrun''), (''Executor'', FStr ''dryrun''),
       (''RequireApproval'', FBool True), (''ApproverRoles'', FSlice (FStr []) [FStr ''approver'', FStr ''admin'']),
       (''AutoExecuteOnApprove'', FBool False), (''ActionBudgetPerIncident'', FInt 2),
       (''MaxBudgetOverridesPerIncident'', FInt 1), (''ApprovalTTL'', FDur (15 * minute)),
       (''ProposalTTL'', FDur (60 * minute)), (''VerifyWindow'', FDur (10 * minute)), (''AutoRollback'', FBool True),
       (''ExecTimeout'', FDur (30 * second)), (''SnapshotDir'', FStr ''${data_dir}/snapshots'')])"

definition default_Alerting :: fval where
  "default_Alerting =
     (struct_lit AlertingConfig
      [(''Gate'', FStr ''investigation''), (''MaxWaitForRCA'', FDur (5 * minute)), (''MinSeverity'', FStr ''P2''),
       (''Deadman'', (struct_lit AlertingDeadmanConfig
        [(''Enabled'', FBool True), (''Interval'', FDur (10 * minute))]))])"

definition default_NL :: fval where
  "default_NL =
     (struct_lit NLConfig
      [(''Enabled'', FBool True), (''Interpreter'', FStr ''auto''), (''ContextTurns'', FInt 5),
       (''MaxQuestionBytes'', FInt 4096), (''AnswerEvidenceLimit'', FInt 20)])"

definition default_API :: fval where
  "default_API =
     (struct_lit APIConfig
      [(''Endpoint'', FStr ''127.0.0.1:8443''), (''UI'', FBool True), (''MCP'', FBool True),
       (''MCPPath'', FStr ''/v1/mcp''), (''ReadTimeout'', FDur (30 * second)), (''WriteTimeout'', FDur (30 * second)),
       (''IdleTimeout'', FDur (120 * second)), (''MaxBodyBytes'', FInt 1048576), (''RateLimitRPS'', FInt 100),
       (''RateLimitBurst'', FInt 200)])"

definition default_Auth :: fval where
  "default_Auth =
     (struct_lit AuthConfig
      [(''Mode'', FStr ''token''), (''BootstrapAdminTokenEnv'', FStr ''TRACEIQ_BOOTSTRAP_ADMIN_TOKEN''),
       (''TokenHash'', FStr ''argon2id''),
       (''TLS'', (struct_lit TLSConfig
        [(''Enabled'', FBool True), (''MinVersion'', FStr ''1.3'')])),
       (''Audit'', (struct_lit AuthAuditConfig
        [(''Enabled'', FBool True), (''HashChain'', FBool True), (''AnchorInterval'', FDur (5 * minute)),
         (''AnchorSink'', FStr ''file''), (''AnchorDir'', FStr ''${data_dir}/audit/anchors''),
         (''RetentionDays'', FInt 2555)])),
       (''RateLimit'', (struct_lit AuthRateLimitConfig
        [(''MaxKeys'', FInt 65536)]))])"

definition default_Eval :: fval where
  "default_Eval =
     (struct_lit EvalConfig
      [(''Enabled'', FBool False), (''ScenariosDir'', FStr ''eval/scenarios''),
       (''OutputDir'', FStr ''${data_dir}/eval''), (''Mode'', FStr ''offline''), (''Parallelism'', FInt 4),
       (''Isolation'', FStr ''process''), (''Reasoner'', FStr ''rules'')])"

definition default_SelfObs :: fval where
  "default_SelfObs =
     (struct_lit SelfObsConfig
      [(''MetricsEndpoint'', FStr ''127.0.0.1:9464''), (''HealthPath'', FStr ''/healthz''),
       (''ReadyPath'', FStr ''/readyz'')])"

definition default_Cluster :: fval where
  "default_Cluster =
     (struct_lit ClusterConfig
      [(''Bus'', (struct_lit ClusterBusConfig
        [(''Driver'', FStr ''none''), (''Partitions'', FInt 32)]))])"

definition default_Ops :: fval where
  "default_Ops =
     (struct_lit OpsConfig
      [(''ShutdownGrace'', FDur (45 * second)),
       (''Backup'', (struct_lit OpsBackupConfig
        [(''Enabled'', FBool False), (''Dir'', FStr ''${data_dir}/backup''), (''ControlInterval'', FDur (5 * minute)),
         (''TelemetryInterval'', FDur (6 * an_hour)), (''ColdWALShip'', FBool True),
         (''Retain'', FDur (7 * 24 * an_hour)), (''VerifyOnWrite'', FBool True)]))])"

definition Default :: fval where
  "Default = struct_lit Config
     [(''Server'', default_Server), (''Tenancy'', default_Tenancy), (''Ingest'', default_Ingest),
      (''Sampler'', default_Sampler), (''Store'', default_Store), (''Topology'', default_Topology),
      (''Anomaly'', default_Anomaly), (''RCA'', default_RCA), (''Correlate'', default_Correlate),
      (''Memory'', default_Memory), (''Remediate'', default_Remediate), (''Alerting'', default_Alerting),
      (''NL'', default_NL), (''API'', default_API), (''Auth'', default_Auth), (''Eval'', default_Eval),
      (''SelfObs'', default_SelfObs), (''Cluster'', default_Cluster), (''Ops'', default_Ops)]"

end
