(* ===== verification/Config.thy ===== *)
theory Config
  imports ConfigTypes
begin

text \<open>
  The loader of src/internal/config: decode.go, env.go, interpolate.go, validate.go and load.go.  The file system, the
  YAML package and the process environment are arguments.  \<open>Load\<close> may not return, since the expansion of
  \<open>${env:X}\<close> may not: then it is None.
\<close>

section \<open>Keys\<close>

definition fieldKeyOverrides :: "(string \<times> string) list" where
  "fieldKeyOverrides =
     [(''OTLPGRPC'', ''otlp_grpc''), (''OTLPHTTP'', ''otlp_http''), (''ClickHouse'', ''clickhouse''), (''SQLite'', ''sqlite''),
      (''TDigestCompression'', ''tdigest_compression''), (''MaxTraceIDsPerPredicate'', ''max_trace_ids_per_predicate''),
      (''PagerDuty'', ''pagerduty'')]"

fun key_runes :: "char \<Rightarrow> string \<Rightarrow> string" where
  "key_runes prev [] = []"
| "key_runes prev (r # rs) =
     (if is_digit r \<and> (is_upper prev \<or> is_lower prev) \<or> is_upper r \<and> is_lower prev
         \<or> is_upper r \<and> rs \<noteq> [] \<and> is_lower (hd rs) \<and> is_upper prev
      then [CHR ''_''] else []) @ lower_char r # key_runes r rs"

definition yamlKeyFor :: "string \<Rightarrow> string" where
  "yamlKeyFor field =
     (case map_of fieldKeyOverrides field of
        Some k \<Rightarrow> k
      | None \<Rightarrow> (case field of [] \<Rightarrow> [] | r # rs \<Rightarrow> lower_char r # key_runes r rs))"

section \<open>Overlaying YAML\<close>

text \<open>\<open>int64(n)\<close> of a float64 truncates; outside the range of int64 the result is that of the implementation, an argument.\<close>

definition int_of_float :: "(rat \<Rightarrow> int) \<Rightarrow> rat \<Rightarrow> int" where
  "int_of_float out x =
     (let t = (if x < 0 then - \<lfloor>- x\<rfloor> else \<lfloor>x\<rfloor>) in if - (2 ^ 63) \<le> t \<and> t < 2 ^ 63 then t else out x)"

definition asInt64 :: "(rat \<Rightarrow> int) \<Rightarrow> raw \<Rightarrow> int option" where
  "asInt64 out raw =
     (case raw of RInt n \<Rightarrow> Some n | RInt64 n \<Rightarrow> Some n | RFloat x \<Rightarrow> Some (int_of_float out x) | _ \<Rightarrow> None)"

definition asFloat64 :: "raw \<Rightarrow> rat option" where
  "asFloat64 raw =
     (case raw of RFloat x \<Rightarrow> Some x | RInt n \<Rightarrow> Some (rnd64 (of_int n)) | RInt64 n \<Rightarrow> Some (rnd64 (of_int n)) | _ \<Rightarrow> None)"

definition index_path :: "string \<Rightarrow> nat \<Rightarrow> string" where
  "index_path path i = path @ ''['' @ show_nat i @ '']''"

text \<open>
  The first error ends the decoding.  A key that no field of the struct claims is an error; of several the first in the
  iteration order of the map is reported.
\<close>

function decodeValue :: "(rat \<Rightarrow> int) \<Rightarrow> fval \<Rightarrow> raw \<Rightarrow> string \<Rightarrow> config_error + fval"
  and decodeStruct :: "(rat \<Rightarrow> int) \<Rightarrow> (string \<times> fval) list \<Rightarrow> (string \<times> raw) list \<Rightarrow> string \<Rightarrow> config_error + fval"
  and decode_fields :: "(rat \<Rightarrow> int) \<Rightarrow> (string \<times> fval) list \<Rightarrow> (string \<times> raw) list \<Rightarrow> string \<Rightarrow> config_error + (string \<times> fval) list"
  and decode_items :: "(rat \<Rightarrow> int) \<Rightarrow> fval \<Rightarrow> raw list \<Rightarrow> string \<Rightarrow> nat \<Rightarrow> config_error + fval list"
where
  "decodeValue out (FDur d) raw path =
     (case raw of
        RNil \<Rightarrow> Inr (FDur d)
      | RStr s \<Rightarrow> (case parse_duration s of None \<Rightarrow> Inl (ErrDuration path s) | Some e \<Rightarrow> Inr (FDur e))
      | _ \<Rightarrow> Inl (ErrExpected path ''a duration string'' (type_name raw)))"
| "decodeValue out (FStruct fs) raw path =
     (case raw of
        RNil \<Rightarrow> Inr (FStruct fs)
      | RMap m \<Rightarrow> decodeStruct out fs m (path @ ''.'')
      | _ \<Rightarrow> Inl (ErrExpected path ''a mapping'' (type_name raw)))"
| "decodeValue out (FSlice el xs) raw path =
     (case raw of
        RNil \<Rightarrow> Inr (FSlice el xs)
      | RSeq items \<Rightarrow> (case decode_items out el items path 0 of Inl e \<Rightarrow> Inl e | Inr ys \<Rightarrow> Inr (FSlice el ys))
      | _ \<Rightarrow> Inl (ErrExpected path ''a sequence'' (type_name raw)))"
| "decodeValue out (FStr s) raw path =
     (case raw of
        RNil \<Rightarrow> Inr (FStr s) | RStr t \<Rightarrow> Inr (FStr t)
      | _ \<Rightarrow> Inl (ErrExpected path ''a string'' (type_name raw)))"
| "decodeValue out (FBool b) raw path =
     (case raw of
        RNil \<Rightarrow> Inr (FBool b) | RBool c \<Rightarrow> Inr (FBool c)
      | _ \<Rightarrow> Inl (ErrExpected path ''a bool'' (type_name raw)))"
| "decodeValue out (FInt i) raw path =
     (if raw = RNil then Inr (FInt i)
      else case asInt64 out raw of Some n \<Rightarrow> Inr (FInt n) | None \<Rightarrow> Inl (ErrExpected path ''an integer'' (type_name raw)))"
| "decodeValue out (FFloat x) raw path =
     (if raw = RNil then Inr (FFloat x)
      else case asFloat64 raw of Some y \<Rightarrow> Inr (FFloat y) | None \<Rightarrow> Inl (ErrExpected path ''a number'' (type_name raw)))"
| "decodeValue out (FOther t i) raw path = (if raw = RNil then Inr (FOther t i) else Inl (ErrUnsupported path t))"
| "decodeStruct out fs m path =
     (case decode_fields out fs m path of
        Inl e \<Rightarrow> Inl e
      | Inr gs \<Rightarrow>
          (case find (\<lambda>k. k \<notin> (yamlKeyFor \<circ> fst) ` set fs) (map fst m) of
             Some k \<Rightarrow> Inl (ErrUnknownKey (path @ k))
           | None \<Rightarrow> Inr (FStruct gs)))"
| "decode_fields out [] m path = Inr []"
| "decode_fields out ((n, v) # fs) m path =
     (case (case map_of m (yamlKeyFor n) of None \<Rightarrow> Inr v | Some r \<Rightarrow> decodeValue out v r (path @ yamlKeyFor n)) of
        Inl e \<Rightarrow> Inl e
      | Inr w \<Rightarrow> (case decode_fields out fs m path of Inl e \<Rightarrow> Inl e | Inr gs \<Rightarrow> Inr ((n, w) # gs)))"
| "decode_items out el [] path i = Inr []"
| "decode_items out el (it # items) path i =
     (case decodeValue out el it (index_path path i) of
        Inl e \<Rightarrow> Inl e
      | Inr w \<Rightarrow> (case decode_items out el items path (i + 1) of Inl e \<Rightarrow> Inl e | Inr ws \<Rightarrow> Inr (w # ws)))"
  by pat_completeness auto
termination
  by (relation "measures
      [\<lambda>c. case c of Inl (Inl (_, v, _)) \<Rightarrow> size v | Inl (Inr (_, fs, _)) \<Rightarrow> size (FStruct fs) - 1
         | Inr (Inl (_, fs, _)) \<Rightarrow> size (FStruct fs) - 1 | Inr (Inr (_, el, _)) \<Rightarrow> size el,
       \<lambda>c. case c of Inl (Inr _) \<Rightarrow> 1 | Inr (Inr (_, _, items, _)) \<Rightarrow> 1 + length items | _ \<Rightarrow> 0]")
     (auto split: sum.splits)

section \<open>Environment variables\<close>

definition envPrefix :: string where
  "envPrefix = ''TRACEIQ_''"

fun resolvePath :: "fval \<Rightarrow> string list \<Rightarrow> string list option" where
  "resolvePath cur [] = Some []"
| "resolvePath (FStruct fs) (seg # segs) =
     (case find (\<lambda>f. yamlKeyFor (fst f) = seg) fs of
        None \<Rightarrow> None
      | Some (n, v) \<Rightarrow> map_option ((#) n) (resolvePath v segs))"
| "resolvePath cur (seg # segs) = None"

definition setFromEnvString :: "(string \<Rightarrow> rat option) \<Rightarrow> string \<Rightarrow> fval \<Rightarrow> fval" where
  "setFromEnvString other val fv =
     (case fv of
        FDur d \<Rightarrow> (case parse_duration val of Some e \<Rightarrow> FDur e | None \<Rightarrow> fv)
      | FStr s \<Rightarrow> FStr val
      | FBool b \<Rightarrow> (case parse_bool val of Some c \<Rightarrow> FBool c | None \<Rightarrow> fv)
      | FInt i \<Rightarrow> (case parse_int val of Some n \<Rightarrow> FInt n | None \<Rightarrow> fv)
      | FFloat x \<Rightarrow> (case parse_float other val of Some y \<Rightarrow> FFloat y | None \<Rightarrow> fv)
      | _ \<Rightarrow> fv)"

definition env_override :: "(string \<Rightarrow> rat option) \<Rightarrow> string \<Rightarrow> fval \<Rightarrow> fval" where
  "env_override other kv v =
     (case split_once (CHR ''='') kv of
        None \<Rightarrow> v
      | Some (name, val) \<Rightarrow>
          if \<not> prefix envPrefix name then v
          else let rest = trim_prefix envPrefix name in
            if rest = [] \<or> cut_at ''__'' rest = None then v
            else case resolvePath v (split_at_str ''__'' (to_lower rest)) of
                   None \<Rightarrow> v
                 | Some ns \<Rightarrow> set_leaf ns (setFromEnvString other val) v)"

definition applyEnvOverrides :: "(string \<Rightarrow> rat option) \<Rightarrow> string list \<Rightarrow> fval \<Rightarrow> fval" where
  "applyEnvOverrides other environ v = foldl (\<lambda>v kv. env_override other kv v) v environ"

section \<open>Interpolation\<close>

text \<open>\<open>os.Getenv\<close>: empty if unset.\<close>

definition getenv :: "string list \<Rightarrow> string \<Rightarrow> string" where
  "getenv environ name =
     (case find (\<lambda>kv. map_option fst (split_once (CHR ''='') kv) = Some name) environ of
        None \<Rightarrow> []
      | Some kv \<Rightarrow> snd (the (split_once (CHR ''='') kv)))"

text \<open>The loop of \<open>expand\<close>: the first \<open>${env:NAME}\<close> is replaced, and the text is searched again from its start.\<close>

partial_function (option) expand_env :: "(string \<Rightarrow> string) \<Rightarrow> string \<Rightarrow> string option" where
  "expand_env env s =
     (case cut_at ''${env:'' s of
        None \<Rightarrow> Some s
      | Some (before, rest) \<Rightarrow>
          (case cut_at ''}'' rest of
             None \<Rightarrow> Some s
           | Some (name, after) \<Rightarrow> expand_env env (before @ env name @ after)))"

declare expand_env.simps [code]

definition expand :: "(string \<Rightarrow> string) \<Rightarrow> string \<Rightarrow> string \<Rightarrow> string option" where
  "expand env dataDir s =
     (if cut_at ''${'' s = None then Some s else expand_env env (replace_all ''${data_dir}'' dataDir s))"

fun interpolate :: "(string \<Rightarrow> string) \<Rightarrow> string \<Rightarrow> fval \<Rightarrow> fval option"
  and interpolate_fields :: "(string \<Rightarrow> string) \<Rightarrow> string \<Rightarrow> (string \<times> fval) list \<Rightarrow> (string \<times> fval) list option"
  and interpolate_items :: "(string \<Rightarrow> string) \<Rightarrow> string \<Rightarrow> fval list \<Rightarrow> fval list option"
where
  "interpolate env dd (FStruct fs) = map_option FStruct (interpolate_fields env dd fs)"
| "interpolate env dd (FSlice el xs) = map_option (FSlice el) (interpolate_items env dd xs)"
| "interpolate env dd (FStr s) = map_option FStr (expand env dd s)"
| "interpolate env dd v = Some v"
| "interpolate_fields env dd [] = Some []"
| "interpolate_fields env dd ((n, v) # fs) =
     (case interpolate env dd v of
        None \<Rightarrow> None
      | Some w \<Rightarrow> (case interpolate_fields env dd fs of None \<Rightarrow> None | Some gs \<Rightarrow> Some ((n, w) # gs)))"
| "interpolate_items env dd [] = Some []"
| "interpolate_items env dd (v # vs) =
     (case interpolate env dd v of
        None \<Rightarrow> None
      | Some w \<Rightarrow> (case interpolate_items env dd vs of None \<Rightarrow> None | Some ws \<Rightarrow> Some (w # ws)))"

section \<open>Validation\<close>

definition isLoopback :: "string \<Rightarrow> bool" where
  "isLoopback endpoint =
     (let host = (if CHR '':'' \<in> set endpoint then rev (tl (dropWhile (\<lambda>c. c \<noteq> CHR '':'') (rev endpoint))) else endpoint)
      in host = ''127.0.0.1'' \<or> host = ''localhost'' \<or> host = ''::1'' \<or> host = [])"

definition execute_problems :: "fval \<Rightarrow> string list" where
  "execute_problems cfg =
     (if \<not> bool_at [''Remediate'', ''RequireApproval''] cfg then [''remediate.require_approval must be true''] else [])
     @ (if length_at [''Remediate'', ''Allowlist''] cfg = 0 then [''remediate.allowlist must be non-empty''] else [])
     @ (if length_at [''Remediate'', ''TargetAllowlist''] cfg = 0 then [''remediate.target_allowlist must be non-empty''] else [])
     @ (if str_at [''Auth'', ''Mode''] cfg = ''none'' then [''auth.mode must not be none''] else [])
     @ (if str_at [''Server'', ''Profile''] cfg \<noteq> ''prod'' then [''server.profile must be prod''] else [])"

definition Validate :: "fval \<Rightarrow> config_error option" where
  "Validate cfg =
     (let mode = str_at [''Server'', ''Mode''] cfg; profile = str_at [''Server'', ''Profile''] cfg;
          auth = str_at [''Auth'', ''Mode''] cfg; endpoint = str_at [''API'', ''Endpoint''] cfg
      in
      if mode \<notin> {''single'', ''gateway'', ''sampler'', ''brain'', ''api''} then Some (ErrServerMode mode)
      else if profile \<notin> {''dev'', ''prod''} then Some (ErrServerProfile profile)
      else if profile = ''prod'' \<and> auth = ''none'' then Some ErrProdWithoutAuth
      else if auth = ''none'' \<and> profile \<noteq> ''dev'' then Some ErrNoneOutsideDev
      else if auth = ''none'' \<and> \<not> isLoopback endpoint then Some (ErrNoneNotLoopback endpoint)
      else if str_at [''Alerting'', ''Gate''] cfg = ''immediate'' then Some ErrGateImmediate
      else if str_at [''Remediate'', ''Mode''] cfg = ''execute'' \<and> execute_problems cfg \<noteq> [] then Some (ErrExecute (execute_problems cfg))
      else if str_at [''RCA'', ''Reasoner''] cfg = ''llm'' \<and> str_at [''RCA'', ''LLM'', ''APIKeyEnv''] cfg = []
              \<and> str_at [''RCA'', ''LLM'', ''APIKeyFile''] cfg = [] then Some ErrReasonerKey
      else None)"

section \<open>Loading\<close>

text \<open>What \<open>os.ReadFile\<close> returns.\<close>

datatype file_result = FileMissing | FileError string | FileData string

text \<open>The outside world: the file system, the YAML package (an error, or nil or a mapping), \<open>os.Environ\<close>, the
  conversion of large floats and the reading of unusual ones.\<close>

record outside =
  os_ReadFile :: "string \<Rightarrow> file_result"
  yaml_Unmarshal :: "string \<Rightarrow> string + (string \<times> raw) list option"
  os_Environ :: "string list"
  float_to_int :: "rat \<Rightarrow> int"
  float_other :: "string \<Rightarrow> rat option"

definition overlay :: "outside \<Rightarrow> string \<Rightarrow> fval \<Rightarrow> config_error + fval" where
  "overlay w path cfg =
     (if path = [] then Inr cfg
      else case os_ReadFile w path of
        FileMissing \<Rightarrow> Inr cfg
      | FileError e \<Rightarrow> Inl (ErrReading path e)
      | FileData bytes \<Rightarrow>
          (case yaml_Unmarshal w bytes of
             Inl e \<Rightarrow> Inl (ErrParsing path e)
           | Inr None \<Rightarrow> Inr cfg
           | Inr (Some raw) \<Rightarrow>
               (case cfg of FStruct fs \<Rightarrow> decodeStruct (float_to_int w) fs raw [] | _ \<Rightarrow> Inr cfg)))"

definition Load :: "outside \<Rightarrow> string \<Rightarrow> (config_error + fval) option" where
  "Load w path =
     (case overlay w path Default of
        Inl e \<Rightarrow> Some (Inl e)
      | Inr cfg \<Rightarrow>
          let cfg1 = applyEnvOverrides (float_other w) (os_Environ w) cfg in
          (case interpolate (getenv (os_Environ w)) (str_at [''Server'', ''DataDir''] cfg1) cfg1 of
             None \<Rightarrow> None
           | Some cfg2 \<Rightarrow> Some (case Validate cfg2 of Some e \<Rightarrow> Inl e | None \<Rightarrow> Inr cfg2)))"

end
