(* ===== verification/ConfigProps.thy ===== *)
theory ConfigProps
  imports Config
begin

text \<open>
  What the loader guarantees: the tree it returns has the fields of \<open>Config\<close>, every key of an accepted document
  belongs to a field, a configuration can be written as YAML and read back, and the expansion of variables ends when
  their values contain no dollar sign.
\<close>

section \<open>Keys\<close>

text \<open>No two fields of a struct have one key; a slice is as good as its element type.\<close>

fun distinct_keys :: "fval \<Rightarrow> bool" where
  "distinct_keys (FStruct fs) \<longleftrightarrow> distinct (map (yamlKeyFor \<circ> fst) fs) \<and> list_all (\<lambda>f. distinct_keys (snd f)) fs"
| "distinct_keys (FSlice el xs) \<longleftrightarrow> distinct_keys el"
| "distinct_keys v \<longleftrightarrow> True"

lemma config_keys: "distinct_keys Config"
  by code_simp

lemmas config_types = CriticalSLOBreach_def ServerConfig_def TenancyConfig_def TLSConfig_def IngestReceiverConfig_def
  IngestQueueConfig_def IngestLimitsConfig_def IngestAuthConfig_def IngestConfig_def SamplerAssemblyConfig_def
  SamplerWALConfig_def SamplerPolicyConfig_def SamplerBaselineConfig_def SamplerInterestConfig_def
  SamplerRedConfig_def SamplerConfig_def StoreHotSQLiteConfig_def StoreHotClickHouseConfig_def StoreHotConfig_def
  StoreColdParquetConfig_def StoreColdCompactionConfig_def StoreColdConfig_def StoreRetentionConfig_def
  StoreCostConfig_def StoreBudgetConfig_def StoreConfig_def TopologyConfig_def AnomalyBaselineConfig_def
  AnomalyThresholdsConfig_def AnomalyGroupingConfig_def AnomalyDeployMarkersConfig_def AnomalyConfig_def
  RCABudgetConfig_def RCAToolsConfig_def RCALLMPricingConfig_def RCALLMConfig_def RCAConfig_def
  CorrelateBackendConfig_def CorrelateCacheConfig_def CorrelateConfig_def MemoryEmbeddingsConfig_def
  MemoryRetrievalConfig_def MemoryIndexConfig_def MemoryConsolidationConfig_def MemoryConfig_def RemediateConfig_def
  AlertingDeadmanConfig_def AlertingSinkConfig_def AlertingConfig_def NLChatConfig_def NLConfig_def APIConfig_def
  AuthOIDCConfig_def AuthAuditConfig_def AuthRateLimitConfig_def AuthConfig_def EvalLiveConfig_def EvalConfig_def
  SelfObsConfig_def ClusterBusConfig_def ClusterLeaderElectionConfig_def ClusterConfig_def OpsBackupConfig_def
  OpsConfig_def Config_def

lemma default_shapes:
  "same_shape ServerConfig default_Server"
  "same_shape TenancyConfig default_Tenancy"
  "same_shape IngestConfig default_Ingest"
  "same_shape SamplerConfig default_Sampler"
  "same_shape StoreConfig default_Store"
  "same_shape TopologyConfig default_Topology"
  "same_shape AnomalyConfig default_Anomaly"
  "same_shape RCAConfig default_RCA"
  "same_shape CorrelateConfig default_Correlate"
  "same_shape MemoryConfig default_Memory"
  "same_shape RemediateConfig default_Remediate"
  "same_shape AlertingConfig default_Alerting"
  "same_shape NLConfig default_NL"
  "same_shape APIConfig default_API"
  "same_shape AuthConfig default_Auth"
  "same_shape EvalConfig default_Eval"
  "same_shape SelfObsConfig default_SelfObs"
  "same_shape ClusterConfig default_Cluster"
  "same_shape OpsConfig default_Ops"
  by (simp_all add: config_types default_Server_def default_Tenancy_def default_Ingest_def default_Sampler_def default_Store_def default_Topology_def default_Anomaly_def
      default_RCA_def default_Correlate_def default_Memory_def default_Remediate_def default_Alerting_def default_NL_def default_API_def
      default_Auth_def default_Eval_def default_SelfObs_def default_Cluster_def default_Ops_def)

lemma config_shape: "same_shape Config Config"
  by code_simp

lemma default_shape: "same_shape Config Default"
  using config_shape default_shapes by (simp add: Config_def Default_def)

section \<open>Types\<close>

abbreviation fields_shape :: "(string \<times> fval) list \<Rightarrow> (string \<times> fval) list \<Rightarrow> bool" where
  "fields_shape \<equiv> list_all2 (\<lambda>f g. fst f = fst g \<and> same_shape (snd f) (snd g))"

lemma shape_cases:
  "same_shape T (FStruct gs) \<longleftrightarrow> (\<exists>fs. T = FStruct fs \<and> fields_shape fs gs)"
  "same_shape T (FStr s) \<longleftrightarrow> (\<exists>t. T = FStr t)"
  "same_shape T (FBool b) \<longleftrightarrow> (\<exists>c. T = FBool c)"
  "same_shape T (FInt i) \<longleftrightarrow> (\<exists>j. T = FInt j)"
  "same_shape T (FFloat x) \<longleftrightarrow> (\<exists>y. T = FFloat y)"
  "same_shape T (FDur d) \<longleftrightarrow> (\<exists>e. T = FDur e)"
  "same_shape T (FSlice el xs) \<longleftrightarrow> (\<exists>ys. T = FSlice el ys \<and> same_shape el el \<and> list_all (same_shape el) xs)"
  "same_shape T (FOther n i) \<longleftrightarrow> (\<exists>j. T = FOther n j)"
  by (cases T; auto)+

lemma decode_shape:
  "\<lbrakk>same_shape T v; decodeValue out v raw path = Inr w\<rbrakk> \<Longrightarrow> same_shape T w"
  "\<lbrakk>fields_shape Ts fs; decodeStruct out fs m path = Inr w\<rbrakk> \<Longrightarrow> same_shape (FStruct Ts) w"
  "\<lbrakk>fields_shape Ts fs; decode_fields out fs m path = Inr gs\<rbrakk> \<Longrightarrow> fields_shape Ts gs"
  "\<lbrakk>same_shape el el; decode_items out el items path i = Inr ws\<rbrakk> \<Longrightarrow> list_all (same_shape el) ws"
proof (induction out v raw path and out fs m path and out fs m path and out el items path i arbitrary: T w and Ts w and Ts gs and ws
    rule: decodeValue_decodeStruct_decode_fields_decode_items.induct)
  case (11 out n v fs m path)
  then show ?case
    by (fastforce simp: list_all2_Cons2 split: sum.splits option.splits)
qed (auto simp: shape_cases split: raw.splits option.splits sum.splits if_splits)

section \<open>Keys of a document\<close>

text \<open>Every key of the document belongs to a field, at every level.\<close>

fun known_keys :: "fval \<Rightarrow> raw \<Rightarrow> bool" where
  "known_keys (FStruct fs) raw =
     (case raw of
        RMap m \<Rightarrow>
          set (map fst m) \<subseteq> (yamlKeyFor \<circ> fst) ` set fs
          \<and> list_all (\<lambda>f. case map_of m (yamlKeyFor (fst f)) of None \<Rightarrow> True | Some r \<Rightarrow> known_keys (snd f) r) fs
      | _ \<Rightarrow> True)"
| "known_keys (FSlice el xs) raw = (case raw of RSeq items \<Rightarrow> list_all (known_keys el) items | _ \<Rightarrow> True)"
| "known_keys v raw = True"

lemma find_none_subset: "find (\<lambda>k. k \<notin> A) ks = None \<longleftrightarrow> set ks \<subseteq> A"
  by (auto simp: find_None_iff)

lemma decode_known:
  "decodeValue out v raw path = Inr w \<Longrightarrow> known_keys v raw"
  "decodeStruct out fs m path = Inr w \<Longrightarrow> known_keys (FStruct fs) (RMap m)"
  "decode_fields out fs m path = Inr gs \<Longrightarrow>
     list_all (\<lambda>f. case map_of m (yamlKeyFor (fst f)) of None \<Rightarrow> True | Some r \<Rightarrow> known_keys (snd f) r) fs"
  "decode_items out el items path i = Inr ws \<Longrightarrow> list_all (known_keys el) items"
proof (induction out v raw path and out fs m path and out fs m path and out el items path i arbitrary: w and w and gs and ws
    rule: decodeValue_decodeStruct_decode_fields_decode_items.induct)
  case (9 out fs m path)
  then show ?case by (auto simp: find_none_subset split: sum.splits option.splits)
next
  case (11 out n v fs m path)
  then show ?case by (cases "map_of m (yamlKeyFor n)") (auto split: sum.splits)
qed (auto split: raw.splits option.splits sum.splits if_splits)

section \<open>Writing a configuration as YAML\<close>

definition duration_text :: "duration \<Rightarrow> string" where
  "duration_text d = (if d < 0 then CHR ''-'' # show_nat (nat (- d)) else show_nat (nat d)) @ ''ns''"

fun to_yaml :: "fval \<Rightarrow> raw" where
  "to_yaml (FStruct fs) = RMap (map (\<lambda>f. (yamlKeyFor (fst f), to_yaml (snd f))) fs)"
| "to_yaml (FSlice el xs) = RSeq (map to_yaml xs)"
| "to_yaml (FStr s) = RStr s"
| "to_yaml (FBool b) = RBool b"
| "to_yaml (FInt i) = RInt i"
| "to_yaml (FFloat x) = RFloat x"
| "to_yaml (FDur d) = RStr (duration_text d)"
| "to_yaml (FOther t i) = RNil"

text \<open>What YAML can say: no field of a type the loader does not decode, and durations that are int64.\<close>

fun storable :: "fval \<Rightarrow> bool" where
  "storable (FStruct fs) \<longleftrightarrow> list_all (\<lambda>f. storable (snd f)) fs"
| "storable (FSlice el xs) \<longleftrightarrow> list_all storable xs"
| "storable (FDur d) \<longleftrightarrow> - (2 ^ 63) \<le> d \<and> d < 2 ^ 63"
| "storable (FOther t i) \<longleftrightarrow> False"
| "storable v \<longleftrightarrow> True"

lemma leading_int_digits:
  assumes "list_all is_digit ds" and "\<not> is_digit (hd r)" and "r \<noteq> []"
    and "foldl (\<lambda>n c. 10 * n + digit_value c) x ds \<le> 2 ^ 63" and "0 \<le> x"
  shows "leading_int x (ds @ r) = Some (foldl (\<lambda>n c. 10 * n + digit_value c) x ds, r)"
  using assms
proof (induction ds arbitrary: x)
  case Nil
  then show ?case by (cases r) auto
next
  case (Cons c ds)
  have grow: "0 \<le> y \<Longrightarrow> y \<le> foldl (\<lambda>n c. 10 * n + digit_value c) y es" if "list_all is_digit es" for y :: int and es
    using that
  proof (induction es arbitrary: y)
    case (Cons e es)
    then have "0 \<le> digit_value e" by (simp add: is_digit_def digit_value_def Let_def)
    with Cons.prems have "y \<le> 10 * y + digit_value e" "0 \<le> 10 * y + digit_value e" by simp_all
    with Cons.IH [of "10 * y + digit_value e"] Cons.prems show ?case by simp
  qed simp
  from Cons.prems have d: "is_digit c" "0 \<le> digit_value c" by (auto simp: is_digit_def digit_value_def Let_def)
  with Cons.prems grow [of ds "10 * x + digit_value c"] have le: "10 * x + digit_value c \<le> 2 ^ 63" by simp
  then have "x \<le> 2 ^ 63 div 10" using d Cons.prems(5) by simp
  with d le Cons show ?case by simp
qed

lemma takeWhile_ns: "takeWhile (\<lambda>c. \<not> number_byte c) ''ns'' = ''ns''" "dropWhile (\<lambda>c. \<not> number_byte c) ''ns'' = []"
  "\<not> is_digit (CHR ''n'')" "unit_nanos ''ns'' = Some 1"
  by code_simp+

lemma parse_nanos:
  assumes "n \<le> 2 ^ 63"
  shows "duration_parts 0 (show_nat n @ ''ns'') = Some (int n)"
proof -
  have ds: "list_all is_digit (show_nat n)" "show_nat n \<noteq> []" "digits_value (show_nat n) = int n"
    using show_nat_digits by blast+
  have n: "int n \<le> 2 ^ 63" using assms by (metis of_nat_le_iff of_nat_numeral of_nat_power)
  from ds n have li: "leading_int 0 (show_nat n @ ''ns'') = Some (int n, ''ns'')"
    using leading_int_digits [of "show_nat n" "''ns''" 0] takeWhile_ns(3) by (simp add: digits_value_def)
  have "number_byte (hd (show_nat n))" using ds(1,2) by (cases "show_nat n") (auto simp: number_byte_def)
  with ds(2) have "duration_part (show_nat n @ ''ns'') = Some (int n, [])"
    unfolding duration_part_def li using n takeWhile_ns by (simp add: Let_def)
  with ds(2) n show ?thesis by (simp add: duration_parts.simps [of 0] duration_parts.simps [of _ "[]"])
qed

lemma show_nat_head: "s = show_nat n \<Longrightarrow> hd s \<noteq> CHR ''-'' \<and> hd s \<noteq> CHR ''+'' \<and> s \<noteq> []"
proof -
  assume s: "s = show_nat n"
  have "is_digit (hd s)" "s \<noteq> []" using show_nat_digits [of n] unfolding s by (cases "show_nat n"; auto)+
  moreover have "\<not> is_digit (CHR ''-'')" "\<not> is_digit (CHR ''+'')" by code_simp+
  ultimately show ?thesis by auto
qed

lemma parse_duration_text:
  assumes "- (2 ^ 63) \<le> d" and "d < 2 ^ 63"
  shows "parse_duration (duration_text d) = Some d"
proof (cases "d < 0")
  case True
  have "nat (- d) \<le> 2 ^ 63" using assms by (simp add: nat_le_iff)
  from parse_nanos [OF this] True show ?thesis
    by (simp add: parse_duration_def duration_text_def take_sign_def Let_def append_eq_Cons_conv)
next
  case False
  have n: "nat d \<le> 2 ^ 63" using assms False by (simp add: nat_le_iff)
  have "take_sign (show_nat (nat d) @ ''ns'') = (False, show_nat (nat d) @ ''ns'')"
    using show_nat_head [OF refl, of "nat d"] by (cases "show_nat (nat d)") (auto simp: take_sign_def)
  with parse_nanos [OF n] False assms show ?thesis
    by (simp add: parse_duration_def duration_text_def Let_def append_eq_Cons_conv)
qed

lemma field_entry:
  assumes "distinct (map (yamlKeyFor \<circ> fst) fs)" and "f \<in> set fs"
  shows "map_of (map (\<lambda>f. (yamlKeyFor (fst f), to_yaml (snd f))) fs) (yamlKeyFor (fst f)) = Some (to_yaml (snd f))"
  using assms by (intro map_of_is_SomeI) (auto simp: comp_def)

lemma decode_fields_all:
  assumes "list_all2 (\<lambda>f g. fst f = fst g \<and> (\<exists>r. map_of m (yamlKeyFor (fst g)) = Some r
      \<and> (\<forall>path. decodeValue out (snd f) r path = Inr (snd g)))) fs gs"
  shows "decode_fields out fs m path = Inr gs"
  using assms by (induction fs gs rule: list_all2_induct) auto

lemma decode_items_all:
  "list_all (\<lambda>v. \<forall>path. decodeValue out el (to_yaml v) path = Inr v) vs \<Longrightarrow> decode_items out el (map to_yaml vs) path i = Inr vs"
  by (induction vs arbitrary: i) auto

lemma shape_keys: "same_shape T v \<Longrightarrow> distinct_keys T \<Longrightarrow> distinct_keys v"
proof (induction T arbitrary: v rule: distinct_keys.induct)
  case (1 fs)
  then obtain gs where v: "v = FStruct gs" "fields_shape fs gs" by (cases v) auto
  then have "map fst gs = map fst fs" by (auto simp: list_all2_conv_all_nth intro: nth_equalityI)
  then have "map (yamlKeyFor \<circ> fst) gs = map (yamlKeyFor \<circ> fst) fs" by (metis map_map)
  moreover have "list_all (\<lambda>f. distinct_keys (snd f)) gs"
    unfolding list_all_iff
  proof
    fix g assume "g \<in> set gs"
    then obtain i where "i < length gs" "gs ! i = g" by (auto simp: in_set_conv_nth)
    with v(2) have "fs ! i \<in> set fs" "same_shape (snd (fs ! i)) (snd g)" by (auto simp: list_all2_conv_all_nth)
    with 1 show "distinct_keys (snd g)" by (auto simp: list_all_iff)
  qed
  ultimately show ?case using 1 v(1) by simp
next
  case (2 el xs)
  then show ?case by (cases v) auto
qed (auto split: fval.splits)

lemma decode_to_yaml:
  "\<lbrakk>same_shape T v0; same_shape T v; storable v; distinct_keys T\<rbrakk> \<Longrightarrow> decodeValue out v0 (to_yaml v) path = Inr v"
proof (induction v arbitrary: T v0 path rule: to_yaml.induct)
  case (1 fs)
  then obtain Ts f0 where T: "T = FStruct Ts" "v0 = FStruct f0" "fields_shape Ts fs" "fields_shape Ts f0"
    by (cases T; cases v0) auto
  let ?m = "map (\<lambda>f. (yamlKeyFor (fst f), to_yaml (snd f))) fs"
  have dist: "distinct (map (yamlKeyFor \<circ> fst) fs)" using shape_keys [OF 1(3,5)] by simp
  have names: "map fst f0 = map fst fs" using T(3,4) by (auto simp: list_all2_conv_all_nth intro: nth_equalityI)
  have "list_all2 (\<lambda>f g. fst f = fst g \<and> (\<exists>r. map_of ?m (yamlKeyFor (fst g)) = Some r
      \<and> (\<forall>path. decodeValue out (snd f) r path = Inr (snd g)))) f0 fs"
    unfolding list_all2_conv_all_nth
  proof (intro conjI allI impI)
    show len: "length f0 = length fs" using names by (metis length_map)
    fix i assume i: "i < length f0"
    then have inx: "fs ! i \<in> set fs" using len by simp
    show "fst (f0 ! i) = fst (fs ! i)" using names i len by (metis nth_map)
    have sh: "same_shape (snd (Ts ! i)) (snd (f0 ! i))" "same_shape (snd (Ts ! i)) (snd (fs ! i))"
      using T(3,4) i by (auto simp: list_all2_conv_all_nth)
    have "Ts ! i \<in> set Ts" using T(4) i by (auto simp: list_all2_conv_all_nth)
    then have "distinct_keys (snd (Ts ! i))" using 1(5) T(1) by (simp add: list_all_iff)
    moreover have "storable (snd (fs ! i))" using 1(4) inx by (simp add: list_all_iff)
    ultimately have "decodeValue out (snd (f0 ! i)) (to_yaml (snd (fs ! i))) path = Inr (snd (fs ! i))" for path
      using 1(1) [OF inx sh] by blast
    with field_entry [OF dist inx] show "\<exists>r. map_of ?m (yamlKeyFor (fst (fs ! i))) = Some r
      \<and> (\<forall>path. decodeValue out (snd (f0 ! i)) r path = Inr (snd (fs ! i)))" by blast
  qed
  from decode_fields_all [OF this] have df: "decode_fields out f0 ?m path = Inr fs" for path .
  have "(yamlKeyFor \<circ> fst) ` set f0 = (yamlKeyFor \<circ> fst) ` set fs" using names by (metis list.set_map map_map)
  then have "find (\<lambda>k. k \<notin> (yamlKeyFor \<circ> fst) ` set f0) (map fst ?m) = None" by (auto simp: find_None_iff)
  with df T(2) show ?case by simp
next
  case (2 el xs)
  then obtain ys where T: "T = FSlice el ys" "same_shape el el" "list_all (same_shape el) xs" by (auto simp: shape_cases)
  with 2 obtain zs where v0: "v0 = FSlice el zs" by (cases v0) auto
  have "decode_items out el (map to_yaml xs) path 0 = Inr xs"
  proof (rule decode_items_all, unfold list_all_iff, intro ballI allI)
    fix x p assume "x \<in> set xs"
    with 2 T show "decodeValue out el (to_yaml x) p = Inr x" by (auto simp: list_all_iff)
  qed
  with v0 show ?case by simp
next
  case (7 d)
  then show ?case using parse_duration_text [of d] by (cases T; cases v0) auto
qed (case_tac T; case_tac v0; auto simp: asInt64_def asFloat64_def)+

text \<open>The path is only used in errors.\<close>

lemma decode_path:
  "decodeValue out v raw path = Inr w \<Longrightarrow> decodeValue out v raw q = Inr w"
  "decodeStruct out fs m path = Inr w \<Longrightarrow> decodeStruct out fs m q = Inr w"
  "decode_fields out fs m path = Inr gs \<Longrightarrow> decode_fields out fs m q = Inr gs"
  "decode_items out el items path i = Inr ws \<Longrightarrow> decode_items out el items q j = Inr ws"
proof (induction out v raw path and out fs m path and out fs m path and out el items path i arbitrary: w q and w q and gs q and ws q j
    rule: decodeValue_decodeStruct_decode_fields_decode_items.induct)
  case (11 out n v fs m path)
  let ?v = "\<lambda>p. case map_of m (yamlKeyFor n) of None \<Rightarrow> Inr v | Some r \<Rightarrow> decodeValue out v r (p @ yamlKeyFor n)"
  note d = 11(3) [unfolded decode_fields.simps]
  obtain u where u1: "?v path = Inr u" using d by (cases "?v path") simp_all
  obtain hs where u2: "decode_fields out fs m path = Inr hs" using d unfolding u1 by (cases "decode_fields out fs m path") simp_all
  have "gs = (n, u) # hs" using d unfolding u1 u2 by simp
  note u = u1 u2 this
  have "?v q = Inr u"
  proof (cases "map_of m (yamlKeyFor n)")
    case None
    with u1 show ?thesis by simp
  next
    case (Some r)
    with u1 have "decodeValue out v r (path @ yamlKeyFor n) = Inr u" by simp
    from 11(1) [OF Some this, of "q @ yamlKeyFor n"] Some show ?thesis by simp
  qed
  moreover have "decode_fields out fs m q = Inr hs" using 11(2) [OF u(1) u(2)] .
  ultimately show ?case using u(3) by simp
next
  case (13 out el it items path i)
  note d = 13(3) [unfolded decode_items.simps]
  obtain u where u1: "decodeValue out el it (index_path path i) = Inr u"
    using d by (cases "decodeValue out el it (index_path path i)") simp_all
  obtain hs where u2: "decode_items out el items path (i + 1) = Inr hs" using d unfolding u1
    by (cases "decode_items out el items path (i + 1)") simp_all
  have "ws = u # hs" using d unfolding u1 u2 by simp
  note u = u1 u2 this
  have "decodeValue out el it (index_path q j) = Inr u" "decode_items out el items q (j + 1) = Inr hs"
    using 13(1) [OF u(1)] 13(2) [OF u(1,2)] by blast+
  with u(3) show ?case by simp
next
  case (9 out fs m path)
  from 9(2) obtain gs where g: "decode_fields out fs m path = Inr gs"
    and f: "find (\<lambda>k. k \<notin> (yamlKeyFor \<circ> fst) ` set fs) (map fst m) = None" "w = FStruct gs"
    by (auto split: sum.splits option.splits)
  from 9(1) [OF g] have "decode_fields out fs m q = Inr gs" .
  with f show ?case by simp
next
  case (3 out el xs raw path)
  show ?case
  proof (cases raw)
    case (RSeq items)
    with 3(2) obtain ys where y: "decode_items out el items path 0 = Inr ys" "w = FSlice el ys"
      by (cases "decode_items out el items path 0") simp_all
    from 3(1) [OF RSeq y(1), of q 0] y(2) RSeq show ?thesis by simp
  qed (use 3(2) in auto)
next
  case (2 out fs raw path)
  show ?case
  proof (cases raw)
    case (RMap m)
    with 2(2) have "decodeStruct out fs m (path @ ''.'') = Inr w" by simp
    from 2(1) [OF RMap this, of "q @ ''.''"] RMap show ?thesis by simp
  qed (use 2(2) in auto)
qed (auto split: raw.splits option.splits if_splits)

end
