(* ===== verification/ConfigClaims.thy ===== *)
theory ConfigClaims
  imports ConfigProps
begin

text \<open>The properties of the configuration loader, with concrete runs.\<close>

section \<open>Expansion\<close>

lemma expand_env_step:
  "expand_env env s =
     (case cut_at ''${env:'' s of
        None \<Rightarrow> Some s
      | Some (before, rest) \<Rightarrow>
          (case cut_at ''}'' rest of
             None \<Rightarrow> Some s
           | Some (name, after) \<Rightarrow> expand_env env (before @ env name @ after)))"
  by (rule expand_env.simps)

definition dollars :: "string \<Rightarrow> nat" where
  "dollars s = length (filter (\<lambda>c. c = CHR ''$'') s)"

lemma dollars_append [simp]: "dollars (s @ t) = dollars s + dollars t"
  by (simp add: dollars_def)

lemma dollars_none: "CHR ''$'' \<notin> set s \<Longrightarrow> dollars s = 0"
  by (auto simp: dollars_def filter_empty_conv)

text \<open>No placeholder is left: the text has no \<open>${env:\<close> that is closed.\<close>

definition expanded :: "string \<Rightarrow> bool" where
  "expanded s \<longleftrightarrow> (case cut_at ''${env:'' s of None \<Rightarrow> True | Some (before, rest) \<Rightarrow> cut_at ''}'' rest = None)"

lemma expand_env_returns:
  assumes "\<And>x. CHR ''$'' \<notin> set (env x)"
  shows "\<exists>t. expand_env env s = Some t \<and> expanded t"
proof (induction "dollars s" arbitrary: s rule: less_induct)
  case less
  show ?case
  proof (cases "expanded s")
    case True
    then have "expand_env env s = Some s"
      by (subst expand_env_step) (auto simp: expanded_def split: option.splits prod.splits)
    with True show ?thesis by simp
  next
    case False
    then obtain a r n b where c: "cut_at ''${env:'' s = Some (a, r)" "cut_at ''}'' r = Some (n, b)"
      by (auto simp: expanded_def split: option.splits prod.splits)
    have "dollars (a @ env n @ b) < dollars s"
      using cut_at_append [OF c(1)] cut_at_append [OF c(2)] dollars_none [OF assms, of n] by (auto simp: dollars_def)
    from less [OF this] c show ?thesis by (simp add: expand_env_step [of env s])
  qed
qed

lemma cut_at_first: "CHR ''$'' \<notin> set a \<Longrightarrow> cut_at ''${env:'' (a @ ''${env:'' @ r) = Some (a, r)"
proof (induction a)
  case Nil
  show ?case by (subst cut_at.simps) (simp add: prefix_def)
next
  case (Cons c a)
  then have "\<not> prefix ''${env:'' (c # a @ ''${env:'' @ r)" by auto
  with Cons show ?case by (subst cut_at.simps) auto
qed

lemma cut_at_brace: "CHR ''}'' \<notin> set a \<Longrightarrow> cut_at ''}'' (a @ ''}'' @ r) = Some (a, r)"
proof (induction a)
  case Nil
  show ?case by (subst cut_at.simps) (simp add: prefix_def)
next
  case (Cons c a)
  then have "\<not> prefix ''}'' (c # a @ ''}'' @ r)" by auto
  with Cons show ?case by (subst cut_at.simps) auto
qed

definition self_reference :: "(string \<Rightarrow> string) \<Rightarrow> string \<Rightarrow> bool" where
  "self_reference env x \<longleftrightarrow>
     CHR ''}'' \<notin> set x \<and> (\<exists>pre post. env x = pre @ ''${env:'' @ x @ ''}'' @ post \<and> CHR ''$'' \<notin> set pre)"

definition refers :: "string \<Rightarrow> string \<Rightarrow> bool" where
  "refers x s \<longleftrightarrow> (\<exists>a b. CHR ''$'' \<notin> set a \<and> s = a @ ''${env:'' @ x @ ''}'' @ b)"

lemma refers_step:
  assumes "self_reference env x" and "refers x s"
  obtains a n b where "cut_at ''${env:'' s = Some (a, n @ ''}'' @ b)" and "cut_at ''}'' (n @ ''}'' @ b) = Some (n, b)"
    and "refers x (a @ env n @ b)"
proof -
  from assms(2) obtain a b where s: "CHR ''$'' \<notin> set a" "s = a @ ''${env:'' @ x @ ''}'' @ b" unfolding refers_def by blast
  from assms(1) obtain pre post where e: "CHR ''}'' \<notin> set x" "env x = pre @ ''${env:'' @ x @ ''}'' @ post" "CHR ''$'' \<notin> set pre"
    unfolding self_reference_def by blast
  have "a @ env x @ b = (a @ pre) @ ''${env:'' @ x @ ''}'' @ (post @ b)" unfolding e(2) by simp
  then have "refers x (a @ env x @ b)" using s(1) e(3) unfolding refers_def by (intro exI [of _ "a @ pre"] exI [of _ "post @ b"]) simp
  with that [of a x b] cut_at_first [OF s(1), of "x @ ''}'' @ b"] cut_at_brace [OF e(1), of b] show thesis unfolding s(2) by blast
qed

lemma expand_env_never:
  assumes "self_reference env x"
  shows "refers x s \<Longrightarrow> expand_env env s = None"
proof -
  have "\<not> (env' = env \<and> refers x s)" if "expand_env env' s = Some t" for env' s t
  proof (rule expand_env.raw_induct [where P = "\<lambda>env' s t. \<not> (env' = env \<and> refers x s)", OF _ that])
    fix rec :: "(string \<Rightarrow> string) \<Rightarrow> string \<Rightarrow> string option" and env' s t
    assume IH: "\<And>env' s t. rec env' s = Some t \<Longrightarrow> \<not> (env' = env \<and> refers x s)"
      and body: "(case cut_at ''${env:'' s of None \<Rightarrow> Some s
        | Some (before, rest) \<Rightarrow> (case cut_at ''}'' rest of None \<Rightarrow> Some s
           | Some (name, after) \<Rightarrow> rec env' (before @ env' name @ after))) = Some t"
    show "\<not> (env' = env \<and> refers x s)"
    proof
      assume "env' = env \<and> refers x s"
      then have e: "env' = env" and r: "refers x s" by blast+
      from assms r obtain a n b where c: "cut_at ''${env:'' s = Some (a, n @ ''}'' @ b)" "cut_at ''}'' (n @ ''}'' @ b) = Some (n, b)"
        "refers x (a @ env n @ b)" by (rule refers_step)
      from body have "rec env (a @ env n @ b) = Some t" unfolding c(1) e by (simp only: option.case prod.case c(2))
      from IH [OF this] c(3) show False by blast
    qed
  qed
  then show "refers x s \<Longrightarrow> expand_env env s = None" by (cases "expand_env env s") blast+
qed

section \<open>What loading keeps\<close>

lemma set_leaf_shape:
  "\<lbrakk>\<And>T v. same_shape T v \<Longrightarrow> same_shape T (f v); same_shape T v\<rbrakk> \<Longrightarrow> same_shape T (set_leaf ns f v)"
proof (induction ns f v arbitrary: T rule: set_leaf.induct)
  case (2 n ns f fs)
  then obtain Ts where T: "T = FStruct Ts" "fields_shape Ts fs" by (auto simp: shape_cases)
  have "fields_shape Ts (map (\<lambda>(m, v). (m, if m = n then set_leaf ns f v else v)) fs)"
    unfolding list_all2_conv_all_nth
  proof (intro conjI allI impI)
    show "length Ts = length (map (\<lambda>(m, v). (m, if m = n then set_leaf ns f v else v)) fs)"
      using T(2) by (simp add: list_all2_lengthD)
    fix i assume "i < length Ts"
    then have i: "i < length fs" and sh: "fst (Ts ! i) = fst (fs ! i)" "same_shape (snd (Ts ! i)) (snd (fs ! i))"
      using T(2) by (auto simp: list_all2_conv_all_nth)
    obtain m u where mu: "fs ! i = (m, u)" by force
    with i have "(m, u) \<in> set fs" by (metis nth_mem)
    with sh mu have "m = n \<Longrightarrow> same_shape (snd (Ts ! i)) (set_leaf ns f u)" using 2(1) 2(2) by auto
    with i sh mu show "fst (Ts ! i) = fst (map (\<lambda>(m, v). (m, if m = n then set_leaf ns f v else v)) fs ! i)"
      "same_shape (snd (Ts ! i)) (snd (map (\<lambda>(m, v). (m, if m = n then set_leaf ns f v else v)) fs ! i))" by auto
  qed
  with T show ?case by simp
qed auto

lemma setFromEnvString_shape: "same_shape T v \<Longrightarrow> same_shape T (setFromEnvString other val v)"
  by (cases v) (auto simp: setFromEnvString_def shape_cases split: option.splits)

lemma applyEnvOverrides_shape: "same_shape T v \<Longrightarrow> same_shape T (applyEnvOverrides other environ v)"
proof (induction environ arbitrary: v)
  case (Cons kv environ)
  have "same_shape T (env_override other kv v)"
    using Cons.prems by (auto simp: env_override_def Let_def intro!: set_leaf_shape setFromEnvString_shape split: option.splits)
  from Cons.IH [OF this] show ?case by (simp add: applyEnvOverrides_def)
qed (simp add: applyEnvOverrides_def)

lemma interpolate_shape:
  "\<lbrakk>same_shape T v; interpolate env dd v = Some w\<rbrakk> \<Longrightarrow> same_shape T w"
  "\<lbrakk>fields_shape Ts fs; interpolate_fields env dd fs = Some gs\<rbrakk> \<Longrightarrow> fields_shape Ts gs"
  "\<lbrakk>list_all (same_shape el) xs; interpolate_items env dd xs = Some ys\<rbrakk> \<Longrightarrow> list_all (same_shape el) ys"
proof (induction env dd v and env dd fs and env dd xs arbitrary: T w and Ts gs and el ys
    rule: interpolate_interpolate_fields_interpolate_items.induct)
  case (6 env dd n v fs)
  then show ?case by (fastforce simp: list_all2_Cons2 split: option.splits)
qed (auto simp: shape_cases split: option.splits)

lemma overlay_shape: "overlay w path Default = Inr cfg \<Longrightarrow> same_shape Config cfg"
proof -
  assume o: "overlay w path Default = Inr cfg"
  obtain fs where fs: "Default = FStruct fs" by (simp add: Default_def Config_def)
  obtain Ts where Ts: "Config = FStruct Ts" by (simp add: Config_def)
  have "fields_shape Ts fs" using default_shape by (simp add: fs Ts)
  from decode_shape(2) [OF this] o default_shape show ?thesis
    by (auto simp: overlay_def fs Ts split: if_splits file_result.splits sum.splits option.splits)
qed

lemma interpolate_some:
  "(\<And>s. \<exists>t. expand env dd s = Some t) \<Longrightarrow> \<exists>w. interpolate env dd v = Some w"
  "(\<And>s. \<exists>t. expand env dd s = Some t) \<Longrightarrow> \<exists>gs. interpolate_fields env dd fs = Some gs"
  "(\<And>s. \<exists>t. expand env dd s = Some t) \<Longrightarrow> \<exists>ys. interpolate_items env dd xs = Some ys"
  by (induction env dd v and env dd fs and env dd xs rule: interpolate_interpolate_fields_interpolate_items.induct) fastforce+

lemma getenv_value: "c \<in> set (getenv environ x) \<Longrightarrow> \<exists>kv \<in> set environ. c \<in> set kv"
proof -
  have so: "split_once d kv = Some (n, v) \<Longrightarrow> set v \<subseteq> set kv" for d kv n v
    by (induction d kv arbitrary: n rule: split_once.induct) (auto split: if_splits)
  assume "c \<in> set (getenv environ x)"
  then obtain kv where f: "find (\<lambda>kv. map_option fst (split_once (CHR ''='') kv) = Some x) environ = Some kv"
    and c: "c \<in> set (snd (the (split_once (CHR ''='') kv)))"
    by (cases "find (\<lambda>kv. map_option fst (split_once (CHR ''='') kv) = Some x) environ") (simp_all add: getenv_def)
  from f have "kv \<in> set environ" "map_option fst (split_once (CHR ''='') kv) = Some x" by (auto simp: find_Some_iff)
  then obtain v where "split_once (CHR ''='') kv = Some (x, v)" by auto
  with c have "kv \<in> set environ" "split_once (CHR ''='') kv = Some (x, v)" "c \<in> set v" using \<open>kv \<in> set environ\<close> by auto
  with so show ?thesis by blast
qed

section \<open>Properties\<close>

lemma validated:
  assumes "Validate cfg = None"
  shows "str_at [''Auth'', ''Mode''] cfg = ''none'' \<Longrightarrow> str_at [''Server'', ''Profile''] cfg = ''dev'' \<and> isLoopback (str_at [''API'', ''Endpoint''] cfg)"
    and "str_at [''Remediate'', ''Mode''] cfg = ''execute'' \<Longrightarrow> execute_problems cfg = []"
    and "str_at [''Server'', ''Profile''] cfg \<in> {''dev'', ''prod''}"
  using assms by (auto simp: Validate_def Let_def split: if_splits)

lemma Load_some:
  assumes "Load w path = Some (Inr cfg)"
  obtains cfg0 where "overlay w path Default = Inr cfg0" and "Validate cfg = None"
    and "interpolate (getenv (os_Environ w)) (str_at [''Server'', ''DataDir''] (applyEnvOverrides (float_other w) (os_Environ w) cfg0))
      (applyEnvOverrides (float_other w) (os_Environ w) cfg0) = Some cfg"
  using assms by (auto simp: Load_def Let_def split: sum.splits option.splits)

text \<open>The endpoints that pass as loopback, written out.\<close>

lemma isLoopback_iff:
  "isLoopback e \<longleftrightarrow> e \<in> {[], ''localhost'', ''127.0.0.1''}
     \<or> (\<exists>port. CHR '':'' \<notin> set port \<and> e \<in> {'':'' @ port, ''localhost:'' @ port, ''127.0.0.1:'' @ port, ''::1:'' @ port})"
proof (cases "CHR '':'' \<in> set e")
  case True
  from split_list_last [OF this] obtain h port where e: "e = h @ CHR '':'' # port" "CHR '':'' \<notin> set port" by blast
  have "dropWhile (\<lambda>c. c \<noteq> CHR '':'') (rev port @ CHR '':'' # rev h) = CHR '':'' # rev h"
    using e(2) by (simp add: dropWhile_append)
  then have l: "isLoopback e \<longleftrightarrow> h \<in> {[], ''localhost'', ''127.0.0.1'', ''::1''}"
    by (auto simp: isLoopback_def e(1))
  have host: "h = g" if "e = g @ CHR '':'' # p" "CHR '':'' \<notin> set p" for g p
    using that e by (auto simp: append_eq_Cons_conv append_eq_append_conv2 Cons_eq_append_conv)
  have g: "(\<exists>p. CHR '':'' \<notin> set p \<and> e \<in> {a @ CHR '':'' # p, b @ CHR '':'' # p, c @ CHR '':'' # p, d @ CHR '':'' # p})
      \<longleftrightarrow> h \<in> {a, b, c, d}" for a b c d
    using host e by blast
  have "e \<notin> {[], ''localhost'', ''127.0.0.1''}" using True by auto
  then show ?thesis using g [of "[]" "''localhost''" "''127.0.0.1''" "''::1''"] unfolding l append.simps by (simp only: simp_thms)
next
  case False
  then have l: "isLoopback e \<longleftrightarrow> e = ''127.0.0.1'' \<or> e = ''localhost'' \<or> e = ''::1'' \<or> e = []"
    by (simp only: isLoopback_def Let_def if_False)
  have "CHR '':'' \<in> set ('':'' @ p)" "CHR '':'' \<in> set (''localhost:'' @ p)" "CHR '':'' \<in> set (''127.0.0.1:'' @ p)"
    "CHR '':'' \<in> set (''::1:'' @ p)" "CHR '':'' \<in> set ''::1''" for p by simp_all
  with False have "e \<noteq> '':'' @ p \<and> e \<noteq> ''localhost:'' @ p \<and> e \<noteq> ''127.0.0.1:'' @ p \<and> e \<noteq> ''::1:'' @ p \<and> e \<noteq> ''::1''" for p
    by metis
  then show ?thesis unfolding l by blast
qed

text \<open>C33. Whatever the file and the environment say, a configuration that \<open>Load\<close> returns has the fields of \<open>Config\<close> with
  their types; without authentication it is a development profile whose API endpoint names localhost, 127.0.0.1 or ::1, or
  has no host at all and so listens on every interface (the defect shown by \<open>wildcard_is_loopback\<close>); and it
  executes remediations only in production, with authentication, approval and both allowlists set.\<close>

theorem Load_safe:
  assumes "Load w path = Some (Inr cfg)"
  shows "same_shape Config cfg
    \<and> (str_at [''Auth'', ''Mode''] cfg = ''none'' \<longrightarrow>
         str_at [''Server'', ''Profile''] cfg = ''dev''
         \<and> (str_at [''API'', ''Endpoint''] cfg \<in> {[], ''localhost'', ''127.0.0.1''}
            \<or> (\<exists>port. CHR '':'' \<notin> set port \<and> str_at [''API'', ''Endpoint''] cfg
                 \<in> {'':'' @ port, ''localhost:'' @ port, ''127.0.0.1:'' @ port, ''::1:'' @ port})))
    \<and> (str_at [''Remediate'', ''Mode''] cfg = ''execute'' \<longrightarrow>
         bool_at [''Remediate'', ''RequireApproval''] cfg \<and> str_at [''Auth'', ''Mode''] cfg \<noteq> ''none''
         \<and> str_at [''Server'', ''Profile''] cfg = ''prod'' \<and> 0 < length_at [''Remediate'', ''Allowlist''] cfg
         \<and> 0 < length_at [''Remediate'', ''TargetAllowlist''] cfg)"
proof -
  from assms obtain cfg0 where cfg: "overlay w path Default = Inr cfg0" "Validate cfg = None"
    "interpolate (getenv (os_Environ w)) (str_at [''Server'', ''DataDir''] (applyEnvOverrides (float_other w) (os_Environ w) cfg0))
      (applyEnvOverrides (float_other w) (os_Environ w) cfg0) = Some cfg" by (rule Load_some)
  have "same_shape Config cfg"
    by (rule interpolate_shape(1) [OF applyEnvOverrides_shape [OF overlay_shape [OF cfg(1)]] cfg(3)])
  moreover have "str_at [''Remediate'', ''Mode''] cfg = ''execute'' \<longrightarrow>
         bool_at [''Remediate'', ''RequireApproval''] cfg \<and> str_at [''Auth'', ''Mode''] cfg \<noteq> ''none''
         \<and> str_at [''Server'', ''Profile''] cfg = ''prod'' \<and> 0 < length_at [''Remediate'', ''Allowlist''] cfg
         \<and> 0 < length_at [''Remediate'', ''TargetAllowlist''] cfg"
    using validated(2) [OF cfg(2)] by (auto simp: execute_problems_def split: if_splits)
  ultimately show ?thesis using validated(1) [OF cfg(2)] unfolding isLoopback_iff by blast
qed

text \<open>C35. \<open>Load\<close> returns, with a configuration or an error, whenever no environment variable has a dollar sign in it.\<close>

theorem Load_returns:
  assumes "\<forall>kv \<in> set (os_Environ w). CHR ''$'' \<notin> set kv"
  shows "\<exists>r. Load w path = Some r"
proof -
  have "CHR ''$'' \<notin> set (getenv (os_Environ w) x)" for x using assms getenv_value by fastforce
  then have "\<exists>t. expand (getenv (os_Environ w)) dd s = Some t" for dd s
    using expand_env_returns [of "getenv (os_Environ w)"] by (auto simp: expand_def)
  then have "\<exists>c. interpolate (getenv (os_Environ w)) dd v = Some c" for dd v using interpolate_some(1) by blast
  then have some: "interpolate (getenv (os_Environ w)) dd v \<noteq> None" for dd v by fastforce
  show ?thesis
  proof (cases "overlay w path Default")
    case (Inr cfg)
    with some show ?thesis by (auto simp: Load_def Let_def split: option.splits)
  qed (simp add: Load_def)
qed

lemma replace_all_skip: "CHR ''$'' \<notin> set s \<Longrightarrow> replace_all (CHR ''$'' # p) new (s @ t) = s @ replace_all (CHR ''$'' # p) new t"
  by (induction s) auto

lemma expand_never:
  assumes "self_reference env x" and "CHR ''$'' \<notin> set a" and "CHR ''$'' \<notin> set x"
  shows "expand env dd (a @ ''${env:'' @ x @ ''}'' @ b) = None"
proof -
  let ?d = "CHR ''$'' # ''{data_dir}''"
  have "replace_all ?d dd (a @ ''${env:'' @ x @ ''}'' @ b) = a @ ''${env:'' @ x @ ''}'' @ replace_all ?d dd b"
    using replace_all_skip [OF assms(2), of "''{data_dir}''" dd "''${env:'' @ x @ ''}'' @ b"]
      replace_all_skip [of "''{env:'' @ x @ ''}''" "''{data_dir}''" dd b] assms(3) by simp
  moreover have "cut_at ''${'' (a @ ''${env:'' @ x @ ''}'' @ b) \<noteq> None"
  proof (induction a)
    case Nil show ?case by (subst cut_at.simps) simp
  next
    case (Cons c a) then show ?case by (subst cut_at.simps) auto
  qed
  moreover have "expand_env env (a @ ''${env:'' @ x @ ''}'' @ b') = None" for b'
    using expand_env_never [OF assms(1)] assms(2) unfolding refers_def by blast
  ultimately show ?thesis by (simp add: expand_def)
qed

text \<open>The strings that are expanded: the string fields, and the elements of slices.\<close>

fun strings_of :: "fval \<Rightarrow> string list" where
  "strings_of (FStruct fs) = concat (map (\<lambda>f. strings_of (snd f)) fs)"
| "strings_of (FSlice el xs) = concat (map strings_of xs)"
| "strings_of (FStr s) = [s]"
| "strings_of v = []"

lemma interpolate_string_none:
  assumes "expand env dd s = None"
  shows "s \<in> set (strings_of v) \<Longrightarrow> interpolate env dd v = None"
    and "\<exists>f \<in> set fs. s \<in> set (strings_of (snd f)) \<Longrightarrow> interpolate_fields env dd fs = None"
    and "\<exists>x \<in> set xs. s \<in> set (strings_of x) \<Longrightarrow> interpolate_items env dd xs = None"
  using assms
  by (induction env dd v and env dd fs and env dd xs rule: interpolate_interpolate_fields_interpolate_items.induct)
     (auto split: option.splits, (metis not_None_eq snd_conv)+)

lemma leaf_string: "leaf ns v = Some (FStr s) \<Longrightarrow> s \<in> set (strings_of v)"
proof (induction ns v rule: leaf.induct)
  case (2 n ns fs)
  then obtain u where u: "map_of fs n = Some u" "leaf ns u = Some (FStr s)" by (auto split: option.splits)
  from map_of_SomeD [OF u(1)] 2(1) [OF u] show ?case by force
qed auto

text \<open>C36. Suppose the first dollar sign of some string of the overridden configuration, a field or an element of a slice,
  starts the placeholder of a variable \<open>x\<close>, and the first dollar sign of that variable's value starts the same
  placeholder (the name has no closing brace and no dollar sign). Then \<open>Load\<close> never returns.\<close>

theorem self_reference_hangs:
  assumes "overlay w path Default = Inr cfg"
    and "a @ ''${env:'' @ x @ ''}'' @ b \<in> set (strings_of (applyEnvOverrides (float_other w) (os_Environ w) cfg))"
    and "self_reference (getenv (os_Environ w)) x" and "CHR ''$'' \<notin> set a" and "CHR ''$'' \<notin> set x"
  shows "Load w path = None"
proof -
  have "interpolate (getenv (os_Environ w)) dd (applyEnvOverrides (float_other w) (os_Environ w) cfg) = None" for dd
    using interpolate_string_none(1) [OF expand_never [OF assms(3-5)] assms(2)] .
  with assms(1) show ?thesis by (simp add: Load_def Let_def)
qed

text \<open>C34. Every configuration with the fields and types of \<open>Config\<close> whose durations have 64 bits and which has no value of a
  kind the decoder does not know (\<open>storable\<close>) can be written as a document that the loader reads back exactly, over
  any configuration of these fields and types, whatever that one holds.\<close>

theorem yaml_roundtrip:
  assumes "same_shape Config cfg" and "storable cfg" and "to_yaml cfg = RMap m" and "same_shape Config base"
    and "path \<noteq> []" and "os_ReadFile w path = FileData bytes" and "yaml_Unmarshal w bytes = Inr (Some m)"
  shows "overlay w path base = Inr cfg"
proof -
  obtain fs where fs: "base = FStruct fs" using assms(4) by (cases base) (auto simp: Config_def)
  have "decodeValue (float_to_int w) base (to_yaml cfg) p = Inr cfg" for p
    by (rule decode_to_yaml [OF assms(4,1,2) config_keys])
  then have "decodeStruct (float_to_int w) fs m (p @ ''.'') = Inr cfg" for p by (simp add: assms(3) fs)
  from decode_path(2) [OF this] have "decodeStruct (float_to_int w) fs m [] = Inr cfg" .
  then show ?thesis using assms(5-7) by (simp add: overlay_def fs)
qed

text \<open>C37. A document with the block \<open>selfobs:\<close>, the name the architecture document gives it, is refused: the field
  \<open>SelfObs\<close> is read from \<open>self_obs\<close>.\<close>

lemma selfobs_is_no_key: "''selfobs'' \<notin> (yamlKeyFor \<circ> fst) ` set (case Config of FStruct fs \<Rightarrow> fs | _ \<Rightarrow> [])"
  unfolding Config_def by code_simp

theorem selfobs_block_refused:
  assumes "path \<noteq> []" and "os_ReadFile w path = FileData bytes" and "yaml_Unmarshal w bytes = Inr (Some m)"
    and "map_of m ''selfobs'' = Some block"
  shows "\<exists>e. Load w path = Some (Inl e)"
proof -
  obtain fs where fs: "Default = FStruct fs" "map fst fs = map fst (case Config of FStruct fs \<Rightarrow> fs | _ \<Rightarrow> [])"
    by (simp add: Default_def Config_def)
  then have "(yamlKeyFor \<circ> fst) ` set fs = (yamlKeyFor \<circ> fst) ` set (case Config of FStruct fs \<Rightarrow> fs | _ \<Rightarrow> [])"
    by (metis list.set_map map_map)
  with selfobs_is_no_key have no: "''selfobs'' \<notin> (yamlKeyFor \<circ> fst) ` set fs" by blast
  have "\<not> known_keys Default (RMap m)"
  proof
    assume "known_keys Default (RMap m)"
    then have "set (map fst m) \<subseteq> (yamlKeyFor \<circ> fst) ` set fs" unfolding fs by simp
    moreover have "''selfobs'' \<in> set (map fst m)" using assms(4) by (metis domI dom_map_of_conv_image_fst list.set_map)
    ultimately show False using no by blast
  qed
  then have "decodeStruct (float_to_int w) fs m [] \<noteq> Inr c" for c using decode_known(2) unfolding fs by metis
  then obtain e where "decodeStruct (float_to_int w) fs m [] = Inl e" by (cases "decodeStruct (float_to_int w) fs m []") auto
  then show ?thesis using assms(1-3) by (simp add: Load_def overlay_def fs(1))
qed

section \<open>Running on defaults\<close>

text \<open>The strings of a configuration, the elements of slices included.\<close>

fun strings_ok :: "(string \<Rightarrow> bool) \<Rightarrow> fval \<Rightarrow> bool" where
  "strings_ok P (FStruct fs) \<longleftrightarrow> list_all (\<lambda>f. strings_ok P (snd f)) fs"
| "strings_ok P (FSlice el xs) \<longleftrightarrow> list_all (strings_ok P) xs"
| "strings_ok P (FStr s) \<longleftrightarrow> P s"
| "strings_ok P v \<longleftrightarrow> True"

definition no_variable :: "string \<Rightarrow> bool" where
  "no_variable s \<longleftrightarrow> cut_at ''${env:'' (replace_all ''${data_dir}'' ''./traceiq-data'' s) = None"

lemma plain_Server: "strings_ok no_variable default_Server"
  by (simp add: config_types default_Server_def, code_simp?)

lemma plain_Tenancy: "strings_ok no_variable default_Tenancy"
  by (simp add: config_types default_Tenancy_def, code_simp?)

lemma plain_Ingest: "strings_ok no_variable default_Ingest"
  by (simp add: config_types default_Ingest_def, code_simp?)

lemma plain_Sampler: "strings_ok no_variable default_Sampler"
  by (simp add: config_types default_Sampler_def, code_simp?)

lemma plain_Store: "strings_ok no_variable default_Store"
  by (simp add: config_types default_Store_def, code_simp?)

lemma plain_Topology: "strings_ok no_variable default_Topology"
  by (simp add: config_types default_Topology_def, code_simp?)

lemma plain_Anomaly: "strings_ok no_variable default_Anomaly"
  by (simp add: config_types default_Anomaly_def, code_simp?)

lemma plain_RCA: "strings_ok no_variable default_RCA"
  by (simp add: config_types default_RCA_def, code_simp?)

lemma plain_Correlate: "strings_ok no_variable default_Correlate"
  by (simp add: config_types default_Correlate_def, code_simp?)

lemma plain_Memory: "strings_ok no_variable default_Memory"
  by (simp add: config_types default_Memory_def, code_simp?)

lemma plain_Remediate: "strings_ok no_variable default_Remediate"
  by (simp add: config_types default_Remediate_def, code_simp?)

lemma plain_Alerting: "strings_ok no_variable default_Alerting"
  by (simp add: config_types default_Alerting_def, code_simp?)

lemma plain_NL: "strings_ok no_variable default_NL"
  by (simp add: config_types default_NL_def, code_simp?)

lemma plain_API: "strings_ok no_variable default_API"
  by (simp add: config_types default_API_def, code_simp?)

lemma plain_Auth: "strings_ok no_variable default_Auth"
  by (simp add: config_types default_Auth_def, code_simp?)

lemma plain_Eval: "strings_ok no_variable default_Eval"
  by (simp add: config_types default_Eval_def, code_simp?)

lemma plain_SelfObs: "strings_ok no_variable default_SelfObs"
  by (simp add: config_types default_SelfObs_def, code_simp?)

lemma plain_Cluster: "strings_ok no_variable default_Cluster"
  by (simp add: config_types default_Cluster_def, code_simp?)

lemma plain_Ops: "strings_ok no_variable default_Ops"
  by (simp add: config_types default_Ops_def, code_simp?)

lemmas default_blocks_plain = plain_Server plain_Tenancy plain_Ingest plain_Sampler plain_Store plain_Topology
  plain_Anomaly plain_RCA plain_Correlate plain_Memory plain_Remediate plain_Alerting plain_NL plain_API
  plain_Auth plain_Eval plain_SelfObs plain_Cluster plain_Ops

lemma default_plain: "strings_ok no_variable Default"
  using default_blocks_plain by (simp add: Default_def Config_def)

lemma default_part:
  "leaf (''Server'' # ns) Default = leaf ns default_Server" "leaf (''Auth'' # ns) Default = leaf ns default_Auth"
  "leaf (''Alerting'' # ns) Default = leaf ns default_Alerting" "leaf (''Remediate'' # ns) Default = leaf ns default_Remediate"
  "leaf (''RCA'' # ns) Default = leaf ns default_RCA"
  by (simp_all add: Default_def Config_def)

lemma default_leaves:
  "leaf [''Server'', ''Mode''] Default = Some (FStr ''single'')" "leaf [''Server'', ''Profile''] Default = Some (FStr ''dev'')"
  "leaf [''Server'', ''DataDir''] Default = Some (FStr ''./traceiq-data'')" "leaf [''Auth'', ''Mode''] Default = Some (FStr ''token'')"
  "leaf [''Alerting'', ''Gate''] Default = Some (FStr ''investigation'')"
  "leaf [''Remediate'', ''Mode''] Default = Some (FStr ''dryrun'')" "leaf [''RCA'', ''Reasoner''] Default = Some (FStr ''auto'')"
  unfolding default_part default_Server_def default_Auth_def default_Alerting_def default_Remediate_def default_RCA_def
    ServerConfig_def AuthConfig_def AlertingConfig_def RemediateConfig_def RCAConfig_def by simp_all

lemma expand_plain: "no_variable s \<Longrightarrow> \<exists>t. expand env ''./traceiq-data'' s = Some t"
  by (auto simp: no_variable_def expand_def expand_env_step)

lemma interpolate_plain:
  "strings_ok no_variable v \<Longrightarrow> \<exists>w. interpolate env ''./traceiq-data'' v = Some w"
  "list_all (\<lambda>f. strings_ok no_variable (snd f)) fs \<Longrightarrow> \<exists>gs. interpolate_fields env ''./traceiq-data'' fs = Some gs"
  "list_all (strings_ok no_variable) xs \<Longrightarrow> \<exists>ys. interpolate_items env ''./traceiq-data'' xs = Some ys"
  by (induction env "''./traceiq-data''" v and env "''./traceiq-data''" fs and env "''./traceiq-data''" xs
      rule: interpolate_interpolate_fields_interpolate_items.induct) (use expand_plain in fastforce)+

lemma interpolate_leaf:
  "\<lbrakk>interpolate env dd v = Some w; leaf ns v = Some (FStr s)\<rbrakk> \<Longrightarrow> \<exists>t. leaf ns w = Some (FStr t) \<and> expand env dd s = Some t"
proof (induction ns v arbitrary: w rule: leaf.induct)
  case (1 v)
  then show ?case by (cases v) auto
next
  case (2 n ns fs)
  from 2(2) obtain gs where gs: "interpolate_fields env dd fs = Some gs" "w = FStruct gs" by auto
  from 2(3) obtain u where u: "map_of fs n = Some u" "leaf ns u = Some (FStr s)" by (auto split: option.splits)
  from gs(1) u(1) have "\<exists>x. map_of gs n = Some x \<and> interpolate env dd u = Some x"
    by (induction fs arbitrary: gs) (auto split: if_splits option.splits)
  with 2(1) [OF u(1) _ u(2)] gs(2) show ?case by auto
qed auto

lemma expand_literal: "cut_at ''${'' s = None \<Longrightarrow> expand env dd s = Some s"
  by (simp add: expand_def)

lemma no_placeholder:
  "cut_at ''${'' ''single'' = None" "cut_at ''${'' ''dev'' = None" "cut_at ''${'' ''token'' = None"
  "cut_at ''${'' ''investigation'' = None" "cut_at ''${'' ''dryrun'' = None" "cut_at ''${'' ''auto'' = None"
  by code_simp+

lemma interpolated_default:
  assumes "interpolate env ''./traceiq-data'' Default = Some cfg"
  shows "str_at [''Server'', ''Mode''] cfg = ''single''" "str_at [''Server'', ''Profile''] cfg = ''dev''"
    "str_at [''Auth'', ''Mode''] cfg = ''token''" "str_at [''Alerting'', ''Gate''] cfg = ''investigation''"
    "str_at [''Remediate'', ''Mode''] cfg = ''dryrun''" "str_at [''RCA'', ''Reasoner''] cfg = ''auto''"
  using interpolate_leaf [OF assms default_leaves(1)] interpolate_leaf [OF assms default_leaves(2)]
    interpolate_leaf [OF assms default_leaves(4)] interpolate_leaf [OF assms default_leaves(5)]
    interpolate_leaf [OF assms default_leaves(6)] interpolate_leaf [OF assms default_leaves(7)]
  by (auto simp: str_at_def expand_literal no_placeholder)

lemma foreign_environment: "\<forall>kv \<in> set environ. \<not> prefix envPrefix kv \<Longrightarrow> applyEnvOverrides other environ v = v"
proof (induction environ arbitrary: v)
  case (Cons kv environ)
  have so: "split_once d kv = Some (n, u) \<Longrightarrow> prefix n kv" for d kv n u
    by (induction d kv arbitrary: n rule: split_once.induct) (auto split: if_splits)
  have "env_override other kv v = v"
  proof (cases "split_once (CHR ''='') kv")
    case (Some nu)
    then obtain n u where nu: "split_once (CHR ''='') kv = Some (n, u)" by (cases nu) auto
    with so [OF nu] Cons.prems have "\<not> prefix envPrefix n" using prefix_order.trans by fastforce
    with nu show ?thesis by (simp add: env_override_def)
  qed (simp add: env_override_def)
  with Cons show ?case by (simp add: applyEnvOverrides_def)
qed (simp add: applyEnvOverrides_def)

lemma Load_defaults:
  assumes "path = [] \<or> os_ReadFile w path = FileMissing" and "\<forall>kv \<in> set (os_Environ w). \<not> prefix envPrefix kv"
  shows "\<exists>cfg. Load w path = Some (Inr cfg)"
proof -
  have o: "overlay w path Default = Inr Default" using assms(1) by (auto simp: overlay_def)
  from interpolate_plain(1) [OF default_plain] obtain cfg where
    c: "interpolate (getenv (os_Environ w)) ''./traceiq-data'' Default = Some cfg" by blast
  have "str_at [''Server'', ''DataDir''] Default = ''./traceiq-data''" by (simp add: str_at_def default_leaves)
  moreover have "Validate cfg = None" using interpolated_default [OF c] by (simp add: Validate_def)
  ultimately show ?thesis using c by (simp add: Load_def o foreign_environment [OF assms(2)])
qed

section \<open>Runs\<close>

text \<open>A world with one document and an environment.\<close>

definition demo_world :: "(string \<times> raw) list \<Rightarrow> string list \<Rightarrow> outside" where
  "demo_world m environ =
     \<lparr>os_ReadFile = (\<lambda>p. if p = ''traceiq.yaml'' then FileData ''doc'' else FileMissing),
      yaml_Unmarshal = (\<lambda>b. Inr (Some m)), os_Environ = environ, float_to_int = (\<lambda>x. 0), float_other = (\<lambda>s. None)\<rparr>"

theorem Load_safe_witness:
  "\<exists>cfg. Load (demo_world [] [''HOME=/root'']) [] = Some (Inr cfg) \<and> same_shape Config cfg"
proof -
  have "\<forall>kv \<in> set (os_Environ (demo_world [] [''HOME=/root''])). \<not> prefix envPrefix kv"
    by (simp add: demo_world_def envPrefix_def)
  from Load_defaults [OF _ this] obtain cfg where "Load (demo_world [] [''HOME=/root'']) [] = Some (Inr cfg)" by blast
  with Load_safe [OF this] show ?thesis by blast
qed

theorem Load_returns_witness: "\<exists>r. Load (demo_world [] [''HOME=/root'']) ''traceiq.yaml'' = Some r"
  by (rule Load_returns) (simp add: demo_world_def)

theorem selfobs_block_refused_witness:
  "\<exists>e. Load (demo_world [(''selfobs'', RMap [(''pprof'', RBool False)])] []) ''traceiq.yaml'' = Some (Inl e)"
  by (rule selfobs_block_refused
      [where bytes = "''doc''" and m = "[(''selfobs'', RMap [(''pprof'', RBool False)])]" and block = "RMap [(''pprof'', RBool False)]"]) (simp_all add: demo_world_def)

lemma default_storables:
  "storable default_Server" "storable default_Tenancy" "storable default_Ingest"
  "storable default_Sampler" "storable default_Store" "storable default_Topology"
  "storable default_Anomaly" "storable default_RCA" "storable default_Correlate"
  "storable default_Memory" "storable default_Remediate" "storable default_Alerting"
  "storable default_NL" "storable default_API" "storable default_Auth"
  "storable default_Eval" "storable default_SelfObs" "storable default_Cluster"
  "storable default_Ops"
  by (simp_all add: config_types second_def minute_def an_hour_def millisecond_def default_Server_def default_Tenancy_def default_Ingest_def default_Sampler_def default_Store_def default_Topology_def default_Anomaly_def
      default_RCA_def default_Correlate_def default_Memory_def default_Remediate_def default_Alerting_def default_NL_def default_API_def
      default_Auth_def default_Eval_def default_SelfObs_def default_Cluster_def default_Ops_def)

lemma default_storable: "storable Default"
  using default_storables by (simp add: Default_def Config_def)

theorem yaml_roundtrip_witness:
  "\<exists>m. to_yaml Default = RMap m \<and> overlay (demo_world m []) ''traceiq.yaml'' Default = Inr Default"
proof -
  obtain m where m: "to_yaml Default = RMap m" by (simp add: Default_def Config_def)
  have "overlay (demo_world m []) ''traceiq.yaml'' Default = Inr Default"
    by (rule yaml_roundtrip [OF default_shape default_storable m default_shape]) (simp_all add: demo_world_def)
  with m show ?thesis by blast
qed

text \<open>A node name taken from a variable that refers to itself.\<close>

definition loop_world :: outside where
  "loop_world = demo_world [] [''A=${env:A}'', ''TRACEIQ_SERVER__NODE_ID=${env:A}'']"

lemma server_keys: "yamlKeyFor ''Server'' = ''server''" "yamlKeyFor ''NodeID'' = ''node_id''" "yamlKeyFor ''Mode'' = ''mode''"
  "yamlKeyFor ''Profile'' = ''profile''"
  by code_simp+

lemma node_path: "resolvePath Default [''server'', ''node_id''] = Some [''Server'', ''NodeID'']"
proof -
  have "resolvePath default_Server [''node_id''] = Some [''NodeID'']"
    by (simp add: default_Server_def ServerConfig_def server_keys)
  then show ?thesis by (simp add: Default_def Config_def server_keys)
qed

lemma node_override: "env_override other ''TRACEIQ_SERVER__NODE_ID=${env:A}'' Default
   = set_leaf [''Server'', ''NodeID''] (setFromEnvString other ''${env:A}'') Default"
proof -
  have "split_once (CHR ''='') ''TRACEIQ_SERVER__NODE_ID=${env:A}'' = Some (''TRACEIQ_SERVER__NODE_ID'', ''${env:A}'')"
    "prefix envPrefix ''TRACEIQ_SERVER__NODE_ID''" "trim_prefix envPrefix ''TRACEIQ_SERVER__NODE_ID'' = ''SERVER__NODE_ID''"
    "cut_at ''__'' ''SERVER__NODE_ID'' \<noteq> None" "split_at_str ''__'' (to_lower ''SERVER__NODE_ID'') = [''server'', ''node_id'']"
    by code_simp+
  then show ?thesis by (auto simp: env_override_def node_path Let_def)
qed

lemma other_override: "env_override other ''A=${env:A}'' v = v"
proof -
  have "split_once (CHR ''='') ''A=${env:A}'' = Some (''A'', ''${env:A}'')" "\<not> prefix envPrefix ''A''" by code_simp+
  then show ?thesis by (simp add: env_override_def)
qed

lemma node_value: "leaf [''Server'', ''NodeID''] (set_leaf [''Server'', ''NodeID''] f Default) = Some (f (FStr []))"
proof -
  have "leaf [''NodeID''] (set_leaf [''NodeID''] f default_Server) = Some (f (FStr []))"
    by (simp add: default_Server_def ServerConfig_def)
  then show ?thesis by (simp add: Default_def Config_def)
qed

theorem self_reference_hangs_witness: "Load loop_world [] = None"
proof (rule self_reference_hangs [where cfg = Default and a = "[]" and x = "''A''" and b = "[]"])
  show "overlay loop_world [] Default = Inr Default" by (simp add: overlay_def)
  have "leaf [''Server'', ''NodeID''] (applyEnvOverrides (float_other loop_world) (os_Environ loop_world) Default)
    = Some (FStr ([] @ ''${env:'' @ ''A'' @ ''}'' @ []))"
    by (simp add: loop_world_def demo_world_def applyEnvOverrides_def other_override node_override node_value setFromEnvString_def)
  then show "[] @ ''${env:'' @ ''A'' @ ''}'' @ []
      \<in> set (strings_of (applyEnvOverrides (float_other loop_world) (os_Environ loop_world) Default))"
    by (rule leaf_string)
  show "self_reference (getenv (os_Environ loop_world)) ''A''"
  proof -
    have "getenv (os_Environ loop_world) ''A'' = ''${env:A}''" by (simp add: loop_world_def demo_world_def getenv_def)
    then show ?thesis unfolding self_reference_def by (intro conjI exI [of _ "[]"]) simp_all
  qed
qed simp_all

text \<open>Without authentication an endpoint on every interface passes as loopback, an IPv6 loopback endpoint does not.\<close>

theorem wildcard_is_loopback:
  "isLoopback '':8443'' \<and> \<not> isLoopback ''[::1]:8443''"
  by code_simp

end
