(* ===== verification/Baseline.thy ===== *)
theory Baseline
  imports Red
begin

text \<open>
  src/internal/anomaly: the configuration (config.go), the streaming quantile estimators (quantile.go) and the baseline
  store (baseline.go).  A float64 is a rational number rounded after every operation (\<open>rnd64\<close>).  The arrays
  \<open>[3]\<close> of \<open>P2Estimator\<close>, one cell per tracked quantile, are a list of three records.  The Go maps are association
  lists; \<open>arrange\<close> is the order in which a map is ranged over.
\<close>

section \<open>config.go\<close>

record baseline_config =
  bl_EstimatorTDigestCompression :: int
  bl_EWMAAlpha :: rat
  bl_WarmupSamples :: "32 word"
  bl_WarmupSamplesPerBucket :: "32 word"
  bl_ColdStartMultiplier :: rat
  bl_MaxColdStart :: duration
  bl_MaxKeys :: int
  bl_MaxKeysGlobal :: int
  bl_MaxErrorSignatures :: int
  bl_CheckpointInterval :: duration
  bl_CheckpointMaxRows :: int
  bl_MinRPS :: rat

record threshold_config =
  th_LatencyRatio :: rat
  th_LatencyAbsDeltaNanos :: rat
  th_ErrorRateDelta :: rat
  th_ErrorBurstRatio :: rat
  th_ThroughputDropRatio :: rat
  th_NewErrorSignatureLookback :: duration
  th_NewErrorSigMinCalls :: int
  th_MinCalls :: "64 word"
  th_MinEventScore :: rat
  th_NewEdgeMinCalls :: "64 word"
  th_VanishedEdgeMinCalls24h :: "64 word"

record grouping_config =
  gp_Window :: duration
  gp_TopologyHops :: int
  gp_MaxEventsPerIncident :: int
  gp_MaxOpenIncidents :: int
  gp_DedupeTTL :: duration
  gp_NeighborCacheEntries :: int
  gp_NeighborCacheTTL :: duration

record deploy_marker_config =
  dm_Enabled :: bool
  dm_CorrelationWindow :: duration
  dm_Settle :: duration

record anomaly_config =
  ac_EvalInterval :: duration
  ac_EvalWindow :: duration
  ac_DebounceTicks :: int
  ac_Baseline :: baseline_config
  ac_Thresholds :: threshold_config
  ac_Grouping :: grouping_config
  ac_DeployMarkers :: deploy_marker_config

definition DefaultConfig :: anomaly_config where
  "DefaultConfig =
     \<lparr>ac_EvalInterval = 30 * second, ac_EvalWindow = 90 * second, ac_DebounceTicks = 2,
      ac_Baseline =
        \<lparr>bl_EstimatorTDigestCompression = 100, bl_EWMAAlpha = rnd64 (2 / 10), bl_WarmupSamples = 200,
         bl_WarmupSamplesPerBucket = 30, bl_ColdStartMultiplier = rnd64 (15 / 10), bl_MaxColdStart = 24 * 60 * minute,
         bl_MaxKeys = 10000, bl_MaxKeysGlobal = 20000, bl_MaxErrorSignatures = 20000,
         bl_CheckpointInterval = 60 * second, bl_CheckpointMaxRows = 2000, bl_MinRPS = rnd64 (1 / 10)\<rparr>,
      ac_Thresholds =
        \<lparr>th_LatencyRatio = rnd64 (15 / 10), th_LatencyAbsDeltaNanos = of_int (50 * millisecond),
         th_ErrorRateDelta = rnd64 (5 / 100), th_ErrorBurstRatio = 3, th_ThroughputDropRatio = rnd64 (5 / 10),
         th_NewErrorSignatureLookback = 7 * 24 * 60 * minute, th_NewErrorSigMinCalls = 5, th_MinCalls = 20,
         th_MinEventScore = rnd64 (55 / 100), th_NewEdgeMinCalls = 5, th_VanishedEdgeMinCalls24h = 1000\<rparr>,
      ac_Grouping =
        \<lparr>gp_Window = 5 * minute, gp_TopologyHops = 2, gp_MaxEventsPerIncident = 200, gp_MaxOpenIncidents = 200,
         gp_DedupeTTL = 30 * minute, gp_NeighborCacheEntries = 4096, gp_NeighborCacheTTL = 60 * second\<rparr>,
      ac_DeployMarkers = \<lparr>dm_Enabled = True, dm_CorrelationWindow = 30 * minute, dm_Settle = 2 * minute\<rparr>\<rparr>"

definition clamp01 :: "rat \<Rightarrow> rat" where
  "clamp01 v = (if v < 0 then 0 else if v > 1 then 1 else v)"

definition min1 :: "rat \<Rightarrow> rat" where
  "min1 v = (if v > 1 then 1 else if v < 0 then 0 else v)"

section \<open>The P2 estimator\<close>

definition p2Quantiles :: "rat list" where
  "p2Quantiles = [rnd64 (50 / 100), rnd64 (95 / 100), rnd64 (99 / 100)]"

record p2_cell =
  pc_Positions :: "rat list"
  pc_Heights :: "rat list"
  pc_np :: "rat list"
  pc_count :: int
  pc_init :: "rat list"

type_synonym p2_estimator = "p2_cell list"

definition NewP2Estimator :: p2_estimator where
  "NewP2Estimator =
     replicate 3 \<lparr>pc_Positions = replicate 5 0, pc_Heights = replicate 5 0, pc_np = replicate 5 0, pc_count = 0, pc_init = []\<rparr>"

definition p2Parabolic :: "rat list \<Rightarrow> rat list \<Rightarrow> nat \<Rightarrow> rat \<Rightarrow> rat" where
  "p2Parabolic pos hs i sign =
     (let np1 = pos ! (i + 1); n = pos ! i; nm1 = pos ! (i - 1);
          qp1 = hs ! (i + 1); q = hs ! i; qm1 = hs ! (i - 1);
          left = rnd64 (rnd64 (rnd64 (rnd64 (n - nm1) + sign) * rnd64 (qp1 - q)) / rnd64 (np1 - n));
          right = rnd64 (rnd64 (rnd64 (rnd64 (np1 - n) - sign) * rnd64 (q - qm1)) / rnd64 (n - nm1))
      in rnd64 (q + rnd64 (rnd64 (sign / rnd64 (np1 - nm1)) * rnd64 (left + right))))"

definition p2Linear :: "rat list \<Rightarrow> rat list \<Rightarrow> nat \<Rightarrow> rat \<Rightarrow> rat" where
  "p2Linear pos hs i sign =
     (let j = (if 0 < sign then i + 1 else i - 1) in
      rnd64 (hs ! i + rnd64 (rnd64 (sign * rnd64 (hs ! j - hs ! i)) / rnd64 (pos ! j - pos ! i))))"

text \<open>One pass of the loop that moves an inner marker.\<close>

definition adjust_marker :: "rat list \<Rightarrow> nat \<Rightarrow> rat list \<times> rat list \<Rightarrow> rat list \<times> rat list" where
  "adjust_marker np i ph =
     (let (pos, hs) = ph; d = rnd64 (np ! i - pos ! i) in
      if d \<ge> 1 \<and> rnd64 (pos ! (i + 1) - pos ! i) > 1 \<or> d \<le> - 1 \<and> rnd64 (pos ! (i - 1) - pos ! i) < - 1
      then let sign = (if d < 0 then - 1 else 1); qp = p2Parabolic pos hs i sign;
               h = (if hs ! (i - 1) < qp \<and> qp < hs ! (i + 1) then qp else p2Linear pos hs i sign)
           in (pos[i := rnd64 (pos ! i + sign)], hs[i := h])
      else ph)"

definition find_cell :: "rat \<Rightarrow> rat list \<Rightarrow> nat" where
  "find_cell v hs = (case find (\<lambda>i. v < hs ! (i + 1)) [0, 1, 2, 3] of Some i \<Rightarrow> i | None \<Rightarrow> 0)"

definition addOne :: "rat \<Rightarrow> rat \<Rightarrow> p2_cell \<Rightarrow> p2_cell" where
  "addOne p v c =
     (if pc_count c < 5 then
        let c1 = c\<lparr>pc_init := pc_init c @ [v], pc_count := pc_count c + 1\<rparr> in
        if pc_count c1 = 5 then
          c1\<lparr>pc_Positions := [1, 2, 3, 4, 5], pc_Heights := sort (pc_init c1),
             pc_np := [1, rnd64 (1 + rnd64 (2 * p)), rnd64 (1 + rnd64 (4 * p)), rnd64 (3 + rnd64 (2 * p)), 5]\<rparr>
        else c1
      else
        let hs = pc_Heights c;
            dn = [0, rnd64 (p / 2), p, rnd64 (rnd64 (1 + p) / 2), 1];
            (hs1, k) = (if v < hs ! 0 then (hs[0 := v], 0)
                        else if v \<ge> hs ! 4 then (hs[4 := v], 3)
                        else (hs, find_cell v hs));
            pos1 = map (\<lambda>(i, x). if k + 1 \<le> i then rnd64 (x + 1) else x) (List.enumerate 0 (pc_Positions c));
            np1 = map (\<lambda>(x, d). rnd64 (x + d)) (zip (pc_np c) dn);
            (pos2, hs2) = foldl (\<lambda>ph i. adjust_marker np1 i ph) (pos1, hs1) [1, 2, 3]
        in c\<lparr>pc_Positions := pos2, pc_Heights := hs2, pc_np := np1, pc_count := pc_count c + 1\<rparr>)"

definition p2_Add :: "rat \<Rightarrow> p2_estimator \<Rightarrow> p2_estimator" where
  "p2_Add v e = map (\<lambda>(p, c). addOne p v c) (zip p2Quantiles e)"

text \<open>The loop keeps the first of the nearest quantiles; none is nearer than 1 if \<open>q\<close> is far off.\<close>

definition nearestQuantileIndex :: "rat \<Rightarrow> nat" where
  "nearestQuantileIndex q =
     fst (foldl (\<lambda>(best, bestD) (i, p). let d = \<bar>rnd64 (p - q)\<bar> in if d < bestD then (i, d) else (best, bestD))
            (0, 1) (List.enumerate 0 p2Quantiles))"

text \<open>\<open>buf[int(q * (len - 1))]\<close> with the index clamped to the slice.\<close>

definition nth_quantile :: "rat \<Rightarrow> rat list \<Rightarrow> rat" where
  "nth_quantile q buf =
     (let x = rnd64 (q * of_nat (length buf - 1));
          idx = (if x < 0 then - \<lfloor>- x\<rfloor> else \<lfloor>x\<rfloor>);
          idx1 = (if idx < 0 then 0 else idx);
          idx2 = (if idx1 \<ge> int (length buf) then int (length buf) - 1 else idx1)
      in buf ! nat idx2)"

definition p2_Quantile :: "p2_estimator \<Rightarrow> rat \<Rightarrow> rat" where
  "p2_Quantile e q =
     (let c = e ! nearestQuantileIndex q in
      if pc_count c < 5 then if pc_count c = 0 then 0 else nth_quantile q (sort (pc_init c))
      else pc_Heights c ! 2)"

definition merge_cell :: "p2_cell \<Rightarrow> p2_cell \<Rightarrow> p2_cell" where
  "merge_cell c oc =
     (if pc_count oc = 0 then c
      else if pc_count c = 0 then oc
      else let total = of_int (pc_count c + pc_count oc) in
        c\<lparr>pc_Heights := map (\<lambda>(a, b). rnd64 (rnd64 (rnd64 (a * of_int (pc_count c)) + rnd64 (b * of_int (pc_count oc))) / total))
                           (zip (pc_Heights c) (pc_Heights oc)),
          pc_count := pc_count c + pc_count oc\<rparr>)"

definition p2_SizeBytes :: "p2_estimator \<Rightarrow> int" where
  "p2_SizeBytes e = 240"

section \<open>The digest of the global slot\<close>

record tdigest =
  td_Compression :: int
  td_values :: "rat list"

definition NewTDigest :: "int \<Rightarrow> tdigest" where
  "NewTDigest compression = \<lparr>td_Compression = (if compression \<le> 0 then 100 else compression), td_values = []\<rparr>"

definition tdigestMaxValues :: nat where
  "tdigestMaxValues = 4096"

text \<open>\<open>sort.SearchFloat64s\<close>: binary search for the first element not below \<open>v\<close>.\<close>

function search_floats :: "rat list \<Rightarrow> rat \<Rightarrow> nat \<Rightarrow> nat \<Rightarrow> nat" where
  "search_floats s v i j =
     (if i < j then
        let h = (i + j) div 2 in
        if s ! h < v then search_floats s v (h + 1) j else search_floats s v i h
      else i)"
  by pat_completeness auto
termination
  by (relation "measure (\<lambda>(s, v, i, j). j - i)") auto

declare search_floats.simps [simp del]

definition insertSorted :: "rat list \<Rightarrow> rat \<Rightarrow> rat list" where
  "insertSorted s v = (let i = search_floats s v 0 (length s) in take i s @ v # drop i s)"

text \<open>The loop \<open>for f := 0.0; int(f) < len; f += step\<close>, with as much fuel as there are values.\<close>

fun pick_every :: "nat \<Rightarrow> rat \<Rightarrow> rat \<Rightarrow> rat list \<Rightarrow> rat list" where
  "pick_every 0 f step vs = []"
| "pick_every (Suc fuel) f step vs =
     (if nat \<lfloor>f\<rfloor> < length vs then vs ! nat \<lfloor>f\<rfloor> # pick_every fuel (rnd64 (f + step)) step vs else [])"

definition compress :: "tdigest \<Rightarrow> tdigest" where
  "compress d =
     (let target = td_Compression d * 20; n = length (td_values d) in
      if target \<le> 0 \<or> target \<ge> int n then d
      else d\<lparr>td_values := pick_every (Suc n) 0 (rnd64 (of_nat n / of_int target)) (td_values d)\<rparr>)"

definition td_Add :: "rat \<Rightarrow> tdigest \<Rightarrow> tdigest" where
  "td_Add v d =
     (let d1 = d\<lparr>td_values := insertSorted (td_values d) v\<rparr> in
      if length (td_values d1) > tdigestMaxValues then compress d1 else d1)"

definition td_Quantile :: "tdigest \<Rightarrow> rat \<Rightarrow> rat" where
  "td_Quantile d q = (if td_values d = [] then 0 else nth_quantile q (td_values d))"

definition td_Merge :: "tdigest \<Rightarrow> tdigest \<Rightarrow> tdigest" where
  "td_Merge d od =
     (let d1 = d\<lparr>td_values := foldl insertSorted (td_values d) (td_values od)\<rparr> in
      if length (td_values d1) > tdigestMaxValues then compress d1 else d1)"

definition td_SizeBytes :: "tdigest \<Rightarrow> int" where
  "td_SizeBytes d = int (length (td_values d)) * 8"

text \<open>\<open>Merge\<close> of the interface \<open>QuantileEstimator\<close> refuses an estimator of the other type.\<close>

datatype estimator = EstP2 p2_estimator | EstTDigest tdigest

fun est_Merge :: "estimator \<Rightarrow> estimator \<Rightarrow> estimator option" where
  "est_Merge (EstP2 e) (EstP2 oe) = Some (EstP2 (map (\<lambda>(c, oc). merge_cell c oc) (zip e oe)))"
| "est_Merge (EstTDigest d) (EstTDigest od) = Some (EstTDigest (td_Merge d od))"
| "est_Merge e oe = None"

text \<open>The snapshots \<open>MarshalBinary\<close> hands to the gob encoder, an argument, and \<open>UnmarshalBinary\<close> takes from its decoder.\<close>

definition td_MarshalBinary :: "(int \<times> rat list \<Rightarrow> string) \<Rightarrow> tdigest \<Rightarrow> string" where
  "td_MarshalBinary gob d = gob (td_Compression d, td_values d)"

definition td_UnmarshalBinary :: "(string \<Rightarrow> (int \<times> rat list) option) \<Rightarrow> string \<Rightarrow> tdigest \<Rightarrow> tdigest option" where
  "td_UnmarshalBinary ungob data d =
     map_option (\<lambda>(c, vs). d\<lparr>td_Compression := c, td_values := vs\<rparr>) (ungob data)"

definition p2_MarshalBinary :: "(p2_cell list \<Rightarrow> string) \<Rightarrow> p2_estimator \<Rightarrow> string" where
  "p2_MarshalBinary gob e = gob e"

definition p2_UnmarshalBinary :: "(string \<Rightarrow> p2_cell list option) \<Rightarrow> string \<Rightarrow> p2_estimator \<Rightarrow> p2_estimator option" where
  "p2_UnmarshalBinary ungob data e = ungob data"

section \<open>The baseline store\<close>

definition globalBucket :: nat where
  "globalBucket = 255"

datatype cold_state = StateCold | StateGlobalOnly | StateWarm | StateProvisionalByDecree

definition classifyState :: "32 word \<Rightarrow> 32 word \<Rightarrow> gotime \<Rightarrow> gotime \<Rightarrow> baseline_config \<Rightarrow> cold_state" where
  "classifyState globalSamples seasonSamples firstSeen now cfg =
     (if globalSamples < bl_WarmupSamples cfg then
        if firstSeen \<noteq> 0 \<and> time_sub now firstSeen > bl_MaxColdStart cfg then StateProvisionalByDecree else StateCold
      else if seasonSamples < bl_WarmupSamplesPerBucket cfg then StateGlobalOnly
      else StateWarm)"

record season_slot =
  sl_p50 :: p2_estimator
  sl_p95 :: p2_estimator
  sl_p99 :: p2_estimator
  sl_errorEWMA :: rat
  sl_rpsEWMA :: rat
  sl_samples :: "32 word"
  sl_updatedAt :: gotime

definition newSeasonSlot :: season_slot where
  "newSeasonSlot =
     \<lparr>sl_p50 = NewP2Estimator, sl_p95 = NewP2Estimator, sl_p99 = NewP2Estimator, sl_errorEWMA = 0, sl_rpsEWMA = 0,
      sl_samples = 0, sl_updatedAt = 0\<rparr>"

type_synonym baseline_key = "tenant_id \<times> string \<times> string"

record baseline_entry =
  be_key :: baseline_key
  be_firstSeen :: gotime
  be_updatedAt :: gotime
  be_seasons :: "season_slot option list"
  be_globalDigest :: tdigest
  be_globalErrorEWMA :: rat
  be_globalRPSEWMA :: rat
  be_globalSamples :: "32 word"
  be_dirty :: "nat list"

type_synonym entry_map = "(baseline_key \<times> baseline_entry) list"

record baseline_store =
  bs_byTenant :: "(tenant_id \<times> entry_map) list"
  bs_evicted :: int

definition NewBaselineStore :: baseline_store where
  "NewBaselineStore = \<lparr>bs_byTenant = [], bs_evicted = 0\<rparr>"

definition hourSlot :: "gotime \<Rightarrow> nat" where
  "hourSlot t = nat ((t div (60 * minute)) mod 24)"

text \<open>Go's zero time is a Monday; \<open>Weekday\<close> counts from Sunday.\<close>

definition weekdaySlot :: "gotime \<Rightarrow> nat" where
  "weekdaySlot t = (let wd = (t div (24 * 60 * minute) + 1) mod 7 in nat (24 + (wd + 6) mod 7))"

definition float_u64 :: "64 word \<Rightarrow> rat" where
  "float_u64 w = rnd64 (of_nat (unat w))"

definition ewma :: "rat \<Rightarrow> rat \<Rightarrow> rat \<Rightarrow> rat" where
  "ewma alpha x old = rnd64 (rnd64 (alpha * x) + rnd64 (rnd64 (1 - alpha) * old))"

definition add_dirty :: "nat \<Rightarrow> nat list \<Rightarrow> nat list" where
  "add_dirty i ds = (if i \<in> set ds then ds else ds @ [i])"

definition error_rate :: "red_sample \<Rightarrow> rat" where
  "error_rate s = (if rd_Calls s > 0 then rnd64 (float_u64 (rd_Errors s) / float_u64 (rd_Calls s)) else 0)"

definition sample_rps :: "red_sample \<Rightarrow> rat" where
  "sample_rps s = rnd64 (float_u64 (rd_Calls s) / 10)"

definition update_slot :: "rat \<Rightarrow> red_sample \<Rightarrow> season_slot \<Rightarrow> season_slot" where
  "update_slot alpha s sl =
     sl\<lparr>sl_p50 := p2_Add (float_u64 (q_P50Nanos (rd_Q s))) (sl_p50 sl),
        sl_p95 := p2_Add (float_u64 (q_P95Nanos (rd_Q s))) (sl_p95 sl),
        sl_p99 := p2_Add (float_u64 (q_P99Nanos (rd_Q s))) (sl_p99 sl),
        sl_errorEWMA := ewma alpha (error_rate s) (sl_errorEWMA sl),
        sl_rpsEWMA := ewma alpha (sample_rps s) (sl_rpsEWMA sl),
        sl_samples := sl_samples sl + 1, sl_updatedAt := rd_BucketStart s\<rparr>"

definition updateSlot :: "rat \<Rightarrow> red_sample \<Rightarrow> nat \<Rightarrow> baseline_entry \<Rightarrow> baseline_entry" where
  "updateSlot alpha s idx e =
     (let slot = (case be_seasons e ! idx of None \<Rightarrow> newSeasonSlot | Some sl \<Rightarrow> sl) in
      e\<lparr>be_seasons := (be_seasons e)[idx := Some (update_slot alpha s slot)], be_dirty := add_dirty idx (be_dirty e)\<rparr>)"

definition update_entry :: "rat \<Rightarrow> red_sample \<Rightarrow> baseline_entry \<Rightarrow> baseline_entry" where
  "update_entry alpha s e =
     (let e1 = updateSlot alpha s (weekdaySlot (rd_BucketStart s)) (updateSlot alpha s (hourSlot (rd_BucketStart s)) e) in
      e1\<lparr>be_globalDigest := td_Add (float_u64 (q_P95Nanos (rd_Q s))) (be_globalDigest e1),
         be_globalErrorEWMA := ewma alpha (error_rate s) (be_globalErrorEWMA e1),
         be_globalRPSEWMA := ewma alpha (sample_rps s) (be_globalRPSEWMA e1),
         be_globalSamples := be_globalSamples e1 + 1,
         be_dirty := add_dirty globalBucket (be_dirty e1), be_updatedAt := rd_BucketStart s\<rparr>)"

text \<open>The victim: the least traffic in the oldest tenth, which starts at the oldest entry.\<close>

definition evict_victim :: "(baseline_entry list \<Rightarrow> baseline_entry list) \<Rightarrow> entry_map \<Rightarrow> baseline_entry" where
  "evict_victim arrange m =
     (let es = sort_key be_updatedAt (arrange (map snd m));
          decile = min (length es div 10 + 1) (length es)
      in foldl (\<lambda>victim e. if be_globalRPSEWMA e < be_globalRPSEWMA victim then e else victim) (hd es) (take decile es))"

definition evictOne :: "(baseline_entry list \<Rightarrow> baseline_entry list) \<Rightarrow> entry_map \<Rightarrow> entry_map" where
  "evictOne arrange m = (if m = [] then m else AList.delete (be_key (evict_victim arrange m)) m)"

definition new_entry :: "anomaly_config \<Rightarrow> baseline_key \<Rightarrow> gotime \<Rightarrow> baseline_entry" where
  "new_entry cfg key t =
     \<lparr>be_key = key, be_firstSeen = t, be_updatedAt = 0, be_seasons = replicate 31 None,
      be_globalDigest = NewTDigest (bl_EstimatorTDigestCompression (ac_Baseline cfg)), be_globalErrorEWMA = 0,
      be_globalRPSEWMA = 0, be_globalSamples = 0, be_dirty = []\<rparr>"

definition tenant_entries :: "tenant_id \<Rightarrow> baseline_store \<Rightarrow> entry_map" where
  "tenant_entries tid s = (case map_of (bs_byTenant s) tid of None \<Rightarrow> [] | Some m \<Rightarrow> m)"

definition Observe :: "anomaly_config \<Rightarrow> (baseline_entry list \<Rightarrow> baseline_entry list) \<Rightarrow> tenant_id \<Rightarrow> red_sample \<Rightarrow> baseline_store \<Rightarrow> baseline_store" where
  "Observe cfg arrange tid sample s =
     (let m = tenant_entries tid s; key = (tid, rd_Service sample, rd_Operation sample);
          full = (map_of m key = None \<and> int (length m) \<ge> bl_MaxKeys (ac_Baseline cfg));
          m1 = (if full then evictOne arrange m else m);
          entry = (case map_of m key of Some e \<Rightarrow> e | None \<Rightarrow> new_entry cfg key (rd_BucketStart sample));
          m2 = AList.update key (update_entry (bl_EWMAAlpha (ac_Baseline cfg)) sample entry) m1
      in s\<lparr>bs_byTenant := AList.update tid m2 (bs_byTenant s),
           bs_evicted := (if full \<and> m \<noteq> [] then bs_evicted s + 1 else bs_evicted s)\<rparr>)"

record baseline =
  ba_Service :: string
  ba_Operation :: string
  ba_Bucket :: nat
  ba_Q :: quantiles
  ba_ErrorEWMA :: rat
  ba_RPSEWMA :: rat
  ba_Samples :: "32 word"
  ba_Warmed :: bool
  ba_Provisional :: bool
  ba_UpdatedAt :: gotime

definition three_quantiles :: "(rat \<Rightarrow> 64 word) \<Rightarrow> rat \<Rightarrow> rat \<Rightarrow> rat \<Rightarrow> quantiles" where
  "three_quantiles oob a b c =
     \<lparr>q_P50Nanos = u64_of_float oob a, q_P95Nanos = u64_of_float oob b, q_P99Nanos = u64_of_float oob c, q_MaxNanos = 0\<rparr>"

definition global_quantiles :: "(rat \<Rightarrow> 64 word) \<Rightarrow> tdigest \<Rightarrow> quantiles" where
  "global_quantiles oob d =
     three_quantiles oob (td_Quantile d (rnd64 (5 / 10))) (td_Quantile d (rnd64 (95 / 100))) (td_Quantile d (rnd64 (99 / 100)))"

definition slot_quantiles :: "(rat \<Rightarrow> 64 word) \<Rightarrow> season_slot \<Rightarrow> quantiles" where
  "slot_quantiles oob sl =
     three_quantiles oob (p2_Quantile (sl_p50 sl) (rnd64 (5 / 10))) (p2_Quantile (sl_p95 sl) (rnd64 (5 / 10)))
       (p2_Quantile (sl_p99 sl) (rnd64 (5 / 10)))"

definition entry_baseline :: "anomaly_config \<Rightarrow> (rat \<Rightarrow> 64 word) \<Rightarrow> string \<Rightarrow> string \<Rightarrow> gotime \<Rightarrow> baseline_entry \<Rightarrow> baseline" where
  "entry_baseline cfg oob service operation at_time e =
     (let idx = hourSlot at_time; slot = be_seasons e ! idx;
          seasonSamples = (case slot of None \<Rightarrow> 0 | Some sl \<Rightarrow> sl_samples sl);
          state = classifyState (be_globalSamples e) seasonSamples (be_firstSeen e) at_time (ac_Baseline cfg);
          warm = (state = StateWarm \<or> state = StateProvisionalByDecree);
          own = (if warm then slot else None)
      in \<lparr>ba_Service = service, ba_Operation = operation, ba_Bucket = idx,
          ba_Q = (case own of Some sl \<Rightarrow> slot_quantiles oob sl | None \<Rightarrow> global_quantiles oob (be_globalDigest e)),
          ba_ErrorEWMA = (case own of Some sl \<Rightarrow> sl_errorEWMA sl | None \<Rightarrow> be_globalErrorEWMA e),
          ba_RPSEWMA = (case own of Some sl \<Rightarrow> sl_rpsEWMA sl | None \<Rightarrow> be_globalRPSEWMA e),
          ba_Samples = (if state = StateCold then be_globalSamples e else seasonSamples),
          ba_Warmed = warm, ba_Provisional = (state = StateGlobalOnly \<or> state = StateProvisionalByDecree),
          ba_UpdatedAt = be_updatedAt e\<rparr>)"

definition baseline_Get :: "anomaly_config \<Rightarrow> (rat \<Rightarrow> 64 word) \<Rightarrow> tenant_id \<Rightarrow> string \<Rightarrow> string \<Rightarrow> gotime \<Rightarrow> baseline_store \<Rightarrow> baseline option" where
  "baseline_Get cfg oob tid service operation at_time s =
     map_option (entry_baseline cfg oob service operation at_time) (map_of (tenant_entries tid s) (tid, service, operation))"

text \<open>The dirty buckets are dropped in the order of the maps until the row limit is used up.\<close>

fun drain_entries :: "int \<Rightarrow> entry_map \<Rightarrow> entry_map \<times> int" where
  "drain_entries remaining [] = ([], remaining)"
| "drain_entries remaining ((k, e) # m) =
     (let n = min (nat remaining) (length (be_dirty e)); (m1, r) = drain_entries (remaining - int n) m
      in ((k, e\<lparr>be_dirty := drop n (be_dirty e)\<rparr>) # m1, r))"

fun drain_tenants :: "int \<Rightarrow> (tenant_id \<times> entry_map) list \<Rightarrow> (tenant_id \<times> entry_map) list \<times> int" where
  "drain_tenants remaining [] = ([], remaining)"
| "drain_tenants remaining ((t, m) # ts) =
     (let (m1, r1) = drain_entries remaining m; (ts1, r2) = drain_tenants r1 ts in ((t, m1) # ts1, r2))"

definition Checkpoint :: "anomaly_config \<Rightarrow> baseline_store \<Rightarrow> int \<times> baseline_store" where
  "Checkpoint cfg s =
     (let rem = bl_CheckpointMaxRows (ac_Baseline cfg); (ts, r) = drain_tenants rem (bs_byTenant s)
      in (rem - r, s\<lparr>bs_byTenant := ts\<rparr>))"

record baseline_stats =
  bt_Keys :: nat
  bt_DirtyKeys :: nat
  bt_EvictedKeys :: int
  bt_ProvisionalKeys :: nat

definition counts_provisional :: "anomaly_config \<Rightarrow> gotime \<Rightarrow> baseline_entry \<Rightarrow> bool" where
  "counts_provisional cfg now e =
     (classifyState (be_globalSamples e) 0 (be_firstSeen e) now (ac_Baseline cfg) \<in> {StateGlobalOnly, StateProvisionalByDecree})"

definition baseline_Stats :: "anomaly_config \<Rightarrow> gotime \<Rightarrow> baseline_store \<Rightarrow> baseline_stats" where
  "baseline_Stats cfg now s =
     (let es = concat (map (map snd \<circ> snd) (bs_byTenant s)) in
      \<lparr>bt_Keys = length es, bt_DirtyKeys = sum_list (map (length \<circ> be_dirty) es), bt_EvictedKeys = bs_evicted s,
       bt_ProvisionalKeys = length (filter (counts_provisional cfg now) es)\<rparr>)"

end
