(* ===== verification/Detectors.thy ===== *)
theory Detectors
  imports Baseline AnomalyModel TopologyModel
begin

text \<open>
  src/internal/anomaly: the deploy index (deploy.go) and the five detectors (detectors.go).  What a detector reads
  (samples, error signatures, baselines, deploys) is its argument; the counters of the debounce are association lists.
  \<open>arrange\<close> is the order in which the map of groups is ranged over.
\<close>

section \<open>Deploys\<close>

record deploy_marker =
  dk_ID :: string
  dk_Tenant :: tenant_id
  dk_Service :: string
  dk_Version :: string
  dk_PreviousVersion :: string
  dk_Source :: string
  dk_At :: gotime
  dk_RolloutFraction :: rat

type_synonym window = "gotime \<times> gotime"

type_synonym deploy_index = "(tenant_id \<times> deploy_marker list) list"

definition markers_of :: "tenant_id \<Rightarrow> deploy_index \<Rightarrow> deploy_marker list" where
  "markers_of tid idx = (case map_of idx tid of None \<Rightarrow> [] | Some ms \<Rightarrow> ms)"

definition deploy_Record :: "tenant_id \<Rightarrow> deploy_marker \<Rightarrow> deploy_index \<Rightarrow> deploy_index" where
  "deploy_Record tid m idx = AList.update tid (markers_of tid idx @ [m]) idx"

text \<open>\<open>-d\<close> wraps at the smallest duration.\<close>

definition deploy_Near :: "tenant_id \<Rightarrow> string \<Rightarrow> gotime \<Rightarrow> duration \<Rightarrow> deploy_index \<Rightarrow> deploy_marker list" where
  "deploy_Near tid service at_time w idx =
     filter (\<lambda>m. dk_Service m = service
        \<and> (let d = time_sub at_time (dk_At m); a = (if d < 0 then wrap64 (- d) else d) in a \<le> w)) (markers_of tid idx)"

definition PrePostSplit :: "deploy_marker_config \<Rightarrow> deploy_marker \<Rightarrow> window \<times> window" where
  "PrePostSplit cfg m =
     (let w = dm_CorrelationWindow cfg; settle = dm_Settle cfg in
      ((dk_At m - w, dk_At m), (dk_At m + settle, dk_At m + settle + w)))"

definition ListWindow :: "tenant_id \<Rightarrow> window \<Rightarrow> deploy_index \<Rightarrow> deploy_marker list" where
  "ListWindow tid w idx = filter (\<lambda>m. fst w \<le> dk_At m \<and> dk_At m \<le> snd w) (markers_of tid idx)"

text \<open>The interface \<open>DeployIndex\<close> of an evaluation, or none; its lookup may fail.\<close>

type_synonym deploy_reader = "(string \<Rightarrow> gotime \<Rightarrow> duration \<Rightarrow> deploy_marker list option) option"

definition applyDeployEnrichment :: "deploy_reader \<Rightarrow> anomaly_config \<Rightarrow> anomaly_event \<Rightarrow> anomaly_event" where
  "applyDeployEnrichment deploys cfg ev =
     (case deploys of
        None \<Rightarrow> ev
      | Some near \<Rightarrow>
          if \<not> dm_Enabled (ac_DeployMarkers cfg) then ev
          else case near (ae_Service ev) (ae_WindowStart ev) (dm_CorrelationWindow (ac_DeployMarkers cfg)) of
            None \<Rightarrow> ev
          | Some ms \<Rightarrow>
              if ms = [] then ev
              else ev\<lparr>ae_DeployMarkerIDs := ae_DeployMarkerIDs ev @ map dk_ID ms,
                      ae_Score := clamp01 (rnd64 (ae_Score ev + rnd64 (1 / 10)))\<rparr>)"

section \<open>What an evaluation reads\<close>

record error_signature =
  es_Tenant :: tenant_id
  es_ID :: string
  es_Service :: string
  es_Signature :: "64 word"
  es_FirstSeen :: gotime
  es_LastSeen :: gotime
  es_Samples :: int

record eval_input =
  ev_Now :: gotime
  ev_WindowStart :: gotime
  ev_WindowEnd :: gotime
  ev_Samples :: "red_sample list"
  ev_ErrorSigs :: "error_signature list"
  ev_Baselines :: "tenant_id \<Rightarrow> string \<Rightarrow> string \<Rightarrow> gotime \<Rightarrow> baseline option"
  ev_Deploys :: deploy_reader

record red_group =
  rp_service :: string
  rp_operation :: string
  rp_calls :: "64 word"
  rp_errors :: "64 word"
  rp_p50 :: "64 word"
  rp_p95 :: "64 word"
  rp_p99 :: "64 word"

definition empty_group :: "string \<Rightarrow> string \<Rightarrow> red_group" where
  "empty_group service operation =
     \<lparr>rp_service = service, rp_operation = operation, rp_calls = 0, rp_errors = 0, rp_p50 = 0, rp_p95 = 0, rp_p99 = 0\<rparr>"

definition group_sample :: "red_sample \<Rightarrow> ((string \<times> string) \<times> red_group) list \<Rightarrow> ((string \<times> string) \<times> red_group) list" where
  "group_sample s m =
     (let k = (rd_Service s, rd_Operation s);
          g = (case map_of m k of None \<Rightarrow> empty_group (rd_Service s) (rd_Operation s) | Some g \<Rightarrow> g)
      in AList.update k (g\<lparr>rp_calls := rp_calls g + rd_Calls s, rp_errors := rp_errors g + rd_Errors s,
           rp_p50 := q_P50Nanos (rd_Q s), rp_p95 := q_P95Nanos (rd_Q s), rp_p99 := q_P99Nanos (rd_Q s)\<rparr>) m)"

definition groupSamples :: "red_sample list \<Rightarrow> red_group list" where
  "groupSamples samples = map snd (foldl (\<lambda>m s. group_sample s m) [] samples)"

definition baselineKeyStr :: "tenant_id \<Rightarrow> string \<Rightarrow> string \<Rightarrow> string" where
  "baselineKeyStr tid service operation = tid @ ''|'' @ service @ ''|'' @ operation"

type_synonym counters = "(string \<times> int) list"

definition counter :: "string \<Rightarrow> counters \<Rightarrow> int" where
  "counter k cs = (case map_of cs k of None \<Rightarrow> 0 | Some n \<Rightarrow> n)"

text \<open>
  The loops of the three detectors over groups differ in what they find in a group: None where the counter is reset, or
  the event a sustained breach gives.  The counter is also reset when the event is emitted.
\<close>

definition debounce :: "anomaly_config \<Rightarrow> string \<Rightarrow> anomaly_event option \<Rightarrow> counters \<Rightarrow> counters \<times> anomaly_event option" where
  "debounce cfg key finding cs =
     (case finding of
        None \<Rightarrow> (AList.update key 0 cs, None)
      | Some ev \<Rightarrow>
          let n = counter key cs + 1 in
          if n < ac_DebounceTicks cfg then (AList.update key n cs, None) else (AList.update key 0 cs, Some ev))"

definition eval_groups :: "anomaly_config \<Rightarrow> (red_group list \<Rightarrow> red_group list) \<Rightarrow> tenant_id \<Rightarrow> (red_group \<Rightarrow> anomaly_event option)
    \<Rightarrow> red_sample list \<Rightarrow> counters \<Rightarrow> counters \<times> anomaly_event list" where
  "eval_groups cfg arrange tid find_in samples cs =
     foldl (\<lambda>(cs, evs) g.
        case debounce cfg (baselineKeyStr tid (rp_service g) (rp_operation g)) (find_in g) cs of
          (cs1, None) \<Rightarrow> (cs1, evs) | (cs1, Some ev) \<Rightarrow> (cs1, evs @ [ev]))
      (cs, []) (arrange (groupSamples samples))"

definition blank_event :: "tenant_id \<Rightarrow> anomaly_kind \<Rightarrow> string \<Rightarrow> string \<Rightarrow> gotime \<Rightarrow> anomaly_event" where
  "blank_event tid kind detector service now =
     \<lparr>ae_ID = [], ae_Tenant = tid, ae_Kind = kind, ae_DetectorID = detector, ae_Service = service, ae_Operation = [], ae_EdgeID = [],
      ae_WindowStart = 0, ae_WindowEnd = 0, ae_Observed = 0, ae_Baseline = 0, ae_Deviation = 0, ae_Score = 0,
      ae_Severity = SeverityUnknown, ae_ErrorSigID = [], ae_ExemplarTraceIDs = [], ae_DeployMarkerIDs = [], ae_Provisional = False,
      ae_Explanation = [], ae_CreatedAt = now\<rparr>"

definition group_event :: "tenant_id \<Rightarrow> anomaly_kind \<Rightarrow> string \<Rightarrow> eval_input \<Rightarrow> red_group \<Rightarrow> rat \<Rightarrow> rat \<Rightarrow> rat \<Rightarrow> rat \<Rightarrow> baseline \<Rightarrow> anomaly_event" where
  "group_event tid kind detector inp g observed base deviation score b =
     (blank_event tid kind detector (rp_service g) (ev_Now inp))
       \<lparr>ae_Operation := rp_operation g, ae_WindowStart := ev_WindowStart inp, ae_WindowEnd := ev_WindowEnd inp,
        ae_Observed := observed, ae_Baseline := base, ae_Deviation := deviation, ae_Score := score, ae_Provisional := ba_Provisional b\<rparr>"

text \<open>The baseline of a group, unless it is unknown or cold; \<open>widened\<close> is the threshold in the state global-only.\<close>

definition usable_baseline :: "tenant_id \<Rightarrow> eval_input \<Rightarrow> red_group \<Rightarrow> baseline option" where
  "usable_baseline tid inp g =
     (case ev_Baselines inp tid (rp_service g) (rp_operation g) (ev_Now inp) of
        None \<Rightarrow> None
      | Some b \<Rightarrow> if \<not> ba_Warmed b \<and> \<not> ba_Provisional b then None else Some b)"

definition widened :: "anomaly_config \<Rightarrow> baseline \<Rightarrow> rat \<Rightarrow> rat" where
  "widened cfg b t = (if \<not> ba_Warmed b \<and> ba_Provisional b then rnd64 (t * bl_ColdStartMultiplier (ac_Baseline cfg)) else t)"

section \<open>Latency shift\<close>

definition latency_finding :: "anomaly_config \<Rightarrow> tenant_id \<Rightarrow> eval_input \<Rightarrow> red_group \<Rightarrow> anomaly_event option" where
  "latency_finding cfg tid inp g =
     (case usable_baseline tid inp g of
        None \<Rightarrow> None
      | Some b \<Rightarrow>
          let ratioTh = widened cfg b (th_LatencyRatio (ac_Thresholds cfg));
              deltaTh = widened cfg b (th_LatencyAbsDeltaNanos (ac_Thresholds cfg));
              obsP95 = float_u64 (rp_p95 g); baseP95 = float_u64 (q_P95Nanos (ba_Q b)); delta = rnd64 (obsP95 - baseP95)
          in if 0 < baseP95 \<and> obsP95 \<ge> rnd64 (baseP95 * ratioTh) \<and> delta \<ge> deltaTh \<and> th_MinCalls (ac_Thresholds cfg) \<le> rp_calls g
             then let ratio = rnd64 (obsP95 / baseP95);
                      score = clamp01 (rnd64 (rnd64 (rnd64 (5 / 10) * min1 (rnd64 (ratio - 1)))
                        + rnd64 (rnd64 (5 / 10) * min1 (rnd64 (delta / rnd64 (4 * th_LatencyAbsDeltaNanos (ac_Thresholds cfg)))))))
                  in Some (applyDeployEnrichment (ev_Deploys inp) cfg
                       (group_event tid AnomalyLatencyShift ''latency_shift/v1'' inp g obsP95 baseP95 ratio score b))
             else None)"

definition Latency_Evaluate :: "anomaly_config \<Rightarrow> (red_group list \<Rightarrow> red_group list) \<Rightarrow> tenant_id \<Rightarrow> eval_input \<Rightarrow> counters \<Rightarrow> counters \<times> anomaly_event list" where
  "Latency_Evaluate cfg arrange tid inp cs = eval_groups cfg arrange tid (latency_finding cfg tid inp) (ev_Samples inp) cs"

section \<open>Error burst\<close>

definition burst_finding :: "anomaly_config \<Rightarrow> tenant_id \<Rightarrow> eval_input \<Rightarrow> red_group \<Rightarrow> anomaly_event option" where
  "burst_finding cfg tid inp g =
     (case usable_baseline tid inp g of
        None \<Rightarrow> None
      | Some b \<Rightarrow>
          if rp_calls g = 0 then None
          else
            let rateDeltaTh = widened cfg b (th_ErrorRateDelta (ac_Thresholds cfg));
                ratioTh = widened cfg b (th_ErrorBurstRatio (ac_Thresholds cfg));
                obsRate = rnd64 (float_u64 (rp_errors g) / float_u64 (rp_calls g));
                rise = rnd64 (obsRate - ba_ErrorEWMA b)
            in if rise \<ge> rateDeltaTh \<and> obsRate \<ge> rnd64 (ba_ErrorEWMA b * ratioTh) \<and> th_MinCalls (ac_Thresholds cfg) \<le> rp_calls g
               then let score = clamp01 (rnd64 (rnd64 (rnd64 (5 / 10) * min1 (rnd64 (rise / rnd64 (20 / 100))))
                          + rnd64 (rnd64 (5 / 10) * min1 obsRate)))
                    in Some (applyDeployEnrichment (ev_Deploys inp) cfg
                         (group_event tid AnomalyErrorBurst ''error_burst/v1'' inp g obsRate (ba_ErrorEWMA b) rise score b))
               else None)"

definition Burst_Evaluate :: "anomaly_config \<Rightarrow> (red_group list \<Rightarrow> red_group list) \<Rightarrow> tenant_id \<Rightarrow> eval_input \<Rightarrow> counters \<Rightarrow> counters \<times> anomaly_event list" where
  "Burst_Evaluate cfg arrange tid inp cs = eval_groups cfg arrange tid (burst_finding cfg tid inp) (ev_Samples inp) cs"

section \<open>Throughput drop\<close>

text \<open>\<open>Duration.Seconds\<close>: the whole seconds plus the rest.\<close>

definition seconds_of :: "duration \<Rightarrow> rat" where
  "seconds_of d =
     (let s = go_div d second in rnd64 (rnd64 (of_int s) + rnd64 (of_int (d - s * second) / of_int second)))"

definition window_seconds :: "anomaly_config \<Rightarrow> eval_input \<Rightarrow> rat" where
  "window_seconds cfg inp =
     (let w = seconds_of (time_sub (ev_WindowEnd inp) (ev_WindowStart inp)) in if w \<le> 0 then seconds_of (ac_EvalWindow cfg) else w)"

definition drop_finding :: "anomaly_config \<Rightarrow> tenant_id \<Rightarrow> eval_input \<Rightarrow> red_group \<Rightarrow> anomaly_event option" where
  "drop_finding cfg tid inp g =
     (case usable_baseline tid inp g of
        None \<Rightarrow> None
      | Some b \<Rightarrow>
          if ba_RPSEWMA b < bl_MinRPS (ac_Baseline cfg) then None
          else
            let obsRPS = rnd64 (float_u64 (rp_calls g) / window_seconds cfg inp)
            in if obsRPS \<le> rnd64 (ba_RPSEWMA b * th_ThroughputDropRatio (ac_Thresholds cfg))
               then Some (group_event tid AnomalyThroughputDrop ''throughput_drop/v1'' inp g obsRPS (ba_RPSEWMA b)
                      (rnd64 (ba_RPSEWMA b - obsRPS)) (clamp01 (rnd64 (1 - rnd64 (obsRPS / ba_RPSEWMA b)))) b)
               else None)"

definition Drop_Evaluate :: "anomaly_config \<Rightarrow> (red_group list \<Rightarrow> red_group list) \<Rightarrow> tenant_id \<Rightarrow> eval_input \<Rightarrow> counters \<Rightarrow> counters \<times> anomaly_event list" where
  "Drop_Evaluate cfg arrange tid inp cs = eval_groups cfg arrange tid (drop_finding cfg tid inp) (ev_Samples inp) cs"

section \<open>New error signatures\<close>

definition sig_finding :: "anomaly_config \<Rightarrow> tenant_id \<Rightarrow> eval_input \<Rightarrow> string list \<Rightarrow> error_signature \<Rightarrow> bool" where
  "sig_finding cfg tid inp emitted sg \<longleftrightarrow>
     (let w = time_sub (ev_WindowEnd inp) (ev_WindowStart inp); windowDur = (if w \<le> 0 then ac_EvalWindow cfg else w);
          age = time_sub (ev_Now inp) (es_FirstSeen sg)
      in es_Tenant sg = tid \<and> baselineKeyStr tid (es_Service sg) (es_ID sg) \<notin> set emitted
         \<and> \<not> (age < 0 \<or> age > windowDur) \<and> \<not> es_Samples sg < th_NewErrorSigMinCalls (ac_Thresholds cfg))"

definition sig_event :: "tenant_id \<Rightarrow> eval_input \<Rightarrow> error_signature \<Rightarrow> anomaly_event" where
  "sig_event tid inp sg =
     (blank_event tid AnomalyNewErrorSignature ''new_error_signature/v1'' (es_Service sg) (ev_Now inp))
       \<lparr>ae_ErrorSigID := es_ID sg, ae_WindowStart := ev_WindowStart inp, ae_WindowEnd := ev_WindowEnd inp,
        ae_Observed := rnd64 (of_int (es_Samples sg)),
        ae_Score := clamp01 (rnd64 (rnd64 (4 / 10) + rnd64 (rnd64 (6 / 10) * min1 (rnd64 (rnd64 (of_int (es_Samples sg)) / 50)))))\<rparr>"

definition Signature_Evaluate :: "anomaly_config \<Rightarrow> tenant_id \<Rightarrow> eval_input \<Rightarrow> string list \<Rightarrow> string list \<times> anomaly_event list" where
  "Signature_Evaluate cfg tid inp emitted =
     foldl (\<lambda>(em, evs) sg.
        if sig_finding cfg tid inp em sg then (em @ [baselineKeyStr tid (es_Service sg) (es_ID sg)], evs @ [sig_event tid inp sg])
        else (em, evs))
      (emitted, []) (ev_ErrorSigs inp)"

section \<open>Topology changes\<close>

text \<open>The channel of the detector is nil once it was found closed; what it holds is an argument.\<close>

record topology_detector =
  tx_nil :: bool
  tx_lastReconcile :: "(tenant_id \<times> gotime) list"
  tx_emitted :: "(string \<times> gotime) list"

definition change_key :: "change_event \<Rightarrow> string" where
  "change_key ce =
     ed_Tenant (ce_Edge ce) @ ''|'' @ ed_ID (ce_Edge ce) @ ''|''
       @ (case ce_Kind ce of NewEdge \<Rightarrow> ''NewEdge'' | VanishedEdge \<Rightarrow> ''VanishedEdge'')"

definition change_score :: "anomaly_config \<Rightarrow> change_event \<Rightarrow> rat option" where
  "change_score cfg ce =
     (case ce_Kind ce of
        NewEdge \<Rightarrow> if ed_Calls (ce_Edge ce) < th_NewEdgeMinCalls (ac_Thresholds cfg) then None else Some (rnd64 (50 / 100))
      | VanishedEdge \<Rightarrow>
          if ed_Calls (ce_Edge ce) < th_VanishedEdgeMinCalls24h (ac_Thresholds cfg) then None else Some (rnd64 (60 / 100)))"

definition change_event_of :: "change_event \<Rightarrow> gotime \<Rightarrow> rat \<Rightarrow> anomaly_event" where
  "change_event_of ce now score =
     (blank_event (ed_Tenant (ce_Edge ce)) AnomalyTopologyChange ''topology_change/v1'' (ed_Callee (ce_Edge ce)) now)
       \<lparr>ae_EdgeID := ed_ID (ce_Edge ce), ae_WindowStart := ce_Detected ce, ae_WindowEnd := ce_Detected ce, ae_Score := score\<rparr>"

definition evalChangeEvent :: "anomaly_config \<Rightarrow> change_event \<Rightarrow> gotime \<Rightarrow> topology_detector \<Rightarrow> topology_detector \<times> anomaly_event option" where
  "evalChangeEvent cfg ce now d =
     (let k = change_key ce in
      if (case map_of (tx_emitted d) k of None \<Rightarrow> False | Some t \<Rightarrow> time_sub now t < gp_DedupeTTL (ac_Grouping cfg)) then (d, None)
      else
        let d1 = d\<lparr>tx_emitted := AList.delete k (tx_emitted d)\<rparr> in
        case change_score cfg ce of
          None \<Rightarrow> (d1, None)
        | Some sc \<Rightarrow> (d1\<lparr>tx_emitted := AList.update k now (tx_emitted d1)\<rparr>, Some (change_event_of ce now sc)))"

definition eval_changes :: "anomaly_config \<Rightarrow> gotime \<Rightarrow> change_event list \<Rightarrow> topology_detector \<Rightarrow> topology_detector \<times> anomaly_event list" where
  "eval_changes cfg now ces d =
     foldl (\<lambda>(d, evs) ce. case evalChangeEvent cfg ce now d of (d1, None) \<Rightarrow> (d1, evs) | (d1, Some ev) \<Rightarrow> (d1, evs @ [ev])) (d, []) ces"

text \<open>At most 256 changes are received; those of other tenants are received and dropped.\<close>

definition drain_changes :: "bool \<Rightarrow> change_event list \<Rightarrow> topology_detector \<Rightarrow> change_event list \<times> change_event list \<times> bool" where
  "drain_changes is_closed queue d =
     (if tx_nil d then ([], queue, True) else (take 256 queue, drop 256 queue, is_closed \<and> length queue < 256))"

definition Topology_Evaluate :: "anomaly_config \<Rightarrow> (tenant_id \<Rightarrow> gotime \<Rightarrow> edge list option) option \<Rightarrow> tenant_id \<Rightarrow> gotime \<Rightarrow> bool \<Rightarrow> change_event list
    \<Rightarrow> topology_detector \<Rightarrow> topology_detector \<times> change_event list \<times> anomaly_event list" where
  "Topology_Evaluate cfg edgeMeta tid now is_closed queue d =
     (let (taken, rest, nil) = drain_changes is_closed queue d;
          (d1, evs1) = eval_changes cfg now (filter (\<lambda>ce. ed_Tenant (ce_Edge ce) = tid) taken) (d\<lparr>tx_nil := nil\<rparr>)
      in case edgeMeta of
           None \<Rightarrow> (d1, rest, evs1)
         | Some newEdgesSince \<Rightarrow>
             let last = (case map_of (tx_lastReconcile d1) tid of None \<Rightarrow> 0 | Some t \<Rightarrow> t);
                 since = (if last = 0 then now - ac_EvalInterval cfg else last);
                 found = (case newEdgesSince tid since of None \<Rightarrow> [] | Some es \<Rightarrow> es);
                 (d2, evs2) = eval_changes cfg now (map (\<lambda>e. \<lparr>ce_Kind = NewEdge, ce_Edge = e, ce_Detected = now\<rparr>) found) d1
             in (d2\<lparr>tx_lastReconcile := AList.update tid now (tx_lastReconcile d2)\<rparr>, rest, evs1 @ evs2))"

end
