(* ===== verification/Grouper.thy ===== *)
theory Grouper
  imports Detectors GoStrings
begin

text \<open>
  src/internal/anomaly/grouper.go: anomaly events are grouped into incidents by fingerprint, then by service and
  neighbourhood in the topology.  The hash FNV-64a, the clock (\<open>now\<close>) and the topology (\<open>Neighbors\<close>, which may fail) are
  arguments; \<open>arrange\<close> and \<open>order\<close> are the orders in which maps are ranged over.  The hit ratio of the statistics is never set.
\<close>

record neighbor_entry =
  ne_neighbors :: "string list"
  ne_expiresAt :: gotime

record grouper_stats =
  gs_OpenIncidents :: nat
  gs_LastTickAt :: gotime

type_synonym incident_map = "(string \<times> incident) list"

text \<open>The maps \<open>byService\<close> and \<open>byFingerprint\<close> are functions of the tenant and the key; a missing entry is the empty list or None.\<close>

record grouper =
  gr_incidents :: "(tenant_id \<times> incident_map) list"
  gr_byService :: "tenant_id \<Rightarrow> string \<Rightarrow> string list"
  gr_byFingerprint :: "tenant_id \<Rightarrow> string \<Rightarrow> string option"
  gr_closedAt :: "tenant_id \<Rightarrow> string \<Rightarrow> gotime option"
  gr_epicenterScore :: "string \<Rightarrow> (string \<times> rat) list"
  gr_neighborCache :: "string \<Rightarrow> neighbor_entry option"
  gr_stats :: grouper_stats
  gr_seq :: nat

definition NewGrouper :: grouper where
  "NewGrouper =
     \<lparr>gr_incidents = [], gr_byService = (\<lambda>t s. []), gr_byFingerprint = (\<lambda>t f. None), gr_closedAt = (\<lambda>t i. None),
      gr_epicenterScore = (\<lambda>i. []), gr_neighborCache = (\<lambda>k. None),
      gr_stats = \<lparr>gs_OpenIncidents = 0, gs_LastTickAt = 0\<rparr>, gr_seq = 0\<rparr>"

text \<open>What an operation takes from outside.\<close>

record grouper_env =
  gx_cfg :: grouping_config
  gx_fnv :: "string \<Rightarrow> 64 word"
  gx_Neighbors :: "(tenant_id \<Rightarrow> string \<Rightarrow> int \<Rightarrow> string list option) option"
  gx_now :: gotime

definition incidents_of :: "tenant_id \<Rightarrow> grouper \<Rightarrow> incident_map" where
  "incidents_of tid g = (case map_of (gr_incidents g) tid of None \<Rightarrow> [] | Some m \<Rightarrow> m)"

definition put_incident :: "tenant_id \<Rightarrow> incident \<Rightarrow> grouper \<Rightarrow> grouper" where
  "put_incident tid inc g =
     g\<lparr>gr_incidents := AList.update tid (AList.update (in_ID inc) inc (incidents_of tid g)) (gr_incidents g)\<rparr>"

definition isOpen :: "incident_status \<Rightarrow> bool" where
  "isOpen st = (st \<in> {IncidentCandidate, IncidentInvestigating, IncidentReported, IncidentPaging})"

fun kind_number :: "anomaly_kind \<Rightarrow> nat" where
  "kind_number AnomalyLatencyShift = 1"
| "kind_number AnomalyErrorBurst = 2"
| "kind_number AnomalyNewErrorSignature = 3"
| "kind_number AnomalyThroughputDrop = 4"
| "kind_number AnomalyTopologyChange = 5"
| "kind_number (AnomalyUndeclared w) = unat w"

text \<open>\<open>%x\<close> of a number: no leading zeros.\<close>

fun show_hex :: "nat \<Rightarrow> string" where
  "show_hex n = (if n < 16 then [hex_digit n] else show_hex (n div 16) @ [hex_digit (n mod 16)])"

declare show_hex.simps [simp del]

definition fingerprint_tokens :: "anomaly_event \<Rightarrow> string list" where
  "fingerprint_tokens e =
     sort ([''svc:'' @ ae_Service e, ''kind:'' @ show_nat (kind_number (ae_Kind e))]
       @ (if ae_Operation e \<noteq> [] then [''op:'' @ ae_Operation e] else [])
       @ (if ae_ErrorSigID e \<noteq> [] then [''errsig:'' @ ae_ErrorSigID e] else []))"

definition computeFingerprint :: "(string \<Rightarrow> 64 word) \<Rightarrow> tenant_id \<Rightarrow> anomaly_event \<Rightarrow> string" where
  "computeFingerprint fnv tid e =
     ''fp1:'' @ show_hex (unat (fnv (tid @ CHR 0x00 # join_with [CHR 0x01] (fingerprint_tokens e))))"

definition severityFor :: "rat \<Rightarrow> nat \<Rightarrow> severity" where
  "severityFor score distinctServices =
     (if score < rnd64 (55 / 100) then SeverityUnknown
      else if score \<le> rnd64 (69 / 100) then (if distinctServices \<ge> 2 then SeverityMedium else SeverityLow)
      else if score \<le> rnd64 (84 / 100) then SeverityHigh
      else SeverityCritical)"

definition fetch_neighbors :: "grouper_env \<Rightarrow> tenant_id \<Rightarrow> string \<Rightarrow> grouper \<Rightarrow> string list \<times> grouper" where
  "fetch_neighbors v tid service g =
     (case gx_Neighbors v of
        None \<Rightarrow> ([], g)
      | Some nb \<Rightarrow>
          (case nb tid service (gp_TopologyHops (gx_cfg v)) of
             None \<Rightarrow> ([], g)
           | Some ns \<Rightarrow>
               (ns, g\<lparr>gr_neighborCache := (gr_neighborCache g)(tid @ ''|'' @ service \<mapsto>
                  \<lparr>ne_neighbors = ns, ne_expiresAt = gx_now v + gp_NeighborCacheTTL (gx_cfg v)\<rparr>)\<rparr>)))"

definition neighborsOf :: "grouper_env \<Rightarrow> tenant_id \<Rightarrow> string \<Rightarrow> grouper \<Rightarrow> string list \<times> grouper" where
  "neighborsOf v tid service g =
     (case gr_neighborCache g (tid @ ''|'' @ service) of
        None \<Rightarrow> fetch_neighbors v tid service g
      | Some e \<Rightarrow> if gx_now v < ne_expiresAt e then (ne_neighbors e, g) else fetch_neighbors v tid service g)"

definition addToByService :: "tenant_id \<Rightarrow> string \<Rightarrow> string \<Rightarrow> grouper \<Rightarrow> grouper" where
  "addToByService tid service i g =
     (if i \<in> set (gr_byService g tid service) then g
      else g\<lparr>gr_byService := (gr_byService g)(tid := (gr_byService g tid)(service := gr_byService g tid service @ [i]))\<rparr>)"

definition registerServiceForIncident :: "grouper_env \<Rightarrow> tenant_id \<Rightarrow> string \<Rightarrow> string \<Rightarrow> grouper \<Rightarrow> grouper" where
  "registerServiceForIncident v tid i service g =
     (let (ns, g1) = neighborsOf v tid service (addToByService tid service i g)
      in foldl (\<lambda>g n. addToByService tid n i g) g1 ns)"

text \<open>The map of the best score of each service: a score that is not above the one recorded, or zero, is not entered.\<close>

definition note_score :: "string \<Rightarrow> rat \<Rightarrow> (string \<times> rat) list \<Rightarrow> (string \<times> rat) list" where
  "note_score service score m =
     (if score > (case map_of m service of None \<Rightarrow> 0 | Some x \<Rightarrow> x) then AList.update service score m else m)"

definition max_score :: "(string \<times> rat) list \<Rightarrow> rat" where
  "max_score m = foldl (\<lambda>mx (s, sc). if sc > mx then sc else mx) 0 m"

definition incident_score :: "bool \<Rightarrow> rat \<Rightarrow> nat \<Rightarrow> rat" where
  "incident_score provisional mx distinct_services =
     (let score = clamp01 (rnd64 (mx * rnd64 (1 + rnd64 (rnd64 (5 / 100) * of_int (int distinct_services - 1)))))
      in if provisional \<and> score > rnd64 (69 / 100) then rnd64 (69 / 100) else score)"

definition better_service :: "string \<times> rat \<Rightarrow> string \<times> rat \<Rightarrow> string \<times> rat" where
  "better_service b s =
     (if snd s > snd b \<or> snd s = snd b \<and> (fst b = [] \<or> fst s < fst b) then s else b)"

definition epicenter :: "string \<Rightarrow> (string \<times> rat) list \<Rightarrow> string" where
  "epicenter old m = fst (foldl better_service (old, - 1) m)"

definition add_new :: "string list \<Rightarrow> string list \<Rightarrow> string list" where
  "add_new xs ys = foldl (\<lambda>xs y. if y \<in> set xs then xs else xs @ [y]) xs ys"

text \<open>The last \<open>k\<close> events are kept; a negative limit makes the slice expression panic and is not modelled.\<close>

definition keep_last :: "int \<Rightarrow> 'a list \<Rightarrow> 'a list" where
  "keep_last k xs = (if int (length xs) > k then drop (length xs - nat k) xs else xs)"

definition attachEvent :: "grouper_env \<Rightarrow> ((string \<times> rat) list \<Rightarrow> (string \<times> rat) list) \<Rightarrow> tenant_id \<Rightarrow> incident \<Rightarrow> anomaly_event \<Rightarrow> grouper
    \<Rightarrow> incident \<times> grouper" where
  "attachEvent v arrange tid inc e g =
     (let inc1 = inc\<lparr>in_EventIDs := keep_last (gp_MaxEventsPerIncident (gx_cfg v)) (in_EventIDs inc @ [ae_ID e])\<rparr>;
          isnew = ae_Service e \<notin> set (in_Services inc1);
          inc2 = (if isnew then inc1\<lparr>in_Services := in_Services inc1 @ [ae_Service e]\<rparr> else inc1);
          g1 = (if isnew then registerServiceForIncident v tid (in_ID inc) (ae_Service e) g else g);
          inc3 = inc2\<lparr>in_Provisional := (in_Provisional inc2 \<or> ae_Provisional e),
                      in_DeployMarkerIDs := add_new (in_DeployMarkerIDs inc2) (ae_DeployMarkerIDs e),
                      in_ExemplarTraceIDs := in_ExemplarTraceIDs inc2 @ take (4 - length (in_ExemplarTraceIDs inc2)) (ae_ExemplarTraceIDs e)\<rparr>;
          scores = note_score (ae_Service e) (ae_Score e) (gr_epicenterScore g1 (in_ID inc));
          g2 = g1\<lparr>gr_epicenterScore := (gr_epicenterScore g1)(in_ID inc := scores)\<rparr>;
          n = length (in_Services inc3);
          score = incident_score (in_Provisional inc3) (max_score (arrange scores)) n;
          epi = epicenter (in_EpicenterService inc3) (arrange scores);
          (ns, g3) = neighborsOf v tid epi g2
      in (inc3\<lparr>in_Score := score, in_Severity := severityFor score n, in_EpicenterService := epi,
               in_BlastRadius := sort (filter (\<lambda>s. s = epi \<or> s \<in> set ns) (in_Services inc3)),
               in_LastSeen := (if ae_CreatedAt e > in_LastSeen inc3 then ae_CreatedAt e else in_LastSeen inc3),
               in_UpdatedAt := ae_CreatedAt e\<rparr>, g3))"

definition new_incident :: "string \<Rightarrow> tenant_id \<Rightarrow> gotime \<Rightarrow> incident" where
  "new_incident i tid t =
     \<lparr>in_ID = i, in_Tenant = tid, in_Title = [], in_Status = IncidentCandidate, in_Severity = SeverityUnknown, in_Score = 0,
      in_Fingerprint = [], in_EventIDs = [], in_Services = [], in_EpicenterService = [], in_BlastRadius = [],
      in_ExemplarTraceIDs = [], in_DeployMarkerIDs = [], in_InvestigationID = [], in_SuppressedBy = [], in_Provisional = False,
      in_FirstSeen = t, in_LastSeen = t, in_CreatedAt = t, in_UpdatedAt = t\<rparr>"

text \<open>The open incident with the lowest score, the first in the order of the map.\<close>

definition lowest_open :: "incident list \<Rightarrow> incident option" where
  "lowest_open incs =
     foldl (\<lambda>low inc. case low of None \<Rightarrow> Some inc | Some l \<Rightarrow> if in_Score inc < in_Score l then Some inc else low) None
       (filter (\<lambda>inc. isOpen (in_Status inc)) incs)"

definition open_count :: "incident_map \<Rightarrow> nat" where
  "open_count m = count_rows (\<lambda>inc. isOpen (in_Status inc)) m"

definition enforceMaxOpenIncidents :: "grouper_env \<Rightarrow> (incident list \<Rightarrow> incident list) \<Rightarrow> tenant_id \<Rightarrow> grouper \<Rightarrow> grouper" where
  "enforceMaxOpenIncidents v order tid g =
     (case lowest_open (order (map snd (incidents_of tid g))) of
        None \<Rightarrow> g
      | Some low \<Rightarrow>
          if int (open_count (incidents_of tid g)) > gp_MaxOpenIncidents (gx_cfg v)
          then (put_incident tid (low\<lparr>in_Status := IncidentExpired\<rparr>) g)
                 \<lparr>gr_closedAt := (gr_closedAt g)(tid := (gr_closedAt g tid)(in_ID low \<mapsto> gx_now v))\<rparr>
          else g)"

text \<open>The incident a fingerprint leads to, if it may still take events.\<close>

definition fingerprint_target :: "grouper_env \<Rightarrow> tenant_id \<Rightarrow> string \<Rightarrow> anomaly_event \<Rightarrow> grouper \<Rightarrow> incident option" where
  "fingerprint_target v tid fp e g =
     (case gr_byFingerprint g tid fp of
        None \<Rightarrow> None
      | Some i \<Rightarrow> (case map_of (incidents_of tid g) i of
          None \<Rightarrow> None
        | Some inc \<Rightarrow>
            if isOpen (in_Status inc)
               \<or> (case gr_closedAt g tid i of None \<Rightarrow> False
                  | Some t \<Rightarrow> time_sub (ae_CreatedAt e) t \<le> gp_DedupeTTL (gx_cfg v))
            then Some inc else None))"

definition service_target :: "grouper_env \<Rightarrow> tenant_id \<Rightarrow> anomaly_event \<Rightarrow> grouper \<Rightarrow> incident option" where
  "service_target v tid e g =
     find (\<lambda>inc. isOpen (in_Status inc) \<and> in_UpdatedAt inc \<noteq> 0
             \<and> time_sub (ae_CreatedAt e) (in_UpdatedAt inc) \<le> gp_Window (gx_cfg v))
       (concat (map (\<lambda>i. case map_of (incidents_of tid g) i of None \<Rightarrow> [] | Some inc \<Rightarrow> [inc]) (gr_byService g tid (ae_Service e))))"

definition set_fingerprint :: "tenant_id \<Rightarrow> string \<Rightarrow> string \<Rightarrow> grouper \<Rightarrow> grouper" where
  "set_fingerprint tid fp i g =
     g\<lparr>gr_byFingerprint := (gr_byFingerprint g)(tid := (gr_byFingerprint g tid)(fp \<mapsto> i))\<rparr>"

text \<open>The incident returned is the stored one as it is at the end, and whether it is not a duplicate.\<close>

definition grouper_Add :: "grouper_env \<Rightarrow> ((string \<times> rat) list \<Rightarrow> (string \<times> rat) list) \<Rightarrow> (incident list \<Rightarrow> incident list) \<Rightarrow> tenant_id
    \<Rightarrow> anomaly_event \<Rightarrow> grouper \<Rightarrow> (incident \<times> bool) \<times> grouper" where
  "grouper_Add v arrange order tid e g =
     (let fp = computeFingerprint (gx_fnv v) tid e in
      case fingerprint_target v tid fp e g of
        Some inc \<Rightarrow>
          let (inc1, g1) = attachEvent v arrange tid inc e g; inc2 = inc1\<lparr>in_SuppressedBy := in_ID inc\<rparr>
          in ((inc2, False), put_incident tid inc2 g1)
      | None \<Rightarrow>
          (case service_target v tid e g of
             None \<Rightarrow>
               let i = ''inc-'' @ show_nat (gr_seq g + 1);
                   (inc1, g1) = attachEvent v arrange tid (new_incident i tid (ae_CreatedAt e)) e (g\<lparr>gr_seq := gr_seq g + 1\<rparr>);
                   inc2 = inc1\<lparr>in_Fingerprint := fp\<rparr>;
                   g2 = enforceMaxOpenIncidents v order tid (set_fingerprint tid fp i (put_incident tid inc2 g1))
               in ((the (map_of (incidents_of tid g2) i), True), g2)
           | Some inc \<Rightarrow>
               let (inc1, g1) = attachEvent v arrange tid inc e g;
                   inc2 = (if in_Fingerprint inc1 = [] then inc1\<lparr>in_Fingerprint := fp\<rparr> else inc1)
               in ((inc2, True), set_fingerprint tid fp (in_ID inc) (put_incident tid inc2 g1))))"

definition ActiveIncidents :: "tenant_id \<Rightarrow> grouper \<Rightarrow> incident list" where
  "ActiveIncidents tid g = sort_key in_ID (filter (\<lambda>inc. isOpen (in_Status inc)) (map snd (incidents_of tid g)))"

definition grouper_Suppress :: "grouper_env \<Rightarrow> tenant_id \<Rightarrow> string \<Rightarrow> string \<Rightarrow> grouper \<Rightarrow> grouper option" where
  "grouper_Suppress v tid i reason g =
     (case map_of (incidents_of tid g) i of
        None \<Rightarrow> None
      | Some inc \<Rightarrow> Some ((put_incident tid (inc\<lparr>in_Status := IncidentSuppressed, in_SuppressedBy := reason\<rparr>) g)
          \<lparr>gr_closedAt := (gr_closedAt g)(tid := (gr_closedAt g tid)(i \<mapsto> gx_now v))\<rparr>))"

definition grouper_Tick :: "gotime \<Rightarrow> grouper \<Rightarrow> grouper" where
  "grouper_Tick now g =
     g\<lparr>gr_stats := \<lparr>gs_OpenIncidents = sum_list (map (open_count \<circ> snd) (gr_incidents g)), gs_LastTickAt = now\<rparr>\<rparr>"

end
