(* ===== verification/AnomalyProps.thy ===== *)
theory AnomalyProps
  imports Grouper Transition
begin

text \<open>
  What the anomaly detection guarantees: the invariant of the grouper over every operation, which service is the
  epicenter, what detectors see, and the bounds of the baselines.
\<close>

section \<open>Incidents\<close>

text \<open>What is true of every stored incident of a tenant.\<close>

definition incident_ok :: "grouping_config \<Rightarrow> tenant_id \<Rightarrow> incident \<Rightarrow> bool" where
  "incident_ok cfg tid inc \<longleftrightarrow>
     in_Tenant inc = tid \<and> 0 \<le> in_Score inc \<and> in_Score inc \<le> 1
     \<and> (in_Provisional inc \<longrightarrow> in_Score inc \<le> rnd64 (69 / 100))
     \<and> in_Severity inc = severityFor (in_Score inc) (length (in_Services inc))
     \<and> int (length (in_EventIDs inc)) \<le> max 0 (gp_MaxEventsPerIncident cfg) \<and> length (in_ExemplarTraceIDs inc) \<le> 4
     \<and> distinct (in_Services inc)"

lemma clamp01_bounds: "0 \<le> clamp01 x" "clamp01 x \<le> 1"
  by (auto simp: clamp01_def)

lemma score_cap: "0 \<le> rnd64 (69 / 100)" "rnd64 (69 / 100) \<le> 1"
  using fl.unit [of "69 / 100"] by simp_all

lemma incident_score_bounds:
  "0 \<le> incident_score pr mx n" "incident_score pr mx n \<le> 1" "pr \<Longrightarrow> incident_score pr mx n \<le> rnd64 (69 / 100)"
  using clamp01_bounds score_cap by (auto simp: incident_score_def Let_def)

lemma keep_last_length: "int (length (keep_last k xs)) \<le> max 0 k"
  by (auto simp: keep_last_def)

lemma attachEvent_ok:
  assumes "attachEvent v arrange tid inc e g = (inc1, g1)" and "in_Tenant inc = tid" and "length (in_ExemplarTraceIDs inc) \<le> 4"
    and "distinct (in_Services inc)"
  shows "incident_ok (gx_cfg v) tid inc1" and "in_ID inc1 = in_ID inc" and "in_Status inc1 = in_Status inc"
    and "in_Fingerprint inc1 = in_Fingerprint inc"
  using assms keep_last_length [of "gp_MaxEventsPerIncident (gx_cfg v)" "in_EventIDs inc @ [ae_ID e]"]
  by (auto simp: attachEvent_def Let_def incident_ok_def incident_score_bounds split: prod.splits if_splits)

text \<open>Attaching an event only touches the indexes.\<close>

lemma neighborsOf_incidents: "neighborsOf v tid s g = (ns, g1) \<Longrightarrow> gr_incidents g1 = gr_incidents g \<and> gr_seq g1 = gr_seq g"
  by (auto simp: neighborsOf_def fetch_neighbors_def split: option.splits if_splits)

lemma addToByService_incidents: "gr_incidents (addToByService tid s i g) = gr_incidents g \<and> gr_seq (addToByService tid s i g) = gr_seq g"
  by (simp add: addToByService_def)

lemma foldl_addToByService:
  "gr_incidents (foldl (\<lambda>g n. addToByService tid n i g) g ns) = gr_incidents g
   \<and> gr_seq (foldl (\<lambda>g n. addToByService tid n i g) g ns) = gr_seq g"
  by (induction ns arbitrary: g) (simp_all add: addToByService_incidents)

lemma register_incidents:
  "gr_incidents (registerServiceForIncident v tid i s g) = gr_incidents g \<and> gr_seq (registerServiceForIncident v tid i s g) = gr_seq g"
  by (auto simp: registerServiceForIncident_def foldl_addToByService addToByService_incidents split: prod.splits dest!: neighborsOf_incidents)

lemma attachEvent_incidents:
  assumes "attachEvent v arrange tid inc e g = (inc1, g1)"
  shows "gr_incidents g1 = gr_incidents g \<and> gr_seq g1 = gr_seq g"
  using assms by (auto simp: attachEvent_def Let_def register_incidents split: prod.splits dest!: neighborsOf_incidents)

section \<open>The invariant of the grouper\<close>

definition issued :: "nat \<Rightarrow> string \<Rightarrow> bool" where
  "issued seq i \<longleftrightarrow> (\<exists>n \<le> seq. i = ''inc-'' @ show_nat n)"

lemma issued_mono: "issued seq i \<Longrightarrow> seq \<le> k \<Longrightarrow> issued k i"
  unfolding issued_def using order_trans by blast

definition incidents_ok :: "grouping_config \<Rightarrow> nat \<Rightarrow> tenant_id \<Rightarrow> incident_map \<Rightarrow> bool" where
  "incidents_ok cfg seq tid m \<longleftrightarrow>
     distinct (keys m)
     \<and> (\<forall>(i, inc) \<in> set m. in_ID inc = i \<and> incident_ok cfg tid inc \<and> issued seq i)"

definition grouper_ok :: "grouping_config \<Rightarrow> grouper \<Rightarrow> bool" where
  "grouper_ok cfg g \<longleftrightarrow>
     (\<forall>tid. incidents_ok cfg (gr_seq g) tid (incidents_of tid g)
        \<and> int (open_count (incidents_of tid g)) \<le> max 0 (gp_MaxOpenIncidents cfg))"

lemma incidents_of_put [simp]:
  "incidents_of t (put_incident tid inc g) = (if t = tid then AList.update (in_ID inc) inc (incidents_of tid g) else incidents_of t g)"
  by (simp add: incidents_of_def put_incident_def)

lemma put_incident_seq [simp]: "gr_seq (put_incident tid inc g) = gr_seq g"
  by (simp add: put_incident_def)

lemma set_fingerprint_fields [simp]:
  "incidents_of t (set_fingerprint tid fp i g) = incidents_of t g" "gr_seq (set_fingerprint tid fp i g) = gr_seq g"
  by (simp_all add: set_fingerprint_def incidents_of_def)

lemma incidents_ok_mono: "incidents_ok cfg n tid m \<Longrightarrow> n \<le> k \<Longrightarrow> incidents_ok cfg k tid m"
  unfolding incidents_ok_def using issued_mono by blast

lemma incidents_ok_update:
  assumes "incidents_ok cfg seq tid m" and "incident_ok cfg tid inc" and "issued seq (in_ID inc)"
  shows "incidents_ok cfg seq tid (AList.update (in_ID inc) inc m)"
  using assms set_update_keys [of m "\<lambda>i inc. in_ID inc = i \<and> incident_ok cfg tid inc \<and> issued seq i" "in_ID inc" inc]
  unfolding incidents_ok_def by simp

text \<open>Replacing a stored incident by one that is no more open than it was.\<close>

lemma put_keeps:
  assumes "grouper_ok cfg g" and "map_of (incidents_of tid g) (in_ID inc) = Some old" and "incident_ok cfg tid inc"
    and "isOpen (in_Status inc) \<Longrightarrow> isOpen (in_Status old)"
  shows "grouper_ok cfg (put_incident tid inc g)"
proof -
  have m: "incidents_ok cfg (gr_seq g) tid (incidents_of tid g)" "int (open_count (incidents_of tid g)) \<le> max 0 (gp_MaxOpenIncidents cfg)"
    using assms(1) by (simp_all add: grouper_ok_def)
  have "issued (gr_seq g) (in_ID inc)" using m(1) assms(2) by (auto simp: incidents_ok_def dest!: map_of_SomeD)
  from incidents_ok_update [OF m(1) assms(3) this]
  have ok: "incidents_ok cfg (gr_seq g) tid (AList.update (in_ID inc) inc (incidents_of tid g))" .
  have "open_count (AList.update (in_ID inc) inc (incidents_of tid g)) \<le> open_count (incidents_of tid g)"
    unfolding open_count_def
    using assms(4) by (intro count_rows_update_le [OF assms(2), of "\<lambda>i. isOpen (in_Status i)" inc]) blast
  with m(2) have "int (open_count (AList.update (in_ID inc) inc (incidents_of tid g))) \<le> max 0 (gp_MaxOpenIncidents cfg)" by linarith
  with ok assms(1) show ?thesis by (simp add: grouper_ok_def)
qed

lemma grouper_ok_fields:
  "grouper_ok cfg g \<Longrightarrow> gr_incidents h = gr_incidents g \<Longrightarrow> gr_seq g \<le> gr_seq h \<Longrightarrow> grouper_ok cfg h"
  by (auto simp: grouper_ok_def incidents_of_def intro: incidents_ok_mono)

lemma stored_incident:
  assumes "grouper_ok cfg g" and "map_of (incidents_of tid g) i = Some inc"
  shows "in_ID inc = i" "incident_ok cfg tid inc"
  using assms by (fastforce simp: grouper_ok_def incidents_ok_def dest!: map_of_SomeD)+

lemma lowest_open_some:
  assumes "lowest_open incs = Some low"
  shows "low \<in> set incs" and "isOpen (in_Status low)"
proof -
  have "foldl (\<lambda>low inc. case low of None \<Rightarrow> Some inc | Some l \<Rightarrow> if in_Score inc < in_Score l then Some inc else low) x ys = Some low
    \<Longrightarrow> low \<in> set ys \<or> x = Some low" for x and ys :: "incident list"
    by (induction ys arbitrary: x) (fastforce split: option.splits if_splits)+
  from this [of None "filter (\<lambda>inc. isOpen (in_Status inc)) incs"] assms show "low \<in> set incs" "isOpen (in_Status low)"
    by (auto simp: lowest_open_def)
qed

lemma lowest_open_none: "lowest_open incs = None \<longleftrightarrow> \<not> (\<exists>inc \<in> set incs. isOpen (in_Status inc))"
proof -
  define f :: "incident option \<Rightarrow> incident \<Rightarrow> incident option" where "f = (\<lambda>low inc. case low of None \<Rightarrow> Some inc | Some l \<Rightarrow> if in_Score inc < in_Score l then Some inc else low)"
  have f: "f None x = Some x" "f (Some l) x \<noteq> None" for x l by (simp_all add: f_def)
  have some: "x \<noteq> None \<Longrightarrow> foldl f x ys \<noteq> None" for x ys
    using f by (induction ys arbitrary: x) auto
  have "foldl f None ys = None \<longleftrightarrow> ys = []" for ys using some f(1) by (cases ys) auto
  from this [of "filter (\<lambda>inc. isOpen (in_Status inc)) incs"] show ?thesis
    unfolding lowest_open_def f_def filter_empty_conv by blast
qed

lemma no_rows_iff: "count_rows P m = 0 \<longleftrightarrow> \<not> (\<exists>x \<in> set (map snd m). P x)"
  by (auto simp: count_rows_def filter_empty_conv)

lemma enforce_keeps:
  assumes "\<forall>t. incidents_ok cfg (gr_seq g) t (incidents_of t g)"
    and "\<forall>t. t \<noteq> tid \<longrightarrow> int (open_count (incidents_of t g)) \<le> max 0 (gp_MaxOpenIncidents cfg)"
    and "int (open_count (incidents_of tid g)) \<le> max 0 (gp_MaxOpenIncidents cfg) + 1"
    and "\<forall>xs. set (order xs) = set xs" and "gx_cfg v = cfg"
  shows "grouper_ok cfg (enforceMaxOpenIncidents v order tid g)" and "gr_seq (enforceMaxOpenIncidents v order tid g) = gr_seq g"
proof -
  let ?m = "incidents_of tid g" and ?open = "\<lambda>inc. isOpen (in_Status inc)"
  have set: "set (order (map snd ?m)) = snd ` set ?m" using assms(4) by simp
  show "gr_seq (enforceMaxOpenIncidents v order tid g) = gr_seq g"
    by (simp add: enforceMaxOpenIncidents_def split: option.splits)
  show "grouper_ok cfg (enforceMaxOpenIncidents v order tid g)"
  proof (cases "lowest_open (order (map snd ?m))")
    case None
    then have "open_count ?m = 0" unfolding open_count_def no_rows_iff lowest_open_none set by simp
    then have "int (open_count (incidents_of t g)) \<le> max 0 (gp_MaxOpenIncidents cfg)" for t
      using assms(2) by (cases "t = tid") auto
    with None assms(1) show ?thesis by (simp add: enforceMaxOpenIncidents_def grouper_ok_def)
  next
    case (Some low)
    from lowest_open_some [OF Some] set obtain i where i: "(i, low) \<in> set ?m" "?open low" by auto
    have ok: "distinct (keys ?m)" "in_ID low = i" "incident_ok cfg tid low" "issued (gr_seq g) i"
      using assms(1) i(1) unfolding incidents_ok_def by fastforce+
    then have old: "map_of ?m (in_ID low) = Some low" using i(1) by simp
    let ?x = "low\<lparr>in_Status := IncidentExpired\<rparr>"
    have x: "incident_ok cfg tid ?x" using ok(3) by (simp add: incident_ok_def)
    from incidents_ok_update [OF assms(1) [rule_format] x] ok(2,4)
    have m1: "incidents_ok cfg (gr_seq g) tid (AList.update (in_ID low) ?x ?m)" by simp
    have "count_rows ?open (AList.update (in_ID low) ?x ?m) + 1 = count_rows ?open ?m"
      using count_rows_update [OF old, of ?open ?x] i(2) by (simp add: isOpen_def)
    then have m2: "int (open_count (AList.update (in_ID low) ?x ?m)) \<le> max 0 (gp_MaxOpenIncidents cfg)"
      using assms(3) by (simp add: open_count_def)
    let ?g1 = "put_incident tid ?x g"
    show ?thesis
    proof (cases "int (open_count ?m) > gp_MaxOpenIncidents (gx_cfg v)")
      case True
      have "grouper_ok cfg ?g1" using assms(1,2) m1 m2 by (simp add: grouper_ok_def)
      then have "grouper_ok cfg (?g1\<lparr>gr_closedAt := c\<rparr>)" for c by (rule grouper_ok_fields) simp_all
      with True Some show ?thesis by (simp add: enforceMaxOpenIncidents_def)
    next
      case False
      with assms(2,5) have "int (open_count (incidents_of t g)) \<le> max 0 (gp_MaxOpenIncidents cfg)" for t
        by (cases "t = tid") auto
      with False Some assms(1) show ?thesis by (simp add: enforceMaxOpenIncidents_def grouper_ok_def)
    qed
  qed
qed

lemma fingerprint_target_stored: "fingerprint_target v tid fp e g = Some inc \<Longrightarrow> \<exists>i. map_of (incidents_of tid g) i = Some inc"
  by (auto simp: fingerprint_target_def split: option.splits if_splits)

lemma service_target_stored: "service_target v tid e g = Some inc \<Longrightarrow> \<exists>i. map_of (incidents_of tid g) i = Some inc"
  by (auto simp: service_target_def find_Some_iff in_set_conv_nth [symmetric] split: option.splits) (fastforce dest: nth_mem split: option.splits)

lemma attach_stored:
  assumes ok: "grouper_ok cfg g" and st: "map_of (incidents_of tid g) i = Some inc" and "gx_cfg v = cfg"
    and at: "attachEvent v arrange tid inc e g = (inc1, g1)"
  shows "grouper_ok cfg g1" and "map_of (incidents_of tid g1) (in_ID inc1) = Some inc" and "incident_ok cfg tid inc1"
    and "in_Status inc1 = in_Status inc"
proof -
  have inc: "in_ID inc = i" "incident_ok cfg tid inc" using stored_incident [OF ok st] .
  then have pre: "in_Tenant inc = tid" "length (in_ExemplarTraceIDs inc) \<le> 4" "distinct (in_Services inc)"
    by (simp_all add: incident_ok_def)
  note a = attachEvent_ok [OF at pre]
  from a assms(3) show "incident_ok cfg tid inc1" "in_Status inc1 = in_Status inc" by simp_all
  from attachEvent_incidents [OF at] grouper_ok_fields [OF ok] show "grouper_ok cfg g1" by simp
  from attachEvent_incidents [OF at] st inc(1) a(2) show "map_of (incidents_of tid g1) (in_ID inc1) = Some inc"
    by (simp add: incidents_of_def)
qed

lemma grouper_Add_ok:
  assumes ok: "grouper_ok cfg g" and cfg: "gx_cfg v = cfg" and order: "\<forall>xs. set (order xs) = set xs"
  shows "grouper_ok cfg (snd (grouper_Add v arrange order tid e g))"
proof -
  define fp where "fp = computeFingerprint (gx_fnv v) tid e"
  consider (fingerprint) inc where "fingerprint_target v tid fp e g = Some inc"
    | (service) inc where "fingerprint_target v tid fp e g = None" "service_target v tid e g = Some inc"
    | (fresh) "fingerprint_target v tid fp e g = None" "service_target v tid e g = None" by fastforce
  then show ?thesis
  proof cases
    case fingerprint
    from fingerprint_target_stored [OF fingerprint] obtain i where i: "map_of (incidents_of tid g) i = Some inc" by blast
    obtain inc1 g1 where at: "attachEvent v arrange tid inc e g = (inc1, g1)" by force
    note a = attach_stored [OF ok i cfg at]
    let ?x = "inc1\<lparr>in_SuppressedBy := in_ID inc\<rparr>"
    have "grouper_ok cfg (put_incident tid ?x g1)"
      by (rule put_keeps [OF a(1)]) (use a in \<open>simp_all add: incident_ok_def\<close>)
    with fingerprint at show ?thesis by (simp add: grouper_Add_def fp_def [symmetric] Let_def)
  next
    case service
    from service_target_stored [OF service(2)] obtain i where i: "map_of (incidents_of tid g) i = Some inc" by blast
    obtain inc1 g1 where at: "attachEvent v arrange tid inc e g = (inc1, g1)" by force
    note a = attach_stored [OF ok i cfg at]
    let ?x = "if in_Fingerprint inc1 = [] then inc1\<lparr>in_Fingerprint := fp\<rparr> else inc1"
    have x: "incident_ok cfg tid ?x" "in_ID ?x = in_ID inc1" "in_Status ?x = in_Status inc" using a by (simp_all add: incident_ok_def)
    have "grouper_ok cfg (put_incident tid ?x g1)"
      by (rule put_keeps [OF a(1) _ x(1)]) (use a(2) x in simp_all)
    then have "grouper_ok cfg (set_fingerprint tid fp (in_ID inc) (put_incident tid ?x g1))" by (simp add: grouper_ok_def)
    with service at show ?thesis by (simp add: grouper_Add_def fp_def [symmetric] Let_def)
  next
    case fresh
    define i where "i = ''inc-'' @ show_nat (gr_seq g + 1)"
    obtain inc1 g1 where at: "attachEvent v arrange tid (new_incident i tid (ae_CreatedAt e)) e (g\<lparr>gr_seq := gr_seq g + 1\<rparr>) = (inc1, g1)"
      by force
    have a: "incident_ok cfg tid inc1" "in_ID inc1 = i" "in_Status inc1 = IncidentCandidate"
      using attachEvent_ok [OF at] cfg by (simp_all add: new_incident_def)
    have f: "gr_incidents g1 = gr_incidents g" "gr_seq g1 = gr_seq g + 1" using attachEvent_incidents [OF at] by simp_all
    have same: "incidents_of t g1 = incidents_of t g" for t using f(1) by (simp add: incidents_of_def)
    let ?x = "inc1\<lparr>in_Fingerprint := fp\<rparr>" and ?m = "incidents_of tid g"
    have x: "incident_ok cfg tid ?x" using a(1) by (simp add: incident_ok_def)
    have all: "incidents_ok cfg (gr_seq g + 1) t (incidents_of t g)" "int (open_count (incidents_of t g)) \<le> max 0 (gp_MaxOpenIncidents cfg)" for t
      using ok incidents_ok_mono [of cfg "gr_seq g" t _ "gr_seq g + 1"] by (simp_all add: grouper_ok_def)
    have "map_of ?m i = None"
    proof (rule ccontr)
      assume "map_of ?m i \<noteq> None"
      then obtain y where "(i, y) \<in> set ?m" by (auto dest: map_of_SomeD)
      then have "issued (gr_seq g) i" using ok unfolding grouper_ok_def incidents_ok_def by blast
      then obtain n where "n \<le> gr_seq g" "show_nat (gr_seq g + 1) = show_nat n" unfolding issued_def i_def by auto
      then show False using show_nat_inj by fastforce
    qed
    then have "AList.update i ?x ?m = ?m @ [(i, ?x)]" by (rule update_absent)
    then have count: "open_count (AList.update i ?x ?m) \<le> open_count ?m + 1" by (simp add: open_count_def)
    have iss: "issued (gr_seq g + 1) (in_ID ?x)" unfolding issued_def a(2)
      by (simp add: a(2)) (auto simp: i_def)
    from incidents_ok_update [OF all(1) x iss] a(2)
    have m1: "incidents_ok cfg (gr_seq g + 1) tid (AList.update i ?x ?m)" by simp
    let ?g2 = "set_fingerprint tid fp i (put_incident tid ?x g1)"
    have "grouper_ok cfg (enforceMaxOpenIncidents v order tid ?g2)"
    proof (rule enforce_keeps(1) [OF _ _ _ order cfg])
      show "\<forall>t. incidents_ok cfg (gr_seq ?g2) t (incidents_of t ?g2)" using m1 all(1) by (simp add: f(2) a(2) same)
      show "\<forall>t. t \<noteq> tid \<longrightarrow> int (open_count (incidents_of t ?g2)) \<le> max 0 (gp_MaxOpenIncidents cfg)" using all(2) by (simp add: same)
      show "int (open_count (incidents_of tid ?g2)) \<le> max 0 (gp_MaxOpenIncidents cfg) + 1"
        using count all(2) [of tid] by (simp add: a(2) same)
    qed
    then show ?thesis
      unfolding grouper_Add_def Let_def fp_def [symmetric] fresh i_def [symmetric] option.case at prod.case snd_conv .
  qed
qed

lemma grouper_Suppress_ok:
  assumes ok: "grouper_ok cfg g" and "grouper_Suppress v tid i reason g = Some h"
  shows "grouper_ok cfg h"
proof -
  from assms(2) obtain inc where i: "map_of (incidents_of tid g) i = Some inc"
    and h: "h = (put_incident tid (inc\<lparr>in_Status := IncidentSuppressed, in_SuppressedBy := reason\<rparr>) g)
          \<lparr>gr_closedAt := (gr_closedAt g)(tid := (gr_closedAt g tid)(i \<mapsto> gx_now v))\<rparr>"
    by (auto simp: grouper_Suppress_def split: option.splits)
  note inc = stored_incident [OF ok i]
  have "grouper_ok cfg (put_incident tid (inc\<lparr>in_Status := IncidentSuppressed, in_SuppressedBy := reason\<rparr>) g)"
    by (rule put_keeps [OF ok]) (use i inc in \<open>simp_all add: incident_ok_def isOpen_def\<close>)
  then show ?thesis unfolding h by (rule grouper_ok_fields) simp_all
qed

lemma grouper_Tick_ok: "grouper_ok cfg g \<Longrightarrow> grouper_ok cfg (grouper_Tick now g)"
  by (rule grouper_ok_fields [of cfg g]) (simp_all add: grouper_Tick_def)

inductive grouper_step :: "grouping_config \<Rightarrow> grouper \<Rightarrow> grouper \<Rightarrow> bool" for cfg where
  step_Add: "gx_cfg v = cfg \<Longrightarrow> \<forall>xs. set (order xs) = set xs \<Longrightarrow> grouper_step cfg g (snd (grouper_Add v arrange order tid e g))"
| step_Suppress: "gx_cfg v = cfg \<Longrightarrow> grouper_Suppress v tid i reason g = Some h \<Longrightarrow> grouper_step cfg g h"
| step_Tick: "grouper_step cfg g (grouper_Tick now g)"

inductive_simps grouper_step_simps: "grouper_step cfg g h"

interpretation grouping: invariant_system "\<lambda>g. g = NewGrouper" "grouper_step cfg" "grouper_ok cfg" for cfg
proof
  show "g = NewGrouper \<Longrightarrow> grouper_ok cfg g" for g
    by (simp add: grouper_ok_def incidents_of_def NewGrouper_def incidents_ok_def open_count_def)
  show "grouper_ok cfg g \<Longrightarrow> grouper_step cfg g h \<Longrightarrow> grouper_ok cfg h" for g h
    by (auto simp: grouper_step_simps grouper_Add_ok grouper_Tick_ok intro: grouper_Suppress_ok)
qed

section \<open>Properties of incidents\<close>

lemma threshold_order: "rnd64 (55 / 100) \<le> rnd64 (69 / 100)"
  by (rule rnd64_mono) simp

text \<open>C3. In every reachable grouper, whatever was added, suppressed or counted before, with any clock, topology and map order:
  the score of a stored incident is between 0 and 1, it is stored under its identifier for its tenant, a provisional incident
  is never of high or critical severity, the lists of events, services and exemplars are bounded and free of repeated
  services, and no tenant has more open incidents than the limit.\<close>

theorem incidents_sound:
  assumes "reach (\<lambda>g. g = NewGrouper) (grouper_step cfg) g"
  shows "(\<forall>tid i inc. map_of (incidents_of tid g) i = Some inc \<longrightarrow>
            in_ID inc = i \<and> in_Tenant inc = tid \<and> 0 \<le> in_Score inc \<and> in_Score inc \<le> 1
            \<and> (in_Provisional inc \<longrightarrow> in_Severity inc \<in> {SeverityUnknown, SeverityLow, SeverityMedium})
            \<and> int (length (in_EventIDs inc)) \<le> max 0 (gp_MaxEventsPerIncident cfg)
            \<and> length (in_ExemplarTraceIDs inc) \<le> 4 \<and> distinct (in_Services inc))
         \<and> (\<forall>tid. int (length (ActiveIncidents tid g)) \<le> max 0 (gp_MaxOpenIncidents cfg))"
proof -
  from grouping.reach_inv [OF assms] have ok: "grouper_ok cfg g" .
  have "in_Provisional inc \<longrightarrow> in_Severity inc \<in> {SeverityUnknown, SeverityLow, SeverityMedium}"
    if "incident_ok cfg tid inc" for tid inc
    using that threshold_order by (auto simp: incident_ok_def severityFor_def)
  moreover have "length (ActiveIncidents tid g) = open_count (incidents_of tid g)" for tid
    by (simp add: ActiveIncidents_def open_count_def count_rows_def)
  ultimately show ?thesis using stored_incident [OF ok] ok by (auto simp: incident_ok_def grouper_ok_def)
qed

text \<open>An event with the fingerprint of an open incident joins that incident, however long ago it was last seen; it is
  returned as a duplicate and marks the incident as suppressed by itself.\<close>

theorem fingerprint_absorbs_forever:
  assumes "gr_byFingerprint g tid (computeFingerprint (gx_fnv v) tid e) = Some i"
    and "map_of (incidents_of tid g) i = Some inc" and "isOpen (in_Status inc)" and "in_ID inc = i"
  shows "\<exists>inc1. fst (grouper_Add v arrange order tid e g) = (inc1, False) \<and> in_ID inc1 = i \<and> in_Status inc1 = in_Status inc
    \<and> in_SuppressedBy inc1 = i \<and> in_UpdatedAt inc1 = ae_CreatedAt e"
proof -
  obtain inc1 g1 where at: "attachEvent v arrange tid inc e g = (inc1, g1)" by force
  then have "in_ID inc1 = in_ID inc" "in_Status inc1 = in_Status inc" "in_UpdatedAt inc1 = ae_CreatedAt e"
    by (auto simp: attachEvent_def Let_def split: prod.splits)
  then show ?thesis using assms at by (simp add: grouper_Add_def fingerprint_target_def Let_def)
qed

section \<open>The epicenter\<close>

definition best_services :: "(string \<times> rat) list \<Rightarrow> string set" where
  "best_services m = {s. \<exists>x. (s, x) \<in> set m \<and> (\<forall>(t, y) \<in> set m. y \<le> x)}"

text \<open>The loop over the scores finds a best one, and among equals the least name unless one of them is empty.\<close>

lemma better_service_le: "snd b \<le> snd (better_service b p)" "snd p \<le> snd (better_service b p)"
  by (auto simp: better_service_def)

lemma epicenter_fold:
  "foldl better_service b m \<in> set (b # m) \<and> (\<forall>p \<in> set (b # m). snd p \<le> snd (foldl better_service b m))
   \<and> ((\<forall>p \<in> set (b # m). snd p = snd (foldl better_service b m) \<longrightarrow> fst p \<noteq> [])
      \<longrightarrow> (\<forall>p \<in> set (b # m). snd p = snd (foldl better_service b m) \<longrightarrow> fst (foldl better_service b m) \<le> fst p))"
proof (induction m arbitrary: b)
  case (Cons p m)
  define c where "c = better_service b p"
  define r where "r = foldl better_service c m"
  have c: "c \<in> {b, p}" "snd b \<le> snd c" "snd p \<le> snd c"
    using better_service_le [of b p] by (auto simp: c_def better_service_def)
  from Cons.IH [of c] have r: "r \<in> set (c # m)" "\<forall>q \<in> set (c # m). snd q \<le> snd r"
    and least: "(\<forall>q \<in> set (c # m). snd q = snd r \<longrightarrow> fst q \<noteq> []) \<Longrightarrow> \<forall>q \<in> set (c # m). snd q = snd r \<longrightarrow> fst r \<le> fst q"
    unfolding r_def [symmetric] by blast+
  have max: "\<forall>q \<in> set (b # p # m). snd q \<le> snd r" using r(2) c(2,3) by (auto intro: order_trans)
  have "fst r \<le> fst q" if ne: "\<forall>q \<in> set (b # p # m). snd q = snd r \<longrightarrow> fst q \<noteq> []" and q: "q \<in> set (b # p # m)" "snd q = snd r" for q
  proof -
    have "\<forall>q \<in> set (c # m). snd q = snd r \<longrightarrow> fst q \<noteq> []" using ne c(1) by auto
    note least = least [OF this]
    show ?thesis
    proof (cases "q \<in> {b, p}")
      case True
      with c(2,3) r(2) q(2) have "snd c = snd r" by force
      with least have "fst r \<le> fst c" by simp
      moreover have "fst c \<le> fst q"
      proof (cases "q = b")
        case True
        then have "fst b \<noteq> []" "snd p \<le> snd b" using ne q max by auto
        then show ?thesis using True by (auto simp: c_def better_service_def)
      next
        case False
        then have "q = p" "snd b \<le> snd p" using True q max by auto
        then show ?thesis by (auto simp: c_def better_service_def)
      qed
      ultimately show ?thesis by simp
    qed (use least q in auto)
  qed
  moreover have "r \<in> set (b # p # m)" using r(1) c(1) by auto
  ultimately show ?case using max by (simp only: foldl_Cons c_def [symmetric] r_def [symmetric]) blast
qed simp

lemma epicenter_of_scores:
  assumes "m \<noteq> []" and "\<forall>(s, x) \<in> set m. 0 < x" and "set ms = set m"
  shows "epicenter old ms \<in> best_services m \<and> ([] \<notin> best_services m \<longrightarrow> (\<forall>t \<in> best_services m. epicenter old ms \<le> t))"
proof -
  obtain s y m1 where am: "ms = (s, y) # m1" using assms(1,3) by (cases ms) auto
  obtain b x where f: "foldl better_service (s, y) m1 = (b, x)" by force
  have "0 < y" using assms(2) unfolding assms(3) [symmetric] am by auto
  then have "better_service (old, - 1) (s, y) = (s, y)" by (simp add: better_service_def)
  with f have e: "epicenter old ms = b" by (simp add: epicenter_def am)
  note fold = epicenter_fold [of "(s, y)" m1, folded am, unfolded assms(3) f fst_conv snd_conv]
  then have bx: "(b, x) \<in> set m" "\<forall>(t, z) \<in> set m. z \<le> x" by auto
  then have best: "t \<in> best_services m \<longleftrightarrow> (t, x) \<in> set m" for t
    unfolding best_services_def by fastforce
  have "b \<le> t" if "([], x) \<notin> set m" "(t, x) \<in> set m" for t
    using fold that by fastforce
  with bx(1) show ?thesis unfolding e by (simp only: best) (use best in blast)
qed

text \<open>The scores that are kept are positive.\<close>

definition scores_positive :: "grouper \<Rightarrow> bool" where
  "scores_positive g \<longleftrightarrow> (\<forall>i. \<forall>(s, x) \<in> set (gr_epicenterScore g i). 0 < x)"

lemma neighborsOf_scores: "gr_epicenterScore (snd (neighborsOf v tid s g)) = gr_epicenterScore g"
  by (auto simp: neighborsOf_def fetch_neighbors_def split: option.splits)

lemma addToByService_scores [simp]: "gr_epicenterScore (addToByService tid s i g) = gr_epicenterScore g"
  by (simp add: addToByService_def)

lemma foldl_addToByService_scores: "gr_epicenterScore (foldl (\<lambda>g n. addToByService tid n i g) g ns) = gr_epicenterScore g"
  by (induction ns arbitrary: g) simp_all

lemma register_scores [simp]: "gr_epicenterScore (registerServiceForIncident v tid i s g) = gr_epicenterScore g"
  using neighborsOf_scores [of v tid s "addToByService tid s i g"]
  by (auto simp: registerServiceForIncident_def foldl_addToByService_scores split: prod.split)

lemma attachEvent_scores:
  assumes "attachEvent v arrange tid inc e g = (inc1, g1)"
  defines "m \<equiv> note_score (ae_Service e) (ae_Score e) (gr_epicenterScore g (in_ID inc))"
  shows "gr_epicenterScore g1 = (gr_epicenterScore g)(in_ID inc := m)" and "in_ID inc1 = in_ID inc"
    and "in_EpicenterService inc1 = epicenter (in_EpicenterService inc) (arrange m)"
proof -
  have nb: "neighborsOf v tid s h = (ns, h1) \<Longrightarrow> gr_epicenterScore h1 = gr_epicenterScore h" for s h ns h1
    using neighborsOf_scores [of v tid s h] by simp
  show "gr_epicenterScore g1 = (gr_epicenterScore g)(in_ID inc := m)" "in_ID inc1 = in_ID inc"
    "in_EpicenterService inc1 = epicenter (in_EpicenterService inc) (arrange m)"
    using assms(1) by (auto simp: attachEvent_def Let_def m_def split: prod.splits if_splits dest!: nb)
qed

lemma note_score_positive: "\<forall>(s, x) \<in> set m. 0 < x \<Longrightarrow> \<forall>(s, x) \<in> set (note_score service score m). (0 :: rat) < x"
proof -
  assume m: "\<forall>(s, x) \<in> set m. 0 < x"
  have "0 \<le> (case map_of m service of None \<Rightarrow> 0 | Some x \<Rightarrow> x)" using m by (fastforce split: option.split dest: map_of_SomeD)
  then show ?thesis using m by (auto simp: note_score_def dest!: set_update_subset)
qed

lemma attachEvent_positive: "scores_positive g \<Longrightarrow> attachEvent v arrange tid inc e g = (inc1, g1) \<Longrightarrow> scores_positive g1"
  using note_score_positive [of "gr_epicenterScore g (in_ID inc)"] by (auto simp: scores_positive_def attachEvent_scores(1))

lemma put_scores [simp]: "gr_epicenterScore (put_incident tid inc g) = gr_epicenterScore g"
  "gr_epicenterScore (set_fingerprint tid fp i g) = gr_epicenterScore g"
  "gr_epicenterScore (enforceMaxOpenIncidents v order tid g) = gr_epicenterScore g"
  by (simp_all add: put_incident_def set_fingerprint_def enforceMaxOpenIncidents_def split: option.split)

lemma scores_positive_stored [simp]:
  "scores_positive (put_incident tid inc g) = scores_positive g"
  "scores_positive (set_fingerprint tid fp i g) = scores_positive g"
  "scores_positive (enforceMaxOpenIncidents v order tid g) = scores_positive g"
  by (simp_all add: scores_positive_def)

lemma Suppress_positive: "scores_positive g \<Longrightarrow> grouper_Suppress v tid i reason g = Some h \<Longrightarrow> scores_positive h"
proof -
  assume "scores_positive g" "grouper_Suppress v tid i reason g = Some h"
  moreover from this have "gr_epicenterScore h = gr_epicenterScore g" by (auto simp: grouper_Suppress_def split: option.splits)
  ultimately show ?thesis by (simp add: scores_positive_def)
qed

lemma Tick_positive: "scores_positive g \<Longrightarrow> scores_positive (grouper_Tick now g)"
  by (simp add: grouper_Tick_def scores_positive_def)

lemma Add_positive: "scores_positive g \<Longrightarrow> scores_positive (snd (grouper_Add v arrange order tid e g))"
proof -
  assume g: "scores_positive g"
  moreover have "scores_positive (g\<lparr>gr_seq := n\<rparr>)" for n using g by (simp add: scores_positive_def)
  ultimately show ?thesis
    by (auto simp: grouper_Add_def Let_def split: option.split prod.split dest: attachEvent_positive)
qed

interpretation scoring: invariant_system "\<lambda>g. g = NewGrouper" "grouper_step cfg" scores_positive for cfg
proof
  show "g = NewGrouper \<Longrightarrow> scores_positive g" for g by (simp add: scores_positive_def NewGrouper_def)
  show "scores_positive g \<Longrightarrow> grouper_step cfg g h \<Longrightarrow> scores_positive h" for g h
    by (auto simp: grouper_step_simps Add_positive Tick_positive intro: Suppress_positive)
qed

text \<open>C21. Whenever an event joins an incident of a reachable grouper and a score is recorded for it, the epicenter is a
  service with the best recorded score, and the least such service in lexical order unless one of them has the
  empty name, whatever the order in which the map of scores is ranged over.\<close>

theorem epicenter_is_least_best:
  assumes "reach (\<lambda>g. g = NewGrouper) (grouper_step cfg) g" and "attachEvent v arrange tid inc e g = (inc1, g1)"
    and "\<forall>ms. set (arrange ms) = set ms" and "gr_epicenterScore g1 (in_ID inc1) \<noteq> []"
  shows "let best = best_services (gr_epicenterScore g1 (in_ID inc1)) in
    in_EpicenterService inc1 \<in> best \<and> ([] \<notin> best \<longrightarrow> (\<forall>t \<in> best. in_EpicenterService inc1 \<le> t))"
proof -
  have "scores_positive g1" using scoring.reach_inv [OF assms(1)] assms(2) by (rule attachEvent_positive)
  then have "\<forall>(s, x) \<in> set (gr_epicenterScore g1 (in_ID inc1)). 0 < x" by (simp add: scores_positive_def)
  from epicenter_of_scores [OF assms(4) this assms(3) [rule_format]] attachEvent_scores [OF assms(2)]
  show ?thesis by (simp add: Let_def)
qed

text \<open>With the empty name in a tie the epicenter depends on the order of the map.\<close>

theorem empty_name_order_dependent:
  "epicenter old [([], 1), (''a'', 1)] = ''a'' \<and> epicenter old [(''a'', 1), ([], 1)] = []"
  by (simp add: epicenter_def better_service_def)

section \<open>What the detectors see\<close>

definition sample_key :: "red_sample \<Rightarrow> string \<times> string" where
  "sample_key s = (rd_Service s, rd_Operation s)"

definition group_key :: "red_group \<Rightarrow> string \<times> string" where
  "group_key g = (rp_service g, rp_operation g)"

lemma group_sample_keys:
  assumes "\<forall>(k, g) \<in> set m. k = group_key g"
  shows "\<forall>(k, g) \<in> set (group_sample s m). k = group_key g" and "fst ` set (group_sample s m) = insert (sample_key s) (fst ` set m)"
proof -
  define g where "g = (case map_of m (sample_key s) of None \<Rightarrow> empty_group (rd_Service s) (rd_Operation s) | Some g \<Rightarrow> g)"
  have g: "group_key g = sample_key s"
    using assms by (auto simp: g_def empty_group_def group_key_def sample_key_def split: option.splits dest!: map_of_SomeD)
  let ?g = "g\<lparr>rp_calls := rp_calls g + rd_Calls s, rp_errors := rp_errors g + rd_Errors s,
      rp_p50 := q_P50Nanos (rd_Q s), rp_p95 := q_P95Nanos (rd_Q s), rp_p99 := q_P99Nanos (rd_Q s)\<rparr>"
  have gs: "group_sample s m = AList.update (sample_key s) ?g m" by (simp add: group_sample_def g_def sample_key_def Let_def)
  show "\<forall>(k, g) \<in> set (group_sample s m). k = group_key g"
    unfolding gs using assms g by (intro set_update_keys) (simp_all add: group_key_def)
  show "fst ` set (group_sample s m) = insert (sample_key s) (fst ` set m)"
    unfolding gs dom_map_of_conv_image_fst [symmetric] map_of_update by simp
qed

lemma groupSamples_keys: "group_key ` set (groupSamples samples) = sample_key ` set samples"
proof -
  have "(\<forall>(k, g) \<in> set (foldl (\<lambda>m s. group_sample s m) m ss). k = group_key g)
      \<and> fst ` set (foldl (\<lambda>m s. group_sample s m) m ss) = fst ` set m \<union> sample_key ` set ss"
    if "\<forall>(k, g) \<in> set m. k = group_key g" for m ss
    using that
  proof (induction ss arbitrary: m)
    case (Cons s ss)
    from Cons.IH [OF group_sample_keys(1) [OF Cons.prems]] group_sample_keys(2) [OF Cons.prems] show ?case by auto
  qed simp
  from this [of "[]" samples] have k: "\<forall>(k, g) \<in> set (foldl (\<lambda>m s. group_sample s m) [] samples). k = group_key g"
    and f: "fst ` set (foldl (\<lambda>m s. group_sample s m) [] samples) = sample_key ` set samples" by simp_all
  from k have "group_key ` snd ` set (foldl (\<lambda>m s. group_sample s m) [] samples) = fst ` set (foldl (\<lambda>m s. group_sample s m) [] samples)"
    by force
  with f show ?thesis by (simp add: groupSamples_def)
qed

lemma eval_groups_events:
  assumes "ev \<in> set (snd (eval_groups cfg arrange tid find_in samples cs))" and "\<forall>gs. set (arrange gs) = set gs"
  shows "\<exists>g \<in> set (groupSamples samples). find_in g = Some ev"
proof -
  define f where "f = (\<lambda>(cs, evs) g. case debounce cfg (baselineKeyStr tid (rp_service g) (rp_operation g)) (find_in g) cs of
      (cs1, None) \<Rightarrow> (cs1, evs) | (cs1, Some ev) \<Rightarrow> (cs1, evs @ [ev]))"
  have step: "set (snd (f (cs, evs) g)) \<subseteq> set evs \<union> {ev. find_in g = Some ev}" for cs evs g
    by (auto simp: f_def debounce_def Let_def split: option.splits prod.splits if_splits)
  have "set (snd (foldl f (cs, evs) gs)) \<subseteq> set evs \<union> {ev. \<exists>g \<in> set gs. find_in g = Some ev}" for cs evs gs
  proof (induction gs arbitrary: cs evs)
    case (Cons g gs)
    obtain cs1 evs1 where e: "f (cs, evs) g = (cs1, evs1)" by force
    with step [of cs evs g] Cons.IH [of cs1 evs1] show ?case by auto
  qed simp
  from this [of cs "[]" "arrange (groupSamples samples)"] assms show ?thesis
    by (auto simp: eval_groups_def f_def)
qed

lemma drop_event_key: "drop_finding cfg tid inp g = Some ev \<Longrightarrow> (ae_Service ev, ae_Operation ev) = group_key g"
  by (auto simp: drop_finding_def group_event_def blank_event_def group_key_def Let_def split: option.splits if_splits)

text \<open>A service that sends no traffic at all is never reported by the detector of throughput drops: it only looks at the
  operations that have a sample in the window, whatever the baseline of the others is.\<close>

theorem outage_undetected:
  assumes "\<forall>s \<in> set (ev_Samples inp). (rd_Service s, rd_Operation s) \<noteq> (service, operation)" and "\<forall>gs. set (arrange gs) = set gs"
    and "ev \<in> set (snd (Drop_Evaluate cfg arrange tid inp cs))"
  shows "(ae_Service ev, ae_Operation ev) \<noteq> (service, operation)"
proof -
  from eval_groups_events [OF assms(3) [unfolded Drop_Evaluate_def] assms(2)]
  obtain g where "g \<in> set (groupSamples (ev_Samples inp))" "drop_finding cfg tid inp g = Some ev" by blast
  with drop_event_key groupSamples_keys [of "ev_Samples inp"] have "(ae_Service ev, ae_Operation ev) \<in> sample_key ` set (ev_Samples inp)"
    by (metis image_eqI)
  with assms(1) show ?thesis by (auto simp: sample_key_def)
qed

text \<open>The debounce does not need consecutive ticks: a tick without a sample of the operation leaves its counter as it is.\<close>

theorem debounce_skips_gaps:
  assumes "groupSamples samples = [g]" and "find_in g = Some ev" and "ac_DebounceTicks cfg = 2"
    and "counter (baselineKeyStr tid (rp_service g) (rp_operation g)) cs = 0" and "\<forall>gs. set (arrange gs) = set gs \<and> length (arrange gs) = length gs"
  shows "snd (eval_groups cfg arrange tid find_in samples
      (fst (eval_groups cfg arrange tid find_in [] (fst (eval_groups cfg arrange tid find_in samples cs))))) = [ev]"
proof -
  have one: "arrange [g] = [g]"
  proof -
    have "length (arrange [g]) = 1" "set (arrange [g]) = {g}" using assms(5) [rule_format, of "[g]"] by simp_all
    then show ?thesis by (cases "arrange [g]") auto
  qed
  have none: "arrange [] = []" using assms(5) [rule_format, of "[]"] by simp
  show ?thesis using assms(2,3,4) by (simp add: eval_groups_def assms(1) one none groupSamples_def [of "[]"] debounce_def counter_def Let_def)
qed

section \<open>The digest\<close>














lemma compress_Compression [simp]: "td_Compression (compress d) = td_Compression d"
  by (simp add: compress_def Let_def)




section \<open>The baseline store\<close>

lemma delete_shrinks: "distinct (keys m) \<Longrightarrow> map_of m k = Some x \<Longrightarrow> Suc (length (AList.delete k m)) = length m"
proof (induction m)
  case (Cons p m)
  obtain k1 x1 where p: "p = (k1, x1)" by force
  show ?case
  proof (cases "k1 = k")
    case True
    with Cons.prems p have "AList.delete k m = m" by (intro delete_id) auto
    with True p show ?thesis by simp
  next
    case False
    with Cons p show ?thesis by auto
  qed
qed simp

definition entries_ok :: "anomaly_config \<Rightarrow> tenant_id \<Rightarrow> entry_map \<Rightarrow> bool" where
  "entries_ok cfg tid m \<longleftrightarrow>
     distinct (keys m) \<and> int (length m) \<le> max 1 (bl_MaxKeys (ac_Baseline cfg))
     \<and> (\<forall>(k, e) \<in> set m. be_key e = k \<and> length (be_seasons e) = 31)"

lemma evict_victim_in:
  assumes "m \<noteq> []" and "\<forall>es. set (arrange es) = set es"
  shows "evict_victim arrange m \<in> snd ` set m"
proof -
  let ?es = "sort_key be_updatedAt (arrange (map snd m))"
  have es: "set ?es = snd ` set m" using assms(2) by simp
  then have "?es \<noteq> []" using assms(1) by (metis image_is_empty set_empty)
  then have hd: "hd ?es \<in> snd ` set m" using es hd_in_set by blast
  have fold: "foldl (\<lambda>v e. if be_globalRPSEWMA e < be_globalRPSEWMA v then e else v) x ys \<in> insert x (set ys)" for x and ys :: "baseline_entry list"
    by (induction ys arbitrary: x) (simp_all, blast)
  have "set (take k ?es) \<subseteq> snd ` set m" for k using es set_take_subset by metis
  with hd have "insert (hd ?es) (set (take k ?es)) \<subseteq> snd ` set m" for k by blast
  from subsetD [OF this fold] show ?thesis unfolding evict_victim_def Let_def .
qed

lemma update_entry_fields [simp]:
  "be_key (update_entry a s e) = be_key e" "length (be_seasons (update_entry a s e)) = length (be_seasons e)"
  by (simp_all add: update_entry_def updateSlot_def Let_def)

lemma entries_ok_observed:
  assumes ok: "entries_ok cfg tid m" and arr: "\<forall>es. set (arrange es) = set es"
  shows "entries_ok cfg tid (AList.update key (update_entry al smp (case map_of m key of Some e \<Rightarrow> e | None \<Rightarrow> new_entry cfg key t))
    (if map_of m key = None \<and> int (length m) \<ge> bl_MaxKeys (ac_Baseline cfg) then evictOne arrange m else m))"
    (is "entries_ok cfg tid (AList.update key ?e ?m1)")
proof -
  have e: "be_key ?e = key" "length (be_seasons ?e) = 31"
    using ok by (auto simp: entries_ok_def new_entry_def split: option.splits dest!: map_of_SomeD)
  have evicted: "Suc (length (evictOne arrange m)) = length m" if ne: "m \<noteq> []"
  proof -
    obtain k v where v: "(k, v) \<in> set m" "evict_victim arrange m = v" using evict_victim_in [OF ne arr] by force
    with ok have "map_of m (be_key v) = Some v" by (auto simp: entries_ok_def)
    with ok ne v(2) show ?thesis by (simp add: evictOne_def delete_shrinks entries_ok_def)
  qed
  have sub: "set (evictOne arrange m) \<subseteq> set m" by (auto simp: evictOne_def AList.delete_eq)
  have m1: "distinct (keys ?m1)" "\<forall>(k, e) \<in> set ?m1. be_key e = k \<and> length (be_seasons e) = 31"
    using ok sub by (auto simp: entries_ok_def evictOne_def)
  have "int (length (AList.update key ?e ?m1)) \<le> max 1 (bl_MaxKeys (ac_Baseline cfg))"
  proof (cases "map_of m key")
    case None
    show ?thesis
    proof (cases "int (length m) \<ge> bl_MaxKeys (ac_Baseline cfg)")
      case True
      with length_update_le [of key ?e ?m1] None evicted ok show ?thesis
        by (cases "m = []") (auto simp: evictOne_def entries_ok_def)
    next
      case False
      with length_update_le [of key ?e ?m1] None show ?thesis by auto
    qed
  next
    case (Some x)
    with ok show ?thesis by (simp add: entries_ok_def length_update_present [OF Some])
  qed
  with m1 e show ?thesis unfolding entries_ok_def by (intro conjI set_update_keys distinct_keys_update) auto
qed

lemma Observe_entries:
  "tenant_entries t (Observe cfg arrange tid smp s) =
     (if t = tid then
        AList.update (tid, rd_Service smp, rd_Operation smp)
          (update_entry (bl_EWMAAlpha (ac_Baseline cfg)) smp
             (case map_of (tenant_entries tid s) (tid, rd_Service smp, rd_Operation smp) of
                Some e \<Rightarrow> e | None \<Rightarrow> new_entry cfg (tid, rd_Service smp, rd_Operation smp) (rd_BucketStart smp)))
          (if map_of (tenant_entries tid s) (tid, rd_Service smp, rd_Operation smp) = None
              \<and> int (length (tenant_entries tid s)) \<ge> bl_MaxKeys (ac_Baseline cfg)
           then evictOne arrange (tenant_entries tid s) else tenant_entries tid s)
      else tenant_entries t s)"
proof -
  have "tenant_entries t (s\<lparr>bs_byTenant := AList.update tid m (bs_byTenant s), bs_evicted := n\<rparr>) = (if t = tid then m else tenant_entries t s)" for m n
    by (simp add: tenant_entries_def)
  then show ?thesis by (simp only: Observe_def Let_def)
qed

inductive observe_step :: "anomaly_config \<Rightarrow> baseline_store \<Rightarrow> baseline_store \<Rightarrow> bool" for cfg where
  observe: "\<forall>es. set (arrange es) = set es \<Longrightarrow> observe_step cfg s (Observe cfg arrange tid sample s)"

interpretation baselines: invariant_system "\<lambda>s. s = NewBaselineStore" "observe_step cfg" "\<lambda>s. \<forall>tid. entries_ok cfg tid (tenant_entries tid s)" for cfg
proof
  show "s = NewBaselineStore \<Longrightarrow> \<forall>tid. entries_ok cfg tid (tenant_entries tid s)" for s
    by (simp add: NewBaselineStore_def tenant_entries_def entries_ok_def)
  fix s t
  assume ok: "\<forall>tid. entries_ok cfg tid (tenant_entries tid s)" and "observe_step cfg s t"
  then obtain arrange tid smp where t: "t = Observe cfg arrange tid smp s" and arr: "\<forall>es. set (arrange es) = set es"
    by (auto elim: observe_step.cases)
  show "\<forall>tid. entries_ok cfg tid (tenant_entries tid t)"
  proof
    fix u
    show "entries_ok cfg u (tenant_entries u t)"
      unfolding t Observe_entries using ok entries_ok_observed [OF ok [rule_format, of tid] arr] by (cases "u = tid") simp_all
  qed
qed

text \<open>C19. In every reachable store a tenant has at most the configured number of baselines (one, if the limit is not positive), and
  each is filed under its key with its 31 season slots.\<close>

theorem baselines_bounded:
  assumes "reach (\<lambda>s. s = NewBaselineStore) (observe_step cfg) s"
  shows "int (length (tenant_entries tid s)) \<le> max 1 (bl_MaxKeys (ac_Baseline cfg))
    \<and> (\<forall>(k, e) \<in> set (tenant_entries tid s). be_key e = k \<and> length (be_seasons e) = 31)"
  using baselines.reach_inv [OF assms] unfolding entries_ok_def by blast

text \<open>Two observations of the documentation that the code does not keep: the slots of the weekdays are never read, and the
  statistics count every warm baseline as provisional.\<close>

lemma hourSlot_less: "hourSlot t < 24"
  by (simp add: hourSlot_def nat_less_iff)

theorem weekday_slots_unread:
  assumes "24 \<le> i"
  shows "entry_baseline cfg oob svc oper t (e\<lparr>be_seasons := (be_seasons e)[i := x]\<rparr>) = entry_baseline cfg oob svc oper t e"
  using assms hourSlot_less [of t] by (cases "be_seasons e ! hourSlot t") (simp_all add: entry_baseline_def Let_def)

theorem warm_counts_provisional:
  assumes "bl_WarmupSamples (ac_Baseline cfg) \<le> be_globalSamples e" and "0 < bl_WarmupSamplesPerBucket (ac_Baseline cfg)"
  shows "counts_provisional cfg now e"
  using assms by (simp add: counts_provisional_def classifyState_def not_less)

section \<open>Runs\<close>

definition demo_event :: anomaly_event where
  "demo_event = (blank_event ''t1'' AnomalyLatencyShift ''latency_shift/v1'' ''a'' 5)\<lparr>ae_ID := ''e1'', ae_Score := 1, ae_Provisional := True\<rparr>"

definition demo_env :: grouper_env where
  "demo_env = \<lparr>gx_cfg = ac_Grouping DefaultConfig, gx_fnv = (\<lambda>s. 7), gx_Neighbors = None, gx_now = 6\<rparr>"

definition demo_grouper :: grouper where
  "demo_grouper = snd (grouper_Add demo_env id id ''t1'' demo_event NewGrouper)"

lemma demo_grouper_reach: "reach (\<lambda>g. g = NewGrouper) (grouper_step (ac_Grouping DefaultConfig)) demo_grouper"
  unfolding demo_grouper_def by (rule reach_step [OF reach_init], simp) (rule step_Add, simp_all add: demo_env_def)

lemma demo_stored: "\<exists>inc. map_of (incidents_of ''t1'' demo_grouper) ''inc-1'' = Some inc \<and> in_Provisional inc"
proof -
  obtain inc g where at: "attachEvent demo_env id ''t1'' (new_incident ''inc-1'' ''t1'' 5) demo_event (NewGrouper\<lparr>gr_seq := 1\<rparr>) = (inc, g)" by force
  have inc: "in_Provisional inc" "in_ID inc = ''inc-1''" "in_Status inc = IncidentCandidate"
    using at by (auto simp: attachEvent_def Let_def new_incident_def demo_event_def blank_event_def split: prod.splits)
  have g: "incidents_of ''t1'' g = []" using attachEvent_incidents [OF at] by (simp add: incidents_of_def NewGrouper_def)
  have i: "''inc-'' @ show_nat (gr_seq NewGrouper + 1) = ''inc-1''" by code_simp
  let ?fp = "computeFingerprint (gx_fnv demo_env) ''t1'' demo_event"
  have none: "fingerprint_target demo_env ''t1'' ?fp demo_event NewGrouper = None" "service_target demo_env ''t1'' demo_event NewGrouper = None"
    by (simp_all add: fingerprint_target_def service_target_def NewGrouper_def)
  have add: "demo_grouper = enforceMaxOpenIncidents demo_env id ''t1'' (set_fingerprint ''t1'' ?fp ''inc-1'' (put_incident ''t1'' (inc\<lparr>in_Fingerprint := ?fp\<rparr>) g))"
    (is "_ = enforceMaxOpenIncidents _ _ _ ?g")
    unfolding demo_grouper_def grouper_Add_def Let_def none option.case i
    using at by (simp add: demo_event_def blank_event_def NewGrouper_def)
  have "incidents_of ''t1'' ?g = [(''inc-1'', inc\<lparr>in_Fingerprint := ?fp\<rparr>)]" using g inc(2) by simp
  then have "demo_grouper = ?g"
    unfolding add enforceMaxOpenIncidents_def by (simp add: lowest_open_def isOpen_def inc open_count_def demo_env_def DefaultConfig_def)
  with \<open>incidents_of ''t1'' ?g = [(''inc-1'', inc\<lparr>in_Fingerprint := ?fp\<rparr>)]\<close>
  have "incidents_of ''t1'' demo_grouper = [(''inc-1'', inc\<lparr>in_Fingerprint := ?fp\<rparr>)]" by metis
  then show ?thesis using inc(1) by simp
qed

theorem incidents_sound_witness:
  "\<exists>inc. map_of (incidents_of ''t1'' demo_grouper) ''inc-1'' = Some inc
     \<and> in_Severity inc \<in> {SeverityUnknown, SeverityLow, SeverityMedium} \<and> length (ActiveIncidents ''t1'' demo_grouper) \<le> 200"
proof -
  from demo_stored obtain inc where inc: "map_of (incidents_of ''t1'' demo_grouper) ''inc-1'' = Some inc" "in_Provisional inc" by blast
  note s = incidents_sound [OF demo_grouper_reach]
  from s inc have "in_Severity inc \<in> {SeverityUnknown, SeverityLow, SeverityMedium}" by blast
  moreover have "int (length (ActiveIncidents ''t1'' demo_grouper)) \<le> max 0 (gp_MaxOpenIncidents (ac_Grouping DefaultConfig))" using s by blast
  ultimately show ?thesis using inc by (simp add: DefaultConfig_def)
qed

theorem epicenter_is_least_best_witness:
  "let (inc, g) = attachEvent demo_env rev ''t1'' (new_incident ''inc-1'' ''t1'' 5) demo_event demo_grouper
   in in_EpicenterService inc \<in> best_services (gr_epicenterScore g (in_ID inc))"
proof -
  obtain inc g where at: "attachEvent demo_env rev ''t1'' (new_incident ''inc-1'' ''t1'' 5) demo_event demo_grouper = (inc, g)" by force
  have "gr_epicenterScore g (in_ID inc) \<noteq> []"
    using attachEvent_scores(1,2) [OF at] by (auto simp: note_score_def demo_event_def split: option.splits)
  from epicenter_is_least_best [OF demo_grouper_reach at _ this] at show ?thesis by (simp add: Let_def)
qed

definition demo_baseline :: baseline where
  "demo_baseline =
     \<lparr>ba_Service = ''a'', ba_Operation = [], ba_Bucket = 0, ba_Q = \<lparr>q_P50Nanos = 0, q_P95Nanos = 0, q_P99Nanos = 0, q_MaxNanos = 0\<rparr>,
      ba_ErrorEWMA = 0, ba_RPSEWMA = 10, ba_Samples = 200, ba_Warmed = True, ba_Provisional = False, ba_UpdatedAt = 0\<rparr>"

definition demo_input :: eval_input where
  "demo_input =
     \<lparr>ev_Now = 5, ev_WindowStart = 0, ev_WindowEnd = second, ev_Samples = [(new_sample ''t1'' ''a'' [] 0)], ev_ErrorSigs = [],
      ev_Baselines = (\<lambda>t s oper n. Some demo_baseline), ev_Deploys = None\<rparr>"

definition demo_config :: anomaly_config where
  "demo_config = DefaultConfig\<lparr>ac_DebounceTicks := 1\<rparr>"

lemma demo_drop: "snd (Drop_Evaluate demo_config id ''t1'' demo_input []) \<noteq> []"
  by code_simp

theorem outage_undetected_witness:
  "\<exists>ev \<in> set (snd (Drop_Evaluate demo_config id ''t1'' demo_input [])). (ae_Service ev, ae_Operation ev) \<noteq> (''b'', [])"
proof -
  obtain ev where ev: "ev \<in> set (snd (Drop_Evaluate demo_config id ''t1'' demo_input []))" using demo_drop by (meson hd_in_set)
  have "(ae_Service ev, ae_Operation ev) \<noteq> (''b'', [])"
    by (rule outage_undetected [OF _ _ ev]) (simp_all add: demo_input_def new_sample_def)
  with ev show ?thesis by blast
qed


theorem baselines_bounded_witness:
  "int (length (tenant_entries ''t1'' (Observe DefaultConfig id ''t1'' (new_sample ''t1'' ''a'' [] 0) NewBaselineStore))) \<le> 10000"
proof -
  have "reach (\<lambda>s. s = NewBaselineStore) (observe_step DefaultConfig) (Observe DefaultConfig id ''t1'' (new_sample ''t1'' ''a'' [] 0) NewBaselineStore)"
    by (rule reach_step [OF reach_init], simp) (rule observe, simp)
  from baselines_bounded [OF this, of "''t1''"] show ?thesis by (simp add: DefaultConfig_def)
qed

end
