(* ===== verification/Spec2Isabelle.thy ===== *)
theory Spec2Isabelle
  imports GuardSafety GuardOutcomes AssemblyReplay IngestPipeline RcaProps TopologyClaims MemoryKeeps ConfigClaims AnomalyProps
begin

text \<open>
  TraceIQ (Tracing-bot): from spans to guarded remediation.

  The program ingests spans, assembles them into traces and keeps the interesting ones, looks for
  anomalies and their causes, and may propose remediation actions on a Kubernetes cluster, which a
  Guard lets through only after validation, allowlists, four-eyes approval, rate limits and an audit
  trail.  The development follows a span from the request to the sampler, and an action from the
  proposal to its execution.

  \<^bold>\<open>How the parts interact.\<close>  An OTLP or Zipkin request is normalized to a batch of spans, limited,
  stamped with the tenant of the caller and pushed on the bounded queue of every sink
  (src/internal/ingest).  A drain goroutine per queue hands the batches to the sink; the sampler
  (src/internal/sampler) is one of them: it buffers spans per trace in the shard that rendezvous
  hashing gives, journals them, counts them (RED), and when a trace is idle or too old decides by
  policy and interest predicates whether to keep it.  An incident is investigated by the root cause
  analysis (src/internal/rca), whose predicates steer the sampler.  Remediation
  (src/internal/remediate) is fed by it and by users.

  \<^bold>\<open>Shared theories.\<close>  Prelude: time, results, association lists.  Transition: reachable states, the
  contract of an invariant and of a quantity that no step lowers; these locales are interpreted on
  the Guard, the assembler, the predicate set, the keep policy, the queue, the graph, the memory, the baselines and the grouper.  Float64: Go's float64
  arithmetic as exact rational arithmetic followed by rounding to 53 bits.

  \<^bold>\<open>Ingest.\<close>  IngestModel: errors.go, metrics.go and the configuration.  IngestLimits: limits.go.
  IngestOTLP: otlp_normalize.go.  IngestZipkin: zipkin_normalize.go.  IngestQueue: queue.go, each
  operation atomic; IngestQueueSteps: the same operations as interleaved actions of any number of
  producers and the drain goroutine, with the proof that the atomic ones are runs of these, and the order of
  \<open>Server.Start\<close> and \<open>Server.Stop\<close> around them.
  IngestServer: ingest.go and the handler of otlpgrpc.go.  IngestProps and
  IngestPipeline show that limits hold and report what they remove, that identifiers and attribute
  values survive normalization, that an accepted batch carries the resolved tenant and reached every
  queue, that no tenant means no effect, and what a full queue leaves behind.

  \<^bold>\<open>Sampler.\<close>  Telemetry: the span and trace of src/internal/model/telemetry.go and the helpers of
  spanutil.go.  PathSignature: the hash of the call tree, a recursion with fuel; the number of spans
  is enough fuel when identifiers are distinct, which the assembler guarantees.  Interest: predicate.go.
  Policy: policy.go and tokenbucket.go.  Red: red.go.  Assembly: assembly.go, wal.go, impl.go and the
  routing of sampler.go.  InterestProps, PolicyProps, Routing, AssemblyInv, AssemblyReach,
  AssemblyProps, AssemblyRecovery and AssemblyReplay show the bounds of the predicate set and of the
  rare-path class, that drops are justified, what a tick finalizes, that RED counts every span once,
  and that replaying the journal restores the open traces.

  \<^bold>\<open>Topology.\<close>  TopologyModel and Topology: topology.go, livegraph.go (src/internal/topology) and
  topology_adapter.go.  The sampler and the ingest queues hand spans to \<open>Consume\<close>, which joins client and server
  spans into edges between services; the graph answers distances and neighbourhoods to the anomaly
  detection and the investigation.  TopologyPaths relates both searches to shortest paths (balls and rings
  of a relation); TopologyProps and TopologyClaims show the bounds in every reachable state
  (\<open>invariant_system\<close>), what eviction keeps, how spans are joined, and what a restart restores.

  \<^bold>\<open>Root cause analysis.\<close>  AnomalyModel and RcaModel: the data of src/internal/model/anomaly.go and rca.go, of
  rca.go, errors.go and llm.go.  RcaTools: tools.go and \<open>validateToolArgs\<close>.  RcaSanitizer: sanitizer.go.
  RcaSchema: schema.go.  RcaReasoner: the \<open>Reasoner\<close> interface as a record of functions, with the locale
  \<open>reasoner_contract\<close> the engine relies on; RcaRules (rules/rules.go) and RcaLLM (llm_reasoner.go) interpret
  it.  RcaStores: journal.go and budget.go, with the locales \<open>object_store\<close> and \<open>durable_journal\<close>
  interpreted on the in-memory stores.  RcaEngine, RcaLoop and RcaCalls: engine.go and interest.go;
  \<open>Investigate\<close> is cut into its start, its turns and its end, where other calls can interleave, and runs
  with fuel: a turn either stops, counts one of 24 steps or makes the only swap of the reasoner, so
  that 26 turns are enough.  RcaWiring: how cmd/traceiq wires it.  RcaTermination shows
  the counters and termination, RcaOutcomes the outcomes, RcaReplay the record (locale \<open>recording\<close>),
  RcaRuns the runs of the rules reasoner, and RcaProps the properties with concrete runs: an
  investigation ends within its budget, concludes only what a supported hypothesis says, can be
  replayed and detects changed evidence; the deployed wiring never concludes.

  \<^bold>\<open>Anomaly detection.\<close>  Baseline: config.go, quantile.go and baseline.go (src/internal/anomaly).  Detectors: deploy.go and
  the five detectors of detectors.go; the loops of the first three differ only in what they find in a group and share
  \<open>eval_groups\<close>.  Grouper: grouper.go.  Nothing in the code runs the detectors and hands their events to the grouper,
  so no such loop is modelled.  AnomalyProps shows the invariants of the grouper and of the baselines over every reachable
  state (\<open>invariant_system\<close>), which service is the epicenter of an incident, what a digest of values reports, and what
  the detectors do not see.

  \<^bold>\<open>Incident memory.\<close>  MemoryModel: fingerprint.go, memory.go, scorer.go and src/internal/model/memory.go.
  MemoryStore: the records of store.go, their search and ranking.  MemoryAdmin: export, import, consolidation,
  statistics and runbook.go.  MemoryProps: the invariant of the store over every operation.  MemoryClaims and
  MemoryKeeps show what \<open>Similar\<close> returns and in which order, that tenants are separate, that a bundle can be read
  back, which records consolidation removes, and when an incident finds its own investigation.

  \<^bold>\<open>Remediation.\<close>  RemediateModel: src/internal/model/remediate.go, k8s.go, errors.go and the fields of
  tenant.go.  Glob and Validate: validate.go.  Executor: executor.go.  AuditLog: audit.go.  Guard:
  guard.go, one definition per method.  GuardMoves refines every method to the life cycle of an
  action; GuardProps, GuardOrder, GuardSafety, GuardLaws and GuardOutcomes show the invariants of the
  action table, that an executor is only called for a cleared action and at most once, the budget,
  tenant isolation, finality, idempotency and liveness; AuditLog shows tamper evidence.

  \<^bold>\<open>Configuration.\<close>  GoParse: the scalars Go's standard library reads.  ConfigModel: a configuration as the tree that
  reflection shows, and the YAML values laid over it.  ConfigTypes: the structs of config.go
  (src/internal/config) and \<open>Default\<close>.  Config: decode.go, env.go, interpolate.go, validate.go and load.go; \<open>Load\<close> is None
  when it does not return.  ConfigProps and ConfigClaims show that the result has the type of a configuration and
  passed validation, that configurations survive being written as YAML, and when the expansion of variables ends.

  \<^bold>\<open>Parameters.\<close>  SHA-256, xxhash, JSON encoding and decoding, the clock, the tenant resolver, the policy
  store, the command runner, the language model, the tool backends, random identifiers, the iteration order of a map and the implementation-defined conversion
  of a float to an integer are arguments of the definitions that use them.

  \<^bold>\<open>Concurrency.\<close>  Methods that hold a mutex throughout are atomic functions.  The queues are also
  modelled action by action.  The assembler's blocking output channels are the list of what was sent.

  \<^bold>\<open>Not modelled.\<close>  Pure I/O and glue: listeners, TLS, goroutine start-up, process wiring (src/cmd/traceiq), the
  SQL and Parquet stores, the HTTP and MCP handlers.  Planned next: correlation,
  evaluation scores and natural-language questions.
\<close>

end
